(* ===== verification/Py_Prelude.thy ===== *)
theory Py_Prelude
  imports Complex_Main "HOL-Library.List_Lexorder" "HOL-Library.Char_ord" "HOL-Library.Product_Lexorder"
begin

text \<open>
  What every component of the development shares: the Python values that cross the
  program's dynamically typed boundaries, the exceptions it raises, computations that may
  raise and may change a store, association lists in Python's dictionary order, and the
  string operations the sources use.

  A Python exception is the left summand of \<^typ>\<open>'e + 'a\<close>. An operation on a store
  returns the new store beside its result, so a store that changed before an exception is
  visible; a transaction that rolls back returns the store it was given.
  Clock readings are \<^typ>\<open>rat\<close> arguments of the operations (seconds, \<^verbatim>\<open>time.time()\<close>), and fresh
  identifiers (\<^verbatim>\<open>uuid4().hex\<close>) are arguments too. Strings are lists of characters; each
  character stands for one code point.
\<close>

section \<open>Python values\<close>

type_synonym pytime = rat

text \<open>A float is a finite number, an infinity or NaN; \<^verbatim>\<open>math.isfinite\<close> tells them apart.\<close>

datatype pyfloat = FFin rat | FPosInf | FNegInf | FNaN

datatype pyval =
    PNone
  | PBool bool
  | PInt int
  | PFloat pyfloat
  | PStr string
  | PList "pyval list"
  | PDict "(string \<times> pyval) list"

definition dict_get :: "(string \<times> 'v) list \<Rightarrow> string \<Rightarrow> 'v option" where
  "dict_get d k = map_of d k"

text \<open>\<^verbatim>\<open>d.get(k)\<close>: the value, or None when the key is missing.\<close>

definition dict_get_none :: "(string \<times> pyval) list \<Rightarrow> string \<Rightarrow> pyval" where
  "dict_get_none d k = (case map_of d k of None \<Rightarrow> PNone | Some v \<Rightarrow> v)"

fun pyval_get :: "pyval \<Rightarrow> string \<Rightarrow> pyval" where
  "pyval_get (PDict d) k = dict_get_none d k"
| "pyval_get _ k = PNone"

text \<open>\<^verbatim>\<open>bool(v)\<close>.\<close>

fun truthy :: "pyval \<Rightarrow> bool" where
  "truthy PNone = False"
| "truthy (PBool b) = b"
| "truthy (PInt i) = (i \<noteq> 0)"
| "truthy (PFloat f) = (f \<noteq> FFin 0)"
| "truthy (PStr s) = (s \<noteq> [])"
| "truthy (PList xs) = (xs \<noteq> [])"
| "truthy (PDict d) = (d \<noteq> [])"

text \<open>\<^verbatim>\<open>isinstance(v, dict)\<close> and its kin; a bool is an int for \<^verbatim>\<open>isinstance\<close>, not for \<^verbatim>\<open>type\<close>.\<close>

fun is_dict :: "pyval \<Rightarrow> bool" where
  "is_dict (PDict _) = True"
| "is_dict _ = False"

fun is_str :: "pyval \<Rightarrow> bool" where
  "is_str (PStr _) = True"
| "is_str _ = False"

fun is_list :: "pyval \<Rightarrow> bool" where
  "is_list (PList _) = True"
| "is_list _ = False"

fun is_bool :: "pyval \<Rightarrow> bool" where
  "is_bool (PBool _) = True"
| "is_bool _ = False"

fun nonempty_str :: "pyval \<Rightarrow> bool" where
  "nonempty_str (PStr s) = (s \<noteq> [])"
| "nonempty_str _ = False"

text \<open>
  A number of type int or float (\<^verbatim>\<open>type(v) in (int, float)\<close> excludes bool) that is finite,
  as a rational.
\<close>

fun finite_number :: "pyval \<Rightarrow> rat option" where
  "finite_number (PInt i) = Some (of_int i)"
| "finite_number (PFloat (FFin q)) = Some q"
| "finite_number _ = None"

text \<open>
  \<^verbatim>\<open>json.dumps(v, allow_nan=False)\<close> accepts exactly the values without a NaN or an infinity.
\<close>

fun json_ok :: "pyval \<Rightarrow> bool" where
  "json_ok (PFloat f) = (case f of FFin _ \<Rightarrow> True | _ \<Rightarrow> False)"
| "json_ok (PList xs) = (\<forall>x \<in> set xs. json_ok x)"
| "json_ok (PDict d) = (\<forall>kv \<in> set d. json_ok (snd kv))"
| "json_ok _ = True"

text \<open>
  Python's \<^verbatim>\<open>==\<close>: numbers compare across bool, int and float; a NaN differs from everything; lists compare
  position by position; dictionaries compare as maps, whatever the order of their keys
  (a dictionary has each key once).
\<close>

fun py_num :: "pyval \<Rightarrow> rat option" where
  "py_num (PBool b) = Some (if b then 1 else 0)"
| "py_num (PInt i) = Some (of_int i)"
| "py_num (PFloat (FFin q)) = Some q"
| "py_num _ = None"

fun py_eq :: "pyval \<Rightarrow> pyval \<Rightarrow> bool" where
  "py_eq PNone w = (w = PNone)"
| "py_eq (PBool b) w = (py_num w = Some (if b then 1 else 0))"
| "py_eq (PInt i) w = (py_num w = Some (of_int i))"
| "py_eq (PFloat f) w =
     (case f of FFin q \<Rightarrow> py_num w = Some q | FNaN \<Rightarrow> False | _ \<Rightarrow> w = PFloat f)"
| "py_eq (PStr s) w = (w = PStr s)"
| "py_eq (PList xs) w =
     (case w of PList ys \<Rightarrow> list_all2 (\<lambda>x y. py_eq x y) xs ys | _ \<Rightarrow> False)"
| "py_eq (PDict d) w =
     (case w of
        PDict e \<Rightarrow> length d = length e
          \<and> list_all (\<lambda>kv. case map_of e (fst kv) of None \<Rightarrow> False | Some v \<Rightarrow> py_eq (snd kv) v) d
      | _ \<Rightarrow> False)"

text \<open>The values that equal themselves: no NaN inside, and every dictionary has each key once.\<close>

fun py_proper :: "pyval \<Rightarrow> bool" where
  "py_proper (PFloat f) = (f \<noteq> FNaN)"
| "py_proper (PList xs) = (\<forall>x \<in> set xs. py_proper x)"
| "py_proper (PDict d) = (distinct (map fst d) \<and> (\<forall>kv \<in> set d. py_proper (snd kv)))"
| "py_proper _ = True"

lemma py_eq_refl [simp]: "py_proper v \<Longrightarrow> py_eq v v"
proof (induction v rule: py_proper.induct)
  case (1 f)
  then show ?case by (cases f) auto
next
  case (2 xs)
  then show ?case by (auto simp: list_all2_conv_all_nth)
next
  case (3 d)
  then show ?case by (auto simp: list_all_iff dest: map_of_is_SomeI)
qed auto

section \<open>Exceptions\<close>

text \<open>
  The exceptions the modelled code raises and tells apart. \<^verbatim>\<open>AppError\<close> carries its HTTP
  status and message; \<^verbatim>\<open>OutboxConflict\<close> and \<^verbatim>\<open>ScreenshotExpiredError\<close> are subclasses of it that handlers catch
  by name. Where a message of the source is Chinese text that no branch reads, a short
  ASCII tag stands for it.
\<close>

datatype py_error =
    Value_Error string
  | Type_Error string
  | Key_Error string
  | Runtime_Error string
  | Overflow_Error string
  | Operational_Error string
  | Integrity_Error string
  | App_Error nat string
  | Outbox_Conflict string
  | Screenshot_Expired string
  | Intent_Conflict string
  | Run_Conflict string
  | OS_Error string

text \<open>\<^verbatim>\<open>str(exc)\<close>.\<close>

fun err_text :: "py_error \<Rightarrow> string" where
  "err_text (Value_Error m) = m"
| "err_text (Type_Error m) = m"
| "err_text (Key_Error m) = m"
| "err_text (Runtime_Error m) = m"
| "err_text (Overflow_Error m) = m"
| "err_text (Operational_Error m) = m"
| "err_text (Integrity_Error m) = m"
| "err_text (App_Error _ m) = m"
| "err_text (Outbox_Conflict m) = m"
| "err_text (Screenshot_Expired m) = m"
| "err_text (Intent_Conflict m) = m"
| "err_text (Run_Conflict m) = m"
| "err_text (OS_Error m) = m"

type_synonym 'a result = "py_error + 'a"

text \<open>Sequencing of computations that may raise: the second part runs on the first one's value.\<close>

definition and_then :: "'a result \<Rightarrow> ('a \<Rightarrow> 'b result) \<Rightarrow> 'b result" where
  "and_then r f = (case r of Inl e \<Rightarrow> Inl e | Inr a \<Rightarrow> f a)"

lemma and_then_simps [simp]:
  "and_then (Inl e) f = Inl e"
  "and_then (Inr a) f = f a"
  by (simp_all add: and_then_def)

lemma and_then_Inr_iff: "and_then r f = Inr b \<longleftrightarrow> (\<exists>a. r = Inr a \<and> f a = Inr b)"
  by (cases r) auto

lemma and_then_assoc: "and_then (and_then r f) g = and_then r (\<lambda>a. and_then (f a) g)"
  by (cases r) auto

text \<open>\<^verbatim>\<open>if cond: raise exc\<close> as a step of a sequence.\<close>

definition raise_if :: "bool \<Rightarrow> py_error \<Rightarrow> unit result" where
  "raise_if c e = (if c then Inl e else Inr ())"

lemma raise_if_simps [simp]:
  "raise_if True e = Inl e"
  "raise_if False e = Inr ()"
  by (simp_all add: raise_if_def)

lemma raise_if_Inr_iff [simp]: "raise_if c e = Inr u \<longleftrightarrow> \<not> c"
  by (simp add: raise_if_def)

text \<open>A list of checks in the source's order: the first that raises decides.\<close>

fun check_all :: "unit result list \<Rightarrow> unit result" where
  "check_all [] = Inr ()"
| "check_all (r # rs) = (case r of Inl e \<Rightarrow> Inl e | Inr _ \<Rightarrow> check_all rs)"

lemma check_all_Inr_iff [simp]: "check_all rs = Inr u \<longleftrightarrow> (\<forall>r \<in> set rs. r = Inr ())"
  by (induction rs) (auto split: sum.splits)

declare check_all.simps [simp del]

section \<open>Transition systems\<close>

text \<open>
  What every stateful component shares: a step relation, an invariant that each step
  keeps, and a relation between an earlier and a later state that each step satisfies.
  Both then hold over whole runs.
\<close>

locale invariant_system =
  fixes step :: "'s \<Rightarrow> 's \<Rightarrow> bool"
    and inv :: "'s \<Rightarrow> bool"
  assumes step_inv: "inv s \<Longrightarrow> step s t \<Longrightarrow> inv t"
begin

lemma steps_inv:
  assumes "step\<^sup>*\<^sup>* s t" "inv s"
  shows "inv t"
  using assms by (induction rule: rtranclp_induct) (auto intro: step_inv)

end

locale tracked_system = invariant_system step inv
  for step :: "'s \<Rightarrow> 's \<Rightarrow> bool" and inv :: "'s \<Rightarrow> bool" +
  fixes rel :: "'s \<Rightarrow> 's \<Rightarrow> bool"
  assumes rel_refl: "inv s \<Longrightarrow> rel s s"
    and rel_trans: "rel s t \<Longrightarrow> rel t u \<Longrightarrow> rel s u"
    and step_rel: "inv s \<Longrightarrow> step s t \<Longrightarrow> rel s t"
begin

lemma steps_rel:
  assumes "step\<^sup>*\<^sup>* s t" "inv s"
  shows "rel s t"
  using assms
proof (induction rule: rtranclp_induct)
  case base
  then show ?case by (rule rel_refl)
next
  case (step t u)
  then have "inv t" by (blast intro: steps_inv)
  with step show ?case by (blast intro: rel_trans step_rel)
qed

end

section \<open>Lists as tables and dictionaries\<close>

text \<open>
  A dictionary whose order matters is an association list: \<^verbatim>\<open>d[k] = v\<close> keeps the position
  of a key that is there and appends a new one.
\<close>

fun alist_put :: "'k \<Rightarrow> 'v \<Rightarrow> ('k \<times> 'v) list \<Rightarrow> ('k \<times> 'v) list" where
  "alist_put k v [] = [(k, v)]"
| "alist_put k v ((k', v') # d) = (if k' = k then (k, v) # d else (k', v') # alist_put k v d)"

definition alist_del :: "'k \<Rightarrow> ('k \<times> 'v) list \<Rightarrow> ('k \<times> 'v) list" where
  "alist_del k d = filter (\<lambda>kv. fst kv \<noteq> k) d"

lemma map_of_alist_put [simp]: "map_of (alist_put k v d) = (map_of d)(k \<mapsto> v)"
  by (induction d) (auto simp: fun_eq_iff)

lemma map_of_alist_del [simp]: "map_of (alist_del k d) = (map_of d)(k := None)"
  by (induction d) (auto simp: alist_del_def fun_eq_iff)

lemma keys_alist_put: "fst ` set (alist_put k v d) = insert k (fst ` set d)"
  by (simp flip: dom_map_of_conv_image_fst)

lemma keys_alist_del: "fst ` set (alist_del k d) = fst ` set d - {k}"
  by (auto simp: alist_del_def)

lemma distinct_alist_put [simp]:
  "distinct (map fst d) \<Longrightarrow> distinct (map fst (alist_put k v d))"
proof (induction d)
  case (Cons kv d)
  obtain k' v' where kv: "kv = (k', v')" by (cases kv)
  have "k' \<notin> fst ` set (alist_put k v d)" if "k' \<noteq> k"
    using Cons.prems that by (auto simp: kv keys_alist_put)
  then show ?case using Cons by (auto simp: kv)
qed simp

lemma distinct_alist_del [simp]:
  "distinct (map fst d) \<Longrightarrow> distinct (map fst (alist_del k d))"
  by (simp add: alist_del_def distinct_map_filter)

text \<open>Python's ordered de-duplication, \<^verbatim>\<open>list(dict.fromkeys(xs))\<close>: the first occurrence stays.\<close>

fun dedup_from :: "'a list \<Rightarrow> 'a list \<Rightarrow> 'a list" where
  "dedup_from seen [] = []"
| "dedup_from seen (x # xs) =
     (if x \<in> set seen then dedup_from seen xs else x # dedup_from (x # seen) xs)"

definition dedup :: "'a list \<Rightarrow> 'a list" where
  "dedup xs = dedup_from [] xs"

lemma set_dedup_from: "set (dedup_from seen xs) = set xs - set seen"
  by (induction seen xs rule: dedup_from.induct) auto

lemma distinct_dedup_from: "distinct (dedup_from seen xs)"
  by (induction seen xs rule: dedup_from.induct) (auto simp: set_dedup_from)

lemma set_dedup [simp]: "set (dedup xs) = set xs"
  by (simp add: dedup_def set_dedup_from)

lemma distinct_dedup [simp]: "distinct (dedup xs)"
  by (simp add: dedup_def distinct_dedup_from)

lemma distinct_map_filterD:
  assumes "distinct (List.map_filter f xs)" "x \<in> set xs" "y \<in> set xs" "f x = Some b" "f y = Some b"
  shows "x = y"
  using assms
proof (induction xs)
  case (Cons a xs)
  have mem: "b \<in> set (List.map_filter f xs)" if "z \<in> set xs" "f z = Some b" for z
    using that by (force simp: List.map_filter_def)
  show ?case
    using Cons mem[of x] mem[of y] by (auto simp: List.map_filter_simps split: option.splits)
qed simp

text \<open>
  An SQL UPDATE of the rows that match: every matching row is replaced, the others stay.
\<close>

definition update_rows :: "('r \<Rightarrow> bool) \<Rightarrow> ('r \<Rightarrow> 'r) \<Rightarrow> 'r list \<Rightarrow> 'r list" where
  "update_rows P f rs = map (\<lambda>r. if P r then f r else r) rs"

lemma update_rows_Nil [simp]: "update_rows P f [] = []"
  by (simp add: update_rows_def)

lemma update_rows_Cons [simp]:
  "update_rows P f (r # rs) = (if P r then f r else r) # update_rows P f rs"
  by (simp add: update_rows_def)

lemma set_update_rows: "set (update_rows P f rs) = (\<lambda>r. if P r then f r else r) ` set rs"
  by (simp add: update_rows_def)

lemma length_update_rows [simp]: "length (update_rows P f rs) = length rs"
  by (simp add: update_rows_def)

lemma map_key_update_rows:
  "(\<And>r. P r \<Longrightarrow> key (f r) = key r) \<Longrightarrow> map key (update_rows P f rs) = map key rs"
  by (auto simp: update_rows_def)

lemma find_SomeD: "find P xs = Some x \<Longrightarrow> x \<in> set xs \<and> P x"
  by (induction xs) (auto split: if_splits)

lemma find_Some_unique:
  "x \<in> set xs \<Longrightarrow> P x \<Longrightarrow> (\<And>y. y \<in> set xs \<Longrightarrow> P y \<Longrightarrow> y = x) \<Longrightarrow> find P xs = Some x"
proof (cases "find P xs")
  case None
  assume "x \<in> set xs" "P x"
  with None show ?thesis by (simp add: find_None_iff)
next
  case (Some y)
  assume "\<And>y. y \<in> set xs \<Longrightarrow> P y \<Longrightarrow> y = x"
  with Some show ?thesis using find_SomeD[OF Some] by simp
qed

lemma find_Some_iff_distinct:
  assumes "distinct (map key rs)" "r \<in> set rs"
  shows "find (\<lambda>x. key x = key r) rs = Some r"
  using assms by (induction rs) (auto simp: rev_image_eqI)

section \<open>Strings\<close>

text \<open>Python's whitespace among the code points below 256, and \<^verbatim>\<open>str.strip\<close>.\<close>

definition py_space :: "char \<Rightarrow> bool" where
  "py_space c =
     (let n = (of_char c :: nat)
      in (9 \<le> n \<and> n \<le> 13) \<or> (28 \<le> n \<and> n \<le> 32) \<or> n = 133 \<or> n = 160)"

definition py_lstrip :: "string \<Rightarrow> string" where
  "py_lstrip s = dropWhile py_space s"

definition py_strip :: "string \<Rightarrow> string" where
  "py_strip s = rev (dropWhile py_space (rev (dropWhile py_space s)))"

definition py_blank :: "string \<Rightarrow> bool" where
  "py_blank s \<longleftrightarrow> py_strip s = []"

lemma py_blank_iff: "py_blank s \<longleftrightarrow> (\<forall>c \<in> set s. py_space c)"
proof -
  have "dropWhile py_space (rev (dropWhile py_space s)) = []
    \<longleftrightarrow> (\<forall>c \<in> set (dropWhile py_space s). py_space c)"
    by simp
  also have "\<dots> \<longleftrightarrow> (\<forall>c \<in> set s. py_space c)"
    by (induction s) auto
  finally show ?thesis by (simp add: py_blank_def py_strip_def)
qed

lemma py_blank_Nil [simp]: "py_blank []"
  by (simp add: py_blank_iff)

lemma dropWhile_fixed: "xs = [] \<or> \<not> P (hd xs) \<Longrightarrow> dropWhile P xs = xs"
  by (cases xs) auto

lemma dropWhile_back_prefix: "\<exists>ys. t = rev (dropWhile P (rev t)) @ ys"
  by (metis rev_append rev_rev_ident takeWhile_dropWhile_id)

lemma py_strip_idem: "py_strip (py_strip s) = py_strip s"
proof -
  define t where "t = dropWhile py_space s"
  define u where "u = rev (dropWhile py_space (rev t))"
  obtain ys where ys: "t = u @ ys"
    unfolding u_def using dropWhile_back_prefix by blast
  have "u = [] \<or> \<not> py_space (hd u)"
  proof (cases "u = []")
    case False
    then have "hd u = hd t" "t \<noteq> []"
      using ys by auto
    then show ?thesis
      using hd_dropWhile [of py_space s] by (simp add: t_def)
  qed simp
  then have "dropWhile py_space u = u"
    by (rule dropWhile_fixed)
  then have "py_strip u = rev (dropWhile py_space (dropWhile py_space (rev t)))"
    by (simp add: py_strip_def u_def)
  also have "\<dots> = u"
    by (simp add: u_def)
  finally show ?thesis
    by (simp add: u_def t_def py_strip_def)
qed

text \<open>\<^verbatim>\<open>s.removesuffix(x)\<close> and \<^verbatim>\<open>s.startswith(x)\<close>.\<close>

definition has_prefix :: "string \<Rightarrow> string \<Rightarrow> bool" where
  "has_prefix p s \<longleftrightarrow> take (length p) s = p"

definition has_suffix :: "string \<Rightarrow> string \<Rightarrow> bool" where
  "has_suffix x s \<longleftrightarrow> drop (length s - length x) s = x \<and> length x \<le> length s"

definition remove_suffix :: "string \<Rightarrow> string \<Rightarrow> string" where
  "remove_suffix x s = (if x \<noteq> [] \<and> has_suffix x s then take (length s - length x) s else s)"

lemma has_suffix_append [simp]: "has_suffix x (s @ x)"
  by (simp add: has_suffix_def)

lemma has_suffix_iff: "has_suffix x s \<longleftrightarrow> (\<exists>p. s = p @ x)"
proof
  assume "has_suffix x s"
  then have "s = take (length s - length x) s @ x"
    by (metis append_take_drop_id has_suffix_def)
  then show "\<exists>p. s = p @ x" ..
qed auto

lemma has_prefix_iff: "has_prefix p s \<longleftrightarrow> (\<exists>r. s = p @ r)"
  unfolding has_prefix_def by (metis append_eq_conv_conj)

lemma remove_suffix_append [simp]: "remove_suffix x (s @ x) = s"
  by (simp add: remove_suffix_def)

text \<open>\<^verbatim>\<open>str.lower\<close> on the code points below 256.\<close>

definition lower_char :: "char \<Rightarrow> char" where
  "lower_char c =
     (let n = (of_char c :: nat) in
      if (65 \<le> n \<and> n \<le> 90) \<or> (192 \<le> n \<and> n \<le> 222 \<and> n \<noteq> 215) then char_of (n + 32) else c)"

definition py_lower :: "string \<Rightarrow> string" where
  "py_lower s = map lower_char s"

text \<open>\<^verbatim>\<open>str.upper\<close> on the first 256 code points; the two letters whose capital is beyond them stay.\<close>

definition upper_char :: "char \<Rightarrow> string" where
  "upper_char c =
     (let n = (of_char c :: nat) in
      if n = 223 then ''SS''
      else if 97 \<le> n \<and> n \<le> 122 \<or> 224 \<le> n \<and> n \<le> 254 \<and> n \<noteq> 247 then [char_of (n - 32)]
      else [c])"

definition py_upper :: "string \<Rightarrow> string" where
  "py_upper s = concat (map upper_char s)"

text \<open>\<^verbatim>\<open>str(n)\<close> of a number that is not negative.\<close>

fun nat_text :: "nat \<Rightarrow> string" where
  "nat_text n = (if n < 10 then [char_of (n + 48)] else nat_text (n div 10) @ [char_of (n mod 10 + 48)])"

declare nat_text.simps [simp del]

text \<open>\<^verbatim>\<open>x in s\<close>.\<close>

fun contains_text :: "string \<Rightarrow> string \<Rightarrow> bool" where
  "contains_text p [] = (p = [])"
| "contains_text p (c # s) = (has_prefix p (c # s) \<or> contains_text p s)"

text \<open>\<^verbatim>\<open>s.split(c)\<close> for a single character.\<close>

fun split_on :: "char \<Rightarrow> string \<Rightarrow> string list" where
  "split_on c [] = [[]]"
| "split_on c (x # xs) =
     (if x = c then [] # split_on c xs
      else case split_on c xs of [] \<Rightarrow> [[x]] | w # ws \<Rightarrow> (x # w) # ws)"

text \<open>\<^verbatim>\<open>sep.join(parts)\<close>.\<close>

fun join_with :: "string \<Rightarrow> string list \<Rightarrow> string" where
  "join_with sep [] = []"
| "join_with sep [w] = w"
| "join_with sep (w # ws) = w @ sep @ join_with sep ws"

lemma sep_append_eq:
  "c \<notin> set a \<Longrightarrow> c \<notin> set b \<Longrightarrow> a @ c # x = b @ c # y \<longleftrightarrow> a = b \<and> x = y"
proof (induction a arbitrary: b)
  case Nil
  then show ?case by (cases b) auto
next
  case (Cons z a)
  then show ?case by (cases b) auto
qed

lemma split_on_nonempty [simp]: "split_on c s \<noteq> []"
  by (induction s) (auto split: list.splits)

lemma split_on_plain: "c \<notin> set s \<Longrightarrow> split_on c s = [s]"
  by (induction s) auto

lemma split_on_join: "c \<notin> set s \<Longrightarrow> split_on c (s @ c # t) = s # split_on c t"
  by (induction s) auto

end
