(* ===== verification/Outbox_State.thy ===== *)
theory Outbox_State
  imports Py_Prelude
begin

text \<open>
  The statuses of an outbox task, the table of legal transitions and the risk predicates of
  \<^verbatim>\<open>shared/crm/outbox_state.py\<close>. A status is the string of the source; the datatype has one
  constructor per member of \<^verbatim>\<open>STATUSES\<close>, and \<open>status_name\<close> / \<open>status_of_name\<close> convert.
\<close>

datatype ostatus =
    Queued | Navigating | Awaiting_Confirmation | Queued_Send | Running | Verifying
  | Observed | Filled | Failed | Unknown | Cancelled

fun status_name :: "ostatus \<Rightarrow> string" where
  "status_name Queued = ''queued''"
| "status_name Navigating = ''navigating''"
| "status_name Awaiting_Confirmation = ''awaiting_confirmation''"
| "status_name Queued_Send = ''queued_send''"
| "status_name Running = ''running''"
| "status_name Verifying = ''verifying''"
| "status_name Observed = ''observed''"
| "status_name Filled = ''filled''"
| "status_name Failed = ''failed''"
| "status_name Unknown = ''unknown''"
| "status_name Cancelled = ''cancelled''"

definition pending_statuses :: "ostatus list" where
  "pending_statuses =
     [Queued, Navigating, Awaiting_Confirmation, Queued_Send, Running, Verifying]"

definition all_statuses :: "ostatus list" where
  "all_statuses = pending_statuses @ [Observed, Filled, Failed, Unknown, Cancelled]"

definition status_of_name :: "string \<Rightarrow> ostatus option" where
  "status_of_name n = find (\<lambda>s. status_name s = n) all_statuses"

definition non_executing_statuses :: "ostatus list" where
  "non_executing_statuses = [Queued, Awaiting_Confirmation, Queued_Send]"

definition gui_risk_statuses :: "ostatus list" where
  "gui_risk_statuses = [Navigating, Running]"

definition executing_statuses :: "ostatus list" where
  "executing_statuses = gui_risk_statuses @ [Verifying]"

definition compensatable_statuses :: "ostatus list" where
  "compensatable_statuses = non_executing_statuses @ gui_risk_statuses"

definition active_compensatable_statuses :: "ostatus list" where
  "active_compensatable_statuses =
     filter (\<lambda>s. s \<noteq> Awaiting_Confirmation) non_executing_statuses @ gui_risk_statuses"

text \<open>\<^verbatim>\<open>TRANSITIONS.get(status, set())\<close>: the statuses a transition may go to.\<close>

fun transitions :: "ostatus \<Rightarrow> ostatus list" where
  "transitions Queued = [Navigating, Failed, Cancelled]"
| "transitions Navigating = [Awaiting_Confirmation, Failed, Unknown]"
| "transitions Awaiting_Confirmation = [Queued_Send, Failed, Cancelled]"
| "transitions Queued_Send = [Awaiting_Confirmation, Running, Failed, Cancelled]"
| "transitions Running = [Verifying, Filled, Failed, Unknown]"
| "transitions Verifying = [Observed, Failed, Unknown]"
| "transitions Unknown = [Observed]"
| "transitions _ = []"

definition is_gui_risk :: "ostatus \<Rightarrow> bool" where
  "is_gui_risk s \<longleftrightarrow> s \<in> set gui_risk_statuses"

definition is_compensatable :: "ostatus \<Rightarrow> bool" where
  "is_compensatable s \<longleftrightarrow> s \<in> set compensatable_statuses"

definition is_recovery_uncertain :: "ostatus \<Rightarrow> bool \<Rightarrow> bool" where
  "is_recovery_uncertain s may_have_sent \<longleftrightarrow> may_have_sent \<or> s \<in> set executing_statuses"

text \<open>Unfolding every status list at once decides a membership question.\<close>

lemmas status_lists =
  pending_statuses_def all_statuses_def non_executing_statuses_def gui_risk_statuses_def
  executing_statuses_def compensatable_statuses_def active_compensatable_statuses_def

lemmas status_preds = is_gui_risk_def is_compensatable_def is_recovery_uncertain_def

lemma all_statuses_complete [simp]: "s \<in> set all_statuses"
  by (cases s) (simp_all add: status_lists)

lemma status_of_name_name [simp]: "status_of_name (status_name s) = Some s"
  by (cases s) (simp_all add: status_of_name_def status_lists)

lemmas status_of_names [simp] =
  status_of_name_name[of Queued, simplified] status_of_name_name[of Navigating, simplified]
  status_of_name_name[of Awaiting_Confirmation, simplified]
  status_of_name_name[of Queued_Send, simplified] status_of_name_name[of Running, simplified]
  status_of_name_name[of Verifying, simplified] status_of_name_name[of Observed, simplified]
  status_of_name_name[of Filled, simplified] status_of_name_name[of Failed, simplified]
  status_of_name_name[of Unknown, simplified] status_of_name_name[of Cancelled, simplified]

lemma status_of_name_Some: "status_of_name n = Some s \<Longrightarrow> n = status_name s"
  by (auto simp: status_of_name_def find_Some_iff)

lemma status_name_inj: "status_name s = status_name t \<longleftrightarrow> s = t"
  by (metis status_of_name_name option.inject)

lemma transitions_from_pending:
  "t \<in> set (transitions s) \<Longrightarrow> s \<in> set pending_statuses \<or> (s = Unknown \<and> t = Observed)"
  by (cases s) (auto simp: status_lists)

text \<open>
  The order a task moves through its statuses, used as a measure: every edge of the table
  goes up, but for the one that asks for a fresh confirmation.
\<close>

fun status_rank :: "ostatus \<Rightarrow> nat" where
  "status_rank Queued = 0"
| "status_rank Navigating = 1"
| "status_rank Awaiting_Confirmation = 2"
| "status_rank Queued_Send = 3"
| "status_rank Running = 4"
| "status_rank Verifying = 5"
| "status_rank Filled = 6"
| "status_rank Failed = 6"
| "status_rank Cancelled = 6"
| "status_rank Unknown = 6"
| "status_rank Observed = 7"

lemma transitions_rank:
  "t \<in> set (transitions s) \<Longrightarrow>
     status_rank s < status_rank t \<or> (s = Queued_Send \<and> t = Awaiting_Confirmation)"
  by (cases s) auto

text \<open>The statuses that a send which may have left the client can be in.\<close>

definition sent_statuses :: "ostatus list" where
  "sent_statuses = [Running, Verifying, Observed, Failed, Unknown]"

lemma transitions_sent_closed:
  "s \<in> set sent_statuses \<Longrightarrow> t \<in> set (transitions s) \<Longrightarrow> t \<noteq> Filled \<Longrightarrow> t \<in> set sent_statuses"
  by (cases s) (auto simp: sent_statuses_def)

end
