(* ===== verification/Outbox_Store.thy ===== *)
theory Outbox_Store
  imports Outbox_State
begin

text \<open>
  The durable outbox of \<^verbatim>\<open>shared/crm/outbox_store.py\<close>: one table of tasks and one of events in
  the CRM database, changed only by write transactions that validate and compare-and-swap.

  A \<open>task\<close> is a row of \<^verbatim>\<open>app_outbox\<close>; an \<open>oevent\<close> is a row of \<^verbatim>\<open>app_outbox_events\<close>, whose JSON
  snapshots are kept as tasks. The \<open>outbox_db\<close> is the database file: whether the file and the table
  exist, the columns that schema migration touches, and the rows. The keyword arguments \<^verbatim>\<open>**changes\<close> are an
  association list from \<open>column\<close> to a Python value, because the code accepts any value and
  checks it; \<open>col\<close> is the value of a column of a stored row and \<open>of_view\<close> stores checked
  values back. The canonical form of a directory (\<^verbatim>\<open>Path.resolve\<close> and \<^verbatim>\<open>normcase\<close>, which ask the file system)
  is the parameter \<open>canon\<close>.
\<close>

section \<open>Rows\<close>

datatype action = Send | Test

fun action_name :: "action \<Rightarrow> string" where
  "action_name Send = ''send''"
| "action_name Test = ''test''"

definition action_of_name :: "string \<Rightarrow> action option" where
  "action_of_name n = find (\<lambda>a. action_name a = n) [Send, Test]"

lemma action_of_name_name [simp]: "action_of_name (action_name a) = Some a"
  by (cases a) (simp_all add: action_of_name_def)

record task =
  t_id :: string
  t_seller :: string
  t_data_dir :: string
  t_conversation_id :: int
  t_contact :: string
  t_login_id :: string
  t_content :: string
  t_action :: action
  t_key :: string
  t_status :: ostatus
  t_version :: int
  t_attempt :: int
  t_may_have_sent :: bool
  t_reason :: "string option"
  t_created_at :: pytime
  t_updated_at :: pytime
  t_screenshot_id :: "string option"
  t_screenshot_at :: "pytime option"
  t_screenshot_digest :: "string option"
  t_baseline :: "(string \<times> pyval) list option"
  t_evidence :: "(string \<times> pyval) list option"
  t_matched :: "string option"
  t_origin_request :: "string option"
  t_origin_epoch :: "string option"

datatype event_kind = Ev_Create | Ev_Transition | Ev_Update_Fields | Ev_Retry | Ev_Recover

record oevent =
  e_task :: string
  e_version :: int
  e_kind :: event_kind
  e_created_at :: pytime
  e_previous :: "task option"
  e_current :: task

record outbox_db =
  db_file :: bool
  db_table :: bool
  db_columns :: "string list"
  db_tasks :: "task list"
  db_events :: "oevent list"

definition empty_db :: outbox_db where
  "empty_db = \<lparr>db_file = False, db_table = False, db_columns = [], db_tasks = [], db_events = []\<rparr>"

text \<open>
  The constraints of \<^verbatim>\<open>app_outbox\<close> that the types do not already give: the primary key, the
  positive version and attempt, and the two UNIQUE constraints (SQL NULLs never collide).
\<close>

definition claim_of :: "task \<Rightarrow> (string \<times> string \<times> string) option" where
  "claim_of t = map_option (\<lambda>m. (t_seller t, t_data_dir t, m)) (t_matched t)"

definition constraints_ok :: "task list \<Rightarrow> bool" where
  "constraints_ok ts \<longleftrightarrow>
     distinct (map t_id ts)
   \<and> distinct (map (\<lambda>t. (t_seller t, t_data_dir t, t_key t)) ts)
   \<and> distinct (List.map_filter claim_of ts)
   \<and> list_all (\<lambda>t. 1 \<le> t_version t \<and> 1 \<le> t_attempt t) ts"

section \<open>Columns and changes\<close>

datatype column =
    C_status | C_attempt | C_may_have_sent | C_reason | C_screenshot_id | C_screenshot_at
  | C_screenshot_digest | C_baseline | C_evidence | C_matched | C_other string

type_synonym changes = "(column \<times> pyval) list"

definition editable_columns :: "column list" where
  "editable_columns = [C_may_have_sent, C_reason, C_screenshot_id, C_screenshot_at,
     C_screenshot_digest, C_baseline, C_evidence]"

definition opt_str :: "string option \<Rightarrow> pyval" where
  "opt_str s = (case s of None \<Rightarrow> PNone | Some x \<Rightarrow> PStr x)"

definition opt_dict :: "(string \<times> pyval) list option \<Rightarrow> pyval" where
  "opt_dict d = (case d of None \<Rightarrow> PNone | Some x \<Rightarrow> PDict x)"

fun col :: "task \<Rightarrow> column \<Rightarrow> pyval" where
  "col t C_status = PStr (status_name (t_status t))"
| "col t C_attempt = PInt (t_attempt t)"
| "col t C_may_have_sent = PBool (t_may_have_sent t)"
| "col t C_reason = opt_str (t_reason t)"
| "col t C_screenshot_id = opt_str (t_screenshot_id t)"
| "col t C_screenshot_at = (case t_screenshot_at t of None \<Rightarrow> PNone | Some q \<Rightarrow> PFloat (FFin q))"
| "col t C_screenshot_digest = opt_str (t_screenshot_digest t)"
| "col t C_baseline = opt_dict (t_baseline t)"
| "col t C_evidence = opt_dict (t_evidence t)"
| "col t C_matched = opt_str (t_matched t)"
| "col t (C_other n) = PNone"

text \<open>\<^verbatim>\<open>{**previous, **changes}\<close>, read by column.\<close>

definition merged :: "task \<Rightarrow> changes \<Rightarrow> column \<Rightarrow> pyval" where
  "merged t ch c = (case map_of ch c of Some v \<Rightarrow> v | None \<Rightarrow> col t c)"

fun as_status :: "pyval \<Rightarrow> ostatus option" where
  "as_status (PStr n) = status_of_name n"
| "as_status _ = None"

fun as_str :: "pyval \<Rightarrow> string option" where
  "as_str (PStr s) = Some s"
| "as_str _ = None"

fun as_dict :: "pyval \<Rightarrow> (string \<times> pyval) list option" where
  "as_dict (PDict d) = Some d"
| "as_dict _ = None"

fun as_bool :: "pyval \<Rightarrow> bool" where
  "as_bool (PBool b) = b"
| "as_bool _ = False"

fun as_int :: "pyval \<Rightarrow> int \<Rightarrow> int" where
  "as_int (PInt i) _ = i"
| "as_int _ d = d"

text \<open>The row that stores the merged values (a REAL column reads an integer back as a float).\<close>

definition of_view :: "task \<Rightarrow> (column \<Rightarrow> pyval) \<Rightarrow> task" where
  "of_view t v = t\<lparr>
     t_status := (case as_status (v C_status) of Some s \<Rightarrow> s | None \<Rightarrow> t_status t),
     t_attempt := as_int (v C_attempt) (t_attempt t),
     t_may_have_sent := as_bool (v C_may_have_sent),
     t_reason := as_str (v C_reason),
     t_screenshot_id := as_str (v C_screenshot_id),
     t_screenshot_at := finite_number (v C_screenshot_at),
     t_screenshot_digest := as_str (v C_screenshot_digest),
     t_baseline := as_dict (v C_baseline),
     t_evidence := as_dict (v C_evidence),
     t_matched := as_str (v C_matched)\<rparr>"

lemma as_col_inverse [simp]:
  "as_str (opt_str s) = s" "as_dict (opt_dict d) = d"
  by (auto simp: opt_str_def opt_dict_def split: option.splits)

lemma of_view_col [simp]: "of_view t (col t) = t"
  by (cases "t_screenshot_at t") (simp_all add: of_view_def)

section \<open>Scopes, connections and schema\<close>

text \<open>\<^verbatim>\<open>_scope\<close>: both parts must be nonblank; the directory is made canonical.\<close>

definition scope_of :: "(string \<Rightarrow> string) \<Rightarrow> string \<Rightarrow> string \<Rightarrow> (string \<times> string) result" where
  "scope_of canon seller data_dir =
     (if py_blank seller \<or> py_blank data_dir
      then Inl (Value_Error ''seller and data_dir are required'')
      else Inr (seller, canon data_dir))"

text \<open>\<^verbatim>\<open>_states\<close>: at least one name, and every name a status.\<close>

definition states_of :: "string list \<Rightarrow> ostatus list result" where
  "states_of names =
     (if names = [] \<or> (\<exists>n \<in> set names. status_of_name n = None)
      then Inl (Value_Error ''Expected at least one valid outbox status'')
      else Inr (List.map_filter status_of_name names))"

definition no_such_file :: py_error where
  "no_such_file = Operational_Error ''unable to open database file''"

definition no_such_table :: py_error where
  "no_such_table = Operational_Error ''no such table: app_outbox''"

text \<open>
  \<^verbatim>\<open>_connection(write=True)\<close>: the database must exist; the body runs in one immediate
  transaction that commits its result or, on any exception, rolls back to the state it found.
\<close>

definition write_txn ::
  "(outbox_db \<Rightarrow> ('a \<times> outbox_db) result) \<Rightarrow> outbox_db \<Rightarrow> 'a result \<times> outbox_db" where
  "write_txn body db =
     (if \<not> db_file db then (Inl no_such_file, db)
      else case body db of Inl e \<Rightarrow> (Inl e, db) | Inr (a, db') \<Rightarrow> (Inr a, db'))"

definition full_columns :: "string list" where
  "full_columns = [''origin_request_id'', ''origin_account_epoch'']"

definition legacy_columns :: "string list" where
  "legacy_columns = [''phase'', ''draft_version'']"

text \<open>
  \<^verbatim>\<open>initialize\<close>: creates the file and the tables where they are missing, adds the two origin columns to an
  older table and drops the two legacy ones. No row changes.
\<close>

definition initialize :: "outbox_db \<Rightarrow> outbox_db" where
  "initialize db =
     (let columns = (if db_table db then db_columns db else full_columns);
          added = columns @ filter (\<lambda>n. n \<notin> set columns) full_columns;
          kept = filter (\<lambda>n. n \<notin> set legacy_columns) added
      in db\<lparr>db_file := True, db_table := True, db_columns := kept,
            db_tasks := (if db_table db then db_tasks db else []),
            db_events := (if db_table db then db_events db else [])\<rparr>)"

text \<open>\<^verbatim>\<open>_read\<close>: an absent file or table reads as no rows.\<close>

definition read_rows :: "(task \<Rightarrow> bool) \<Rightarrow> outbox_db \<Rightarrow> task list" where
  "read_rows P db = (if db_file db \<and> db_table db then filter P (db_tasks db) else [])"

section \<open>Reads\<close>

definition in_scope :: "string \<times> string \<Rightarrow> task \<Rightarrow> bool" where
  "in_scope sc t \<longleftrightarrow> t_seller t = fst sc \<and> t_data_dir t = snd sc"

definition store_get ::
  "(string \<Rightarrow> string) \<Rightarrow> outbox_db \<Rightarrow> string \<Rightarrow> string \<Rightarrow> string \<Rightarrow> task option result" where
  "store_get canon db tid seller data_dir =
     and_then (scope_of canon seller data_dir) (\<lambda>sc.
       Inr (case read_rows (\<lambda>t. t_id t = tid \<and> in_scope sc t) db of
              [] \<Rightarrow> None | t # _ \<Rightarrow> Some t))"

definition store_list ::
  "(string \<Rightarrow> string) \<Rightarrow> outbox_db \<Rightarrow> int \<Rightarrow> string \<Rightarrow> string \<Rightarrow> int \<Rightarrow> task list result" where
  "store_list canon db conversation seller data_dir limit =
     (if limit < 1 then Inl (Value_Error ''limit must be a positive integer'')
      else and_then (scope_of canon seller data_dir) (\<lambda>sc.
        Inr (take (nat limit)
          (rev (sort_key (\<lambda>t. (t_created_at t, t_id t))
            (read_rows (\<lambda>t. t_conversation_id t = conversation \<and> in_scope sc t) db))))))"

definition store_list_pending ::
  "(string \<Rightarrow> string) \<Rightarrow> outbox_db \<Rightarrow> string list \<Rightarrow> string \<Rightarrow> string \<Rightarrow> task list result" where
  "store_list_pending canon db states seller data_dir =
     and_then (states_of states) (\<lambda>ss.
     and_then (scope_of canon seller data_dir) (\<lambda>sc.
       Inr (sort_key (\<lambda>t. (t_created_at t, t_id t))
         (read_rows (\<lambda>t. in_scope sc t \<and> t_status t \<in> set ss) db))))"

definition store_events ::
  "(string \<Rightarrow> string) \<Rightarrow> outbox_db \<Rightarrow> string \<Rightarrow> string \<Rightarrow> string \<Rightarrow> oevent list result" where
  "store_events canon db tid seller data_dir =
     and_then (scope_of canon seller data_dir) (\<lambda>sc.
       Inr (sort_key e_version
         (if read_rows (\<lambda>t. t_id t = tid \<and> in_scope sc t) db = [] then []
          else filter (\<lambda>e. e_task e = tid) (db_events db))))"

section \<open>Writes\<close>

text \<open>\<^verbatim>\<open>_expected\<close>: the row of the scope, if its status and version are the expected ones.\<close>

definition expected_row ::
  "(string \<Rightarrow> string) \<Rightarrow> outbox_db \<Rightarrow> string \<Rightarrow> string \<Rightarrow> string \<Rightarrow> string list \<Rightarrow> int option
     \<Rightarrow> task result" where
  "expected_row canon db tid seller data_dir states version =
     and_then (states_of states) (\<lambda>ss.
     and_then (raise_if (case version of None \<Rightarrow> False | Some v \<Rightarrow> v < 1)
       (Value_Error ''expected_version must be a positive integer or None'')) (\<lambda>_.
     and_then (scope_of canon seller data_dir) (\<lambda>sc.
     and_then (raise_if (\<not> db_table db) no_such_table) (\<lambda>_.
       case find (\<lambda>t. t_id t = tid \<and> in_scope sc t) (db_tasks db) of
         None \<Rightarrow> Inl (Outbox_Conflict ''Outbox task not found in this scope'')
       | Some t \<Rightarrow>
           if t_status t \<notin> set ss \<or> version \<notin> {None, Some (t_version t)}
           then Inl (Outbox_Conflict ''Outbox status or version changed'')
           else Inr t))))"

text \<open>\<^verbatim>\<open>_event\<close>: the audit row of a status change.\<close>

definition event_row :: "task option \<Rightarrow> task \<Rightarrow> event_kind \<Rightarrow> oevent" where
  "event_row previous current kind =
     \<lparr>e_task = t_id current, e_version = t_version current, e_kind = kind,
      e_created_at = t_updated_at current, e_previous = previous, e_current = current\<rparr>"

text \<open>The WHERE clause of the compare-and-swap update.\<close>

definition same_row :: "task \<Rightarrow> task \<Rightarrow> bool" where
  "same_row p t \<longleftrightarrow> t_id t = t_id p \<and> in_scope (t_seller p, t_data_dir p) t
     \<and> t_status t = t_status p \<and> t_version t = t_version p"

text \<open>
  \<^verbatim>\<open>_save\<close>: the next version of a row. A result that breaks a constraint of the table is refused; the
  update must hit exactly one row; a change of fields alone writes no audit row.
\<close>

definition saved_task :: "task \<Rightarrow> changes \<Rightarrow> pytime \<Rightarrow> task" where
  "saved_task prev ch now =
     (of_view prev (merged prev ch))\<lparr>t_version := t_version prev + 1, t_updated_at := now\<rparr>"

definition save_row ::
  "task \<Rightarrow> changes \<Rightarrow> event_kind \<Rightarrow> pytime \<Rightarrow> outbox_db \<Rightarrow> (task \<times> outbox_db) result" where
  "save_row prev ch kind now db =
     (let cur = saved_task prev ch now;
          rows = update_rows (same_row prev) (\<lambda>_. cur) (db_tasks db)
      in if \<not> constraints_ok rows
         then Inl (Outbox_Conflict ''Local message is already claimed by another outbox task'')
         else if length (filter (same_row prev) (db_tasks db)) \<noteq> 1
         then Inl (Outbox_Conflict ''Outbox status or version changed'')
         else Inr (cur, db\<lparr>db_tasks := rows,
           db_events := (if kind = Ev_Update_Fields then db_events db
                         else db_events db @ [event_row (Some prev) cur kind])\<rparr>))"

definition status_text :: "pyval \<Rightarrow> string" where
  "status_text v = (case v of PStr n \<Rightarrow> n | _ \<Rightarrow> ''<object>'')"

definition validate_transition :: "task \<Rightarrow> pyval \<Rightarrow> unit result" where
  "validate_transition prev status =
     (if (case as_status status of None \<Rightarrow> True | Some s \<Rightarrow> s \<notin> set (transitions (t_status prev)))
      then Inl (Outbox_Conflict (''Invalid outbox transition: '' @ status_name (t_status prev)
        @ '' -> '' @ status_text status))
      else if t_status prev = Queued_Send \<and> as_status status = Some Awaiting_Confirmation
        \<and> t_may_have_sent prev
      then Inl (Outbox_Conflict ''Only a queued task before input can request fresh confirmation'')
      else Inr ())"

definition validate_editable :: "task \<Rightarrow> changes \<Rightarrow> bool \<Rightarrow> unit result" where
  "validate_editable prev ch transition =
     (let allowed = (if transition then editable_columns @ [C_status, C_matched] else editable_columns)
      in if \<not> set (map fst ch) \<subseteq> set allowed
         then Inl (Value_Error ''Fields are not editable'')
         else if \<not> transition \<and> t_status prev \<notin> set pending_statuses
         then Inl (Outbox_Conflict ''Only pending tasks accept field updates'')
         else Inr ())"

text \<open>The checks of \<^verbatim>\<open>_validate_values\<close> in their order, on the merged values.\<close>

definition check_dict :: "pyval \<Rightarrow> unit result" where
  "check_dict v = raise_if ((v \<noteq> PNone \<and> \<not> is_dict v) \<or> \<not> json_ok v)
     (Value_Error ''must be a JSON object or None'')"

definition check_str :: "pyval \<Rightarrow> unit result" where
  "check_str v = raise_if (v \<noteq> PNone \<and> \<not> nonempty_str v)
     (Value_Error ''must be a nonempty string or None'')"

definition check_stamp :: "pyval \<Rightarrow> unit result" where
  "check_stamp v = raise_if (v \<noteq> PNone \<and> (case finite_number v of None \<Rightarrow> True | Some q \<Rightarrow> q < 0))
     (Value_Error ''screenshot_at must be a nonnegative Unix timestamp'')"

definition unsent_statuses :: "ostatus list" where
  "unsent_statuses = [Queued, Navigating, Awaiting_Confirmation, Queued_Send, Filled, Cancelled]"

definition validate_values :: "task \<Rightarrow> (column \<Rightarrow> pyval) \<Rightarrow> unit result" where
  "validate_values prev cur =
     (let status = (case as_status (cur C_status) of Some s \<Rightarrow> s | None \<Rightarrow> t_status prev);
          sent = truthy (cur C_may_have_sent)
      in check_all
        [check_dict (cur C_baseline), check_dict (cur C_evidence),
         check_str (cur C_reason), check_str (cur C_screenshot_id),
         check_str (cur C_screenshot_digest), check_str (cur C_matched),
         check_stamp (cur C_screenshot_at),
         raise_if ((cur C_screenshot_id = PNone) \<noteq> (cur C_screenshot_at = PNone))
           (Value_Error ''screenshot_id and screenshot_at must be supplied together''),
         raise_if (status \<in> {Awaiting_Confirmation, Queued_Send} \<and> cur C_screenshot_id = PNone)
           (Outbox_Conflict ''A confirmation screenshot is required''),
         raise_if (\<not> is_bool (cur C_may_have_sent)) (Value_Error ''may_have_sent must be boolean''),
         raise_if (t_may_have_sent prev \<and> \<not> sent)
           (Outbox_Conflict ''Send uncertainty cannot be cleared''),
         raise_if (sent \<and> (t_action prev \<noteq> Send \<or> status \<in> set unsent_statuses))
           (Outbox_Conflict ''Send risk is incompatible with this action or status''),
         raise_if (status = Verifying \<and> (t_action prev \<noteq> Send \<or> \<not> sent))
           (Outbox_Conflict ''Only a possible send can be verified''),
         raise_if (status = Filled \<and> t_action prev \<noteq> Test)
           (Outbox_Conflict ''Only a test action can finish as filled''),
         if status = Observed
         then raise_if (t_action prev \<noteq> Send \<or> \<not> sent \<or> \<not> truthy (cur C_matched)
             \<or> \<not> truthy (cur C_evidence))
           (Outbox_Conflict ''Observed requires a possible send and local-message evidence'')
         else raise_if (cur C_matched \<noteq> PNone)
           (Outbox_Conflict ''Only observed tasks can claim a local message'')])"

definition store_transition ::
  "(string \<Rightarrow> string) \<Rightarrow> string \<Rightarrow> string list \<Rightarrow> int option \<Rightarrow> string \<Rightarrow> string \<Rightarrow> changes \<Rightarrow> pytime
     \<Rightarrow> outbox_db \<Rightarrow> task result \<times> outbox_db" where
  "store_transition canon tid states version seller data_dir ch now db =
     (case map_of ch C_status of
        None \<Rightarrow> (Inl (Value_Error ''transition requires status''), db)
      | Some status \<Rightarrow> write_txn (\<lambda>db.
          and_then (expected_row canon db tid seller data_dir states version) (\<lambda>prev.
          and_then (validate_transition prev status) (\<lambda>_.
          and_then (validate_editable prev ch True) (\<lambda>_.
          and_then (validate_values prev (merged prev ch)) (\<lambda>_.
            save_row prev ch Ev_Transition now db))))) db)"

definition store_update_fields ::
  "(string \<Rightarrow> string) \<Rightarrow> string \<Rightarrow> string list \<Rightarrow> int option \<Rightarrow> string \<Rightarrow> string \<Rightarrow> changes \<Rightarrow> pytime
     \<Rightarrow> outbox_db \<Rightarrow> task result \<times> outbox_db" where
  "store_update_fields canon tid states version seller data_dir ch now db =
     write_txn (\<lambda>db.
       and_then (expected_row canon db tid seller data_dir states version) (\<lambda>prev.
       and_then (validate_editable prev ch False) (\<lambda>_.
       and_then (validate_values prev (merged prev ch)) (\<lambda>_.
         save_row prev ch Ev_Update_Fields now db)))) db"

definition clear_screenshot :: changes where
  "clear_screenshot =
     [(C_screenshot_id, PNone), (C_screenshot_at, PNone), (C_screenshot_digest, PNone)]"

definition retry_changes :: "task \<Rightarrow> changes" where
  "retry_changes prev =
     [(C_status, PStr ''queued''), (C_attempt, PInt (t_attempt prev + 1)), (C_reason, PNone)]
     @ clear_screenshot @ [(C_baseline, PNone), (C_evidence, PNone), (C_matched, PNone)]"

definition store_retry ::
  "(string \<Rightarrow> string) \<Rightarrow> string \<Rightarrow> int option \<Rightarrow> string \<Rightarrow> string \<Rightarrow> pytime
     \<Rightarrow> outbox_db \<Rightarrow> task result \<times> outbox_db" where
  "store_retry canon tid version seller data_dir now db =
     write_txn (\<lambda>db.
       and_then (expected_row canon db tid seller data_dir [''failed''] version) (\<lambda>prev.
       if t_may_have_sent prev
       then Inl (Outbox_Conflict ''A possibly sent task cannot be retried'')
       else save_row prev (retry_changes prev) Ev_Retry now db)) db"

definition store_cancel ::
  "(string \<Rightarrow> string) \<Rightarrow> string \<Rightarrow> int option \<Rightarrow> string \<Rightarrow> string \<Rightarrow> string \<Rightarrow> pytime
     \<Rightarrow> outbox_db \<Rightarrow> task result \<times> outbox_db" where
  "store_cancel canon tid version seller data_dir reason now db =
     store_transition canon tid [''queued'', ''awaiting_confirmation'', ''queued_send''] version
       seller data_dir [(C_status, PStr ''cancelled''), (C_reason, PStr reason)] now db"

text \<open>\<^verbatim>\<open>create\<close>: validation, schema, then in one transaction the idempotency check or the insert.\<close>

definition new_task ::
  "string \<Rightarrow> string \<times> string \<Rightarrow> int \<Rightarrow> string \<Rightarrow> string \<Rightarrow> string \<Rightarrow> action \<Rightarrow> string
     \<Rightarrow> string option \<Rightarrow> string option \<Rightarrow> pytime \<Rightarrow> task" where
  "new_task tid sc conversation contact login content act key request epoch now =
     \<lparr>t_id = tid, t_seller = fst sc, t_data_dir = snd sc, t_conversation_id = conversation,
      t_contact = contact, t_login_id = login, t_content = content, t_action = act, t_key = key,
      t_status = Queued, t_version = 1, t_attempt = 1, t_may_have_sent = False, t_reason = None,
      t_created_at = now, t_updated_at = now, t_screenshot_id = None, t_screenshot_at = None,
      t_screenshot_digest = None, t_baseline = None, t_evidence = None, t_matched = None,
      t_origin_request = request, t_origin_epoch = epoch\<rparr>"

definition same_payload :: "task \<Rightarrow> int \<Rightarrow> string \<Rightarrow> string \<Rightarrow> string \<Rightarrow> action \<Rightarrow> bool" where
  "same_payload t conversation contact login content act \<longleftrightarrow>
     t_conversation_id t = conversation \<and> t_contact t = contact \<and> t_login_id t = login
   \<and> t_content t = content \<and> t_action t = act"

definition store_create ::
  "(string \<Rightarrow> string) \<Rightarrow> string \<Rightarrow> string \<Rightarrow> int \<Rightarrow> string \<Rightarrow> string \<Rightarrow> string \<Rightarrow> string \<Rightarrow> string
     \<Rightarrow> string option \<Rightarrow> string option \<Rightarrow> string \<Rightarrow> pytime
     \<Rightarrow> outbox_db \<Rightarrow> (task \<times> bool) result \<times> outbox_db" where
  "store_create canon seller data_dir conversation contact login content act_name key request epoch
     fresh now db =
     (case scope_of canon seller data_dir of
        Inl e \<Rightarrow> (Inl e, db)
      | Inr sc \<Rightarrow>
          (case action_of_name act_name of
             None \<Rightarrow> (Inl (Value_Error ''action must be send or test''), db)
           | Some act \<Rightarrow>
               if conversation < 1
               then (Inl (Value_Error ''conversation_id must be a positive integer''), db)
               else if py_blank contact \<or> py_blank login \<or> py_blank content \<or> py_blank key
               then (Inl (Value_Error
                 ''Recipient, content and idempotency key must be nonempty strings''), db)
               else write_txn (\<lambda>db.
                 case find (\<lambda>t. in_scope sc t \<and> t_key t = key) (db_tasks db) of
                   Some t \<Rightarrow>
                     if same_payload t conversation contact login content act
                     then Inr ((t, False), db)
                     else Inl (Outbox_Conflict
                       ''Idempotency key already belongs to a different payload'')
                 | None \<Rightarrow>
                     (let t = new_task fresh sc conversation contact login content act key
                            request epoch now;
                          rows = db_tasks db @ [t]
                      in if constraints_ok rows
                         then Inr ((t, True), db\<lparr>db_tasks := rows,
                           db_events := db_events db @ [event_row None t Ev_Create]\<rparr>)
                         else Inl (Integrity_Error ''UNIQUE constraint failed'')))
                 (initialize db)))"

text \<open>
  \<^verbatim>\<open>recover\<close>: what a restart makes of a task that was left unfinished, and the loop over
  them; \<open>clock k\<close> is the clock reading of the \<open>k\<close>-th write of the loop.
\<close>

definition recover_outcome :: "task \<Rightarrow> ostatus \<times> string" where
  "recover_outcome prev =
     (let status = (if is_recovery_uncertain (t_status prev) (t_may_have_sent prev)
                    then Unknown else Failed);
          reason = (if status = Unknown then ''restart_execution_uncertain''
                    else ''restart_before_execution'')
      in if t_status prev = Awaiting_Confirmation then (Failed, ''restart_confirmation_lost'')
         else (status, reason))"

definition recover_changes :: "task \<Rightarrow> changes" where
  "recover_changes prev =
     (C_status, PStr (status_name (fst (recover_outcome prev))))
     # (C_reason, PStr (snd (recover_outcome prev))) # clear_screenshot"

fun recover_rows ::
  "task list \<Rightarrow> (nat \<Rightarrow> pytime) \<Rightarrow> nat \<Rightarrow> outbox_db \<Rightarrow> (task list \<times> outbox_db) result" where
  "recover_rows [] clock k db = Inr ([], db)"
| "recover_rows (prev # rest) clock k db =
     and_then (save_row prev (recover_changes prev) Ev_Recover (clock k) db) (\<lambda>(cur, db').
     and_then (recover_rows rest clock (Suc k) db') (\<lambda>(recovered, db'').
       Inr (cur # recovered, db'')))"

definition store_recover :: "(nat \<Rightarrow> pytime) \<Rightarrow> outbox_db \<Rightarrow> task list result \<times> outbox_db" where
  "store_recover clock db =
     (if \<not> db_file db then (Inr [], db)
      else write_txn (\<lambda>db.
        if \<not> db_table db then Inr ([], db)
        else recover_rows (filter (\<lambda>t. t_status t \<in> set pending_statuses) (db_tasks db)) clock 0 db) db)"

section \<open>What a saved row looks like\<close>

text \<open>
  The facts that hold of every stored task; the checks of the code keep them. The values of
  the editable columns are well formed, so checking them again never fails.
\<close>

definition values_ok :: "task \<Rightarrow> bool" where
  "values_ok t \<longleftrightarrow>
     check_dict (opt_dict (t_baseline t)) = Inr () \<and> check_dict (opt_dict (t_evidence t)) = Inr ()
   \<and> check_str (opt_str (t_reason t)) = Inr () \<and> check_str (opt_str (t_screenshot_id t)) = Inr ()
   \<and> check_str (opt_str (t_screenshot_digest t)) = Inr () \<and> check_str (opt_str (t_matched t)) = Inr ()
   \<and> check_stamp (col t C_screenshot_at) = Inr ()"

definition task_ok :: "task \<Rightarrow> bool" where
  "task_ok t \<longleftrightarrow>
     (t_may_have_sent t \<longrightarrow> t_action t = Send \<and> t_status t \<in> set sent_statuses)
   \<and> (t_status t = Verifying \<longrightarrow> t_may_have_sent t)
   \<and> (t_status t = Filled \<longrightarrow> t_action t = Test)
   \<and> (t_status t = Observed \<longrightarrow> t_may_have_sent t \<and> t_matched t \<noteq> None
        \<and> t_evidence t \<noteq> None \<and> t_evidence t \<noteq> Some [])
   \<and> (t_matched t \<noteq> None \<longrightarrow> t_status t = Observed)
   \<and> (t_status t \<in> {Awaiting_Confirmation, Queued_Send} \<longrightarrow> t_screenshot_id t \<noteq> None)
   \<and> (t_screenshot_id t = None \<longleftrightarrow> t_screenshot_at t = None)
   \<and> 1 \<le> t_version t \<and> 1 \<le> t_attempt t \<and> values_ok t"

text \<open>The fields no write of the store changes after the insert.\<close>

definition same_identity :: "task \<Rightarrow> task \<Rightarrow> bool" where
  "same_identity t u \<longleftrightarrow>
     t_id u = t_id t \<and> t_seller u = t_seller t \<and> t_data_dir u = t_data_dir t
   \<and> t_conversation_id u = t_conversation_id t \<and> t_contact u = t_contact t
   \<and> t_login_id u = t_login_id t \<and> t_content u = t_content t \<and> t_action u = t_action t
   \<and> t_key u = t_key t \<and> t_created_at u = t_created_at t
   \<and> t_origin_request u = t_origin_request t \<and> t_origin_epoch u = t_origin_epoch t"

lemma saved_task_frame [simp]:
  "t_id (saved_task t ch now) = t_id t" "t_seller (saved_task t ch now) = t_seller t"
  "t_data_dir (saved_task t ch now) = t_data_dir t" "t_key (saved_task t ch now) = t_key t"
  "t_action (saved_task t ch now) = t_action t" "t_content (saved_task t ch now) = t_content t"
  "t_contact (saved_task t ch now) = t_contact t" "t_version (saved_task t ch now) = t_version t + 1"
  "t_updated_at (saved_task t ch now) = now" "t_login_id (saved_task t ch now) = t_login_id t"
  "t_conversation_id (saved_task t ch now) = t_conversation_id t"
  "t_created_at (saved_task t ch now) = t_created_at t"
  "t_origin_request (saved_task t ch now) = t_origin_request t"
  "t_origin_epoch (saved_task t ch now) = t_origin_epoch t"
  by (simp_all add: saved_task_def of_view_def)

lemma saved_task_identity: "same_identity t (saved_task t ch now)"
  by (simp add: same_identity_def)

lemma saved_task_fields:
  "t_status (saved_task t ch now) = (case as_status (merged t ch C_status) of Some s \<Rightarrow> s | None \<Rightarrow> t_status t)"
  "t_attempt (saved_task t ch now) = as_int (merged t ch C_attempt) (t_attempt t)"
  "t_may_have_sent (saved_task t ch now) = as_bool (merged t ch C_may_have_sent)"
  "t_reason (saved_task t ch now) = as_str (merged t ch C_reason)"
  "t_screenshot_id (saved_task t ch now) = as_str (merged t ch C_screenshot_id)"
  "t_screenshot_at (saved_task t ch now) = finite_number (merged t ch C_screenshot_at)"
  "t_screenshot_digest (saved_task t ch now) = as_str (merged t ch C_screenshot_digest)"
  "t_baseline (saved_task t ch now) = as_dict (merged t ch C_baseline)"
  "t_evidence (saved_task t ch now) = as_dict (merged t ch C_evidence)"
  "t_matched (saved_task t ch now) = as_str (merged t ch C_matched)"
  by (simp_all add: saved_task_def of_view_def)

lemma as_str_None_checked: "check_str v = Inr () \<Longrightarrow> as_str v = None \<longleftrightarrow> v = PNone"
  by (cases v) (auto simp: check_str_def)

lemma as_dict_None_checked: "check_dict v = Inr () \<Longrightarrow> as_dict v = None \<longleftrightarrow> v = PNone"
  by (cases v) (auto simp: check_dict_def)

lemma finite_number_None_checked:
  "check_stamp v = Inr () \<Longrightarrow> finite_number v = None \<longleftrightarrow> v = PNone"
  by (cases v) (auto simp: check_stamp_def split: option.splits)

lemma truthy_bool: "is_bool v \<Longrightarrow> truthy v = as_bool v"
  by (cases v) auto

lemma truthy_as_dict: "truthy v \<Longrightarrow> check_dict v = Inr () \<Longrightarrow> as_dict v \<noteq> None \<and> as_dict v \<noteq> Some []"
  by (cases v) (auto simp: check_dict_def)

lemma truthy_as_str: "truthy v \<Longrightarrow> check_str v = Inr () \<Longrightarrow> as_str v \<noteq> None"
  by (cases v) (auto simp: check_str_def)

lemma recheck_stored:
  "check_dict v = Inr () \<Longrightarrow> check_dict (opt_dict (as_dict v)) = Inr ()"
  "check_str v = Inr () \<Longrightarrow> check_str (opt_str (as_str v)) = Inr ()"
  by (cases v; auto simp: check_dict_def check_str_def opt_dict_def opt_str_def)+

lemma recheck_stamp:
  "check_stamp v = Inr () \<Longrightarrow>
     check_stamp (case finite_number v of None \<Rightarrow> PNone | Some q \<Rightarrow> PFloat (FFin q)) = Inr ()"
  by (cases v) (auto simp: check_stamp_def split: option.splits)

lemma check_None [simp]:
  "check_dict (opt_dict None) = Inr ()" "check_str (opt_str None) = Inr ()" "check_stamp PNone = Inr ()"
  by (simp_all add: check_dict_def check_str_def check_stamp_def opt_dict_def opt_str_def)

lemma check_Some [simp]: "check_str (opt_str (Some s)) = Inr () \<longleftrightarrow> s \<noteq> []"
  by (simp add: check_str_def opt_str_def)

text \<open>Validated values make a row that satisfies \<open>task_ok\<close>, whatever the row before was.\<close>

lemma validate_values_task_ok:
  assumes ok: "validate_values t (merged t ch) = Inr ()"
    and t: "1 \<le> t_version t" "1 \<le> t_attempt t"
    and attempt: "map_of ch C_attempt = None"
  shows "task_ok (saved_task t ch now)"
    and "t_may_have_sent t \<Longrightarrow> t_may_have_sent (saved_task t ch now)"
proof -
  let ?v = "merged t ch" and ?u = "saved_task t ch now"
  have checks: "check_dict (?v C_evidence) = Inr ()" "check_str (?v C_screenshot_id) = Inr ()"
      "check_str (?v C_matched) = Inr ()" "check_stamp (?v C_screenshot_at) = Inr ()"
      "is_bool (?v C_may_have_sent)"
    using ok by (auto simp: validate_values_def Let_def)
  note none = as_str_None_checked[OF checks(2)] as_str_None_checked[OF checks(3)]
    finite_number_None_checked[OF checks(4)]
  have status: "t_status ?u = (case as_status (?v C_status) of Some s \<Rightarrow> s | None \<Rightarrow> t_status t)"
    by (rule saved_task_fields)
  have sent: "t_may_have_sent ?u = truthy (?v C_may_have_sent)"
    by (simp add: saved_task_fields truthy_bool checks)
  have attempt_u: "t_attempt ?u = t_attempt t"
    using attempt by (simp add: saved_task_fields merged_def)
  have unsent: "s \<in> set sent_statuses" if "s \<notin> set unsent_statuses" for s
    using that by (cases s) (auto simp: sent_statuses_def unsent_statuses_def)
  show "t_may_have_sent t \<Longrightarrow> t_may_have_sent ?u"
    using ok by (simp add: sent validate_values_def Let_def)
  have "t_may_have_sent ?u \<longrightarrow> t_action t = Send \<and> t_status ?u \<in> set sent_statuses"
    using ok by (auto simp: sent status validate_values_def Let_def intro: unsent)
  moreover have "t_status ?u = Verifying \<longrightarrow> t_may_have_sent ?u"
    using ok by (auto simp: sent status validate_values_def Let_def)
  moreover have "t_status ?u = Filled \<longrightarrow> t_action t = Test"
    using ok by (cases "t_action t") (auto simp: status validate_values_def Let_def)
  moreover have "t_status ?u = Observed \<longrightarrow> t_may_have_sent ?u \<and> t_matched ?u \<noteq> None
      \<and> t_evidence ?u \<noteq> None \<and> t_evidence ?u \<noteq> Some []"
  proof
    assume "t_status ?u = Observed"
    then have "truthy (?v C_may_have_sent)" "truthy (?v C_matched)" "truthy (?v C_evidence)"
      using ok by (auto simp: status validate_values_def Let_def)
    then show "t_may_have_sent ?u \<and> t_matched ?u \<noteq> None
      \<and> t_evidence ?u \<noteq> None \<and> t_evidence ?u \<noteq> Some []"
      using truthy_as_dict[OF _ checks(1)] truthy_as_str[OF _ checks(3)]
      by (simp add: sent saved_task_fields(9,10))
  qed
  moreover have "t_matched ?u \<noteq> None \<longrightarrow> t_status ?u = Observed"
    using ok by (auto simp: status validate_values_def Let_def saved_task_fields(10) none
      split: if_splits)
  moreover have "t_status ?u \<in> {Awaiting_Confirmation, Queued_Send} \<longrightarrow> t_screenshot_id ?u \<noteq> None"
    using ok by (auto simp: status validate_values_def Let_def saved_task_fields(5) none)
  moreover have "t_screenshot_id ?u = None \<longleftrightarrow> t_screenshot_at ?u = None"
    using ok by (auto simp: validate_values_def Let_def saved_task_fields(5,6) none)
  moreover have "values_ok ?u"
    using ok unfolding values_ok_def saved_task_fields col.simps
    by (auto simp: validate_values_def Let_def saved_task_fields intro: recheck_stored recheck_stamp)
  ultimately show "task_ok ?u"
    using t by (simp add: task_ok_def attempt_u)
qed

end
