(* ===== verification/Outbox_Store_Inv.thy ===== *)
theory Outbox_Store_Inv
  imports Outbox_Store
begin

text \<open>
  The outbox store as a transition system. \<open>task_step\<close> is one validated write of one row,
  \<open>db_step\<close> one committed write of the database; every operation of the store is a run of
  \<open>db_step\<close>s. \<open>db_ok\<close> is the invariant: the constraints of the tables, the facts of every
  row, and an audit trail that is complete and legal. \<open>history_rel\<close> relates a database to a
  later one: nothing is deleted, payloads never change, versions grow, a possible send is
  never forgotten. The last section proves the properties of the component.
\<close>

section \<open>Steps\<close>

inductive task_step :: "event_kind \<Rightarrow> task \<Rightarrow> task \<Rightarrow> bool" where
  step_transition: "map_of ch C_status = Some status \<Longrightarrow> validate_transition t status = Inr () \<Longrightarrow>
     validate_editable t ch True = Inr () \<Longrightarrow> validate_values t (merged t ch) = Inr () \<Longrightarrow>
     task_step Ev_Transition t (saved_task t ch now)"
| step_fields: "validate_editable t ch False = Inr () \<Longrightarrow> validate_values t (merged t ch) = Inr () \<Longrightarrow>
     task_step Ev_Update_Fields t (saved_task t ch now)"
| step_retry: "t_status t = Failed \<Longrightarrow> \<not> t_may_have_sent t \<Longrightarrow>
     task_step Ev_Retry t (saved_task t (retry_changes t) now)"
| step_recover: "t_status t \<in> set pending_statuses \<Longrightarrow>
     task_step Ev_Recover t (saved_task t (recover_changes t) now)"

inductive db_step :: "outbox_db \<Rightarrow> outbox_db \<Rightarrow> bool" where
  db_schema: "db_step db (initialize db)"
| db_insert: "db_file db \<Longrightarrow> db_table db \<Longrightarrow>
     t = new_task fresh sc conversation contact login content act key request epoch now \<Longrightarrow>
     constraints_ok (db_tasks db @ [t]) \<Longrightarrow>
     db_step db (db\<lparr>db_tasks := db_tasks db @ [t],
       db_events := db_events db @ [event_row None t Ev_Create]\<rparr>)"
| db_save: "db_file db \<Longrightarrow> db_table db \<Longrightarrow> prev \<in> set (db_tasks db) \<Longrightarrow>
     task_step kind prev cur \<Longrightarrow> save_row prev ch kind now db = Inr (cur, db') \<Longrightarrow> db_step db db'"

inductive_cases db_stepE: "db_step db db'"
inductive_cases task_step_fieldsE: "task_step Ev_Update_Fields t u"

section \<open>What one row write keeps\<close>

lemma merged_simps [simp]:
  "merged t ch c = (case map_of ch c of Some v \<Rightarrow> v | None \<Rightarrow> col t c)"
  by (simp add: merged_def)

lemma retry_fields:
  "t_status (saved_task t (retry_changes t) now) = Queued"
  "t_attempt (saved_task t (retry_changes t) now) = t_attempt t + 1"
  "t_may_have_sent (saved_task t (retry_changes t) now) = t_may_have_sent t"
  "t_reason (saved_task t (retry_changes t) now) = None"
  "t_screenshot_id (saved_task t (retry_changes t) now) = None"
  "t_screenshot_at (saved_task t (retry_changes t) now) = None"
  "t_screenshot_digest (saved_task t (retry_changes t) now) = None"
  "t_baseline (saved_task t (retry_changes t) now) = None"
  "t_evidence (saved_task t (retry_changes t) now) = None"
  "t_matched (saved_task t (retry_changes t) now) = None"
  by (simp_all add: saved_task_fields retry_changes_def clear_screenshot_def)

lemma recover_fields:
  "t_status (saved_task t (recover_changes t) now) = fst (recover_outcome t)"
  "t_attempt (saved_task t (recover_changes t) now) = t_attempt t"
  "t_may_have_sent (saved_task t (recover_changes t) now) = t_may_have_sent t"
  "t_reason (saved_task t (recover_changes t) now) = Some (snd (recover_outcome t))"
  "t_screenshot_id (saved_task t (recover_changes t) now) = None"
  "t_screenshot_at (saved_task t (recover_changes t) now) = None"
  "t_screenshot_digest (saved_task t (recover_changes t) now) = None"
  "t_baseline (saved_task t (recover_changes t) now) = t_baseline t"
  "t_evidence (saved_task t (recover_changes t) now) = t_evidence t"
  "t_matched (saved_task t (recover_changes t) now) = t_matched t"
  by (simp_all add: saved_task_fields recover_changes_def clear_screenshot_def)

lemma recover_outcome_status: "fst (recover_outcome t) \<in> {Failed, Unknown}"
  by (simp add: recover_outcome_def Let_def)

lemma editable_no_attempt:
  "validate_editable t ch tr = Inr () \<Longrightarrow> map_of ch C_attempt = None"
  by (auto simp: validate_editable_def editable_columns_def map_of_eq_None_iff Let_def
      split: if_splits)

lemma editable_no_status:
  "validate_editable t ch False = Inr () \<Longrightarrow> map_of ch C_status = None"
  by (auto simp: validate_editable_def editable_columns_def map_of_eq_None_iff Let_def
      split: if_splits)

lemma editable_no_matched:
  "validate_editable t ch False = Inr () \<Longrightarrow> map_of ch C_matched = None"
  by (auto simp: validate_editable_def editable_columns_def map_of_eq_None_iff Let_def
      split: if_splits)

lemma task_step_identity: "task_step k t u \<Longrightarrow> same_identity t u"
  by (induction rule: task_step.induct) (rule saved_task_identity)+

lemma task_step_version: "task_step k t u \<Longrightarrow> t_version u = t_version t + 1"
  by (induction rule: task_step.induct) simp_all

lemma task_ok_pos: "task_ok t \<Longrightarrow> 1 \<le> t_version t \<and> 1 \<le> t_attempt t"
  by (simp add: task_ok_def)

lemma task_step_ok:
  assumes "task_step k t u" "task_ok t"
  shows "task_ok u"
  using assms
proof (induction rule: task_step.induct)
  case (step_transition ch status t now)
  from task_ok_pos[OF step_transition(5)] editable_no_attempt[OF step_transition(3)]
  show ?case by (intro validate_values_task_ok(1) step_transition(4)) auto
next
  case (step_fields t ch now)
  from task_ok_pos[OF step_fields(3)] editable_no_attempt[OF step_fields(1)]
  show ?case by (intro validate_values_task_ok(1) step_fields(2)) auto
next
  case (step_retry t now)
  then show ?case by (auto simp: task_ok_def retry_fields values_ok_def)
next
  case (step_recover t now)
  let ?u = "saved_task t (recover_changes t) now"
  have "t_status t \<noteq> Observed"
    using step_recover(1) by (auto simp: status_lists)
  then have matched: "t_matched t = None" and sent: "t_may_have_sent t \<longrightarrow> t_action t = Send"
    and pos: "1 \<le> t_version t" "1 \<le> t_attempt t"
    and vals: "values_ok t"
    using step_recover(2) by (auto simp: task_ok_def)
  have "t_status ?u = Failed \<or> t_status ?u = Unknown"
    using recover_outcome_status[of t] by (simp add: recover_fields)
  then have "t_status ?u \<in> set sent_statuses" "t_status ?u \<noteq> Verifying" "t_status ?u \<noteq> Filled"
    "t_status ?u \<noteq> Observed" "t_status ?u \<notin> {Awaiting_Confirmation, Queued_Send}"
    by (auto simp: sent_statuses_def)
  moreover have "t_may_have_sent ?u = t_may_have_sent t" "t_matched ?u = None"
    "t_screenshot_id ?u = None" "t_screenshot_at ?u = None" "t_attempt ?u = t_attempt t"
    by (simp_all add: recover_fields matched)
  moreover have "snd (recover_outcome t) \<noteq> []"
    by (simp add: recover_outcome_def Let_def)
  then have "values_ok ?u"
    using vals by (simp add: values_ok_def recover_fields)
  ultimately show ?case
    using sent pos unfolding task_ok_def by simp
qed

lemma task_step_sent_mono:
  assumes "task_step k t u" "task_ok t" "t_may_have_sent t"
  shows "t_may_have_sent u"
  using assms
proof (induction rule: task_step.induct)
  case (step_transition ch status t now)
  from task_ok_pos[OF step_transition(5)] step_transition(6) editable_no_attempt[OF step_transition(3)]
  show ?case by (intro validate_values_task_ok(2) step_transition(4)) auto
next
  case (step_fields t ch now)
  from task_ok_pos[OF step_fields(3)] step_fields(4) editable_no_attempt[OF step_fields(1)]
  show ?case by (intro validate_values_task_ok(2) step_fields(2)) auto
qed (simp_all add: retry_fields recover_fields)

text \<open>The edge each kind of write makes.\<close>

definition legal_edge :: "event_kind \<Rightarrow> task \<Rightarrow> task \<Rightarrow> bool" where
  "legal_edge k t u \<longleftrightarrow>
     (case k of
        Ev_Create \<Rightarrow> False
      | Ev_Transition \<Rightarrow> t_status u \<in> set (transitions (t_status t)) \<and> t_attempt u = t_attempt t
      | Ev_Update_Fields \<Rightarrow> t_status u = t_status t \<and> t_status t \<in> set pending_statuses
          \<and> t_attempt u = t_attempt t
      | Ev_Retry \<Rightarrow> t_status t = Failed \<and> \<not> t_may_have_sent t \<and> t_status u = Queued
          \<and> t_attempt u = t_attempt t + 1
      | Ev_Recover \<Rightarrow> t_status t \<in> set pending_statuses \<and> t_status u \<in> {Failed, Unknown}
          \<and> (t_may_have_sent t \<longrightarrow> t_status u = Unknown) \<and> t_attempt u = t_attempt t)"

lemma task_step_legal:
  assumes "task_step k t u" "task_ok t"
  shows "legal_edge k t u"
  using assms
proof (induction rule: task_step.induct)
  case (step_transition ch status t now)
  then show ?case
    using editable_no_attempt[OF step_transition(3)]
    by (auto simp: legal_edge_def saved_task_fields validate_transition_def
        split: option.splits if_splits)
next
  case (step_fields t ch now)
  then show ?case
    using editable_no_attempt[OF step_fields(1)] editable_no_status[OF step_fields(1)]
    by (auto simp: legal_edge_def saved_task_fields validate_editable_def Let_def split: if_splits)
next
  case (step_retry t now)
  then show ?case by (simp add: legal_edge_def retry_fields)
next
  case (step_recover t now)
  then show ?case
    by (auto simp: legal_edge_def recover_fields recover_outcome_def is_recovery_uncertain_def
        task_ok_def sent_statuses_def Let_def)
qed

section \<open>What one write of the database keeps\<close>

lemma save_row_InrD:
  assumes "save_row prev ch kind now db = Inr (cur, db')"
  shows "cur = saved_task prev ch now"
    and "db_tasks db' = update_rows (same_row prev) (\<lambda>_. cur) (db_tasks db)"
    and "constraints_ok (db_tasks db')"
    and "db_events db' = (if kind = Ev_Update_Fields then db_events db
           else db_events db @ [event_row (Some prev) cur kind])"
    and "db_file db' = db_file db" and "db_table db' = db_table db"
  using assms by (auto simp: save_row_def Let_def split: if_splits)

lemma constraints_ids: "constraints_ok ts \<Longrightarrow> distinct (map t_id ts)"
  by (simp add: constraints_ok_def)

text \<open>With distinct identifiers the compare-and-swap replaces exactly the row it read.\<close>

lemma update_same_row:
  assumes "distinct (map t_id ts)" "prev \<in> set ts"
  shows "set (update_rows (same_row prev) (\<lambda>_. cur) ts) = insert cur (set ts - {prev})"
proof -
  have "inj_on t_id (set ts)" using assms(1) by (simp add: distinct_map)
  then have same: "same_row prev t \<longleftrightarrow> t = prev" if "t \<in> set ts" for t
    using that assms(2) by (auto simp: same_row_def in_scope_def dest: inj_onD)
  show ?thesis
    using assms(2) by (auto simp: set_update_rows same image_iff)
qed

lemma initialize_id:
  "db_table db \<Longrightarrow> db_tasks (initialize db) = db_tasks db \<and> db_events (initialize db) = db_events db"
  by (simp add: initialize_def Let_def)

lemma initialize_exists [simp]: "db_file (initialize db)" "db_table (initialize db)"
  by (simp_all add: initialize_def Let_def)

text \<open>
  The invariant. The audit part: every event names a stored task and is no newer than it, no
  version of a task has two events, every event of a change is a legal edge, and the
  latest event of a task shows its status and attempt.
\<close>

definition event_ok :: "oevent \<Rightarrow> bool" where
  "event_ok e \<longleftrightarrow>
     e_task e = t_id (e_current e) \<and> e_version e = t_version (e_current e)
   \<and> (case e_previous e of
        None \<Rightarrow> e_kind e = Ev_Create \<and> t_status (e_current e) = Queued \<and> e_version e = 1
      | Some p \<Rightarrow> legal_edge (e_kind e) p (e_current e) \<and> same_identity p (e_current e))"

definition trail_ok :: "oevent list \<Rightarrow> task \<Rightarrow> bool" where
  "trail_ok es t \<longleftrightarrow>
     (\<exists>e \<in> set es. e_task e = t_id t \<and> t_status (e_current e) = t_status t
        \<and> t_attempt (e_current e) = t_attempt t
        \<and> (\<forall>e' \<in> set es. e_task e' = t_id t \<longrightarrow> e_version e' \<le> e_version e))"

definition db_ok :: "outbox_db \<Rightarrow> bool" where
  "db_ok db \<longleftrightarrow>
     constraints_ok (db_tasks db)
   \<and> (\<forall>t \<in> set (db_tasks db). task_ok t \<and> trail_ok (db_events db) t)
   \<and> (\<forall>e \<in> set (db_events db). event_ok e
        \<and> (\<exists>t \<in> set (db_tasks db). t_id t = e_task e \<and> e_version e \<le> t_version t))
   \<and> distinct (map (\<lambda>e. (e_task e, e_version e)) (db_events db))
   \<and> (\<not> db_table db \<longrightarrow> db_tasks db = [] \<and> db_events db = [])
   \<and> (db_table db \<longrightarrow> db_file db)"

lemma db_okD:
  assumes "db_ok db"
  shows "constraints_ok (db_tasks db)"
    and "t \<in> set (db_tasks db) \<Longrightarrow> task_ok t"
    and "t \<in> set (db_tasks db) \<Longrightarrow> trail_ok (db_events db) t"
    and "e \<in> set (db_events db) \<Longrightarrow> event_ok e"
    and "e \<in> set (db_events db) \<Longrightarrow>
      \<exists>t \<in> set (db_tasks db). t_id t = e_task e \<and> e_version e \<le> t_version t"
    and "distinct (map (\<lambda>e. (e_task e, e_version e)) (db_events db))"
    and "t \<in> set (db_tasks db) \<Longrightarrow> db_file db \<and> db_table db"
    and "distinct (map t_id (db_tasks db))"
  using assms by (auto simp: db_ok_def constraints_ok_def)

lemma db_ok_empty: "db_ok empty_db"
  by (simp add: db_ok_def empty_db_def constraints_ok_def)

lemma db_ok_initialize: "db_ok db \<Longrightarrow> db_ok (initialize db)"
  by (auto simp: db_ok_def initialize_def Let_def constraints_ok_def)

lemma trail_ok_other:
  assumes "trail_ok es t" "e_task e \<noteq> t_id t"
  shows "trail_ok (es @ [e]) t"
  using assms by (auto simp: trail_ok_def)

lemma trail_ok_latest:
  assumes "\<And>e'. e' \<in> set es \<Longrightarrow> e_task e' = t_id t \<Longrightarrow> e_version e' \<le> t_version t"
  shows "trail_ok (es @ [event_row p t k]) t"
  using assms by (auto simp: trail_ok_def event_row_def)

lemma new_task_ok: "task_ok (new_task i sc cv c l x a k r ep now)"
  by (simp add: task_ok_def new_task_def values_ok_def)

lemma db_ok_insert:
  assumes ok: "db_ok db" and ex: "db_file db" "db_table db"
    and t: "t = new_task i sc cv c l x a k r ep now"
    and con: "constraints_ok (db_tasks db @ [t])"
  shows "db_ok (db\<lparr>db_tasks := db_tasks db @ [t],
           db_events := db_events db @ [event_row None t Ev_Create]\<rparr>)"
proof -
  let ?e = "event_row None t Ev_Create"
  have fresh: "t_id u \<noteq> t_id t" if "u \<in> set (db_tasks db)" for u
    using constraints_ids[OF con] imageI[OF that, of t_id] by auto
  have no_event: "e_task e \<noteq> t_id t" if "e \<in> set (db_events db)" for e
    using ok that fresh by (auto simp: db_ok_def)
  have "trail_ok (db_events db @ [?e]) u" if "u \<in> set (db_tasks db)" for u
    using db_okD(3)[OF ok that] fresh[OF that] by (simp add: event_row_def trail_ok_other)
  moreover have "trail_ok (db_events db @ [?e]) t"
    using no_event by (blast intro: trail_ok_latest)
  moreover have "event_ok ?e"
    by (simp add: event_ok_def event_row_def t new_task_def)
  moreover have "(t_id t, t_version t) \<notin> (\<lambda>e. (e_task e, e_version e)) ` set (db_events db)"
    using no_event by (metis (no_types, lifting) image_iff prod.inject)
  then have "distinct (map (\<lambda>e. (e_task e, e_version e)) (db_events db @ [?e]))"
    using db_okD(6)[OF ok] by (simp add: event_row_def)
  moreover have "task_ok t" by (simp add: t new_task_ok)
  ultimately show ?thesis
    using ok ex con by (auto simp: db_ok_def event_row_def)
qed

lemma db_ok_save:
  assumes ok: "db_ok db" and prev: "prev \<in> set (db_tasks db)" and step: "task_step k prev cur"
    and save: "save_row prev ch k now db = Inr (cur, db')"
  shows "db_ok db'"
proof -
  note D = save_row_InrD[OF save]
  have ids: "distinct (map t_id (db_tasks db))" and prev_ok: "task_ok prev"
    using ok prev by (auto simp: db_ok_def constraints_ok_def)
  have rows: "set (db_tasks db') = insert cur (set (db_tasks db) - {prev})"
    unfolding D(2) by (rule update_same_row[OF ids prev])
  have id: "t_id cur = t_id prev" and version: "t_version cur = t_version prev + 1"
    using task_step_identity[OF step] task_step_version[OF step] by (auto simp: same_identity_def)
  have other: "t_id t \<noteq> t_id cur" if "t \<in> set (db_tasks db)" "t \<noteq> prev" for t
    using ids prev that id by (auto simp: distinct_map dest: inj_onD)
  have old: "e_version e \<le> t_version prev" if "e \<in> set (db_events db)" "e_task e = t_id prev" for e
  proof -
    note e = that
    obtain t where t: "t \<in> set (db_tasks db)" "t_id t = e_task e" "e_version e \<le> t_version t"
      using db_okD(5)[OF ok e(1)] by blast
    then have "t = prev" using other[of t] id e(2) by auto
    with t show ?thesis by simp
  qed
  have legal: "legal_edge k prev cur" by (rule task_step_legal[OF step prev_ok])
  have cur_trail: "trail_ok (db_events db') cur"
  proof (cases "k = Ev_Update_Fields")
    case True
    then have "t_status cur = t_status prev" "t_attempt cur = t_attempt prev"
      using legal by (auto simp: legal_edge_def)
    moreover have "trail_ok (db_events db) prev" using ok prev by (auto simp: db_ok_def)
    ultimately show ?thesis using True by (simp add: trail_ok_def D(4) id)
  next
    case False
    have "trail_ok (db_events db @ [event_row (Some prev) cur k]) cur"
      using old id version by (intro trail_ok_latest) (simp add: order_trans[OF _ order.strict_implies_order[OF less_add_one]])
    with False show ?thesis by (simp add: D(4))
  qed
  have other_trail: "trail_ok (db_events db') t" if "t \<in> set (db_tasks db)" "t \<noteq> prev" for t
  proof -
    have "trail_ok (db_events db) t" using ok that by (auto simp: db_ok_def)
    with other[OF that] show ?thesis
      by (auto simp: D(4) event_row_def intro: trail_ok_other)
  qed
  have event: "event_ok e \<and> (\<exists>t \<in> set (db_tasks db'). t_id t = e_task e \<and> e_version e \<le> t_version t)"
    if e: "e \<in> set (db_events db')" for e
  proof (cases "e \<in> set (db_events db)")
    case True
    then obtain t where t: "t \<in> set (db_tasks db)" "t_id t = e_task e" "e_version e \<le> t_version t"
      and "event_ok e"
      using ok by (auto simp: db_ok_def)
    moreover have "\<exists>u \<in> set (db_tasks db'). t_id u = e_task e \<and> e_version e \<le> t_version u"
      using t by (cases "t = prev") (auto simp: rows id version)
    ultimately show ?thesis by simp
  next
    case False
    with e have "e = event_row (Some prev) cur k" by (auto simp: D(4) split: if_splits)
    then show ?thesis
      using legal task_step_identity[OF step] by (auto simp: event_ok_def event_row_def rows)
  qed
  have new_pair: "(t_id cur, t_version cur) \<notin> (\<lambda>e. (e_task e, e_version e)) ` set (db_events db)"
  proof
    assume "(t_id cur, t_version cur) \<in> (\<lambda>e. (e_task e, e_version e)) ` set (db_events db)"
    then obtain e where "e \<in> set (db_events db)" "e_task e = t_id prev" "e_version e = t_version prev + 1"
      using id version by auto
    then show False using old by fastforce
  qed
  have "distinct (map (\<lambda>e. (e_task e, e_version e)) (db_events db'))"
    using db_okD(6)[OF ok] new_pair by (simp add: D(4) event_row_def)
  moreover have "db_table db' \<longrightarrow> db_file db'" "db_table db"
    using ok prev by (auto simp: db_ok_def D(5,6))
  ultimately show ?thesis
    using ok D(3) task_step_ok[OF step prev_ok] cur_trail other_trail event
    by (auto simp: db_ok_def rows D(5,6))
qed

lemma db_step_ok: "db_ok db \<Longrightarrow> db_step db db' \<Longrightarrow> db_ok db'"
  by (erule db_stepE) (auto intro: db_ok_initialize db_ok_insert db_ok_save)

end
