(* ===== verification/Outbox_Store_Props.thy ===== *)
theory Outbox_Store_Props
  imports Outbox_Store_Inv
begin

text \<open>
  The operations of the outbox store as runs of the transition system: every call either leaves
  the database as it was or is a run of \<open>db_step\<close>s, so the invariant and the history
  relation hold for any sequence of calls. The interface \<open>versioned_store\<close> states what
  optimistic concurrency promises to a caller and is interpreted on the store's operations.
\<close>

section \<open>Interface: optimistic concurrency\<close>

text \<open>
  A write names the row and the version it read. It succeeds only on that version and
  moves the row to the next one; a failed write changes nothing.
\<close>

locale versioned_store =
  fixes good :: "'s \<Rightarrow> bool"
    and row_version :: "'s \<Rightarrow> 'k \<Rightarrow> int option"
    and cas_write :: "'k \<Rightarrow> int \<Rightarrow> 'c \<Rightarrow> 's \<Rightarrow> 'r result \<times> 's"
  assumes cas_success: "good s \<Longrightarrow> cas_write k v c s = (Inr r, s') \<Longrightarrow>
      row_version s k = Some v \<and> row_version s' k = Some (v + 1) \<and> good s'"
    and cas_failure: "cas_write k v c s = (Inl e, s') \<Longrightarrow> s' = s"
begin

text \<open>Two writers that read the same version cannot both succeed.\<close>

lemma no_lost_update:
  assumes "good s" "cas_write k v c s = (Inr r, s')"
  shows "\<exists>e. cas_write k v c' s' = (Inl e, s')"
proof (cases "cas_write k v c' s'")
  case (Pair x s'')
  show ?thesis
  proof (cases x)
    case (Inl e)
    then show ?thesis using Pair cas_failure by fastforce
  next
    case (Inr r')
    have "row_version s' k = Some (v + 1)" "good s'" using cas_success[OF assms] by auto
    moreover have "row_version s' k = Some v"
      using cas_success[of s' k v c' r' s''] Pair Inr \<open>good s'\<close> by auto
    ultimately show ?thesis by simp
  qed
qed

text \<open>A chain of successful writes moves the version by one each, so versions count the writes.\<close>

lemma write_version_step:
  assumes "good s" "cas_write k v c s = (Inr r, s')" "cas_write k w c' s' = (Inr r', s'')"
  shows "w = v + 1"
  using cas_success[OF assms(1,2)] cas_success[of s' k w c' r' s''] assms(3) by auto

end

section \<open>Calls are runs\<close>

lemma write_txn_simps:
  "write_txn body db = (Inr a, db') \<longleftrightarrow> db_file db \<and> body db = Inr (a, db')"
  "write_txn body db = (Inl e, db') \<Longrightarrow> db' = db"
  by (auto simp: write_txn_def split: if_splits sum.splits)

lemma expected_rowD:
  assumes "expected_row canon db tid seller dir states version = Inr t"
  shows "db_table db" "t \<in> set (db_tasks db)" "t_id t = tid"
    and "\<exists>sc. scope_of canon seller dir = Inr sc \<and> in_scope sc t"
    and "\<exists>ss. states_of states = Inr ss \<and> t_status t \<in> set ss"
    and "version = Some v \<Longrightarrow> t_version t = v"
proof -
  obtain ss sc where *: "states_of states = Inr ss" "scope_of canon seller dir = Inr sc" "db_table db"
    and "(case find (\<lambda>t. t_id t = tid \<and> in_scope sc t) (db_tasks db) of
         None \<Rightarrow> Inl (Outbox_Conflict ''Outbox task not found in this scope'')
       | Some t \<Rightarrow>
           if t_status t \<notin> set ss \<or> version \<notin> {None, Some (t_version t)}
           then Inl (Outbox_Conflict ''Outbox status or version changed'')
           else Inr t) = Inr t"
    using assms by (auto simp: expected_row_def and_then_Inr_iff)
  then have "find (\<lambda>t. t_id t = tid \<and> in_scope sc t) (db_tasks db) = Some t"
    "t_status t \<in> set ss" "\<forall>v. version = Some v \<longrightarrow> t_version t = v"
    by (auto split: option.splits if_splits)
  with * show "db_table db" "t \<in> set (db_tasks db)" "t_id t = tid"
    "\<exists>sc. scope_of canon seller dir = Inr sc \<and> in_scope sc t"
    "\<exists>ss. states_of states = Inr ss \<and> t_status t \<in> set ss"
    "version = Some v \<Longrightarrow> t_version t = v"
    by (auto dest: find_SomeD)
qed

lemma store_transition_InrD:
  assumes "store_transition canon tid states v s d ch now db = (Inr u, db')"
  obtains t where "expected_row canon db tid s d states v = Inr t"
    "task_step Ev_Transition t u" "save_row t ch Ev_Transition now db = Inr (u, db')" "db_file db"
proof -
  obtain st where st: "map_of ch C_status = Some st"
    using assms by (auto simp: store_transition_def split: option.splits)
  then obtain t where t: "expected_row canon db tid s d states v = Inr t"
      "validate_transition t st = Inr ()" "validate_editable t ch True = Inr ()"
      "validate_values t (merged t ch) = Inr ()" "save_row t ch Ev_Transition now db = Inr (u, db')"
      "db_file db"
    using assms by (auto simp: store_transition_def write_txn_simps and_then_Inr_iff simp del: merged_simps)
  moreover have "u = saved_task t ch now" by (rule save_row_InrD(1)[OF t(5)])
  ultimately show thesis using st that by (blast intro: step_transition)
qed

lemma store_transition_Inl:
  "store_transition canon tid states v s d ch now db = (Inl e, db') \<Longrightarrow> db' = db"
  by (auto simp: store_transition_def dest: write_txn_simps(2) split: option.splits)

lemma store_update_fields_InrD:
  assumes "store_update_fields canon tid states v s d ch now db = (Inr u, db')"
  obtains t where "expected_row canon db tid s d states v = Inr t"
    "task_step Ev_Update_Fields t u" "save_row t ch Ev_Update_Fields now db = Inr (u, db')" "db_file db"
proof -
  obtain t where t: "expected_row canon db tid s d states v = Inr t"
      "validate_editable t ch False = Inr ()"
      "validate_values t (merged t ch) = Inr ()" "save_row t ch Ev_Update_Fields now db = Inr (u, db')"
      "db_file db"
    using assms by (auto simp: store_update_fields_def write_txn_simps and_then_Inr_iff simp del: merged_simps)
  moreover have "u = saved_task t ch now" by (rule save_row_InrD(1)[OF t(4)])
  ultimately show thesis using that by (blast intro: step_fields)
qed

lemma store_update_fields_Inl:
  "store_update_fields canon tid states v s d ch now db = (Inl e, db') \<Longrightarrow> db' = db"
  by (auto simp: store_update_fields_def dest: write_txn_simps(2))

lemma states_of_failed [simp]: "states_of [''failed''] = Inr [Failed]"
  by (simp add: states_of_def List.map_filter_def)

lemma store_retry_InrD:
  assumes "store_retry canon tid v s d now db = (Inr u, db')"
  obtains t where "expected_row canon db tid s d [''failed''] v = Inr t"
    "task_step Ev_Retry t u" "save_row t (retry_changes t) Ev_Retry now db = Inr (u, db')" "db_file db"
proof -
  obtain t where t: "expected_row canon db tid s d [''failed''] v = Inr t"
      "\<not> t_may_have_sent t" "save_row t (retry_changes t) Ev_Retry now db = Inr (u, db')" "db_file db"
    using assms by (auto simp: store_retry_def write_txn_simps and_then_Inr_iff split: if_splits)
  moreover have "t_status t = Failed" using expected_rowD(5)[OF t(1)] by auto
  moreover have "u = saved_task t (retry_changes t) now" by (rule save_row_InrD(1)[OF t(3)])
  ultimately show thesis using that by (blast intro: step_retry)
qed

lemma store_retry_Inl: "store_retry canon tid v s d now db = (Inl e, db') \<Longrightarrow> db' = db"
  by (auto simp: store_retry_def dest: write_txn_simps(2))

lemma saved_step:
  assumes "expected_row canon db tid s d states v = Inr t" "task_step k t u"
    "save_row t ch k now db = Inr (u, db')" "db_file db"
  shows "db_step db db'"
  using assms expected_rowD(1,2)[OF assms(1)] by (blast intro: db_save)

section \<open>Recovery\<close>

lemma claim_of_recover: "claim_of (saved_task t (recover_changes t) now) = claim_of t"
  by (simp add: claim_of_def recover_fields)

lemma constraints_replace:
  assumes con: "constraints_ok ts"
    and same: "t_id u = t_id p" "t_seller u = t_seller p" "t_data_dir u = t_data_dir p"
      "t_key u = t_key p" "claim_of u = claim_of p" "1 \<le> t_version u" "1 \<le> t_attempt u"
    and prev: "p \<in> set ts"
  shows "constraints_ok (update_rows (same_row p) (\<lambda>_. u) ts)"
proof -
  have inj: "inj_on t_id (set ts)" using con by (simp add: constraints_ok_def distinct_map)
  have row: "same_row p t \<Longrightarrow> t \<in> set ts \<Longrightarrow> t = p" for t
    using inj prev by (auto simp: same_row_def dest: inj_onD)
  have keep: "map f (update_rows (same_row p) (\<lambda>_. u) ts) = map f ts" if "f u = f p" for f :: "task \<Rightarrow> 'x"
    using that row by (auto simp: update_rows_def)
  have claims: "List.map_filter claim_of xs = List.map_filter (\<lambda>x. x) (map claim_of xs)" for xs
    by (induction xs) (simp_all add: List.map_filter_simps split: option.splits)
  have "List.map_filter claim_of (update_rows (same_row p) (\<lambda>_. u) ts) = List.map_filter claim_of ts"
    by (simp only: claims keep[of claim_of, OF same(5)])
  moreover have "list_all (\<lambda>t. 1 \<le> t_version t \<and> 1 \<le> t_attempt t) (update_rows (same_row p) (\<lambda>_. u) ts)"
    using con same(6,7) by (auto simp: constraints_ok_def list_all_iff set_update_rows)
  ultimately show ?thesis
    using con keep[of t_id] keep[of "\<lambda>t. (t_seller t, t_data_dir t, t_key t)"] same
    by (simp add: constraints_ok_def)
qed

lemma one_same_row:
  assumes "distinct (map t_id ts)" "p \<in> set ts"
  shows "length (filter (same_row p) ts) = 1"
  using assms
proof (induction ts)
  case (Cons t ts)
  show ?case
  proof (cases "t = p")
    case True
    with Cons.prems have "filter (same_row p) ts = []"
      by (auto simp: filter_empty_conv same_row_def image_iff)
    moreover have "same_row p p" by (simp add: same_row_def in_scope_def)
    ultimately show ?thesis using True by simp
  next
    case False
    with Cons show ?thesis by (auto simp: same_row_def image_iff)
  qed
qed simp

text \<open>Recovering an unfinished row of a sound database always succeeds.\<close>

lemma save_recover:
  assumes ok: "db_ok db" and p: "p \<in> set (db_tasks db)" and st: "t_status p \<in> set pending_statuses"
  shows "\<exists>db'. save_row p (recover_changes p) Ev_Recover now db
      = Inr (saved_task p (recover_changes p) now, db')"
proof -
  let ?u = "saved_task p (recover_changes p) now"
  have "constraints_ok (update_rows (same_row p) (\<lambda>_. ?u) (db_tasks db))"
    using db_okD(1)[OF ok] p task_ok_pos[OF db_okD(2)[OF ok p]]
    by (intro constraints_replace) (simp_all add: claim_of_recover recover_fields)
  then show ?thesis
    using one_same_row[OF db_okD(8)[OF ok] p] by (simp add: save_row_def Let_def)
qed

lemma recover_rows_run:
  assumes "db_ok db" "set ps \<subseteq> set (db_tasks db)" "distinct (map t_id ps)"
    "\<forall>p \<in> set ps. t_status p \<in> set pending_statuses"
  shows "\<exists>us db'. recover_rows ps clock k db = Inr (us, db') \<and> db_step\<^sup>*\<^sup>* db db'
    \<and> (\<forall>t \<in> set (db_tasks db). t_id t \<notin> t_id ` set ps \<longrightarrow> t \<in> set (db_tasks db'))
    \<and> (\<forall>u \<in> set (db_tasks db'). u \<in> set (db_tasks db) \<and> t_id u \<notin> t_id ` set ps
         \<or> (\<exists>p \<in> set ps. \<exists>now. u = saved_task p (recover_changes p) now))
    \<and> map t_id us = map t_id ps"
  using assms
proof (induction ps arbitrary: k db)
  case Nil
  then show ?case by auto
next
  case (Cons p ps)
  let ?u = "saved_task p (recover_changes p) (clock k)"
  have p: "p \<in> set (db_tasks db)" and st: "t_status p \<in> set pending_statuses"
    using Cons.prems by auto
  obtain db1 where save: "save_row p (recover_changes p) Ev_Recover (clock k) db = Inr (?u, db1)"
    using save_recover[OF Cons.prems(1) p st] by blast
  have step: "db_step db db1"
    using db_okD(7)[OF Cons.prems(1) p] p step_recover[OF st] save by (blast intro: db_save)
  have ok1: "db_ok db1" by (rule db_step_ok[OF Cons.prems(1) step])
  have rows: "set (db_tasks db1) = insert ?u (set (db_tasks db) - {p})"
    unfolding save_row_InrD(2)[OF save]
    by (rule update_same_row[OF db_okD(8)[OF Cons.prems(1)] p])
  have inj: "inj_on t_id (set (db_tasks db))"
    using db_okD(8)[OF Cons.prems(1)] by (simp add: distinct_map)
  have sub: "set ps \<subseteq> set (db_tasks db1)"
    using Cons.prems(2,3) by (auto simp: rows)
  obtain us db' where rec: "recover_rows ps clock (Suc k) db1 = Inr (us, db')"
    and run: "db_step\<^sup>*\<^sup>* db1 db'"
    and kept: "\<forall>t \<in> set (db_tasks db1). t_id t \<notin> t_id ` set ps \<longrightarrow> t \<in> set (db_tasks db')"
    and from_old: "\<forall>u \<in> set (db_tasks db'). u \<in> set (db_tasks db1) \<and> t_id u \<notin> t_id ` set ps
         \<or> (\<exists>p \<in> set ps. \<exists>now. u = saved_task p (recover_changes p) now)"
    and ids: "map t_id us = map t_id ps"
    using Cons.IH[OF ok1 sub, of "Suc k"] Cons.prems(3,4) by auto
  have "recover_rows (p # ps) clock k db = Inr (?u # us, db')"
    using save rec by (simp add: and_then_def)
  moreover have "db_step\<^sup>*\<^sup>* db db'" using step run by (rule converse_rtranclp_into_rtranclp)
  moreover have "\<forall>t \<in> set (db_tasks db). t_id t \<notin> t_id ` set (p # ps) \<longrightarrow> t \<in> set (db_tasks db')"
    using kept by (auto simp: rows)
  moreover have "u \<in> set (db_tasks db) \<and> t_id u \<notin> t_id ` set (p # ps)
         \<or> (\<exists>p \<in> set (p # ps). \<exists>now. u = saved_task p (recover_changes p) now)"
    if u: "u \<in> set (db_tasks db')" for u
  proof -
    from from_old u consider "u \<in> set (db_tasks db1)" "t_id u \<notin> t_id ` set ps"
      | "\<exists>p \<in> set ps. \<exists>now. u = saved_task p (recover_changes p) now" by blast
    then show ?thesis
    proof cases
      case 1
      then show ?thesis using inj p by (auto simp: rows dest: inj_onD)
    qed auto
  qed
  ultimately show ?case using ids by auto
qed

lemma store_recover_run:
  assumes "db_ok db"
  shows "\<exists>us. store_recover clock db = (Inr us, snd (store_recover clock db))
    \<and> db_step\<^sup>*\<^sup>* db (snd (store_recover clock db))"
proof (cases "db_file db \<and> db_table db")
  case True
  let ?ps = "filter (\<lambda>t. t_status t \<in> set pending_statuses) (db_tasks db)"
  have "distinct (map t_id ?ps)" using db_okD(8)[OF assms] by (simp add: distinct_map_filter)
  then show ?thesis
    using recover_rows_run[OF assms, of ?ps clock 0] True
    by (fastforce simp: store_recover_def write_txn_def)
qed (auto simp: store_recover_def write_txn_def)

section \<open>Any sequence of calls\<close>

text \<open>One constructor per public write of the store, with its arguments.\<close>

datatype store_cmd =
    Do_Initialize
  | Do_Create string string int string string string string string "string option" "string option"
      string pytime
  | Do_Transition string "string list" "int option" string string changes pytime
  | Do_Update_Fields string "string list" "int option" string string changes pytime
  | Do_Retry string "int option" string string pytime
  | Do_Cancel string "int option" string string string pytime
  | Do_Recover "nat \<Rightarrow> pytime"

fun run_cmd :: "(string \<Rightarrow> string) \<Rightarrow> store_cmd \<Rightarrow> outbox_db \<Rightarrow> outbox_db" where
  "run_cmd canon Do_Initialize db = initialize db"
| "run_cmd canon (Do_Create s d cv c l x a k r ep i now) db =
     snd (store_create canon s d cv c l x a k r ep i now db)"
| "run_cmd canon (Do_Transition i sts v s d ch now) db =
     snd (store_transition canon i sts v s d ch now db)"
| "run_cmd canon (Do_Update_Fields i sts v s d ch now) db =
     snd (store_update_fields canon i sts v s d ch now db)"
| "run_cmd canon (Do_Retry i v s d now) db = snd (store_retry canon i v s d now db)"
| "run_cmd canon (Do_Cancel i v s d r now) db = snd (store_cancel canon i v s d r now db)"
| "run_cmd canon (Do_Recover clock) db = snd (store_recover clock db)"

definition run_cmds :: "(string \<Rightarrow> string) \<Rightarrow> store_cmd list \<Rightarrow> outbox_db \<Rightarrow> outbox_db" where
  "run_cmds canon cmds db = fold (run_cmd canon) cmds db"

lemma store_create_run:
  "db_step\<^sup>*\<^sup>* db (snd (store_create canon s d cv c l x a k r ep i now db))"
proof -
  have schema: "db_step\<^sup>*\<^sup>* db (initialize db)" by (blast intro: db_schema)
  show ?thesis
  proof (cases "snd (store_create canon s d cv c l x a k r ep i now db) = db
      \<or> snd (store_create canon s d cv c l x a k r ep i now db) = initialize db")
    case True
    then show ?thesis using schema by auto
  next
    case False
    then obtain sc act t where t: "t = new_task i sc cv c l x act k r ep now"
      "constraints_ok (db_tasks (initialize db) @ [t])"
      "snd (store_create canon s d cv c l x a k r ep i now db) = (initialize db)\<lparr>
         db_tasks := db_tasks (initialize db) @ [t],
         db_events := db_events (initialize db) @ [event_row None t Ev_Create]\<rparr>"
      by (auto simp: store_create_def write_txn_def Let_def split: sum.splits option.splits if_splits)
    have "db_step (initialize db) (snd (store_create canon s d cv c l x a k r ep i now db))"
      unfolding t(3) by (rule db_insert[OF _ _ t(1,2)]) simp_all
    with schema show ?thesis by (rule rtranclp.rtrancl_into_rtrancl)
  qed
qed

lemma store_transition_run:
  "db_step\<^sup>*\<^sup>* db (snd (store_transition canon i sts v s d ch now db))"
proof (cases "store_transition canon i sts v s d ch now db")
  case (Pair r db')
  then show ?thesis
  proof (cases r)
    case (Inl e)
    then show ?thesis using Pair store_transition_Inl by fastforce
  next
    case (Inr u)
    from Pair Inr have "store_transition canon i sts v s d ch now db = (Inr u, db')" by simp
    then have "db_step db db'" by (elim store_transition_InrD) (rule saved_step)
    then show ?thesis using Pair by auto
  qed
qed

lemma store_update_fields_run:
  "db_step\<^sup>*\<^sup>* db (snd (store_update_fields canon i sts v s d ch now db))"
proof (cases "store_update_fields canon i sts v s d ch now db")
  case (Pair r db')
  then show ?thesis
  proof (cases r)
    case (Inl e)
    then show ?thesis using Pair store_update_fields_Inl by fastforce
  next
    case (Inr u)
    from Pair Inr have "store_update_fields canon i sts v s d ch now db = (Inr u, db')" by simp
    then have "db_step db db'" by (elim store_update_fields_InrD) (rule saved_step)
    then show ?thesis using Pair by auto
  qed
qed

lemma store_retry_run:
  "db_step\<^sup>*\<^sup>* db (snd (store_retry canon i v s d now db))"
proof (cases "store_retry canon i v s d now db")
  case (Pair r db')
  then show ?thesis
  proof (cases r)
    case (Inl e)
    then show ?thesis using Pair store_retry_Inl by fastforce
  next
    case (Inr u)
    from Pair Inr have "store_retry canon i v s d now db = (Inr u, db')" by simp
    then have "db_step db db'" by (elim store_retry_InrD) (rule saved_step)
    then show ?thesis using Pair by auto
  qed
qed

lemma run_cmd_steps:
  assumes "db_ok db"
  shows "db_step\<^sup>*\<^sup>* db (run_cmd canon cmd db)"
proof (cases cmd)
  case Do_Initialize
  then show ?thesis by (auto intro: db_schema)
next
  case (Do_Create s d cv c l x a k r ep i now)
  then show ?thesis by (simp add: store_create_run)
next
  case (Do_Transition i sts v s d ch now)
  then show ?thesis by (simp add: store_transition_run)
next
  case (Do_Update_Fields i sts v s d ch now)
  then show ?thesis by (simp add: store_update_fields_run)
next
  case (Do_Retry i v s d now)
  then show ?thesis by (simp add: store_retry_run)
next
  case (Do_Cancel i v s d r now)
  then show ?thesis by (simp add: store_cancel_def store_transition_run)
next
  case (Do_Recover clock)
  then show ?thesis using store_recover_run[OF assms, of clock] by auto
qed

section \<open>History\<close>

definition task_rel :: "task \<Rightarrow> task \<Rightarrow> bool" where
  "task_rel t u \<longleftrightarrow>
     same_identity t u \<and> t_version t \<le> t_version u \<and> t_attempt t \<le> t_attempt u
   \<and> (t_may_have_sent t \<longrightarrow> t_may_have_sent u \<and> t_status u \<in> set sent_statuses
        \<and> t_attempt u = t_attempt t)
   \<and> (t_status t \<in> {Observed, Filled, Cancelled} \<longrightarrow> u = t)"

definition history_rel :: "outbox_db \<Rightarrow> outbox_db \<Rightarrow> bool" where
  "history_rel db db' \<longleftrightarrow>
     (\<forall>t \<in> set (db_tasks db). \<exists>u \<in> set (db_tasks db'). task_rel t u)
   \<and> (\<exists>es. db_events db' = db_events db @ es)"

lemma task_rel_refl: "task_ok t \<Longrightarrow> task_rel t t"
  by (auto simp: task_rel_def same_identity_def task_ok_def)

lemma task_rel_trans: "task_rel t u \<Longrightarrow> task_rel u w \<Longrightarrow> task_rel t w"
  by (auto simp: task_rel_def same_identity_def)

lemma task_step_rel:
  assumes "task_step k t u" "task_ok t"
  shows "task_rel t u"
proof -
  have legal: "legal_edge k t u" and id: "same_identity t u" and ver: "t_version u = t_version t + 1"
    using assms by (auto intro: task_step_legal task_step_identity task_step_version)
  have live: "t_status t \<notin> {Observed, Filled, Cancelled}"
    using legal by (cases k; cases "t_status t") (auto simp: legal_edge_def pending_statuses_def)
  have "t_attempt t \<le> t_attempt u"
    using legal by (cases k) (auto simp: legal_edge_def)
  moreover have "t_may_have_sent u \<and> t_status u \<in> set sent_statuses \<and> t_attempt u = t_attempt t"
    if "t_may_have_sent t"
    using task_step_sent_mono[OF assms that] task_step_ok[OF assms] legal that
    by (cases k) (auto simp: legal_edge_def task_ok_def)
  ultimately show ?thesis using id ver live by (auto simp: task_rel_def)
qed

lemma history_refl: "db_ok db \<Longrightarrow> history_rel db db"
  by (auto simp: history_rel_def dest: db_okD(2) intro: task_rel_refl)

lemma history_trans: "history_rel a b \<Longrightarrow> history_rel b c \<Longrightarrow> history_rel a c"
  unfolding history_rel_def by (metis append_assoc task_rel_trans)

lemma history_save:
  assumes ok: "db_ok db" and prev: "prev \<in> set (db_tasks db)" and step: "task_step k prev cur"
    and save: "save_row prev ch k now db = Inr (cur, db')"
  shows "history_rel db db'"
proof -
  have rows: "set (db_tasks db') = insert cur (set (db_tasks db) - {prev})"
    unfolding save_row_InrD(2)[OF save] by (rule update_same_row[OF db_okD(8)[OF ok] prev])
  have "\<exists>u \<in> set (db_tasks db'). task_rel t u" if t: "t \<in> set (db_tasks db)" for t
  proof (cases "t = prev")
    case True
    then show ?thesis
      using task_step_rel[OF step db_okD(2)[OF ok prev]] by (auto simp: rows)
  next
    case False
    then show ?thesis
      using task_rel_refl[OF db_okD(2)[OF ok t]] t by (auto simp: rows)
  qed
  then show ?thesis by (auto simp: history_rel_def save_row_InrD(4)[OF save])
qed

lemma history_grow:
  assumes "db_ok db" "set (db_tasks db) \<subseteq> set (db_tasks db')" "db_events db' = db_events db @ es"
  shows "history_rel db db'"
  using assms task_rel_refl[OF db_okD(2)[OF assms(1)]] by (auto simp: history_rel_def)

lemma history_initialize: "db_ok db \<Longrightarrow> history_rel db (initialize db)"
  by (rule history_grow[where es = "[]"]) (auto simp: initialize_def Let_def db_ok_def)

lemma db_step_history:
  assumes "db_ok db" "db_step db db'"
  shows "history_rel db db'"
  using assms(2)
proof (cases rule: db_step.cases)
  case db_schema
  then show ?thesis using history_initialize[OF assms(1)] by simp
next
  case (db_insert t)
  then show ?thesis by (intro history_grow[OF assms(1)]) auto
next
  case (db_save prev kind cur ch now)
  then show ?thesis using history_save[OF assms(1)] by blast
qed

interpretation outbox: tracked_system db_step db_ok history_rel
  by unfold_locales (blast intro: db_step_ok history_refl history_trans db_step_history)+

lemma run_cmds_ok: "db_ok db \<Longrightarrow> db_ok (run_cmds canon cmds db)"
proof (induction cmds arbitrary: db)
  case (Cons cmd cmds)
  then show ?case
    using outbox.steps_inv[OF run_cmd_steps] by (simp add: run_cmds_def)
qed (simp add: run_cmds_def)

lemma run_cmds_history: "db_ok db \<Longrightarrow> history_rel db (run_cmds canon cmds db)"
proof (induction cmds arbitrary: db)
  case Nil
  then show ?case by (simp add: run_cmds_def history_refl)
next
  case (Cons cmd cmds)
  have "history_rel db (run_cmd canon cmd db)"
    using Cons.prems by (blast intro: outbox.steps_rel run_cmd_steps)
  moreover have "db_ok (run_cmd canon cmd db)"
    using Cons.prems by (blast intro: outbox.steps_inv run_cmd_steps)
  ultimately show ?case
    using Cons.IH[of "run_cmd canon cmd db"] by (auto simp: run_cmds_def intro: history_trans)
qed

lemma run_cmds_append: "run_cmds canon (xs @ ys) db = run_cmds canon ys (run_cmds canon xs db)"
  by (simp add: run_cmds_def)

abbreviation outbox_after :: "(string \<Rightarrow> string) \<Rightarrow> store_cmd list \<Rightarrow> outbox_db" where
  "outbox_after canon cmds \<equiv> run_cmds canon cmds empty_db"

lemma outbox_after_ok: "db_ok (outbox_after canon cmds)"
  by (intro run_cmds_ok db_ok_empty)

section \<open>Optimistic concurrency of the store\<close>

definition task_version :: "outbox_db \<Rightarrow> string \<Rightarrow> int option" where
  "task_version db tid = map_option t_version (find (\<lambda>t. t_id t = tid) (db_tasks db))"

lemma task_version_mem:
  assumes "distinct (map t_id (db_tasks db))" "t \<in> set (db_tasks db)"
  shows "task_version db (t_id t) = Some (t_version t)"
  using find_Some_iff_distinct[OF assms] by (simp add: task_version_def)

lemma saved_version:
  assumes ok: "db_ok db" and row: "expected_row canon db tid s d states (Some v) = Inr t"
    and step: "task_step k t u" and save: "save_row t ch k now db = Inr (u, db')" and f: "db_file db"
  shows "task_version db tid = Some v \<and> task_version db' tid = Some (v + 1) \<and> db_ok db'"
proof -
  note R = expected_rowD[OF row]
  have ok': "db_ok db'" using saved_step[OF row step save f] ok by (blast intro: db_step_ok)
  have "u \<in> set (db_tasks db')"
    unfolding save_row_InrD(2)[OF save] using update_same_row[OF db_okD(8)[OF ok] R(2)] by simp
  moreover have "t_id u = tid" "t_version u = v + 1"
    using task_step_identity[OF step] task_step_version[OF step] R(3,6) by (auto simp: same_identity_def)
  ultimately show ?thesis
    using task_version_mem[OF db_okD(8)[OF ok] R(2)] task_version_mem[OF db_okD(8)[OF ok']] R(3,6) ok'
    by auto
qed

definition cas_transition ::
  "(string \<Rightarrow> string) \<Rightarrow> string \<Rightarrow> int \<Rightarrow> string list \<times> string \<times> string \<times> changes \<times> pytime
     \<Rightarrow> outbox_db \<Rightarrow> task result \<times> outbox_db" where
  "cas_transition canon tid v = (\<lambda>(states, s, d, ch, now). store_transition canon tid states (Some v) s d ch now)"

definition cas_retry ::
  "(string \<Rightarrow> string) \<Rightarrow> string \<Rightarrow> int \<Rightarrow> string \<times> string \<times> pytime
     \<Rightarrow> outbox_db \<Rightarrow> task result \<times> outbox_db" where
  "cas_retry canon tid v = (\<lambda>(s, d, now). store_retry canon tid (Some v) s d now)"

interpretation outbox_cas: versioned_store db_ok task_version "cas_transition canon" for canon
proof unfold_locales
  fix k v c s r s'
  assume "db_ok s" and "cas_transition canon k v c s = (Inr r, s')"
  moreover obtain states sl d ch now where "c = (states, sl, d, ch, now)" by (cases c) blast
  ultimately show "task_version s k = Some v \<and> task_version s' k = Some (v + 1) \<and> db_ok s'"
    by (auto simp: cas_transition_def elim!: store_transition_InrD dest: saved_version)
qed (auto simp: cas_transition_def dest: store_transition_Inl)

interpretation outbox_retry_cas: versioned_store db_ok task_version "cas_retry canon" for canon
proof unfold_locales
  fix k v c s r s'
  assume "db_ok s" and "cas_retry canon k v c s = (Inr r, s')"
  moreover obtain sl d now where "c = (sl, d, now)" by (cases c) blast
  ultimately show "task_version s k = Some v \<and> task_version s' k = Some (v + 1) \<and> db_ok s'"
    by (auto simp: cas_retry_def elim!: store_retry_InrD dest: saved_version)
qed (auto simp: cas_retry_def dest: store_retry_Inl)

lemma initialize_idem: "initialize (initialize db) = initialize db"
  by (auto simp: initialize_def Let_def full_columns_def legacy_columns_def
      intro!: filter_True filter_cong)

lemma initialize_stable: "initialize db = db \<Longrightarrow>
   initialize (db\<lparr>db_tasks := ts, db_events := es\<rparr>) = db\<lparr>db_tasks := ts, db_events := es\<rparr>"
  by (cases db) (auto simp: initialize_def Let_def split: if_splits)

lemma find_append_new: "find P xs = None \<Longrightarrow> P y \<Longrightarrow> find P (xs @ [y]) = Some y"
  by (induction xs) (auto split: if_splits)

text \<open>After a successful create the task is the first of its scope with its key.\<close>

lemma create_stored:
  assumes "store_create canon s d cv c l x a k r ep i now db = (Inr (t, new), db1)"
  shows "\<exists>sc act. scope_of canon s d = Inr sc \<and> action_of_name a = Some act \<and> \<not> cv < 1
    \<and> \<not> (py_blank c \<or> py_blank l \<or> py_blank x \<or> py_blank k)
    \<and> find (\<lambda>t. in_scope sc t \<and> t_key t = k) (db_tasks db1) = Some t
    \<and> same_payload t cv c l x act \<and> initialize db1 = db1"
proof -
  obtain sc act where args: "scope_of canon s d = Inr sc" "action_of_name a = Some act" "\<not> cv < 1"
      "\<not> (py_blank c \<or> py_blank l \<or> py_blank x \<or> py_blank k)"
    using assms by (auto simp: store_create_def split: sum.splits option.splits if_splits)
  show ?thesis
  proof (cases "find (\<lambda>t. in_scope sc t \<and> t_key t = k) (db_tasks (initialize db))")
    case None
    have "in_scope sc (new_task i sc cv c l x act k r ep now)"
      "t_key (new_task i sc cv c l x act k r ep now) = k"
      "same_payload (new_task i sc cv c l x act k r ep now) cv c l x act"
      by (simp_all add: new_task_def in_scope_def same_payload_def)
    moreover have "t = new_task i sc cv c l x act k r ep now"
      "db1 = (initialize db)\<lparr>db_tasks := db_tasks (initialize db) @ [t],
         db_events := db_events (initialize db) @ [event_row None t Ev_Create]\<rparr>"
      using assms args None by (auto simp: store_create_def write_txn_def Let_def split: if_splits)
    ultimately show ?thesis
      using args find_append_new[OF None] initialize_stable[OF initialize_idem] by auto
  next
    case (Some u)
    then have "u = t" "db1 = initialize db" "same_payload t cv c l x act"
      using assms args by (auto simp: store_create_def write_txn_def split: if_splits)
    with Some args show ?thesis by (auto simp: initialize_idem)
  qed
qed

lemma recover_outcome_unfold:
  "fst (recover_outcome t) =
     (if t_status t = Awaiting_Confirmation then Failed
      else if t_may_have_sent t \<or> t_status t \<in> {Navigating, Running, Verifying} then Unknown else Failed)"
  by (simp add: recover_outcome_def is_recovery_uncertain_def executing_statuses_def
      gui_risk_statuses_def Let_def)

lemma saved_cancel:
  "saved_task t [(C_status, PStr ''cancelled''), (C_reason, PStr reason)] now =
     t\<lparr>t_status := Cancelled, t_reason := Some reason, t_version := t_version t + 1, t_updated_at := now\<rparr>"
  by (cases "t_screenshot_at t") (simp_all add: saved_task_def of_view_def)

lemma task_ok_unsent: "task_ok t \<Longrightarrow> t_status t \<notin> set sent_statuses \<Longrightarrow> \<not> t_may_have_sent t"
  unfolding task_ok_def by blast

lemma task_ok_unclaimed: "task_ok t \<Longrightarrow> t_status t \<noteq> Observed \<Longrightarrow> t_matched t = None"
  unfolding task_ok_def by blast

lemma validate_cancel:
  assumes "task_ok t" "t_status t \<in> {Queued, Awaiting_Confirmation, Queued_Send}" "reason \<noteq> []"
  shows "validate_values t (merged t [(C_status, PStr ''cancelled''), (C_reason, PStr reason)]) = Inr ()"
proof -
  have unsent: "\<not> t_may_have_sent t" "t_matched t = None"
    using task_ok_unsent[OF assms(1)] task_ok_unclaimed[OF assms(1)] assms(2)
    by (auto simp: sent_statuses_def)
  moreover have "opt_str (t_screenshot_id t) = PNone
      \<longleftrightarrow> (case t_screenshot_at t of None \<Rightarrow> PNone | Some q \<Rightarrow> PFloat (FFin q)) = PNone"
    using assms(1) by (auto simp: task_ok_def opt_str_def split: option.splits)
  ultimately show ?thesis
    using assms(1,3) by (simp add: validate_values_def Let_def task_ok_def values_ok_def)
      (simp add: check_str_def opt_str_def)
qed

section \<open>Properties\<close>

text \<open>A run used by the witnesses: one send up to the durable mark, and a second task.\<close>

definition demo_shot :: changes where
  "demo_shot = [(C_screenshot_id, PStr ''shot''), (C_screenshot_at, PInt 12),
     (C_screenshot_digest, PStr ''d1'')]"

definition demo_move :: "int \<Rightarrow> string \<Rightarrow> string \<Rightarrow> changes \<Rightarrow> store_cmd" where
  "demo_move v from_st to_st ch =
     Do_Transition ''t1'' [from_st] (Some v) ''s'' ''d'' ((C_status, PStr to_st) # ch) 20"

definition demo_create :: store_cmd where
  "demo_create = Do_Create ''s'' ''d'' 7 ''c1'' ''l1'' ''hello'' ''send'' ''k1'' None None ''t1'' 10"

definition demo_confirmed :: "store_cmd list" where
  "demo_confirmed = [demo_create,
     demo_move 1 ''queued'' ''navigating'' [],
     demo_move 2 ''navigating'' ''awaiting_confirmation'' demo_shot,
     demo_move 3 ''awaiting_confirmation'' ''queued_send'' []]"

definition demo_sent :: "store_cmd list" where
  "demo_sent = demo_confirmed @
    [demo_move 4 ''queued_send'' ''running'' [],
     Do_Update_Fields ''t1'' [''running''] (Some 5) ''s'' ''d'' [(C_may_have_sent, PBool True)] 21]"

text \<open>
  C1: Whatever sequence of calls the outbox store receives, valid or not, the database keeps its
  constraints (unique identifiers, idempotency keys and message claims), every task keeps the facts
  its checks promise (a possible send is a send past the confirmation, an observed task has
  evidence, a confirmation state has a screenshot), and the audit trail has an event of every task, at most one event
  per task and version, only legal edges, and its newest event of a task has the task's present status and attempt. The other columns of
  a row may be newer than its last event, because field updates write no event.
\<close>

theorem outbox_store_invariant: "db_ok (outbox_after canon cmds)"
  by (rule outbox_after_ok)

text \<open>
  C2: A task once marked as possibly sent stays so for ever: whatever is called later, the row is
  still there with the same recipient and text, still marked, in the same attempt, and only in a status after the
  send. So it is never queued, navigated, confirmed or retried again.
\<close>

theorem possible_send_never_replayed:
  assumes "t \<in> set (db_tasks (outbox_after canon cmds))" and "t_may_have_sent t"
  shows "\<exists>u \<in> set (db_tasks (outbox_after canon (cmds @ later))). same_identity t u
    \<and> t_may_have_sent u \<and> t_attempt u = t_attempt t
    \<and> t_status u \<in> {Running, Verifying, Observed, Failed, Unknown}"
proof -
  have "history_rel (outbox_after canon cmds) (outbox_after canon (cmds @ later))"
    unfolding run_cmds_append by (rule run_cmds_history[OF outbox_after_ok])
  then obtain u where "u \<in> set (db_tasks (outbox_after canon (cmds @ later)))" "task_rel t u"
    using assms(1) by (auto simp: history_rel_def)
  then show ?thesis using assms(2) by (auto simp: task_rel_def sent_statuses_def)
qed

lemma demo_sent_marked:
  "hd (db_tasks (outbox_after id demo_sent)) \<in> set (db_tasks (outbox_after id demo_sent))
   \<and> t_may_have_sent (hd (db_tasks (outbox_after id demo_sent)))"
  by code_simp

theorem possible_send_never_replayed_witness:
  "\<exists>u \<in> set (db_tasks (outbox_after id (demo_sent @ [Do_Recover (\<lambda>_. 30), Do_Retry ''t1'' None ''s'' ''d'' 31]))).
     t_may_have_sent u \<and> t_status u \<in> {Running, Verifying, Observed, Failed, Unknown}"
  using possible_send_never_replayed[OF conjunct1[OF demo_sent_marked] conjunct2[OF demo_sent_marked]]
  by blast

text \<open>
  C3: Observed, filled and cancelled are final: no later call changes such a row in any field.
\<close>

theorem final_tasks_never_change:
  assumes "t \<in> set (db_tasks (outbox_after canon cmds))"
    and "t_status t \<in> {Observed, Filled, Cancelled}"
  shows "t \<in> set (db_tasks (outbox_after canon (cmds @ later)))"
proof -
  have "history_rel (outbox_after canon cmds) (outbox_after canon (cmds @ later))"
    unfolding run_cmds_append by (rule run_cmds_history[OF outbox_after_ok])
  then show ?thesis using assms by (auto simp: history_rel_def task_rel_def)
qed

lemma demo_cancelled:
  "hd (db_tasks (outbox_after id [demo_create, Do_Cancel ''t1'' None ''s'' ''d'' ''r'' 11]))
     \<in> set (db_tasks (outbox_after id [demo_create, Do_Cancel ''t1'' None ''s'' ''d'' ''r'' 11]))
   \<and> t_status (hd (db_tasks (outbox_after id [demo_create, Do_Cancel ''t1'' None ''s'' ''d'' ''r'' 11])))
     \<in> {Observed, Filled, Cancelled}"
  by code_simp

theorem final_tasks_never_change_witness:
  "hd (db_tasks (outbox_after id [demo_create, Do_Cancel ''t1'' None ''s'' ''d'' ''r'' 11]))
     \<in> set (db_tasks (outbox_after id ([demo_create, Do_Cancel ''t1'' None ''s'' ''d'' ''r'' 11]
          @ [Do_Retry ''t1'' None ''s'' ''d'' 12, Do_Recover (\<lambda>_. 13)])))"
  using final_tasks_never_change[OF conjunct1[OF demo_cancelled] conjunct2[OF demo_cancelled]] .

text \<open>
  C4: A local message is evidence for at most one task: two observed tasks of one seller and directory never
  claim the same message, after any sequence of calls.
\<close>

theorem message_claims_unique:
  assumes "t \<in> set (db_tasks (outbox_after canon cmds))" "u \<in> set (db_tasks (outbox_after canon cmds))"
    and "t_seller t = t_seller u" "t_data_dir t = t_data_dir u"
    and "t_matched t = Some m" "t_matched u = Some m"
  shows "t = u"
proof -
  have "distinct (List.map_filter claim_of (db_tasks (outbox_after canon cmds)))"
    using db_okD(1)[OF outbox_after_ok] by (simp add: constraints_ok_def)
  then show ?thesis
    by (rule distinct_map_filterD[OF _ assms(1,2), of claim_of "(t_seller t, t_data_dir t, m)"])
      (use assms in \<open>simp_all add: claim_of_def\<close>)
qed

definition demo_observed :: "store_cmd list" where
  "demo_observed = demo_sent @
    [demo_move 6 ''running'' ''verifying'' [],
     demo_move 7 ''verifying'' ''observed''
       [(C_matched, PStr ''m1''), (C_evidence, PDict [(''kind'', PStr ''local'')])]]"

lemma demo_observed_claim:
  "t_matched (hd (db_tasks (outbox_after id demo_observed))) = Some ''m1''
   \<and> hd (db_tasks (outbox_after id demo_observed)) \<in> set (db_tasks (outbox_after id demo_observed))"
  by code_simp

theorem message_claims_unique_witness:
  "{u \<in> set (db_tasks (outbox_after id demo_observed)).
      t_seller u = t_seller (hd (db_tasks (outbox_after id demo_observed)))
      \<and> t_data_dir u = t_data_dir (hd (db_tasks (outbox_after id demo_observed)))
      \<and> t_matched u = Some ''m1''}
    = {hd (db_tasks (outbox_after id demo_observed))}"
  using message_claims_unique[OF _ conjunct2[OF demo_observed_claim] _ _ _ conjunct1[OF demo_observed_claim]]
    demo_observed_claim by blast

text \<open>Creating with an idempotency key that was used is safe: the same payload returns the stored task, marked as
  not created, and changes nothing; a different text is refused, and changes nothing.
\<close>

theorem create_idempotent:
  assumes "store_create canon s d cv c l x a k r ep i now db = (Inr (t, new), db1)"
    and "\<not> py_blank x'" "x' \<noteq> x"
  shows "store_create canon s d cv c l x a k r' ep' i' now' db1 = (Inr (t, False), db1)
    \<and> store_create canon s d cv c l x' a k r' ep' i' now' db1
        = (Inl (Outbox_Conflict ''Idempotency key already belongs to a different payload''), db1)"
proof -
  obtain sc act where args: "scope_of canon s d = Inr sc" "action_of_name a = Some act" "\<not> cv < 1"
      "\<not> (py_blank c \<or> py_blank l \<or> py_blank x \<or> py_blank k)"
    and found: "find (\<lambda>t. in_scope sc t \<and> t_key t = k) (db_tasks db1) = Some t"
    and payload: "same_payload t cv c l x act" and schema: "initialize db1 = db1"
    using create_stored[OF assms(1)] by blast
  note ex = initialize_exists[of db1, unfolded schema]
  show ?thesis
    using args found payload assms(2,3)
    by (auto simp: store_create_def schema write_txn_def ex same_payload_def)
qed

lemma demo_create_result:
  "store_create id ''s'' ''d'' 7 ''c1'' ''l1'' ''hello'' ''send'' ''k1'' None None ''t1'' 10 empty_db
   = (Inr (hd (db_tasks (outbox_after id [demo_create])), True), outbox_after id [demo_create])"
  by code_simp

theorem create_idempotent_witness:
  "store_create id ''s'' ''d'' 7 ''c1'' ''l1'' ''hello'' ''send'' ''k1'' None None ''t2'' 11
     (outbox_after id [demo_create])
   = (Inr (hd (db_tasks (outbox_after id [demo_create])), False), outbox_after id [demo_create])"
proof -
  have "\<not> py_blank ''bye''" by code_simp
  then show ?thesis
    using create_idempotent[OF demo_create_result, of "''bye''"] by simp
qed

text \<open>Recovery at startup always succeeds on a database the store has written. Afterwards no task
  is pending, tasks that were not pending are untouched, and a task that may have been sent, or was navigating,
  running or verifying, is unknown (so it cannot be retried); the others are failed.
\<close>

theorem recovery_settles_every_task:
  assumes "db_ok db"
  shows "\<exists>us db'. store_recover clock db = (Inr us, db') \<and> db_ok db'
    \<and> (\<forall>u \<in> set (db_tasks db'). t_status u \<notin> set pending_statuses)
    \<and> (\<forall>t \<in> set (db_tasks db). \<exists>u \<in> set (db_tasks db'). same_identity t u
        \<and> (if t_status t \<notin> set pending_statuses then u = t
           else t_status u = (if t_may_have_sent t \<or> t_status t \<in> {Navigating, Running, Verifying}
                              then Unknown else Failed)))"
proof (cases "db_file db \<and> db_table db")
  case False
  then have none: "db_tasks db = []" using assms by (auto simp: db_ok_def)
  then show ?thesis using False assms by (auto simp: store_recover_def write_txn_def)
next
  case True
  let ?ps = "filter (\<lambda>t. t_status t \<in> set pending_statuses) (db_tasks db)"
  have dist: "distinct (map t_id ?ps)" using db_okD(8)[OF assms] by (simp add: distinct_map_filter)
  have sub: "set ?ps \<subseteq> set (db_tasks db)" by auto
  have pend: "\<forall>p \<in> set ?ps. t_status p \<in> set pending_statuses" by simp
  obtain us db' where run: "recover_rows ?ps clock 0 db = Inr (us, db')" "db_step\<^sup>*\<^sup>* db db'"
    and kept: "\<forall>t \<in> set (db_tasks db). t_id t \<notin> t_id ` set ?ps \<longrightarrow> t \<in> set (db_tasks db')"
    and old: "\<forall>u \<in> set (db_tasks db'). u \<in> set (db_tasks db) \<and> t_id u \<notin> t_id ` set ?ps
         \<or> (\<exists>p \<in> set ?ps. \<exists>now. u = saved_task p (recover_changes p) now)"
    and ids: "map t_id us = map t_id ?ps"
    using recover_rows_run[OF assms sub dist pend, of clock 0] by (elim exE conjE) (rule that)
  have inj: "inj_on t_id (set (db_tasks db))" using db_okD(8)[OF assms] by (simp add: distinct_map)
  have after: "t_status (saved_task p (recover_changes p) now) \<notin> set pending_statuses" for p now
    using recover_outcome_status[of p] by (auto simp: recover_fields pending_statuses_def)
  have settled: "t_status u \<notin> set pending_statuses" if u: "u \<in> set (db_tasks db')" for u
  proof -
    from old u consider "u \<in> set (db_tasks db)" "t_id u \<notin> t_id ` set ?ps"
      | p now where "u = saved_task p (recover_changes p) now" by blast
    then show ?thesis
    proof cases
      case 1
      then show ?thesis by (metis (mono_tags, lifting) image_eqI mem_Collect_eq set_filter)
    qed (simp add: after)
  qed
  have ok': "db_ok db'" using run(2) assms by (rule outbox.steps_inv)
  have hist: "history_rel db db'" using run(2) assms by (rule outbox.steps_rel)
  have "\<exists>u \<in> set (db_tasks db'). same_identity t u
        \<and> (if t_status t \<notin> set pending_statuses then u = t
           else t_status u = (if t_may_have_sent t \<or> t_status t \<in> {Navigating, Running, Verifying}
                              then Unknown else Failed))"
    if t: "t \<in> set (db_tasks db)" for t
  proof (cases "t_status t \<in> set pending_statuses")
    case False
    then have "t_id t \<notin> t_id ` set ?ps" using inj t by (auto dest: inj_onD)
    then show ?thesis using False kept t by (auto simp: same_identity_def)
  next
    case pending: True
    obtain u where u: "u \<in> set (db_tasks db')" "same_identity t u"
      using hist t by (auto simp: history_rel_def task_rel_def)
    have "t_id u \<in> t_id ` set ?ps" using u(2) pending t by (auto simp: same_identity_def)
    then obtain p now where p: "p \<in> set ?ps" "u = saved_task p (recover_changes p) now"
      using old u(1) by blast
    then have "p = t" using u(2) inj t by (auto simp: same_identity_def dest: inj_onD)
    then show ?thesis
      using u p pending task_ok_unsent[OF db_okD(2)[OF assms t]]
      by (intro bexI[of _ u]) (auto simp: recover_fields recover_outcome_unfold sent_statuses_def)
  qed
  then show ?thesis
    using True run settled ok' by (auto simp: store_recover_def write_txn_def)
qed

theorem recovery_settles_every_task_witness:
  "\<exists>us db'. store_recover (\<lambda>_. 30) (outbox_after id demo_sent) = (Inr us, db')
     \<and> (\<exists>u \<in> set (db_tasks db'). t_status u = Unknown \<and> t_id u = ''t1'')"
proof -
  have facts: "hd (db_tasks (outbox_after id demo_sent)) \<in> set (db_tasks (outbox_after id demo_sent))
      \<and> t_status (hd (db_tasks (outbox_after id demo_sent))) = Running
      \<and> t_id (hd (db_tasks (outbox_after id demo_sent))) = ''t1''"
    by code_simp
  show ?thesis
    using recovery_settles_every_task[OF outbox_after_ok[of id demo_sent], of "\<lambda>_. 30"] facts
    by (fastforce simp: same_identity_def pending_statuses_def)
qed

text \<open>Of two callers that read the same version of a task, at most one changes its status: after
  a successful transition, any transition or the same caller's retry of it with that version fails and changes nothing.
\<close>

theorem stale_transition_refused:
  assumes "db_ok db" and "store_transition canon tid states (Some v) s d ch now db = (Inr u, db1)"
  shows "\<exists>e. store_transition canon tid states' (Some v) s' d' ch' now' db1 = (Inl e, db1)"
  using outbox_cas.no_lost_update[of db canon tid v "(states, s, d, ch, now)" u db1
      "(states', s', d', ch', now')"] assms
  by (simp add: cas_transition_def)

lemma demo_move_result:
  "store_transition id ''t1'' [''queued''] (Some 1) ''s'' ''d'' [(C_status, PStr ''navigating'')] 20
     (outbox_after id [demo_create])
   = (Inr (hd (db_tasks (outbox_after id [demo_create, demo_move 1 ''queued'' ''navigating'' []]))),
      outbox_after id [demo_create, demo_move 1 ''queued'' ''navigating'' []])"
  by code_simp

theorem stale_transition_refused_witness:
  "\<exists>e. store_transition id ''t1'' [''queued''] (Some 1) ''s'' ''d''
      [(C_status, PStr ''cancelled'')] 21 (outbox_after id [demo_create, demo_move 1 ''queued'' ''navigating'' []])
    = (Inl e, outbox_after id [demo_create, demo_move 1 ''queued'' ''navigating'' []])"
  by (rule stale_transition_refused[OF outbox_after_ok demo_move_result])

text \<open>
  Cancelling a stored task with its current version succeeds exactly when the task is queued,
  awaiting confirmation or queued for sending; the result is cancelled, carries the reason and is still
  unsent. In every other status the call fails and changes nothing.
\<close>

theorem cancel_only_before_execution:
  assumes ok: "db_ok db" and t: "t \<in> set (db_tasks db)"
    and scope: "\<not> py_blank (t_seller t)" "\<not> py_blank dir" "canon dir = t_data_dir t"
    and reason: "reason \<noteq> []"
  shows "store_cancel canon (t_id t) (Some (t_version t)) (t_seller t) dir reason now db =
      (let u = t\<lparr>t_status := Cancelled, t_reason := Some reason, t_version := t_version t + 1,
                t_updated_at := now\<rparr>
       in if t_status t \<in> {Queued, Awaiting_Confirmation, Queued_Send}
          then (Inr u, db\<lparr>db_tasks := update_rows (same_row t) (\<lambda>_. u) (db_tasks db),
                 db_events := db_events db @ [event_row (Some t) u Ev_Transition]\<rparr>)
          else (Inl (Outbox_Conflict ''Outbox status or version changed''), db))"
proof -
  let ?ch = "[(C_status, PStr ''cancelled''), (C_reason, PStr reason)]"
  let ?names = "[''queued'', ''awaiting_confirmation'', ''queued_send'']"
  have ids: "distinct (map t_id (db_tasks db))" by (rule db_okD(8)[OF ok])
  have t_ok: "task_ok t" by (rule db_okD(2)[OF ok t])
  have ex: "db_file db" "db_table db" using db_okD(7)[OF ok t] by auto
  have found: "find (\<lambda>x. t_id x = t_id t \<and> in_scope (t_seller t, t_data_dir t) x) (db_tasks db) = Some t"
    by (rule find_Some_unique) (use ids t in \<open>auto simp: in_scope_def distinct_map dest: inj_onD\<close>)
  have names: "states_of ?names = Inr [Queued, Awaiting_Confirmation, Queued_Send]"
    by (simp add: states_of_def List.map_filter_simps)
  have sc: "scope_of canon (t_seller t) dir = Inr (t_seller t, t_data_dir t)"
    using scope by (simp add: scope_of_def)
  have row: "expected_row canon db (t_id t) (t_seller t) dir ?names (Some (t_version t)) =
      (if t_status t \<in> {Queued, Awaiting_Confirmation, Queued_Send} then Inr t
       else Inl (Outbox_Conflict ''Outbox status or version changed''))"
    using task_ok_pos[OF t_ok] by (simp add: expected_row_def names sc ex found)
  show ?thesis
  proof (cases "t_status t \<in> {Queued, Awaiting_Confirmation, Queued_Send}")
    case False
    then show ?thesis by (simp add: store_cancel_def store_transition_def write_txn_def row ex)
  next
    case True
    let ?u = "t\<lparr>t_status := Cancelled, t_reason := Some reason, t_version := t_version t + 1,
                t_updated_at := now\<rparr>"
    have u: "saved_task t ?ch now = ?u"
      by (rule saved_cancel)
    have "validate_transition t (PStr ''cancelled'') = Inr ()"
      using True by (auto simp: validate_transition_def)
    moreover have "validate_editable t ?ch True = Inr ()"
      by (simp add: validate_editable_def editable_columns_def)
    moreover have "validate_values t (merged t ?ch) = Inr ()"
      by (rule validate_cancel[OF t_ok _ reason]) (use True in auto)
    moreover have "constraints_ok (update_rows (same_row t) (\<lambda>_. ?u) (db_tasks db))"
      using task_ok_pos[OF t_ok] by (intro constraints_replace[OF db_okD(1)[OF ok] _ _ _ _ _ _ _ t])
        (simp_all add: claim_of_def)
    ultimately show ?thesis
      using True one_same_row[OF ids t]
      by (simp add: store_cancel_def store_transition_def write_txn_def row ex save_row_def u Let_def
          del: merged_simps)
  qed
qed

theorem cancel_only_before_execution_witness:
  "fst (store_cancel id ''t1'' (Some 1) ''s'' ''d'' ''why'' 11 (outbox_after id [demo_create]))
    = Inr ((hd (db_tasks (outbox_after id [demo_create])))\<lparr>t_status := Cancelled,
        t_reason := Some ''why'', t_version := 2, t_updated_at := 11\<rparr>)"
proof -
  let ?t = "hd (db_tasks (outbox_after id [demo_create]))"
  have facts: "?t \<in> set (db_tasks (outbox_after id [demo_create])) \<and> \<not> py_blank ''s''
     \<and> \<not> py_blank ''d'' \<and> t_data_dir ?t = ''d'' \<and> t_id ?t = ''t1'' \<and> t_version ?t = 1
     \<and> t_seller ?t = ''s'' \<and> t_status ?t = Queued"
    by code_simp
  have "store_cancel id (t_id ?t) (Some (t_version ?t)) (t_seller ?t) ''d'' ''why'' 11
      (outbox_after id [demo_create]) =
      (let u = ?t\<lparr>t_status := Cancelled, t_reason := Some ''why'', t_version := t_version ?t + 1,
                t_updated_at := 11\<rparr>
       in if t_status ?t \<in> {Queued, Awaiting_Confirmation, Queued_Send}
          then (Inr u, (outbox_after id [demo_create])\<lparr>
                 db_tasks := update_rows (same_row ?t) (\<lambda>_. u) (db_tasks (outbox_after id [demo_create])),
                 db_events := db_events (outbox_after id [demo_create])
                   @ [event_row (Some ?t) u Ev_Transition]\<rparr>)
          else (Inl (Outbox_Conflict ''Outbox status or version changed''), outbox_after id [demo_create]))"
    by (rule cancel_only_before_execution[OF outbox_after_ok]) (simp_all add: facts)
  then show ?thesis by (simp add: facts Let_def)
qed

end
