(* ===== verification/Identities.thy ===== *)
theory Identities
  imports Py_Prelude
begin

text \<open>
  The identity and key conventions of \<^verbatim>\<open>shared/crm/identities.py\<close>: account ids with and without the
  platform suffix, sender ids, session keys and message ids. The regular expression
  \<^verbatim>\<open>@icbu(?:_[0-9]+)?$\<close> is the function \<open>profile_match\<close>: the text before the match and the
  text after it (empty, or the final newline that Python's \<^verbatim>\<open>$\<close> may leave).
\<close>

definition platform_pid :: string where
  "platform_pid = ''alibaba_icbu''"

definition icbu_suffix :: string where
  "icbu_suffix = ''@icbu''"

definition ascii_digit :: "char \<Rightarrow> bool" where
  "ascii_digit c = (let n = (of_char c :: nat) in 48 \<le> n \<and> n \<le> 57)"

definition newline :: char where
  "newline = CHR 0x0A"

text \<open>The suffix with its optional instance number, at the very end of a string.\<close>

definition profile_prefix :: "string \<Rightarrow> string option" where
  "profile_prefix s =
     (let digits = takeWhile ascii_digit (rev s); rest = dropWhile ascii_digit (rev s)
      in case rest of
           c # cs \<Rightarrow>
             if digits \<noteq> [] \<and> c = CHR ''_'' \<and> has_suffix icbu_suffix (rev cs)
             then Some (take (length (rev cs) - length icbu_suffix) (rev cs))
             else if has_suffix icbu_suffix s
             then Some (take (length s - length icbu_suffix) s)
             else None
         | [] \<Rightarrow> None)"

definition profile_match :: "string \<Rightarrow> (string \<times> string) option" where
  "profile_match s =
     (if s \<noteq> [] \<and> last s = newline
      then map_option (\<lambda>p. (p, [newline])) (profile_prefix (butlast s))
      else map_option (\<lambda>p. (p, [])) (profile_prefix s))"

definition self_sender_id :: "string \<Rightarrow> string" where
  "self_sender_id ali_id = ali_id @ icbu_suffix"

definition strip_icbu_suffix :: "string option \<Rightarrow> string" where
  "strip_icbu_suffix sender =
     (case sender of None \<Rightarrow> [] | Some s \<Rightarrow> if s = [] then [] else remove_suffix icbu_suffix s)"

definition canonical_ali_id :: "string option \<Rightarrow> string" where
  "canonical_ali_id v =
     (case v of
        None \<Rightarrow> []
      | Some s \<Rightarrow> if s = [] then []
          else case profile_match s of None \<Rightarrow> s | Some (p, r) \<Rightarrow> p @ r)"

definition canonical_sender_id :: "string option \<Rightarrow> string" where
  "canonical_sender_id v =
     (case v of
        None \<Rightarrow> []
      | Some s \<Rightarrow> if s = [] then []
          else case profile_match s of None \<Rightarrow> s | Some (p, r) \<Rightarrow> p @ icbu_suffix @ r)"

definition sender_matches :: "string option \<Rightarrow> string option \<Rightarrow> bool" where
  "sender_matches sender ali_id =
     (let account = canonical_ali_id ali_id
      in account \<noteq> [] \<and> canonical_sender_id sender = self_sender_id account)"

definition session_key_prefix :: "string \<Rightarrow> string" where
  "session_key_prefix self = platform_pid @ '':'' @ self @ '':''"

definition session_key :: "string \<Rightarrow> string \<Rightarrow> string" where
  "session_key self contact = platform_pid @ '':'' @ self @ '':'' @ contact"

definition message_external_id :: "string \<Rightarrow> string \<Rightarrow> string \<Rightarrow> string result" where
  "message_external_id self table mid =
     (if self = [] \<or> CHR '':'' \<in> set self \<or> table = [] \<or> CHR '':'' \<in> set table \<or> mid = []
      then Inl (Value_Error ''Message identity requires a seller, source table and message ID'')
      else Inr (platform_pid @ '':'' @ self @ '':'' @ table @ '':'' @ mid))"

section \<open>Account ids\<close>

text \<open>An account id as the platform writes it: digits and letters only, so no suffix and no newline.\<close>

definition plain_id :: "string \<Rightarrow> bool" where
  "plain_id s \<longleftrightarrow> s \<noteq> [] \<and> CHR ''@'' \<notin> set s \<and> newline \<notin> set s"

lemma rev_suffix: "rev (s @ icbu_suffix) = CHR ''u'' # CHR ''b'' # CHR ''c'' # CHR ''i'' # CHR ''@'' # rev s"
  by (simp add: icbu_suffix_def)

lemma not_digit_chars [simp]: "\<not> ascii_digit CHR ''u''" "\<not> ascii_digit CHR ''_''"
  by (simp_all add: ascii_digit_def)

lemma profile_prefix_suffix [simp]: "profile_prefix (s @ icbu_suffix) = Some s"
proof -
  have "takeWhile ascii_digit (rev (s @ icbu_suffix)) = []"
    "dropWhile ascii_digit (rev (s @ icbu_suffix)) = rev (s @ icbu_suffix)"
    by (simp_all only: rev_suffix takeWhile.simps dropWhile.simps not_digit_chars if_False)
  then show ?thesis
    unfolding profile_prefix_def Let_def by (simp add: rev_suffix del: rev_append)
qed

lemma profile_prefix_instance [simp]:
  assumes "ds \<noteq> []" "\<forall>d \<in> set ds. ascii_digit d"
  shows "profile_prefix (s @ icbu_suffix @ CHR ''_'' # ds) = Some s"
proof -
  let ?w = "s @ icbu_suffix @ CHR ''_'' # ds"
  have rev: "rev ?w = rev ds @ CHR ''_'' # rev (s @ icbu_suffix)" by simp
  have t: "takeWhile ascii_digit (rev ?w) = rev ds"
    unfolding rev using assms(2) by (subst takeWhile_append2) auto
  have d: "dropWhile ascii_digit (rev ?w) = CHR ''_'' # rev (s @ icbu_suffix)"
    unfolding rev using assms(2) by (subst dropWhile_append2) auto
  show ?thesis
    unfolding profile_prefix_def Let_def t d using assms(1) by (simp del: rev_append)
qed

lemma profile_prefix_None:
  assumes "CHR ''@'' \<notin> set s"
  shows "profile_prefix s = None"
proof -
  have no: "\<not> has_suffix icbu_suffix x" if "set x \<subseteq> set s" for x
    using that assms by (auto simp: has_suffix_iff icbu_suffix_def)
  have "set (rev cs) \<subseteq> set s" if "dropWhile ascii_digit (rev s) = c # cs" for c cs
    using that set_dropWhileD[of _ ascii_digit "rev s"] by fastforce
  then show ?thesis
    unfolding profile_prefix_def Let_def using no by (auto split: list.split)
qed

lemma plain_not_newline: "plain_id s \<Longrightarrow> last (s @ x) = newline \<longleftrightarrow> x \<noteq> [] \<and> last x = newline"
  by (cases "x = []") (auto simp: plain_id_def dest: last_in_set)

lemma profile_match_plain: "plain_id s \<Longrightarrow> profile_match s = None"
  using plain_not_newline[of s "[]"] by (auto simp: profile_match_def plain_id_def profile_prefix_None)

lemma profile_match_sender:
  assumes "profile_prefix x = Some s" "x \<noteq> []" "last x \<noteq> newline"
  shows "profile_match x = Some (s, [])"
  using assms by (simp add: profile_match_def)

lemma canonical_plain [simp]: "plain_id s \<Longrightarrow> canonical_ali_id (Some s) = s"
  by (simp add: canonical_ali_id_def profile_match_plain plain_id_def)

lemma last_icbu: "last (s @ icbu_suffix) \<noteq> newline" "s @ icbu_suffix \<noteq> []"
  by (simp_all add: icbu_suffix_def newline_def)

lemma digit_not_newline: "ascii_digit d \<Longrightarrow> d \<noteq> newline"
  by (auto simp: ascii_digit_def newline_def Let_def)

lemma sender_matches_canonical: "plain_id a \<Longrightarrow> sender_matches (Some (a @ icbu_suffix)) (Some a)"
  using last_icbu[of a]
  by (simp add: sender_matches_def canonical_sender_id_def profile_match_sender self_sender_id_def
      plain_id_def)

lemma sender_matches_instance:
  assumes "plain_id a" "ds \<noteq> []" "\<forall>d \<in> set ds. ascii_digit d"
  shows "sender_matches (Some (a @ icbu_suffix @ CHR ''_'' # ds)) (Some a)"
proof -
  have "last (a @ icbu_suffix @ CHR ''_'' # ds) \<noteq> newline"
    using assms(2,3) by (auto dest: digit_not_newline last_in_set)
  then have "profile_match (a @ icbu_suffix @ CHR ''_'' # ds) = Some (a, [])"
    by (intro profile_match_sender profile_prefix_instance assms(2,3)) simp_all
  then show ?thesis
    using assms(1) by (simp add: sender_matches_def canonical_sender_id_def self_sender_id_def plain_id_def)
qed

lemma sender_matches_bare: "plain_id a \<Longrightarrow> plain_id b \<Longrightarrow> \<not> sender_matches (Some a) (Some b)"
  by (auto simp: sender_matches_def canonical_sender_id_def profile_match_plain self_sender_id_def
      icbu_suffix_def plain_id_def)

text \<open>A sender identifies at most one plain account.\<close>

lemma sender_matches_unique:
  "plain_id a \<Longrightarrow> plain_id b \<Longrightarrow> sender_matches x (Some a) \<Longrightarrow> sender_matches x (Some b) \<Longrightarrow> a = b"
  by (auto simp: sender_matches_def self_sender_id_def Let_def)

lemma session_key_split: "session_key self contact = session_key_prefix self @ contact"
  by (simp add: session_key_def session_key_prefix_def)

text \<open>Sender recognition: for a plain account id, the canonical sender id and every numbered
  instance profile match the account, the bare id does not, and no sender matches two accounts.
\<close>

theorem sender_identification:
  assumes "plain_id a" "plain_id b" "a \<noteq> b" "ds \<noteq> []" "\<forall>d \<in> set ds. ascii_digit d"
  shows "sender_matches (Some (a @ ''@icbu'')) (Some a)
    \<and> sender_matches (Some (a @ ''@icbu_'' @ ds)) (Some a)
    \<and> \<not> sender_matches (Some a) (Some a)
    \<and> \<not> (sender_matches x (Some a) \<and> sender_matches x (Some b))"
  using sender_matches_canonical[OF assms(1)] sender_matches_instance[OF assms(1,4,5)]
    sender_matches_bare[OF assms(1,1)] sender_matches_unique[OF assms(1,2)] assms(3)
  by (auto simp: icbu_suffix_def)

theorem sender_identification_witness:
  "sender_matches (Some ''12@icbu_7'') (Some ''12'') \<and> \<not> sender_matches (Some ''12'') (Some ''12'')"
proof -
  have p: "plain_id ''12'' \<and> plain_id ''34'' \<and> (\<forall>d \<in> set ''7''. ascii_digit d)"
    by code_simp
  show ?thesis using sender_identification[of "''12''" "''34''" "''7''" None] p by simp
qed

text \<open>
  Message ids are unique across sellers and tables, since neither a seller nor a table may
  contain the separator.
\<close>

lemma message_external_id_injective:
  assumes "message_external_id s t m = Inr x" "message_external_id s' t' m' = Inr x"
  shows "s = s' \<and> t = t' \<and> m = m'"
proof -
  have "CHR '':'' \<notin> set s" "CHR '':'' \<notin> set s'" "CHR '':'' \<notin> set t" "CHR '':'' \<notin> set t'"
    and eq: "s @ CHR '':'' # (t @ CHR '':'' # m) = s' @ CHR '':'' # (t' @ CHR '':'' # m')"
    using assms by (auto simp: message_external_id_def split: if_splits)
  then show ?thesis by (simp add: sep_append_eq)
qed

end
