(* ===== verification/Send_Verification.thy ===== *)
theory Send_Verification
  imports Identities Outbox_Store
begin

text \<open>
  The pure matching of \<^verbatim>\<open>shared/backend/send_verification.py\<close>: does a snapshot of the local
  message source prove that a possible send shows up as a message? The record is the stored task
  (its JSON baseline as the store returns it); the snapshot is any Python dictionary, because
  the code checks every part of it before use. Reading a truthy sender that is not a string
  raises, as the regular expression does in the source.
\<close>

section \<open>Checked values\<close>

text \<open>\<^verbatim>\<open>_timestamp\<close>: an int or float, finite and not negative, as a rational.\<close>

definition timestamp :: "pyval \<Rightarrow> rat option" where
  "timestamp v = (case finite_number v of Some q \<Rightarrow> if 0 \<le> q then Some q else None | None \<Rightarrow> None)"

definition sent_at_of :: "task \<Rightarrow> (string \<times> pyval) list \<Rightarrow> pyval" where
  "sent_at_of record baseline =
     (case map_of baseline ''sent_at'' of Some v \<Rightarrow> v | None \<Rightarrow> PFloat (FFin (t_created_at record)))"

definition origin_keys :: "string list" where
  "origin_keys = [''seller'', ''data_dir'', ''source_path'']"

text \<open>\<^verbatim>\<open>_baseline\<close>: the stored baseline, if it is complete and belongs to the record's scope.\<close>

definition valid_baseline :: "task \<Rightarrow> (string \<times> pyval) list option" where
  "valid_baseline record =
     (case t_baseline record of
        None \<Rightarrow> None
      | Some b \<Rightarrow>
          (case (dict_get_none b ''origin'', dict_get_none b ''ids'') of
             (PDict origin, PList ids) \<Rightarrow>
               if list_all (\<lambda>k. nonempty_str (dict_get_none origin k)) origin_keys
                  \<and> dict_get_none origin ''seller'' = PStr (t_seller record)
                  \<and> dict_get_none origin ''data_dir'' = PStr (t_data_dir record)
                  \<and> list_all nonempty_str ids
                  \<and> timestamp (dict_get_none b ''checked_at'') \<noteq> None
                  \<and> timestamp (sent_at_of record b) \<noteq> None
               then Some b else None
           | _ \<Rightarrow> None))"

text \<open>\<^verbatim>\<open>_cid_key\<close>: the conversation key without the profile suffixes.\<close>

definition cid_key :: "string \<Rightarrow> string" where
  "cid_key cid =
     (let main = hd (split_on (CHR ''#'') cid)
      in join_with ''-'' (map (\<lambda>part. canonical_ali_id (Some part)) (split_on (CHR ''-'') main)))"

text \<open>\<^verbatim>\<open>sender_matches\<close> on a value of any type.\<close>

definition sender_matches_value :: "pyval \<Rightarrow> string \<Rightarrow> bool result" where
  "sender_matches_value sender seller =
     (if canonical_ali_id (Some seller) = [] then Inr False
      else case sender of
             PStr s \<Rightarrow> Inr (sender_matches (Some s) (Some seller))
           | v \<Rightarrow> if truthy v then Inl (Type_Error ''expected string or bytes-like object'')
                  else Inr (sender_matches None (Some seller)))"

section \<open>Candidates\<close>

definition conversation_ids :: "task \<Rightarrow> string list" where
  "conversation_ids record =
     (let s = canonical_ali_id (Some (t_seller record)); c = canonical_ali_id (Some (t_contact record))
      in [s @ ''-'' @ c, c @ ''-'' @ s])"

text \<open>
  The conjunction of \<^verbatim>\<open>_candidates\<close> for one message, after the test of its identifier and
  sender: type, text, flags, conversation and time window.
\<close>

definition message_fits :: "task \<Rightarrow> rat \<Rightarrow> rat \<Rightarrow> pyval \<Rightarrow> bool" where
  "message_fits record checked sent m \<longleftrightarrow>
     pyval_get m ''type'' = PInt 0
   \<and> pyval_get m ''text'' = PStr (t_content record)
   \<and> pyval_get m ''is_system'' = PBool False \<and> pyval_get m ''is_auto_reply'' = PBool False
   \<and> pyval_get m ''extension_valid'' = PBool True
   \<and> (case pyval_get m ''cid'' of PStr c \<Rightarrow> cid_key c \<in> set (conversation_ids record) | _ \<Rightarrow> False)
   \<and> (case timestamp (pyval_get m ''created_at'') of
        Some stamp \<Rightarrow> checked - 5 \<le> stamp \<and> stamp \<le> sent + 120 | None \<Rightarrow> False)"

definition baseline_ids :: "(string \<times> pyval) list \<Rightarrow> pyval list" where
  "baseline_ids b = (case dict_get_none b ''ids'' of PList ids \<Rightarrow> ids | _ \<Rightarrow> [])"

definition window_of :: "task \<Rightarrow> (string \<times> pyval) list \<Rightarrow> rat \<times> rat" where
  "window_of record b =
     (case (timestamp (dict_get_none b ''checked_at''), timestamp (sent_at_of record b)) of
        (Some c, Some s) \<Rightarrow> (c, s) | _ \<Rightarrow> (0, 0))"

definition candidate_ok :: "task \<Rightarrow> (string \<times> pyval) list \<Rightarrow> pyval \<Rightarrow> bool result" where
  "candidate_ok record b m =
     (let mid = pyval_get m ''id'' in
      if \<not> (is_dict m \<and> nonempty_str mid \<and> mid \<notin> set (baseline_ids b)) then Inr False
      else and_then (sender_matches_value (pyval_get m ''sender_id'') (t_seller record)) (\<lambda>from_seller.
        Inr (from_seller \<and> message_fits record (fst (window_of record b)) (snd (window_of record b)) m)))"

fun candidates :: "task \<Rightarrow> (string \<times> pyval) list \<Rightarrow> pyval list \<Rightarrow> pyval list result" where
  "candidates record b [] = Inr []"
| "candidates record b (m # ms) =
     and_then (candidate_ok record b m) (\<lambda>keep.
     and_then (candidates record b ms) (\<lambda>rest. Inr (if keep then m # rest else rest)))"

section \<open>The match\<close>

record send_proof =
  sp_status :: ostatus
  sp_reason :: string
  sp_evidence :: "(string \<times> pyval) list"
  sp_matched :: "pyval option"

definition unknown_proof :: "string \<Rightarrow> (string \<times> pyval) list \<Rightarrow> send_proof" where
  "unknown_proof reason evidence =
     \<lparr>sp_status = Unknown, sp_reason = reason, sp_evidence = evidence, sp_matched = None\<rparr>"

text \<open>
  The loop over the other records: the first one that claims the message or could have
  caused it decides; None when no record excludes the match.
\<close>

fun exclusion :: "task \<Rightarrow> (string \<times> pyval) list \<Rightarrow> pyval \<Rightarrow> task list \<Rightarrow> string option result" where
  "exclusion record b m [] = Inr None"
| "exclusion record b m (x # xs) =
     (if t_id x = t_id record \<or> t_seller x \<noteq> t_seller record \<or> t_data_dir x \<noteq> t_data_dir record
      then exclusion record b m xs
      else if opt_str (t_matched x) = pyval_get m ''id''
      then Inr (Some ''message_already_claimed'')
      else if t_action x \<noteq> Send \<or> \<not> t_may_have_sent x \<or> t_content x \<noteq> t_content record
        \<or> t_contact x \<noteq> t_contact record
      then exclusion record b m xs
      else case valid_baseline x of
             None \<Rightarrow> Inr (Some ''ambiguous_send_attempts'')
           | Some xb \<Rightarrow>
               if py_eq (dict_get_none xb ''origin'') (dict_get_none b ''origin'')
               then and_then (candidates x xb [m]) (\<lambda>cs.
                 if cs \<noteq> [] then Inr (Some ''ambiguous_send_attempts'')
                 else exclusion record b m xs)
               else exclusion record b m xs)"

definition verifiable :: "task \<Rightarrow> bool" where
  "verifiable record \<longleftrightarrow> t_action record = Send \<and> t_may_have_sent record
     \<and> t_status record \<in> {Running, Verifying, Unknown}
     \<and> t_content record \<noteq> [] \<and> t_contact record \<noteq> []"

definition match_evidence ::
  "task \<Rightarrow> (string \<times> pyval) list \<Rightarrow> (string \<times> pyval) list \<Rightarrow> pyval list \<Rightarrow> (string \<times> pyval) list" where
  "match_evidence record b snapshot cs =
     [(''kind'', PStr ''local_source_message''), (''origin'', dict_get_none snapshot ''origin''),
      (''source_revision'', dict_get_none snapshot ''source_revision''),
      (''checked_at'', dict_get_none snapshot ''checked_at''),
      (''baseline_checked_at'', dict_get_none b ''checked_at''),
      (''sent_at'', sent_at_of record b),
      (''candidate_ids'', PList (map (\<lambda>m. pyval_get m ''id'') cs))]"

text \<open>The status while the message is not seen: unknown stays unknown, and a late look gives up.\<close>

definition waiting_status :: "task \<Rightarrow> (string \<times> pyval) list \<Rightarrow> (string \<times> pyval) list \<Rightarrow> ostatus" where
  "waiting_status record b snapshot =
     (if t_status record = Unknown then Unknown
      else case timestamp (dict_get_none snapshot ''checked_at'') of
             Some seen \<Rightarrow> if seen > snd (window_of record b) + 120 then Unknown else Verifying
           | None \<Rightarrow> Verifying)"

definition match_outbox ::
  "task \<Rightarrow> (string \<times> pyval) list \<Rightarrow> task list \<Rightarrow> send_proof result" where
  "match_outbox record snapshot others =
     (case valid_baseline record of
        None \<Rightarrow> Inr (unknown_proof ''baseline_invalid'' [])
      | Some b \<Rightarrow>
          if \<not> verifiable record then Inr (unknown_proof ''task_not_verifiable'' [])
          else if dict_get_none snapshot ''valid'' \<noteq> PBool True
          then Inr ((unknown_proof ''snapshot_invalid'' [])\<lparr>sp_status := waiting_status record b snapshot\<rparr>)
          else
            (case (timestamp (dict_get_none snapshot ''checked_at''), dict_get_none snapshot ''messages'') of
               (Some seen, PList messages) \<Rightarrow>
                 if \<not> py_eq (dict_get_none snapshot ''origin'') (dict_get_none b ''origin'')
                   \<or> seen < fst (window_of record b)
                 then Inr (unknown_proof ''snapshot_scope_or_time_mismatch'' [])
                 else and_then (candidates record b messages) (\<lambda>cs.
                   let evidence = match_evidence record b snapshot cs in
                   (case cs of
                      [] \<Rightarrow> Inr ((unknown_proof ''message_not_observed'' evidence)
                              \<lparr>sp_status := waiting_status record b snapshot\<rparr>)
                    | [m] \<Rightarrow>
                        and_then (exclusion record b m others) (\<lambda>excluded.
                          case excluded of
                            Some reason \<Rightarrow> Inr (unknown_proof reason evidence)
                          | None \<Rightarrow> Inr \<lparr>sp_status = Observed, sp_reason = ''local_message_observed'',
                              sp_evidence = evidence @ [(''message'', m)],
                              sp_matched = Some (pyval_get m ''id'')\<rparr>)
                    | _ \<Rightarrow> Inr (unknown_proof ''multiple_candidate_messages'' evidence)))
             | _ \<Rightarrow> Inr (unknown_proof ''snapshot_scope_or_time_mismatch'' [])))"

section \<open>Lemmas\<close>

lemma candidates_Inr:
  "candidates record b ms = Inr cs \<Longrightarrow> cs = filter (\<lambda>m. candidate_ok record b m = Inr True) ms"
  by (induction ms arbitrary: cs) (auto simp: and_then_Inr_iff)

lemma candidates_single_nonempty:
  "candidates record b [m] = Inr cs \<Longrightarrow> cs \<noteq> [] \<longleftrightarrow> candidate_ok record b m = Inr True"
  by (auto simp: and_then_Inr_iff split: if_splits)

text \<open>What \<open>message_already_claimed\<close> and \<open>ambiguous_send_attempts\<close> exclude, for every other record.\<close>

definition rival :: "task \<Rightarrow> task \<Rightarrow> bool" where
  "rival record x \<longleftrightarrow> t_id x \<noteq> t_id record \<and> t_seller x = t_seller record
     \<and> t_data_dir x = t_data_dir record"

lemma exclusion_None:
  assumes "exclusion record b m xs = Inr None" "x \<in> set xs" "rival record x"
  shows "opt_str (t_matched x) \<noteq> pyval_get m ''id''"
    and "t_action x = Send \<Longrightarrow> t_may_have_sent x \<Longrightarrow> t_content x = t_content record \<Longrightarrow>
      t_contact x = t_contact record \<Longrightarrow>
      \<exists>xb. valid_baseline x = Some xb
        \<and> (py_eq (dict_get_none xb ''origin'') (dict_get_none b ''origin'')
             \<longrightarrow> candidate_ok x xb m \<noteq> Inr True)"
  using assms
proof (induction xs)
  case (Cons y ys)
  {
    case 1
    with Cons.IH(1) show ?case
      by (auto simp: rival_def and_then_Inr_iff split: if_splits option.splits)
  next
    case 2
    with Cons.IH(2) show ?case
      by (auto simp: rival_def and_then_Inr_iff split: if_splits option.splits)
  }
qed simp_all

text \<open>The one way to a proof that observes.\<close>

lemma match_outbox_ObservedD:
  assumes "match_outbox record snapshot others = Inr p" "sp_status p = Observed"
  obtains b messages m where
    "valid_baseline record = Some b" "verifiable record"
    "dict_get_none snapshot ''valid'' = PBool True"
    "dict_get_none snapshot ''messages'' = PList messages"
    "py_eq (dict_get_none snapshot ''origin'') (dict_get_none b ''origin'')"
    "candidates record b messages = Inr [m]"
    "exclusion record b m others = Inr None"
    "sp_matched p = Some (pyval_get m ''id'')"
    "sp_evidence p = match_evidence record b snapshot [m] @ [(''message'', m)]"
proof -
  have wait: "waiting_status record b snapshot \<noteq> Observed" for b
    by (auto simp: waiting_status_def split: option.splits)
  obtain b where b: "valid_baseline record = Some b"
    using assms by (cases "valid_baseline record") (auto simp: match_outbox_def unknown_proof_def)
  have v: "verifiable record" and ok: "dict_get_none snapshot ''valid'' = PBool True"
    using assms wait b by (auto simp: match_outbox_def unknown_proof_def split: if_splits)
  obtain seen messages where "timestamp (dict_get_none snapshot ''checked_at'') = Some seen"
    and ms: "dict_get_none snapshot ''messages'' = PList messages"
    using assms b v ok
    by (auto simp: match_outbox_def unknown_proof_def split: option.splits pyval.splits if_splits)
  then have origin: "py_eq (dict_get_none snapshot ''origin'') (dict_get_none b ''origin'')"
    and rest: "and_then (candidates record b messages) (\<lambda>cs.
                   let evidence = match_evidence record b snapshot cs in
                   (case cs of
                      [] \<Rightarrow> Inr ((unknown_proof ''message_not_observed'' evidence)
                              \<lparr>sp_status := waiting_status record b snapshot\<rparr>)
                    | [m] \<Rightarrow>
                        and_then (exclusion record b m others) (\<lambda>excluded.
                          case excluded of
                            Some reason \<Rightarrow> Inr (unknown_proof reason evidence)
                          | None \<Rightarrow> Inr \<lparr>sp_status = Observed, sp_reason = ''local_message_observed'',
                              sp_evidence = evidence @ [(''message'', m)],
                              sp_matched = Some (pyval_get m ''id'')\<rparr>)
                    | _ \<Rightarrow> Inr (unknown_proof ''multiple_candidate_messages'' evidence))) = Inr p"
    using assms b v ok by (auto simp: match_outbox_def unknown_proof_def split: if_splits)
  from rest obtain cs where cs: "candidates record b messages = Inr cs"
    by (auto simp: and_then_Inr_iff)
  have "\<exists>m. cs = [m]"
    using rest cs assms(2) wait
    by (auto simp: unknown_proof_def Let_def neq_Nil_conv split: list.splits)
  then obtain m where m: "cs = [m]" ..
  from rest cs obtain ex where ex: "exclusion record b m others = Inr ex"
    by (auto simp: m Let_def and_then_Inr_iff)
  have "ex = None"
    using rest cs ex assms(2) by (auto simp: m Let_def unknown_proof_def split: option.splits)
  then have "p = \<lparr>sp_status = Observed, sp_reason = ''local_message_observed'',
            sp_evidence = match_evidence record b snapshot [m] @ [(''message'', m)],
            sp_matched = Some (pyval_get m ''id'')\<rparr>"
    using rest cs ex by (simp add: m Let_def)
  with b v ok ms origin cs m ex \<open>ex = None\<close> show thesis using that by simp
qed

lemma candidate_okD:
  assumes "candidate_ok record b m = Inr True"
  shows "nonempty_str (pyval_get m ''id'')" "pyval_get m ''id'' \<notin> set (baseline_ids b)"
    and "sender_matches_value (pyval_get m ''sender_id'') (t_seller record) = Inr True"
    and "message_fits record (fst (window_of record b)) (snd (window_of record b)) m"
  using assms by (auto simp: candidate_ok_def Let_def and_then_Inr_iff split: if_splits)

lemma candidates_single_mem:
  assumes "candidates record b ms = Inr [m]"
  shows "m \<in> set ms" "candidate_ok record b m = Inr True"
    and "m' \<in> set ms \<Longrightarrow> candidate_ok record b m' = Inr True \<Longrightarrow> m' = m"
proof -
  have eq: "[m] = filter (\<lambda>m. candidate_ok record b m = Inr True) ms"
    by (rule candidates_Inr[OF assms])
  then have "set [m] = {x \<in> set ms. candidate_ok record b x = Inr True}" by (metis set_filter)
  then show "m \<in> set ms" "candidate_ok record b m = Inr True"
    "m' \<in> set ms \<Longrightarrow> candidate_ok record b m' = Inr True \<Longrightarrow> m' = m" by auto
qed

lemma py_eq_str [simp]: "py_eq v (PStr s) \<longleftrightarrow> v = PStr s"
  by (cases v) (auto split: pyfloat.splits)

section \<open>Properties\<close>

text \<open>A send and a snapshot that the witnesses evaluate.\<close>

definition demo_origin :: pyval where
  "demo_origin = PDict [(''seller'', PStr ''12''), (''data_dir'', PStr ''d''), (''source_path'', PStr ''p'')]"

definition demo_record :: "string \<Rightarrow> task" where
  "demo_record i = (new_task i (''12'', ''d'') 7 ''34'' ''l'' ''hello'' Send i None None 100)
     \<lparr>t_status := Verifying, t_may_have_sent := True,
      t_baseline := Some [(''origin'', demo_origin), (''ids'', PList [PStr ''m:1'']),
        (''checked_at'', PInt 100), (''sent_at'', PInt 101)]\<rparr>"

definition demo_message :: pyval where
  "demo_message = PDict [(''id'', PStr ''m:2''), (''sender_id'', PStr ''12@icbu_1''),
     (''cid'', PStr ''12@icbu_1-34#11''), (''type'', PInt 0), (''text'', PStr ''hello''),
     (''is_system'', PBool False), (''is_auto_reply'', PBool False), (''extension_valid'', PBool True),
     (''created_at'', PFloat (FFin 103))]"

definition demo_snapshot :: "(string \<times> pyval) list" where
  "demo_snapshot = [(''valid'', PBool True), (''origin'', demo_origin), (''checked_at'', PInt 110),
     (''source_revision'', PInt 3), (''messages'', PList [demo_message])]"




text \<open>Two sends of one scope that are both proved by one snapshot, each by its own message.\<close>

definition demo_bye :: task where
  "demo_bye = (demo_record ''t2'')\<lparr>t_content := ''bye''\<rparr>"

definition demo_bye_message :: pyval where
  "demo_bye_message = PDict [(''id'', PStr ''m:3''), (''sender_id'', PStr ''12@icbu_1''),
     (''cid'', PStr ''12@icbu_1-34#11''), (''type'', PInt 0), (''text'', PStr ''bye''),
     (''is_system'', PBool False), (''is_auto_reply'', PBool False), (''extension_valid'', PBool True),
     (''created_at'', PFloat (FFin 104))]"

definition demo_both :: "(string \<times> pyval) list" where
  "demo_both = [(''valid'', PBool True), (''origin'', demo_origin), (''checked_at'', PInt 110),
     (''source_revision'', PInt 3), (''messages'', PList [demo_message, demo_bye_message])]"

definition observes :: "task \<Rightarrow> (string \<times> pyval) list \<Rightarrow> task list \<Rightarrow> pyval option" where
  "observes record snapshot others =
     (case match_outbox record snapshot others of
        Inr p \<Rightarrow> if sp_status p = Observed then sp_matched p else None | Inl _ \<Rightarrow> None)"

lemma demo_both_observed:
  "observes (demo_record ''t1'') demo_both [demo_record ''t1'', demo_bye] = Some (PStr ''m:2'')"
  "observes demo_bye demo_both [demo_record ''t1'', demo_bye] = Some (PStr ''m:3'')"
  by code_simp+

lemma observes_SomeD:
  assumes "observes record snapshot others = Some i"
  obtains p where "match_outbox record snapshot others = Inr p" "sp_status p = Observed" "sp_matched p = Some i"
  using assms that by (auto simp: observes_def split: sum.splits if_splits)

text \<open>
  C6: One message never proves two sends to one spelling of a contact: two different possible sends with the same contact text, of one scope
  and with baselines of one origin, that are checked against the same snapshot with distinct message identifiers and against the same
  records, the second send among them, are not both observed through the same message.
\<close>

theorem no_double_observation:
  assumes "observes r1 snapshot others = Some i" and "observes r2 snapshot others = Some j"
    and "r2 \<in> set others" "rival r1 r2" "t_contact r2 = t_contact r1"
    and "valid_baseline r1 = Some b1" "valid_baseline r2 = Some b2"
    and "py_eq (dict_get_none b2 ''origin'') (dict_get_none b1 ''origin'')"
    and "dict_get_none snapshot ''messages'' = PList messages"
    and "distinct (map (\<lambda>m. pyval_get m ''id'') messages)"
  shows "i \<noteq> j"
proof
  assume same: "i = j"
  obtain p1 p2 where p:
    "match_outbox r1 snapshot others = Inr p1" "sp_status p1 = Observed" "sp_matched p1 = Some i"
    "match_outbox r2 snapshot others = Inr p2" "sp_status p2 = Observed" "sp_matched p2 = Some i"
    using observes_SomeD[OF assms(1)] observes_SomeD[OF assms(2)] same by metis
  obtain m1 where 1: "verifiable r1" "candidates r1 b1 messages = Inr [m1]"
    "exclusion r1 b1 m1 others = Inr None" "pyval_get m1 ''id'' = i"
    by (rule match_outbox_ObservedD[OF p(1,2)]) (use assms(6,9) p(3) in auto)
  obtain m2 where 2: "verifiable r2" "candidates r2 b2 messages = Inr [m2]" "pyval_get m2 ''id'' = i"
    by (rule match_outbox_ObservedD[OF p(4,5)]) (use assms(7,9) p(6) in auto)
  note c1 = candidates_single_mem(1,2)[OF 1(2)] and c2 = candidates_single_mem(1,2)[OF 2(2)]
  have m: "m1 = m2"
    using c1(1) c2(1) 1(4) 2(3) assms(10) by (metis distinct_map inj_onD)
  have "t_content r2 = t_content r1"
    using candidate_okD(4)[OF c1(2)] candidate_okD(4)[OF c2(2)] m by (simp add: message_fits_def)
  then have "candidate_ok r2 b2 m1 \<noteq> Inr True"
    using exclusion_None(2)[OF 1(3) assms(3,4)] 2(1) assms(5,7,8) by (auto simp: verifiable_def)
  then show False using c2(2) m by simp
qed

theorem no_double_observation_witness:
  "observes demo_bye demo_both [demo_record ''t1'', demo_bye] = Some (PStr ''m:3'')
    \<and> PStr ''m:2'' \<noteq> PStr ''m:3''"
proof -
  have parts: "rival (demo_record ''t1'') demo_bye" "t_contact demo_bye = t_contact (demo_record ''t1'')"
    "valid_baseline (demo_record ''t1'') = Some (the (t_baseline (demo_record ''t1'')))"
    "valid_baseline demo_bye = Some (the (t_baseline demo_bye))"
    "py_eq (dict_get_none (the (t_baseline demo_bye)) ''origin'')
       (dict_get_none (the (t_baseline (demo_record ''t1''))) ''origin'')"
    "dict_get_none demo_both ''messages'' = PList [demo_message, demo_bye_message]"
    "distinct (map (\<lambda>m. pyval_get m ''id'') [demo_message, demo_bye_message])"
    by code_simp+
  show ?thesis
    using no_double_observation[OF demo_both_observed _ parts] demo_both_observed(2) by simp
qed

text \<open>
  The condition on the contact text is needed: conversations are compared by canonical account ids, rival sends by the text of
  the contact. With two spellings of one contact neither send excludes the other, and one message proves both. The store's unique claim
  then refuses the second write; which send gets the claim is the order of the checks.
\<close>

lemma two_spellings_share_a_message:
  "conversation_ids ((demo_record ''t2'')\<lparr>t_contact := ''34@icbu''\<rparr>) = conversation_ids (demo_record ''t1'')"
  "observes (demo_record ''t1'') demo_snapshot [demo_record ''t1'', (demo_record ''t2'')\<lparr>t_contact := ''34@icbu''\<rparr>] = Some (PStr ''m:2'')"
  "observes ((demo_record ''t2'')\<lparr>t_contact := ''34@icbu''\<rparr>) demo_snapshot
     [demo_record ''t1'', (demo_record ''t2'')\<lparr>t_contact := ''34@icbu''\<rparr>] = Some (PStr ''m:2'')"
  by code_simp+

end
