(* ===== verification/Gui_Session.thy ===== *)
theory Gui_Session
  imports Py_Prelude
begin

text \<open>
  The account selection (\<^verbatim>\<open>shared/backend/account_context.py\<close>), the binding to the client window and
  the native jobs (\<^verbatim>\<open>maafw_runner.py\<close>), and the guards that join both (\<^verbatim>\<open>gui_session.py\<close>).

  The state \<open>gui\<close> holds the module variables of the three files, the selection in the application's
  configuration, the windows of the desktop, and a log of what was posted to the native framework. The native framework
  itself is an input: a \<open>native\<close> reply says what posting, waiting and reading a job gave.
  \<open>bound\<close> is the account that \<^verbatim>\<open>bind_account_context\<close> fixed for the calling thread, if any; \<open>fresh\<close> is
  the next \<^verbatim>\<open>uuid4().hex\<close>. Window titles are their UTF-8 bytes.
\<close>

section \<open>State\<close>

record account =
  ac_seller :: string
  ac_data_dir :: string
  ac_epoch :: string

record gui_token =
  tk_seller :: string
  tk_data_dir :: string
  tk_epoch :: string
  tk_window :: string

record window =
  w_hwnd :: int
  w_class :: string
  w_name :: string

record tasker =
  ts_inited :: bool
  ts_connected :: bool

record gui =
  g_config :: "string \<times> string"
  g_account :: "account option"
  g_windows :: "window list"
  g_tasker :: "tasker option"
  g_hwnd :: "int option"
  g_generation :: string
  g_token :: "gui_token option"
  g_jobs :: "nat list"
  g_uncertain :: bool
  g_posts :: "(string \<times> pyval) list"

text \<open>What the native framework answers: to the post, to the wait, and to \<^verbatim>\<open>job.done\<close>.\<close>

record native =
  nv_post :: "nat result"
  nv_wait :: "(bool \<times> string) option result"
  nv_done :: bool

section \<open>The selected account\<close>

text \<open>\<^verbatim>\<open>get_account_context\<close>: a changed selection gets a new epoch.\<close>

definition get_account_context :: "account option \<Rightarrow> string \<Rightarrow> gui \<Rightarrow> account \<times> gui" where
  "get_account_context bound fresh g =
     (case bound of
        Some a \<Rightarrow> (a, g)
      | None \<Rightarrow>
          (let seller = py_strip (fst (g_config g)); data_dir = py_strip (snd (g_config g));
               new = \<lparr>ac_seller = seller, ac_data_dir = data_dir, ac_epoch = fresh\<rparr>
           in case g_account g of
                Some a \<Rightarrow>
                  if ac_seller a = seller \<and> ac_data_dir a = data_dir then (a, g)
                  else (new, g\<lparr>g_account := Some new\<rparr>)
              | None \<Rightarrow> (new, g\<lparr>g_account := Some new\<rparr>)))"

definition invalidate_account_context :: "account option \<Rightarrow> string \<Rightarrow> gui \<Rightarrow> account \<times> gui" where
  "invalidate_account_context bound fresh g = get_account_context bound fresh (g\<lparr>g_account := None\<rparr>)"

section \<open>The client window\<close>

text \<open>The title of the reception window, four Chinese characters in UTF-8.\<close>

definition window_title :: string where
  "window_title = [CHR 0xE6, CHR 0x8E, CHR 0xA5, CHR 0xE5, CHR 0xBE, CHR 0x85,
     CHR 0xE4, CHR 0xB8, CHR 0xAD, CHR 0xE5, CHR 0xBF, CHR 0x83]"

definition window_matches :: "window \<Rightarrow> bool" where
  "window_matches w \<longleftrightarrow> contains_text ''Qt'' (w_class w) \<and> contains_text window_title (w_name w)"

definition find_window :: "window list \<Rightarrow> window result" where
  "find_window ws =
     (case filter window_matches ws of
        [] \<Rightarrow> Inl (Runtime_Error ''no matching reception window'')
      | [w] \<Rightarrow> Inr w
      | _ \<Rightarrow> Inl (Runtime_Error ''several matching reception windows''))"

definition reset_binding :: "gui \<Rightarrow> gui" where
  "reset_binding g = g\<lparr>g_tasker := None, g_hwnd := None, g_generation := []\<rparr>"

text \<open>\<^verbatim>\<open>_probe_binding\<close>: observes; any failure but a missing connection drops the binding.\<close>

definition probe_binding :: "gui \<Rightarrow> (bool \<times> string) \<times> gui" where
  "probe_binding g =
     (case find_window (g_windows g) of
        Inl e \<Rightarrow> ((False, err_text e), reset_binding g)
      | Inr w \<Rightarrow>
          (case g_tasker g of
             None \<Rightarrow> ((False, ''Client is not connected; connect first.''), g)
           | Some t \<Rightarrow>
               if g_hwnd g \<noteq> Some (w_hwnd w)
               then ((False, ''Client window changed; reconnect and retry.''), reset_binding g)
               else if \<not> ts_inited t \<or> \<not> ts_connected t
               then ((False, ''Client connection lost; reconnect and retry.''), reset_binding g)
               else ((True, ''Client window is connected.''), g)))"

section \<open>Native jobs\<close>

definition post_native :: "native \<Rightarrow> gui \<Rightarrow> nat result \<times> gui" where
  "post_native nv g =
     (case nv_post nv of
        Inl e \<Rightarrow> (Inl e, g\<lparr>g_uncertain := True\<rparr>)
      | Inr j \<Rightarrow> (Inr j, g\<lparr>g_jobs := j # g_jobs g\<rparr>))"

definition wait_native :: "native \<Rightarrow> nat \<Rightarrow> gui \<Rightarrow> (bool \<times> string) option result \<times> gui" where
  "wait_native nv j g =
     (case nv_wait nv of
        Inl e \<Rightarrow> (Inl e, g)
      | Inr d \<Rightarrow> (Inr d, if nv_done nv then g\<lparr>g_jobs := remove1 j (g_jobs g)\<rparr> else g))"

text \<open>Post one job and wait for it; True when it succeeded.\<close>

definition native_succeeds :: "native \<Rightarrow> gui \<Rightarrow> bool result \<times> gui" where
  "native_succeeds nv g =
     (case post_native nv g of
        (Inl e, g1) \<Rightarrow> (Inl e, g1)
      | (Inr j, g1) \<Rightarrow>
          (case wait_native nv j g1 of
             (Inl e, g2) \<Rightarrow> (Inl e, g2)
           | (Inr d, g2) \<Rightarrow> (Inr (case d of Some (True, _) \<Rightarrow> True | _ \<Rightarrow> False), g2)))"

text \<open>What the steps of a connection answer, and the identifier of the new binding.\<close>

record connection =
  cn_option :: "bool result"
  cn_target :: bool
  cn_connect :: native
  cn_bundle :: native
  cn_bind :: bool
  cn_fresh :: string

text \<open>
  \<^verbatim>\<open>_ensure_init\<close>: reuses a live binding of the one matching window, or builds a new one with a new
  generation; any failure leaves no binding. The three parts are the first-time initialization, the test for a live binding,
  and the building of a new one. The result is the reason of a failure, None when there is a binding.
\<close>

definition init_ready :: "connection \<Rightarrow> gui \<Rightarrow> unit result" where
  "init_ready cn g =
     (if g_tasker g \<noteq> None then Inr ()
      else if g_token g \<noteq> None \<or> g_jobs g \<noteq> [] \<or> g_uncertain g
      then Inl (Runtime_Error
        ''Native initialization deferred until outstanding operations are resolved'')
      else and_then (cn_option cn) (\<lambda>ok.
        raise_if (\<not> ok) (Runtime_Error ''MaaFW configuration failed'')))"

definition live_binding :: "window \<Rightarrow> gui \<Rightarrow> bool" where
  "live_binding w g =
     (case g_tasker g of
        Some t \<Rightarrow> g_hwnd g = Some (w_hwnd w) \<and> ts_inited t \<and> ts_connected t | None \<Rightarrow> False)"

definition init_failed :: "py_error \<Rightarrow> gui \<Rightarrow> string option \<times> gui" where
  "init_failed e g = (Some (err_text e), reset_binding g)"

definition native_step ::
  "native \<Rightarrow> string \<Rightarrow> (gui \<Rightarrow> string option \<times> gui) \<Rightarrow> gui \<Rightarrow> string option \<times> gui" where
  "native_step nv failure rest g =
     (let (r, g1) = native_succeeds nv g
      in case r of
           Inl e \<Rightarrow> init_failed e g1
         | Inr ok \<Rightarrow> if ok then rest g1 else init_failed (Runtime_Error failure) g1)"

definition bind_window :: "connection \<Rightarrow> window \<Rightarrow> gui \<Rightarrow> string option \<times> gui" where
  "bind_window cn w g =
     (if \<not> cn_bind cn then init_failed (Runtime_Error ''MaaFW Tasker failed'') g
      else (None, g\<lparr>g_tasker := Some \<lparr>ts_inited = True, ts_connected = True\<rparr>,
        g_hwnd := Some (w_hwnd w), g_generation := cn_fresh cn\<rparr>))"

definition ensure_init :: "connection \<Rightarrow> gui \<Rightarrow> string option \<times> gui" where
  "ensure_init cn g =
     (case and_then (init_ready cn g) (\<lambda>_. find_window (g_windows g)) of
        Inl e \<Rightarrow> init_failed e g
      | Inr w \<Rightarrow>
          if live_binding w g then (None, g)
          else if \<not> cn_target cn
          then init_failed (Runtime_Error ''MaaFW screenshot size failed'') g
          else native_step (cn_connect cn) ''MaaFW window connection failed''
            (native_step (cn_bundle cn) ''MaaFW resources failed'' (bind_window cn w))
            (reset_binding g))"

section \<open>Sessions and guards\<close>

record client_status =
  cs_connected :: bool
  cs_generation :: string
  cs_detail :: string

definition status_locked :: "gui \<Rightarrow> client_status \<times> gui" where
  "status_locked g =
     (let (p, g') = probe_binding g
      in (\<lparr>cs_connected = fst p, cs_generation = g_generation g', cs_detail = snd p\<rparr>, g'))"

text \<open>\<^verbatim>\<open>get_client_status\<close>: while an operation holds the runner lock, the last generation is reported.\<close>

definition get_client_status :: "bool \<Rightarrow> gui \<Rightarrow> client_status \<times> gui" where
  "get_client_status lock_free g =
     (if lock_free then status_locked g
      else (\<lparr>cs_connected = g_generation g \<noteq> [], cs_generation = g_generation g,
             cs_detail = ''a client operation is running''\<rparr>, g))"

definition connect_client :: "connection \<Rightarrow> string \<Rightarrow> gui \<Rightarrow> client_status result \<times> gui" where
  "connect_client cn fresh g =
     (case ensure_init cn g of
        (Some err, g1) \<Rightarrow> (Inl (App_Error 503 (''Client connection failed: '' @ err)), g1)
      | (None, g1) \<Rightarrow>
          (let (st, g2) = status_locked (g1\<lparr>g_generation := fresh\<rparr>)
           in (if cs_connected st then Inr st else Inl (App_Error 503 (cs_detail st)), g2)))"

definition require_context :: "account option \<Rightarrow> string \<Rightarrow> string \<Rightarrow> gui \<Rightarrow> account result \<times> gui" where
  "require_context bound fresh epoch g =
     (let (a, g') = get_account_context bound fresh g
      in (if ac_epoch a \<noteq> epoch then Inl (App_Error 409 ''Account context changed; reload and retry.'')
          else if ac_seller a = [] then Inl (App_Error 409 ''Select a seller before operating the client.'')
          else Inr a, g'))"

definition capture_gui_session :: "account option \<Rightarrow> string \<Rightarrow> string \<Rightarrow> gui \<Rightarrow> gui_token result \<times> gui" where
  "capture_gui_session bound fresh epoch g =
     (let (st, g1) = status_locked g; (r, g2) = require_context bound fresh epoch g1
      in (and_then r (\<lambda>a.
            if \<not> cs_connected st then Inl (App_Error 503 (cs_detail st))
            else Inr \<lparr>tk_seller = ac_seller a, tk_data_dir = ac_data_dir a, tk_epoch = ac_epoch a,
                      tk_window = cs_generation st\<rparr>), g2))"

definition validate_token :: "account option \<Rightarrow> string \<Rightarrow> gui_token \<Rightarrow> gui \<Rightarrow> unit result \<times> gui" where
  "validate_token bound fresh tk g =
     (let (st, g1) = status_locked g; (r, g2) = require_context bound fresh (tk_epoch tk) g1
      in (and_then r (\<lambda>a.
            if (tk_seller tk, tk_data_dir tk, tk_epoch tk) \<noteq> (ac_seller a, ac_data_dir a, ac_epoch a)
              \<or> tk_window tk \<noteq> cs_generation st
            then Inl (App_Error 409 ''GUI session expired; reconnect and retry.'')
            else raise_if (\<not> cs_connected st) (App_Error 503 (cs_detail st))), g2))"

text \<open>
  \<^verbatim>\<open>run_guarded\<close>: validates, authorises the calling thread for the duration of \<open>fn\<close>, and turns every exception
  into its text. (Rotating the native logs before \<open>fn\<close> never raises and is not modelled.)
\<close>

definition run_guarded ::
  "account option \<Rightarrow> string \<Rightarrow> gui_token \<Rightarrow> (gui \<Rightarrow> 'a result \<times> gui) \<Rightarrow> gui \<Rightarrow> (string + 'a) \<times> gui" where
  "run_guarded bound fresh tk fn g =
     (case validate_token bound fresh tk g of
        (Inl e, g1) \<Rightarrow> (Inl (err_text e), g1\<lparr>g_token := g_token g\<rparr>)
      | (Inr _, g1) \<Rightarrow>
          (let (r, g2) = fn (g1\<lparr>g_token := Some tk\<rparr>)
           in (case r of Inl e \<Rightarrow> Inl (err_text e) | Inr a \<Rightarrow> Inr a, g2\<lparr>g_token := g_token g\<rparr>)))"

section \<open>Operations of the runner\<close>

definition read_only_entries :: "string list" where
  "read_only_entries = [''Diagnostics_ChatInput'', ''Diagnostics_ContactSearch'']"

text \<open>The posting of a task: the attempt is in the log even when the post raises.\<close>

definition post_task :: "string \<Rightarrow> pyval \<Rightarrow> native \<Rightarrow> gui \<Rightarrow> nat result \<times> gui" where
  "post_task entry override nv g = post_native nv (g\<lparr>g_posts := g_posts g @ [(entry, override)]\<rparr>)"

definition job_outcome ::
  "string \<Rightarrow> string \<Rightarrow> string \<Rightarrow> (bool \<times> string) option \<Rightarrow> bool \<times> string" where
  "job_outcome finished prefix nothing d =
     (case d of Some (True, _) \<Rightarrow> (True, finished) | Some (False, status) \<Rightarrow> (False, prefix @ status)
      | None \<Rightarrow> (False, nothing))"

text \<open>\<^verbatim>\<open>run_node\<close>: the guard (None when the task may be posted), then the post and the wait.\<close>

definition node_guard ::
  "account option \<Rightarrow> string \<Rightarrow> string \<Rightarrow> pyval \<Rightarrow> connection \<Rightarrow> gui \<Rightarrow> string option \<times> gui" where
  "node_guard bound fresh entry override cn g =
     (case g_token g of
        Some tk \<Rightarrow>
          (let (r, g1) = validate_token bound fresh tk g
           in (case r of Inl e \<Rightarrow> Some (err_text e) | Inr _ \<Rightarrow> None, g1))
      | None \<Rightarrow>
          if entry \<in> set read_only_entries \<and> \<not> truthy override then ensure_init cn g
          else (Some ''GUI writes require a valid session and run_guarded.'', g))"

definition post_and_wait :: "string \<Rightarrow> pyval \<Rightarrow> native \<Rightarrow> gui \<Rightarrow> (bool \<times> string) \<times> gui" where
  "post_and_wait entry override nv g =
     (let (p, g1) = post_task entry override nv g
      in case p of
           Inl e \<Rightarrow> ((False, err_text e), g1)
         | Inr j \<Rightarrow>
             (let (d, g2) = wait_native nv j g1
              in (case d of Inl e \<Rightarrow> (False, err_text e)
                  | Inr d \<Rightarrow> job_outcome ''GUI operation finished'' ''status: '' ''no result'' d, g2)))"

definition run_node ::
  "account option \<Rightarrow> string \<Rightarrow> string \<Rightarrow> pyval \<Rightarrow> native \<Rightarrow> connection \<Rightarrow> gui \<Rightarrow> (bool \<times> string) \<times> gui" where
  "run_node bound fresh entry override nv cn g =
     (let (refused, g1) = node_guard bound fresh entry override cn g
      in case refused of
           Some reason \<Rightarrow> ((False, reason), g1)
         | None \<Rightarrow> post_and_wait entry override nv g1)"

definition goto_contact_override :: "string \<Rightarrow> pyval" where
  "goto_contact_override contact =
     PDict [(''ContactSearch_InputText'', PDict [(''action'', PDict [(''param'',
       PDict [(''input_text'', PStr contact)])])])]"

definition chat_input_override :: "string \<Rightarrow> bool \<Rightarrow> pyval" where
  "chat_input_override content send =
     PDict [(''ChatInput_InputText'', PDict [(''action'', PDict [(''param'',
         PDict [(''input_text'', PStr content)])]),
       (''next'', PList (if send then [PStr ''ChatInput_SendMessage''] else []))]),
       (''ChatInput_SendMessage'', PDict [(''enabled'', PBool send)])]"

definition goto_contact where
  "goto_contact bound fresh contact nv cn g =
     run_node bound fresh ''ContactSearch'' (goto_contact_override contact) nv cn g"

definition chat_input where
  "chat_input bound fresh content nv cn g =
     run_node bound fresh ''ChatInput'' (chat_input_override content False) nv cn g"

text \<open>\<^verbatim>\<open>capture_client_frame\<close>: the token is validated before and after; the digest stands for the frame.\<close>

definition capture_client_frame ::
  "account option \<Rightarrow> string \<Rightarrow> native \<Rightarrow> string result \<Rightarrow> gui \<Rightarrow> string result \<times> gui" where
  "capture_client_frame bound fresh nv frame g =
     (case g_token g of
        None \<Rightarrow> (Inl (App_Error 409 ''Screenshot capture requires run_guarded.''), g)
      | Some tk \<Rightarrow>
          (case validate_token bound fresh tk g of
             (Inl e, g1) \<Rightarrow> (Inl e, g1)
           | (Inr _, g1) \<Rightarrow>
               (case native_succeeds nv g1 of
                  (Inl e, g2) \<Rightarrow> (Inl e, g2)
                | (Inr False, g2) \<Rightarrow> (Inl (Runtime_Error ''Fresh client screenshot failed.''), g2)
                | (Inr True, g2) \<Rightarrow>
                    (case frame of
                       Inl e \<Rightarrow> (Inl e, g2)
                     | Inr digest \<Rightarrow>
                         (let (r, g3) = validate_token bound fresh tk g2
                          in (and_then r (\<lambda>_. Inr digest), g3))))))"

definition submit_send :: "account option \<Rightarrow> string \<Rightarrow> native \<Rightarrow> gui \<Rightarrow> nat result \<times> gui" where
  "submit_send bound fresh nv g =
     (case g_token g of
        None \<Rightarrow> (Inl (App_Error 409 ''GUI writes require a valid session and run_guarded.''), g)
      | Some tk \<Rightarrow>
          (case validate_token bound fresh tk g of
             (Inl e, g1) \<Rightarrow> (Inl e, g1)
           | (Inr _, g1) \<Rightarrow> post_task ''ChatInput_SendOnly''
               (PDict [(''ChatInput_SendMessage'', PDict [(''enabled'', PBool True)])]) nv g1))"

definition wait_send :: "native \<Rightarrow> nat \<Rightarrow> gui \<Rightarrow> (bool \<times> string) \<times> gui" where
  "wait_send nv j g =
     (case wait_native nv j g of
        (Inl e, g1) \<Rightarrow> ((False, err_text e), g1)
      | (Inr d, g1) \<Rightarrow> (job_outcome ''GUI send completed (not a delivery confirmation).''
          ''Send task status: '' ''No send task result'' d, g1))"

section \<open>What the operations leave alone\<close>

lemma reset_binding_simps [simp]:
  "g_posts (reset_binding g) = g_posts g" "g_token (reset_binding g) = g_token g"
  "g_account (reset_binding g) = g_account g" "g_config (reset_binding g) = g_config g"
  "g_windows (reset_binding g) = g_windows g" "g_tasker (reset_binding g) = None"
  "g_generation (reset_binding g) = []" "g_hwnd (reset_binding g) = None"
  by (simp_all add: reset_binding_def)

lemma probe_binding_frame [simp]:
  "g_posts (snd (probe_binding g)) = g_posts g" "g_token (snd (probe_binding g)) = g_token g"
  "g_account (snd (probe_binding g)) = g_account g" "g_config (snd (probe_binding g)) = g_config g"
  by (simp_all add: probe_binding_def split: sum.splits option.splits)

lemma probe_binding_cases: "snd (probe_binding g) = g \<or> snd (probe_binding g) = reset_binding g"
  by (simp add: probe_binding_def split: sum.splits option.splits)

lemma probe_connectedD:
  assumes "probe_binding g = ((True, d), g')"
  shows "g' = g" "g_tasker g \<noteq> None"
  using assms by (auto simp: probe_binding_def split: sum.splits option.splits if_splits)

lemma account_frame [simp]:
  "g_posts (snd (get_account_context b f g)) = g_posts g"
  "g_token (snd (get_account_context b f g)) = g_token g"
  "g_generation (snd (get_account_context b f g)) = g_generation g"
  "g_tasker (snd (get_account_context b f g)) = g_tasker g"
  "g_config (snd (get_account_context b f g)) = g_config g"
  "probe_binding (snd (get_account_context b f g)) =
     (fst (probe_binding g), snd (get_account_context b f (snd (probe_binding g))))"
  by (auto simp: get_account_context_def probe_binding_def Let_def reset_binding_def
    split: option.splits sum.splits)

lemma native_frame [simp]:
  "g_posts (snd (post_native nv g)) = g_posts g" "g_posts (snd (wait_native nv j g)) = g_posts g"
  "g_posts (snd (native_succeeds nv g)) = g_posts g"
  by (auto simp: post_native_def wait_native_def native_succeeds_def split: sum.splits option.splits)

text \<open>A native job changes only the bookkeeping of jobs.\<close>

definition jobs_only :: "gui \<Rightarrow> gui \<Rightarrow> bool" where
  "jobs_only g h \<longleftrightarrow> h = g\<lparr>g_jobs := g_jobs h, g_uncertain := g_uncertain h\<rparr>"

lemma jobs_only_trans: "jobs_only a b \<Longrightarrow> jobs_only b c \<Longrightarrow> jobs_only a c"
  unfolding jobs_only_def by (cases a; cases b; cases c) simp

lemma jobs_only_native [simp]:
  "jobs_only g (snd (post_native nv g))" "jobs_only g (snd (wait_native nv j g))"
  by (auto simp: jobs_only_def post_native_def wait_native_def split: sum.splits)

lemma jobs_only_succeeds [simp]: "jobs_only g (snd (native_succeeds nv g))"
proof (cases "post_native nv g")
  case (Pair r g1)
  have "jobs_only g g1" using jobs_only_native(1)[of g nv] by (simp add: Pair)
  moreover have "jobs_only g1 (snd (wait_native nv j g1))" for j by simp
  ultimately show ?thesis
    unfolding native_succeeds_def Pair
    by (cases r) (auto simp: split_beta split: sum.splits intro: jobs_only_trans)
qed

section \<open>Guards\<close>

text \<open>
  The token speaks for the selected account (or the one bound to the thread) and for the window
  that is connected now.
\<close>

definition authorised :: "account option \<Rightarrow> gui_token \<Rightarrow> gui \<Rightarrow> bool" where
  "authorised bound tk g \<longleftrightarrow>
     fst (fst (probe_binding g)) \<and> g_generation g = tk_window tk \<and> tk_seller tk \<noteq> []
   \<and> (let a = \<lparr>ac_seller = tk_seller tk, ac_data_dir = tk_data_dir tk, ac_epoch = tk_epoch tk\<rparr>
      in case bound of
           Some b \<Rightarrow> b = a
         | None \<Rightarrow> g_account g = Some a \<and> py_strip (fst (g_config g)) = tk_seller tk
             \<and> py_strip (snd (g_config g)) = tk_data_dir tk)"

lemma authorised_jobs_only:
  assumes "jobs_only g h"
  shows "authorised b tk h = authorised b tk g"
proof -
  obtain js u where h: "h = g\<lparr>g_jobs := js, g_uncertain := u\<rparr>"
    using assms by (auto simp: jobs_only_def)
  show ?thesis
    by (simp add: h authorised_def probe_binding_def Let_def split: sum.splits option.splits)
qed

lemma require_context_frame [simp]:
  "snd (require_context b f e g) = snd (get_account_context b f g)"
  by (simp add: require_context_def split_beta)

lemma validate_token_frame [simp]:
  "g_posts (snd (validate_token b f tk g)) = g_posts g"
  "g_token (snd (validate_token b f tk g)) = g_token g"
  by (simp_all add: validate_token_def status_locked_def split_beta)

lemma validate_token_passed:
  assumes "validate_token b f tk g = (Inr (), g')"
  shows "authorised b tk g'" "g' = snd (get_account_context b f g)" "g_tasker g \<noteq> None"
proof -
  obtain c d g1 where p: "probe_binding g = ((c, d), g1)" by (metis surj_pair)
  define a where "a = fst (get_account_context b f g1)"
  have a: "get_account_context b f g1 = (a, g')"
    and same: "ac_seller a = tk_seller tk" "ac_data_dir a = tk_data_dir tk" "ac_epoch a = tk_epoch tk"
      "ac_seller a \<noteq> []" and win: "tk_window tk = g_generation g1" and c: "c"
    using assms
    by (auto simp: validate_token_def status_locked_def p require_context_def and_then_Inr_iff
      split_beta raise_if_def a_def split: if_splits)
  have g1: "g1 = g" using probe_connectedD(1)[of g d g1] p c by simp
  show "g_tasker g \<noteq> None" using probe_connectedD(2)[of g d g1] p c by simp
  show "g' = snd (get_account_context b f g)" using a g1 by simp
  then have "g_generation g' = g_generation g" "probe_binding g' = ((True, d), g')"
    using p c g1 by simp_all
  moreover have "a = \<lparr>ac_seller = tk_seller tk, ac_data_dir = tk_data_dir tk, ac_epoch = tk_epoch tk\<rparr>"
    using same by simp
  moreover have "tk_seller tk \<noteq> []" using same by simp
  moreover have "a = fst (get_account_context b f g)" "g' = snd (get_account_context b f g)"
    using a g1 by simp_all
  ultimately show "authorised b tk g'"
    using win g1
    by (cases b) (auto simp: authorised_def get_account_context_def Let_def split: option.splits if_splits)
qed

lemma post_task_posts [simp]:
  "g_posts (snd (post_task entry override nv g)) = g_posts g @ [(entry, override)]"
  by (simp add: post_task_def)

lemma init_failed_posts [simp]: "g_posts (snd (init_failed e g)) = g_posts g"
  by (simp add: init_failed_def)

lemma native_step_posts:
  "(\<And>h. g_posts (snd (rest h)) = g_posts h) \<Longrightarrow> g_posts (snd (native_step nv m rest g)) = g_posts g"
  using native_frame(3)[of nv g] by (simp add: native_step_def split_beta split: sum.splits)

lemma ensure_init_posts [simp]: "g_posts (snd (ensure_init cn g)) = g_posts g"
proof -
  have "g_posts (snd (bind_window cn w h)) = g_posts h" for w h by (simp add: bind_window_def)
  then show ?thesis by (simp add: ensure_init_def native_step_posts split: sum.splits)
qed

lemma jobs_only_post_task:
  "jobs_only (g\<lparr>g_posts := g_posts g @ [(entry, override)]\<rparr>) (snd (post_task entry override nv g))"
  by (simp add: post_task_def)

lemma authorised_posts [simp]: "authorised b tk (g\<lparr>g_posts := ps\<rparr>) = authorised b tk g"
  by (simp add: authorised_def probe_binding_def Let_def split: sum.splits option.splits)

lemma authorised_post_task [simp]: "authorised b tk (snd (post_task e ov nv g)) = authorised b tk g"
  using authorised_jobs_only[OF jobs_only_post_task] by simp

lemma authorised_wait [simp]: "authorised b tk (snd (wait_native nv j g)) = authorised b tk g"
  by (rule authorised_jobs_only) simp

lemma post_and_wait_posts [simp]:
  "g_posts (snd (post_and_wait entry override nv g)) = g_posts g @ [(entry, override)]"
  by (simp add: post_and_wait_def split_beta split: sum.splits)

lemma authorised_post_and_wait [simp]:
  "authorised b tk (snd (post_and_wait entry override nv g)) = authorised b tk g"
  by (simp add: post_and_wait_def split_beta split: sum.splits)

lemma node_guard_posts [simp]: "g_posts (snd (node_guard b f entry override cn g)) = g_posts g"
  by (simp add: node_guard_def split_beta split: option.splits)

lemma node_guard_passed:
  assumes "node_guard b f entry override cn g = (None, g')"
  shows "g_token g = None \<and> entry \<in> set read_only_entries \<and> \<not> truthy override
    \<or> (\<exists>tk. g_token g = Some tk \<and> authorised b tk g')"
proof (cases "g_token g")
  case None
  then show ?thesis using assms by (simp add: node_guard_def split: if_splits)
next
  case (Some tk)
  then have "validate_token b f tk g = (Inr (), g')"
    using assms by (auto simp: node_guard_def split_beta split: sum.splits intro: prod_eqI)
  then show ?thesis using Some validate_token_passed(1) by blast
qed

section \<open>Sessions over time\<close>

text \<open>
  The events that move the state: another selection, an invalidation, a change on the desktop or of
  the native connection (not under the program's control), a status poll, a connection, an initialization
  on demand, and reading the selection. Each draws identifiers that were never used before;
  the ghost list \<open>used\<close> holds the ones drawn so far.
\<close>

datatype gui_event =
    Selected string string
  | Invalidated
  | Desktop_Changed "window list"
  | Connection_Changed bool bool
  | Polled
  | Connected connection
  | Initialized connection
  | Selection_Read

fun gui_exec :: "string \<Rightarrow> gui_event \<Rightarrow> gui \<Rightarrow> gui" where
  "gui_exec fresh (Selected seller data_dir) g = g\<lparr>g_config := (seller, data_dir)\<rparr>"
| "gui_exec fresh Invalidated g = snd (invalidate_account_context None fresh g)"
| "gui_exec fresh (Desktop_Changed ws) g = g\<lparr>g_windows := ws\<rparr>"
| "gui_exec fresh (Connection_Changed inited conn) g =
     g\<lparr>g_tasker := map_option (\<lambda>_. \<lparr>ts_inited = inited, ts_connected = conn\<rparr>) (g_tasker g)\<rparr>"
| "gui_exec fresh Polled g = snd (status_locked g)"
| "gui_exec fresh (Connected cn) g = snd (connect_client cn fresh g)"
| "gui_exec fresh (Initialized cn) g = snd (ensure_init cn g)"
| "gui_exec fresh Selection_Read g = snd (get_account_context None fresh g)"

fun drawn :: "gui_event \<Rightarrow> string list" where
  "drawn (Connected cn) = [cn_fresh cn]"
| "drawn (Initialized cn) = [cn_fresh cn]"
| "drawn _ = []"

inductive gui_step :: "string list \<times> gui \<Rightarrow> string list \<times> gui \<Rightarrow> bool" where
  gui_event: "fresh \<notin> set used \<Longrightarrow> fresh \<noteq> [] \<Longrightarrow> (\<forall>i \<in> set (drawn e). i \<notin> set used \<and> i \<noteq> []) \<Longrightarrow>
     gui_step (used, g) (fresh # drawn e @ used, gui_exec fresh e g)"

text \<open>What is in use was drawn; a later state can share an epoch or a window with an earlier one only when
  nothing was drawn for it in between.\<close>

definition gui_inv :: "string list \<times> gui \<Rightarrow> bool" where
  "gui_inv s \<longleftrightarrow>
     (\<forall>a. g_account (snd s) = Some a \<longrightarrow> ac_epoch a \<in> set (fst s))
   \<and> (g_generation (snd s) = [] \<or> g_generation (snd s) \<in> set (fst s))
   \<and> (g_tasker (snd s) \<noteq> None \<longrightarrow> g_generation (snd s) \<noteq> [])"

definition gui_rel :: "string list \<times> gui \<Rightarrow> string list \<times> gui \<Rightarrow> bool" where
  "gui_rel s t \<longleftrightarrow> set (fst s) \<subseteq> set (fst t)
   \<and> (\<forall>a. g_account (snd t) = Some a \<and> ac_epoch a \<in> set (fst s) \<longrightarrow> g_account (snd s) = Some a)
   \<and> (g_generation (snd t) \<in> set (fst s) \<and> g_generation (snd t) \<noteq> [] \<longrightarrow>
        g_generation (snd s) = g_generation (snd t))"

text \<open>How each part of the state moves in one event.\<close>

definition account_moves :: "string list \<Rightarrow> gui \<Rightarrow> gui \<Rightarrow> bool" where
  "account_moves ids g h \<longleftrightarrow>
     g_account h = g_account g \<or> g_account h = None
   \<or> (\<exists>a. g_account h = Some a \<and> ac_epoch a \<in> set ids)"

definition window_moves :: "string list \<Rightarrow> gui \<Rightarrow> gui \<Rightarrow> bool" where
  "window_moves ids g h \<longleftrightarrow>
     (g_generation h = g_generation g \<and> (g_tasker h \<noteq> None \<longrightarrow> g_tasker g \<noteq> None))
   \<or> (g_generation h = [] \<and> g_tasker h = None)
   \<or> (g_generation h \<in> set ids \<and> g_generation h \<noteq> [])"

lemma moves_keep:
  assumes "account_moves ids g h" "window_moves ids g h" "set ids \<inter> set used = {}" "gui_inv (used, g)"
  shows "gui_inv (ids @ used, h)" "gui_rel (used, g) (ids @ used, h)"
  using assms by (auto simp: gui_inv_def gui_rel_def account_moves_def window_moves_def)

lemma native_succeeds_parts [simp]:
  "g_account (snd (native_succeeds nv g)) = g_account g"
  "g_generation (snd (native_succeeds nv g)) = g_generation g"
  "g_tasker (snd (native_succeeds nv g)) = g_tasker g"
  using jobs_only_succeeds[of g nv] by (auto simp: jobs_only_def dest: arg_cong[where f = g_account]
    arg_cong[where f = g_generation] arg_cong[where f = g_tasker])

lemma native_step_parts:
  assumes "\<And>h. P h \<Longrightarrow> Q (snd (rest h))" "\<And>h. P h \<Longrightarrow> Q (reset_binding h)" "P (snd (native_succeeds nv g))"
  shows "Q (snd (native_step nv m rest g))"
  using assms by (auto simp: native_step_def init_failed_def split_beta split: sum.splits)

lemma ensure_init_moves:
  assumes "cn_fresh cn \<noteq> []"
  shows "account_moves ids g (snd (ensure_init cn g)) \<and> window_moves [cn_fresh cn] g (snd (ensure_init cn g))"
proof -
  let ?P = "\<lambda>h. g_account h = g_account g"
  let ?Q = "\<lambda>h. account_moves ids g h \<and> window_moves [cn_fresh cn] g h"
  have reset: "?P h \<Longrightarrow> ?Q (reset_binding h)" for h
    by (simp add: account_moves_def window_moves_def)
  have bind: "?P h \<Longrightarrow> ?Q (snd (bind_window cn w h))" for h w
    using assms reset[of h]
    by (simp add: bind_window_def init_failed_def account_moves_def window_moves_def)
  have "?P h \<Longrightarrow> ?Q (snd (native_step (cn_bundle cn) m (bind_window cn w) h))" for h m w
    by (rule native_step_parts[where P = ?P and Q = ?Q]) (simp_all add: bind reset)
  then have "?Q (snd (native_step (cn_connect cn) m' (native_step (cn_bundle cn) m (bind_window cn w))
      (reset_binding g)))" for m m' w
    by (rule native_step_parts[where P = ?P and Q = ?Q]) (simp_all add: reset)
  moreover have "?Q g" by (simp add: account_moves_def window_moves_def)
  ultimately show ?thesis
    using reset[of g] by (simp add: ensure_init_def init_failed_def split: sum.splits)
qed

lemma probe_moves: "account_moves ids g (snd (probe_binding g)) \<and> window_moves ids g (snd (probe_binding g))"
  using probe_binding_cases[of g] by (auto simp: account_moves_def window_moves_def)

lemma get_account_moves: "account_moves [fresh] g (snd (get_account_context None fresh g))"
  by (auto simp: get_account_context_def account_moves_def Let_def split: option.splits)

lemma moves_mono:
  "account_moves ids g h \<Longrightarrow> set ids \<subseteq> set ids' \<Longrightarrow> account_moves ids' g h"
  "window_moves ids g h \<Longrightarrow> set ids \<subseteq> set ids' \<Longrightarrow> window_moves ids' g h"
  by (auto simp: account_moves_def window_moves_def)

lemma connect_client_moves:
  assumes "fresh \<noteq> []" "cn_fresh cn \<noteq> []"
  shows "account_moves [fresh, cn_fresh cn] g (snd (connect_client cn fresh g))
    \<and> window_moves [fresh, cn_fresh cn] g (snd (connect_client cn fresh g))"
proof -
  obtain r g1 where e: "ensure_init cn g = (r, g1)" by (metis surj_pair)
  have m: "account_moves [fresh, cn_fresh cn] g g1" "window_moves [fresh, cn_fresh cn] g g1"
    using ensure_init_moves[OF assms(2), of "[fresh, cn_fresh cn]" g] e
    by (auto intro: moves_mono(2)[of "[cn_fresh cn]"])
  show ?thesis
  proof (cases r)
    case None
    let ?h = "g1\<lparr>g_generation := fresh\<rparr>"
    have "snd (connect_client cn fresh g) = snd (probe_binding ?h)"
      by (simp add: connect_client_def e None status_locked_def split_beta)
    then show ?thesis
      using m probe_binding_cases[of ?h] assms(1)
      by (auto simp: account_moves_def window_moves_def)
  qed (simp add: connect_client_def e m)
qed

lemma gui_exec_moves:
  assumes "fresh \<noteq> []" "\<forall>i \<in> set (drawn e). i \<noteq> []"
  shows "account_moves (fresh # drawn e) g (gui_exec fresh e g)
    \<and> window_moves (fresh # drawn e) g (gui_exec fresh e g)"
proof (cases e)
  case Invalidated
  then show ?thesis
    using get_account_moves[of fresh "g\<lparr>g_account := None\<rparr>"]
    by (auto simp: invalidate_account_context_def account_moves_def window_moves_def)
next
  case (Connected cn)
  then show ?thesis using connect_client_moves assms by simp
next
  case (Initialized cn)
  then show ?thesis
    using ensure_init_moves[of cn "[fresh, cn_fresh cn]" g] assms by (auto intro: moves_mono(2))
next
  case Polled
  then show ?thesis using probe_moves by (simp add: status_locked_def split_beta)
next
  case Selection_Read
  then show ?thesis using get_account_moves by (simp add: window_moves_def)
qed (simp_all add: account_moves_def window_moves_def)

lemma gui_step_keeps:
  assumes "gui_step s t" "gui_inv s"
  shows "gui_inv t" "gui_rel s t"
proof -
  from assms(1) obtain fresh used e g where s: "s = (used, g)"
    and t: "t = ((fresh # drawn e) @ used, gui_exec fresh e g)"
    and new: "fresh \<notin> set used" "fresh \<noteq> []" "\<forall>i \<in> set (drawn e). i \<notin> set used \<and> i \<noteq> []"
    by (cases rule: gui_step.cases) simp
  have "account_moves (fresh # drawn e) g (gui_exec fresh e g)"
    "window_moves (fresh # drawn e) g (gui_exec fresh e g)"
    using gui_exec_moves[of fresh e g] new by auto
  moreover have "set (fresh # drawn e) \<inter> set used = {}" using new by auto
  ultimately show "gui_inv t" "gui_rel s t"
    using moves_keep[of "fresh # drawn e" g "gui_exec fresh e g" used] assms(2) unfolding s t by blast+
qed

lemma gui_rel_trans:
  assumes st: "gui_rel s t" and tu: "gui_rel t u"
  shows "gui_rel s u"
proof -
  have sub: "x \<in> set (fst t)" if "x \<in> set (fst s)" for x using st that by (auto simp: gui_rel_def)
  have "set (fst s) \<subseteq> set (fst u)" using st tu by (auto simp: gui_rel_def)
  moreover have "g_account (snd s) = Some a"
    if "g_account (snd u) = Some a" "ac_epoch a \<in> set (fst s)" for a
    using that st tu sub by (simp add: gui_rel_def)
  moreover have "g_generation (snd s) = g_generation (snd u)"
    if "g_generation (snd u) \<in> set (fst s)" "g_generation (snd u) \<noteq> []"
    using that st tu sub by (simp add: gui_rel_def)
  ultimately show ?thesis by (simp add: gui_rel_def)
qed

interpretation gui_sessions: tracked_system gui_step gui_inv gui_rel
proof unfold_locales
  show "gui_rel s s" for s by (simp add: gui_rel_def)
qed (erule (1) gui_step_keeps(1) gui_rel_trans gui_step_keeps(2) | rule gui_step_keeps)+

text \<open>The token belongs to the state's present account and window.\<close>

definition token_current :: "gui_token \<Rightarrow> gui \<Rightarrow> bool" where
  "token_current tk g \<longleftrightarrow> g_generation g = tk_window tk
     \<and> g_account g = Some \<lparr>ac_seller = tk_seller tk, ac_data_dir = tk_data_dir tk, ac_epoch = tk_epoch tk\<rparr>"

lemma authorised_current: "authorised None tk g \<Longrightarrow> token_current tk g"
  by (simp add: authorised_def token_current_def Let_def)

section \<open>Properties\<close>

text \<open>A connected client and a session that the witnesses use.\<close>

definition demo_native :: native where
  "demo_native = \<lparr>nv_post = Inr 7, nv_wait = Inr (Some (True, ''ok'')), nv_done = True\<rparr>"

definition demo_connection :: "string \<Rightarrow> connection" where
  "demo_connection fresh = \<lparr>cn_option = Inr True, cn_target = True, cn_connect = demo_native,
     cn_bundle = demo_native, cn_bind = True, cn_fresh = fresh\<rparr>"

definition demo_gui :: gui where
  "demo_gui = \<lparr>g_config = ('' 12 '', ''d''), g_account = None,
     g_windows = [\<lparr>w_hwnd = 5, w_class = ''Qt5QWindow'', w_name = window_title\<rparr>],
     g_tasker = None, g_hwnd = None, g_generation = [], g_token = None, g_jobs = [],
     g_uncertain = False, g_posts = []\<rparr>"

definition demo_connected :: gui where
  "demo_connected = snd (connect_client (demo_connection ''c1'') ''w1'' demo_gui)"

definition demo_token :: gui_token where
  "demo_token = \<lparr>tk_seller = ''12'', tk_data_dir = ''d'', tk_epoch = ''e1'', tk_window = ''w1''\<rparr>"

lemma demo_capture:
  "fst (capture_gui_session None ''e1'' ''e1'' demo_connected) = Inr demo_token"
  by code_simp

text \<open>
  C7: A client action is posted only under a live guard: if running a node posted anything, then it posted exactly the
  requested entry, and either it was one of the read-only diagnostics without overrides and outside a session, or the thread
  held a session token that, at that moment, matched the selected (or bound) account, its epoch and the one connected window.
\<close>

theorem gui_writes_are_guarded:
  assumes "run_node bound fresh entry override nv cn g = (r, g')" and "g_posts g' \<noteq> g_posts g"
  shows "g_posts g' = g_posts g @ [(entry, override)]
    \<and> (g_token g = None \<and> entry \<in> set read_only_entries \<and> \<not> truthy override
       \<or> (\<exists>tk. g_token g = Some tk \<and> authorised bound tk g'))"
proof -
  obtain refused g1 where n: "node_guard bound fresh entry override cn g = (refused, g1)"
    by (metis surj_pair)
  have same: "g_posts g1 = g_posts g" using node_guard_posts[of bound fresh entry override cn g] n by simp
  then have refused: "refused = None" using assms n by (cases refused) (auto simp: run_node_def)
  then have "g' = snd (post_and_wait entry override nv g1)" using assms(1) n by (simp add: run_node_def)
  then show ?thesis using node_guard_passed[OF n[unfolded refused]] same by auto
qed

theorem gui_writes_are_guarded_witness:
  "\<exists>g'. g_posts g' = [(''ContactSearch'', goto_contact_override ''bob'')] \<and> authorised None demo_token g'"
proof -
  let ?g = "(snd (get_account_context None ''e1'' demo_connected))\<lparr>g_token := Some demo_token\<rparr>"
  let ?run = "run_node None ''x'' ''ContactSearch'' (goto_contact_override ''bob'') demo_native
    (demo_connection ''c2'') ?g"
  have "g_posts (snd ?run) = [(''ContactSearch'', goto_contact_override ''bob'')]"
    "g_posts ?g = []" "g_token ?g = Some demo_token"
    by code_simp+
  then show ?thesis
    using gui_writes_are_guarded[of None "''x''" "''ContactSearch''" "goto_contact_override ''bob''" demo_native
        "demo_connection ''c2''" ?g "fst ?run" "snd ?run"]
    by auto
qed

text \<open>
  C8: An expired session never comes back: once a token that was issued no longer matches the selected account and window,
  then after any further selections, invalidations, desktop changes, polls and connections, validating it still raises.
\<close>

theorem expired_session_stays_expired:
  assumes "gui_step\<^sup>*\<^sup>* (used, g) (used', g')" and "gui_inv (used, g)"
    and "tk_epoch tk \<in> set used" and "tk_window tk \<in> set used" and "\<not> token_current tk g"
    and "fresh \<notin> set used'"
  shows "\<exists>e. fst (validate_token None fresh tk g') = Inl e"
proof (rule ccontr)
  assume "\<nexists>e. fst (validate_token None fresh tk g') = Inl e"
  then obtain h where v: "validate_token None fresh tk g' = (Inr (), h)"
    by (cases "validate_token None fresh tk g'"; cases "fst (validate_token None fresh tk g')") auto
  note passed = validate_token_passed[OF v]
  have inv: "gui_inv (used', g')" and rel: "gui_rel (used, g) (used', g')"
    using gui_sessions.steps_inv[OF assms(1,2)] gui_sessions.steps_rel[OF assms(1,2)] .
  have now: "token_current tk h" by (rule authorised_current[OF passed(1)])
  have "fresh \<noteq> tk_epoch tk" using rel assms(3,6) by (auto simp: gui_rel_def)
  then have "g_account g' = g_account h"
    using get_account_moves[of fresh g'] now passed(2) by (auto simp: account_moves_def token_current_def)
  moreover have "g_generation g' = g_generation h" using passed(2) by simp
  moreover have "g_generation g' \<noteq> []" using inv passed(3) by (simp add: gui_inv_def)
  ultimately show False using rel now assms(3-5) by (simp add: gui_rel_def token_current_def)
qed

theorem expired_session_stays_expired_witness:
  "\<exists>e. fst (validate_token None ''z'' demo_token
     (gui_exec ''e3'' Selection_Read (gui_exec ''e2'' Invalidated demo_connected))) = Inl e"
proof -
  let ?g0 = "snd (get_account_context None ''e1'' demo_connected)"
  let ?g1 = "gui_exec ''e2'' Invalidated demo_connected"
  let ?u = "[''e2'', ''e1'', ''w1'', ''c1'']"
  have step: "gui_step (?u, ?g1) (''e3'' # ?u, gui_exec ''e3'' Selection_Read ?g1)"
    using gui_event[of "''e3''" ?u Selection_Read ?g1] by simp
  have account: "g_account ?g1 = Some \<lparr>ac_seller = ''12'', ac_data_dir = ''d'', ac_epoch = ''e2''\<rparr>"
    and generation: "g_generation ?g1 = ''w1''"
    by code_simp+
  then have "gui_inv (?u, ?g1)" "\<not> token_current demo_token ?g1"
    by (auto simp: gui_inv_def token_current_def demo_token_def)
  then show ?thesis
    using expired_session_stays_expired[OF r_into_rtranclp[of gui_step, OF step], of demo_token "''z''"]
    by (simp add: demo_token_def)
qed

end
