(* ===== verification/Task_Queue.thy ===== *)
theory Task_Queue
  imports Py_Prelude
begin

text \<open>
  The background queue of \<^verbatim>\<open>app/task_queue.py\<close>: one queue and one worker thread per name. The
  lock makes each operation below one step; \<open>worker_take\<close> and \<open>worker_finish\<close> are the two critical
  sections of the worker's loop, with the job itself, which runs without the lock, between them. A job is a value of the type
  \<open>'j\<close>; what running it gives is an input of \<open>worker_finish\<close>. Log events and log contexts are left out.
\<close>

section \<open>Requests and queues\<close>

datatype qstatus = QPending | QRunning | QSucceeded | QFailed

record 'j request =
  q_id :: string
  q_fn :: 'j
  q_description :: string
  q_status :: qstatus
  q_message :: string
  q_result :: "(bool \<times> string) option"
  q_created :: pytime
  q_started :: "pytime option"
  q_completed :: "pytime option"

record 'j tqueue =
  tq_requests :: "(string \<times> 'j request) list"
  tq_queue :: "string list"
  tq_closing :: bool
  tq_alive :: bool
  tq_running :: "string option"
  tq_current_started :: "pytime option"
  tq_last_completed :: "pytime option"

definition task_queue_maxsize :: nat where
  "task_queue_maxsize = 500"

definition task_retention :: rat where
  "task_retention = 3600"

definition new_queue :: "'j tqueue" where
  "new_queue = \<lparr>tq_requests = [], tq_queue = [], tq_closing = False, tq_alive = True, tq_running = None,
     tq_current_started = None, tq_last_completed = None\<rparr>"

text \<open>\<^verbatim>\<open>_evict_locked\<close>: forgets the requests completed more than an hour ago.\<close>

definition expired_request :: "pytime \<Rightarrow> 'j request \<Rightarrow> bool" where
  "expired_request now r = (case q_completed r of Some c \<Rightarrow> now - c > task_retention | None \<Rightarrow> False)"

definition evict :: "pytime \<Rightarrow> 'j tqueue \<Rightarrow> 'j tqueue" where
  "evict now q = q\<lparr>tq_requests := filter (\<lambda>(i, r). \<not> expired_request now r) (tq_requests q)\<rparr>"

definition new_request :: "string \<Rightarrow> 'j \<Rightarrow> string \<Rightarrow> pytime \<Rightarrow> 'j request" where
  "new_request fresh fn description now =
     \<lparr>q_id = fresh, q_fn = fn, q_description = description, q_status = QPending,
      q_message = ''waiting'', q_result = None, q_created = now, q_started = None, q_completed = None\<rparr>"

definition enqueue :: "'j \<Rightarrow> string \<Rightarrow> pytime \<Rightarrow> string \<Rightarrow> 'j tqueue \<Rightarrow> 'j request result \<times> 'j tqueue" where
  "enqueue fn description now fresh q =
     (if tq_closing q then (Inl (Runtime_Error ''queue is closing''), q)
      else
        (let q1 = evict now q in
         if task_queue_maxsize \<le> length (tq_queue q1)
         then (Inl (Overflow_Error ''queue is full''), q1)
         else
           (let r = new_request fresh fn description now
            in (Inr r, q1\<lparr>tq_requests := alist_put fresh r (tq_requests q1),
                          tq_queue := tq_queue q1 @ [fresh]\<rparr>))))"

definition get_request :: "string \<Rightarrow> 'j tqueue \<Rightarrow> 'j request option" where
  "get_request i q = map_of (tq_requests q) i"

definition all_snapshots :: "pytime \<Rightarrow> 'j tqueue \<Rightarrow> 'j request list \<times> 'j tqueue" where
  "all_snapshots now q = (let q1 = evict now q in (map snd (tq_requests q1), q1))"

section \<open>The worker\<close>

text \<open>
  The first critical section of the loop: an idle worker waits (None) while there is nothing to do, returns when the
  empty queue is closing, and otherwise takes the oldest identifier; one without a request is skipped.
\<close>

definition set_request :: "string \<Rightarrow> ('j request \<Rightarrow> 'j request) \<Rightarrow> 'j tqueue \<Rightarrow> 'j tqueue" where
  "set_request i f q = q\<lparr>tq_requests := update_rows (\<lambda>kv. fst kv = i) (apsnd f) (tq_requests q)\<rparr>"

definition worker_take :: "pytime \<Rightarrow> 'j tqueue \<Rightarrow> 'j option \<times> 'j tqueue" where
  "worker_take now q =
     (if \<not> tq_alive q \<or> tq_running q \<noteq> None then (None, q)
      else case tq_queue q of
             [] \<Rightarrow> (None, if tq_closing q then q\<lparr>tq_alive := False\<rparr> else q)
           | i # rest \<Rightarrow>
               (case map_of (tq_requests q) i of
                  None \<Rightarrow> (None, q\<lparr>tq_queue := rest\<rparr>)
                | Some r \<Rightarrow> (Some (q_fn r),
                    (set_request i (\<lambda>r. r\<lparr>q_status := QRunning, q_message := ''running'', q_started := Some now\<rparr>) q)
                      \<lparr>tq_queue := rest, tq_running := Some i, tq_current_started := Some now\<rparr>)))"

text \<open>What the job gave, an exception counting as a failure with its text; and the second critical section.\<close>

definition job_result :: "(bool \<times> string) result \<Rightarrow> bool \<times> string" where
  "job_result r = (case r of Inl e \<Rightarrow> (False, err_text e) | Inr v \<Rightarrow> v)"

definition finished_request :: "bool \<times> string \<Rightarrow> pytime \<Rightarrow> 'j request \<Rightarrow> 'j request" where
  "finished_request res now r = r\<lparr>q_result := Some res, q_completed := Some now,
     q_status := (if fst res then QSucceeded else QFailed),
     q_message := (if snd res \<noteq> [] then snd res else if fst res then ''succeeded'' else ''failed'')\<rparr>"

definition worker_finish :: "(bool \<times> string) result \<Rightarrow> pytime \<Rightarrow> 'j tqueue \<Rightarrow> 'j tqueue" where
  "worker_finish outcome now q =
     (case tq_running q of
        None \<Rightarrow> q
      | Some i \<Rightarrow> (set_request i (finished_request (job_result outcome) now) q)
          \<lparr>tq_running := None, tq_current_started := None, tq_last_completed := Some now\<rparr>)"

text \<open>
  \<^verbatim>\<open>shutdown\<close>: closing is announced, the worker is joined for a while, and a worker that is
  still alive then is an error that leaves the queue in place.
\<close>

definition shutdown_begin :: "'j tqueue \<Rightarrow> 'j tqueue" where
  "shutdown_begin q = q\<lparr>tq_closing := True\<rparr>"

definition shutdown_end :: "'j tqueue \<Rightarrow> unit result" where
  "shutdown_end q = raise_if (tq_alive q) (Runtime_Error ''queue has not stopped'')"

section \<open>Named queues\<close>

type_synonym 'j queues = "(string \<times> 'j tqueue) list"

definition default_queue_name :: string where "default_queue_name = ''maafw''"

definition translation_queue_name :: string where "translation_queue_name = ''translation''"

definition queue_named :: "string \<Rightarrow> 'j queues \<Rightarrow> 'j tqueue \<times> 'j queues" where
  "queue_named n qs =
     (case map_of qs n of Some q \<Rightarrow> (q, qs) | None \<Rightarrow> (new_queue, alist_put n new_queue qs))"

record queue_observation =
  qo_initialized :: bool
  qo_alive :: bool
  qo_pending :: nat
  qo_current_started :: "pytime option"
  qo_last_completed :: "pytime option"

definition observations :: "string \<Rightarrow> 'j queues \<Rightarrow> queue_observation" where
  "observations n qs =
     (case map_of qs n of
        None \<Rightarrow> \<lparr>qo_initialized = False, qo_alive = False, qo_pending = 0,
                 qo_current_started = None, qo_last_completed = None\<rparr>
      | Some q \<Rightarrow> \<lparr>qo_initialized = True, qo_alive = tq_alive q, qo_pending = length (tq_queue q),
                 qo_current_started = tq_current_started q, qo_last_completed = tq_last_completed q\<rparr>)"

definition observe_task_queues :: "'j queues \<Rightarrow> (string \<times> queue_observation) list" where
  "observe_task_queues qs =
     map (\<lambda>n. (n, observations n qs))
       (dedup (default_queue_name # translation_queue_name # map fst qs))"

text \<open>\<^verbatim>\<open>shutdown_task_queue\<close> after the joins: a queue whose worker returned is released.\<close>

definition release_stopped :: "'j queues \<Rightarrow> 'j queues" where
  "release_stopped qs = filter (\<lambda>(n, q). shutdown_end q \<noteq> Inr ()) qs"

section \<open>Runs\<close>

text \<open>
  The events of one queue, and a log beside the state: the identifiers accepted, the ones started and
  the ones finished, each in the order of the events.
\<close>

datatype 'j qevent =
    Q_Enqueue 'j string pytime string
  | Q_Snapshots pytime
  | Q_Take pytime
  | Q_Finish "(bool \<times> string) result" pytime
  | Q_Shutdown

record qlog =
  lg_accepted :: "string list"
  lg_started :: "string list"
  lg_finished :: "string list"

fun q_exec :: "'j qevent \<Rightarrow> 'j tqueue \<Rightarrow> 'j tqueue" where
  "q_exec (Q_Enqueue fn d now fresh) q = snd (enqueue fn d now fresh q)"
| "q_exec (Q_Snapshots now) q = snd (all_snapshots now q)"
| "q_exec (Q_Take now) q = snd (worker_take now q)"
| "q_exec (Q_Finish r now) q = worker_finish r now q"
| "q_exec Q_Shutdown q = shutdown_begin q"

fun q_log :: "'j qevent \<Rightarrow> 'j tqueue \<Rightarrow> qlog \<Rightarrow> qlog" where
  "q_log (Q_Enqueue fn d now fresh) q l =
     (case fst (enqueue fn d now fresh q) of
        Inr r \<Rightarrow> l\<lparr>lg_accepted := lg_accepted l @ [q_id r]\<rparr> | Inl _ \<Rightarrow> l)"
| "q_log (Q_Take now) q l =
     (case fst (worker_take now q) of
        Some _ \<Rightarrow> l\<lparr>lg_started := lg_started l @ take 1 (tq_queue q)\<rparr> | None \<Rightarrow> l)"
| "q_log (Q_Finish r now) q l =
     (case tq_running q of Some i \<Rightarrow> l\<lparr>lg_finished := lg_finished l @ [i]\<rparr> | None \<Rightarrow> l)"
| "q_log _ q l = l"

definition fresh_event :: "'j qevent \<Rightarrow> qlog \<Rightarrow> bool" where
  "fresh_event e l = (case e of Q_Enqueue _ _ _ i \<Rightarrow> i \<notin> set (lg_accepted l) | _ \<Rightarrow> True)"

inductive q_step :: "'j tqueue \<times> qlog \<Rightarrow> 'j tqueue \<times> qlog \<Rightarrow> bool" where
  q_event: "fresh_event e l \<Longrightarrow> q_step (q, l) (q_exec e q, q_log e q l)"

definition empty_log :: qlog where
  "empty_log = \<lparr>lg_accepted = [], lg_started = [], lg_finished = []\<rparr>"

section \<open>The invariant\<close>

text \<open>Every accepted job is finished, running or queued, in this order, and its request is there until it is finished.\<close>

definition has_request :: "'j tqueue \<Rightarrow> qstatus \<Rightarrow> string \<Rightarrow> bool" where
  "has_request q st i \<longleftrightarrow>
     (\<exists>r. map_of (tq_requests q) i = Some r \<and> q_status r = st \<and> q_completed r = None)"

definition q_inv :: "'j tqueue \<times> qlog \<Rightarrow> bool" where
  "q_inv s = (case s of (q, l) \<Rightarrow>
     distinct (lg_accepted l)
   \<and> lg_accepted l = lg_started l @ tq_queue q
   \<and> lg_started l = lg_finished l @ (case tq_running q of None \<Rightarrow> [] | Some i \<Rightarrow> [i])
   \<and> (\<forall>i \<in> set (tq_queue q). has_request q QPending i)
   \<and> (\<forall>i. tq_running q = Some i \<longrightarrow> has_request q QRunning i)
   \<and> length (tq_queue q) \<le> task_queue_maxsize
   \<and> (\<not> tq_alive q \<longrightarrow> tq_closing q \<and> tq_queue q = [] \<and> tq_running q = None))"

text \<open>Later states keep the logs as prefixes: what was accepted, started or finished stays so.\<close>

definition q_rel :: "'j tqueue \<times> qlog \<Rightarrow> 'j tqueue \<times> qlog \<Rightarrow> bool" where
  "q_rel s t \<longleftrightarrow>
     (\<exists>a b c. lg_accepted (snd t) = lg_accepted (snd s) @ a \<and> lg_started (snd t) = lg_started (snd s) @ b
        \<and> lg_finished (snd t) = lg_finished (snd s) @ c)
   \<and> (tq_closing (fst s) \<longrightarrow> tq_closing (fst t) \<and> lg_accepted (snd t) = lg_accepted (snd s))"

lemma map_of_filter_keep:
  "map_of d k = Some v \<Longrightarrow> P (k, v) \<Longrightarrow> map_of (filter P d) k = Some v"
  by (induction d) auto

lemma map_of_update_rows:
  "map_of (update_rows (\<lambda>kv. fst kv = i) (apsnd f) d) k =
     (if k = i then map_option f (map_of d k) else map_of d k)"
  by (induction d) auto

lemma has_request_evict [simp]: "has_request q st i \<Longrightarrow> has_request (evict now q) st i"
  by (auto simp: has_request_def evict_def expired_request_def intro!: map_of_filter_keep)

lemma evict_frame [simp]:
  "tq_queue (evict now q) = tq_queue q" "tq_running (evict now q) = tq_running q"
  "tq_closing (evict now q) = tq_closing q" "tq_alive (evict now q) = tq_alive q"
  by (simp_all add: evict_def)

lemma set_request_frame [simp]:
  "tq_queue (set_request i f q) = tq_queue q" "tq_running (set_request i f q) = tq_running q"
  "tq_closing (set_request i f q) = tq_closing q" "tq_alive (set_request i f q) = tq_alive q"
  by (simp_all add: set_request_def)

lemma has_request_cong: "tq_requests p = tq_requests q \<Longrightarrow> has_request p st i = has_request q st i"
  by (simp add: has_request_def)

lemma has_request_other: "i \<noteq> k \<Longrightarrow> has_request (set_request k f q) st i = has_request q st i"
  by (simp add: has_request_def set_request_def map_of_update_rows)

lemma enqueue_accepted:
  assumes "enqueue fn d now fresh q = (Inr r, q')"
  shows "\<not> tq_closing q" "length (tq_queue q) < task_queue_maxsize" "q_id r = fresh"
    "q' = (evict now q)\<lparr>tq_requests := alist_put fresh (new_request fresh fn d now) (tq_requests (evict now q)),
       tq_queue := tq_queue q @ [fresh]\<rparr>"
  using assms by (auto simp: enqueue_def Let_def new_request_def split: if_splits)

lemma enqueue_refused:
  assumes "enqueue fn d now fresh q = (Inl e, q')"
  shows "q' = q \<or> q' = evict now q"
  using assms by (auto simp: enqueue_def Let_def split: if_splits)

lemma q_inv_evict: "q_inv (q, l) \<Longrightarrow> q_inv (evict now q, l)"
  by (auto simp: q_inv_def)

lemma q_inv_enqueue:
  assumes inv: "q_inv (q, l)" and e: "enqueue fn d now fresh q = (Inr r, q')"
    and new: "fresh \<notin> set (lg_accepted l)"
  shows "q_inv (q', l\<lparr>lg_accepted := lg_accepted l @ [q_id r]\<rparr>)"
proof -
  note acc = enqueue_accepted[OF e]
  have keep: "has_request q' st i" if "has_request q st i" "i \<noteq> fresh" for st i
    using has_request_evict[OF that(1), of now] that(2) by (simp add: has_request_def acc(4))
  have pending: "has_request q' QPending fresh"
    by (simp add: has_request_def acc(4) new_request_def)
  have alive: "tq_alive q" using inv acc(1) by (auto simp: q_inv_def)
  have "tq_queue q' = tq_queue q @ [fresh]" "tq_running q' = tq_running q" "tq_alive q' = tq_alive q"
    by (simp_all add: acc(4))
  then show ?thesis
    using inv acc(1-3) new keep pending alive
    by (auto simp: q_inv_def split: option.splits)
qed

text \<open>The first section of the worker, when it starts a job.\<close>

lemma worker_take_started:
  assumes "worker_take now q = (Some fn, q')"
  obtains i rest r where "tq_queue q = i # rest" "map_of (tq_requests q) i = Some r" "fn = q_fn r"
    "tq_running q = None" "tq_alive q"
    "q' = (set_request i (\<lambda>r. r\<lparr>q_status := QRunning, q_message := ''running'', q_started := Some now\<rparr>) q)
       \<lparr>tq_queue := rest, tq_running := Some i, tq_current_started := Some now\<rparr>"
  using assms that by (auto simp: worker_take_def split: if_splits list.splits option.splits)

lemma q_inv_take_started:
  assumes inv: "q_inv (q, l)" and w: "worker_take now q = (Some fn, q')"
  shows "q_inv (q', l\<lparr>lg_started := lg_started l @ take 1 (tq_queue q)\<rparr>)"
proof -
  obtain i rest r where i: "tq_queue q = i # rest" "map_of (tq_requests q) i = Some r"
    "tq_running q = None" "tq_alive q"
    and q': "q' = (set_request i (\<lambda>r. r\<lparr>q_status := QRunning, q_message := ''running'', q_started := Some now\<rparr>) q)
       \<lparr>tq_queue := rest, tq_running := Some i, tq_current_started := Some now\<rparr>"
    by (rule worker_take_started[OF w])
  have rest: "i \<notin> set rest" using inv i by (auto simp: q_inv_def)
  have keep: "has_request q' QPending k" if "k \<in> set rest" for k
  proof -
    have "has_request q QPending k" "k \<noteq> i" using inv i rest that by (auto simp: q_inv_def)
    then show ?thesis by (simp add: q' has_request_def set_request_def map_of_update_rows)
  qed
  have "has_request q QPending i" using inv i by (auto simp: q_inv_def)
  then have run: "has_request q' QRunning i"
    by (auto simp: q' has_request_def set_request_def map_of_update_rows)
  have "tq_queue q' = rest" "tq_running q' = Some i" "tq_alive q' = tq_alive q" by (simp_all add: q')
  then show ?thesis using inv i keep run by (auto simp: q_inv_def)
qed

lemma q_inv_take_idle:
  assumes inv: "q_inv (q, l)" and w: "worker_take now q = (None, q')"
  shows "q_inv (q', l)" "tq_closing q' = tq_closing q" "tq_queue q' = tq_queue q"
proof -
  have "has_request q QPending (hd (tq_queue q))" if "tq_queue q \<noteq> []"
    using inv that by (cases "tq_queue q") (auto simp: q_inv_def)
  then have "q' = q \<or> (tq_queue q = [] \<and> tq_closing q \<and> tq_running q = None \<and> q' = q\<lparr>tq_alive := False\<rparr>)"
    using w by (auto simp: worker_take_def has_request_def split: if_splits list.splits option.splits)
  then show "q_inv (q', l)" "tq_closing q' = tq_closing q" "tq_queue q' = tq_queue q"
    using inv by (auto simp: q_inv_def has_request_def)
qed

lemma q_inv_finish:
  assumes inv: "q_inv (q, l)" and run: "tq_running q = Some i"
  shows "q_inv (worker_finish res now q, l\<lparr>lg_finished := lg_finished l @ [i]\<rparr>)"
proof -
  let ?q = "worker_finish res now q"
  have "i \<notin> set (tq_queue q)" using inv run by (auto simp: q_inv_def)
  then have keep: "has_request ?q QPending k" if "k \<in> set (tq_queue q)" for k
    using inv that run
    by (auto simp: q_inv_def worker_finish_def has_request_def set_request_def map_of_update_rows)
  have "tq_queue ?q = tq_queue q" "tq_running ?q = None" "tq_alive ?q = tq_alive q" "tq_closing ?q = tq_closing q"
    by (simp_all add: worker_finish_def run)
  then show ?thesis using inv run keep by (auto simp: q_inv_def)
qed

lemma q_event_keeps:
  assumes inv: "q_inv (q, l)" and new: "fresh_event e l"
  shows "q_inv (q_exec e q, q_log e q l) \<and> q_rel (q, l) (q_exec e q, q_log e q l)"
proof (cases e)
  case (Q_Enqueue fn d now fresh)
  obtain r q' where e: "enqueue fn d now fresh q = (r, q')" by (metis surj_pair)
  show ?thesis
  proof (cases r)
    case (Inl x)
    have rel: "q_rel (q, l) (q', l)" if "tq_closing q' = tq_closing q" using that by (simp add: q_rel_def)
    have "q' = q \<or> q' = evict now q" using enqueue_refused[OF e[unfolded Inl]] .
    then consider "q' = q" | "q' = evict now q" by blast
    then have "q_inv (q', l) \<and> tq_closing q' = tq_closing q"
      by cases (simp_all add: inv q_inv_evict)
    then show ?thesis using rel by (simp add: Q_Enqueue e Inl)
  next
    case (Inr x)
    then show ?thesis
      using q_inv_enqueue[OF inv e[unfolded Inr]] new enqueue_accepted(1)[OF e[unfolded Inr]]
      by (simp add: Q_Enqueue e Inr q_rel_def fresh_event_def)
  qed
next
  case (Q_Snapshots now)
  then show ?thesis
    using q_inv_evict[OF inv, of now] by (simp add: all_snapshots_def Let_def q_rel_def)
next
  case (Q_Take now)
  obtain r q' where w: "worker_take now q = (r, q')" by (metis surj_pair)
  show ?thesis
  proof (cases r)
    case None
    then show ?thesis using q_inv_take_idle[OF inv w[unfolded None]] by (simp add: Q_Take w q_rel_def)
  next
    case (Some fn)
    have "tq_closing q' = tq_closing q"
      using w[unfolded Some] by (auto elim!: worker_take_started)
    then show ?thesis
      using q_inv_take_started[OF inv w[unfolded Some]] by (simp add: Q_Take w Some q_rel_def)
  qed
next
  case (Q_Finish r now)
  then show ?thesis
    using q_inv_finish[OF inv, of _ r now] inv
    by (cases "tq_running q") (auto simp: q_rel_def worker_finish_def)
next
  case Q_Shutdown
  have same: "has_request (shutdown_begin q) st i = has_request q st i" for st i
    by (simp add: shutdown_begin_def has_request_def)
  have "q_inv (shutdown_begin q, l)"
    using inv unfolding q_inv_def prod.case same by (auto simp: shutdown_begin_def)
  then show ?thesis using Q_Shutdown by (simp add: q_rel_def shutdown_begin_def)
qed

interpretation task_queue: tracked_system q_step q_inv q_rel
proof unfold_locales
  fix s t assume "q_inv s" "q_step s t"
  then show "q_inv t" using q_event_keeps by (auto elim!: q_step.cases)
next
  fix s show "q_rel s s" by (simp add: q_rel_def)
next
  fix s t u assume "q_rel s t" "q_rel t u"
  then show "q_rel s u" by (fastforce simp: q_rel_def)
next
  fix s t assume "q_inv s" "q_step s t"
  then show "q_rel s t" using q_event_keeps by (auto elim!: q_step.cases)
qed

lemma q_inv_initial: "q_inv (new_queue, empty_log)"
  by (simp add: q_inv_def new_queue_def empty_log_def)

section \<open>Properties\<close>

text \<open>
  C9: The queue runs every accepted job once and in order: in every reachable state, the accepted jobs are, in the order of
  their acceptance, first the finished ones, then the running one if there is one, then the queued ones; no job
  appears twice, and at most 500 are queued.
\<close>

theorem queue_runs_jobs_once_in_order:
  assumes "q_step\<^sup>*\<^sup>* (new_queue, empty_log) (q, l)"
  shows "lg_accepted l = lg_finished l @ (case tq_running q of None \<Rightarrow> [] | Some i \<Rightarrow> [i]) @ tq_queue q
    \<and> distinct (lg_accepted l) \<and> length (tq_queue q) \<le> 500"
  using task_queue.steps_inv[OF assms q_inv_initial] by (auto simp: q_inv_def task_queue_maxsize_def)

definition demo_events :: "nat qevent list" where
  "demo_events = [Q_Enqueue 1 ''a'' 10 ''i1'', Q_Enqueue 2 ''b'' 11 ''i2'', Q_Take 12, Q_Shutdown,
     Q_Enqueue 3 ''c'' 13 ''i3'']"

fun q_runs :: "'j qevent list \<Rightarrow> 'j tqueue \<times> qlog \<Rightarrow> 'j tqueue \<times> qlog" where
  "q_runs [] s = s"
| "q_runs (e # es) s = q_runs es (q_exec e (fst s), q_log e (fst s) (snd s))"

fun q_fresh_run :: "'j qevent list \<Rightarrow> 'j tqueue \<times> qlog \<Rightarrow> bool" where
  "q_fresh_run [] s = True"
| "q_fresh_run (e # es) s = (fresh_event e (snd s) \<and> q_fresh_run es (q_exec e (fst s), q_log e (fst s) (snd s)))"

lemma q_runs_steps: "q_fresh_run es s \<Longrightarrow> q_step\<^sup>*\<^sup>* s (q_runs es s)"
proof (induction es arbitrary: s)
  case (Cons e es)
  have "q_step s (q_exec e (fst s), q_log e (fst s) (snd s))"
    using Cons.prems q_event[of e "snd s" "fst s"] by simp
  with Cons show ?case by (auto intro: converse_rtranclp_into_rtranclp)
qed simp

theorem queue_runs_jobs_once_in_order_witness:
  "\<exists>q l. q_runs demo_events (new_queue, empty_log) = (q, l) \<and> lg_accepted l = [''i1'', ''i2'']
     \<and> lg_finished l @ (case tq_running q of None \<Rightarrow> [] | Some i \<Rightarrow> [i]) @ tq_queue q = [''i1'', ''i2'']"
proof -
  have "q_fresh_run demo_events (new_queue, empty_log)" by code_simp
  moreover have "lg_accepted (snd (q_runs demo_events (new_queue, empty_log))) = [''i1'', ''i2'']" by code_simp
  moreover obtain q l where "q_runs demo_events (new_queue, empty_log) = (q, l)" by (metis surj_pair)
  ultimately show ?thesis
    using queue_runs_jobs_once_in_order[of q l] q_runs_steps[of demo_events "(new_queue, empty_log)"] by auto
qed

text \<open>
  C10: A shutdown drains: once the queue is closing nothing more is accepted; and when the join succeeds, because the
  worker has returned, every job that was ever accepted has finished.
\<close>

theorem shutdown_drains_queue:
  assumes "q_step\<^sup>*\<^sup>* (new_queue, empty_log) (q, l)" and "q_step\<^sup>*\<^sup>* (q, l) (q', l')"
    and "tq_closing q" and "shutdown_end q' = Inr ()"
  shows "lg_accepted l' = lg_accepted l \<and> lg_finished l' = lg_accepted l'"
proof -
  have "q_inv (q, l)" using task_queue.steps_inv[OF assms(1) q_inv_initial] .
  then have "q_inv (q', l')" "q_rel (q, l) (q', l')"
    using task_queue.steps_inv[OF assms(2)] task_queue.steps_rel[OF assms(2)] by auto
  then show ?thesis using assms(3,4) by (auto simp: q_inv_def q_rel_def shutdown_end_def)
qed

definition demo_drain :: "nat qevent list" where
  "demo_drain = [Q_Finish (Inr (True, ''ok'')) 14, Q_Take 15, Q_Finish (Inl (Value_Error ''no'')) 16, Q_Take 17]"

theorem shutdown_drains_queue_witness:
  "lg_finished (snd (q_runs demo_drain (q_runs demo_events (new_queue, empty_log)))) = [''i1'', ''i2'']"
proof -
  let ?s = "q_runs demo_events (new_queue, empty_log)"
  let ?t = "q_runs demo_drain ?s"
  have fresh: "q_fresh_run demo_events (new_queue, empty_log)" "q_fresh_run demo_drain ?s"
    and ends: "tq_closing (fst ?s)" "shutdown_end (fst ?t) = Inr ()" "lg_accepted (snd ?s) = [''i1'', ''i2'']"
    by code_simp+
  have "q_step\<^sup>*\<^sup>* (new_queue, empty_log) (fst ?s, snd ?s)" "q_step\<^sup>*\<^sup>* (fst ?s, snd ?s) (fst ?t, snd ?t)"
    using q_runs_steps[OF fresh(1)] q_runs_steps[OF fresh(2)] by simp_all
  from shutdown_drains_queue[OF this ends(1,2)] show ?thesis using ends(3) by simp
qed

end
