(* ===== verification/Outbox_Service.thy ===== *)
theory Outbox_Service
  imports Outbox_Store_Props Send_Verification Gui_Session Task_Queue
begin

text \<open>
  The outbox service of \<^verbatim>\<open>shared/backend/outbox_service.py\<close>: it owns the attempts of this process, puts
  jobs into the task queue, drives the client, and settles tasks after failures and at shutdown.

  Every section that runs under the service lock is one operation on the record \<open>service\<close>. The
  worker's job runs through several of them; \<open>run\<close> says where it is in between, when the client is working and every other
  operation may happen. What the client, the message source, the session guard and the clock say are
  inputs: \<open>env\<close> gives the clock readings and identifiers in the order the operation draws them, and the tasks whose database
  access fails unexpectedly. The parts joined are the model of the store, of the matching, of the session tokens and of the
  queue. \<open>effects\<close> records what a user confirmed and what was asked of the client.
\<close>

section \<open>State\<close>

record binding =
  at_account :: account
  at_token :: gui_token
  at_attempt :: int

record job =
  jb_task :: task
  jb_binding :: binding
  jb_send :: bool

record terminal =
  tw_seller :: string
  tw_data_dir :: string
  tw_attempt :: int
  tw_version :: int
  tw_status :: ostatus
  tw_reason :: string

datatype phase = Ph_Baseline | Ph_Guard | Ph_Goto | Ph_Nav_Frame | Ph_Final_Frame | Ph_Input | Ph_Sent

record run =
  rn_job :: job
  rn_phase :: phase
  rn_record :: task
  rn_baseline :: "(string \<times> pyval) list option"

datatype effect =
    Eff_Confirm string "string option"
  | Eff_Goto string string
  | Eff_Input string string
  | Eff_Click string "string option"

record service =
  sv_db :: outbox_db
  sv_attempts :: "(string \<times> binding) list"
  sv_active :: "(string \<times> task) list"
  sv_pending :: "(string \<times> terminal) list"
  sv_stopping :: bool
  sv_started :: bool
  sv_queue :: "job tqueue"
  sv_run :: "run option"
  sv_submitting :: "(account \<times> task) list"
  sv_shots :: "(string \<times> string) list"
  sv_log :: "effect list"

record env =
  ev_clock :: "nat \<Rightarrow> pytime"
  ev_fresh :: "nat \<Rightarrow> string"
  ev_faults :: "string list"

definition screenshot_ttl :: rat where
  "screenshot_ttl = 120"

definition new_service :: "outbox_db \<Rightarrow> effect list \<Rightarrow> service" where
  "new_service db trace = \<lparr>sv_db = db, sv_attempts = [], sv_active = [], sv_pending = [], sv_stopping = False,
     sv_started = False, sv_queue = new_queue, sv_run = None, sv_submitting = [], sv_shots = [], sv_log = trace\<rparr>"

section \<open>Shared parts\<close>

definition stopping_error :: py_error where
  "stopping_error = App_Error 503 ''Outbox service is stopping''"

definition accepting :: "service \<Rightarrow> unit result" where
  "accepting s = raise_if (sv_stopping s) stopping_error"

definition svc_get :: "(string \<Rightarrow> string) \<Rightarrow> account \<Rightarrow> string \<Rightarrow> service \<Rightarrow> task option result" where
  "svc_get canon a tid s = store_get canon (sv_db s) tid (ac_seller a) (ac_data_dir a)"

definition svc_list :: "(string \<Rightarrow> string) \<Rightarrow> account \<Rightarrow> int \<Rightarrow> int \<Rightarrow> service \<Rightarrow> task list result" where
  "svc_list canon a conversation limit s =
     store_list canon (sv_db s) conversation (ac_seller a) (ac_data_dir a) limit"

definition require :: "(string \<Rightarrow> string) \<Rightarrow> account \<Rightarrow> string \<Rightarrow> service \<Rightarrow> task result" where
  "require canon a tid s = and_then (svc_get canon a tid s) (\<lambda>r.
     case r of None \<Rightarrow> Inl (App_Error 404 ''Outbox task not found'') | Some t \<Rightarrow> Inr t)"

definition capture_token :: "account option \<Rightarrow> string \<Rightarrow> account \<Rightarrow> gui \<Rightarrow> gui_token result \<times> gui" where
  "capture_token bound fresh a g =
     (let (r, g') = capture_gui_session bound fresh (ac_epoch a) g
      in (and_then r (\<lambda>tk.
            if (tk_seller tk, tk_data_dir tk, tk_epoch tk) \<noteq> (ac_seller a, ac_data_dir a, ac_epoch a)
            then Inl (Outbox_Conflict ''Account context changed'') else Inr tk), g'))"

definition expired :: "pytime \<Rightarrow> task \<Rightarrow> bool" where
  "expired now t = (case t_screenshot_at t of
     None \<Rightarrow> True | Some q \<Rightarrow> \<not> (0 \<le> now - q \<and> now - q < screenshot_ttl))"

text \<open>A write of the store, and the refreshed copy of an active task.\<close>

definition note_written :: "task \<Rightarrow> task \<Rightarrow> outbox_db \<Rightarrow> service \<Rightarrow> service" where
  "note_written t cur db s = s\<lparr>sv_db := db,
     sv_active := (if t_id t \<in> fst ` set (sv_active s) then alist_put (t_id t) cur (sv_active s)
                   else sv_active s)\<rparr>"

definition move ::
  "(string \<Rightarrow> string) \<Rightarrow> pytime \<Rightarrow> task \<Rightarrow> ostatus \<Rightarrow> changes \<Rightarrow> service \<Rightarrow> task result \<times> service" where
  "move canon now t status ch s =
     (let (r, db) = store_transition canon (t_id t) [status_name (t_status t)] (Some (t_version t))
          (t_seller t) (t_data_dir t) ((C_status, PStr (status_name status)) # ch) now (sv_db s)
      in case r of Inl e \<Rightarrow> (Inl e, s) | Inr cur \<Rightarrow> (Inr cur, note_written t cur db s))"

definition svc_update ::
  "(string \<Rightarrow> string) \<Rightarrow> pytime \<Rightarrow> task \<Rightarrow> changes \<Rightarrow> service \<Rightarrow> task result \<times> service" where
  "svc_update canon now t ch s =
     (let (r, db) = store_update_fields canon (t_id t) [status_name (t_status t)] (Some (t_version t))
          (t_seller t) (t_data_dir t) ch now (sv_db s)
      in case r of Inl e \<Rightarrow> (Inl e, s) | Inr cur \<Rightarrow> (Inr cur, note_written t cur db s))"

section \<open>Terminal writes\<close>

definition is_conflict :: "py_error \<Rightarrow> bool" where
  "is_conflict e = (case e of Outbox_Conflict _ \<Rightarrow> True | _ \<Rightarrow> False)"

definition drop_pending :: "string \<Rightarrow> service \<Rightarrow> service" where
  "drop_pending i s = s\<lparr>sv_pending := alist_del i (sv_pending s)\<rparr>"

definition still_pending :: "terminal \<Rightarrow> task \<Rightarrow> bool" where
  "still_pending w t \<longleftrightarrow> t_attempt t = tw_attempt w \<and> t_version t = tw_version w
     \<and> is_compensatable (t_status t)"

text \<open>
  One turn of the loop of \<^verbatim>\<open>_flush_terminal_writes\<close>: an active task is left for later; so is one whose database access
  fails in any other way than a conflict.
\<close>

definition flush_entry ::
  "(string \<Rightarrow> string) \<Rightarrow> string list \<Rightarrow> pytime \<Rightarrow> string \<Rightarrow> terminal \<Rightarrow> service \<Rightarrow> service" where
  "flush_entry canon faults now i w s =
     (if i \<in> fst ` set (sv_active s) \<or> i \<in> set faults then s
      else case store_get canon (sv_db s) i (tw_seller w) (tw_data_dir w) of
             Inl e \<Rightarrow> if is_conflict e then drop_pending i s else s
           | Inr None \<Rightarrow> drop_pending i s
           | Inr (Some t) \<Rightarrow>
               if \<not> still_pending w t then drop_pending i s
               else
                 (let (r, s') = move canon now t (if is_gui_risk (t_status t) then Unknown else Failed)
                      ([(C_reason, PStr (tw_reason w)),
                        (C_evidence, PDict [(''status'', PStr (status_name (tw_status w))),
                           (''detail'', PStr (tw_reason w))])] @ clear_screenshot) s
                  in case r of
                       Inl e \<Rightarrow> if is_conflict e then drop_pending i s' else s'
                     | Inr _ \<Rightarrow> drop_pending i s'))"

fun flush_entries ::
  "(string \<Rightarrow> string) \<Rightarrow> string list \<Rightarrow> (nat \<Rightarrow> pytime) \<Rightarrow> nat \<Rightarrow> (string \<times> terminal) list \<Rightarrow> service \<Rightarrow> service" where
  "flush_entries canon faults clock k [] s = s"
| "flush_entries canon faults clock k ((i, w) # rest) s =
     flush_entries canon faults clock (Suc k) rest (flush_entry canon faults (clock k) i w s)"

definition flush_terminal_writes :: "(string \<Rightarrow> string) \<Rightarrow> env \<Rightarrow> service \<Rightarrow> service" where
  "flush_terminal_writes canon e s = flush_entries canon (ev_faults e) (ev_clock e) 0 (sv_pending s) s"

definition newer_failure :: "task \<Rightarrow> terminal \<Rightarrow> bool" where
  "newer_failure t w \<longleftrightarrow> t_attempt t > tw_attempt w
     \<or> (t_attempt t = tw_attempt w \<and> t_version t \<ge> tw_version w)"

definition note_failure :: "task \<Rightarrow> string \<Rightarrow> service \<Rightarrow> service" where
  "note_failure t reason s = s\<lparr>
     sv_pending :=
       (if (case map_of (sv_pending s) (t_id t) of None \<Rightarrow> True | Some w \<Rightarrow> newer_failure t w)
        then alist_put (t_id t) \<lparr>tw_seller = t_seller t, tw_data_dir = t_data_dir t,
          tw_attempt = t_attempt t, tw_version = t_version t, tw_status = t_status t,
          tw_reason = reason\<rparr> (sv_pending s)
        else sv_pending s),
     sv_attempts :=
       (case map_of (sv_attempts s) (t_id t) of
          Some b \<Rightarrow> if at_attempt b = t_attempt t then alist_del (t_id t) (sv_attempts s) else sv_attempts s
        | None \<Rightarrow> sv_attempts s)\<rparr>"

definition fail_if_current :: "(string \<Rightarrow> string) \<Rightarrow> env \<Rightarrow> task \<Rightarrow> string \<Rightarrow> service \<Rightarrow> service" where
  "fail_if_current canon e t reason s =
     (if t_id t \<in> fst ` set (sv_active s) then s
      else flush_terminal_writes canon e (note_failure t reason s))"

section \<open>Requests\<close>

definition svc_start :: "env \<Rightarrow> service \<Rightarrow> unit result \<times> service" where
  "svc_start e s =
     (if sv_stopping s then (Inl stopping_error, s)
      else if sv_started s then (Inr (), s)
      else
        (let (r, db) = store_recover (ev_clock e) (initialize (sv_db s))
         in case r of Inl x \<Rightarrow> (Inl x, s\<lparr>sv_db := db\<rparr>)
            | Inr _ \<Rightarrow> (Inr (), s\<lparr>sv_db := db, sv_started := True\<rparr>)))"

definition svc_enqueue :: "(string \<Rightarrow> string) \<Rightarrow> env \<Rightarrow> task \<Rightarrow> binding \<Rightarrow> bool \<Rightarrow> service \<Rightarrow> service" where
  "svc_enqueue canon e t b send s =
     (let (r, q) = enqueue \<lparr>jb_task = t, jb_binding = b, jb_send = send\<rparr>
          (''Outbox '' @ (if send then ''input/send'' else ''navigation'') @ '' '' @ t_id t)
          (ev_clock e 0) (ev_fresh e 0) (sv_queue s)
      in case r of
           Inl x \<Rightarrow> fail_if_current canon e t (err_text x) (s\<lparr>sv_queue := q\<rparr>)
         | Inr _ \<Rightarrow> s\<lparr>sv_queue := q\<rparr>)"

definition bind_attempt :: "account \<Rightarrow> gui_token \<Rightarrow> task \<Rightarrow> binding" where
  "bind_attempt a tk t = \<lparr>at_account = a, at_token = tk, at_attempt = t_attempt t\<rparr>"

text \<open>
  \<^verbatim>\<open>submit\<close> persists first, in one section; the binding to a session happens in a second one. Between them
  the submission is in \<open>sv_submitting\<close>.
\<close>

definition submit_create ::
  "(string \<Rightarrow> string) \<Rightarrow> env \<Rightarrow> account \<Rightarrow> int \<Rightarrow> string \<Rightarrow> string \<Rightarrow> string \<Rightarrow> string \<Rightarrow> string \<Rightarrow> string option
     \<Rightarrow> service \<Rightarrow> (task \<times> bool) result \<times> service" where
  "submit_create canon e a conversation contact login content act key request s =
     (case svc_start e s of
        (Inl x, s1) \<Rightarrow> (Inl x, s1)
      | (Inr _, s1) \<Rightarrow>
          (let (r, db) = store_create canon (ac_seller a) (ac_data_dir a) conversation contact login content
               act key request (Some (ac_epoch a)) (ev_fresh e 0) (ev_clock e 0) (sv_db s1);
               s2 = s1\<lparr>sv_db := db\<rparr>
           in (r, case r of Inr (t, True) \<Rightarrow> s2\<lparr>sv_submitting := sv_submitting s2 @ [(a, t)]\<rparr> | _ \<Rightarrow> s2)))"

definition submit_bind ::
  "(string \<Rightarrow> string) \<Rightarrow> env \<Rightarrow> account \<Rightarrow> task \<Rightarrow> gui_token result \<Rightarrow> service \<Rightarrow> task result \<times> service" where
  "submit_bind canon e a t tok s =
     (if (a, t) \<notin> set (sv_submitting s) then (Inl (Runtime_Error ''no such submission''), s)
      else
        (let s1 = s\<lparr>sv_submitting := remove1 (a, t) (sv_submitting s)\<rparr>;
             s2 = (case and_then tok (\<lambda>tk. and_then (accepting s1) (\<lambda>_. Inr tk)) of
                     Inl x \<Rightarrow> fail_if_current canon e t (err_text x) s1
                   | Inr tk \<Rightarrow>
                       (let b = bind_attempt a tk t
                        in svc_enqueue canon e t b False
                             (s1\<lparr>sv_attempts := alist_put (t_id t) b (sv_attempts s1)\<rparr>)))
         in (require canon a (t_id t) s2, s2)))"

text \<open>\<^verbatim>\<open>confirm\<close>: the same session, attempt, version and picture, or a conflict.\<close>

definition confirm_checks ::
  "(string \<Rightarrow> string) \<Rightarrow> account \<Rightarrow> string \<Rightarrow> string \<Rightarrow> int \<Rightarrow> string option \<Rightarrow> gui_token result \<Rightarrow> service
     \<Rightarrow> (task \<times> binding) result" where
  "confirm_checks canon a tid shot version epoch tok s =
     and_then (accepting s) (\<lambda>_.
     and_then (raise_if (epoch \<noteq> None \<and> epoch \<noteq> Some (ac_epoch a))
       (Outbox_Conflict ''Account context changed'')) (\<lambda>_.
     and_then tok (\<lambda>tk.
     and_then (require canon a tid s) (\<lambda>t.
       case map_of (sv_attempts s) tid of
         None \<Rightarrow> Inl (Outbox_Conflict ''Original GUI session expired; explicit retry is required'')
       | Some b \<Rightarrow>
           if at_account b \<noteq> a \<or> at_token b \<noteq> tk \<or> at_attempt b \<noteq> t_attempt t
           then Inl (Outbox_Conflict ''Original GUI session expired; explicit retry is required'')
           else if t_status t \<noteq> Awaiting_Confirmation \<or> t_version t \<noteq> version
             \<or> t_screenshot_id t \<noteq> Some shot
           then Inl (Outbox_Conflict ''Screenshot or task version changed'')
           else Inr (t, b)))))"

definition confirm ::
  "(string \<Rightarrow> string) \<Rightarrow> env \<Rightarrow> account \<Rightarrow> string \<Rightarrow> string \<Rightarrow> int \<Rightarrow> string option \<Rightarrow> gui_token result \<Rightarrow> service
     \<Rightarrow> task result \<times> service" where
  "confirm canon e a tid shot version epoch tok s =
     (case confirm_checks canon a tid shot version epoch tok s of
        Inl x \<Rightarrow> (Inl x, s)
      | Inr (t, b) \<Rightarrow>
          (case move canon (ev_clock e 0) t Queued_Send [] s of
             (Inl x, s1) \<Rightarrow> (Inl x, s1)
           | (Inr cur, s1) \<Rightarrow>
               (let s2 = svc_enqueue canon e cur b True
                    (s1\<lparr>sv_log := sv_log s1 @ [Eff_Confirm tid (t_screenshot_digest t)]\<rparr>)
                in (require canon a tid s2, s2))))"

definition svc_cancel ::
  "(string \<Rightarrow> string) \<Rightarrow> env \<Rightarrow> account \<Rightarrow> string \<Rightarrow> int option \<Rightarrow> service \<Rightarrow> task result \<times> service" where
  "svc_cancel canon e a tid version s =
     (case accepting s of
        Inl x \<Rightarrow> (Inl x, s)
      | Inr _ \<Rightarrow>
          (let (r, db) = store_cancel canon tid version (ac_seller a) (ac_data_dir a) ''cancelled_by_user''
               (ev_clock e 0) (sv_db s)
           in case r of
                Inl x \<Rightarrow> (Inl x, s)
              | Inr cur \<Rightarrow> (Inr cur, s\<lparr>sv_db := db, sv_attempts := alist_del tid (sv_attempts s)\<rparr>)))"

definition svc_retry ::
  "(string \<Rightarrow> string) \<Rightarrow> env \<Rightarrow> account \<Rightarrow> string \<Rightarrow> int option \<Rightarrow> gui_token result \<Rightarrow> service
     \<Rightarrow> task result \<times> service" where
  "svc_retry canon e a tid version tok s =
     (case svc_start e s of
        (Inl x, s1) \<Rightarrow> (Inl x, s1)
      | (Inr _, s1) \<Rightarrow>
          (case and_then tok (\<lambda>tk. and_then (accepting s1) (\<lambda>_. Inr tk)) of
             Inl x \<Rightarrow> (Inl x, s1)
           | Inr tk \<Rightarrow>
               (let (r, db) = store_retry canon tid version (ac_seller a) (ac_data_dir a) (ev_clock e 0) (sv_db s1)
                in case r of
                     Inl x \<Rightarrow> (Inl x, s1)
                   | Inr t \<Rightarrow>
                       (let b = bind_attempt a tk t;
                            s2 = svc_enqueue canon e t b False
                              (s1\<lparr>sv_db := db, sv_attempts := alist_put tid b (sv_attempts s1)\<rparr>)
                        in (require canon a tid s2, s2)))))"

text \<open>\<^verbatim>\<open>UUID(x).hex == x\<close> holds of 32 lowercase hexadecimal digits.\<close>

definition canonical_uuid :: "string \<Rightarrow> bool" where
  "canonical_uuid x \<longleftrightarrow> length x = 32 \<and> list_all (\<lambda>c. c \<in> set ''0123456789abcdef'') x"

definition get_screenshot ::
  "(string \<Rightarrow> string) \<Rightarrow> pytime \<Rightarrow> account \<Rightarrow> string \<Rightarrow> string \<Rightarrow> service \<Rightarrow> string result" where
  "get_screenshot canon now a tid shot s =
     (if \<not> canonical_uuid shot then Inl (App_Error 404 ''Screenshot not found'')
      else and_then (require canon a tid s) (\<lambda>t.
        if t_screenshot_id t \<noteq> Some shot \<or> expired now t
          \<or> t_status t \<notin> {Awaiting_Confirmation, Queued_Send}
        then Inl (Screenshot_Expired ''Screenshot expired or replaced'')
        else case map_of (sv_shots s) shot of
               Some png \<Rightarrow> Inr png
             | None \<Rightarrow> Inl (App_Error 404 ''Screenshot not found'')))"

section \<open>The worker's job\<close>

text \<open>The end of a job: the last section of \<^verbatim>\<open>_execute_attempt\<close>, and what it returns to the queue.\<close>

definition finish_run ::
  "(string \<Rightarrow> string) \<Rightarrow> env \<Rightarrow> string option \<Rightarrow> string \<Rightarrow> service \<Rightarrow> service" where
  "finish_run canon e failure message s =
     (case sv_run s of
        None \<Rightarrow> s
      | Some rn \<Rightarrow>
          (let tid = t_id (jb_task (rn_job rn));
               s1 = s\<lparr>sv_run := None, sv_active := alist_del tid (sv_active s)\<rparr>;
               s2 = (case map_of (sv_active s) tid of
                       None \<Rightarrow> s1
                     | Some cur \<Rightarrow>
                         (case failure of
                            Some reason \<Rightarrow> fail_if_current canon e cur reason s1
                          | None \<Rightarrow>
                              if t_status cur \<notin> {Queued, Awaiting_Confirmation, Queued_Send}
                              then s1\<lparr>sv_attempts := alist_del tid (sv_attempts s1)\<rparr> else s1))
           in s2\<lparr>sv_queue := worker_finish
                (Inr (case failure of Some reason \<Rightarrow> (False, reason) | None \<Rightarrow> (True, message)))
                (ev_clock e 9) (sv_queue s2)\<rparr>))"

definition fail_run :: "(string \<Rightarrow> string) \<Rightarrow> env \<Rightarrow> string \<Rightarrow> service \<Rightarrow> service" where
  "fail_run canon e reason s = finish_run canon e (Some reason) [] s"

definition set_phase :: "phase \<Rightarrow> task \<Rightarrow> service \<Rightarrow> service" where
  "set_phase ph t s = s\<lparr>sv_run := map_option (\<lambda>rn. rn\<lparr>rn_phase := ph, rn_record := t\<rparr>) (sv_run s)\<rparr>"

text \<open>The worker takes a job; the first section admits it, or drops it when it is superseded or the service stops.\<close>

definition drop_job :: "env \<Rightarrow> string \<Rightarrow> service \<Rightarrow> service" where
  "drop_job e reason s =
     s\<lparr>sv_queue := worker_finish (Inr (False, reason)) (ev_clock e 9) (sv_queue s)\<rparr>"

definition begin_job :: "(string \<Rightarrow> string) \<Rightarrow> env \<Rightarrow> job \<Rightarrow> service \<Rightarrow> service" where
  "begin_job canon e j s =
     (let t = jb_task j in
      if sv_stopping s
      then drop_job e ''Outbox service is stopping'' (fail_if_current canon e t ''shutdown_before_execution'' s)
      else case svc_get canon (at_account (jb_binding j)) (t_id t) s of
             Inl x \<Rightarrow> drop_job e (err_text x) s
           | Inr None \<Rightarrow> drop_job e ''Outbox task superseded'' s
           | Inr (Some cur) \<Rightarrow>
               if t_version cur \<noteq> t_version t \<or> map_of (sv_attempts s) (t_id t) \<noteq> Some (jb_binding j)
               then drop_job e ''Outbox task superseded'' s
               else s\<lparr>sv_active := alist_put (t_id t) cur (sv_active s),
                      sv_run := Some \<lparr>rn_job = j,
                        rn_phase = (if jb_send j \<and> t_action t = Send then Ph_Baseline else Ph_Guard),
                        rn_record = cur, rn_baseline = None\<rparr>\<rparr>)"

text \<open>
  Reading the baseline before an input that will be sent (a section without the lock). The identifiers are sorted; strings
  are the only ones the source delivers.
\<close>

definition sorted_ids :: "pyval list \<Rightarrow> pyval list result" where
  "sorted_ids ids =
     (if list_all is_str ids
      then Inr (map PStr (sort (List.map_filter as_str ids)))
      else if length ids \<le> 1 then Inr ids
      else Inl (Type_Error ''not supported between instances''))"

fun message_ids :: "pyval list \<Rightarrow> pyval list result" where
  "message_ids [] = Inr []"
| "message_ids (m # ms) =
     (case m of
        PDict d \<Rightarrow>
          (case map_of d ''id'' of
             None \<Rightarrow> Inl (Key_Error ''id'')
           | Some i \<Rightarrow> and_then (message_ids ms) (\<lambda>is. Inr (i # is)))
      | _ \<Rightarrow> Inl (Type_Error ''indices must be integers''))"

definition baseline_of :: "(string \<times> pyval) list \<Rightarrow> (string \<times> pyval) list result" where
  "baseline_of snapshot =
     (if \<not> truthy (dict_get_none snapshot ''valid'') \<or> \<not> truthy (dict_get_none snapshot ''origin'')
      then Inl (Runtime_Error ''Source baseline unavailable; no text was entered'')
      else case dict_get_none snapshot ''messages'' of
             PList ms \<Rightarrow>
               and_then (and_then (message_ids ms) sorted_ids) (\<lambda>ids.
                 case map_of snapshot ''checked_at'' of
                   None \<Rightarrow> Inl (Key_Error ''checked_at'')
                 | Some checked \<Rightarrow> Inr [(''origin'', dict_get_none snapshot ''origin''), (''ids'', PList ids),
                     (''checked_at'', checked), (''send_started_at'', PNone)])
           | _ \<Rightarrow> Inl (Runtime_Error ''Source baseline unavailable; no text was entered''))"

definition job_baseline ::
  "(string \<Rightarrow> string) \<Rightarrow> env \<Rightarrow> (string \<times> pyval) list result \<Rightarrow> run \<Rightarrow> service \<Rightarrow> service" where
  "job_baseline canon e snapshot rn s =
     (case and_then snapshot baseline_of of
        Inl x \<Rightarrow> fail_run canon e (err_text x) s
      | Inr b \<Rightarrow> s\<lparr>sv_run := Some (rn\<lparr>rn_phase := Ph_Guard, rn_baseline := Some b\<rparr>)\<rparr>)"

text \<open>
  The guard of the session (its verdict is an input), then the first section of \<^verbatim>\<open>act\<close>. Any exception inside the guard becomes
  the failure text of the attempt.
\<close>

definition job_enter :: "(string \<Rightarrow> string) \<Rightarrow> env \<Rightarrow> unit result \<Rightarrow> run \<Rightarrow> service \<Rightarrow> service" where
  "job_enter canon e guard rn s =
     (let j = rn_job rn; queued = jb_task j in
      case and_then guard (\<lambda>_. and_then (accepting s) (\<lambda>_.
             require canon (at_account (jb_binding j)) (t_id queued) s)) of
        Inl x \<Rightarrow> fail_run canon e (err_text x) s
      | Inr t \<Rightarrow>
          if t_version t \<noteq> t_version queued then fail_run canon e ''Outbox task superseded'' s
          else if jb_send j then set_phase Ph_Final_Frame t s
          else
            (case move canon (ev_clock e 0) t Navigating [] s of
               (Inl x, s1) \<Rightarrow> fail_run canon e (err_text x) s1
             | (Inr cur, s1) \<Rightarrow> set_phase Ph_Goto cur s1))"

definition job_goto :: "(string \<Rightarrow> string) \<Rightarrow> env \<Rightarrow> bool \<times> string \<Rightarrow> run \<Rightarrow> service \<Rightarrow> service" where
  "job_goto canon e reply rn s =
     (let t = rn_record rn; s1 = s\<lparr>sv_log := sv_log s @ [Eff_Goto (t_id t) (t_login_id t)]\<rparr>
      in if fst reply then set_phase Ph_Nav_Frame t s1 else fail_run canon e (snd reply) s1)"

text \<open>\<^verbatim>\<open>_save_frame\<close>: a new picture file, and the task waits for its confirmation.\<close>

definition save_frame ::
  "(string \<Rightarrow> string) \<Rightarrow> env \<Rightarrow> nat \<Rightarrow> task \<Rightarrow> string \<Rightarrow> string option \<Rightarrow> service \<Rightarrow> task result \<times> service" where
  "save_frame canon e k t digest reason s =
     move canon (ev_clock e (Suc k)) t Awaiting_Confirmation
       [(C_screenshot_id, PStr (ev_fresh e 0)), (C_screenshot_at, PFloat (FFin (ev_clock e k))),
        (C_screenshot_digest, PStr digest), (C_reason, opt_str reason)]
       (s\<lparr>sv_shots := alist_put (ev_fresh e 0) digest (sv_shots s)\<rparr>)"

definition job_nav_frame :: "(string \<Rightarrow> string) \<Rightarrow> env \<Rightarrow> string result \<Rightarrow> run \<Rightarrow> service \<Rightarrow> service" where
  "job_nav_frame canon e frame rn s =
     (case and_then frame (\<lambda>digest. and_then (accepting s) (\<lambda>_. Inr digest)) of
        Inl x \<Rightarrow> fail_run canon e (err_text x) s
      | Inr digest \<Rightarrow>
          (case save_frame canon e 0 (rn_record rn) digest None s of
             (Inl x, s1) \<Rightarrow> fail_run canon e (err_text x) s1
           | (Inr _, s1) \<Rightarrow> finish_run canon e None ''Recipient screenshot requires confirmation'' s1))"

text \<open>
  The last look before any input: the confirmed picture must be recent and unchanged; otherwise a fresh one is
  asked for.
\<close>

definition started_baseline :: "pytime \<Rightarrow> (string \<times> pyval) list option \<Rightarrow> pyval" where
  "started_baseline now b =
     (case b of None \<Rightarrow> PNone
      | Some d \<Rightarrow> PDict (alist_put ''sent_at'' (PFloat (FFin now))
          (alist_put ''send_started_at'' (PFloat (FFin now)) d)))"

definition needs_reconfirm :: "pytime \<Rightarrow> task \<Rightarrow> string \<Rightarrow> bool" where
  "needs_reconfirm now t digest \<longleftrightarrow> expired now t \<or> t_screenshot_digest t \<noteq> Some digest"

definition job_final_frame :: "(string \<Rightarrow> string) \<Rightarrow> env \<Rightarrow> string result \<Rightarrow> run \<Rightarrow> service \<Rightarrow> service" where
  "job_final_frame canon e frame rn s =
     (let t = rn_record rn in
      case and_then frame (\<lambda>digest. and_then (accepting s) (\<lambda>_. Inr digest)) of
        Inl x \<Rightarrow> fail_run canon e (err_text x) s
      | Inr digest \<Rightarrow>
          if needs_reconfirm (ev_clock e 0) t digest
          then
            (case save_frame canon e 1 t digest (Some ''screenshot_expired_or_changed'') s of
               (Inl x, s1) \<Rightarrow> fail_run canon e (err_text x) s1
             | (Inr _, s1) \<Rightarrow> finish_run canon e None ''Fresh screenshot requires confirmation'' s1)
          else
            (case move canon (ev_clock e 2) t Running
                 [(C_baseline, started_baseline (ev_clock e 1) (rn_baseline rn))] s of
               (Inl x, s1) \<Rightarrow> fail_run canon e (err_text x) s1
             | (Inr cur, s1) \<Rightarrow> set_phase Ph_Input cur s1))"

text \<open>
  After the input: a test ends here. A send is first marked as possibly sent, durably; only then, and only when the service has
  not begun to stop in the meantime (\<open>stop_now\<close>), is the native click submitted, whose outcome is \<open>submitted\<close>.
\<close>

definition job_input ::
  "(string \<Rightarrow> string) \<Rightarrow> env \<Rightarrow> bool \<times> string \<Rightarrow> bool \<Rightarrow> nat result \<Rightarrow> run \<Rightarrow> service \<Rightarrow> service" where
  "job_input canon e reply stop_now submitted rn s =
     (let t = rn_record rn; s0 = s\<lparr>sv_log := sv_log s @ [Eff_Input (t_id t) (t_content t)]\<rparr> in
      if \<not> fst reply then fail_run canon e (snd reply) s0
      else if sv_stopping s0 then fail_run canon e (err_text stopping_error) s0
      else if t_action t = Test
      then
        (case move canon (ev_clock e 0) t Filled clear_screenshot s0 of
           (Inl x, s1) \<Rightarrow> fail_run canon e (err_text x) s1
         | (Inr _, s1) \<Rightarrow> finish_run canon e None ''Text filled; no send click requested'' s1)
      else
        (case svc_update canon (ev_clock e 0) t [(C_may_have_sent, PBool True)] s0 of
           (Inl x, s1) \<Rightarrow> fail_run canon e (err_text x) s1
         | (Inr cur, s1) \<Rightarrow>
             if stop_now then fail_run canon e (err_text stopping_error) (s1\<lparr>sv_stopping := True\<rparr>)
             else
               (let s2 = s1\<lparr>sv_log := sv_log s1 @ [Eff_Click (t_id cur) (t_screenshot_digest cur)]\<rparr>
                in case submitted of
                     Inl x \<Rightarrow> fail_run canon e (err_text x) s2
                   | Inr _ \<Rightarrow> set_phase Ph_Sent cur s2)))"

definition job_sent :: "(string \<Rightarrow> string) \<Rightarrow> env \<Rightarrow> bool \<times> string \<Rightarrow> run \<Rightarrow> service \<Rightarrow> service" where
  "job_sent canon e reply rn s =
     (if \<not> fst reply then fail_run canon e (snd reply) s
      else case move canon (ev_clock e 0) (rn_record rn) Verifying clear_screenshot s of
             (Inl x, s1) \<Rightarrow> fail_run canon e (err_text x) s1
           | (Inr _, s1) \<Rightarrow> finish_run canon e None ''GUI send completed; awaiting local source evidence'' s1)"

section \<open>Reconciliation\<close>

text \<open>The scan: which contacts of the selected account have possible sends to look for.\<close>

definition awaits_evidence :: "task \<Rightarrow> bool" where
  "awaits_evidence t \<longleftrightarrow> t_action t = Send \<and> t_may_have_sent t"

definition pending_contacts :: "(string \<Rightarrow> string) \<Rightarrow> account \<Rightarrow> service \<Rightarrow> string list result" where
  "pending_contacts canon a s =
     (if ac_seller a = [] \<or> ac_data_dir a = [] then Inr []
      else and_then (store_list_pending canon (sv_db s) [''verifying'', ''unknown''] (ac_seller a) (ac_data_dir a))
        (\<lambda>ts. Inr (dedup (map t_contact (filter awaits_evidence ts)))))"

definition reconcile_begin ::
  "(string \<Rightarrow> string) \<Rightarrow> env \<Rightarrow> account \<Rightarrow> service \<Rightarrow> string list result \<times> service" where
  "reconcile_begin canon e a s =
     (if sv_stopping s then (Inr [], s)
      else (let s1 = flush_terminal_writes canon e s in (pending_contacts canon a s1, s1)))"

definition proof_move ::
  "(string \<Rightarrow> string) \<Rightarrow> pytime \<Rightarrow> task \<Rightarrow> send_proof \<Rightarrow> service \<Rightarrow> task option result \<times> service" where
  "proof_move canon now t p s =
     (if sp_status p = t_status t then (Inr None, s)
      else if sp_status p = Observed
      then
        (let (r, s1) = move canon now t Observed
             [(C_matched, case sp_matched p of Some v \<Rightarrow> v | None \<Rightarrow> PNone),
              (C_evidence, PDict (sp_evidence p)), (C_reason, PStr (sp_reason p))] s
         in (and_then r (\<lambda>u. Inr (Some u)), s1))
      else if sp_status p = Unknown \<and> t_status t = Verifying
      then
        (let (r, s1) = move canon now t Unknown
             [(C_evidence, PDict (sp_evidence p)), (C_reason, PStr (sp_reason p))] s
         in (and_then r (\<lambda>_. Inr None), s1))
      else (Inr None, s))"

definition reconcilable :: "string \<Rightarrow> task \<Rightarrow> bool" where
  "reconcilable contact t \<longleftrightarrow> t_contact t = contact \<and> t_status t \<in> {Verifying, Unknown} \<and> awaits_evidence t"

text \<open>The loop over the tasks of one contact: a conflict goes to the next task, any other exception ends the pass.\<close>

fun reconcile_tasks ::
  "(string \<Rightarrow> string) \<Rightarrow> (nat \<Rightarrow> pytime) \<Rightarrow> nat \<Rightarrow> string \<Rightarrow> (string \<times> pyval) list \<Rightarrow> task list \<Rightarrow> task list
     \<Rightarrow> service \<Rightarrow> task list result \<times> service" where
  "reconcile_tasks canon clock k contact snapshot others [] s = (Inr [], s)"
| "reconcile_tasks canon clock k contact snapshot others (t # ts) s =
     (if \<not> reconcilable contact t then reconcile_tasks canon clock (Suc k) contact snapshot others ts s
      else case match_outbox t snapshot others of
             Inl x \<Rightarrow> (Inl x, s)
           | Inr p \<Rightarrow>
               (let (r, s1) = proof_move canon (clock k) t p s
                in case r of
                     Inl x \<Rightarrow>
                       if is_conflict x
                       then reconcile_tasks canon clock (Suc k) contact snapshot others ts s1
                       else (Inl x, s1)
                   | Inr u \<Rightarrow>
                       (let (rest, s2) = reconcile_tasks canon clock (Suc k) contact snapshot others ts s1
                        in (and_then rest (\<lambda>us. Inr (case u of Some u \<Rightarrow> u # us | None \<Rightarrow> us)), s2))))"

text \<open>The section after reading one contact's messages, with the account selected at that moment.\<close>

definition reconcile_contact ::
  "(string \<Rightarrow> string) \<Rightarrow> env \<Rightarrow> account \<Rightarrow> account \<Rightarrow> string \<Rightarrow> (string \<times> pyval) list \<Rightarrow> service
     \<Rightarrow> task list result \<times> service" where
  "reconcile_contact canon e a current contact snapshot s =
     (if sv_stopping s \<or> current \<noteq> a then (Inr [], s)
      else case store_list_pending canon (sv_db s) [''running'', ''verifying'', ''unknown'', ''observed'', ''failed'']
             (ac_seller a) (ac_data_dir a) of
             Inl x \<Rightarrow> (Inl x, s)
           | Inr others \<Rightarrow> reconcile_tasks canon (ev_clock e) 0 contact snapshot others others s)"

section \<open>Shutdown\<close>

text \<open>
  \<^verbatim>\<open>stop\<close>: first the flag, without the lock; then the attempts that never started are failed; after the wait for the
  active ones, those that are still active and compensatable are settled, and everything pending is written.
\<close>

definition stop_request :: "service \<Rightarrow> service" where
  "stop_request s = s\<lparr>sv_stopping := True\<rparr>"

fun stop_attempts ::
  "(string \<Rightarrow> string) \<Rightarrow> env \<Rightarrow> (string \<times> binding) list \<Rightarrow> service \<Rightarrow> service" where
  "stop_attempts canon e [] s = s"
| "stop_attempts canon e ((i, b) # rest) s =
     stop_attempts canon e rest
       (if i \<in> fst ` set (sv_active s) then s
        else case svc_get canon (at_account b) i s of
               Inr (Some t) \<Rightarrow>
                 if t_status t \<in> set non_executing_statuses
                 then fail_if_current canon e t ''shutdown_before_execution'' s else s
             | _ \<Rightarrow> s)"

definition stop_sweep :: "(string \<Rightarrow> string) \<Rightarrow> env \<Rightarrow> service \<Rightarrow> service" where
  "stop_sweep canon e s = stop_attempts canon e (sv_attempts s) s"

fun stop_active :: "(string \<Rightarrow> string) \<Rightarrow> (nat \<Rightarrow> pytime) \<Rightarrow> nat \<Rightarrow> task list \<Rightarrow> service \<Rightarrow> service" where
  "stop_active canon clock k [] s = s"
| "stop_active canon clock k (t # ts) s =
     stop_active canon clock (Suc k) ts
       (if t_status t \<in> set active_compensatable_statuses
        then snd (move canon (clock k) t (if is_gui_risk (t_status t) then Unknown else Failed)
               ((C_reason, PStr ''shutdown_execution_uncertain'') # clear_screenshot) s)
        else s)"

definition stop_settle :: "(string \<Rightarrow> string) \<Rightarrow> env \<Rightarrow> service \<Rightarrow> service" where
  "stop_settle canon e s =
     (flush_terminal_writes canon e
       (stop_active canon (ev_clock e) 0 (map snd (sv_active s)) s))\<lparr>sv_attempts := []\<rparr>"

section \<open>The whole service\<close>

text \<open>
  Every event that moves the service. \<open>Crash\<close> ends the process at any point: what remains is the
  database (and the record of the effects); a new service starts on it.
\<close>

datatype svc_event =
    E_Start env
  | E_Submit env account int string string string string string "string option"
  | E_Bind env account task "gui_token result"
  | E_Confirm env account string string int "string option" "gui_token result"
  | E_Cancel env account string "int option"
  | E_Retry env account string "int option" "gui_token result"
  | E_Take env pytime
  | E_Baseline env "(string \<times> pyval) list result"
  | E_Enter env "unit result"
  | E_Goto env bool string
  | E_Nav_Frame env "string result"
  | E_Final_Frame env "string result"
  | E_Input env bool string bool "nat result"
  | E_Sent env bool string
  | E_Reconcile env account
  | E_Contact env account account string "(string \<times> pyval) list"
  | E_Stop
  | E_Stop_Sweep env
  | E_Stop_Settle env
  | E_Crash

definition in_phase :: "phase \<Rightarrow> (run \<Rightarrow> service \<Rightarrow> service) \<Rightarrow> service \<Rightarrow> service" where
  "in_phase ph f s = (case sv_run s of None \<Rightarrow> s | Some rn \<Rightarrow> if rn_phase rn = ph then f rn s else s)"

definition take_job :: "(string \<Rightarrow> string) \<Rightarrow> env \<Rightarrow> pytime \<Rightarrow> service \<Rightarrow> service" where
  "take_job canon e now s =
     (let (j, q) = worker_take now (sv_queue s)
      in case j of None \<Rightarrow> s\<lparr>sv_queue := q\<rparr> | Some j \<Rightarrow> begin_job canon e j (s\<lparr>sv_queue := q\<rparr>))"

fun svc_exec :: "(string \<Rightarrow> string) \<Rightarrow> svc_event \<Rightarrow> service \<Rightarrow> service" where
  "svc_exec canon (E_Start e) s = snd (svc_start e s)"
| "svc_exec canon (E_Submit e a c ct l x act k r) s = snd (submit_create canon e a c ct l x act k r s)"
| "svc_exec canon (E_Bind e a t tok) s = snd (submit_bind canon e a t tok s)"
| "svc_exec canon (E_Confirm e a i shot v ep tok) s = snd (confirm canon e a i shot v ep tok s)"
| "svc_exec canon (E_Cancel e a i v) s = snd (svc_cancel canon e a i v s)"
| "svc_exec canon (E_Retry e a i v tok) s = snd (svc_retry canon e a i v tok s)"
| "svc_exec canon (E_Take e now) s = (if sv_run s = None then take_job canon e now s else s)"
| "svc_exec canon (E_Baseline e snap) s = in_phase Ph_Baseline (job_baseline canon e snap) s"
| "svc_exec canon (E_Enter e g) s = in_phase Ph_Guard (job_enter canon e g) s"
| "svc_exec canon (E_Goto e ok r) s = in_phase Ph_Goto (job_goto canon e (ok, r)) s"
| "svc_exec canon (E_Nav_Frame e f) s = in_phase Ph_Nav_Frame (job_nav_frame canon e f) s"
| "svc_exec canon (E_Final_Frame e f) s = in_phase Ph_Final_Frame (job_final_frame canon e f) s"
| "svc_exec canon (E_Input e ok r st sub) s = in_phase Ph_Input (job_input canon e (ok, r) st sub) s"
| "svc_exec canon (E_Sent e ok r) s = in_phase Ph_Sent (job_sent canon e (ok, r)) s"
| "svc_exec canon (E_Reconcile e a) s = snd (reconcile_begin canon e a s)"
| "svc_exec canon (E_Contact e a cur ct snap) s = snd (reconcile_contact canon e a cur ct snap s)"
| "svc_exec canon E_Stop s = stop_request s"
| "svc_exec canon (E_Stop_Sweep e) s = stop_sweep canon e s"
| "svc_exec canon (E_Stop_Settle e) s = stop_settle canon e s"
| "svc_exec canon E_Crash s = new_service (sv_db s) (sv_log s)"

inductive svc_step :: "(string \<Rightarrow> string) \<Rightarrow> service \<Rightarrow> service \<Rightarrow> bool" for canon where
  svc_event: "svc_step canon s (svc_exec canon ev s)"

definition svc_runs :: "(string \<Rightarrow> string) \<Rightarrow> svc_event list \<Rightarrow> service \<Rightarrow> service" where
  "svc_runs canon evs s = fold (svc_exec canon) evs s"

lemma svc_runs_steps: "(svc_step canon)\<^sup>*\<^sup>* s (svc_runs canon evs s)"
proof (induction evs arbitrary: s)
  case (Cons ev evs)
  have "(svc_step canon)\<^sup>*\<^sup>* s (svc_exec canon ev s)" by (blast intro: svc_event)
  then show ?case using Cons[of "svc_exec canon ev s"] by (simp add: svc_runs_def)
qed (simp add: svc_runs_def)

end
