(* ===== verification/Outbox_Service_Props.thy ===== *)
theory Outbox_Service_Props
  imports Outbox_Service
begin

text \<open>
  What the service guarantees over every interleaving of requests, sections of the worker's job, reconciliation,
  shutdown and crashes. The invariant links three things: the rows of the store, the copies of rows that
  jobs and threads hold, and the effects on the client. \<open>calm\<close> collects the operations that click nothing; they
  all keep the invariant for the same reasons.
\<close>

section \<open>Copies of rows\<close>

text \<open>A held copy is the present row or an older version of it.\<close>

definition past_row :: "outbox_db \<Rightarrow> task \<Rightarrow> bool" where
  "past_row db r \<longleftrightarrow> (\<exists>u \<in> set (db_tasks db). t_id u = t_id r \<and> (u = r \<or> t_version r < t_version u))"

definition rows_rel :: "outbox_db \<Rightarrow> outbox_db \<Rightarrow> bool" where
  "rows_rel db db' \<longleftrightarrow> (\<forall>t \<in> set (db_tasks db). \<exists>u \<in> set (db_tasks db'). t_id u = t_id t
     \<and> (u = t \<or> t_version t < t_version u) \<and> (t_may_have_sent t \<longrightarrow> t_may_have_sent u))"

lemma rows_rel_sub: "set (db_tasks db) \<subseteq> set (db_tasks db') \<Longrightarrow> rows_rel db db'"
  by (auto simp: rows_rel_def)

lemma rows_rel_trans:
  assumes "rows_rel a b" "rows_rel b c"
  shows "rows_rel a c"
  unfolding rows_rel_def
proof
  fix t assume "t \<in> set (db_tasks a)"
  then obtain u where u: "u \<in> set (db_tasks b)" "t_id u = t_id t" "u = t \<or> t_version t < t_version u"
    "t_may_have_sent t \<longrightarrow> t_may_have_sent u"
    using assms(1) by (auto simp: rows_rel_def)
  then obtain v where "v \<in> set (db_tasks c)" "t_id v = t_id u" "v = u \<or> t_version u < t_version v"
    "t_may_have_sent u \<longrightarrow> t_may_have_sent v"
    using assms(2) by (auto simp: rows_rel_def)
  with u show "\<exists>u \<in> set (db_tasks c). t_id u = t_id t \<and> (u = t \<or> t_version t < t_version u)
     \<and> (t_may_have_sent t \<longrightarrow> t_may_have_sent u)"
    by (metis less_trans)
qed

lemma db_step_rows:
  assumes ok: "db_ok db" and step: "db_step db db'"
  shows "rows_rel db db'"
  using step
proof (cases rule: db_step.cases)
  case db_schema
  then show ?thesis using ok by (intro rows_rel_sub) (auto simp: initialize_def Let_def db_ok_def)
next
  case (db_insert t)
  then show ?thesis by (intro rows_rel_sub) auto
next
  case (db_save prev kind cur ch now)
  have rows: "set (db_tasks db') = insert cur (set (db_tasks db) - {prev})"
    unfolding save_row_InrD(2)[OF db_save(5)]
    by (rule update_same_row[OF db_okD(8)[OF ok] db_save(3)])
  have "task_ok prev" by (rule db_okD(2)[OF ok db_save(3)])
  then have "t_id cur = t_id prev" "t_version prev < t_version cur" "t_may_have_sent prev \<longrightarrow> t_may_have_sent cur"
    using task_step_identity[OF db_save(4)] task_step_version[OF db_save(4)] task_step_sent_mono[OF db_save(4)]
    by (auto simp: same_identity_def)
  then show ?thesis by (auto simp: rows_rel_def rows)
qed

interpretation rows: tracked_system db_step db_ok rows_rel
  by unfold_locales (blast intro: db_step_ok rows_rel_trans db_step_rows rows_rel_sub)+

lemma past_row_mono: "past_row db r \<Longrightarrow> rows_rel db db' \<Longrightarrow> past_row db' r"
  unfolding past_row_def rows_rel_def by (metis less_trans)

lemma past_row_mem: "t \<in> set (db_tasks db) \<Longrightarrow> past_row db t"
  by (auto simp: past_row_def)

text \<open>A held copy with the present version is the present row.\<close>

lemma past_row_present:
  assumes "db_ok db" "past_row db r" "t \<in> set (db_tasks db)" "t_id t = t_id r" "t_version t = t_version r"
  shows "t = r"
proof -
  obtain u where u: "u \<in> set (db_tasks db)" "t_id u = t_id r" "u = r \<or> t_version r < t_version u"
    using assms(2) by (auto simp: past_row_def)
  have "inj_on t_id (set (db_tasks db))" using db_okD(8)[OF assms(1)] by (simp add: distinct_map)
  then have "u = t" using u(1,2) assms(3,4) by (metis inj_onD)
  with u assms(5) show ?thesis by auto
qed

section \<open>The invariant\<close>

definition clicks :: "effect list \<Rightarrow> string list" where
  "clicks es = List.map_filter (\<lambda>x. case x of Eff_Click i _ \<Rightarrow> Some i | _ \<Rightarrow> None) es"

lemma clicks_simps [simp]:
  "clicks [] = []" "clicks (xs @ ys) = clicks xs @ clicks ys"
  "clicks (Eff_Click i d # es) = i # clicks es" "clicks (Eff_Confirm i d # es) = clicks es"
  "clicks (Eff_Goto i l # es) = clicks es" "clicks (Eff_Input i c # es) = clicks es"
  by (simp_all add: clicks_def List.map_filter_def)

lemma click_mem: "Eff_Click i d \<in> set es \<Longrightarrow> i \<in> set (clicks es)"
  by (induction es) (auto split: effect.splits simp: clicks_def List.map_filter_def)

definition jobs :: "service \<Rightarrow> job set" where
  "jobs s = (\<lambda>kv. q_fn (snd kv)) ` set (tq_requests (sv_queue s))"

definition confirmed :: "effect list \<Rightarrow> task \<Rightarrow> bool" where
  "confirmed es t \<longleftrightarrow> Eff_Confirm (t_id t) (t_screenshot_digest t) \<in> set es"

definition job_ok :: "outbox_db \<Rightarrow> effect list \<Rightarrow> job \<Rightarrow> bool" where
  "job_ok db es j \<longleftrightarrow> past_row db (jb_task j) \<and> (jb_send j \<longrightarrow> confirmed es (jb_task j))"

definition run_ok :: "outbox_db \<Rightarrow> effect list \<Rightarrow> run \<Rightarrow> bool" where
  "run_ok db es rn \<longleftrightarrow> job_ok db es (rn_job rn) \<and> past_row db (rn_record rn)
     \<and> (rn_phase rn \<in> {Ph_Final_Frame, Ph_Input} \<longrightarrow> confirmed es (rn_record rn))
     \<and> (rn_phase rn = Ph_Input \<longrightarrow> \<not> t_may_have_sent (rn_record rn))"

definition clicks_ok :: "outbox_db \<Rightarrow> effect list \<Rightarrow> bool" where
  "clicks_ok db es \<longleftrightarrow> distinct (clicks es)
     \<and> (\<forall>i \<in> set (clicks es). \<exists>t \<in> set (db_tasks db). t_id t = i \<and> t_may_have_sent t)
     \<and> (\<forall>i d. Eff_Click i d \<in> set es \<longrightarrow> Eff_Confirm i d \<in> set es)"

definition svc_inv :: "service \<Rightarrow> bool" where
  "svc_inv s \<longleftrightarrow> db_ok (sv_db s) \<and> clicks_ok (sv_db s) (sv_log s)
     \<and> (\<forall>j \<in> jobs s. job_ok (sv_db s) (sv_log s) j)
     \<and> (\<forall>rn. sv_run s = Some rn \<longrightarrow> run_ok (sv_db s) (sv_log s) rn)
     \<and> (\<forall>w \<in> set (sv_submitting s). past_row (sv_db s) (snd w))"

lemma svc_invD:
  assumes "svc_inv s"
  shows "db_ok (sv_db s)" "clicks_ok (sv_db s) (sv_log s)"
    and "j \<in> jobs s \<Longrightarrow> job_ok (sv_db s) (sv_log s) j"
    and "sv_run s = Some rn \<Longrightarrow> run_ok (sv_db s) (sv_log s) rn"
    and "(a, t) \<in> set (sv_submitting s) \<Longrightarrow> past_row (sv_db s) t"
  using assms by (auto simp: svc_inv_def)

section \<open>Operations that click nothing\<close>

definition calm :: "job set \<Rightarrow> service \<Rightarrow> service \<Rightarrow> bool" where
  "calm J s s' \<longleftrightarrow> (db_ok (sv_db s) \<longrightarrow> db_step\<^sup>*\<^sup>* (sv_db s) (sv_db s'))
     \<and> (\<exists>es. sv_log s' = sv_log s @ es \<and> clicks es = []) \<and> jobs s' \<subseteq> jobs s \<union> J
     \<and> sv_run s' \<in> {sv_run s, None} \<and> set (sv_submitting s') \<subseteq> set (sv_submitting s)"

lemma calm_refl [simp]: "calm J s s"
  by (auto simp: calm_def)

lemma calm_trans:
  assumes "calm J s t" "calm J t u"
  shows "calm J s u"
proof -
  have "db_step\<^sup>*\<^sup>* (sv_db s) (sv_db u)" if ok: "db_ok (sv_db s)"
  proof -
    have st: "db_step\<^sup>*\<^sup>* (sv_db s) (sv_db t)" using assms(1) ok by (simp add: calm_def)
    moreover have "db_ok (sv_db t)" using outbox.steps_inv[OF st ok] .
    ultimately show ?thesis using assms(2) by (auto simp: calm_def)
  qed
  moreover have "\<exists>es. sv_log u = sv_log s @ es \<and> clicks es = []"
    using assms by (fastforce simp: calm_def)
  ultimately show ?thesis using assms by (auto simp: calm_def)
qed

lemma calm_mono: "calm J s t \<Longrightarrow> J \<subseteq> K \<Longrightarrow> calm K s t"
  by (auto simp: calm_def)

lemma calm_same:
  assumes "sv_db t = sv_db s" "sv_log t = sv_log s" "sv_queue t = sv_queue s"
    "sv_run t \<in> {sv_run s, None}" "set (sv_submitting t) \<subseteq> set (sv_submitting s)"
  shows "calm J s t"
  using assms by (auto simp: calm_def jobs_def)

lemma calm_log: "clicks es = [] \<Longrightarrow> calm J s (s\<lparr>sv_log := sv_log s @ es\<rparr>)"
  by (auto simp: calm_def jobs_def)

lemma calm_db: "(db_ok (sv_db s) \<Longrightarrow> db_step\<^sup>*\<^sup>* (sv_db s) db) \<Longrightarrow> calm J s (s\<lparr>sv_db := db\<rparr>)"
  by (auto simp: calm_def jobs_def)

text \<open>What a longer history keeps.\<close>

lemma confirmed_append: "confirmed es t \<Longrightarrow> confirmed (es @ fs) t"
  by (simp add: confirmed_def)

lemma job_ok_mono: "job_ok db es j \<Longrightarrow> rows_rel db db' \<Longrightarrow> job_ok db' (es @ fs) j"
  by (auto simp: job_ok_def confirmed_append intro: past_row_mono)

lemma run_ok_mono: "run_ok db es rn \<Longrightarrow> rows_rel db db' \<Longrightarrow> run_ok db' (es @ fs) rn"
  by (auto simp: run_ok_def confirmed_append intro: past_row_mono job_ok_mono)

lemma clicks_ok_mono:
  assumes "clicks_ok db es" "rows_rel db db'" "clicks fs = []"
  shows "clicks_ok db' (es @ fs)"
proof -
  have "Eff_Click i d \<notin> set fs" for i d using click_mem[of i d fs] assms(3) by auto
  moreover have "\<exists>t \<in> set (db_tasks db'). t_id t = i \<and> t_may_have_sent t" if i: "i \<in> set (clicks es)" for i
  proof -
    obtain t where "t \<in> set (db_tasks db)" "t_id t = i" "t_may_have_sent t"
      using assms(1) i by (auto simp: clicks_ok_def)
    then show ?thesis using assms(2) by (fastforce simp: rows_rel_def)
  qed
  ultimately show ?thesis using assms by (auto simp: clicks_ok_def)
qed

lemma calm_rows:
  assumes "calm J s t" "db_ok (sv_db s)"
  shows "rows_rel (sv_db s) (sv_db t)" "db_ok (sv_db t)"
proof -
  have st: "db_step\<^sup>*\<^sup>* (sv_db s) (sv_db t)" using assms by (simp add: calm_def)
  show "rows_rel (sv_db s) (sv_db t)" "db_ok (sv_db t)"
    using rows.steps_rel[OF st assms(2)] outbox.steps_inv[OF st assms(2)] .
qed

lemma svc_inv_calm:
  assumes inv: "svc_inv s" and calm: "calm J s t"
    and new: "\<And>j. j \<in> J \<Longrightarrow> job_ok (sv_db t) (sv_log t) j"
  shows "svc_inv t"
proof -
  note rows = calm_rows[OF calm svc_invD(1)[OF inv]]
  obtain es where es: "sv_log t = sv_log s @ es" "clicks es = []" using calm by (auto simp: calm_def)
  have "clicks_ok (sv_db t) (sv_log t)"
    unfolding es(1) by (rule clicks_ok_mono[OF svc_invD(2)[OF inv] rows(1) es(2)])
  moreover have "job_ok (sv_db t) (sv_log t) j" if "j \<in> jobs t" for j
  proof (cases "j \<in> J")
    case False
    then have "j \<in> jobs s" using that calm by (auto simp: calm_def)
    then show ?thesis using job_ok_mono[OF svc_invD(3)[OF inv] rows(1)] es(1) by simp
  qed (rule new)
  moreover have "run_ok (sv_db t) (sv_log t) rn" if "sv_run t = Some rn" for rn
  proof -
    have "sv_run s = Some rn" using that calm by (auto simp: calm_def)
    then show ?thesis using run_ok_mono[OF svc_invD(4)[OF inv] rows(1)] es(1) by simp
  qed
  moreover have "past_row (sv_db t) (snd w)" if "w \<in> set (sv_submitting t)" for w
  proof -
    have "w \<in> set (sv_submitting s)" using that calm by (auto simp: calm_def)
    then show ?thesis using past_row_mono[OF svc_invD(5)[OF inv, of "fst w" "snd w"] rows(1)] by simp
  qed
  ultimately show ?thesis using rows(2) by (simp add: svc_inv_def)
qed

text \<open>The operations.\<close>

lemma calm_note_written: "(db_ok (sv_db s) \<Longrightarrow> db_step\<^sup>*\<^sup>* (sv_db s) db) \<Longrightarrow> calm J s (note_written t cur db s)"
  by (auto simp: calm_def jobs_def note_written_def)

lemma calm_move [simp]: "calm J s (snd (move canon now t st ch s))"
  using store_transition_run[of "sv_db s" canon "t_id t" "[status_name (t_status t)]" "Some (t_version t)"
      "t_seller t" "t_data_dir t" "(C_status, PStr (status_name st)) # ch" now]
  by (auto simp: move_def split_beta split: sum.splits intro!: calm_note_written)

lemma calm_update [simp]: "calm J s (snd (svc_update canon now t ch s))"
  using store_update_fields_run[of "sv_db s" canon "t_id t" "[status_name (t_status t)]" "Some (t_version t)"
      "t_seller t" "t_data_dir t" ch now]
  by (auto simp: svc_update_def split_beta split: sum.splits intro!: calm_note_written)

lemma calm_drop [simp]: "calm J s (drop_pending i s)"
  by (rule calm_same) (simp_all add: drop_pending_def)

text \<open>Each of these also as a step of a longer chain.\<close>

lemmas calm_chain1 [simp] = calm_trans[OF _ calm_move] calm_trans[OF _ calm_update] calm_trans[OF _ calm_drop]

lemma calm_flush_entry [simp]: "calm J s (flush_entry canon faults now i w s)"
  by (simp add: flush_entry_def Let_def split_beta split: sum.splits option.splits)

lemma calm_flush_entries [simp]: "calm J s (flush_entries canon faults clock k ps s)"
  by (induction canon faults clock k ps s rule: flush_entries.induct)
    (auto intro: calm_trans[OF calm_flush_entry])

lemma calm_flush [simp]: "calm J s (flush_terminal_writes canon e s)"
  by (simp add: flush_terminal_writes_def)

lemma calm_note_failure [simp]: "calm J s (note_failure t reason s)"
  by (rule calm_same) (simp_all add: note_failure_def)

lemma calm_fail [simp]: "calm J s (fail_if_current canon e t reason s)"
  using calm_trans[OF calm_note_failure calm_flush, where J = J and s = s]
  by (simp add: fail_if_current_def)

lemma jobs_queue_fields [simp]:
  "jobs (s\<lparr>sv_db := x\<rparr>) = jobs s" "jobs (s\<lparr>sv_log := l\<rparr>) = jobs s" "jobs (s\<lparr>sv_run := r\<rparr>) = jobs s"
  "jobs (s\<lparr>sv_active := a\<rparr>) = jobs s" "jobs (s\<lparr>sv_attempts := b\<rparr>) = jobs s"
  "jobs (s\<lparr>sv_submitting := c\<rparr>) = jobs s" "jobs (s\<lparr>sv_stopping := d\<rparr>) = jobs s"
  "jobs (s\<lparr>sv_shots := f\<rparr>) = jobs s" "jobs (s\<lparr>sv_started := d\<rparr>) = jobs s"
  by (simp_all add: jobs_def)

lemma update_rows_fn:
  assumes "\<And>r. q_fn (f r) = q_fn r"
  shows "(\<lambda>kv. q_fn (snd kv)) ` set (update_rows P (apsnd f) rs) = (\<lambda>kv. q_fn (snd kv)) ` set rs"
  by (induction rs) (auto simp: assms)

lemma jobs_set_request:
  assumes "\<And>r. q_fn (f r) = q_fn r" "tq_requests q' = tq_requests (set_request i f q)"
  shows "jobs (s\<lparr>sv_queue := q'\<rparr>) = jobs (s\<lparr>sv_queue := q\<rparr>)"
  by (simp add: jobs_def assms(2) set_request_def update_rows_fn[of f, OF assms(1)])

lemma jobs_finish [simp]: "jobs (s\<lparr>sv_queue := worker_finish r now q\<rparr>) = jobs (s\<lparr>sv_queue := q\<rparr>)"
proof (cases "tq_running q")
  case (Some i)
  show ?thesis
    by (rule jobs_set_request[where i = i and f = "finished_request (job_result r) now"])
      (simp_all add: worker_finish_def Some finished_request_def)
qed (simp add: worker_finish_def)

lemma jobs_same_queue [simp]: "jobs (s\<lparr>sv_queue := sv_queue s\<rparr>) = jobs s"
  by (simp add: jobs_def)

lemma calm_finish_queue [simp]: "calm J s (s\<lparr>sv_queue := worker_finish r now (sv_queue s)\<rparr>)"
  by (auto simp: calm_def)

lemma jobs_enqueue:
  "jobs (s\<lparr>sv_queue := snd (enqueue j d now fresh (sv_queue s))\<rparr>) \<subseteq> insert j (jobs s)"
proof
  fix x assume "x \<in> jobs (s\<lparr>sv_queue := snd (enqueue j d now fresh (sv_queue s))\<rparr>)"
  then obtain i r where ir: "(i, r) \<in> set (tq_requests (snd (enqueue j d now fresh (sv_queue s))))" "x = q_fn r"
    by (auto simp: jobs_def)
  have put: "(i, r) \<in> set (alist_put k v rs) \<Longrightarrow> (i, r) = (k, v) \<or> (i, r) \<in> set rs" for k v rs
    by (induction rs) (auto split: if_splits)
  have "r = new_request fresh j d now \<or> (i, r) \<in> set (tq_requests (sv_queue s))"
    using ir(1) put by (fastforce simp: enqueue_def Let_def evict_def split: if_splits)
  then show "x \<in> insert j (jobs s)"
    using ir(2) by (auto simp: jobs_def new_request_def image_iff) (metis snd_conv)
qed

lemma calm_enqueue:
  "calm {\<lparr>jb_task = t, jb_binding = b, jb_send = send\<rparr>} s (svc_enqueue canon e t b send s)"
proof -
  let ?j = "\<lparr>jb_task = t, jb_binding = b, jb_send = send\<rparr>"
  obtain d r q where q: "enqueue ?j d (ev_clock e 0) (ev_fresh e 0) (sv_queue s) = (r, q)"
    and d: "d = ''Outbox '' @ (if send then ''input/send'' else ''navigation'') @ '' '' @ t_id t"
    by (metis surj_pair)
  have step: "calm {?j} s (s\<lparr>sv_queue := q\<rparr>)"
    using jobs_enqueue[of ?j d "ev_clock e 0" "ev_fresh e 0" s] q by (auto simp: calm_def)
  have "svc_enqueue canon e t b send s = (case r of
      Inl x \<Rightarrow> fail_if_current canon e t (err_text x) (s\<lparr>sv_queue := q\<rparr>) | Inr _ \<Rightarrow> s\<lparr>sv_queue := q\<rparr>)"
    unfolding svc_enqueue_def q[unfolded d] by simp
  then show ?thesis using calm_trans[OF step calm_fail] step by (simp split: sum.splits)
qed

lemma calm_start [simp]: "calm J s (snd (svc_start e s))"
proof -
  have "db_step\<^sup>*\<^sup>* (sv_db s) (snd (store_recover (ev_clock e) (initialize (sv_db s))))" if "db_ok (sv_db s)"
    using store_recover_run[OF db_ok_initialize[OF that], of "ev_clock e"] db_schema[of "sv_db s"]
    by (blast intro: converse_rtranclp_into_rtranclp)
  then show ?thesis
    by (auto simp: svc_start_def split_beta calm_def split: sum.splits)
qed

lemma calm_finish [simp]: "calm J s (finish_run canon e failure message s)"
proof (cases "sv_run s")
  case (Some rn)
  define tid where "tid = t_id (jb_task (rn_job rn))"
  define s1 where "s1 = s\<lparr>sv_run := None, sv_active := alist_del tid (sv_active s)\<rparr>"
  define s2 where "s2 = (case map_of (sv_active s) tid of
       None \<Rightarrow> s1
     | Some cur \<Rightarrow>
         (case failure of
            Some reason \<Rightarrow> fail_if_current canon e cur reason s1
          | None \<Rightarrow>
              if t_status cur \<notin> {Queued, Awaiting_Confirmation, Queued_Send}
              then s1\<lparr>sv_attempts := alist_del tid (sv_attempts s1)\<rparr> else s1))"
  have "calm J s s1" by (rule calm_same) (simp_all add: s1_def)
  moreover have "calm J s1 s2"
    by (auto simp: s2_def split: option.splits intro!: calm_same)
  moreover have "finish_run canon e failure message s = s2\<lparr>sv_queue := worker_finish
      (Inr (case failure of Some reason \<Rightarrow> (False, reason) | None \<Rightarrow> (True, message)))
      (ev_clock e 9) (sv_queue s2)\<rparr>"
    by (simp only: finish_run_def Some option.case Let_def tid_def s1_def s2_def)
  ultimately show ?thesis by (metis calm_finish_queue calm_trans)
qed (simp add: finish_run_def)

lemma calm_fail_run [simp]: "calm J s (fail_run canon e reason s)"
  by (simp add: fail_run_def)

lemma calm_drop_job [simp]: "calm J s (drop_job e reason s)"
  by (simp add: drop_job_def)

lemmas calm_chain2 [simp] =
  calm_trans[OF _ calm_flush] calm_trans[OF _ calm_fail] calm_trans[OF _ calm_finish]
  calm_trans[OF _ calm_fail_run] calm_trans[OF _ calm_drop_job]

lemma calm_logI [simp]: "calm J s t \<Longrightarrow> clicks es = [] \<Longrightarrow> calm J s (t\<lparr>sv_log := sv_log t @ es\<rparr>)"
  by (rule calm_trans[OF _ calm_log])

lemma calm_shots [simp]: "calm J s (s\<lparr>sv_shots := x\<rparr>)"
  by (rule calm_same) simp_all

lemma calm_save_frame [simp]: "calm J s (snd (save_frame canon e k t digest reason s))"
  by (simp add: save_frame_def)

lemmas calm_chain3 [simp] = calm_trans[OF _ calm_save_frame]

lemma calm_proof_move [simp]: "calm J s (snd (proof_move canon now t p s))"
  by (simp add: proof_move_def split_beta)

lemma calm_reconcile_tasks [simp]:
  "calm J s (snd (reconcile_tasks canon clock k contact snapshot others ts s))"
proof (induction ts arbitrary: k s)
  case (Cons t ts)
  show ?case
    using Cons.IH
    by (auto simp: split_beta split: sum.splits intro: calm_trans[OF calm_proof_move])
qed simp

lemma calm_reconcile [simp]:
  "calm J s (snd (reconcile_begin canon e a s))"
  "calm J s (snd (reconcile_contact canon e a current contact snapshot s))"
  by (simp_all add: reconcile_begin_def reconcile_contact_def Let_def split: sum.splits)

lemma calm_stop_attempts [simp]: "calm J s (stop_attempts canon e bs s)"
proof (induction bs arbitrary: s)
  case (Cons ib bs)
  obtain i b where ib: "ib = (i, b)" by (cases ib)
  define t where "t = (if i \<in> fst ` set (sv_active s) then s
        else case svc_get canon (at_account b) i s of
               Inr (Some t) \<Rightarrow>
                 if t_status t \<in> set non_executing_statuses
                 then fail_if_current canon e t ''shutdown_before_execution'' s else s
             | _ \<Rightarrow> s)"
  have "calm J s t" by (simp add: t_def split: sum.splits option.splits)
  moreover have "stop_attempts canon e (ib # bs) s = stop_attempts canon e bs t" by (simp add: ib t_def)
  ultimately show ?case using calm_trans Cons.IH by metis
qed simp

lemma calm_stop_active [simp]: "calm J s (stop_active canon clock k ts s)"
proof (induction canon clock k ts s rule: stop_active.induct)
  case (2 canon clock k t ts s)
  then show ?case by (auto intro: calm_trans[OF calm_move])
qed simp

lemma calm_stop [simp]:
  "calm J s (stop_request s)" "calm J s (stop_sweep canon e s)" "calm J s (stop_settle canon e s)"
proof -
  show "calm J s (stop_request s)" by (rule calm_same) (simp_all add: stop_request_def)
  show "calm J s (stop_sweep canon e s)" by (simp add: stop_sweep_def)
  have "calm J t (t\<lparr>sv_attempts := []\<rparr>)" for t by (rule calm_same) simp_all
  then show "calm J s (stop_settle canon e s)"
    unfolding stop_settle_def by (rule calm_trans[rotated]) simp
qed

lemma calm_cancel [simp]: "calm J s (snd (svc_cancel canon e a tid v s))"
proof -
  have "calm J s (s\<lparr>sv_db := snd (store_cancel canon tid v x y r now (sv_db s)), sv_attempts := b\<rparr>)" for x y r now b
    using store_transition_run by (auto simp: calm_def store_cancel_def jobs_def)
  then show ?thesis by (simp add: svc_cancel_def Let_def split_beta split: sum.splits)
qed

section \<open>Operations that hand out work\<close>

text \<open>What a successful write gives: the row it replaced, and the new row, which is now stored.\<close>

lemma save_row_mem:
  assumes "save_row prev ch k now db = Inr (cur, db')" "prev \<in> set (db_tasks db)"
  shows "cur \<in> set (db_tasks db')"
proof -
  have "same_row prev prev" by (simp add: same_row_def in_scope_def)
  then show ?thesis using assms(2) by (auto simp: save_row_InrD(2)[OF assms(1)] set_update_rows image_iff)
qed

lemma move_InrD:
  assumes "move canon now t st ch s = (Inr cur, s')"
  obtains prev where "prev \<in> set (db_tasks (sv_db s))" "t_id prev = t_id t" "t_version prev = t_version t"
    "task_step Ev_Transition prev cur" "cur = saved_task prev ((C_status, PStr (status_name st)) # ch) now"
    "cur \<in> set (db_tasks (sv_db s'))" "sv_log s' = sv_log s"
proof -
  obtain r db where "store_transition canon (t_id t) [status_name (t_status t)] (Some (t_version t))
      (t_seller t) (t_data_dir t) ((C_status, PStr (status_name st)) # ch) now (sv_db s) = (r, db)"
    by (metis surj_pair)
  then have tr: "store_transition canon (t_id t) [status_name (t_status t)] (Some (t_version t))
      (t_seller t) (t_data_dir t) ((C_status, PStr (status_name st)) # ch) now (sv_db s) = (Inr cur, db)"
    and s': "s' = note_written t cur db s"
    using assms by (auto simp: move_def split: sum.splits)
  from tr obtain prev where p: "expected_row canon (sv_db s) (t_id t) (t_seller t) (t_data_dir t)
      [status_name (t_status t)] (Some (t_version t)) = Inr prev"
    "task_step Ev_Transition prev cur"
    "save_row prev ((C_status, PStr (status_name st)) # ch) Ev_Transition now (sv_db s) = Inr (cur, db)"
    by (rule store_transition_InrD)
  note row = expected_rowD[OF p(1)]
  show thesis
    by (rule that[OF row(2,3) row(6)[OF refl] p(2) save_row_InrD(1)[OF p(3)]])
      (use save_row_mem[OF p(3) row(2)] in \<open>simp_all add: s' note_written_def\<close>)
qed

lemma update_InrD:
  assumes "svc_update canon now t ch s = (Inr cur, s')"
  obtains prev where "prev \<in> set (db_tasks (sv_db s))" "t_id prev = t_id t" "t_version prev = t_version t"
    "task_step Ev_Update_Fields prev cur" "cur = saved_task prev ch now"
    "cur \<in> set (db_tasks (sv_db s'))" "sv_log s' = sv_log s" "sv_run s' = sv_run s"
proof -
  obtain r db where "store_update_fields canon (t_id t) [status_name (t_status t)] (Some (t_version t))
      (t_seller t) (t_data_dir t) ch now (sv_db s) = (r, db)"
    by (metis surj_pair)
  then have tr: "store_update_fields canon (t_id t) [status_name (t_status t)] (Some (t_version t))
      (t_seller t) (t_data_dir t) ch now (sv_db s) = (Inr cur, db)"
    and s': "s' = note_written t cur db s"
    using assms by (auto simp: svc_update_def split: sum.splits)
  from tr obtain prev where p: "expected_row canon (sv_db s) (t_id t) (t_seller t) (t_data_dir t)
      [status_name (t_status t)] (Some (t_version t)) = Inr prev"
    "task_step Ev_Update_Fields prev cur"
    "save_row prev ch Ev_Update_Fields now (sv_db s) = Inr (cur, db)"
    by (rule store_update_fields_InrD)
  note row = expected_rowD[OF p(1)]
  show thesis
    by (rule that[OF row(2,3) row(6)[OF refl] p(2) save_row_InrD(1)[OF p(3)]])
      (use save_row_mem[OF p(3) row(2)] in \<open>simp_all add: s' note_written_def\<close>)
qed

lemma require_mem:
  assumes "require canon a tid s = Inr t"
  shows "t \<in> set (db_tasks (sv_db s))" "t_id t = tid"
proof -
  have "store_get canon (sv_db s) tid (ac_seller a) (ac_data_dir a) = Inr (Some t)"
    using assms by (auto simp: require_def svc_get_def and_then_Inr_iff split: option.splits)
  then obtain sc where "(case read_rows (\<lambda>x. t_id x = tid \<and> in_scope sc x) (sv_db s) of
      [] \<Rightarrow> None | u # _ \<Rightarrow> Some u) = Some t"
    unfolding store_get_def and_then_Inr_iff by blast
  then have "t \<in> set (read_rows (\<lambda>x. t_id x = tid \<and> in_scope sc x) (sv_db s))"
    by (simp split: list.splits)
  then show "t \<in> set (db_tasks (sv_db s))" "t_id t = tid"
    by (auto simp: read_rows_def split: if_splits)
qed

lemma store_create_mem:
  assumes "store_create canon sl d cv c l x a k r ep i now db = (Inr (t, True), db')"
  shows "t \<in> set (db_tasks db')"
  using assms by (auto simp: store_create_def write_txn_def Let_def split: sum.splits option.splits if_splits)

lemma svc_inv_calm0: "svc_inv s \<Longrightarrow> calm {} s t \<Longrightarrow> svc_inv t"
  by (rule svc_inv_calm[where J = "{}"]) auto

lemma svc_inv_set_phase:
  assumes inv: "svc_inv s"
    and ok: "\<And>rn. sv_run s = Some rn \<Longrightarrow> run_ok (sv_db s) (sv_log s) (rn\<lparr>rn_phase := ph, rn_record := t\<rparr>)"
  shows "svc_inv (set_phase ph t s)"
  using inv ok by (auto simp: svc_inv_def set_phase_def)

text \<open>A held record that a write replaced is the row itself.\<close>

lemma written_row:
  assumes "db_ok db" "past_row db t" "prev \<in> set (db_tasks db)" "t_id prev = t_id t" "t_version prev = t_version t"
  shows "prev = t" "task_ok t"
  using past_row_present[OF assms] db_okD(2)[OF assms(1,3)] by auto

lemma saved_status_only:
  assumes "map_of ch C_screenshot_digest = None" "map_of ch C_may_have_sent = None"
  shows "t_screenshot_digest (saved_task t ch now) = t_screenshot_digest t"
    and "t_may_have_sent (saved_task t ch now) = t_may_have_sent t"
  using assms by (simp_all add: saved_task_fields)

lemma inv_submit_create:
  assumes inv: "svc_inv s"
  shows "svc_inv (snd (submit_create canon e a cv c l x act k r s))"
proof -
  obtain q s1 where st: "svc_start e s = (q, s1)" by (metis surj_pair)
  have inv1: "svc_inv s1" using svc_inv_calm0[OF inv calm_start[of "{}" s e]] st by simp
  show ?thesis
  proof (cases q)
    case (Inl y)
    then show ?thesis using inv1 by (simp add: submit_create_def st)
  next
    case (Inr y)
    obtain r' db where cr: "store_create canon (ac_seller a) (ac_data_dir a) cv c l x act k r
        (Some (ac_epoch a)) (ev_fresh e 0) (ev_clock e 0) (sv_db s1) = (r', db)" by (metis surj_pair)
    have run: "db_step\<^sup>*\<^sup>* (sv_db s1) db"
      using store_create_run[of "sv_db s1" canon "ac_seller a" "ac_data_dir a" cv c l x act k r
        "Some (ac_epoch a)" "ev_fresh e 0" "ev_clock e 0"] by (simp add: cr)
    have inv2: "svc_inv (s1\<lparr>sv_db := db\<rparr>)" by (rule svc_inv_calm0[OF inv1 calm_db]) (rule run)
    have "svc_inv ((s1\<lparr>sv_db := db\<rparr>)\<lparr>sv_submitting := sv_submitting s1 @ [(a, t)]\<rparr>)"
      if "r' = Inr (t, True)" for t
      using inv2 past_row_mem[OF store_create_mem[OF cr[unfolded that]]]
      by (auto simp: svc_inv_def jobs_def)
    then show ?thesis using inv2
      by (simp add: submit_create_def st Inr cr Let_def split: sum.splits prod.splits bool.splits)
  qed
qed

lemma inv_enqueue:
  assumes "svc_inv s" "past_row (sv_db s) t" "send \<longrightarrow> confirmed (sv_log s) t"
  shows "svc_inv (svc_enqueue canon e t b send s)"
proof (rule svc_inv_calm[OF assms(1) calm_enqueue])
  let ?s = "svc_enqueue canon e t b send s"
  fix j assume j: "j \<in> {\<lparr>jb_task = t, jb_binding = b, jb_send = send\<rparr>}"
  note calm = calm_enqueue[of t b send s canon e]
  obtain es where es: "sv_log ?s = sv_log s @ es" using calm by (auto simp: calm_def)
  have "job_ok (sv_db s) (sv_log s) j" using j assms(2,3) by (simp add: job_ok_def)
  then show "job_ok (sv_db ?s) (sv_log ?s) j"
    unfolding es by (rule job_ok_mono[OF _ calm_rows(1)[OF calm svc_invD(1)[OF assms(1)]]])
qed

lemma inv_submit_bind:
  assumes inv: "svc_inv s"
  shows "svc_inv (snd (submit_bind canon e a t tok s))"
proof (cases "(a, t) \<in> set (sv_submitting s)")
  case True
  let ?s1 = "s\<lparr>sv_submitting := remove1 (a, t) (sv_submitting s)\<rparr>"
  have "calm {} s ?s1" using set_remove1_subset[of "(a, t)"] by (intro calm_same) auto
  then have inv1: "svc_inv ?s1" by (rule svc_inv_calm0[OF inv])
  have "svc_inv (fail_if_current canon e t m ?s1)" for m by (rule svc_inv_calm0[OF inv1]) simp
  moreover have "svc_inv (svc_enqueue canon e t b False (?s1\<lparr>sv_attempts := x\<rparr>))" for b x
  proof (rule inv_enqueue)
    show "svc_inv (?s1\<lparr>sv_attempts := x\<rparr>)" by (rule svc_inv_calm0[OF inv1 calm_same]) simp_all
  qed (use svc_invD(5)[OF inv True] in simp_all)
  ultimately show ?thesis using True by (simp add: submit_bind_def Let_def split: sum.splits)
qed (simp add: submit_bind_def inv)

lemma inv_confirm:
  assumes inv: "svc_inv s"
  shows "svc_inv (snd (confirm canon e a tid shot v ep tok s))"
proof (cases "confirm_checks canon a tid shot v ep tok s")
  case (Inr tb)
  obtain t b where tb: "tb = (t, b)" by (cases tb)
  have req: "require canon a tid s = Inr t"
    using Inr tb by (auto simp: confirm_checks_def and_then_Inr_iff split: option.splits if_splits)
  obtain r s1 where mv: "move canon (ev_clock e 0) t Queued_Send [] s = (r, s1)" by (metis surj_pair)
  have inv1: "svc_inv s1" using svc_inv_calm0[OF inv calm_move[of "{}" s canon "ev_clock e 0" t Queued_Send "[]"]] mv by simp
  show ?thesis
  proof (cases r)
    case (Inl y)
    then show ?thesis using inv1 by (simp add: confirm_def Inr tb mv)
  next
    case r: (Inr cur)
    obtain prev where p: "prev \<in> set (db_tasks (sv_db s))" "t_id prev = t_id t" "t_version prev = t_version t"
      "cur = saved_task prev [(C_status, PStr (status_name Queued_Send))] (ev_clock e 0)"
      "cur \<in> set (db_tasks (sv_db s1))"
      by (rule move_InrD[OF mv[unfolded r]]) simp
    have "prev = t"
      by (rule written_row(1)[OF svc_invD(1)[OF inv] past_row_mem[OF require_mem(1)[OF req]] p(1-3)])
    then have "t_id cur = tid" "t_screenshot_digest cur = t_screenshot_digest t"
      using p(4) require_mem(2)[OF req] by (simp_all add: saved_status_only)
    then have "confirmed (sv_log s1 @ [Eff_Confirm tid (t_screenshot_digest t)]) cur"
      by (simp add: confirmed_def)
    then have "svc_inv (svc_enqueue canon e cur b True
        (s1\<lparr>sv_log := sv_log s1 @ [Eff_Confirm tid (t_screenshot_digest t)]\<rparr>))"
      using svc_inv_calm0[OF inv1 calm_log] past_row_mem[OF p(5)] by (intro inv_enqueue) simp_all
    then show ?thesis by (simp add: confirm_def Inr tb mv r Let_def)
  qed
qed (simp add: confirm_def inv)

lemma store_retry_mem:
  assumes "store_retry canon tid v sl d now db = (Inr u, db')"
  shows "u \<in> set (db_tasks db')" "db_step db db'"
  using assms by (auto elim!: store_retry_InrD intro: save_row_mem expected_rowD(2) saved_step)

lemma inv_retry:
  assumes inv: "svc_inv s"
  shows "svc_inv (snd (svc_retry canon e a tid v tok s))"
proof -
  obtain q s1 where st: "svc_start e s = (q, s1)" by (metis surj_pair)
  have inv1: "svc_inv s1" using svc_inv_calm0[OF inv calm_start[of "{}" s e]] st by simp
  obtain r db where rt: "store_retry canon tid v (ac_seller a) (ac_data_dir a) (ev_clock e 0) (sv_db s1) = (r, db)"
    by (metis surj_pair)
  have "svc_inv (svc_enqueue canon e t b False (s1\<lparr>sv_db := db, sv_attempts := x\<rparr>))" if "r = Inr t" for t b x
  proof -
    note m = store_retry_mem[OF rt[unfolded that]]
    have "svc_inv (s1\<lparr>sv_db := db\<rparr>)" by (rule svc_inv_calm0[OF inv1 calm_db]) (use m(2) in auto)
    then have "svc_inv (s1\<lparr>sv_db := db, sv_attempts := x\<rparr>)"
      by (rule svc_inv_calm0) (rule calm_same, simp_all)
    then show ?thesis by (rule inv_enqueue) (simp_all add: past_row_mem[OF m(1)])
  qed
  then show ?thesis
    using inv1 by (simp add: svc_retry_def st rt Let_def split: sum.splits)
qed

lemma worker_take_jobs:
  "jobs (s\<lparr>sv_queue := snd (worker_take now (sv_queue s))\<rparr>) = jobs s"
  "fst (worker_take now (sv_queue s)) = Some j \<Longrightarrow> j \<in> jobs s"
proof -
  let ?q = "sv_queue s"
  obtain r q where w: "worker_take now ?q = (r, q)" by (metis surj_pair)
  show "jobs (s\<lparr>sv_queue := snd (worker_take now ?q)\<rparr>) = jobs s"
  proof (cases r)
    case None
    then have "tq_requests q = tq_requests ?q"
      using w by (auto simp: worker_take_def split: if_splits list.splits option.splits)
    then show ?thesis by (simp add: w jobs_def)
  next
    case (Some fn)
    show ?thesis unfolding w snd_conv
      by (rule worker_take_started[OF w[unfolded Some]],
          rule trans[OF jobs_set_request[where q = ?q]]) (auto simp: jobs_def)
  qed
  assume "fst (worker_take now ?q) = Some j"
  then obtain i r where "map_of (tq_requests ?q) i = Some r" "j = q_fn r"
    by (auto simp: worker_take_def split: if_splits list.splits option.splits)
  then show "j \<in> jobs s" by (force simp: jobs_def dest: map_of_SomeD)
qed

lemma svc_get_mem: "svc_get canon a tid s = Inr (Some t) \<Longrightarrow> t \<in> set (db_tasks (sv_db s))"
  using require_mem(1)[of canon a tid s t] by (simp add: require_def)

lemma inv_take:
  assumes inv: "svc_inv s"
  shows "svc_inv (take_job canon e now s)"
proof -
  obtain r q where w: "worker_take now (sv_queue s) = (r, q)" by (metis surj_pair)
  let ?s = "s\<lparr>sv_queue := q\<rparr>"
  have "calm {} s ?s" using worker_take_jobs(1)[where s = s and now = now] by (auto simp: calm_def w)
  then have inv1: "svc_inv ?s" by (rule svc_inv_calm0[OF inv])
  have started: "svc_inv (begin_job canon e j ?s)" if j: "r = Some j" for j
  proof -
    have ok: "job_ok (sv_db ?s) (sv_log ?s) j"
      using svc_invD(3)[OF inv worker_take_jobs(2)[of now s j]] w j by simp
    let ?t = "jb_task j"
    have dropped: "svc_inv (drop_job e m ?s)" "svc_inv (drop_job e m (fail_if_current canon e ?t m' ?s))" for m m'
      by (rule svc_inv_calm0[OF inv1], simp)+
    have "svc_inv (?s\<lparr>sv_active := x, sv_run := Some \<lparr>rn_job = j,
        rn_phase = ph, rn_record = cur, rn_baseline = None\<rparr>\<rparr>)"
      if "ph \<in> {Ph_Baseline, Ph_Guard}" "svc_get canon (at_account (jb_binding j)) (t_id ?t) ?s = Inr (Some cur)" for ph cur x
      using inv1 ok past_row_mem[OF svc_get_mem[OF that(2)]] that(1) by (auto simp: svc_inv_def run_ok_def jobs_def)
    then show ?thesis
      using dropped by (simp add: begin_job_def Let_def split: sum.splits option.splits)
  qed
  show ?thesis using inv1 started by (simp add: take_job_def w split: option.splits)
qed

text \<open>Phases that only hand on the record they have.\<close>

lemma run_ok_phase:
  assumes "run_ok db es rn" "past_row db t" "ph \<notin> {Ph_Final_Frame, Ph_Input}"
  shows "run_ok db es (rn\<lparr>rn_phase := ph, rn_record := t\<rparr>)"
  using assms by (auto simp: run_ok_def)

lemma inv_fail_run: "svc_inv s \<Longrightarrow> svc_inv (fail_run canon e m s)"
  by (erule svc_inv_calm0) simp

lemma inv_finish_run: "svc_inv s \<Longrightarrow> svc_inv (finish_run canon e f m s)"
  by (erule svc_inv_calm0) simp

lemma inv_baseline:
  assumes "svc_inv s" "sv_run s = Some rn"
  shows "svc_inv (job_baseline canon e snap rn s)"
proof -
  have "run_ok (sv_db s) (sv_log s) (rn\<lparr>rn_phase := Ph_Guard, rn_baseline := b\<rparr>)" for b
    using svc_invD(4)[OF assms] by (simp add: run_ok_def)
  then have "svc_inv (s\<lparr>sv_run := Some (rn\<lparr>rn_phase := Ph_Guard, rn_baseline := b\<rparr>)\<rparr>)" for b
    using assms(1) by (simp add: svc_inv_def)
  then show ?thesis using inv_fail_run[OF assms(1)] by (simp add: job_baseline_def split: sum.splits)
qed

lemma inv_move:
  assumes "svc_inv s" "move canon now t st ch s = (r, s')"
  shows "svc_inv s'" "sv_run s' = Some rn \<Longrightarrow> sv_run s = Some rn \<and> run_ok (sv_db s') (sv_log s') rn"
proof -
  have calm: "calm {} s s'" using calm_move[of "{}" s canon now t st ch] assms(2) by simp
  show inv: "svc_inv s'" by (rule svc_inv_calm0[OF assms(1) calm])
  show "sv_run s' = Some rn \<Longrightarrow> sv_run s = Some rn \<and> run_ok (sv_db s') (sv_log s') rn"
    using calm svc_invD(4)[OF inv] by (auto simp: calm_def)
qed

lemma inv_enter:
  assumes inv: "svc_inv s" and run: "sv_run s = Some rn"
  shows "svc_inv (job_enter canon e g rn s)"
proof -
  let ?j = "rn_job rn" and ?q = "jb_task (rn_job rn)"
  have ok: "run_ok (sv_db s) (sv_log s) rn" by (rule svc_invD(4)[OF inv run])
  have send: "svc_inv (set_phase Ph_Final_Frame t s)"
    if "require canon (at_account (jb_binding ?j)) (t_id ?q) s = Inr t" "t_version t = t_version ?q" "jb_send ?j" for t
  proof (rule svc_inv_set_phase[OF inv])
    note t = require_mem[OF that(1)]
    have "t = ?q"
      using past_row_present[OF svc_invD(1)[OF inv] _ t(1)] ok t(2) that(2) by (simp add: run_ok_def job_ok_def)
    then show "run_ok (sv_db s) (sv_log s) (rn'\<lparr>rn_phase := Ph_Final_Frame, rn_record := t\<rparr>)"
      if "sv_run s = Some rn'" for rn'
      using ok run that \<open>jb_send ?j\<close> past_row_mem[OF t(1)] by (simp add: run_ok_def job_ok_def)
  qed
  have nav: "svc_inv (set_phase Ph_Goto cur s1)"
    if mv: "move canon (ev_clock e 0) t Navigating [] s = (Inr cur, s1)" for t cur s1
  proof (rule svc_inv_set_phase[OF inv_move(1)[OF inv mv]])
    obtain "cur \<in> set (db_tasks (sv_db s1))" by (rule move_InrD[OF mv])
    then show "run_ok (sv_db s1) (sv_log s1) (rn'\<lparr>rn_phase := Ph_Goto, rn_record := cur\<rparr>)"
      if "sv_run s1 = Some rn'" for rn'
      using inv_move(2)[OF inv mv that] by (intro run_ok_phase past_row_mem) auto
  qed
  have failed: "svc_inv (fail_run canon e m s1)"
    if "move canon (ev_clock e 0) t Navigating [] s = (r, s1)" for t r s1 m
    by (rule inv_fail_run[OF inv_move(1)[OF inv that]])
  show ?thesis
    using inv_fail_run[OF inv] send nav failed
    by (auto simp: job_enter_def Let_def and_then_def split: sum.splits prod.splits)
qed

lemma inv_log:
  assumes "svc_inv s" "clicks es = []"
  shows "svc_inv (s\<lparr>sv_log := sv_log s @ es\<rparr>)"
  by (rule svc_inv_calm0[OF assms(1) calm_log[OF assms(2)]])

lemma inv_goto:
  assumes inv: "svc_inv s" and run: "sv_run s = Some rn"
  shows "svc_inv (job_goto canon e reply rn s)"
proof -
  let ?s = "s\<lparr>sv_log := sv_log s @ [Eff_Goto (t_id (rn_record rn)) (t_login_id (rn_record rn))]\<rparr>"
  have inv1: "svc_inv ?s" by (rule inv_log[OF inv]) simp
  have "svc_inv (set_phase Ph_Nav_Frame (rn_record rn) ?s)"
  proof (rule svc_inv_set_phase[OF inv1])
    fix rn' assume "sv_run ?s = Some rn'"
    then show "run_ok (sv_db ?s) (sv_log ?s) (rn'\<lparr>rn_phase := Ph_Nav_Frame, rn_record := rn_record rn\<rparr>)"
      using svc_invD(4)[OF inv1, of rn'] run by (intro run_ok_phase) (auto simp: run_ok_def)
  qed
  then show ?thesis using inv_fail_run[OF inv1] by (simp add: job_goto_def Let_def)
qed

lemma calm_finish_save:
  "calm {} s (finish_run canon e f m (snd (save_frame canon e k t d r s)))"
  "calm {} s (fail_run canon e m (snd (save_frame canon e k t d r s)))"
  by simp_all

lemma inv_save:
  assumes "svc_inv s" "save_frame canon e k t d r s = (x, s1)"
  shows "svc_inv s1"
  using svc_inv_calm0[OF assms(1) calm_save_frame[of "{}" s canon e k t d r]] assms(2) by simp

lemma inv_nav_frame:
  assumes "svc_inv s"
  shows "svc_inv (job_nav_frame canon e f rn s)"
  using inv_fail_run inv_finish_run inv_save assms
  by (auto simp: job_nav_frame_def split: sum.splits prod.splits)

text \<open>The gate: what is running afterwards was confirmed, and was not sent before.\<close>

lemma running_step:
  assumes "task_step Ev_Transition prev cur" "t_status cur = Running" "task_ok prev"
  shows "t_status prev = Queued_Send" "\<not> t_may_have_sent prev"
proof -
  have "Running \<in> set (transitions (t_status prev))"
    using task_step_legal[OF assms(1,3)] assms(2) by (simp add: legal_edge_def)
  then show st: "t_status prev = Queued_Send" by (cases "t_status prev") simp_all
  show "\<not> t_may_have_sent prev"
    by (rule task_ok_unsent[OF assms(3)]) (simp add: st sent_statuses_def)
qed

lemma inv_final_frame:
  assumes inv: "svc_inv s" and run: "sv_run s = Some rn" and ph: "rn_phase rn = Ph_Final_Frame"
  shows "svc_inv (job_final_frame canon e f rn s)"
proof -
  let ?t = "rn_record rn"
  have ok: "run_ok (sv_db s) (sv_log s) rn" by (rule svc_invD(4)[OF inv run])
  have go: "svc_inv (set_phase Ph_Input cur s1)"
    if mv: "move canon now ?t Running [(C_baseline, b)] s = (Inr cur, s1)" for now b cur s1
  proof (rule svc_inv_set_phase[OF inv_move(1)[OF inv mv]])
    obtain prev where p: "prev \<in> set (db_tasks (sv_db s))" "t_id prev = t_id ?t" "t_version prev = t_version ?t"
      "task_step Ev_Transition prev cur"
      "cur = saved_task prev [(C_status, PStr (status_name Running)), (C_baseline, b)] now"
      "cur \<in> set (db_tasks (sv_db s1))" "sv_log s1 = sv_log s"
      by (rule move_InrD[OF mv]) simp
    have prev: "prev = ?t" "task_ok ?t"
      using written_row[OF svc_invD(1)[OF inv] _ p(1-3)] ok by (auto simp: run_ok_def)
    have cur: "t_screenshot_digest cur = t_screenshot_digest ?t" "t_may_have_sent cur = t_may_have_sent ?t"
      "t_id cur = t_id ?t"
      using p(5) prev(1) by (simp_all add: saved_status_only)
    have "t_status cur = Running" using p(5) by (simp add: saved_task_fields)
    then have unsent: "\<not> t_may_have_sent ?t" using running_step(2)[OF p(4)] prev by simp
    have conf: "confirmed (sv_log s1) cur" using ok ph cur p(7) by (simp add: run_ok_def confirmed_def)
    fix rn' assume "sv_run s1 = Some rn'"
    then have "run_ok (sv_db s1) (sv_log s1) rn'" using inv_move(2)[OF inv mv] by blast
    then show "run_ok (sv_db s1) (sv_log s1) (rn'\<lparr>rn_phase := Ph_Input, rn_record := cur\<rparr>)"
      using conf unsent cur(2) past_row_mem[OF p(6)] by (simp add: run_ok_def)
  qed
  have "svc_inv (fail_run canon e m s1)" if "move canon now ?t Running [(C_baseline, b)] s = (r, s1)" for now b r s1 m
    by (rule inv_fail_run[OF inv_move(1)[OF inv that]])
  then show ?thesis
    using go inv_fail_run[OF inv] inv_finish_run inv_save[OF inv] inv_fail_run
    by (simp add: job_final_frame_def Let_def split: sum.splits prod.splits)
qed

text \<open>The click: the only step that adds one, and the row says so before.\<close>

lemma svc_inv_click:
  assumes inv: "svc_inv s" and t: "t \<in> set (db_tasks (sv_db s))" "t_may_have_sent t" "confirmed (sv_log s) t"
    and new: "t_id t \<notin> set (clicks (sv_log s))"
  shows "svc_inv (s\<lparr>sv_log := sv_log s @ [Eff_Click (t_id t) (t_screenshot_digest t)]\<rparr>)"
proof -
  let ?es = "sv_log s @ [Eff_Click (t_id t) (t_screenshot_digest t)]"
  have "clicks_ok (sv_db s) ?es"
    using svc_invD(2)[OF inv] t new by (auto simp: clicks_ok_def confirmed_def)
  moreover have "rows_rel (sv_db s) (sv_db s)" by (rule rows_rel_sub) simp
  ultimately show ?thesis
    using inv job_ok_mono[of "sv_db s" "sv_log s"] run_ok_mono[of "sv_db s" "sv_log s"]
    by (auto simp: svc_inv_def)
qed

lemma inv_input:
  assumes inv: "svc_inv s" and run: "sv_run s = Some rn" and ph: "rn_phase rn = Ph_Input"
  shows "svc_inv (job_input canon e reply stop_now sub rn s)"
proof -
  let ?t = "rn_record rn"
  define s0 where "s0 = s\<lparr>sv_log := sv_log s @ [Eff_Input (t_id ?t) (t_content ?t)]\<rparr>"
  have inv0: "svc_inv s0" unfolding s0_def by (rule inv_log[OF inv]) simp
  have ok: "run_ok (sv_db s0) (sv_log s0) rn" using svc_invD(4)[OF inv0] run by (simp add: s0_def)
  have filled: "svc_inv s1" if "move canon now ?t Filled clear_screenshot s0 = (r, s1)" for now r s1
    by (rule inv_move(1)[OF inv0 that])
  obtain r s1 where up: "svc_update canon (ev_clock e 0) ?t [(C_may_have_sent, PBool True)] s0 = (r, s1)"
    by (metis surj_pair)
  have inv1: "svc_inv s1"
    using svc_inv_calm0[OF inv0 calm_update[of "{}" s0 canon "ev_clock e 0" ?t "[(C_may_have_sent, PBool True)]"]] up
    by simp
  have stopped: "svc_inv (s1\<lparr>sv_stopping := True\<rparr>)" by (rule svc_inv_calm0[OF inv1 calm_same]) simp_all
  have clicked: "svc_inv (s1\<lparr>sv_log := sv_log s1 @ [Eff_Click (t_id cur) (t_screenshot_digest cur)]\<rparr>)
      \<and> cur \<in> set (db_tasks (sv_db s1)) \<and> sv_run s1 = Some rn"
    if r: "r = Inr cur" for cur
  proof -
    obtain prev where p: "prev \<in> set (db_tasks (sv_db s0))" "t_id prev = t_id ?t" "t_version prev = t_version ?t"
      "cur = saved_task prev [(C_may_have_sent, PBool True)] (ev_clock e 0)"
      "cur \<in> set (db_tasks (sv_db s1))" "sv_log s1 = sv_log s0" "sv_run s1 = sv_run s0"
      by (rule update_InrD[OF up[unfolded r]])
    have prev: "prev = ?t"
      using written_row(1)[OF svc_invD(1)[OF inv0] _ p(1-3)] ok by (simp add: run_ok_def)
    have cur: "t_screenshot_digest cur = t_screenshot_digest ?t" "t_may_have_sent cur" "t_id cur = t_id ?t"
      using p(4) prev by (simp_all add: saved_task_fields)
    have "t_id ?t \<notin> set (clicks (sv_log s0))"
    proof
      assume "t_id ?t \<in> set (clicks (sv_log s0))"
      then obtain u where u: "u \<in> set (db_tasks (sv_db s0))" "t_id u = t_id ?t" "t_may_have_sent u"
        using svc_invD(2)[OF inv0] by (auto simp: clicks_ok_def)
      have "inj_on t_id (set (db_tasks (sv_db s0)))"
        using db_okD(8)[OF svc_invD(1)[OF inv0]] by (simp add: distinct_map)
      then have "u = ?t" using u(1,2) p(1) prev by (metis inj_onD)
      then show False using u(3) ok ph by (simp add: run_ok_def)
    qed
    then show ?thesis
      using svc_inv_click[OF inv1 p(5) cur(2)] ok ph cur p(5,6,7) run
      by (simp add: run_ok_def confirmed_def s0_def)
  qed
  have sent: "svc_inv (set_phase Ph_Sent cur
      (s1\<lparr>sv_log := sv_log s1 @ [Eff_Click (t_id cur) (t_screenshot_digest cur)]\<rparr>))" if "r = Inr cur" for cur
  proof (rule svc_inv_set_phase)
    show inv2: "svc_inv (s1\<lparr>sv_log := sv_log s1 @ [Eff_Click (t_id cur) (t_screenshot_digest cur)]\<rparr>)"
      using clicked[OF that] by blast
    fix rn' assume "sv_run (s1\<lparr>sv_log := sv_log s1 @ [Eff_Click (t_id cur) (t_screenshot_digest cur)]\<rparr>) = Some rn'"
    then show "run_ok (sv_db (s1\<lparr>sv_log := sv_log s1 @ [Eff_Click (t_id cur) (t_screenshot_digest cur)]\<rparr>))
        (sv_log (s1\<lparr>sv_log := sv_log s1 @ [Eff_Click (t_id cur) (t_screenshot_digest cur)]\<rparr>))
        (rn'\<lparr>rn_phase := Ph_Sent, rn_record := cur\<rparr>)"
      using svc_invD(4)[OF inv2] clicked[OF that] by (intro run_ok_phase) (simp_all add: past_row_mem)
  qed
  have "job_input canon e reply stop_now sub rn s =
      (if \<not> fst reply then fail_run canon e (snd reply) s0
      else if sv_stopping s0 then fail_run canon e (err_text stopping_error) s0
      else if t_action ?t = Test
      then
        (case move canon (ev_clock e 0) ?t Filled clear_screenshot s0 of
           (Inl x, s1) \<Rightarrow> fail_run canon e (err_text x) s1
         | (Inr _, s1) \<Rightarrow> finish_run canon e None ''Text filled; no send click requested'' s1)
      else
        (case r of
           Inl x \<Rightarrow> fail_run canon e (err_text x) s1
         | Inr cur \<Rightarrow>
             if stop_now then fail_run canon e (err_text stopping_error) (s1\<lparr>sv_stopping := True\<rparr>)
             else
               (let s2 = s1\<lparr>sv_log := sv_log s1 @ [Eff_Click (t_id cur) (t_screenshot_digest cur)]\<rparr>
                in case sub of
                     Inl x \<Rightarrow> fail_run canon e (err_text x) s2
                   | Inr _ \<Rightarrow> set_phase Ph_Sent cur s2)))"
    by (simp add: job_input_def s0_def[symmetric] up)
  then show ?thesis
    using inv_fail_run[OF inv0] inv_fail_run[OF inv1] inv_fail_run[OF stopped] inv_fail_run inv_finish_run
      filled clicked sent
    by (auto simp: Let_def split: sum.splits prod.splits)
qed

lemma inv_sent:
  assumes "svc_inv s"
  shows "svc_inv (job_sent canon e reply rn s)"
  using inv_fail_run inv_finish_run inv_move(1)[OF assms] assms
  by (simp add: job_sent_def split: sum.splits prod.splits)

lemma in_phase_inv:
  assumes "svc_inv s" "\<And>rn. sv_run s = Some rn \<Longrightarrow> rn_phase rn = ph \<Longrightarrow> svc_inv (f rn s)"
  shows "svc_inv (in_phase ph f s)"
  using assms by (simp add: in_phase_def split: option.splits)

lemma svc_exec_inv:
  assumes inv: "svc_inv s"
  shows "svc_inv (svc_exec canon ev s)"
proof (cases ev)
  case (E_Start e)
  then show ?thesis using svc_inv_calm0[OF inv calm_start] by simp
next
  case (E_Submit e a c ct l x act k r)
  then show ?thesis using inv_submit_create[OF inv] by simp
next
  case (E_Bind e a t tok)
  then show ?thesis using inv_submit_bind[OF inv] by simp
next
  case (E_Confirm e a i shot v ep tok)
  then show ?thesis using inv_confirm[OF inv] by simp
next
  case (E_Cancel e a i v)
  then show ?thesis using svc_inv_calm0[OF inv calm_cancel] by simp
next
  case (E_Retry e a i v tok)
  then show ?thesis using inv_retry[OF inv] by simp
next
  case (E_Take e now)
  then show ?thesis using inv_take[OF inv] inv by simp
next
  case (E_Baseline e snap)
  then show ?thesis using inv_baseline[OF inv] by (auto intro: in_phase_inv[OF inv])
next
  case (E_Enter e g)
  then show ?thesis using inv_enter[OF inv] by (auto intro: in_phase_inv[OF inv])
next
  case (E_Goto e ok r)
  then show ?thesis using inv_goto[OF inv] by (auto intro: in_phase_inv[OF inv])
next
  case (E_Nav_Frame e f)
  then show ?thesis using inv_nav_frame[OF inv] by (auto intro: in_phase_inv[OF inv])
next
  case (E_Final_Frame e f)
  then show ?thesis using inv_final_frame[OF inv] by (auto intro: in_phase_inv[OF inv])
next
  case (E_Input e ok r st sub)
  then show ?thesis using inv_input[OF inv] by (auto intro: in_phase_inv[OF inv])
next
  case (E_Sent e ok r)
  then show ?thesis using inv_sent[OF inv] by (auto intro: in_phase_inv[OF inv])
next
  case E_Crash
  then show ?thesis using inv by (simp add: svc_inv_def new_service_def jobs_def new_queue_def)
qed (use svc_inv_calm0[OF inv] in simp_all)

interpretation outbox_service: invariant_system "svc_step canon" svc_inv for canon
  by unfold_locales (auto elim: svc_step.cases intro: svc_exec_inv)

lemma svc_inv_initial: "db_ok db \<Longrightarrow> svc_inv (new_service db [])"
  by (simp add: svc_inv_def new_service_def jobs_def new_queue_def clicks_ok_def)

section \<open>Settling a failed attempt\<close>

lemma store_get_row:
  assumes ok: "db_ok db" and t: "t \<in> set (db_tasks db)"
    and sc: "scope_of canon sl dir = Inr (t_seller t, t_data_dir t)"
  shows "store_get canon db (t_id t) sl dir = Inr (Some t)"
proof -
  let ?P = "\<lambda>x. t_id x = t_id t \<and> in_scope (t_seller t, t_data_dir t) x"
  have "inj_on t_id (set (db_tasks db))" using db_okD(8)[OF ok] by (simp add: distinct_map)
  then have same: "x = t" if "x \<in> set (db_tasks db)" "?P x" for x using that t by (metis inj_onD)
  have "t \<in> set (filter ?P (db_tasks db))" using t by (simp add: in_scope_def)
  then obtain x xs where x: "filter ?P (db_tasks db) = x # xs" by (cases "filter ?P (db_tasks db)") auto
  then have "x \<in> set (filter ?P (db_tasks db))" by simp
  then have "x = t" using same by simp
  then show ?thesis using x db_okD(7)[OF ok t] by (simp add: store_get_def sc read_rows_def)
qed

definition settle_status :: "task \<Rightarrow> ostatus" where
  "settle_status t = (if is_gui_risk (t_status t) then Unknown else Failed)"

definition settle_changes :: "task \<Rightarrow> terminal \<Rightarrow> changes" where
  "settle_changes t w = (C_status, PStr (status_name (settle_status t))) #
     [(C_reason, PStr (tw_reason w)),
      (C_evidence, PDict [(''status'', PStr (status_name (tw_status w))), (''detail'', PStr (tw_reason w))])]
     @ clear_screenshot"

definition settled_task :: "task \<Rightarrow> terminal \<Rightarrow> pytime \<Rightarrow> task" where
  "settled_task t w now = t\<lparr>t_status := settle_status t, t_reason := Some (tw_reason w),
     t_evidence := Some [(''status'', PStr (status_name (tw_status w))), (''detail'', PStr (tw_reason w))],
     t_screenshot_id := None, t_screenshot_at := None, t_screenshot_digest := None,
     t_version := t_version t + 1, t_updated_at := now\<rparr>"

lemma saved_settled: "saved_task t (settle_changes t w) now = settled_task t w now"
  by (simp add: saved_task_def of_view_def settle_changes_def settled_task_def clear_screenshot_def)

lemma compensatable_cases:
  "is_compensatable st \<longleftrightarrow> st \<in> {Queued, Awaiting_Confirmation, Queued_Send, Navigating, Running}"
  by (cases st) (simp_all add: is_compensatable_def compensatable_statuses_def non_executing_statuses_def
      gui_risk_statuses_def)

lemma gui_risk_cases: "is_gui_risk st \<longleftrightarrow> st \<in> {Navigating, Running}"
  by (cases st) (simp_all add: is_gui_risk_def gui_risk_statuses_def)

lemma settle_transition:
  assumes "is_compensatable (t_status t)"
  shows "validate_transition t (PStr (status_name (settle_status t))) = Inr ()"
  using assms by (auto simp: compensatable_cases gui_risk_cases settle_status_def validate_transition_def)

lemma settle_values:
  assumes ok: "task_ok t" and st: "is_compensatable (t_status t)"
  shows "validate_values t (merged t (settle_changes t w)) = Inr () \<longleftrightarrow> tw_reason w \<noteq> []"
proof -
  have unclaimed: "t_matched t = None"
    using task_ok_unclaimed[OF ok] st by (auto simp: compensatable_cases)
  have base: "check_dict (opt_dict (t_baseline t)) = Inr ()" using ok by (simp add: task_ok_def values_ok_def)
  have sent: "t_may_have_sent t \<Longrightarrow> t_action t = Send \<and> settle_status t = Unknown"
    using ok st by (auto simp: task_ok_def sent_statuses_def compensatable_cases settle_status_def gui_risk_cases)
  have status: "settle_status t \<in> {Unknown, Failed}" by (simp add: settle_status_def)
  have dict: "check_dict (PDict [(''status'', PStr a), (''detail'', PStr b)]) = Inr ()" for a b
    by (simp add: check_dict_def)
  have reason: "check_str (PStr r) = Inr () \<longleftrightarrow> r \<noteq> []" for r by (simp add: check_str_def)
  have none: "check_str PNone = Inr ()" by (simp add: check_str_def)
  show ?thesis
  proof (cases "t_may_have_sent t")
    case True
    then show ?thesis using sent[OF True]
      by (simp add: validate_values_def Let_def settle_changes_def clear_screenshot_def base dict reason none unclaimed
        unsent_statuses_def opt_str_def[of None])
  next
    case False
    then show ?thesis using status
      by (auto simp: validate_values_def Let_def settle_changes_def clear_screenshot_def base dict reason none unclaimed
        opt_str_def[of None])
  qed
qed

lemma settle_move:
  assumes ok: "db_ok (sv_db s)" and t: "t \<in> set (db_tasks (sv_db s))" and st: "is_compensatable (t_status t)"
    and sc: "scope_of canon (t_seller t) (t_data_dir t) = Inr (t_seller t, t_data_dir t)"
    and inactive: "t_id t \<notin> fst ` set (sv_active s)"
  shows "move canon now t (settle_status t) (tl (settle_changes t w)) s =
    (if tw_reason w \<noteq> []
     then (Inr (settled_task t w now), s\<lparr>sv_db := (sv_db s)\<lparr>
       db_tasks := update_rows (same_row t) (\<lambda>_. settled_task t w now) (db_tasks (sv_db s)),
       db_events := db_events (sv_db s) @ [event_row (Some t) (settled_task t w now) Ev_Transition]\<rparr>\<rparr>)
     else (Inl (Value_Error ''must be a nonempty string or None''), s))"
proof -
  let ?db = "sv_db s" and ?ch = "settle_changes t w"
  have t_ok: "task_ok t" by (rule db_okD(2)[OF ok t])
  have ids: "distinct (map t_id (db_tasks ?db))" by (rule db_okD(8)[OF ok])
  have ex: "db_file ?db" "db_table ?db" using db_okD(7)[OF ok t] by auto
  have found: "find (\<lambda>x. t_id x = t_id t \<and> in_scope (t_seller t, t_data_dir t) x) (db_tasks ?db) = Some t"
    by (rule find_Some_unique) (use ids t in \<open>auto simp: in_scope_def distinct_map dest: inj_onD\<close>)
  have row: "expected_row canon ?db (t_id t) (t_seller t) (t_data_dir t) [status_name (t_status t)]
      (Some (t_version t)) = Inr t"
    using task_ok_pos[OF t_ok] by (simp add: expected_row_def states_of_def sc ex found List.map_filter_simps)
  have editable: "validate_editable t ?ch True = Inr ()"
    by (simp add: validate_editable_def settle_changes_def clear_screenshot_def editable_columns_def)
  have cons: "(C_status, PStr (status_name (settle_status t))) # tl ?ch = ?ch" by (simp add: settle_changes_def)
  have status: "map_of ?ch C_status = Some (PStr (status_name (settle_status t)))" by (simp add: settle_changes_def)
  have claim: "claim_of (settled_task t w now) = claim_of t" by (simp add: claim_of_def settled_task_def)
  have con: "constraints_ok (update_rows (same_row t) (\<lambda>_. settled_task t w now) (db_tasks ?db))"
    using task_ok_pos[OF t_ok] claim
    by (intro constraints_replace[OF db_okD(1)[OF ok] _ _ _ _ _ _ _ t]) (simp_all add: settled_task_def)
  show ?thesis
  proof (cases "tw_reason w = []")
    case False
    then have "validate_values t (merged t ?ch) = Inr ()" using settle_values[OF t_ok st] by simp
    then show ?thesis
      using False one_same_row[OF ids t] con inactive
      by (simp add: move_def cons store_transition_def status write_txn_def ex row settle_transition[OF st] editable
        save_row_def saved_settled Let_def note_written_def del: merged_simps)
  next
    case True
    have base: "check_dict (opt_dict (t_baseline t)) = Inr ()" using t_ok by (simp add: task_ok_def values_ok_def)
    have checks: "check_dict (merged t ?ch C_baseline) = Inr ()" "check_dict (merged t ?ch C_evidence) = Inr ()"
      "check_str (merged t ?ch C_reason) = Inl (Value_Error ''must be a nonempty string or None'')"
      using True base by (simp_all add: settle_changes_def clear_screenshot_def check_dict_def check_str_def)
    have "validate_values t (merged t ?ch) = Inl (Value_Error ''must be a nonempty string or None'')"
      by (simp only: validate_values_def Let_def check_all.simps checks sum.case)
    then show ?thesis
      using True
      by (simp add: move_def cons store_transition_def status write_txn_def ex row settle_transition[OF st] editable
        Let_def del: merged_simps)
  qed
qed

section \<open>The gate\<close>

lemma fail_if_current_run [simp]: "sv_run (fail_if_current canon e t m s) \<in> {sv_run s, None}"
  using calm_fail[of "{}" s canon e t m] by (simp add: calm_def)

lemma finish_run_ends [simp]: "sv_run (finish_run canon e f m s) = None"
proof (cases "sv_run s")
  case (Some rn)
  have "sv_run (fail_if_current canon e cur reason (s\<lparr>sv_run := None, sv_active := x\<rparr>)) = None" for cur reason x
    using fail_if_current_run[of canon e cur reason "s\<lparr>sv_run := None, sv_active := x\<rparr>"] by simp
  then show ?thesis by (simp add: finish_run_def Some Let_def split: option.splits)
qed (simp add: finish_run_def)

lemma fail_run_ends [simp]: "sv_run (fail_run canon e m s) = None"
  by (simp add: fail_run_def)

lemma final_gate:
  assumes "sv_run (job_final_frame canon e f rn s) = Some rn'"
  shows "\<exists>digest. f = Inr digest \<and> \<not> sv_stopping s \<and> \<not> needs_reconfirm (ev_clock e 0) (rn_record rn) digest"
  using assms
  by (auto simp: job_final_frame_def Let_def accepting_def and_then_def raise_if_def split_beta
      split: sum.splits if_splits)

section \<open>Properties\<close>

text \<open>A service on an empty database that the witnesses drive from the submission to the sent message.\<close>

definition demo_env :: "nat \<Rightarrow> string \<Rightarrow> env" where
  "demo_env k fresh = \<lparr>ev_clock = (\<lambda>_. of_nat k), ev_fresh = (\<lambda>_. fresh), ev_faults = []\<rparr>"

definition demo_account :: account where
  "demo_account = \<lparr>ac_seller = ''12'', ac_data_dir = ''d'', ac_epoch = ''e1''\<rparr>"

definition demo_submit :: "svc_event list" where
  "demo_submit =
     [E_Submit (demo_env 1 ''t1'') demo_account 7 ''34'' ''bob'' ''hello'' ''send'' ''k1'' None,
      E_Bind (demo_env 2 ''q1'') demo_account
        (new_task ''t1'' (''12'', ''d'') 7 ''34'' ''bob'' ''hello'' Send ''k1'' None (Some ''e1'') 1) (Inr demo_token)]"

definition demo_navigate :: "svc_event list" where
  "demo_navigate = [E_Take (demo_env 3 '''') 3, E_Enter (demo_env 4 '''') (Inr ()), E_Goto (demo_env 5 '''') True '''',
     E_Nav_Frame (demo_env 6 ''s1'') (Inr ''digest'')]"

definition demo_confirm :: "svc_event list" where
  "demo_confirm = [E_Confirm (demo_env 7 ''q2'') demo_account ''t1'' ''s1'' 3 None (Inr demo_token),
     E_Take (demo_env 8 '''') 8,
     E_Baseline (demo_env 9 '''') (Inr [(''valid'', PBool True), (''origin'', demo_origin),
       (''messages'', PList [PDict [(''id'', PStr ''m:1'')]]), (''checked_at'', PInt 9)]),
     E_Enter (demo_env 10 '''') (Inr ())]"

definition demo_click :: "svc_event list" where
  "demo_click = [E_Final_Frame (demo_env 11 '''') (Inr ''digest''), E_Input (demo_env 12 '''') True '''' False (Inr 9)]"

definition demo_at_gate :: service where
  "demo_at_gate = svc_runs id (demo_submit @ demo_navigate @ demo_confirm) (new_service empty_db [])"

definition demo_clicked :: service where
  "demo_clicked = svc_runs id demo_click demo_at_gate"

lemma demo_gate_reached: "(svc_step id)\<^sup>*\<^sup>* (new_service empty_db []) demo_at_gate"
  unfolding demo_at_gate_def by (rule svc_runs_steps)

lemma demo_clicked_reached: "(svc_step id)\<^sup>*\<^sup>* (new_service empty_db []) demo_clicked"
  using demo_gate_reached svc_runs_steps[of id demo_at_gate demo_click] by (simp add: demo_clicked_def)

lemma demo_clicked_log:
  "sv_log demo_clicked = [Eff_Goto ''t1'' ''bob'', Eff_Confirm ''t1'' (Some ''digest''),
     Eff_Input ''t1'' ''hello'', Eff_Click ''t1'' (Some ''digest'')]"
  by code_simp

text \<open>
  C11: At most one click per task, ever: over every interleaving of requests, worker sections, reconciliation, shutdown and
  process crashes with restarts on the same database, a native send click is submitted at most once for a task;
  and for each click the database marks the task, which is a send and not a test, as possibly sent.
\<close>

theorem at_most_one_click_per_task:
  assumes "(svc_step canon)\<^sup>*\<^sup>* (new_service db []) s" and "db_ok db"
  shows "distinct (clicks (sv_log s))
    \<and> (\<forall>i \<in> set (clicks (sv_log s)). \<exists>t \<in> set (db_tasks (sv_db s)).
         t_id t = i \<and> t_may_have_sent t \<and> t_action t = Send \<and> t_status t \<in> set sent_statuses)"
proof -
  have inv: "svc_inv s" using outbox_service.steps_inv[OF assms(1) svc_inv_initial[OF assms(2)]] .
  have "t_action t = Send \<and> t_status t \<in> set sent_statuses"
    if "t \<in> set (db_tasks (sv_db s))" "t_may_have_sent t" for t
    using db_okD(2)[OF svc_invD(1)[OF inv] that(1)] that(2) by (simp add: task_ok_def)
  then show ?thesis using svc_invD(2)[OF inv] by (fastforce simp: clicks_ok_def)
qed

theorem at_most_one_click_per_task_witness:
  "clicks (sv_log demo_clicked) = [''t1''] \<and> (\<exists>t \<in> set (db_tasks (sv_db demo_clicked)). t_id t = ''t1'' \<and> t_may_have_sent t)"
  using at_most_one_click_per_task[OF demo_clicked_reached db_ok_empty] by (auto simp: demo_clicked_log)

text \<open>
  C12: No click without the user's word: whatever happened, every send click was submitted for a task and a picture
  that a user had confirmed for exactly that task. And the last gate lets a job go on to the input only for a frame
  captured just then that equals the confirmed picture, which is less than 120 seconds old, while the service accepts work.
\<close>

theorem click_needs_confirmed_fresh_picture:
  assumes "(svc_step canon)\<^sup>*\<^sup>* (new_service db []) s" and "db_ok db"
  shows "(\<forall>i d. Eff_Click i d \<in> set (sv_log s) \<longrightarrow> Eff_Confirm i d \<in> set (sv_log s))
    \<and> (\<forall>e f rn rn'. sv_run s = Some rn \<longrightarrow> rn_phase rn = Ph_Final_Frame
        \<longrightarrow> sv_run (svc_exec canon (E_Final_Frame e f) s) = Some rn' \<longrightarrow> rn_phase rn' = Ph_Input
        \<longrightarrow> \<not> sv_stopping s \<and> (\<exists>digest shot. f = Inr digest \<and> t_screenshot_digest (rn_record rn) = Some digest
             \<and> Eff_Confirm (t_id (rn_record rn)) (Some digest) \<in> set (sv_log s)
             \<and> t_screenshot_at (rn_record rn) = Some shot
             \<and> shot \<le> ev_clock e 0 \<and> ev_clock e 0 < shot + 120))"
proof (intro conjI allI impI)
  have inv: "svc_inv s" using outbox_service.steps_inv[OF assms(1) svc_inv_initial[OF assms(2)]] .
  show "Eff_Confirm i d \<in> set (sv_log s)" if "Eff_Click i d \<in> set (sv_log s)" for i d
    using that svc_invD(2)[OF inv] by (auto simp: clicks_ok_def)
  fix e f rn rn'
  assume run: "sv_run s = Some rn" and ph: "rn_phase rn = Ph_Final_Frame"
    and after: "sv_run (svc_exec canon (E_Final_Frame e f) s) = Some rn'" and ph': "rn_phase rn' = Ph_Input"
  let ?t = "rn_record rn"
  have conf: "confirmed (sv_log s) ?t" using svc_invD(4)[OF inv run] ph by (simp add: run_ok_def)
  have exec: "svc_exec canon (E_Final_Frame e f) s = job_final_frame canon e f rn s"
    by (simp add: in_phase_def run ph)
  have open_gate: "\<exists>digest. f = Inr digest \<and> \<not> sv_stopping s \<and> \<not> needs_reconfirm (ev_clock e 0) ?t digest"
    using final_gate[of canon e f rn s rn'] after exec by simp
  then obtain digest where d: "f = Inr digest" "\<not> sv_stopping s" "\<not> needs_reconfirm (ev_clock e 0) ?t digest"
    by blast
  then show "\<not> sv_stopping s" by simp
  from d(3) obtain shot where "t_screenshot_digest ?t = Some digest" "t_screenshot_at ?t = Some shot"
    "shot \<le> ev_clock e 0" "ev_clock e 0 < shot + 120"
    by (auto simp: needs_reconfirm_def expired_def screenshot_ttl_def split: option.splits)
  then show "\<exists>digest shot. f = Inr digest \<and> t_screenshot_digest ?t = Some digest
     \<and> Eff_Confirm (t_id ?t) (Some digest) \<in> set (sv_log s) \<and> t_screenshot_at ?t = Some shot
     \<and> shot \<le> ev_clock e 0 \<and> ev_clock e 0 < shot + 120"
    using conf d(1) by (simp add: confirmed_def)
qed

theorem click_needs_confirmed_fresh_picture_witness:
  "Eff_Confirm ''t1'' (Some ''digest'') \<in> set (sv_log demo_clicked)"
  using click_needs_confirmed_fresh_picture[OF demo_clicked_reached db_ok_empty] by (auto simp: demo_clicked_log)

text \<open>
  C13: A failed attempt with a reason is settled: when a terminal write with a non-empty reason is pending in the scope of a task, for
  the present version and attempt of the task, which is still compensatable, no job is active on it and no fault hits its writes, then one pass over it makes the task unknown if the
  client may have acted on it and failed otherwise, with the reason as evidence and the picture cleared, records the event, and
  drops the pending write.
\<close>

theorem failed_attempt_is_settled:
  assumes "db_ok (sv_db s)" and "t \<in> set (db_tasks (sv_db s))" and "still_pending w t"
    and "scope_of canon (t_seller t) (t_data_dir t) = Inr (t_seller t, t_data_dir t)"
    and "tw_seller w = t_seller t" and "tw_data_dir w = t_data_dir t"
    and "t_id t \<notin> fst ` set (sv_active s)" and "t_id t \<notin> set faults" and "tw_reason w \<noteq> []"
  shows "flush_entry canon faults now (t_id t) w s =
    (let u = t\<lparr>t_status := (if t_status t \<in> {Navigating, Running} then Unknown else Failed),
           t_reason := Some (tw_reason w),
           t_evidence := Some [(''status'', PStr (status_name (tw_status w))), (''detail'', PStr (tw_reason w))],
           t_screenshot_id := None, t_screenshot_at := None, t_screenshot_digest := None,
           t_version := t_version t + 1, t_updated_at := now\<rparr>
     in s\<lparr>sv_db := (sv_db s)\<lparr>db_tasks := update_rows (same_row t) (\<lambda>_. u) (db_tasks (sv_db s)),
            db_events := db_events (sv_db s) @ [event_row (Some t) u Ev_Transition]\<rparr>,
          sv_pending := alist_del (t_id t) (sv_pending s)\<rparr>)"
proof -
  have st: "is_compensatable (t_status t)" using assms(3) by (simp add: still_pending_def)
  note found = store_get_row[OF assms(1,2,4)]
  note moved = settle_move[OF assms(1,2) st assms(4,7), of now w]
  have "settled_task t w now = t\<lparr>t_status := (if t_status t \<in> {Navigating, Running} then Unknown else Failed),
           t_reason := Some (tw_reason w),
           t_evidence := Some [(''status'', PStr (status_name (tw_status w))), (''detail'', PStr (tw_reason w))],
           t_screenshot_id := None, t_screenshot_at := None, t_screenshot_digest := None,
           t_version := t_version t + 1, t_updated_at := now\<rparr>"
    by (simp add: settled_task_def settle_status_def gui_risk_cases)
  then show ?thesis
    using assms(3,5-9) found moved
    by (simp add: flush_entry_def settle_changes_def settle_status_def[symmetric] drop_pending_def Let_def)
qed

text \<open>
  C14: An empty failure text is never settled: under the same conditions but with an empty reason (the text of an
  exception without a message) the pass changes nothing, so the task keeps its unfinished status
  and the write stays pending through every later pass.
\<close>

theorem empty_failure_text_never_settled:
  assumes "db_ok (sv_db s)" and "t \<in> set (db_tasks (sv_db s))" and "still_pending w t"
    and "scope_of canon (t_seller t) (t_data_dir t) = Inr (t_seller t, t_data_dir t)"
    and "tw_seller w = t_seller t" and "tw_data_dir w = t_data_dir t"
    and "t_id t \<notin> fst ` set (sv_active s)" and "tw_reason w = []"
  shows "flush_entry canon faults now (t_id t) w s = s"
proof -
  have st: "is_compensatable (t_status t)" using assms(3) by (simp add: still_pending_def)
  note found = store_get_row[OF assms(1,2,4)]
  note moved = settle_move[OF assms(1,2) st assms(4,7), of now w]
  show ?thesis
    using assms(3,5-8) found moved
    by (simp add: flush_entry_def settle_changes_def settle_status_def[symmetric] is_conflict_def Let_def)
qed

text \<open>A navigation that fails with the given text, at the point where its terminal write is pending.\<close>

definition demo_navigating :: service where
  "demo_navigating = (svc_runs id (demo_submit @ take 2 demo_navigate) (new_service empty_db []))
     \<lparr>sv_active := [], sv_run := None\<rparr>"

definition demo_row :: task where
  "demo_row = hd (db_tasks (sv_db demo_navigating))"

definition demo_terminal :: "string \<Rightarrow> terminal" where
  "demo_terminal reason = \<lparr>tw_seller = ''12'', tw_data_dir = ''d'', tw_attempt = 1, tw_version = 2,
     tw_status = Navigating, tw_reason = reason\<rparr>"

lemma demo_navigating_ok: "db_ok (sv_db demo_navigating)"
  using svc_invD(1)[OF outbox_service.steps_inv[OF svc_runs_steps svc_inv_initial[OF db_ok_empty]]]
  by (simp add: demo_navigating_def)

lemma demo_navigating_facts:
  "demo_row \<in> set (db_tasks (sv_db demo_navigating))" "still_pending (demo_terminal r) demo_row"
  "scope_of id (t_seller demo_row) (t_data_dir demo_row) = Inr (t_seller demo_row, t_data_dir demo_row)"
  "t_seller demo_row = ''12'' \<and> t_data_dir demo_row = ''d'' \<and> t_id demo_row = ''t1'' \<and> t_status demo_row = Navigating"
  "sv_active demo_navigating = []"
proof -
  have "t_seller demo_row = ''12'' \<and> t_data_dir demo_row = ''d'' \<and> t_id demo_row = ''t1''
      \<and> t_status demo_row = Navigating \<and> t_attempt demo_row = 1 \<and> t_version demo_row = 2"
    and row: "demo_row \<in> set (db_tasks (sv_db demo_navigating))"
    by code_simp+
  then show "demo_row \<in> set (db_tasks (sv_db demo_navigating))" "still_pending (demo_terminal r) demo_row"
    "t_seller demo_row = ''12'' \<and> t_data_dir demo_row = ''d'' \<and> t_id demo_row = ''t1'' \<and> t_status demo_row = Navigating"
    by (simp_all add: still_pending_def demo_terminal_def compensatable_cases)
  show "scope_of id (t_seller demo_row) (t_data_dir demo_row) = Inr (t_seller demo_row, t_data_dir demo_row)"
    by code_simp
  show "sv_active demo_navigating = []" by (simp add: demo_navigating_def)
qed

theorem failed_attempt_is_settled_witness:
  "map t_status (db_tasks (sv_db (flush_entry id [] 9 ''t1'' (demo_terminal ''window lost'') demo_navigating))) = [Unknown]"
proof -
  note facts = demo_navigating_facts
  have rows: "db_tasks (sv_db demo_navigating) = [demo_row]" by code_simp
  have "same_row demo_row demo_row" by (simp add: same_row_def in_scope_def)
  then show ?thesis
    using failed_attempt_is_settled[OF demo_navigating_ok facts(1-3), where faults = "[]" and now = 9] facts(4,5)
    by (simp add: demo_terminal_def rows Let_def)
qed

theorem empty_failure_text_never_settled_witness:
  "flush_entry id [] 9 ''t1'' (demo_terminal []) demo_navigating = demo_navigating"
  using empty_failure_text_never_settled[OF demo_navigating_ok demo_navigating_facts(1-3), where faults = "[]" and now = 9]
    demo_navigating_facts(4,5)
  by (simp add: demo_terminal_def)

lemma proof_move_log: "sv_log (snd (proof_move canon now t p s)) = sv_log s"
proof -
  have "sv_log (snd (move canon now t st ch s)) = sv_log s" for st ch
    by (simp add: move_def note_written_def split_beta split: sum.splits)
  then show ?thesis by (simp add: proof_move_def split_beta)
qed

lemma reconcile_tasks_log:
  "sv_log (snd (reconcile_tasks canon clock k contact snapshot others ts s)) = sv_log s"
proof (induction ts arbitrary: k s)
  case (Cons t ts)
  then show ?case
    using proof_move_log by (simp add: split_beta split: sum.splits)
qed simp

lemma reconcile_tasks_observed:
  assumes "reconcile_tasks canon clock k contact snapshot others ts s = (Inr us, s')" "u \<in> set us"
  shows "\<exists>t \<in> set ts. \<exists>p. reconcilable contact t \<and> match_outbox t snapshot others = Inr p
    \<and> sp_status p = Observed \<and> t_id u = t_id t \<and> t_status u = Observed \<and> Some (opt_str (t_matched u)) = sp_matched p"
  using assms
proof (induction ts arbitrary: k s us)
  case (Cons t ts)
  have later: ?case if "reconcile_tasks canon clock (Suc k) contact snapshot others ts s1 = (Inr vs, s')" "u \<in> set vs"
    for s1 vs
    using Cons.IH[OF that] by auto
  show ?case
  proof (cases "reconcilable contact t")
    case False
    then show ?thesis using later Cons.prems by simp
  next
    case rec: True
    obtain p where p: "match_outbox t snapshot others = Inr p"
      using Cons.prems(1) rec by (cases "match_outbox t snapshot others") auto
    obtain r s1 where r: "proof_move canon (clock k) t p s = (r, s1)" by (metis surj_pair)
    obtain rest s2 where rest: "reconcile_tasks canon clock (Suc k) contact snapshot others ts s1 = (rest, s2)"
      by (metis surj_pair)
    show ?thesis
    proof (cases r)
      case (Inl x)
      then show ?thesis using later[of s1 us] Cons.prems rec p r by (simp split: if_splits)
    next
      case (Inr v)
      then obtain vs where vs: "rest = Inr vs" "us = (case v of Some u \<Rightarrow> u # vs | None \<Rightarrow> vs)" "s2 = s'"
        using Cons.prems(1) rec p r rest by (auto simp: and_then_Inr_iff)
      show ?thesis
      proof (cases "u \<in> set vs")
        case True
        then show ?thesis using later[of s1 vs] rest vs by simp
      next
        case False
        then have v: "v = Some u" using Cons.prems(2) vs(2) by (cases v) auto
        have obs: "sp_status p = Observed"
          using r Inr v by (auto simp: proof_move_def split_beta and_then_Inr_iff split: if_splits)
        obtain w where w: "sp_matched p = Some w"
          by (rule match_outbox_ObservedD[OF p obs]) simp
        let ?ch = "[(C_matched, w), (C_evidence, PDict (sp_evidence p)), (C_reason, PStr (sp_reason p))]"
        have mv: "move canon (clock k) t Observed ?ch s = (Inr u, s1)"
          using r Inr v obs w
          by (cases "move canon (clock k) t Observed ?ch s")
            (auto simp: proof_move_def and_then_Inr_iff split: if_splits)
        obtain prev where prev: "t_id prev = t_id t" "task_step Ev_Transition prev u"
          "u = saved_task prev ((C_status, PStr (status_name Observed)) # ?ch) (clock k)"
          by (rule move_InrD[OF mv]) simp
        obtain str where str: "w = PStr str"
          using match_outbox_ObservedD[OF p obs] w candidate_okD(1)[OF candidates_single_mem(2)]
          by (metis nonempty_str.elims(2) option.inject)
        have "t_id u = t_id t" "t_status u = Observed" "opt_str (t_matched u) = w"
          using prev by (simp_all add: saved_task_fields str opt_str_def)
        then show ?thesis using rec p obs w by auto
      qed
    qed
  qed
qed simp

text \<open>Observation needs evidence: a task that a reconciliation pass reports as observed was a possible send of that
  contact waiting for evidence, and the matching of the snapshot against all relevant tasks of the scope observed it with the message
  that the stored task now claims; and the pass never acts on the client.
\<close>

theorem observed_needs_evidence:
  assumes "reconcile_contact canon e a current contact snapshot s = (Inr us, s')" and "u \<in> set us"
  shows "(\<exists>others t p. store_list_pending canon (sv_db s)
            [''running'', ''verifying'', ''unknown'', ''observed'', ''failed''] (ac_seller a) (ac_data_dir a) = Inr others
          \<and> t \<in> set others \<and> reconcilable contact t \<and> match_outbox t snapshot others = Inr p
          \<and> sp_status p = Observed \<and> t_id u = t_id t \<and> t_status u = Observed
          \<and> Some (opt_str (t_matched u)) = sp_matched p)
    \<and> sv_log s' = sv_log s"
proof
  from assms obtain others where o: "store_list_pending canon (sv_db s)
      [''running'', ''verifying'', ''unknown'', ''observed'', ''failed''] (ac_seller a) (ac_data_dir a) = Inr others"
    "reconcile_tasks canon (ev_clock e) 0 contact snapshot others others s = (Inr us, s')"
    by (auto simp: reconcile_contact_def split: if_splits sum.splits)
  show "\<exists>others t p. store_list_pending canon (sv_db s)
            [''running'', ''verifying'', ''unknown'', ''observed'', ''failed''] (ac_seller a) (ac_data_dir a) = Inr others
          \<and> t \<in> set others \<and> reconcilable contact t \<and> match_outbox t snapshot others = Inr p
          \<and> sp_status p = Observed \<and> t_id u = t_id t \<and> t_status u = Observed
          \<and> Some (opt_str (t_matched u)) = sp_matched p"
    using reconcile_tasks_observed[OF o(2) assms(2)] o(1) by blast
  show "sv_log s' = sv_log s"
    using reconcile_tasks_log[of canon "ev_clock e" 0 contact snapshot others others s] o(2) by simp
qed

definition demo_sent_state :: service where
  "demo_sent_state = svc_exec id (E_Sent (demo_env 13 '''') True '''') demo_clicked"

definition demo_sent_snapshot :: "(string \<times> pyval) list" where
  "demo_sent_snapshot = [(''valid'', PBool True), (''origin'', demo_origin), (''checked_at'', PInt 20),
     (''messages'', PList [PDict [(''id'', PStr ''m:2''), (''sender_id'', PStr ''12@icbu''), (''cid'', PStr ''12-34''),
       (''type'', PInt 0), (''text'', PStr ''hello''), (''is_system'', PBool False),
       (''is_auto_reply'', PBool False), (''extension_valid'', PBool True), (''created_at'', PInt 13)]])]"

theorem observed_needs_evidence_witness:
  "\<exists>u p t others. fst (reconcile_contact id (demo_env 21 '''') demo_account demo_account ''34'' demo_sent_snapshot
       demo_sent_state) = Inr [u] \<and> match_outbox t demo_sent_snapshot others = Inr p \<and> sp_status p = Observed"
proof -
  let ?r = "reconcile_contact id (demo_env 21 '''') demo_account demo_account ''34'' demo_sent_snapshot demo_sent_state"
  have "(case fst ?r of Inr us \<Rightarrow> length us | Inl _ \<Rightarrow> 0) = 1" by code_simp
  then obtain u where u: "fst ?r = Inr [u]"
    by (auto simp: length_Suc_conv One_nat_def split: sum.splits)
  then have "?r = (Inr [u], snd ?r)" by (metis prod.collapse)
  from observed_needs_evidence[OF this, of u] u show ?thesis by auto
qed

end
