(* ===== verification/Intent_Store.thy ===== *)
theory Intent_Store
  imports Py_Prelude
begin

text \<open>
  The reply intents of \<^verbatim>\<open>shared/crm/intent_store.py\<close>: what the agent asked for, and what the merchant
  made of it. The state is the database's intent table (None while the file or the table is missing)
  and the process's memory that it has initialised the table. Every write is one transaction;
  an exception leaves the table as it was. \<open>canon\<close> is the file system's canonical form of a path.
\<close>

section \<open>Intents\<close>

datatype intent_status = In_Requested | In_Accepted | In_Discarded | In_Simulated

datatype intent_mode = In_Live | In_Simulation

fun intent_status_name :: "intent_status \<Rightarrow> string" where
  "intent_status_name In_Requested = ''requested''"
| "intent_status_name In_Accepted = ''accepted''"
| "intent_status_name In_Discarded = ''discarded''"
| "intent_status_name In_Simulated = ''simulated''"

definition intent_statuses :: "intent_status list" where
  "intent_statuses = [In_Requested, In_Accepted, In_Discarded, In_Simulated]"

definition intent_status_of :: "string \<Rightarrow> intent_status option" where
  "intent_status_of n = find (\<lambda>s. intent_status_name s = n) intent_statuses"

fun intent_transitions :: "intent_status \<Rightarrow> intent_status list" where
  "intent_transitions In_Requested = [In_Accepted, In_Discarded]"
| "intent_transitions _ = []"

record intent =
  in_id :: string
  in_seller :: string
  in_data_dir :: string
  in_apid :: string
  in_agent :: string
  in_revision :: "int option"
  in_conversation :: "int option"
  in_batch :: string
  in_mode :: intent_mode
  in_reply :: string
  in_zh :: string
  in_tone :: string
  in_status :: intent_status
  in_call :: "string option"
  in_created :: pytime
  in_updated :: pytime

record intent_db =
  id_rows :: "intent list option"
  id_initialized :: bool

definition intent_scope :: "(string \<Rightarrow> string) \<Rightarrow> string \<Rightarrow> string \<Rightarrow> (string \<times> string) result" where
  "intent_scope canon seller data_dir =
     (if py_blank seller \<or> py_blank data_dir then Inl (Value_Error ''seller and data_dir are required'')
      else Inr (seller, canon data_dir))"

definition intent_in :: "string \<times> string \<Rightarrow> intent \<Rightarrow> bool" where
  "intent_in sc i \<longleftrightarrow> in_seller i = fst sc \<and> in_data_dir i = snd sc"

section \<open>Operations\<close>

definition intent_initialize :: "intent_db \<Rightarrow> intent_db" where
  "intent_initialize db =
     (if id_initialized db then db
      else \<lparr>id_rows = Some (case id_rows db of None \<Rightarrow> [] | Some rs \<Rightarrow> rs), id_initialized = True\<rparr>)"

text \<open>\<^verbatim>\<open>with self._connection(write=True)\<close>: the transaction commits, or an exception leaves the rows.\<close>

definition intent_write ::
  "(intent list \<Rightarrow> 'a result \<times> intent list) \<Rightarrow> intent_db \<Rightarrow> 'a result \<times> intent_db" where
  "intent_write body db =
     (case id_rows db of
        None \<Rightarrow> (Inl (Operational_Error ''no such table: app_agent_intent''), db)
      | Some rows \<Rightarrow>
          (case body rows of
             (Inl e, _) \<Rightarrow> (Inl e, db)
           | (Inr v, rows') \<Rightarrow> (Inr v, db\<lparr>id_rows := Some rows'\<rparr>)))"

definition intent_read :: "(intent \<Rightarrow> bool) \<Rightarrow> intent_db \<Rightarrow> intent list" where
  "intent_read p db = (case id_rows db of None \<Rightarrow> [] | Some rows \<Rightarrow> filter p rows)"

definition insert_intent :: "intent \<Rightarrow> intent list \<Rightarrow> intent result \<times> intent list" where
  "insert_intent i rows =
     (if in_id i \<in> in_id ` set rows
      then (Inl (Integrity_Error ''UNIQUE constraint failed: app_agent_intent.id''), rows)
      else (Inr i, rows @ [i]))"

text \<open>\<^verbatim>\<open>create\<close>; \<open>draft\<close> carries the caller's fields, \<open>fresh\<close> is the new identifier.\<close>

definition intent_create ::
  "(string \<Rightarrow> string) \<Rightarrow> string \<Rightarrow> pytime \<Rightarrow> intent \<Rightarrow> string \<Rightarrow> intent_db \<Rightarrow> intent result \<times> intent_db" where
  "intent_create canon fresh now draft status db =
     (case intent_scope canon (in_seller draft) (in_data_dir draft) of
        Inl e \<Rightarrow> (Inl e, db)
      | Inr sc \<Rightarrow>
          (case intent_status_of status of
             Some st \<Rightarrow>
               if st = In_Requested \<or> st = In_Simulated then
                 intent_write (insert_intent
                   (draft\<lparr>in_id := fresh, in_seller := fst sc, in_data_dir := snd sc,
                          in_mode := (if st = In_Simulated then In_Simulation else In_Live),
                          in_status := st, in_created := now, in_updated := now\<rparr>))
                   (intent_initialize db)
               else (Inl (Value_Error ''new intents start as requested or simulated''), db)
           | None \<Rightarrow> (Inl (Value_Error ''new intents start as requested or simulated''), db)))"

definition intent_get ::
  "(string \<Rightarrow> string) \<Rightarrow> string \<Rightarrow> string \<Rightarrow> string \<Rightarrow> intent_db \<Rightarrow> intent option result" where
  "intent_get canon iid seller data_dir db =
     and_then (intent_scope canon seller data_dir) (\<lambda>sc.
       Inr (case intent_read (\<lambda>i. in_id i = iid \<and> intent_in sc i) db of [] \<Rightarrow> None | i # _ \<Rightarrow> Some i))"

definition intent_order :: "intent \<Rightarrow> pytime \<times> string" where
  "intent_order i = (in_created i, in_id i)"

definition list_batch ::
  "(string \<Rightarrow> string) \<Rightarrow> string \<Rightarrow> string \<Rightarrow> string \<Rightarrow> intent_db \<Rightarrow> intent list result" where
  "list_batch canon batch seller data_dir db =
     and_then (intent_scope canon seller data_dir) (\<lambda>sc.
       Inr (sort_key intent_order (intent_read (\<lambda>i. in_batch i = batch \<and> intent_in sc i) db)))"

text \<open>The newest first; SQLite reads a negative limit as none.\<close>

definition list_conversation ::
  "(string \<Rightarrow> string) \<Rightarrow> int \<Rightarrow> string \<Rightarrow> string \<Rightarrow> int \<Rightarrow> intent_db \<Rightarrow> intent list result" where
  "list_conversation canon conversation seller data_dir limit db =
     and_then (intent_scope canon seller data_dir) (\<lambda>sc.
       let found = rev (sort_key intent_order
             (intent_read (\<lambda>i. in_conversation i = Some conversation \<and> intent_in sc i) db))
       in Inr (if limit < 0 then found else take (nat limit) found))"

text \<open>The two UPDATE statements of a transition.\<close>

definition set_intent :: "intent_status \<Rightarrow> pytime \<Rightarrow> intent \<Rightarrow> intent" where
  "set_intent st now i = i\<lparr>in_status := st, in_updated := now\<rparr>"

definition is_sibling :: "string \<times> string \<Rightarrow> intent \<Rightarrow> intent \<Rightarrow> bool" where
  "is_sibling sc current i \<longleftrightarrow> in_batch i = in_batch current \<and> intent_in sc i
     \<and> in_status i = In_Requested \<and> in_id i \<noteq> in_id current"

definition apply_transition ::
  "string \<times> string \<Rightarrow> string \<Rightarrow> intent_status \<Rightarrow> pytime \<Rightarrow> intent list \<Rightarrow> intent result \<times> intent list" where
  "apply_transition sc iid st now rows =
     (case find (\<lambda>i. in_id i = iid \<and> intent_in sc i) rows of
        None \<Rightarrow> (Inl (Intent_Conflict ''intent not found''), rows)
      | Some current \<Rightarrow>
          if st \<notin> set (intent_transitions (in_status current))
          then (Inl (Intent_Conflict ''intent status conflict''), rows)
          else
            (let moved = update_rows (\<lambda>i. in_id i = iid) (set_intent st now) rows;
                 settled = (if st = In_Accepted
                            then update_rows (is_sibling sc current) (set_intent In_Discarded now) moved
                            else moved)
             in (Inr (set_intent st now current), settled)))"

definition intent_transition ::
  "(string \<Rightarrow> string) \<Rightarrow> string \<Rightarrow> string \<Rightarrow> string \<Rightarrow> string \<Rightarrow> pytime \<Rightarrow> intent_db \<Rightarrow> intent result \<times> intent_db" where
  "intent_transition canon iid status seller data_dir now db =
     (case intent_status_of status of
        None \<Rightarrow> (Inl (Value_Error ''unknown intent status''), db)
      | Some st \<Rightarrow>
          (case intent_scope canon seller data_dir of
             Inl e \<Rightarrow> (Inl e, intent_initialize db)
           | Inr sc \<Rightarrow> intent_write (apply_transition sc iid st now) (intent_initialize db)))"

text \<open>\<^verbatim>\<open>summary_lines\<close> over the stored records; the limit is tested after a line is added.\<close>

definition clip_text :: "string \<Rightarrow> string" where
  "clip_text reply =
     (let line = map (\<lambda>c. if c = CHR 0x0A then CHR 0x20 else c) (py_strip reply)
      in if 80 < length line then take 77 line @ ''...'' else line)"

fun summary_from :: "int \<Rightarrow> string list \<Rightarrow> intent list \<Rightarrow> string list" where
  "summary_from limit ls [] = ls"
| "summary_from limit ls (i # is) =
     (if clip_text (in_reply i) = [] then summary_from limit ls is
      else let ls' = ls @ [''- ['' @ intent_status_name (in_status i) @ ''] '' @ clip_text (in_reply i)]
           in if limit \<le> int (length ls') then ls' else summary_from limit ls' is)"

definition summary_lines :: "int \<Rightarrow> intent list \<Rightarrow> string list" where
  "summary_lines limit is = summary_from limit [] is"

section \<open>The table as a transition system\<close>

text \<open>One call of the store, or a restart of the process.\<close>

inductive intent_step :: "(string \<Rightarrow> string) \<Rightarrow> intent_db \<Rightarrow> intent_db \<Rightarrow> bool" for canon where
  int_create: "intent_step canon db (snd (intent_create canon fresh now draft status db))"
| int_transition: "intent_step canon db (snd (intent_transition canon iid status seller data_dir now db))"
| int_restart: "intent_step canon db (db\<lparr>id_initialized := False\<rparr>)"

definition intent_rows :: "intent_db \<Rightarrow> intent list" where
  "intent_rows db = (case id_rows db of None \<Rightarrow> [] | Some rs \<Rightarrow> rs)"

definition rows_ok :: "intent list \<Rightarrow> bool" where
  "rows_ok rs \<longleftrightarrow> distinct (map in_id rs)
     \<and> (\<forall>i \<in> set rs. in_mode i = In_Simulation \<longleftrightarrow> in_status i = In_Simulated)"

definition intent_moves :: "intent \<Rightarrow> intent \<Rightarrow> bool" where
  "intent_moves i j \<longleftrightarrow> j = i
     \<or> in_status i = In_Requested \<and> (\<exists>st now. st \<in> {In_Accepted, In_Discarded} \<and> j = set_intent st now i)"

definition rows_move :: "intent list \<Rightarrow> intent list \<Rightarrow> bool" where
  "rows_move rs rs' \<longleftrightarrow> (\<forall>i \<in> set rs. \<exists>j \<in> set rs'. intent_moves i j)"

lemma intent_moves_refl [simp]: "intent_moves i i"
  by (simp add: intent_moves_def)

lemma set_intent_simps [simp]:
  "in_status (set_intent st now i) = st" "in_id (set_intent st now i) = in_id i"
  "in_mode (set_intent st now i) = in_mode i" "in_batch (set_intent st now i) = in_batch i"
  "in_seller (set_intent st now i) = in_seller i" "in_data_dir (set_intent st now i) = in_data_dir i"
  by (simp_all add: set_intent_def)

lemma intent_moves_trans: "intent_moves i j \<Longrightarrow> intent_moves j k \<Longrightarrow> intent_moves i k"
  by (auto simp: intent_moves_def)

lemma intent_moves_mode:
  "intent_moves i j \<Longrightarrow> in_mode i = In_Simulation \<longleftrightarrow> in_status i = In_Simulated \<Longrightarrow>
     in_mode j = In_Simulation \<longleftrightarrow> in_status j = In_Simulated"
  by (auto simp: intent_moves_def)

lemma intent_moves_id: "intent_moves i j \<Longrightarrow> in_id j = in_id i"
  by (auto simp: intent_moves_def)

lemma intent_moves_alt: "intent_moves i j \<longleftrightarrow> j = i \<or> in_status i = In_Requested
    \<and> (\<exists>now. j = i\<lparr>in_status := In_Accepted, in_updated := now\<rparr>
          \<or> j = i\<lparr>in_status := In_Discarded, in_updated := now\<rparr>)"
  unfolding intent_moves_def set_intent_def by blast

lemma rows_move_refl: "rows_move rs rs"
  by (auto simp: rows_move_def intro: intent_moves_refl)

lemma rows_move_trans: "rows_move rs ss \<Longrightarrow> rows_move ss ts \<Longrightarrow> rows_move rs ts"
  unfolding rows_move_def by (meson intent_moves_trans)

text \<open>A write that moves rows in place keeps the table well formed.\<close>

lemma map_moves_ok:
  assumes "\<And>i. i \<in> set rs \<Longrightarrow> intent_moves i (f i)" "rows_ok rs"
  shows "rows_ok (map f rs)" "rows_move rs (map f rs)"
proof -
  have "map in_id (map f rs) = map in_id rs" using assms(1) by (auto dest: intent_moves_id)
  then show "rows_ok (map f rs)"
    using assms by (auto simp: rows_ok_def simp del: map_map dest!: intent_moves_mode)
  show "rows_move rs (map f rs)" using assms(1) by (auto simp: rows_move_def)
qed

text \<open>A successful transition, written as one pass over the rows.\<close>

definition settle_row :: "string \<times> string \<Rightarrow> intent \<Rightarrow> intent_status \<Rightarrow> pytime \<Rightarrow> intent \<Rightarrow> intent" where
  "settle_row sc current st now i =
     (if in_id i = in_id current then set_intent st now i
      else if st = In_Accepted \<and> is_sibling sc current i then set_intent In_Discarded now i
      else i)"

lemma apply_transition_ok:
  assumes "apply_transition sc iid st now rows = (Inr r, rows')"
  obtains current where "current \<in> set rows" "in_id current = iid" "intent_in sc current"
    "in_status current = In_Requested" "st \<in> {In_Accepted, In_Discarded}" "r = set_intent st now current"
    "rows' = map (settle_row sc current st now) rows"
proof -
  from assms obtain current where found: "find (\<lambda>i. in_id i = iid \<and> intent_in sc i) rows = Some current"
    and legal: "st \<in> set (intent_transitions (in_status current))"
    by (auto simp: apply_transition_def split: option.splits if_splits)
  from find_SomeD[OF found] have cur: "current \<in> set rows" "in_id current = iid" "intent_in sc current" by auto
  have req: "in_status current = In_Requested" "st \<in> {In_Accepted, In_Discarded}"
    using legal by (cases "in_status current"; simp)+
  have "rows' = map (settle_row sc current st now) rows"
    using assms found legal cur(2)
    by (auto simp: apply_transition_def Let_def update_rows_def settle_row_def is_sibling_def intent_in_def)
  moreover have "r = set_intent st now current"
    using assms found legal by (auto simp: apply_transition_def Let_def)
  ultimately show ?thesis using that cur req by blast
qed

lemma settle_row_moves:
  assumes "rows_ok rows" "current \<in> set rows" "in_status current = In_Requested" "st \<in> {In_Accepted, In_Discarded}"
    "i \<in> set rows"
  shows "intent_moves i (settle_row sc current st now i)"
proof (cases "in_id i = in_id current")
  case True
  then have "i = current" using assms(1,2,5) by (auto simp: rows_ok_def distinct_map dest: inj_onD)
  then show ?thesis using assms(3,4) by (auto simp: settle_row_def intent_moves_def)
next
  case False
  then show ?thesis by (auto simp: settle_row_def intent_moves_def is_sibling_def)
qed

lemma apply_transition_inv:
  assumes "apply_transition sc iid st now rows = (Inr r, rows')" "rows_ok rows"
  shows "rows_ok rows' \<and> rows_move rows rows'"
  using assms(1)
proof (rule apply_transition_ok)
  fix current
  assume cur: "current \<in> set rows" "in_status current = In_Requested" "st \<in> {In_Accepted, In_Discarded}"
    and rows': "rows' = map (settle_row sc current st now) rows"
  have "intent_moves i (settle_row sc current st now i)" if "i \<in> set rows" for i
    using settle_row_moves[OF assms(2) cur that] .
  then show ?thesis unfolding rows' using map_moves_ok assms(2) by blast
qed

lemma intent_initialize_rows [simp]: "intent_rows (intent_initialize db) = intent_rows db"
  by (auto simp: intent_initialize_def intent_rows_def split: option.splits)

lemma intent_write_cases:
  assumes "intent_write body db = (r, db')"
  shows "(\<exists>e. r = Inl e \<and> db' = db) \<or>
    (\<exists>v rows'. id_rows db = Some (intent_rows db) \<and> body (intent_rows db) = (Inr v, rows') \<and> r = Inr v \<and> intent_rows db' = rows')"
  using assms by (auto simp: intent_write_def intent_rows_def split: option.splits prod.splits sum.splits)

lemma insert_intent_inv:
  assumes "insert_intent i rows = (Inr v, rows')" "rows_ok rows"
    "in_mode i = In_Simulation \<longleftrightarrow> in_status i = In_Simulated"
  shows "rows_ok rows' \<and> rows_move rows rows'"
proof -
  have rows': "rows' = rows @ [i]" "in_id i \<notin> in_id ` set rows"
    using assms(1) by (auto simp: insert_intent_def split: if_splits)
  show ?thesis unfolding rows'(1) using assms(2,3) rows'(2)
    by (auto simp: rows_ok_def rows_move_def intro: intent_moves_refl)
qed

lemma intent_create_inv:
  assumes "rows_ok (intent_rows db)"
  shows "rows_ok (intent_rows (snd (intent_create canon fresh now draft status db)))
    \<and> rows_move (intent_rows db) (intent_rows (snd (intent_create canon fresh now draft status db)))"
proof -
  have insert: "rows_ok (intent_rows (snd (intent_write (insert_intent i) d)))
      \<and> rows_move (intent_rows d) (intent_rows (snd (intent_write (insert_intent i) d)))"
    if ok: "rows_ok (intent_rows d)" and mode: "in_mode i = In_Simulation \<longleftrightarrow> in_status i = In_Simulated" for i d
  proof -
    obtain r d' where w: "intent_write (insert_intent i) d = (r, d')" by (metis surj_pair)
    from intent_write_cases[OF w] show ?thesis
      using ok mode rows_move_refl insert_intent_inv by (fastforce simp: w)
  qed
  have "rows_ok (intent_rows (intent_initialize db))" using assms by simp
  from insert[OF this] show ?thesis
    using assms rows_move_refl
    by (simp add: intent_create_def split: sum.split option.split)
qed

lemma intent_transition_inv:
  assumes "rows_ok (intent_rows db)"
  shows "rows_ok (intent_rows (snd (intent_transition canon iid status seller data_dir now db)))
    \<and> rows_move (intent_rows db) (intent_rows (snd (intent_transition canon iid status seller data_dir now db)))"
proof -
  have "rows_ok (intent_rows (snd (intent_write (apply_transition sc iid st now) (intent_initialize db))))
      \<and> rows_move (intent_rows db) (intent_rows (snd (intent_write (apply_transition sc iid st now) (intent_initialize db))))"
    for sc st
  proof -
    obtain r d' where w: "intent_write (apply_transition sc iid st now) (intent_initialize db) = (r, d')"
      by (metis surj_pair)
    from intent_write_cases[OF w] show ?thesis
      using assms rows_move_refl apply_transition_inv by (fastforce simp: w)
  qed
  then show ?thesis
    using assms rows_move_refl by (simp add: intent_transition_def split: sum.split option.split)
qed

interpretation intents: tracked_system "intent_step canon" "\<lambda>db. rows_ok (intent_rows db)"
  "\<lambda>db db'. rows_move (intent_rows db) (intent_rows db')" for canon
proof
  fix s t assume ok: "rows_ok (intent_rows s)" and "intent_step canon s t"
  from this(2) have "rows_ok (intent_rows t) \<and> rows_move (intent_rows s) (intent_rows t)"
  proof cases
    case int_restart
    then show ?thesis using ok rows_move_refl by (simp add: intent_rows_def)
  qed (use ok intent_create_inv intent_transition_inv in blast)+
  then show "rows_ok (intent_rows t)" "rows_move (intent_rows s) (intent_rows t)" by auto
qed (auto intro: rows_move_refl rows_move_trans)

section \<open>Properties\<close>

text \<open>
  C16: Over any sequence of store calls and restarts, identifiers stay unique, an intent is in simulation mode
  exactly while it has the simulated status, no intent is lost, its content never changes, and once it is
  accepted, discarded or simulated its row never changes again.
\<close>

theorem intent_lifecycle:
  assumes "(intent_step canon)\<^sup>*\<^sup>* db db'" "rows_ok (intent_rows db)"
  shows "rows_ok (intent_rows db') \<and> (\<forall>i \<in> set (intent_rows db). \<exists>j \<in> set (intent_rows db').
      j = i \<or> in_status i = In_Requested
        \<and> (\<exists>now. j = i\<lparr>in_status := In_Accepted, in_updated := now\<rparr>
              \<or> j = i\<lparr>in_status := In_Discarded, in_updated := now\<rparr>))"
  using intents.steps_inv[OF assms] intents.steps_rel[OF assms]
  unfolding rows_move_def intent_moves_alt by blast

text \<open>Accepting an intent succeeds only for a requested intent of the caller's scope; it then discards exactly the
  requested siblings of its batch in that scope, so no request of the batch stays open, and touches no
  other row.
\<close>

theorem accepting_settles_the_batch:
  assumes "intent_transition canon iid ''accepted'' seller data_dir now db = (Inr r, db')"
    "rows_ok (intent_rows db)"
  shows "\<exists>current \<in> set (intent_rows db). in_id current = iid \<and> in_status current = In_Requested
     \<and> intent_in (seller, canon data_dir) current \<and> r = set_intent In_Accepted now current
     \<and> intent_rows db' = map (\<lambda>i.
          if in_id i = iid then set_intent In_Accepted now i
          else if in_batch i = in_batch current \<and> intent_in (seller, canon data_dir) i \<and> in_status i = In_Requested
          then set_intent In_Discarded now i else i) (intent_rows db)
     \<and> (\<forall>j \<in> set (intent_rows db'). in_batch j = in_batch current \<and> intent_in (seller, canon data_dir) j
          \<longrightarrow> in_status j \<noteq> In_Requested)"
proof -
  have st: "intent_status_of ''accepted'' = Some In_Accepted"
    by (simp add: intent_status_of_def intent_statuses_def)
  obtain sc where sc: "intent_scope canon seller data_dir = Inr sc"
    using assms(1) by (auto simp: intent_transition_def st split: sum.splits)
  then have sc': "sc = (seller, canon data_dir)" by (auto simp: intent_scope_def split: if_splits)
  have w: "intent_write (apply_transition sc iid In_Accepted now) (intent_initialize db) = (Inr r, db')"
    using assms(1) by (simp add: intent_transition_def st sc)
  from intent_write_cases[OF w]
  have "apply_transition sc iid In_Accepted now (intent_rows db) = (Inr r, intent_rows db')" by auto
  then show ?thesis
  proof (rule apply_transition_ok)
    fix current
    assume cur: "current \<in> set (intent_rows db)" "in_id current = iid" "intent_in sc current"
      "in_status current = In_Requested" "r = set_intent In_Accepted now current"
      and rows: "intent_rows db' = map (settle_row sc current In_Accepted now) (intent_rows db)"
    have row: "settle_row sc current In_Accepted now i = (if in_id i = iid then set_intent In_Accepted now i
        else if in_batch i = in_batch current \<and> intent_in (seller, canon data_dir) i \<and> in_status i = In_Requested
        then set_intent In_Discarded now i else i)" for i
      using cur(2) by (auto simp: settle_row_def is_sibling_def sc')
    show ?thesis
      unfolding rows row using cur by (intro bexI[of _ current]) (auto simp: sc' intent_in_def)
  qed
qed

definition demo_intent :: "string \<Rightarrow> intent" where
  "demo_intent iid =
     \<lparr>in_id = iid, in_seller = ''7'', in_data_dir = ''/d'', in_apid = ''p'', in_agent = ''a'', in_revision = None,
      in_conversation = Some 1, in_batch = ''b'', in_mode = In_Live, in_reply = ''hi'', in_zh = [], in_tone = [],
      in_status = In_Requested, in_call = None, in_created = 1, in_updated = 1\<rparr>"

definition demo_intents :: intent_db where
  "demo_intents = \<lparr>id_rows = Some [demo_intent ''x'', demo_intent ''y''], id_initialized = True\<rparr>"

lemmas intent_evaluation =
  demo_intents_def demo_intent_def intent_transition_def intent_status_of_def intent_statuses_def intent_scope_def
  intent_initialize_def intent_write_def apply_transition_def intent_in_def set_intent_def is_sibling_def
  intent_rows_def rows_ok_def py_blank_iff py_space_def

lemma demo_accept:
  "snd (intent_transition id ''x'' ''accepted'' ''7'' ''/d'' 5 demo_intents) =
     \<lparr>id_rows = Some [set_intent In_Accepted 5 (demo_intent ''x''), set_intent In_Discarded 5 (demo_intent ''y'')],
      id_initialized = True\<rparr>"
  "fst (intent_transition id ''x'' ''accepted'' ''7'' ''/d'' 5 demo_intents) = Inr (set_intent In_Accepted 5 (demo_intent ''x''))"
  by (simp_all add: intent_evaluation)

lemma demo_intents_ok: "rows_ok (intent_rows demo_intents)"
  by (simp add: intent_evaluation)

theorem intent_lifecycle_witness:
  "rows_ok [set_intent In_Accepted 5 (demo_intent ''x''), set_intent In_Discarded 5 (demo_intent ''y'')]"
proof -
  have "(intent_step id)\<^sup>*\<^sup>* demo_intents (snd (intent_transition id ''x'' ''accepted'' ''7'' ''/d'' 5 demo_intents))"
    by (rule r_into_rtranclp) (rule int_transition)
  from intent_lifecycle[OF this demo_intents_ok] show ?thesis
    unfolding demo_accept(1) by (simp add: intent_rows_def)
qed

theorem accepting_settles_the_batch_witness:
  "list_all (\<lambda>j. in_status j \<noteq> In_Requested)
     [set_intent In_Accepted 5 (demo_intent ''x''), set_intent In_Discarded 5 (demo_intent ''y'')]"
proof -
  obtain r db' where run: "intent_transition id ''x'' ''accepted'' ''7'' ''/d'' 5 demo_intents = (r, db')"
    by (metis surj_pair)
  then have r: "r = Inr (set_intent In_Accepted 5 (demo_intent ''x''))"
    and rows: "intent_rows db' = [set_intent In_Accepted 5 (demo_intent ''x''), set_intent In_Discarded 5 (demo_intent ''y'')]"
    using demo_accept by (auto simp: intent_rows_def)
  from accepting_settles_the_batch[OF run[unfolded r] demo_intents_ok] show ?thesis
    unfolding rows by (simp add: demo_intent_def)
qed

text \<open>
  The prompt summary has one line for each nonblank reply, in order, up to the limit (and at least the first
  one, since the limit is tested after a line is added), and a summarised reply is one line of at most 80 characters.
\<close>

theorem summary_lines_bounded:
  "summary_lines limit is = take (max 1 (nat limit))
     (map (\<lambda>i. ''- ['' @ intent_status_name (in_status i) @ ''] '' @ clip_text (in_reply i))
       (filter (\<lambda>i. \<not> py_blank (in_reply i)) is))
   \<and> length (clip_text reply) \<le> 80 \<and> CHR 0x0A \<notin> set (clip_text reply)"
proof -
  have blank: "clip_text r = [] \<longleftrightarrow> py_blank r" for r
    by (auto simp: clip_text_def py_blank_def Let_def)
  let ?line = "\<lambda>i. ''- ['' @ intent_status_name (in_status i) @ ''] '' @ clip_text (in_reply i)"
  have go: "length ls < max 1 (nat limit) \<Longrightarrow> summary_from limit ls is =
      ls @ take (max 1 (nat limit) - length ls) (map ?line (filter (\<lambda>i. \<not> py_blank (in_reply i)) is))" for ls
  proof (induction "is" arbitrary: ls)
    case (Cons i "is")
    show ?case
    proof (cases "py_blank (in_reply i)")
      case False
      have full: "limit \<le> int (length ls + 1) \<longleftrightarrow> max 1 (nat limit) \<le> Suc (length ls)"
        using Cons.prems by linarith
      show ?thesis
      proof (cases "limit \<le> int (length ls + 1)")
        case True
        then have "max 1 (nat limit) - length ls = Suc 0" using full Cons.prems by linarith
        then show ?thesis using False True by (simp add: blank)
      next
        case more: False
        then have room: "Suc (length ls) < max 1 (nat limit)" using full by linarith
        then obtain k where k: "max 1 (nat limit) - length ls = Suc k" "k = max 1 (nat limit) - Suc (length ls)"
          by (metis Suc_diff_Suc Suc_lessD)
        then show ?thesis using False more Cons.IH[of "ls @ [?line i]"] room by (simp add: blank)
      qed
    next
      case True
      then show ?thesis using Cons.IH[of ls] Cons.prems by (simp add: blank)
    qed
  qed simp
  have "length (clip_text reply) \<le> 80" by (auto simp: clip_text_def Let_def)
  moreover have "CHR 0x0A \<notin> set (clip_text reply)"
    by (auto simp: clip_text_def Let_def dest!: in_set_takeD split: if_splits)
  ultimately show ?thesis using go[of "[]"] by (simp add: summary_lines_def)
qed

end
