(* ===== verification/Sync_Store.thy ===== *)
theory Sync_Store
  imports Identities
begin

text \<open>
  The snapshot state and the batched message writes of \<^verbatim>\<open>shared/crm/sync_store.py\<close>. A table is
  the list of its rows. \<open>canon\<close> is the file system's canonical form of a path. The columns of a message that
  the source never writes (its local identifier and read state) are one opaque value. The caller owns the transaction, so a write
  is a function from tables to tables.
\<close>

section \<open>Tables with a key\<close>

text \<open>
  What batched writes rely on: a write of a row changes no other key. Decisions that read rows of later keys are then
  independent of when earlier rows are written.
\<close>

locale keyed_table =
  fixes lookup :: "'t \<Rightarrow> 'k \<Rightarrow> 'v option"
    and store_row :: "'p \<Rightarrow> 't \<Rightarrow> 't"
    and key :: "'p \<Rightarrow> 'k"
  assumes lookup_other: "k \<noteq> key p \<Longrightarrow> lookup (store_row p t) k = lookup t k"
begin

lemma lookup_writes: "k \<notin> key ` set ps \<Longrightarrow> lookup (fold store_row ps t) k = lookup t k"
  by (induction ps arbitrary: t) (auto simp: lookup_other)

text \<open>Decisions made on the table as it was, and the same decisions made one by one between the writes.\<close>

lemma decide_then_write:
  assumes "distinct (map key ps)"
  shows "fold (\<lambda>p t. if D (lookup t (key p)) p then store_row p t else t) ps t =
     fold store_row (filter (\<lambda>p. D (lookup t (key p)) p) ps) t"
  using assms
proof (induction ps arbitrary: t)
  case (Cons p ps)
  have same: "lookup (store_row p t) (key q) = lookup t (key q)" if "q \<in> set ps" for q
    using that Cons.prems by (intro lookup_other) (auto simp: image_iff)
  have "filter (\<lambda>q. D (lookup (store_row p t) (key q)) q) ps = filter (\<lambda>q. D (lookup t (key q)) q) ps"
    by (rule filter_cong) (simp_all add: same)
  then show ?case using Cons by simp
qed simp

end

section \<open>Sync state\<close>

definition canonical_source_dir :: "(string \<Rightarrow> string) \<Rightarrow> string \<Rightarrow> string" where
  "canonical_source_dir canon data_dir = (if data_dir \<noteq> [] then canon data_dir else [])"

record sync_counts =
  ct_inserted :: nat
  ct_updated :: nat
  ct_unchanged :: nat

record sync_row =
  sy_seller :: string
  sy_data_dir :: string
  sy_view_revision :: int
  sy_source_revision :: int
  sy_last_success :: pytime
  sy_counts :: sync_counts

text \<open>\<^verbatim>\<open>read_sync_state\<close>: None stands for an absent database or table.\<close>

definition sync_key :: "string \<Rightarrow> string \<Rightarrow> sync_row \<Rightarrow> bool" where
  "sync_key seller dir r \<longleftrightarrow> sy_seller r = seller \<and> sy_data_dir r = dir"

definition read_sync_state ::
  "(string \<Rightarrow> string) \<Rightarrow> string \<Rightarrow> string \<Rightarrow> sync_row list option \<Rightarrow> sync_row option" where
  "read_sync_state canon seller data_dir rows =
     (case rows of None \<Rightarrow> None
      | Some rs \<Rightarrow> find (sync_key seller (canonical_source_dir canon data_dir)) rs)"

definition write_sync_state ::
  "(string \<Rightarrow> string) \<Rightarrow> string \<Rightarrow> string \<Rightarrow> int \<Rightarrow> sync_counts \<Rightarrow> pytime \<Rightarrow> sync_row list option
     \<Rightarrow> sync_row \<times> sync_row list option" where
  "write_sync_state canon seller data_dir source_revision counts now rows =
     (let dir = canonical_source_dir canon data_dir;
          rs = (case rows of None \<Rightarrow> [] | Some rs \<Rightarrow> rs);
          previous = (case find (sync_key seller dir) rs of None \<Rightarrow> 0 | Some r \<Rightarrow> sy_view_revision r);
          row = \<lparr>sy_seller = seller, sy_data_dir = dir, sy_view_revision = previous + 1,
                 sy_source_revision = source_revision, sy_last_success = now, sy_counts = counts\<rparr>
      in (row, Some (if find (sync_key seller dir) rs = None then rs @ [row]
                     else update_rows (sync_key seller dir) (\<lambda>_. row) rs)))"

section \<open>Messages\<close>

record crm_message =
  cm_mid :: string
  cm_sid :: int
  cm_sender :: pyval
  cm_content :: pyval
  cm_type :: pyval
  cm_created :: pyval
  cm_local :: pyval

definition find_message :: "crm_message list \<Rightarrow> string \<Rightarrow> crm_message option" where
  "find_message t mid = find (\<lambda>m. cm_mid m = mid) t"

text \<open>The five source fields: their comparison and the update on a conflict.\<close>

definition same_source :: "crm_message \<Rightarrow> crm_message \<Rightarrow> bool" where
  "same_source current payload \<longleftrightarrow>
     cm_sid current = cm_sid payload \<and> py_eq (cm_sender current) (cm_sender payload)
   \<and> py_eq (cm_content current) (cm_content payload) \<and> py_eq (cm_type current) (cm_type payload)
   \<and> py_eq (cm_created current) (cm_created payload)"

definition with_source :: "crm_message \<Rightarrow> crm_message \<Rightarrow> crm_message" where
  "with_source payload current = payload\<lparr>cm_mid := cm_mid current, cm_local := cm_local current\<rparr>"

definition upsert_row :: "crm_message \<Rightarrow> crm_message list \<Rightarrow> crm_message list" where
  "upsert_row p t =
     (if find_message t (cm_mid p) = None then t @ [p]
      else update_rows (\<lambda>m. cm_mid m = cm_mid p) (with_source p) t)"

text \<open>\<^verbatim>\<open>{m.external_mid: m.model_dump() for m in messages}\<close>: the last message of an identifier counts.\<close>

definition payloads_of :: "crm_message list \<Rightarrow> crm_message list" where
  "payloads_of ms = map snd (fold (\<lambda>m d. alist_put (cm_mid m) m d) ms [])"

text \<open>The comparison of one batch with the rows as they are: the counts, and what has to be written.\<close>

fun compare_batch ::
  "crm_message list \<Rightarrow> crm_message list \<Rightarrow> sync_counts \<Rightarrow> crm_message list \<Rightarrow> sync_counts \<times> crm_message list" where
  "compare_batch t [] counts changed = (counts, changed)"
| "compare_batch t (p # ps) counts changed =
     (case find_message t (cm_mid p) of
        None \<Rightarrow> compare_batch t ps (counts\<lparr>ct_inserted := ct_inserted counts + 1\<rparr>) (changed @ [p])
      | Some current \<Rightarrow>
          if same_source current p
          then compare_batch t ps (counts\<lparr>ct_unchanged := ct_unchanged counts + 1\<rparr>) changed
          else compare_batch t ps (counts\<lparr>ct_updated := ct_updated counts + 1\<rparr>) (changed @ [p]))"

text \<open>The \<^verbatim>\<open>while\<close> loop: full writes of 500 rows, and the rest after the last batch.\<close>

function write_changed ::
  "bool \<Rightarrow> crm_message list \<Rightarrow> crm_message list \<Rightarrow> crm_message list \<times> crm_message list" where
  "write_changed final changed t =
     (if 500 \<le> length changed \<or> (changed \<noteq> [] \<and> final)
      then write_changed final (drop 500 changed) (fold upsert_row (take 500 changed) t)
      else (changed, t))"
  by pat_completeness auto
termination by (relation "measure (\<lambda>(final, changed, t). length changed)") auto

declare write_changed.simps [simp del]

function upsert_batches ::
  "crm_message list \<Rightarrow> sync_counts \<Rightarrow> crm_message list \<Rightarrow> crm_message list \<Rightarrow> sync_counts \<times> crm_message list" where
  "upsert_batches keys counts changed t =
     (if keys = [] then (counts, t)
      else
        (let (counts', changed') = compare_batch t (take 500 keys) counts changed;
             (left, t') = write_changed (drop 500 keys = []) changed' t
         in upsert_batches (drop 500 keys) counts' left t'))"
  by pat_completeness auto
termination by (relation "measure (\<lambda>(keys, counts, changed, t). length keys)") auto

declare upsert_batches.simps [simp del]

definition no_counts :: sync_counts where
  "no_counts = \<lparr>ct_inserted = 0, ct_updated = 0, ct_unchanged = 0\<rparr>"

definition upsert_messages :: "crm_message list \<Rightarrow> crm_message list \<Rightarrow> sync_counts \<times> crm_message list" where
  "upsert_messages ms t = upsert_batches (payloads_of ms) no_counts [] t"

section \<open>What batching computes\<close>

text \<open>The reference: one message after the other, compared and written at once.\<close>

definition count_one :: "crm_message list \<Rightarrow> crm_message \<Rightarrow> sync_counts \<Rightarrow> sync_counts" where
  "count_one t p c =
     (case find_message t (cm_mid p) of
        None \<Rightarrow> c\<lparr>ct_inserted := ct_inserted c + 1\<rparr>
      | Some current \<Rightarrow>
          if same_source current p then c\<lparr>ct_unchanged := ct_unchanged c + 1\<rparr>
          else c\<lparr>ct_updated := ct_updated c + 1\<rparr>)"

definition must_write :: "crm_message option \<Rightarrow> crm_message \<Rightarrow> bool" where
  "must_write current p \<longleftrightarrow> (case current of None \<Rightarrow> True | Some c \<Rightarrow> \<not> same_source c p)"


lemma find_message_update_other:
  "mid \<noteq> cm_mid p \<Longrightarrow> find_message (update_rows (\<lambda>m. cm_mid m = cm_mid p) (with_source p) t) mid = find_message t mid"
  by (induction t) (auto simp: find_message_def with_source_def)

lemma find_message_append: "find_message (t @ [p]) mid =
    (case find_message t mid of None \<Rightarrow> if cm_mid p = mid then Some p else None | Some m \<Rightarrow> Some m)"
  by (induction t) (auto simp: find_message_def)

lemma find_message_upsert_other: "mid \<noteq> cm_mid p \<Longrightarrow> find_message (upsert_row p t) mid = find_message t mid"
  by (auto simp: upsert_row_def find_message_update_other find_message_append split: option.splits)

interpretation message_table: keyed_table find_message upsert_row cm_mid
  by unfold_locales (rule find_message_upsert_other)

lemma in_alist_put: "kv \<in> set (alist_put k v d) \<Longrightarrow> kv = (k, v) \<or> kv \<in> set d"
  by (induction d) (auto split: if_splits)

lemma distinct_payloads: "distinct (map cm_mid (payloads_of ms))"
proof -
  have keys: "\<forall>kv \<in> set (alist_put (cm_mid m) m d). cm_mid (snd kv) = fst kv"
    if "\<forall>kv \<in> set d. cm_mid (snd kv) = fst kv" for m :: crm_message and d
  proof
    fix kv assume "kv \<in> set (alist_put (cm_mid m) m d)"
    from in_alist_put[OF this] show "cm_mid (snd kv) = fst kv"
    proof
      assume "kv \<in> set d"
      with that show ?thesis by (rule bspec)
    qed simp
  qed
  have fold: "(\<forall>kv \<in> set (fold (\<lambda>m d. alist_put (cm_mid m) m d) ms d). cm_mid (snd kv) = fst kv)
    \<and> distinct (map fst (fold (\<lambda>m d. alist_put (cm_mid m) m d) ms d))"
    if "\<forall>kv \<in> set d. cm_mid (snd kv) = fst kv" "distinct (map fst d)" for d
    using that
  proof (induction ms arbitrary: d)
    case (Cons m ms)
    have "\<forall>kv \<in> set (alist_put (cm_mid m) m d). cm_mid (snd kv) = fst kv"
      using Cons.prems(1) by (rule keys)
    moreover have "distinct (map fst (alist_put (cm_mid m) m d))" using Cons.prems(2) by simp
    ultimately show ?case using Cons.IH by simp
  qed simp
  from fold[of "[]"] have "map cm_mid (payloads_of ms) = map fst (fold (\<lambda>m d. alist_put (cm_mid m) m d) ms [])"
    "distinct (map fst (fold (\<lambda>m d. alist_put (cm_mid m) m d) ms []))"
    by (auto simp: payloads_of_def)
  then show ?thesis by simp
qed

lemma compare_batch_spec:
  "compare_batch t ps c ch =
     (fold (count_one t) ps c, ch @ filter (\<lambda>p. must_write (find_message t (cm_mid p)) p) ps)"
  by (induction ps arbitrary: c ch) (auto simp: count_one_def must_write_def split: option.splits)

lemma write_changed_spec:
  "write_changed final ch t = (left, t') \<Longrightarrow>
     fold upsert_row left t' = fold upsert_row ch t \<and> (\<exists>n. left = drop n ch) \<and> (final \<longrightarrow> left = [])"
proof (induction final ch t arbitrary: left t' rule: write_changed.induct)
  case (1 final ch t)
  show ?case
  proof (cases "500 \<le> length ch \<or> (ch \<noteq> [] \<and> final)")
    case True
    have "fold upsert_row (drop 500 ch) (fold upsert_row (take 500 ch) t) = fold upsert_row ch t"
      by (metis append_take_drop_id fold_append comp_apply)
    moreover have "fold upsert_row left t' = fold upsert_row (drop 500 ch) (fold upsert_row (take 500 ch) t)
        \<and> (\<exists>n. left = drop n (drop 500 ch)) \<and> (final \<longrightarrow> left = [])"
      using 1(1)[OF True] 1(2) True by (simp add: write_changed.simps[of final ch t])
    ultimately show ?thesis by auto
  next
    case False
    then have "left = ch" "t' = t" using 1(2) by (auto simp: write_changed.simps[of final ch t] split: if_splits)
    then show ?thesis using False by (auto intro: exI[of _ 0])
  qed
qed

lemma count_fold_cong:
  "(\<And>p. p \<in> set ps \<Longrightarrow> find_message t (cm_mid p) = find_message u (cm_mid p)) \<Longrightarrow>
     fold (count_one t) ps c = fold (count_one u) ps c"
  by (rule fold_cong) (auto simp: count_one_def fun_eq_iff)

text \<open>
  The loop, for any pending rows \<open>changed\<close> that are disjoint from the keys still to come: its result is the
  decisions made on the table with the pending rows written.
\<close>

lemma upsert_batches_spec:
  assumes "distinct (map cm_mid (changed @ keys))" "keys = [] \<Longrightarrow> changed = []"
  shows "upsert_batches keys c changed t =
    (fold (count_one t) keys c,
     fold upsert_row (changed @ filter (\<lambda>p. must_write (find_message t (cm_mid p)) p) keys) t)"
  using assms
proof (induction keys c changed t rule: upsert_batches.induct)
  case (1 keys c changed t)
  show ?case
  proof (cases "keys = []")
    case True
    then show ?thesis using 1 by (simp add: upsert_batches.simps)
  next
    case False
    define now later where nl: "now = take 500 keys" "later = drop 500 keys"
    have keys: "keys = now @ later" by (simp add: nl)
    let ?P = "\<lambda>t p. must_write (find_message t (cm_mid p)) p"
    let ?ch = "changed @ filter (?P t) now"
    obtain left t' where w: "write_changed (later = []) ?ch t = (left, t')" by (metis surj_pair)
    have spec: "fold upsert_row left t' = fold upsert_row ?ch t" "later = [] \<longrightarrow> left = []"
      and drop: "\<exists>n. left = drop n ?ch"
      using write_changed_spec[OF w] by auto
    have sub: "set left \<subseteq> set ?ch" using drop set_drop_subset by metis
    have split: "distinct (map cm_mid (changed @ now @ later))" using 1(2) keys by simp
    have disj: "cm_mid p \<notin> cm_mid ` set ?ch" if "p \<in> set later" for p
      using split that by (auto simp: image_iff)
    have look: "find_message t' (cm_mid p) = find_message t (cm_mid p)" if p: "p \<in> set later" for p
    proof -
      have "find_message (fold upsert_row left t') (cm_mid p) = find_message (fold upsert_row ?ch t) (cm_mid p)"
        using spec by simp
      moreover have "cm_mid p \<notin> cm_mid ` set left" using disj[OF p] sub by blast
      ultimately show ?thesis
        using message_table.lookup_writes disj[OF p] by metis
    qed
    have "cm_mid ` set changed \<inter> cm_mid ` set (filter (?P t) now) = {}" using split by auto
    then have "distinct (map cm_mid ?ch)" using split by (simp add: distinct_map_filter)
    moreover obtain n where "left = drop n ?ch" using drop by blast
    ultimately have dl: "distinct (map cm_mid left)" using distinct_drop[of "map cm_mid ?ch" n] by (simp only: drop_map)
    have dr: "distinct (map cm_mid later)" using split by simp
    have meet: "cm_mid ` set left \<inter> cm_mid ` set later = {}"
    proof -
      have part: "cm_mid ` set left \<subseteq> cm_mid ` set ?ch" using sub by (rule image_mono)
      show ?thesis
      proof (rule Int_emptyI)
        fix x assume x: "x \<in> cm_mid ` set left" "x \<in> cm_mid ` set later"
        then obtain q where q: "q \<in> set later" "x = cm_mid q" by blast
        have "cm_mid q \<in> cm_mid ` set ?ch" using subsetD[OF part x(1)] unfolding q(2) .
        with disj[OF q(1)] show False by (rule notE)
      qed
    qed
    have "distinct (map cm_mid (left @ later))"
      unfolding map_append distinct_append set_map using dl dr meet by blast
    moreover have "later = [] \<Longrightarrow> left = []" using spec by simp
    ultimately have "upsert_batches later (fold (count_one t) now c) left t' =
        (fold (count_one t') later (fold (count_one t) now c),
         fold upsert_row (left @ filter (?P t') later) t')"
      using 1(1)[OF False, folded nl] w by (simp add: compare_batch_spec)
    moreover have "fold (count_one t') later d = fold (count_one t) later d" for d
      by (rule count_fold_cong) (rule look)
    moreover have "filter (?P t') later = filter (?P t) later"
      by (rule filter_cong) (simp_all add: look)
    moreover have "fold upsert_row (left @ zs) t' = fold upsert_row (?ch @ zs) t" for zs using spec by simp
    moreover have "filter (?P t) keys = filter (?P t) now @ filter (?P t) later"
      by (simp add: keys)
    moreover have "fold (count_one t) keys c = fold (count_one t) later (fold (count_one t) now c)"
      by (simp add: keys)
    moreover have "upsert_batches keys c changed t = upsert_batches later (fold (count_one t) now c) left t'"
      using False by (simp add: upsert_batches.simps[of keys c changed t] compare_batch_spec w nl[symmetric])
    ultimately show ?thesis by simp
  qed
qed

definition write_step :: "crm_message \<Rightarrow> crm_message list \<Rightarrow> crm_message list" where
  "write_step p t = (if must_write (find_message t (cm_mid p)) p then upsert_row p t else t)"


text \<open>Writing rows of distinct identifiers leaves every one of them equal to its source.\<close>

definition proper_source :: "crm_message \<Rightarrow> bool" where
  "proper_source p \<longleftrightarrow> py_proper (cm_sender p) \<and> py_proper (cm_content p)
     \<and> py_proper (cm_type p) \<and> py_proper (cm_created p)"

lemma find_update_same:
  "find_message t (cm_mid p) = Some cur \<Longrightarrow>
     find_message (update_rows (\<lambda>m. cm_mid m = cm_mid p) (with_source p) t) (cm_mid p) = Some (with_source p cur)"
  by (induction t) (auto simp: find_message_def with_source_def split: if_splits)

lemma find_message_upsert_same:
  "find_message (upsert_row p t) (cm_mid p) =
     Some (case find_message t (cm_mid p) of None \<Rightarrow> p | Some cur \<Rightarrow> with_source p cur)"
  by (auto simp: upsert_row_def find_update_same find_message_append split: option.splits)

lemma same_source_written: "proper_source p \<Longrightarrow> same_source p p \<and> same_source (with_source p cur) p"
  by (simp add: same_source_def proper_source_def with_source_def)

definition settled :: "crm_message list \<Rightarrow> crm_message \<Rightarrow> bool" where
  "settled t p \<longleftrightarrow> (\<exists>cur. find_message t (cm_mid p) = Some cur \<and> same_source cur p)"

lemma settled_not_written: "settled t p \<Longrightarrow> \<not> must_write (find_message t (cm_mid p)) p"
  by (auto simp: settled_def must_write_def)

lemma settled_after_writes:
  assumes "distinct (map cm_mid ps)" "\<forall>p \<in> set ps. proper_source p" "p \<in> set ps"
  shows "settled (fold write_step ps t) p"
  using assms
proof (induction ps rule: rev_induct)
  case (snoc q ps)
  define u where "u = fold write_step ps t"
  show ?case
  proof (cases "p = q")
    case True
    have "proper_source q" using snoc.prems(2) by simp
    then have "settled (write_step q u) q"
      by (auto simp: write_step_def settled_def find_message_upsert_same must_write_def same_source_written
          split: option.splits)
    then show ?thesis by (simp add: True u_def)
  next
    case False
    then have p: "p \<in> set ps" and other: "cm_mid p \<noteq> cm_mid q"
      using snoc.prems(1,3) by (auto simp: image_iff)
    have "settled u p" unfolding u_def using snoc p by simp
    then have "settled (write_step q u) p"
      using other by (simp add: write_step_def settled_def find_message_upsert_other)
    then show ?thesis by (simp add: u_def)
  qed
qed simp

lemma count_settled:
  "(\<And>p. p \<in> set ps \<Longrightarrow> settled t p) \<Longrightarrow>
     fold (count_one t) ps c = c\<lparr>ct_unchanged := ct_unchanged c + length ps\<rparr>"
proof (induction ps arbitrary: c)
  case (Cons p ps)
  have "count_one t p c = c\<lparr>ct_unchanged := ct_unchanged c + 1\<rparr>"
    using Cons.prems[of p] by (auto simp: settled_def count_one_def)
  then show ?case using Cons by simp
qed simp

lemma payload_in_messages: "p \<in> set (payloads_of ms) \<Longrightarrow> p \<in> set ms"
proof -
  have "snd ` set (fold (\<lambda>m d. alist_put (cm_mid m) m d) ms d) \<subseteq> set ms \<union> snd ` set d" for d
  proof (induction ms arbitrary: d)
    case (Cons m ms)
    have "snd ` set (alist_put (cm_mid m) m d) \<subseteq> insert m (snd ` set d)"
      by (auto dest!: in_alist_put)
    with Cons[of "alist_put (cm_mid m) m d"] show ?case unfolding fold_Cons comp_apply set_simps by blast
  qed simp
  from this[of "[]"] show "p \<in> set (payloads_of ms) \<Longrightarrow> p \<in> set ms" by (auto simp: payloads_of_def)
qed

lemma upsert_messages_spec:
  "upsert_messages ms t = (fold (count_one t) (payloads_of ms) no_counts,
     fold write_step (payloads_of ms) t)"
proof -
  have "upsert_messages ms t = (fold (count_one t) (payloads_of ms) no_counts,
      fold upsert_row (filter (\<lambda>p. must_write (find_message t (cm_mid p)) p) (payloads_of ms)) t)"
    using upsert_batches_spec[of "[]" "payloads_of ms" no_counts t] distinct_payloads[of ms]
    by (simp add: upsert_messages_def)
  then show ?thesis
    using message_table.decide_then_write[OF distinct_payloads[of ms], where D = must_write and t = t] by (simp add: write_step_def[abs_def])
qed


text \<open>Importing the same source again is a no-op: every message counts as unchanged and the table
  keeps its rows.
\<close>

theorem upsert_idempotent:
  assumes "\<forall>m \<in> set ms. proper_source m"
  shows "upsert_messages ms (snd (upsert_messages ms t)) =
    (no_counts\<lparr>ct_unchanged := length (payloads_of ms)\<rparr>, snd (upsert_messages ms t))"
proof -
  define u where "u = snd (upsert_messages ms t)"
  have all: "settled u p" if "p \<in> set (payloads_of ms)" for p
    unfolding u_def upsert_messages_spec snd_conv
    using distinct_payloads assms payload_in_messages that by (intro settled_after_writes) blast+
  have "fold write_step ps u = u"
    if "set ps \<subseteq> set (payloads_of ms)" for ps
    using that all by (induction ps) (simp_all add: write_step_def settled_not_written)
  then show ?thesis
    unfolding u_def[symmetric] upsert_messages_spec[of ms u]
    using count_settled[OF all, of "payloads_of ms" no_counts] by (simp add: no_counts_def)
qed

definition demo_messages :: "crm_message list" where
  "demo_messages =
     [\<lparr>cm_mid = ''a'', cm_sid = 1, cm_sender = PStr ''7@icbu'', cm_content = PStr ''hi'', cm_type = PInt 1,
       cm_created = PStr ''t'', cm_local = PNone\<rparr>,
      \<lparr>cm_mid = ''b'', cm_sid = 1, cm_sender = PStr ''7@icbu'', cm_content = PStr ''yo'', cm_type = PInt 1,
       cm_created = PStr ''t'', cm_local = PNone\<rparr>]"

theorem upsert_idempotent_witness:
  "upsert_messages demo_messages (snd (upsert_messages demo_messages [])) =
    (\<lparr>ct_inserted = 0, ct_updated = 0, ct_unchanged = 2\<rparr>, snd (upsert_messages demo_messages []))"
proof -
  have "\<forall>m \<in> set demo_messages. proper_source m"
    by (simp add: demo_messages_def proper_source_def)
  moreover have "length (payloads_of demo_messages) = 2"
    by (simp add: demo_messages_def payloads_of_def)
  ultimately show ?thesis
    using upsert_idempotent[of demo_messages "[]"] by (simp add: no_counts_def)
qed

text \<open>Each recorded synchronisation advances the view revision of its own account directory by one
  (starting at one) and leaves the state of every other account and directory as it was.
\<close>

theorem sync_state_roundtrip:
  "read_sync_state canon seller' dir' (snd (write_sync_state canon seller dir revision counts now rows)) =
     (if (seller', canonical_source_dir canon dir') = (seller, canonical_source_dir canon dir)
      then Some (fst (write_sync_state canon seller dir revision counts now rows))
      else read_sync_state canon seller' dir' rows)
   \<and> sy_view_revision (fst (write_sync_state canon seller dir revision counts now rows)) =
     (case read_sync_state canon seller dir rows of None \<Rightarrow> 1 | Some r \<Rightarrow> sy_view_revision r + 1)"
proof -
  define rs where "rs = (case rows of None \<Rightarrow> [] | Some rs \<Rightarrow> rs)"
  define d d' where "d = canonical_source_dir canon dir" and "d' = canonical_source_dir canon dir'"
  have read: "read_sync_state canon s e rows = find (sync_key s (canonical_source_dir canon e)) rs" for s e
    by (cases rows) (simp_all add: read_sync_state_def rs_def)
  define row where "row = \<lparr>sy_seller = seller, sy_data_dir = d,
    sy_view_revision = (case find (sync_key seller d) rs of None \<Rightarrow> 0 | Some r \<Rightarrow> sy_view_revision r) + 1,
    sy_source_revision = revision, sy_last_success = now, sy_counts = counts\<rparr>"
  define new where "new = (if find (sync_key seller d) rs = None then rs @ [row]
    else update_rows (sync_key seller d) (\<lambda>_. row) rs)"
  have w: "write_sync_state canon seller dir revision counts now rows = (row, Some new)"
    by (simp add: write_sync_state_def row_def new_def rs_def d_def Let_def)
  have key: "sync_key seller d row" by (simp add: sync_key_def row_def)
  have app: "find P (xs @ [x]) = (case find P xs of None \<Rightarrow> if P x then Some x else None | Some y \<Rightarrow> Some y)"
    for P and xs :: "sync_row list" and x by (induction xs) auto
  have upd: "find P xs \<noteq> None \<Longrightarrow> P row \<Longrightarrow> find P (update_rows P (\<lambda>_. row) xs) = Some row" for P xs
    by (induction xs) (auto split: if_splits)
  have "find (sync_key seller d) new = Some row"
    using key upd by (auto simp: new_def app)
  moreover have "find (sync_key seller' d') new = find (sync_key seller' d') rs" if "(seller', d') \<noteq> (seller, d)"
  proof -
    have no: "\<not> sync_key seller' d' row" using that by (auto simp: sync_key_def row_def)
    have not_both: "\<not> (sync_key seller' d' r \<and> sync_key seller d r)" for r
      using that by (auto simp: sync_key_def)
    have "find (sync_key seller' d') (update_rows (sync_key seller d) (\<lambda>_. row) xs) = find (sync_key seller' d') xs" for xs
      using no not_both by (induction xs) auto
    then show ?thesis using no by (auto simp: new_def app split: option.splits)
  qed
  moreover have "sy_view_revision row = (case find (sync_key seller d) rs of None \<Rightarrow> 1 | Some r \<Rightarrow> sy_view_revision r + 1)"
    by (auto simp: row_def split: option.splits)
  ultimately show ?thesis
    unfolding w read by (simp add: read_sync_state_def d_def d'_def)
qed

end
