(* ===== verification/Sync_Coordinator.thy ===== *)
theory Sync_Coordinator
  imports Sync_Store Gui_Session
begin

text \<open>
  The scheduler of source synchronisations, \<^verbatim>\<open>SyncCoordinator\<close> in \<^verbatim>\<open>shared/backend/sync_coordinator.py\<close>.
  Every method holds the coordinator's lock, so a method is one operation on the state; the executor's
  completion callback only appends to the queue of completed targets and is an operation of its own.
  A waiter is a future handed to a caller: the state lists all of them, and a waiter is its position in that list.
  \<open>clock\<close> gives the readings of the clock in order, and \<open>submit\<close> what the executor answers
  for a target. \<open>canon\<close> is the file system's canonical form of a path. Logging is left out.
\<close>

section \<open>State\<close>

datatype waiter = W_Pending | W_Cancelled | W_Result pyval | W_Error py_error

fun waiter_done :: "waiter \<Rightarrow> bool" where
  "waiter_done W_Pending = False"
| "waiter_done _ = True"

record sync_target =
  tg_id :: nat
  tg_context :: account
  tg_path :: string
  tg_source :: int
  tg_waiters :: "nat list"

type_synonym outcome = "pyval result"

text \<open>The executor raises, returns something else than a future, or returns a future that may be done at once.\<close>

datatype submission = Sub_Raises py_error | Sub_No_Future | Sub_Future "outcome option"

text \<open>\<^verbatim>\<open>self._state\<close> after the first selection.\<close>

record sync_view =
  sv_seller :: string
  sv_epoch :: string
  sv_revision :: int
  sv_applied :: pyval
  sv_last_success :: pyval
  sv_counts :: "pyval \<times> pyval \<times> pyval"
  sv_last_attempt :: "pytime option"
  sv_retry_at :: "pytime option"
  sv_last_error :: string
  sv_phase :: string
  sv_pending :: bool
  sv_syncing :: bool

record coordinator =
  co_completed :: "sync_target list"
  co_active :: "(string \<times> sync_target) list"
  co_pending :: "sync_target option"
  co_context :: "account option"
  co_failures :: nat
  co_view :: sync_view
  co_last :: "sync_target option"
  co_waiters :: "waiter list"
  co_results :: "nat \<Rightarrow> outcome option"
  co_next :: nat
  co_reads :: nat

definition empty_view :: sync_view where
  "empty_view = \<lparr>sv_seller = [], sv_epoch = [], sv_revision = 0, sv_applied = PInt 0, sv_last_success = PNone,
     sv_counts = (PInt 0, PInt 0, PInt 0), sv_last_attempt = None, sv_retry_at = None, sv_last_error = [],
     sv_phase = ''idle'', sv_pending = False, sv_syncing = False\<rparr>"

definition new_coordinator :: coordinator where
  "new_coordinator = \<lparr>co_completed = [], co_active = [], co_pending = None, co_context = None, co_failures = 0,
     co_view = empty_view, co_last = None, co_waiters = [], co_results = (\<lambda>_. None), co_next = 0, co_reads = 0\<rparr>"

definition read_clock :: "(nat \<Rightarrow> pytime) \<Rightarrow> coordinator \<Rightarrow> pytime \<times> coordinator" where
  "read_clock clock s = (clock (co_reads s), s\<lparr>co_reads := co_reads s + 1\<rparr>)"

section \<open>Waiters\<close>

text \<open>\<^verbatim>\<open>cancel()\<close>, \<^verbatim>\<open>set_result\<close> and \<^verbatim>\<open>set_exception\<close> on the waiters that are not done.\<close>

definition settle_waiter :: "waiter \<Rightarrow> nat \<Rightarrow> waiter list \<Rightarrow> waiter list" where
  "settle_waiter v w ws = (if w < length ws \<and> ws ! w = W_Pending then ws[w := v] else ws)"

definition settle_waiters :: "waiter \<Rightarrow> nat list \<Rightarrow> waiter list \<Rightarrow> waiter list" where
  "settle_waiters v ids ws = fold (settle_waiter v) ids ws"

definition done_at :: "coordinator \<Rightarrow> nat \<Rightarrow> bool" where
  "done_at s w \<longleftrightarrow> (w < length (co_waiters s) \<longrightarrow> waiter_done (co_waiters s ! w))"

definition cancel_pending :: "coordinator \<Rightarrow> coordinator" where
  "cancel_pending s =
     (case co_pending s of
        None \<Rightarrow> s
      | Some t \<Rightarrow> s\<lparr>co_waiters := settle_waiters W_Cancelled (tg_waiters t) (co_waiters s), co_pending := None\<rparr>)"

section \<open>Selecting an account\<close>

text \<open>
  \<open>restored\<close> is the state read from the archive. For the account that is selected already, a newer
  result that was published meanwhile takes precedence over it.
\<close>

definition select_account :: "account \<Rightarrow> sync_row option \<Rightarrow> coordinator \<Rightarrow> coordinator" where
  "select_account ctx restored s =
     (let view = co_view s;
          revision = (case restored of None \<Rightarrow> 0 | Some r \<Rightarrow> sy_view_revision r);
          newer = (co_context s = Some ctx \<and> revision < sv_revision view);
          counts = (case restored of None \<Rightarrow> (PInt 0, PInt 0, PInt 0)
            | Some r \<Rightarrow> (PInt (int (ct_inserted (sy_counts r))), PInt (int (ct_updated (sy_counts r))),
                         PInt (int (ct_unchanged (sy_counts r)))));
          success = (case restored of None \<Rightarrow> PNone | Some r \<Rightarrow> PFloat (FFin (sy_last_success r)))
      in (cancel_pending s)\<lparr>co_context := Some ctx, co_last := None, co_failures := 0,
            co_view := \<lparr>sv_seller = ac_seller ctx, sv_epoch = ac_epoch ctx,
              sv_revision = (if newer then sv_revision view else revision),
              sv_applied = PInt (case restored of None \<Rightarrow> 0 | Some r \<Rightarrow> sy_source_revision r),
              sv_last_success = (if newer then sv_last_success view else success),
              sv_counts = (if newer then sv_counts view else counts),
              sv_last_attempt = None, sv_retry_at = None, sv_last_error = [], sv_phase = ''idle'',
              sv_pending = False, sv_syncing = False\<rparr>\<rparr>)"

definition clear_retry :: "coordinator \<Rightarrow> coordinator" where
  "clear_retry s = s\<lparr>co_failures := 0, co_view := (co_view s)\<lparr>sv_retry_at := None, sv_last_error := []\<rparr>\<rparr>"

definition pinned_paths :: "coordinator \<Rightarrow> string set" where
  "pinned_paths s = (tg_path \<circ> snd) ` set (co_active s)
     \<union> (case co_pending s of None \<Rightarrow> {} | Some t \<Rightarrow> {tg_path t})"

section \<open>Submitting\<close>

text \<open>\<^verbatim>\<open>_complete\<close>, called by the executor's future: only the queue changes.\<close>

definition complete_target :: "sync_target \<Rightarrow> outcome \<Rightarrow> coordinator \<Rightarrow> coordinator" where
  "complete_target t out s = s\<lparr>co_results := (co_results s)(tg_id t := Some out), co_completed := co_completed s @ [t]\<rparr>"

definition outcome_of :: "submission \<Rightarrow> outcome option" where
  "outcome_of sub = (case sub of
       Sub_Raises e \<Rightarrow> Some (Inl e)
     | Sub_No_Future \<Rightarrow> Some (Inl (Type_Error ''CRM sync must return a Future''))
     | Sub_Future out \<Rightarrow> out)"

definition dispatch :: "(nat \<Rightarrow> pytime) \<Rightarrow> (sync_target \<Rightarrow> submission) \<Rightarrow> coordinator \<Rightarrow> coordinator" where
  "dispatch clock submit s =
     (case co_pending s of
        None \<Rightarrow> s
      | Some t \<Rightarrow>
          if ac_epoch (tg_context t) \<in> fst ` set (co_active s) then s
          else
            (let (now, s1) = read_clock clock s
             in if now < (case sv_retry_at (co_view s1) of None \<Rightarrow> 0 | Some r \<Rightarrow> r) then s1
                else
                  (let (attempt, s2) = read_clock clock
                         (s1\<lparr>co_pending := None, co_active := alist_put (ac_epoch (tg_context t)) t (co_active s1)\<rparr>);
                       s3 = s2\<lparr>co_view := (co_view s2)\<lparr>sv_pending := False, sv_syncing := True, sv_phase := ''syncing'',
                                                       sv_last_attempt := Some attempt\<rparr>\<rparr>
                   in case outcome_of (submit t) of None \<Rightarrow> s3 | Some out \<Rightarrow> complete_target t out s3)))"

text \<open>A target of the present context with the caller's waiters and one new one.\<close>

definition new_target :: "account \<Rightarrow> string \<Rightarrow> int \<Rightarrow> nat list \<Rightarrow> coordinator \<Rightarrow> sync_target \<times> coordinator" where
  "new_target ctx path source waiters s =
     (\<lparr>tg_id = co_next s, tg_context = ctx, tg_path = path, tg_source = source,
       tg_waiters = waiters @ [length (co_waiters s)]\<rparr>,
      s\<lparr>co_next := co_next s + 1, co_waiters := co_waiters s @ [W_Pending]\<rparr>)"

definition unchanged_target :: "string \<Rightarrow> int \<Rightarrow> coordinator \<Rightarrow> sync_target option" where
  "unchanged_target path source s =
     (case co_last s of
        None \<Rightarrow> None
      | Some t \<Rightarrow>
          if tg_source t = source \<and> tg_path t = path
            \<and> (\<not> done_at s (last (tg_waiters t)) \<or> sv_last_error (co_view s) = [])
          then Some t else None)"

definition request_sync ::
  "(nat \<Rightarrow> pytime) \<Rightarrow> (sync_target \<Rightarrow> submission) \<Rightarrow> account \<Rightarrow> string \<Rightarrow> int \<Rightarrow> coordinator \<Rightarrow> nat result \<times> coordinator" where
  "request_sync clock submit ctx path source s =
     (if co_context s \<noteq> Some ctx then (Inl (Runtime_Error ''Account context changed''), s)
      else
        (case unchanged_target path source s of
           Some t \<Rightarrow> (Inr (last (tg_waiters t)), s)
         | None \<Rightarrow>
             (let (t, s1) = new_target ctx path source
                    (case co_pending s of None \<Rightarrow> [] | Some p \<Rightarrow> tg_waiters p) s;
                  s2 = s1\<lparr>co_pending := Some t, co_last := Some t, co_view := (co_view s1)\<lparr>sv_pending := True\<rparr>\<rparr>
              in (Inr (last (tg_waiters t)), dispatch clock submit s2))))"

section \<open>Completed targets\<close>

text \<open>\<^verbatim>\<open>value < n\<close> for a value of the result; a comparison with something that is no number raises.\<close>

fun below :: "pyval \<Rightarrow> int \<Rightarrow> bool result" where
  "below (PFloat f) n =
     (case f of FFin q \<Rightarrow> Inr (q < of_int n) | FPosInf \<Rightarrow> Inr False | FNegInf \<Rightarrow> Inr True | FNaN \<Rightarrow> Inr False)"
| "below (PInt i) n = Inr (i < n)"
| "below (PBool b) n = Inr ((if b then 1 else 0) < n)"
| "below v n = Inl (Type_Error ''not supported between instances'')"

fun is_number :: "pyval \<Rightarrow> bool" where
  "is_number (PInt _) = True"
| "is_number (PFloat _) = True"
| "is_number (PBool _) = True"
| "is_number _ = False"

definition required_keys :: "string list" where
  "required_keys = [''revision'', ''applied_source_revision'', ''last_success'', ''inserted'', ''updated'', ''unchanged'']"

text \<open>The checks on a result: what the coordinator publishes, or the error it stands for.\<close>

record committed =
  cm_revision :: int
  cm_applied :: pyval
  cm_success :: pyval
  cm_counts :: "pyval \<times> pyval \<times> pyval"

definition check_result :: "sync_target \<Rightarrow> outcome \<Rightarrow> committed result" where
  "check_result t out =
     and_then out (\<lambda>v.
       case v of
         PDict d \<Rightarrow>
           if \<exists>k \<in> set required_keys. map_of d k = None
           then Inl (Value_Error ''CRM sync returned no committed state'')
           else
             (case dict_get_none d ''revision'' of
                PInt r \<Rightarrow>
                  if r \<le> 0 \<or> \<not> is_number (dict_get_none d ''last_success'')
                  then Inl (Value_Error ''CRM sync returned invalid committed state'')
                  else and_then (below (dict_get_none d ''applied_source_revision'') (tg_source t)) (\<lambda>low.
                    if low then Inl (Value_Error ''CRM sync did not apply the requested source revision'')
                    else Inr \<lparr>cm_revision = r, cm_applied = dict_get_none d ''applied_source_revision'',
                      cm_success = dict_get_none d ''last_success'',
                      cm_counts = (dict_get_none d ''inserted'', dict_get_none d ''updated'', dict_get_none d ''unchanged'')\<rparr>)
              | _ \<Rightarrow> Inl (Value_Error ''CRM sync returned invalid committed state''))
       | _ \<Rightarrow> Inl (Value_Error ''CRM sync returned no committed state''))"

text \<open>\<^verbatim>\<open>type(error).__name__\<close>, for an exception without a text.\<close>

fun error_class :: "py_error \<Rightarrow> string" where
  "error_class (Value_Error _) = ''ValueError''"
| "error_class (Type_Error _) = ''TypeError''"
| "error_class (Key_Error _) = ''KeyError''"
| "error_class (Runtime_Error _) = ''RuntimeError''"
| "error_class (Overflow_Error _) = ''OverflowError''"
| "error_class (Operational_Error _) = ''OperationalError''"
| "error_class (Integrity_Error _) = ''IntegrityError''"
| "error_class (App_Error _ _) = ''AppError''"
| "error_class (Outbox_Conflict _) = ''OutboxConflict''"
| "error_class (Screenshot_Expired _) = ''ScreenshotExpiredError''"
| "error_class (Intent_Conflict _) = ''IntentConflict''"
| "error_class (Run_Conflict _) = ''RunConflict''"
| "error_class (OS_Error _) = ''OSError''"

definition error_label :: "py_error \<Rightarrow> string" where
  "error_label e = (if err_text e = [] then error_class e else err_text e)"

text \<open>\<^verbatim>\<open>min(3 * 2 ** min(failures - 1, 4), 30)\<close>, in seconds, after the failures counted so far.\<close>

definition backoff :: "nat \<Rightarrow> pytime" where
  "backoff failures = min (3 * 2 ^ min (failures - 1) 4) 30"

definition publish_result :: "(string \<Rightarrow> string) \<Rightarrow> account \<Rightarrow> committed \<Rightarrow> coordinator \<Rightarrow> coordinator" where
  "publish_result canon ctx c s =
     (case co_context s of
        None \<Rightarrow> s
      | Some current \<Rightarrow>
          if ac_seller ctx \<noteq> ac_seller current
            \<or> canonical_source_dir canon (ac_data_dir ctx) \<noteq> canonical_source_dir canon (ac_data_dir current)
            \<or> cm_revision c \<le> sv_revision (co_view s)
          then s
          else s\<lparr>co_view := (co_view s)\<lparr>sv_revision := cm_revision c, sv_last_success := cm_success c,
                                         sv_counts := cm_counts c\<rparr>\<rparr>)"

definition retry_later :: "(nat \<Rightarrow> pytime) \<Rightarrow> sync_target \<Rightarrow> py_error \<Rightarrow> coordinator \<Rightarrow> coordinator" where
  "retry_later clock t e s =
     (let (now, s1) = read_clock clock (s\<lparr>co_failures := co_failures s + 1\<rparr>);
          s2 = s1\<lparr>co_view := (co_view s1)\<lparr>sv_phase := ''error'', sv_last_error := error_label e,
                                         sv_retry_at := Some (now + backoff (co_failures s1))\<rparr>\<rparr>;
          s3 = (if co_pending s2 = None
                then (let (p, s') = new_target (tg_context t) (tg_path t) (tg_source t) [] s2
                      in s'\<lparr>co_pending := Some p, co_last := Some p\<rparr>)
                else s2)
      in s3\<lparr>co_view := (co_view s3)\<lparr>sv_pending := True\<rparr>\<rparr>)"

text \<open>One turn of the loop in \<^verbatim>\<open>tick\<close>, for a target taken from the queue.\<close>

definition finish_target ::
  "(nat \<Rightarrow> pytime) \<Rightarrow> (string \<Rightarrow> string) \<Rightarrow> sync_target \<Rightarrow> coordinator \<Rightarrow> coordinator" where
  "finish_target clock canon t s =
     (case map_of (co_active s) (ac_epoch (tg_context t)) of
        None \<Rightarrow> s
      | Some running \<Rightarrow>
          if tg_id running \<noteq> tg_id t then s
          else
            (let s1 = s\<lparr>co_active := alist_del (ac_epoch (tg_context t)) (co_active s)\<rparr>;
                 out = (case co_results s (tg_id t) of Some o' \<Rightarrow> o' | None \<Rightarrow> Inl (Runtime_Error []));
                 checked = check_result t out;
                 s2 = (case checked of Inl _ \<Rightarrow> s1 | Inr c \<Rightarrow> publish_result canon (tg_context t) c s1);
                 s3 = (if Some (tg_context t) = co_context s2
                       then (let s' = s2\<lparr>co_view := (co_view s2)\<lparr>sv_syncing := False\<rparr>\<rparr>
                             in case checked of
                                  Inl e \<Rightarrow> retry_later clock t e s'
                                | Inr c \<Rightarrow> s'\<lparr>co_failures := 0,
                                    co_view := (co_view s')\<lparr>sv_applied := cm_applied c, sv_phase := ''ready'',
                                                           sv_last_error := [], sv_retry_at := None\<rparr>\<rparr>)
                       else s2);
                 answer = (case (checked, out) of (Inl e, _) \<Rightarrow> W_Error e | (_, Inr v) \<Rightarrow> W_Result v
                           | (_, Inl e) \<Rightarrow> W_Error e)
             in s3\<lparr>co_waiters := settle_waiters answer (tg_waiters t) (co_waiters s3)\<rparr>))"

definition drain_completed :: "(nat \<Rightarrow> pytime) \<Rightarrow> (string \<Rightarrow> string) \<Rightarrow> coordinator \<Rightarrow> coordinator" where
  "drain_completed clock canon s = fold (finish_target clock canon) (co_completed s) (s\<lparr>co_completed := []\<rparr>)"

definition sync_tick ::
  "(nat \<Rightarrow> pytime) \<Rightarrow> (sync_target \<Rightarrow> submission) \<Rightarrow> (string \<Rightarrow> string) \<Rightarrow> coordinator \<Rightarrow> coordinator" where
  "sync_tick clock submit canon s = dispatch clock submit (drain_completed clock canon s)"

text \<open>
  \<^verbatim>\<open>shutdown\<close>: no further target, then wait for each running one (\<open>final\<close> is the outcome of one that has none
  yet) and complete it once more, since its callback may not have run.
\<close>

definition shutdown_wait :: "(sync_target \<Rightarrow> outcome) \<Rightarrow> string \<times> sync_target \<Rightarrow> coordinator \<Rightarrow> coordinator" where
  "shutdown_wait final et s =
     complete_target (snd et)
       (case co_results s (tg_id (snd et)) of Some out \<Rightarrow> out | None \<Rightarrow> final (snd et)) s"

definition shutdown_sync ::
  "(nat \<Rightarrow> pytime) \<Rightarrow> (sync_target \<Rightarrow> submission) \<Rightarrow> (string \<Rightarrow> string) \<Rightarrow> (sync_target \<Rightarrow> outcome) \<Rightarrow> coordinator \<Rightarrow> coordinator" where
  "shutdown_sync clock submit canon final s =
     (let s1 = (cancel_pending s)\<lparr>co_context := None\<rparr>;
          s2 = fold (shutdown_wait final) (co_active s1) s1
      in sync_tick clock submit canon s2)"

end
