(* ===== verification/Sync_Coordinator_Props.thy ===== *)
theory Sync_Coordinator_Props
  imports Sync_Coordinator
begin

text \<open>
  The coordinator as a transition system: \<open>sync_step\<close> is one call of a method, one completion reported by the
  executor, or one waiter that its holder cancels. The invariant says that nothing waits in vain:
  a waiter that is not done belongs to the pending or to a running target, and a running target whose future is
  done is in the queue that \<^verbatim>\<open>tick\<close> drains. Its parts are stated on the components of the state
  (\<open>coord_ok\<close>), one lemma for each kind of change; \<open>X\<close> are the waiters in hand in the middle of an operation.
\<close>

section \<open>Waiters\<close>

lemma length_settle_waiter [simp]: "length (settle_waiter v w ws) = length ws"
  by (simp add: settle_waiter_def)

lemma length_settle_waiters [simp]: "length (settle_waiters v ids ws) = length ws"
  unfolding settle_waiters_def by (induction ids arbitrary: ws) simp_all

lemma settle_waiters_nth:
  "w < length ws \<Longrightarrow> v \<noteq> W_Pending \<Longrightarrow>
     settle_waiters v ids ws ! w = (if w \<in> set ids \<and> ws ! w = W_Pending then v else ws ! w)"
  unfolding settle_waiters_def
proof (induction ids arbitrary: ws)
  case (Cons i ids)
  show ?case
    using Cons(1)[of "settle_waiter v i ws"] Cons(2,3) by (auto simp: settle_waiter_def nth_list_update)
qed simp

text \<open>A waiter that is done keeps its answer.\<close>

definition answers_kept :: "waiter list \<Rightarrow> waiter list \<Rightarrow> bool" where
  "answers_kept ws us \<longleftrightarrow> length ws \<le> length us
     \<and> (\<forall>w < length ws. ws ! w \<noteq> W_Pending \<longrightarrow> us ! w = ws ! w)"

lemma answers_kept_refl [simp]: "answers_kept ws ws"
  by (simp add: answers_kept_def)

lemma answers_kept_trans: "answers_kept ws us \<Longrightarrow> answers_kept us vs \<Longrightarrow> answers_kept ws vs"
  by (auto simp: answers_kept_def)

lemma answers_kept_settle [simp]: "v \<noteq> W_Pending \<Longrightarrow> answers_kept ws (settle_waiters v ids ws)"
  by (auto simp: answers_kept_def settle_waiters_nth)

lemma answers_kept_append [simp]: "answers_kept ws (ws @ us)"
  by (auto simp: answers_kept_def nth_append)

section \<open>The invariant on the components of the state\<close>

definition live :: "(string \<times> sync_target) list \<Rightarrow> sync_target option \<Rightarrow> sync_target list" where
  "live act pend = map snd act @ (case pend of None \<Rightarrow> [] | Some p \<Rightarrow> [p])"

definition keys_ok :: "(string \<times> sync_target) list \<Rightarrow> bool" where
  "keys_ok act \<longleftrightarrow> distinct (map fst act) \<and> (\<forall>et \<in> set act. fst et = ac_epoch (tg_context (snd et)))"

definition ids_ok :: "nat \<Rightarrow> waiter list \<Rightarrow> sync_target list \<Rightarrow> bool" where
  "ids_ok nx ws ts \<longleftrightarrow> distinct (map tg_id ts)
     \<and> (\<forall>t \<in> set ts. tg_id t < nx \<and> (\<forall>w \<in> set (tg_waiters t). w < length ws))"

definition results_ok :: "sync_target list \<Rightarrow> (nat \<Rightarrow> outcome option) \<Rightarrow> nat \<Rightarrow> sync_target list \<Rightarrow> bool" where
  "results_ok q res nx ts \<longleftrightarrow>
     (\<forall>t \<in> set ts. res (tg_id t) \<noteq> None \<longrightarrow> t \<in> set q)
   \<and> (\<forall>t \<in> set q. tg_id t < nx \<and> res (tg_id t) \<noteq> None \<and> (\<forall>a \<in> set ts. tg_id a = tg_id t \<longrightarrow> a = t))
   \<and> (\<forall>n \<ge> nx. res n = None)"

definition covered :: "nat set \<Rightarrow> waiter list \<Rightarrow> sync_target list \<Rightarrow> bool" where
  "covered X ws ts \<longleftrightarrow> (\<forall>w < length ws. ws ! w = W_Pending \<longrightarrow> w \<in> X \<or> (\<exists>t \<in> set ts. w \<in> set (tg_waiters t)))"

definition pending_ok :: "account option \<Rightarrow> (nat \<Rightarrow> outcome option) \<Rightarrow> sync_target option \<Rightarrow> bool" where
  "pending_ok ctx res pend \<longleftrightarrow> (\<forall>p. pend = Some p \<longrightarrow> ctx = Some (tg_context p) \<and> res (tg_id p) = None)"

definition coord_ok ::
  "sync_target list \<Rightarrow> nat set \<Rightarrow> (string \<times> sync_target) list \<Rightarrow> sync_target option \<Rightarrow> account option
     \<Rightarrow> (nat \<Rightarrow> outcome option) \<Rightarrow> nat \<Rightarrow> waiter list \<Rightarrow> bool" where
  "coord_ok q X act pend ctx res nx ws \<longleftrightarrow> keys_ok act \<and> ids_ok nx ws (live act pend)
     \<and> results_ok q res nx (live act pend) \<and> covered X ws (live act pend) \<and> pending_ok ctx res pend"

lemma live_simps [simp]:
  "set (live act None) = snd ` set act" "set (live act (Some p)) = insert p (snd ` set act)"
  "live (act @ [(e, p)]) None = live act (Some p)"
  by (auto simp: live_def)

lemma coord_cancel:
  assumes "coord_ok q X act (Some p) ctx res nx ws"
  shows "coord_ok q X act None ctx res nx (settle_waiters W_Cancelled (tg_waiters p) ws)"
proof -
  have "ids_ok nx (settle_waiters W_Cancelled (tg_waiters p) ws) (live act None)"
    using assms by (simp add: coord_ok_def ids_ok_def live_def)
  moreover have "results_ok q res nx (live act None)"
    using assms by (auto simp: coord_ok_def results_ok_def)
  moreover have "covered X (settle_waiters W_Cancelled (tg_waiters p) ws) (live act None)"
    using assms by (auto simp: coord_ok_def covered_def settle_waiters_nth)
  ultimately show ?thesis using assms by (simp add: coord_ok_def pending_ok_def)
qed

lemma coord_context: "coord_ok q X act None ctx res nx ws \<Longrightarrow> coord_ok q X act None ctx' res nx ws"
  by (simp add: coord_ok_def pending_ok_def)

lemma coord_settle:
  assumes "coord_ok q X act pend ctx res nx ws" "v \<noteq> W_Pending"
  shows "coord_ok q (X - set ids) act pend ctx res nx (settle_waiters v ids ws)"
proof -
  have "ids_ok nx (settle_waiters v ids ws) (live act pend)"
    using assms by (simp add: coord_ok_def ids_ok_def)
  moreover have "covered (X - set ids) (settle_waiters v ids ws) (live act pend)"
    using assms by (auto simp: coord_ok_def covered_def settle_waiters_nth)
  ultimately show ?thesis using assms by (simp add: coord_ok_def)
qed

lemma coord_new_target:
  assumes "coord_ok q X act pend ctx res nx ws"
    "waiters = (case pend of None \<Rightarrow> [] | Some p \<Rightarrow> tg_waiters p) @ [length ws]"
  shows "coord_ok q X act
    (Some \<lparr>tg_id = nx, tg_context = c, tg_path = path, tg_source = source, tg_waiters = waiters\<rparr>) (Some c)
    res (nx + 1) (ws @ [W_Pending])"
proof -
  let ?t = "\<lparr>tg_id = nx, tg_context = c, tg_path = path, tg_source = source, tg_waiters = waiters\<rparr>"
  have sub: "snd ` set act \<subseteq> set (live act pend)" by (auto simp: live_def)
  have ids: "distinct (map tg_id (live act pend))" "\<forall>t \<in> set (live act pend). tg_id t < nx \<and> (\<forall>w \<in> set (tg_waiters t). w < length ws)"
    using assms(1) by (simp_all add: coord_ok_def ids_ok_def)
  have pend: "\<forall>w \<in> set waiters. w < length (ws @ [W_Pending])"
    using ids(2) assms(2) by (cases pend) (auto simp: less_Suc_eq)
  have "ids_ok (nx + 1) (ws @ [W_Pending]) (live act (Some ?t))"
    using ids sub pend by (fastforce simp: ids_ok_def live_def split: option.splits)
  moreover have "results_ok q res (nx + 1) (live act (Some ?t))"
    using assms(1) ids(2) sub by (fastforce simp: coord_ok_def results_ok_def)
  moreover have "covered X (ws @ [W_Pending]) (live act (Some ?t))"
    using assms by (cases pend) (auto simp: coord_ok_def covered_def nth_append less_Suc_eq)
  ultimately show ?thesis using assms(1) by (simp add: coord_ok_def pending_ok_def results_ok_def)
qed

lemma coord_start:
  assumes "coord_ok q X act (Some p) ctx res nx ws" "ac_epoch (tg_context p) \<notin> fst ` set act"
  shows "coord_ok q X (act @ [(ac_epoch (tg_context p), p)]) None ctx res nx ws"
  using assms by (auto simp: coord_ok_def keys_ok_def pending_ok_def)

lemma ids_ok_same: "ids_ok nx ws ts \<Longrightarrow> a \<in> set ts \<Longrightarrow> t \<in> set ts \<Longrightarrow> tg_id a = tg_id t \<Longrightarrow> a = t"
  by (auto simp: ids_ok_def distinct_map dest: inj_onD)

lemma coord_complete:
  assumes "coord_ok q X act pend ctx res nx ws" "(e, t) \<in> set act"
  shows "coord_ok (q @ [t]) X act pend ctx (res(tg_id t := Some out)) nx ws"
proof -
  have t: "t \<in> set (live act pend)" using assms(2) by (force simp: live_def)
  have ids: "ids_ok nx ws (live act pend)" using assms(1) by (simp add: coord_ok_def)
  have same: "a = t" if "a \<in> set (live act pend)" "tg_id a = tg_id t" for a
    using ids_ok_same[OF ids that(1) t that(2)] .
  have "tg_id t < nx" using ids t by (simp add: ids_ok_def)
  then have "results_ok (q @ [t]) (res(tg_id t := Some out)) nx (live act pend)"
    using assms(1) same by (auto simp: coord_ok_def results_ok_def)
  moreover have "pending_ok ctx (res(tg_id t := Some out)) pend"
  proof -
    have "tg_id p \<noteq> tg_id t" if "pend = Some p" for p
      using ids assms(2) that by (force simp: ids_ok_def live_def)
    then show ?thesis using assms(1) by (auto simp: coord_ok_def pending_ok_def)
  qed
  ultimately show ?thesis using assms(1) by (simp add: coord_ok_def)
qed

lemma set_alist_del: "set (alist_del e act) = {kv \<in> set act. fst kv \<noteq> e}"
  by (auto simp: alist_del_def)

lemma live_del:
  assumes "keys_ok act" "map_of act e = Some t"
  shows "set (live act pend) = insert t (set (live (alist_del e act) pend))"
proof -
  have d: "distinct (map fst act)" using assms(1) by (simp add: keys_ok_def)
  have "snd kv = t" if "kv \<in> set act" "fst kv = e" for kv
    using assms(2) map_of_is_SomeI[OF d, of e "snd kv"] that by (cases kv) simp
  then have only: "snd kv = t \<or> kv \<in> set (alist_del e act)" if "kv \<in> set act" for kv
    using that by (auto simp: set_alist_del)
  have "snd ` set act = insert t (snd ` set (alist_del e act))"
  proof
    show "snd ` set act \<subseteq> insert t (snd ` set (alist_del e act))" using only by blast
    have "t \<in> snd ` set act" using imageI[OF map_of_SomeD[OF assms(2)], of snd] by simp
    moreover have "snd ` set (alist_del e act) \<subseteq> snd ` set act" by (auto simp: set_alist_del)
    ultimately show "insert t (snd ` set (alist_del e act)) \<subseteq> snd ` set act" by blast
  qed
  then show ?thesis by (cases pend) auto
qed

lemma live_del_fresh:
  assumes "keys_ok act" "ids_ok nx ws (live act pend)" "map_of act e = Some t"
  shows "t \<notin> set (live (alist_del e act) pend)"
proof -
  have mem: "(e, t) \<in> set act" using assms(3) by (rule map_of_SomeD)
  then have "e = ac_epoch (tg_context t)" using assms(1) by (force simp: keys_ok_def)
  then have "t \<notin> snd ` set (alist_del e act)" using assms(1) by (force simp: set_alist_del keys_ok_def)
  moreover have "pend \<noteq> Some t" using assms(2) mem by (force simp: ids_ok_def live_def)
  ultimately show ?thesis by (cases pend) auto
qed

lemma coord_take:
  assumes "coord_ok (t # q) X act pend ctx res nx ws" "map_of act e = Some t"
  shows "coord_ok q (X \<union> set (tg_waiters t)) (alist_del e act) pend ctx res nx ws"
proof -
  have keys: "keys_ok act" and ids: "ids_ok nx ws (live act pend)" using assms(1) by (simp_all add: coord_ok_def)
  note live = live_del[OF keys assms(2), of pend] and fresh = live_del_fresh[OF keys ids assms(2)]
  have "distinct (map tg_id (live (alist_del e act) pend))"
  proof -
    have d: "distinct (map (tg_id \<circ> snd) act)" and x: "\<forall>p. pend = Some p \<longrightarrow> tg_id p \<notin> tg_id ` snd ` set act"
      using ids by (auto simp: ids_ok_def live_def image_image split: option.splits)
    have "distinct (map (tg_id \<circ> snd) (alist_del e act))"
      using d by (simp add: alist_del_def distinct_map_filter)
    then show ?thesis using x by (force simp: live_def set_alist_del split: option.splits)
  qed
  then have "ids_ok nx ws (live (alist_del e act) pend)"
    using ids live by (auto simp: ids_ok_def)
  moreover have "keys_ok (alist_del e act)"
    using keys by (auto simp: keys_ok_def set_alist_del)
  moreover have "results_ok q res nx (live (alist_del e act) pend)"
    using assms(1) live fresh unfolding coord_ok_def results_ok_def by auto
  moreover have "covered (X \<union> set (tg_waiters t)) ws (live (alist_del e act) pend)"
    using assms(1) live unfolding coord_ok_def covered_def by auto
  ultimately show ?thesis using assms(1) by (simp add: coord_ok_def)
qed

lemma coord_skip:
  assumes "coord_ok (t # q) X act pend ctx res nx ws"
    "\<And>a. map_of act (ac_epoch (tg_context t)) = Some a \<Longrightarrow> tg_id a \<noteq> tg_id t"
  shows "coord_ok q X act pend ctx res nx ws"
proof -
  have "t \<notin> snd ` set act"
  proof
    assume "t \<in> snd ` set act"
    then obtain e where "(e, t) \<in> set act" by auto
    then have "map_of act (ac_epoch (tg_context t)) = Some t"
      using assms(1) by (force simp: coord_ok_def keys_ok_def intro!: map_of_is_SomeI)
    with assms(2) show False by blast
  qed
  moreover have "pend \<noteq> Some t"
    using assms(1) by (auto simp: coord_ok_def pending_ok_def results_ok_def)
  ultimately have "t \<notin> set (live act pend)" by (cases pend) auto
  then have "results_ok q res nx (live act pend)"
    using assms(1) unfolding coord_ok_def results_ok_def by auto
  then show ?thesis using assms(1) by (simp add: coord_ok_def)
qed

lemma coord_empty: "coord_ok [] {} [] None ctx (\<lambda>_. None) 0 []"
  by (simp add: coord_ok_def keys_ok_def ids_ok_def results_ok_def covered_def pending_ok_def live_def)

section \<open>What each operation keeps\<close>

definition coord_inv :: "sync_target list \<Rightarrow> nat set \<Rightarrow> coordinator \<Rightarrow> bool" where
  "coord_inv q X s \<longleftrightarrow> coord_ok q X (co_active s) (co_pending s) (co_context s) (co_results s) (co_next s) (co_waiters s)"

abbreviation sync_inv :: "coordinator \<Rightarrow> bool" where
  "sync_inv s \<equiv> coord_inv (co_completed s) {} s"

lemma coord_inv_parts:
  "coord_inv q X (s\<lparr>co_view := v\<rparr>) = coord_inv q X s"
  "coord_inv q X (s\<lparr>co_failures := n\<rparr>) = coord_inv q X s"
  "coord_inv q X (s\<lparr>co_reads := n\<rparr>) = coord_inv q X s"
  "coord_inv q X (s\<lparr>co_last := l\<rparr>) = coord_inv q X s"
  "coord_inv q X (s\<lparr>co_completed := c\<rparr>) = coord_inv q X s"
  by (simp_all add: coord_inv_def)

lemma cancel_pending_inv:
  assumes "coord_inv q X s"
  shows "coord_inv q X (cancel_pending s)" "co_pending (cancel_pending s) = None"
    "answers_kept (co_waiters s) (co_waiters (cancel_pending s))"
    "co_completed (cancel_pending s) = co_completed s" "co_active (cancel_pending s) = co_active s"
    "co_results (cancel_pending s) = co_results s"
  using assms coord_cancel by (auto simp: coord_inv_def cancel_pending_def split: option.splits)

lemma select_account_inv:
  assumes "sync_inv s"
  shows "sync_inv (select_account ctx restored s) \<and>
    answers_kept (co_waiters s) (co_waiters (select_account ctx restored s))"
proof -
  note c = cancel_pending_inv[OF assms]
  have "coord_ok (co_completed s) {} (co_active s) None (Some ctx) (co_results s)
      (co_next (cancel_pending s)) (co_waiters (cancel_pending s))"
    using c coord_context by (auto simp: coord_inv_def)
  then show ?thesis using c by (simp add: select_account_def Let_def coord_inv_def)
qed

lemma clear_retry_inv [simp]: "coord_inv q X (clear_retry s) = coord_inv q X s"
  "co_waiters (clear_retry s) = co_waiters s" "co_completed (clear_retry s) = co_completed s"
  by (simp_all add: clear_retry_def coord_inv_def)

lemma alist_put_new: "k \<notin> fst ` set d \<Longrightarrow> alist_put k v d = d @ [(k, v)]"
  by (induction d) auto

lemma dispatch_inv:
  assumes "sync_inv s"
  shows "sync_inv (dispatch clock submit s)" "co_waiters (dispatch clock submit s) = co_waiters s"
proof -
  have "sync_inv (dispatch clock submit s) \<and> co_waiters (dispatch clock submit s) = co_waiters s"
  proof (cases "co_pending s")
    case None
    then show ?thesis using assms by (simp add: dispatch_def)
  next
    case (Some t)
    let ?e = "ac_epoch (tg_context t)"
    show ?thesis
    proof (cases "?e \<in> fst ` set (co_active s)")
      case True
      then show ?thesis using assms Some by (simp add: dispatch_def)
    next
      case False
      have started: "coord_ok (co_completed s) {} (co_active s @ [(?e, t)]) None (co_context s) (co_results s)
          (co_next s) (co_waiters s)"
        using coord_start[OF _ False] assms Some by (simp add: coord_inv_def)
      have finished: "coord_ok (co_completed s @ [t]) {} (co_active s @ [(?e, t)]) None (co_context s)
          ((co_results s)(tg_id t := Some out)) (co_next s) (co_waiters s)" for out
        using coord_complete[OF started, of ?e t out] by simp
      show ?thesis
        using assms Some False started finished
        by (auto simp: dispatch_def read_clock_def Let_def coord_inv_def complete_target_def alist_put_new
            split: option.splits)
    qed
  qed
  then show "sync_inv (dispatch clock submit s)" "co_waiters (dispatch clock submit s) = co_waiters s" by auto
qed

lemma request_inv:
  assumes "sync_inv s"
  shows "sync_inv (snd (request_sync clock submit ctx path source s)) \<and>
    answers_kept (co_waiters s) (co_waiters (snd (request_sync clock submit ctx path source s)))"
proof (cases "co_context s = Some ctx \<and> unchanged_target path source s = None")
  case True
  obtain t s1 where ts: "new_target ctx path source
    (case co_pending s of None \<Rightarrow> [] | Some p \<Rightarrow> tg_waiters p) s = (t, s1)" by (metis surj_pair)
  define s2 where "s2 = s1\<lparr>co_pending := Some t, co_last := Some t, co_view := (co_view s1)\<lparr>sv_pending := True\<rparr>\<rparr>"
  have "coord_ok (co_completed s) {} (co_active s) (Some t) (Some ctx) (co_results s) (co_next s + 1) (co_waiters s @ [W_Pending])"
    using coord_new_target[OF assms[unfolded coord_inv_def] refl, of ctx path source] ts
    by (simp add: new_target_def)
  moreover have s1: "s1 = s\<lparr>co_next := co_next s + 1, co_waiters := co_waiters s @ [W_Pending]\<rparr>"
    using ts by (simp add: new_target_def)
  ultimately have "sync_inv s2" and w: "co_waiters s2 = co_waiters s @ [W_Pending]"
    using True by (simp_all add: s2_def coord_inv_def)
  from dispatch_inv[OF this(1), of clock submit] show ?thesis
    using True w by (simp add: request_sync_def ts s2_def[symmetric])
next
  case False
  then show ?thesis using assms by (auto simp: request_sync_def split: option.splits)
qed

lemma retry_later_inv:
  assumes "coord_inv q X s" "co_context s = Some (tg_context t)"
  shows "coord_inv q X (retry_later clock t e s)"
    "answers_kept (co_waiters s) (co_waiters (retry_later clock t e s))"
    "co_completed (retry_later clock t e s) = co_completed s"
proof -
  have "coord_inv q X (retry_later clock t e s) \<and> answers_kept (co_waiters s) (co_waiters (retry_later clock t e s))
    \<and> co_completed (retry_later clock t e s) = co_completed s"
  proof (cases "co_pending s")
    case None
    have "coord_ok q X (co_active s)
        (Some \<lparr>tg_id = co_next s, tg_context = tg_context t, tg_path = tg_path t, tg_source = tg_source t,
               tg_waiters = [length (co_waiters s)]\<rparr>)
        (Some (tg_context t)) (co_results s) (co_next s + 1) (co_waiters s @ [W_Pending])"
      using coord_new_target[OF assms(1)[unfolded coord_inv_def], of "[length (co_waiters s)]"] None by simp
    then show ?thesis
      using None assms(2) by (simp add: retry_later_def read_clock_def new_target_def Let_def coord_inv_def)
  next
    case (Some p)
    then show ?thesis
      using assms by (simp add: retry_later_def read_clock_def Let_def coord_inv_def)
  qed
  then show "coord_inv q X (retry_later clock t e s)"
    "answers_kept (co_waiters s) (co_waiters (retry_later clock t e s))"
    "co_completed (retry_later clock t e s) = co_completed s" by auto
qed

lemma publish_result_inv [simp]:
  "coord_inv q X (publish_result canon ctx c s) = coord_inv q X s"
  "co_waiters (publish_result canon ctx c s) = co_waiters s"
  "co_completed (publish_result canon ctx c s) = co_completed s"
  "co_context (publish_result canon ctx c s) = co_context s"
  by (simp_all add: publish_result_def coord_inv_def split: option.split)

lemma coord_inv_weaken: "coord_inv q X s \<Longrightarrow> X \<subseteq> Y \<Longrightarrow> coord_inv q Y s"
  by (auto simp: coord_inv_def coord_ok_def covered_def)

lemma settle_inv:
  assumes "coord_inv q (set ids) s" "v \<noteq> W_Pending"
  shows "coord_inv q {} (s\<lparr>co_waiters := settle_waiters v ids (co_waiters s)\<rparr>)"
  using coord_settle[OF assms[unfolded coord_inv_def], of ids] by (simp add: coord_inv_def)

text \<open>The target of a turn is either running, and then it leaves the running ones with its waiters answered, or it is skipped.\<close>

lemma finish_target_inv:
  assumes "coord_inv (t # q) {} s"
  shows "coord_inv q {} (finish_target clock canon t s)
    \<and> answers_kept (co_waiters s) (co_waiters (finish_target clock canon t s))
    \<and> co_completed (finish_target clock canon t s) = co_completed s"
proof (cases "map_of (co_active s) (ac_epoch (tg_context t))")
  case None
  then have "coord_inv q {} s" using coord_skip[OF assms[unfolded coord_inv_def]] by (simp add: coord_inv_def)
  then show ?thesis using None by (simp add: finish_target_def)
next
  case (Some a)
  show ?thesis
  proof (cases "tg_id a = tg_id t")
    case False
    then have "coord_inv q {} s" using coord_skip[OF assms[unfolded coord_inv_def]] Some by (simp add: coord_inv_def)
    then show ?thesis using Some False by (simp add: finish_target_def)
  next
    case True
    have "a \<in> set (live (co_active s) (co_pending s))"
      using Some by (force simp: live_def dest: map_of_SomeD)
    then have "a = t"
      using assms True by (auto simp: coord_inv_def coord_ok_def results_ok_def)
    define s1 where "s1 = s\<lparr>co_active := alist_del (ac_epoch (tg_context t)) (co_active s)\<rparr>"
    have s1: "coord_inv q (set (tg_waiters t)) s1"
      using coord_take[OF assms[unfolded coord_inv_def] Some[unfolded \<open>a = t\<close>]] by (simp add: coord_inv_def s1_def)
    define out where "out = (case co_results s (tg_id t) of Some o' \<Rightarrow> o' | None \<Rightarrow> Inl (Runtime_Error []))"
    define s2 where "s2 = (case check_result t out of Inl _ \<Rightarrow> s1 | Inr c \<Rightarrow> publish_result canon (tg_context t) c s1)"
    have s2: "coord_inv q (set (tg_waiters t)) s2" "co_waiters s2 = co_waiters s" "co_completed s2 = co_completed s"
      using s1 by (simp_all add: s2_def s1_def split: sum.split)
    define s' where "s' = s2\<lparr>co_view := (co_view s2)\<lparr>sv_syncing := False\<rparr>\<rparr>"
    define s3 where "s3 = (if Some (tg_context t) = co_context s2
       then (case check_result t out of
               Inl e \<Rightarrow> retry_later clock t e s'
             | Inr c \<Rightarrow> s'\<lparr>co_failures := 0, co_view := (co_view s')\<lparr>sv_applied := cm_applied c, sv_phase := ''ready'',
                 sv_last_error := [], sv_retry_at := None\<rparr>\<rparr>)
       else s2)"
    have s': "coord_inv q (set (tg_waiters t)) s'" "co_waiters s' = co_waiters s" "co_completed s' = co_completed s"
      using s2 by (simp_all add: s'_def coord_inv_parts)
    have "coord_inv q (set (tg_waiters t)) s3 \<and> answers_kept (co_waiters s) (co_waiters s3) \<and> co_completed s3 = co_completed s"
    proof (cases "Some (tg_context t) = co_context s2")
      case True
      then have ctx: "co_context s' = Some (tg_context t)" by (simp add: s'_def)
      show ?thesis
        using True s' retry_later_inv[OF s'(1) ctx] by (simp add: s3_def coord_inv_parts split: sum.split)
    qed (use s2 in \<open>simp add: s3_def\<close>)
    moreover define answer where "answer = (case (check_result t out, out) of (Inl e, _) \<Rightarrow> W_Error e
      | (_, Inr v) \<Rightarrow> W_Result v | (_, Inl e) \<Rightarrow> W_Error e)"
    have "answer \<noteq> W_Pending" by (simp add: answer_def split: sum.split)
    moreover have "finish_target clock canon t s = s3\<lparr>co_waiters := settle_waiters answer (tg_waiters t) (co_waiters s3)\<rparr>"
      unfolding finish_target_def Some option.case Let_def answer_def s3_def s'_def s2_def out_def s1_def
      using True by simp
    ultimately show ?thesis
      using settle_inv[of q "tg_waiters t" s3 answer]
        answers_kept_trans[OF _ answers_kept_settle, of "co_waiters s" "co_waiters s3" answer "tg_waiters t"]
      by simp
  qed
qed

lemma drain_inv:
  assumes "sync_inv s"
  shows "sync_inv (drain_completed clock canon s)" "answers_kept (co_waiters s) (co_waiters (drain_completed clock canon s))"
proof -
  have "coord_inv q {} u \<Longrightarrow> co_completed u = [] \<Longrightarrow> coord_inv [] {} (fold (finish_target clock canon) q u)
      \<and> answers_kept (co_waiters u) (co_waiters (fold (finish_target clock canon) q u))
      \<and> co_completed (fold (finish_target clock canon) q u) = []" for q u
  proof (induction q arbitrary: u)
    case (Cons t q)
    note f = finish_target_inv[OF Cons.prems(1), of clock canon]
    with Cons.IH[of "finish_target clock canon t u"] Cons.prems(2) show ?case
      by (auto intro: answers_kept_trans)
  qed simp
  from this[of "co_completed s" "s\<lparr>co_completed := []\<rparr>"] assms
  show "sync_inv (drain_completed clock canon s)" "answers_kept (co_waiters s) (co_waiters (drain_completed clock canon s))"
    by (auto simp: drain_completed_def coord_inv_parts)
qed

lemma sync_tick_inv:
  "sync_inv s \<Longrightarrow> sync_inv (sync_tick clock submit canon s)
     \<and> answers_kept (co_waiters s) (co_waiters (sync_tick clock submit canon s))"
  using drain_inv dispatch_inv by (simp add: sync_tick_def)

lemma complete_inv:
  assumes "sync_inv s" "(e, t) \<in> set (co_active s)"
  shows "sync_inv (complete_target t out s)" "co_waiters (complete_target t out s) = co_waiters s"
    "co_active (complete_target t out s) = co_active s" "co_pending (complete_target t out s) = co_pending s"
    "co_context (complete_target t out s) = co_context s"
  using coord_complete[OF assms(1)[unfolded coord_inv_def] assms(2), of out]
  by (simp_all add: coord_inv_def complete_target_def)

section \<open>Shutting down\<close>

lemma finish_target_fields:
  "co_context (finish_target clock canon t s) = co_context s"
  "co_context s = None \<Longrightarrow> co_pending (finish_target clock canon t s) = co_pending s"
  "co_active (finish_target clock canon t s) =
     (case map_of (co_active s) (ac_epoch (tg_context t)) of
        Some a \<Rightarrow> if tg_id a = tg_id t then alist_del (ac_epoch (tg_context t)) (co_active s) else co_active s
      | None \<Rightarrow> co_active s)"
  by (simp_all add: finish_target_def publish_result_def retry_later_def read_clock_def new_target_def Let_def
      split: option.split sum.split)

lemma finish_target_active:
  assumes "coord_inv (t # q) {} s"
  shows "snd ` set (co_active (finish_target clock canon t s)) = snd ` set (co_active s) - {t}"
proof -
  have ok: "keys_ok (co_active s)" "ids_ok (co_next s) (co_waiters s) (live (co_active s) (co_pending s))"
    using assms by (simp_all add: coord_inv_def coord_ok_def)
  show ?thesis
  proof (cases "map_of (co_active s) (ac_epoch (tg_context t)) = Some t")
    case True
    have "snd ` set (co_active s) = insert t (snd ` set (alist_del (ac_epoch (tg_context t)) (co_active s)))"
      using live_del[OF ok(1) True, of None] by simp
    moreover have "t \<notin> snd ` set (alist_del (ac_epoch (tg_context t)) (co_active s))"
      using live_del_fresh[OF ok True] by (auto simp: live_def)
    ultimately show ?thesis using True by (simp add: finish_target_fields)
  next
    case False
    have "t \<notin> snd ` set (co_active s)"
    proof
      assume "t \<in> snd ` set (co_active s)"
      then obtain e where "(e, t) \<in> set (co_active s)" by auto
      then have "map_of (co_active s) (ac_epoch (tg_context t)) = Some t"
        using ok(1) by (force simp: keys_ok_def intro!: map_of_is_SomeI)
      with False show False by blast
    qed
    moreover have "a = t" if "map_of (co_active s) (ac_epoch (tg_context t)) = Some a" "tg_id a = tg_id t" for a
    proof -
      have "a \<in> set (live (co_active s) (co_pending s))" using that by (force simp: live_def dest: map_of_SomeD)
      then show ?thesis using assms that by (auto simp: coord_inv_def coord_ok_def results_ok_def)
    qed
    ultimately show ?thesis using False by (auto simp: finish_target_fields split: option.splits)
  qed
qed

lemma fold_finish_active:
  "coord_inv q {} s \<Longrightarrow> co_completed s = [] \<Longrightarrow> co_context s = None \<Longrightarrow> co_pending s = None \<Longrightarrow>
     snd ` set (co_active s) \<subseteq> set q \<Longrightarrow>
     co_active (fold (finish_target clock canon) q s) = [] \<and> co_pending (fold (finish_target clock canon) q s) = None"
proof (induction q arbitrary: s)
  case (Cons t q)
  let ?s = "finish_target clock canon t s"
  have "coord_inv q {} ?s" "co_completed ?s = []" using finish_target_inv[OF Cons.prems(1)] Cons.prems(2) by auto
  moreover have "snd ` set (co_active ?s) \<subseteq> set q"
    using finish_target_active[OF Cons.prems(1)] Cons.prems(5) by auto
  ultimately show ?case using Cons.IH[of ?s] Cons.prems(3,4) by (simp add: finish_target_fields)
qed simp

lemma shutdown_wait_inv:
  assumes "sync_inv s" "set ets \<subseteq> set (co_active s)"
  shows "sync_inv (fold (shutdown_wait final) ets s) \<and> co_waiters (fold (shutdown_wait final) ets s) = co_waiters s
    \<and> co_active (fold (shutdown_wait final) ets s) = co_active s \<and> co_pending (fold (shutdown_wait final) ets s) = co_pending s
    \<and> co_context (fold (shutdown_wait final) ets s) = co_context s
    \<and> set (co_completed (fold (shutdown_wait final) ets s)) = set (co_completed s) \<union> snd ` set ets"
  using assms
proof (induction ets arbitrary: s)
  case (Cons et ets)
  let ?s = "shutdown_wait final et s"
  have "(fst et, snd et) \<in> set (co_active s)" using Cons.prems(2) by simp
  note c = complete_inv[OF Cons.prems(1) this]
  have "sync_inv ?s" "co_waiters ?s = co_waiters s" "co_active ?s = co_active s" "co_pending ?s = co_pending s"
    "co_context ?s = co_context s" "set (co_completed ?s) = insert (snd et) (set (co_completed s))"
    using c by (simp_all add: shutdown_wait_def) (simp add: complete_target_def)
  then show ?case using Cons.IH[of ?s] Cons.prems(2) by simp
qed simp

lemma shutdown_settled:
  fixes clock submit canon final
  assumes "sync_inv s"
  defines "t \<equiv> shutdown_sync clock submit canon final s"
  shows "sync_inv t" "answers_kept (co_waiters s) (co_waiters t)" "co_active t = []" "co_pending t = None"
proof -
  define s1 where "s1 = (cancel_pending s)\<lparr>co_context := None\<rparr>"
  note c = cancel_pending_inv[OF assms(1)]
  have "coord_ok (co_completed s) {} (co_active s) None None (co_results s) (co_next (cancel_pending s)) (co_waiters (cancel_pending s))"
    using c coord_context by (auto simp: coord_inv_def)
  then have s1: "sync_inv s1" "co_pending s1 = None" "co_context s1 = None" "co_active s1 = co_active s"
    "answers_kept (co_waiters s) (co_waiters s1)"
    using c by (simp_all add: s1_def coord_inv_def)
  define s2 where "s2 = fold (shutdown_wait final) (co_active s1) s1"
  have s2: "sync_inv s2" "co_waiters s2 = co_waiters s1" "co_pending s2 = None" "co_context s2 = None"
    "snd ` set (co_active s2) \<subseteq> set (co_completed s2)"
    using shutdown_wait_inv[OF s1(1), of "co_active s1" final] s1 by (auto simp: s2_def)
  define s3 where "s3 = drain_completed clock canon s2"
  have s3: "co_active s3 = []" "co_pending s3 = None"
    using fold_finish_active[of "co_completed s2" "s2\<lparr>co_completed := []\<rparr>" clock canon] s2
    by (auto simp: s3_def drain_completed_def coord_inv_parts)
  have t: "t = s3"
  proof -
    have "t = dispatch clock submit s3"
      unfolding t_def shutdown_sync_def Let_def sync_tick_def s3_def s2_def s1_def ..
    then show ?thesis using s3(2) by (simp add: dispatch_def)
  qed
  show "sync_inv t" "answers_kept (co_waiters s) (co_waiters t)"
    using drain_inv[OF s2(1), of clock canon] s1(5) s2(2) answers_kept_trans by (auto simp: t s3_def)
  show "co_active t = []" "co_pending t = None" using s3 by (simp_all add: t)
qed

section \<open>Steps\<close>

inductive sync_step ::
  "(nat \<Rightarrow> pytime) \<Rightarrow> (sync_target \<Rightarrow> submission) \<Rightarrow> (string \<Rightarrow> string) \<Rightarrow> coordinator \<Rightarrow> coordinator \<Rightarrow> bool"
  for clock submit canon where
  ss_select: "sync_step clock submit canon s (select_account ctx restored s)"
| ss_clear: "sync_step clock submit canon s (clear_retry s)"
| ss_request: "sync_step clock submit canon s (snd (request_sync clock submit ctx path source s))"
| ss_complete: "(e, t) \<in> set (co_active s) \<Longrightarrow> co_results s (tg_id t) = None \<Longrightarrow>
     sync_step clock submit canon s (complete_target t out s)"
| ss_cancel: "sync_step clock submit canon s
     (s\<lparr>co_waiters := settle_waiters W_Cancelled [w] (co_waiters s)\<rparr>)"
| ss_tick: "sync_step clock submit canon s (sync_tick clock submit canon s)"
| ss_shutdown: "sync_step clock submit canon s (shutdown_sync clock submit canon final s)"

interpretation sync_coordinator: tracked_system "sync_step clock submit canon" sync_inv
  "\<lambda>s t. answers_kept (co_waiters s) (co_waiters t)" for clock submit canon
proof
  fix s t assume inv: "sync_inv s" and "sync_step clock submit canon s t"
  from this(2) have "sync_inv t \<and> answers_kept (co_waiters s) (co_waiters t)"
  proof cases
    case (ss_select ctx restored)
    then show ?thesis using select_account_inv[OF inv] by simp
  next
    case ss_clear
    then show ?thesis using inv by simp
  next
    case (ss_request ctx path source)
    then show ?thesis using request_inv[OF inv] by simp
  next
    case (ss_complete e u out)
    then show ?thesis using complete_inv[OF inv] by simp
  next
    case (ss_cancel w)
    then show ?thesis using inv coord_settle[of "co_completed s" "{}" _ _ _ _ _ _ W_Cancelled "[w]"]
      by (simp add: coord_inv_def)
  next
    case ss_tick
    then show ?thesis using sync_tick_inv[OF inv] by simp
  next
    case (ss_shutdown final)
    then show ?thesis using shutdown_settled[OF inv] by simp
  qed
  then show "sync_inv t" "answers_kept (co_waiters s) (co_waiters t)" by auto
qed (auto intro: answers_kept_trans)

lemma new_coordinator_inv: "sync_inv new_coordinator"
  by (simp add: coord_inv_def new_coordinator_def coord_empty)

lemma covered_pending:
  assumes "sync_inv s" "w < length (co_waiters s)" "co_waiters s ! w = W_Pending"
  shows "(\<exists>p. co_pending s = Some p \<and> w \<in> set (tg_waiters p)) \<or> (\<exists>(e, t) \<in> set (co_active s). w \<in> set (tg_waiters t))"
proof -
  have "\<exists>t \<in> set (live (co_active s) (co_pending s)). w \<in> set (tg_waiters t)"
    using assms by (simp add: coord_inv_def coord_ok_def covered_def)
  then show ?thesis by (cases "co_pending s") auto
qed

section \<open>Properties\<close>

text \<open>
  C17: Over any interleaving of selections, requests, completions, cancellations, ticks and shutdowns: at most one
  synchronisation runs for an account epoch; a waiter without an answer belongs to the pending or to a running
  synchronisation, so no caller waits in vain; a finished synchronisation that still counts as running is queued for
  the next tick; and an answer, once given, never changes.
\<close>

theorem no_waiter_is_lost:
  assumes "(sync_step clock submit canon)\<^sup>*\<^sup>* new_coordinator s" "(sync_step clock submit canon)\<^sup>*\<^sup>* s s'"
  shows "distinct (map fst (co_active s))
   \<and> (\<forall>w < length (co_waiters s). co_waiters s ! w = W_Pending \<longrightarrow>
        (\<exists>p. co_pending s = Some p \<and> w \<in> set (tg_waiters p)) \<or> (\<exists>(e, t) \<in> set (co_active s). w \<in> set (tg_waiters t)))
   \<and> (\<forall>(e, t) \<in> set (co_active s). co_results s (tg_id t) \<noteq> None \<longrightarrow> t \<in> set (co_completed s))
   \<and> (\<forall>w < length (co_waiters s). co_waiters s ! w \<noteq> W_Pending \<longrightarrow> co_waiters s' ! w = co_waiters s ! w)"
proof -
  have inv: "sync_inv s" using sync_coordinator.steps_inv[OF assms(1) new_coordinator_inv] .
  have "answers_kept (co_waiters s) (co_waiters s')" using sync_coordinator.steps_rel[OF assms(2) inv] .
  moreover have "distinct (map fst (co_active s))"
    and queued: "\<forall>t \<in> snd ` set (co_active s). co_results s (tg_id t) \<noteq> None \<longrightarrow> t \<in> set (co_completed s)"
    using inv by (auto simp: coord_inv_def coord_ok_def keys_ok_def results_ok_def live_def)
  ultimately show ?thesis using covered_pending[OF inv] by (auto simp: answers_kept_def)
qed

text \<open>Shutdown ends with nothing pending and nothing running, and every caller that ever asked for a
  synchronisation has an answer: a result, an error, or a cancellation.
\<close>

theorem shutdown_answers_everyone:
  assumes "(sync_step clock submit canon)\<^sup>*\<^sup>* new_coordinator s"
  shows "co_active (shutdown_sync clock submit canon final s) = []
   \<and> co_pending (shutdown_sync clock submit canon final s) = None
   \<and> (\<forall>w < length (co_waiters (shutdown_sync clock submit canon final s)).
        co_waiters (shutdown_sync clock submit canon final s) ! w \<noteq> W_Pending)"
proof -
  have inv: "sync_inv s" using sync_coordinator.steps_inv[OF assms new_coordinator_inv] .
  note t = shutdown_settled[OF inv, of clock submit canon final]
  show ?thesis using t covered_pending[OF t(1)] by auto
qed

lemma backoff_bounds: "3 \<le> backoff n" "backoff n \<le> 30"
proof -
  have "(1 :: rat) \<le> 2 ^ min (n - 1) 4" by simp
  then show "3 \<le> backoff n" by (simp add: backoff_def)
  show "backoff n \<le> 30" by (simp add: backoff_def)
qed

text \<open>
  C18: A synchronisation of the selected account that fails is tried again: a target of that account is pending, the
  reason is recorded and not empty, and nothing is submitted before the backoff of 3, 6, 12, 24 and then 30 seconds has passed.
\<close>

theorem failed_sync_is_retried:
  fixes clock submit canon
  assumes "(sync_step clock submit canon)\<^sup>*\<^sup>* new_coordinator s" "(ac_epoch (tg_context t), t) \<in> set (co_active s)"
    "co_context s = Some (tg_context t)" "co_results s (tg_id t) = Some out" "check_result t out = Inl e"
  defines "s' \<equiv> finish_target clock canon t s"
  shows "(\<exists>p. co_pending s' = Some p \<and> tg_context p = tg_context t) \<and> sv_pending (co_view s')
    \<and> sv_phase (co_view s') = ''error'' \<and> sv_last_error (co_view s') \<noteq> []
    \<and> sv_retry_at (co_view s') = Some (clock (co_reads s) + min (3 * 2 ^ min (co_failures s) 4) 30)
    \<and> 3 \<le> backoff (co_failures s') \<and> backoff (co_failures s') \<le> 30
    \<and> (clock (co_reads s') < clock (co_reads s) + backoff (co_failures s')
         \<longrightarrow> co_active (dispatch clock submit s') = co_active s')"
proof -
  have inv: "sync_inv s" using sync_coordinator.steps_inv[OF assms(1) new_coordinator_inv] .
  have run: "map_of (co_active s) (ac_epoch (tg_context t)) = Some t"
    using inv assms(2) by (intro map_of_is_SomeI) (simp_all add: coord_inv_def coord_ok_def keys_ok_def)
  have pend: "tg_context p = tg_context t" if "co_pending s = Some p" for p
    using inv that assms(3) by (simp add: coord_inv_def coord_ok_def pending_ok_def)
  define s0 where "s0 = s\<lparr>co_active := alist_del (ac_epoch (tg_context t)) (co_active s),
    co_view := (co_view s)\<lparr>sv_syncing := False\<rparr>\<rparr>"
  define r where "r = retry_later clock t e s0"
  have s': "s' = r\<lparr>co_waiters := settle_waiters (W_Error e) (tg_waiters t) (co_waiters r)\<rparr>"
    using run assms(3,4,5) by (simp add: s'_def finish_target_def Let_def r_def s0_def)
  have label: "error_label e \<noteq> []" by (cases e) (simp_all add: error_label_def)
  have r: "sv_pending (co_view r)" "sv_phase (co_view r) = ''error''" "sv_last_error (co_view r) \<noteq> []"
    "co_failures r = co_failures s + 1" "co_reads r = co_reads s + 1"
    "sv_retry_at (co_view r) = Some (clock (co_reads s) + backoff (co_failures s + 1))"
    "\<exists>p. co_pending r = Some p \<and> tg_context p = tg_context t"
    using label pend
    by (auto simp: r_def s0_def retry_later_def read_clock_def new_target_def Let_def split: option.splits)
  have "co_active (dispatch clock submit s') = co_active s'"
    if "clock (co_reads s') < clock (co_reads s) + backoff (co_failures s')"
    using that r by (auto simp: s' dispatch_def read_clock_def split: option.splits)
  then show ?thesis
    using r backoff_bounds[of "co_failures s'"] by (simp add: s' backoff_def)
qed

section \<open>Witnesses\<close>

definition demo_sync_account :: account where
  "demo_sync_account = \<lparr>ac_seller = ''7'', ac_data_dir = ''/d'', ac_epoch = ''e''\<rparr>"

definition demo_selected :: coordinator where
  "demo_selected = select_account demo_sync_account None new_coordinator"

definition demo_running :: coordinator where
  "demo_running = snd (request_sync (\<lambda>_. 0) (\<lambda>_. Sub_Future None) demo_sync_account ''/c'' 1 demo_selected)"

definition demo_target :: sync_target where
  "demo_target = \<lparr>tg_id = 0, tg_context = demo_sync_account, tg_path = ''/c'', tg_source = 1, tg_waiters = [0]\<rparr>"

definition demo_failed :: coordinator where
  "demo_failed = complete_target demo_target (Inl (Value_Error ''busy'')) demo_running"

lemmas sync_evaluation =
  demo_sync_account_def demo_selected_def demo_running_def demo_target_def demo_failed_def select_account_def
  new_coordinator_def request_sync_def unchanged_target_def new_target_def dispatch_def read_clock_def
  cancel_pending_def empty_view_def complete_target_def outcome_of_def

lemma demo_running_steps: "(sync_step (\<lambda>_. 0) (\<lambda>_. Sub_Future None) id)\<^sup>*\<^sup>* new_coordinator demo_running"
proof -
  have "sync_step (\<lambda>_. 0) (\<lambda>_. Sub_Future None) id new_coordinator demo_selected"
    unfolding demo_selected_def by (rule ss_select)
  moreover have "sync_step (\<lambda>_. 0) (\<lambda>_. Sub_Future None) id demo_selected demo_running"
    unfolding demo_running_def by (rule ss_request)
  ultimately show ?thesis by (meson rtranclp.rtrancl_into_rtrancl rtranclp.rtrancl_refl)
qed

lemma demo_running_view:
  "co_active demo_running = [(''e'', demo_target)]" "co_waiters demo_running = [W_Pending]"
  "co_results demo_running 0 = None" "co_context demo_running = Some demo_sync_account" "co_failures demo_running = 0"
  by (simp_all add: sync_evaluation)

lemma demo_failed_steps: "(sync_step (\<lambda>_. 0) (\<lambda>_. Sub_Future None) id)\<^sup>*\<^sup>* new_coordinator demo_failed"
proof -
  have "sync_step (\<lambda>_. 0) (\<lambda>_. Sub_Future None) id demo_running demo_failed"
    unfolding demo_failed_def
    by (rule ss_complete[of "''e''"]) (simp_all add: demo_running_view, simp add: demo_target_def demo_running_view)
  with demo_running_steps show ?thesis by (rule rtranclp.rtrancl_into_rtrancl)
qed

theorem no_waiter_is_lost_witness:
  "co_waiters demo_running ! 0 = W_Pending \<and> (\<exists>(e, t) \<in> set (co_active demo_running). 0 \<in> set (tg_waiters t))"
  using no_waiter_is_lost[OF demo_running_steps rtranclp.rtrancl_refl]
  by (auto simp: demo_running_view demo_target_def)

theorem shutdown_answers_everyone_witness:
  "co_active (shutdown_sync (\<lambda>_. 0) (\<lambda>_. Sub_Future None) id (\<lambda>_. Inl (Value_Error ''gone'')) demo_running) = []"
  using shutdown_answers_everyone[OF demo_running_steps] by blast

theorem failed_sync_is_retried_witness:
  "sv_retry_at (co_view (finish_target (\<lambda>_. 0) id demo_target demo_failed)) = Some 3"
proof -
  have active: "(ac_epoch (tg_context demo_target), demo_target) \<in> set (co_active demo_failed)"
    "co_context demo_failed = Some (tg_context demo_target)"
    "co_results demo_failed (tg_id demo_target) = Some (Inl (Value_Error ''busy''))"
    by (simp_all add: demo_failed_def complete_target_def demo_running_view)
      (simp_all add: demo_target_def demo_sync_account_def)
  have "check_result demo_target (Inl (Value_Error ''busy'')) = Inl (Value_Error ''busy'')"
    by (simp add: check_result_def)
  from failed_sync_is_retried[OF demo_failed_steps active this] show ?thesis
    by (simp add: demo_failed_def complete_target_def demo_running_view)
qed

end
