(* ===== verification/Inbox_Store.thy ===== *)
theory Inbox_Store
  imports Sync_Store Send_Verification
begin

text \<open>
  The workspace inbox of \<^verbatim>\<open>shared/crm/inbox_store.py\<close> (with \<^verbatim>\<open>utils/crm_time.py\<close>'s \<^verbatim>\<open>coerce_epoch\<close>): the ledger of the messages a
  scope has seen, the read marks, and the reply state they give. The state \<open>crm\<close> holds the tables the module
  reads and writes. \<^verbatim>\<open>write_inbox\<close> joins its caller's transaction, so it returns the new tables or an error.

  Parameters: \<open>canon\<close> makes a path canonical; \<open>zone\<close> is the local time zone (what \<^verbatim>\<open>datetime.fromisoformat\<close> and
  \<^verbatim>\<open>datetime.fromtimestamp\<close> accept and give there); \<open>json_text\<close> is SQLite's text of a JSON array or object;
  \<open>issue\<close> and \<open>verify\<close> are the signed encoding of a read snapshot with the process's secret key.
\<close>

section \<open>Times\<close>

record time_zone =
  tz_iso :: "string \<Rightarrow> pytime option"
  tz_valid :: "pytime \<Rightarrow> bool"

text \<open>\<^verbatim>\<open>int(s)\<close> for a stripped string: a sign, and digits with single underscores between them.\<close>

fun digits_value :: "int \<Rightarrow> string \<Rightarrow> int option" where
  "digits_value acc [] = Some acc"
| "digits_value acc (c # cs) =
     (if ascii_digit c then digits_value (10 * acc + (of_char c - 48)) cs
      else if c = CHR ''_'' then
        (case cs of d # _ \<Rightarrow> if ascii_digit d then digits_value acc cs else None | [] \<Rightarrow> None)
      else None)"

definition py_digits :: "string \<Rightarrow> int option" where
  "py_digits s = (case s of [] \<Rightarrow> None | c # _ \<Rightarrow> if ascii_digit c then digits_value 0 s else None)"

definition py_int :: "string \<Rightarrow> int option" where
  "py_int s =
     (case s of
        [] \<Rightarrow> None
      | c # cs \<Rightarrow> if c = CHR ''-'' then map_option uminus (py_digits cs)
                  else if c = CHR ''+'' then py_digits cs else py_digits s)"

text \<open>Numbers above \<^verbatim>\<open>10**12\<close> are milliseconds.\<close>

definition from_number :: "rat \<Rightarrow> pytime" where
  "from_number q = (if 10 ^ 12 < q then q / 1000 else q)"

fun coerce_epoch :: "time_zone \<Rightarrow> pyval \<Rightarrow> pyfloat" where
  "coerce_epoch zone (PBool b) = FFin (if b then 1 else 0)"
| "coerce_epoch zone (PInt i) = FFin (from_number (of_int i))"
| "coerce_epoch zone (PFloat f) = (case f of FFin q \<Rightarrow> FFin (from_number q) | _ \<Rightarrow> f)"
| "coerce_epoch zone (PStr s) =
     (let v = py_strip s
      in if v = [] then FFin 0
         else case tz_iso zone v of
                Some q \<Rightarrow> FFin q
              | None \<Rightarrow> (case py_int v of None \<Rightarrow> FFin 0 | Some i \<Rightarrow> FFin (from_number (of_int i))))"
| "coerce_epoch zone _ = FFin 0"

text \<open>\<^verbatim>\<open>_epoch\<close>: a positive, finite, representable time.\<close>

definition epoch_of :: "time_zone \<Rightarrow> pyval \<Rightarrow> pytime option" where
  "epoch_of zone v =
     (case coerce_epoch zone v of
        FFin q \<Rightarrow> if \<not> is_bool v \<and> 0 < q \<and> tz_valid zone q then Some q else None
      | _ \<Rightarrow> None)"

section \<open>Tables\<close>

datatype direction = Outbound | Inbound | Unknown_Sender

record ledger_row =
  lr_seller :: string
  lr_dir :: string
  lr_mid :: string
  lr_sid :: int
  lr_seq :: nat
  lr_first_seen :: pytime
  lr_direction :: direction
  lr_occurred :: "pytime option"
  lr_system :: bool
  lr_auto :: bool
  lr_history :: bool

record inbox_scope =
  sc_seller :: string
  sc_dir :: string
  sc_complete :: bool
  sc_last_seq :: nat
  sc_revision :: nat

record read_mark =
  rm_seller :: string
  rm_dir :: string
  rm_sid :: int
  rm_seq :: nat

text \<open>\<open>crm_tables\<close> tells whether the three inbox tables exist.\<close>

record crm =
  crm_sessions :: "(int \<times> string) list"
  crm_archive :: "crm_message list"
  crm_sync :: "sync_row list option"
  crm_tables :: bool
  crm_scopes :: "inbox_scope list"
  crm_ledger :: "ledger_row list"
  crm_marks :: "read_mark list"

type_synonym scope_key = "string \<times> string"

definition inbox_key :: "(string \<Rightarrow> string) \<Rightarrow> string \<Rightarrow> string \<Rightarrow> scope_key result" where
  "inbox_key canon seller data_dir =
     (if py_blank seller \<or> CHR '':'' \<in> set seller then Inl (Value_Error ''A selected seller is required'')
      else Inr (seller, canonical_source_dir canon data_dir))"

definition scope_at :: "scope_key \<Rightarrow> inbox_scope \<Rightarrow> bool" where
  "scope_at key s \<longleftrightarrow> sc_seller s = fst key \<and> sc_dir s = snd key"

definition row_at :: "scope_key \<Rightarrow> ledger_row \<Rightarrow> bool" where
  "row_at key r \<longleftrightarrow> lr_seller r = fst key \<and> lr_dir r = snd key"

definition mark_at :: "scope_key \<Rightarrow> int \<Rightarrow> read_mark \<Rightarrow> bool" where
  "mark_at key sid m \<longleftrightarrow> rm_seller m = fst key \<and> rm_dir m = snd key \<and> rm_sid m = sid"

section \<open>Writing the ledger\<close>

text \<open>\<^verbatim>\<open>json_extract(content, '$.name')\<close>: booleans are integers, arrays and objects are text.\<close>

definition json_extract :: "(pyval \<Rightarrow> string) \<Rightarrow> pyval \<Rightarrow> string \<Rightarrow> pyval" where
  "json_extract json_text content name =
     (case pyval_get content name of
        PBool b \<Rightarrow> PInt (if b then 1 else 0)
      | PList xs \<Rightarrow> PStr (json_text (PList xs))
      | PDict d \<Rightarrow> PStr (json_text (PDict d))
      | v \<Rightarrow> v)"

record payload =
  pl_mid :: string
  pl_sid :: int
  pl_content :: "(string \<times> pyval) list"

definition archive_fields :: "string list" where
  "archive_fields = [''sender_id'', ''created_at'', ''is_system'', ''is_auto_reply'']"

definition archive_payload :: "(pyval \<Rightarrow> string) \<Rightarrow> crm_message \<Rightarrow> payload" where
  "archive_payload json_text m =
     \<lparr>pl_mid = cm_mid m, pl_sid = cm_sid m,
      pl_content = map (\<lambda>n. (n, json_extract json_text (cm_content m) n)) archive_fields\<rparr>"

definition source_payload :: "crm_message \<Rightarrow> payload" where
  "source_payload m =
     \<lparr>pl_mid = cm_mid m, pl_sid = cm_sid m,
      pl_content = (case cm_content m of PDict d \<Rightarrow> d | _ \<Rightarrow> [])\<rparr>"

text \<open>The archived messages of the seller's sessions that no other directory has claimed, by identifier.\<close>

definition seller_sessions :: "string \<Rightarrow> crm \<Rightarrow> (int \<times> string) list" where
  "seller_sessions seller db = filter (\<lambda>s. has_prefix (session_key_prefix seller) (snd s)) (crm_sessions db)"

definition adoptable :: "scope_key \<Rightarrow> crm \<Rightarrow> crm_message \<Rightarrow> bool" where
  "adoptable key db m \<longleftrightarrow>
     cm_sid m \<in> fst ` set (seller_sessions (fst key) db)
   \<and> (\<forall>r \<in> set (crm_ledger db). \<not> (lr_mid r = cm_mid m \<and> lr_seller r = fst key \<and> lr_dir r \<noteq> snd key))"

definition archive_payloads :: "(pyval \<Rightarrow> string) \<Rightarrow> scope_key \<Rightarrow> crm \<Rightarrow> (string \<times> payload) list" where
  "archive_payloads json_text key db =
     map (\<lambda>m. (cm_mid m, archive_payload json_text m)) (sort_key cm_mid (filter (adoptable key db) (crm_archive db)))"

record projection =
  pj_sid :: int
  pj_direction :: direction
  pj_occurred :: "pytime option"
  pj_system :: bool
  pj_auto :: bool

definition direction_of :: "pyval \<Rightarrow> string \<Rightarrow> string \<Rightarrow> direction result" where
  "direction_of sender seller contact =
     and_then (sender_matches_value sender seller) (\<lambda>mine.
       if mine then Inr Outbound
       else and_then (sender_matches_value sender contact) (\<lambda>theirs.
         Inr (if theirs then Inbound else Unknown_Sender)))"

text \<open>A time more than 300 seconds past the first observation does not count.\<close>

definition occurred_at :: "time_zone \<Rightarrow> pyval \<Rightarrow> pytime \<Rightarrow> pytime option" where
  "occurred_at zone v first_seen =
     (case epoch_of zone v of
        Some t \<Rightarrow> if first_seen + 300 < t then None else Some t
      | None \<Rightarrow> None)"

definition project ::
  "time_zone \<Rightarrow> string \<Rightarrow> (int \<times> string) list \<Rightarrow> pytime \<Rightarrow> payload \<Rightarrow> projection result" where
  "project zone seller contacts first_seen p =
     (case map_of contacts (pl_sid p) of
        None \<Rightarrow> Inl (Value_Error ''Inbox message is outside the seller's sessions'')
      | Some skey \<Rightarrow>
          and_then (direction_of (dict_get_none (pl_content p) ''sender_id'') seller
                     (drop (length (session_key_prefix seller)) skey)) (\<lambda>d.
            Inr \<lparr>pj_sid = pl_sid p, pj_direction = d,
                 pj_occurred = occurred_at zone (dict_get_none (pl_content p) ''created_at'') first_seen,
                 pj_system = truthy (dict_get_none (pl_content p) ''is_system''),
                 pj_auto = truthy (dict_get_none (pl_content p) ''is_auto_reply'')\<rparr>))"

definition projection_of :: "ledger_row \<Rightarrow> projection" where
  "projection_of r = \<lparr>pj_sid = lr_sid r, pj_direction = lr_direction r, pj_occurred = lr_occurred r,
                      pj_system = lr_system r, pj_auto = lr_auto r\<rparr>"

definition with_projection :: "projection \<Rightarrow> ledger_row \<Rightarrow> ledger_row" where
  "with_projection p r = r\<lparr>lr_sid := pj_sid p, lr_direction := pj_direction p, lr_occurred := pj_occurred p,
                           lr_system := pj_system p, lr_auto := pj_auto p\<rparr>"

definition find_row :: "ledger_row list \<Rightarrow> scope_key \<times> string \<Rightarrow> ledger_row option" where
  "find_row t k = find (\<lambda>r. row_at (fst k) r \<and> lr_mid r = snd k) t"

definition row_key :: "ledger_row \<Rightarrow> scope_key \<times> string" where
  "row_key r = ((lr_seller r, lr_dir r), lr_mid r)"

text \<open>\<^verbatim>\<open>INSERT ... ON CONFLICT DO UPDATE\<close> of the projection fields.\<close>

definition store_row :: "ledger_row \<Rightarrow> ledger_row list \<Rightarrow> ledger_row list" where
  "store_row r t =
     (if find_row t (row_key r) = None then t @ [r]
      else update_rows (\<lambda>x. row_key x = row_key r) (with_projection (projection_of r)) t)"

text \<open>What one write of the inbox is about.\<close>

record inbox_write =
  iw_key :: scope_key
  iw_contacts :: "(int \<times> string) list"
  iw_archived :: "string list"
  iw_source_history :: bool
  iw_now :: pytime

text \<open>One message against the rows as they are: the row to write, if any, and the next sequence number.\<close>

definition ledger_entry ::
  "time_zone \<Rightarrow> inbox_write \<Rightarrow> ledger_row list \<Rightarrow> payload \<Rightarrow> nat \<Rightarrow> (ledger_row option \<times> nat) result" where
  "ledger_entry zone w t p seq =
     (case find_row t (iw_key w, pl_mid p) of
        Some current \<Rightarrow>
          and_then (project zone (fst (iw_key w)) (iw_contacts w) (lr_first_seen current) p) (\<lambda>pj.
            Inr (if projection_of current = pj then (None, seq) else (Some (with_projection pj current), seq)))
      | None \<Rightarrow>
          and_then (project zone (fst (iw_key w)) (iw_contacts w) (iw_now w) p) (\<lambda>pj.
            Inr (Some \<lparr>lr_seller = fst (iw_key w), lr_dir = snd (iw_key w), lr_mid = pl_mid p, lr_sid = pj_sid pj,
                   lr_seq = seq + 1, lr_first_seen = iw_now w, lr_direction = pj_direction pj,
                   lr_occurred = pj_occurred pj, lr_system = pj_system pj, lr_auto = pj_auto pj,
                   lr_history = (pl_mid p \<in> set (iw_archived w) \<or> iw_source_history w)\<rparr>, seq + 1)))"

fun ledger_batch ::
  "time_zone \<Rightarrow> inbox_write \<Rightarrow> ledger_row list \<Rightarrow> payload list \<Rightarrow> nat \<Rightarrow> ledger_row list \<Rightarrow> (ledger_row list \<times> nat) result" where
  "ledger_batch zone w t [] seq changed = Inr (changed, seq)"
| "ledger_batch zone w t (p # ps) seq changed =
     and_then (ledger_entry zone w t p seq) (\<lambda>(r, seq').
       ledger_batch zone w t ps seq' (case r of None \<Rightarrow> changed | Some r' \<Rightarrow> changed @ [r']))"

function ledger_batches ::
  "time_zone \<Rightarrow> inbox_write \<Rightarrow> payload list \<Rightarrow> nat \<Rightarrow> bool \<Rightarrow> ledger_row list \<Rightarrow> (ledger_row list \<times> nat \<times> bool) result" where
  "ledger_batches zone w ps seq any t =
     (if ps = [] then Inr (t, seq, any)
      else
        and_then (ledger_batch zone w t (take 500 ps) seq []) (\<lambda>(changed, seq').
          ledger_batches zone w (drop 500 ps) seq' (any \<or> changed \<noteq> []) (fold store_row changed t)))"
  by pat_completeness auto
termination by (relation "measure (\<lambda>(zone, w, ps, seq, any, t). length ps)") auto

declare ledger_batches.simps [simp del]

definition put_scope :: "inbox_scope \<Rightarrow> inbox_scope list \<Rightarrow> inbox_scope list" where
  "put_scope s t =
     (if find (scope_at (sc_seller s, sc_dir s)) t = None then t @ [s]
      else update_rows (scope_at (sc_seller s, sc_dir s)) (\<lambda>_. s) t)"

definition write_inbox ::
  "(string \<Rightarrow> string) \<Rightarrow> time_zone \<Rightarrow> (pyval \<Rightarrow> string) \<Rightarrow> string \<Rightarrow> string \<Rightarrow> crm_message list option \<Rightarrow> pytime \<Rightarrow> crm \<Rightarrow> crm result" where
  "write_inbox canon zone json_text seller data_dir messages now db0 =
     and_then (inbox_key canon seller data_dir) (\<lambda>key.
       let db = db0\<lparr>crm_tables := True\<rparr>;
           previous = find (scope_at key) (crm_scopes db)
       in if previous \<noteq> None \<and> messages = None then Inr db
          else
            let history = (previous = None);
                sync_dirs = map sy_data_dir (filter (\<lambda>r. sy_seller r = seller)
                  (case crm_sync db of None \<Rightarrow> [] | Some rs \<Rightarrow> rs));
                known_scope = (\<exists>s \<in> set (crm_scopes db). sc_seller s = seller);
                legacy_scope = (history \<and> snd key \<in> set sync_dirs);
                adopt_archive = (history \<and> (legacy_scope \<or> (sync_dirs = [] \<and> \<not> known_scope)));
                archive = (if adopt_archive then archive_payloads json_text key db else []);
                archived = map fst archive
            in if messages = None \<and> archived = [] \<and> \<not> legacy_scope then Inr db
               else
                 let payloads = map snd (fold (\<lambda>m d. alist_put (cm_mid m) (source_payload m) d)
                       (case messages of None \<Rightarrow> [] | Some ms \<Rightarrow> ms) archive);
                     w = \<lparr>iw_key = key, iw_contacts = seller_sessions seller db, iw_archived = archived,
                          iw_source_history = (history \<and> \<not> (legacy_scope \<or> archived \<noteq> [])), iw_now = now\<rparr>
                 in and_then (ledger_batches zone w payloads
                       (case previous of None \<Rightarrow> 0 | Some s \<Rightarrow> sc_last_seq s) False (crm_ledger db)) (\<lambda>(t, seq, any).
                      Inr (if history \<or> any
                           then db\<lparr>crm_ledger := t, crm_scopes := put_scope
                             \<lparr>sc_seller = fst key, sc_dir = snd key, sc_complete = True, sc_last_seq = seq,
                              sc_revision = (case previous of None \<Rightarrow> 0 | Some s \<Rightarrow> sc_revision s) + 1\<rparr> (crm_scopes db)\<rparr>
                           else db\<lparr>crm_ledger := t\<rparr>)))"

section \<open>Reading\<close>

definition inbox_metadata :: "scope_key \<Rightarrow> crm option \<Rightarrow> inbox_scope" where
  "inbox_metadata key db =
     (let none = \<lparr>sc_seller = fst key, sc_dir = snd key, sc_complete = False, sc_last_seq = 0, sc_revision = 0\<rparr>
      in case db of
           None \<Rightarrow> none
         | Some d \<Rightarrow> if \<not> crm_tables d then none
             else (case find (scope_at key) (crm_scopes d) of None \<Rightarrow> none | Some s \<Rightarrow> s))"

definition metadata :: "(string \<Rightarrow> string) \<Rightarrow> string \<Rightarrow> string \<Rightarrow> crm option \<Rightarrow> inbox_scope result" where
  "metadata canon seller data_dir db =
     and_then (inbox_key canon seller data_dir) (\<lambda>key. Inr (inbox_metadata key db))"

text \<open>\<^verbatim>\<open>initialize\<close>: adopts an existing archive; it never creates the database.\<close>

definition inbox_initialize ::
  "(string \<Rightarrow> string) \<Rightarrow> time_zone \<Rightarrow> (pyval \<Rightarrow> string) \<Rightarrow> string \<Rightarrow> string \<Rightarrow> pytime \<Rightarrow> crm option
     \<Rightarrow> inbox_scope result \<times> crm option" where
  "inbox_initialize canon zone json_text seller data_dir now db =
     (case inbox_key canon seller data_dir of
        Inl e \<Rightarrow> (Inl e, db)
      | Inr key \<Rightarrow>
          (case db of
             None \<Rightarrow> (Inl (Runtime_Error ''FileNotFoundError''), None)
           | Some d \<Rightarrow>
               (case write_inbox canon zone json_text seller data_dir None now d of
                  Inl e \<Rightarrow> (Inl e, db)
                | Inr d' \<Rightarrow> (metadata canon seller data_dir (Some d'), Some d'))))"

text \<open>The state of one conversation from its ledger rows (there is at least one) and its read mark.\<close>

datatype reply_state = History_Pending | Needs_Reply | Waiting_Customer | No_Reply_State | Unknown_Reply

record conversation_state =
  cs_unread :: nat
  cs_reply :: reply_state
  cs_pending_since :: "pytime option"
  cs_history_pending :: bool
  cs_read_seq :: nat
  cs_snapshot_seq :: nat
  cs_uncertain :: bool

definition effective_time :: "ledger_row \<Rightarrow> pytime" where
  "effective_time r = (case lr_occurred r of Some t \<Rightarrow> t | None \<Rightarrow> lr_first_seen r)"

text \<open>\<^verbatim>\<open>max(xs, default=d)\<close> and \<^verbatim>\<open>min(xs)\<close>.\<close>

fun max_default :: "'a::linorder \<Rightarrow> 'a list \<Rightarrow> 'a" where
  "max_default d [] = d"
| "max_default d (x # xs) = fold max xs x"

fun min_of :: "'a::linorder list \<Rightarrow> 'a option" where
  "min_of [] = None"
| "min_of (x # xs) = Some (fold min xs x)"

definition human_rows :: "ledger_row list \<Rightarrow> ledger_row list" where
  "human_rows rows = filter (\<lambda>r. \<not> lr_system r \<and> \<not> lr_auto r) rows"

definition from_direction :: "direction \<Rightarrow> ledger_row list \<Rightarrow> ledger_row list" where
  "from_direction d rows = filter (\<lambda>r. lr_direction r = d) (human_rows rows)"

definition last_reply :: "ledger_row list \<Rightarrow> pytime" where
  "last_reply rows = max_default 0 (map effective_time (from_direction Outbound rows))"

definition pending_rows :: "ledger_row list \<Rightarrow> ledger_row list" where
  "pending_rows rows = filter (\<lambda>r. last_reply rows \<le> effective_time r) (from_direction Inbound rows)"

definition new_pending :: "ledger_row list \<Rightarrow> ledger_row list" where
  "new_pending rows = filter (\<lambda>r. \<not> lr_history r) (pending_rows rows)"

definition late_unknown :: "ledger_row list \<Rightarrow> bool" where
  "late_unknown rows \<longleftrightarrow>
     (\<exists>r \<in> set (from_direction Unknown_Sender rows).
        max_default 0 (map effective_time (from_direction Inbound rows @ from_direction Outbound rows)) \<le> effective_time r)"

definition conversation_of :: "ledger_row list \<Rightarrow> nat \<Rightarrow> conversation_state" where
  "conversation_of rows read_seq =
     (let pending = pending_rows rows;
          fresh = new_pending rows;
          history = (pending \<noteq> [] \<and> fresh = []);
          uncertain = ((\<exists>r \<in> set (human_rows rows). lr_occurred r = None)
                     \<or> (\<exists>r \<in> set pending. effective_time r = last_reply rows))
      in \<lparr>cs_unread = length (filter (\<lambda>r. \<not> lr_history r \<and> read_seq < lr_seq r) (from_direction Inbound rows)),
          cs_reply = (if late_unknown rows then Unknown_Reply
                      else if history then History_Pending
                      else if pending \<noteq> [] then Needs_Reply
                      else if from_direction Outbound rows \<noteq> [] then Waiting_Customer else No_Reply_State),
          cs_pending_since = min_of (map effective_time fresh),
          cs_history_pending = history,
          cs_read_seq = read_seq,
          cs_snapshot_seq = max_default 0 (map lr_seq rows),
          cs_uncertain = (late_unknown rows \<or> uncertain)\<rparr>)"

definition rows_of :: "scope_key \<Rightarrow> int \<Rightarrow> crm \<Rightarrow> ledger_row list" where
  "rows_of key sid db = filter (\<lambda>r. row_at key r \<and> lr_sid r = sid) (crm_ledger db)"

definition read_seq_of :: "scope_key \<Rightarrow> int \<Rightarrow> crm \<Rightarrow> nat" where
  "read_seq_of key sid db = (case find (mark_at key sid) (crm_marks db) of None \<Rightarrow> 0 | Some m \<Rightarrow> rm_seq m)"

text \<open>\<^verbatim>\<open>_states(...).get(sid)\<close>: only in a scope whose baseline is complete, and with at least one message.\<close>

definition state_in :: "scope_key \<Rightarrow> int \<Rightarrow> crm option \<Rightarrow> conversation_state option" where
  "state_in key sid db =
     (case db of
        None \<Rightarrow> None
      | Some d \<Rightarrow>
          if sc_complete (inbox_metadata key db) \<and> rows_of key sid d \<noteq> []
          then Some (conversation_of (rows_of key sid d) (read_seq_of key sid d)) else None)"

definition inbox_states ::
  "(string \<Rightarrow> string) \<Rightarrow> string \<Rightarrow> string \<Rightarrow> int list option \<Rightarrow> crm option \<Rightarrow> (int \<times> conversation_state) list result" where
  "inbox_states canon seller data_dir sids db =
     and_then (inbox_key canon seller data_dir) (\<lambda>key.
       Inr (case db of
              None \<Rightarrow> []
            | Some d \<Rightarrow>
                List.map_filter (\<lambda>sid. map_option (Pair sid) (state_in key sid db))
                  (filter (\<lambda>sid. case sids of None \<Rightarrow> True | Some xs \<Rightarrow> sid \<in> set xs)
                    (dedup (map lr_sid (filter (row_at key) (crm_ledger d)))))))"

section \<open>Read snapshots\<close>

record snapshot =
  sn_database :: string
  sn_key :: scope_key
  sn_sid :: int
  sn_epoch :: "string option"
  sn_seq :: int

text \<open>\<open>path\<close> is the store's database path. A \<open>sid\<close> is an integer here; the code refuses the others.\<close>

definition take_snapshot ::
  "(string \<Rightarrow> string) \<Rightarrow> (snapshot \<Rightarrow> string) \<Rightarrow> string \<Rightarrow> int \<Rightarrow> string \<Rightarrow> string \<Rightarrow> string option \<Rightarrow> crm option \<Rightarrow> string result" where
  "take_snapshot canon issue path sid seller data_dir epoch db =
     (if sid < 1 then Inl (Value_Error ''sid must be a positive integer'')
      else and_then (inbox_key canon seller data_dir) (\<lambda>key.
        case state_in key sid db of
          None \<Rightarrow> Inl (Value_Error ''Conversation is not in this initialized inbox scope'')
        | Some st \<Rightarrow> Inr (issue \<lparr>sn_database = path, sn_key = key, sn_sid = sid, sn_epoch = epoch,
                                 sn_seq = int (cs_snapshot_seq st)\<rparr>)))"

definition put_mark :: "read_mark \<Rightarrow> read_mark list \<Rightarrow> read_mark list" where
  "put_mark m t =
     (if find (mark_at (rm_seller m, rm_dir m) (rm_sid m)) t = None then t @ [m]
      else update_rows (mark_at (rm_seller m, rm_dir m) (rm_sid m)) (\<lambda>_. m) t)"

definition bump_revision :: "inbox_scope \<Rightarrow> inbox_scope" where
  "bump_revision s = s\<lparr>sc_revision := sc_revision s + 1\<rparr>"

definition mark_read ::
  "(string \<Rightarrow> string) \<Rightarrow> (string \<Rightarrow> snapshot option) \<Rightarrow> string \<Rightarrow> int \<Rightarrow> string \<Rightarrow> string \<Rightarrow> string \<Rightarrow> string option \<Rightarrow> crm option
     \<Rightarrow> conversation_state result \<times> crm option" where
  "mark_read canon verify path sid token seller data_dir epoch db =
     (if sid < 1 then (Inl (Value_Error ''sid must be a positive integer''), db)
      else case inbox_key canon seller data_dir of
        Inl e \<Rightarrow> (Inl e, db)
      | Inr key \<Rightarrow>
          (case verify token of
             None \<Rightarrow> (Inl (Value_Error ''Invalid or expired inbox read snapshot''), db)
           | Some sn \<Rightarrow>
               if sn_database sn \<noteq> path \<or> sn_key sn \<noteq> key \<or> sn_sid sn \<noteq> sid \<or> sn_epoch sn \<noteq> epoch \<or> sn_seq sn < 0
               then (Inl (Value_Error ''Invalid or expired inbox read snapshot''), db)
               else
                 (case db of
                    None \<Rightarrow> (Inl (Operational_Error ''unable to open database file''), None)
                  | Some d \<Rightarrow>
                      (case state_in key sid db of
                         None \<Rightarrow> (Inl (Value_Error ''Read snapshot is outside the current inbox ledger''), db)
                       | Some st \<Rightarrow>
                           if int (cs_snapshot_seq st) < sn_seq sn
                           then (Inl (Value_Error ''Read snapshot is outside the current inbox ledger''), db)
                           else
                             (let d' = (if int (cs_read_seq st) < sn_seq sn
                                        then d\<lparr>crm_marks := put_mark \<lparr>rm_seller = fst key, rm_dir = snd key, rm_sid = sid,
                                                                      rm_seq = nat (sn_seq sn)\<rparr> (crm_marks d),
                                               crm_scopes := update_rows (scope_at key) bump_revision (crm_scopes d)\<rparr>
                                        else d)
                              in (case state_in key sid (Some d') of
                                    Some st' \<Rightarrow> (Inr st', Some d')
                                  | None \<Rightarrow> (Inl (Key_Error ''sid''), db)))))))"

end
