(* ===== verification/Inbox_Store_Props.thy ===== *)
theory Inbox_Store_Props
  imports Inbox_Store "HOL-Library.Countable"
begin

text \<open>
  What the inbox promises. The batched write of the ledger is the message by message one (\<open>ledger_seq\<close>, by
  the table interface of \<open>Sync_Store\<close>); the tables are then a transition system with an invariant on the sequence
  numbers and a relation to every later state: rows keep their number, first observation and origin, new rows
  get higher numbers than all before, and read marks only move forward. The last section states
  the properties.
\<close>

section \<open>The ledger as a keyed table\<close>

lemma row_key_eq: "row_at k r \<and> lr_mid r = m \<longleftrightarrow> row_key r = (k, m)"
  by (cases k) (auto simp: row_at_def row_key_def)

lemma find_row_key: "find_row t k = find (\<lambda>r. row_key r = k) t"
  by (cases k) (simp add: find_row_def row_key_eq)

lemma with_projection_keeps [simp]:
  "row_key (with_projection p r) = row_key r" "lr_seq (with_projection p r) = lr_seq r"
  "lr_first_seen (with_projection p r) = lr_first_seen r" "lr_history (with_projection p r) = lr_history r"
  "lr_seller (with_projection p r) = lr_seller r" "lr_dir (with_projection p r) = lr_dir r"
  "lr_mid (with_projection p r) = lr_mid r"
  by (simp_all add: with_projection_def row_key_def)

lemma find_row_store_other:
  "k \<noteq> row_key r \<Longrightarrow> find_row (store_row r t) k = find_row t k"
proof -
  assume other: "k \<noteq> row_key r"
  have append: "find_row (t @ [r]) k = find_row t k"
    using other by (induction t) (auto simp: find_row_key)
  have update: "find_row (update_rows (\<lambda>x. row_key x = row_key r) f t) k = find_row t k"
    if "\<And>x. row_key (f x) = row_key x" for f
    using other that by (induction t) (auto simp: find_row_key)
  show ?thesis using append update by (simp add: store_row_def)
qed

interpretation ledger_table: keyed_table find_row store_row row_key
  by unfold_locales (rule find_row_store_other)

section \<open>Message by message\<close>

fun ledger_seq ::
  "time_zone \<Rightarrow> inbox_write \<Rightarrow> payload list \<Rightarrow> nat \<Rightarrow> bool \<Rightarrow> ledger_row list \<Rightarrow> (ledger_row list \<times> nat \<times> bool) result" where
  "ledger_seq zone w [] seq any t = Inr (t, seq, any)"
| "ledger_seq zone w (p # ps) seq any t =
     and_then (ledger_entry zone w t p seq) (\<lambda>(r, seq').
       ledger_seq zone w ps seq' (any \<or> r \<noteq> None) (case r of None \<Rightarrow> t | Some r' \<Rightarrow> store_row r' t))"

lemma ledger_entry_cong:
  "find_row t (iw_key w, pl_mid p) = find_row u (iw_key w, pl_mid p) \<Longrightarrow>
     ledger_entry zone w t p seq = ledger_entry zone w u p seq"
  by (simp add: ledger_entry_def)

lemma find_rowD: "find_row t k = Some r \<Longrightarrow> r \<in> set t \<and> row_key r = k"
  unfolding find_row_key by (drule find_SomeD) simp

lemma ledger_entry_key:
  assumes "ledger_entry zone w t p seq = Inr (Some r, seq')"
  shows "row_key r = (iw_key w, pl_mid p)"
  using assms find_rowD[of t "(iw_key w, pl_mid p)"]
  by (auto simp: ledger_entry_def and_then_Inr_iff row_key_def split: option.splits if_splits)

lemma ledger_batch_seq:
  assumes "distinct (map pl_mid ps)" "\<forall>p \<in> set ps. (iw_key w, pl_mid p) \<notin> row_key ` set changed"
  shows "and_then (ledger_batch zone w t ps seq changed) (\<lambda>(ch, s). Inr (fold store_row ch t, s, any \<or> ch \<noteq> [])) =
    ledger_seq zone w ps seq (any \<or> changed \<noteq> []) (fold store_row changed t)"
  using assms
proof (induction ps arbitrary: seq changed)
  case (Cons p ps)
  have look: "find_row (fold store_row changed t) (iw_key w, pl_mid p) = find_row t (iw_key w, pl_mid p)"
    using Cons.prems(2) by (intro ledger_table.lookup_writes) simp
  note entry = ledger_entry_cong[OF look, of zone seq]
  show ?case
  proof (cases "ledger_entry zone w t p seq")
    case (Inl e)
    then show ?thesis by (simp add: entry)
  next
    case (Inr rs)
    obtain r seq' where rs: "rs = (r, seq')" by (cases rs)
    show ?thesis
    proof (cases r)
      case None
      have b: "(changed = [] \<longrightarrow> any) = (any \<or> changed \<noteq> [])" by blast
      show ?thesis using None Cons.IH[of changed seq'] Cons.prems Inr rs by (simp add: entry b)
    next
      case (Some row)
      have key: "row_key row = (iw_key w, pl_mid p)" using ledger_entry_key Inr rs Some by blast
      have "\<forall>q \<in> set ps. (iw_key w, pl_mid q) \<notin> row_key ` set (changed @ [row])"
        using Cons.prems key by (auto simp: image_iff)
      from Cons.IH[OF _ this, of seq'] show ?thesis using Cons.prems(1) Inr rs Some by (simp add: entry)
    qed
  qed
qed simp

lemma ledger_seq_append:
  "ledger_seq zone w (ps @ qs) seq any t =
     and_then (ledger_seq zone w ps seq any t) (\<lambda>(t', seq', any'). ledger_seq zone w qs seq' any' t')"
  by (induction ps arbitrary: seq any t) (simp_all add: and_then_def split: sum.split prod.split)

lemma ledger_batches_seq:
  "distinct (map pl_mid ps) \<Longrightarrow> ledger_batches zone w ps seq any t = ledger_seq zone w ps seq any t"
proof (induction zone w ps seq any t rule: ledger_batches.induct)
  case (1 zone w ps seq any t)
  show ?case
  proof (cases "ps = []")
    case True
    then show ?thesis by (simp add: ledger_batches.simps)
  next
    case False
    define now later where nl: "now = take 500 ps" "later = drop 500 ps"
    have ps: "ps = now @ later" by (simp add: nl)
    have d: "distinct (map pl_mid now)" "distinct (map pl_mid later)" using 1(2) by (simp_all add: ps)
    have batch: "ledger_seq zone w now seq any t =
        and_then (ledger_batch zone w t now seq []) (\<lambda>(ch, s). Inr (fold store_row ch t, s, any \<or> ch \<noteq> []))"
      using ledger_batch_seq[OF d(1), of w "[]" zone t seq any] by simp
    have "ledger_batches zone w ps seq any t =
        and_then (ledger_batch zone w t now seq []) (\<lambda>(ch, s). ledger_seq zone w later s (any \<or> ch \<noteq> []) (fold store_row ch t))"
      using 1(1)[OF False] d(2) False
      by (subst ledger_batches.simps) (auto simp: nl[symmetric] and_then_def split: sum.splits)
    also have "\<dots> = ledger_seq zone w ps seq any t"
      unfolding ps ledger_seq_append batch by (simp add: and_then_def split: sum.splits prod.splits)
    finally show ?thesis .
  qed
qed

section \<open>The invariant of the ledger\<close>

definition row_scope :: "ledger_row \<Rightarrow> scope_key" where
  "row_scope r = (lr_seller r, lr_dir r)"

definition row_number :: "ledger_row \<Rightarrow> scope_key \<times> nat" where
  "row_number r = (row_scope r, lr_seq r)"

definition ledger_ok :: "(scope_key \<Rightarrow> nat) \<Rightarrow> ledger_row list \<Rightarrow> bool" where
  "ledger_ok mx t \<longleftrightarrow> distinct (map row_key t) \<and> distinct (map row_number t)
     \<and> (\<forall>r \<in> set t. 1 \<le> lr_seq r \<and> lr_seq r \<le> mx (row_scope r))"

definition same_origin :: "ledger_row \<Rightarrow> ledger_row \<Rightarrow> bool" where
  "same_origin r r' \<longleftrightarrow> row_key r' = row_key r \<and> lr_seq r' = lr_seq r
     \<and> lr_first_seen r' = lr_first_seen r \<and> lr_history r' = lr_history r"

definition ledger_grows :: "(scope_key \<Rightarrow> nat) \<Rightarrow> ledger_row list \<Rightarrow> ledger_row list \<Rightarrow> bool" where
  "ledger_grows mx t u \<longleftrightarrow> (\<forall>r \<in> set t. \<exists>r' \<in> set u. same_origin r r')
     \<and> (\<forall>r' \<in> set u. row_key r' \<notin> row_key ` set t \<longrightarrow> mx (row_scope r') < lr_seq r')"

lemma row_scope_key: "fst (row_key r) = row_scope r"
  by (simp add: row_key_def row_scope_def)

lemma same_origin_refl [simp]: "same_origin r r"
  by (simp add: same_origin_def)

lemma same_origin_scope: "same_origin r r' \<Longrightarrow> row_scope r' = row_scope r \<and> row_number r' = row_number r"
  by (auto simp: same_origin_def row_number_def row_key_def row_scope_def)

lemma ledger_grows_refl: "ledger_grows mx t t"
  by (auto simp: ledger_grows_def intro: same_origin_refl)

lemma ledger_grows_trans:
  assumes "ledger_grows mx t u" "ledger_grows mx' u v" "distinct (map row_key v)" "\<And>k. mx k \<le> mx' k"
  shows "ledger_grows mx t v"
proof -
  have "\<exists>r'' \<in> set v. same_origin r r''" if "r \<in> set t" for r
  proof -
    obtain r' where "r' \<in> set u" "same_origin r r'" using assms(1) \<open>r \<in> set t\<close> by (auto simp: ledger_grows_def)
    moreover obtain r'' where "r'' \<in> set v" "same_origin r' r''" using assms(2) \<open>r' \<in> set u\<close> by (auto simp: ledger_grows_def)
    ultimately show ?thesis by (auto simp: same_origin_def)
  qed
  moreover have "mx (row_scope r) < lr_seq r" if r: "r \<in> set v" "row_key r \<notin> row_key ` set t" for r
  proof (cases "row_key r \<in> row_key ` set u")
    case True
    then obtain r' where r': "r' \<in> set u" "row_key r' = row_key r" by auto
    obtain s where s: "s \<in> set v" "same_origin r' s" using assms(2) r'(1) by (auto simp: ledger_grows_def)
    then have "s = r" using assms(3) r(1) r'(2) by (auto simp: same_origin_def distinct_map dest: inj_onD)
    moreover have "mx (row_scope r') < lr_seq r'" using assms(1) r r' by (auto simp: ledger_grows_def)
    ultimately show ?thesis using s(2) same_origin_scope[OF s(2)] by (simp add: same_origin_def)
  next
    case False
    then have "mx' (row_scope r) < lr_seq r" using assms(2) r by (auto simp: ledger_grows_def)
    with assms(4)[of "row_scope r"] show ?thesis by linarith
  qed
  ultimately show ?thesis by (auto simp: ledger_grows_def)
qed

text \<open>Writing a correction of a row keeps its number; a new row takes the next one.\<close>

lemma map_same_origin:
  assumes "\<And>x. same_origin x (f x)" "ledger_ok mx t"
  shows "ledger_ok mx (map f t)" "ledger_grows mx t (map f t)"
proof -
  have keep: "row_key (f x) = row_key x" "row_number (f x) = row_number x" "lr_seq (f x) = lr_seq x"
    "row_scope (f x) = row_scope x" for x
    using assms(1)[of x] same_origin_scope[OF assms(1)[of x]] by (auto simp: same_origin_def)
  then have "map row_key (map f t) = map row_key t" "map row_number (map f t) = map row_number t" by simp_all
  then show "ledger_ok mx (map f t)"
    using assms(2) keep by (simp add: ledger_ok_def del: map_map)
  show "ledger_grows mx t (map f t)"
    using assms(1) keep(1) by (auto simp: ledger_grows_def image_image)
qed

lemma store_correction:
  assumes "find_row t (row_key r) \<noteq> None" "ledger_ok mx t"
  shows "ledger_ok mx (store_row r t) \<and> ledger_grows mx t (store_row r t)"
proof -
  let ?f = "\<lambda>x. if row_key x = row_key r then with_projection (projection_of r) x else x"
  have "store_row r t = map ?f t" using assms(1) by (simp add: store_row_def update_rows_def)
  moreover have "same_origin x (?f x)" for x by (simp add: same_origin_def)
  ultimately show ?thesis using map_same_origin[of ?f] assms(2) by simp
qed

lemma store_new_row:
  assumes "find_row t (row_key r) = None" "ledger_ok mx t" "lr_seq r = mx (row_scope r) + 1"
  shows "ledger_ok (mx(row_scope r := lr_seq r)) (store_row r t) \<and> ledger_grows mx t (store_row r t)"
proof -
  have new: "row_key r \<notin> row_key ` set t" using assms(1) by (auto simp: find_row_key find_None_iff)
  have "row_number r \<notin> row_number ` set t"
    using assms(2,3) by (force simp: ledger_ok_def row_number_def)
  then have "ledger_ok (mx(row_scope r := lr_seq r)) (t @ [r])"
    using assms(2,3) new by (fastforce simp: ledger_ok_def)
  moreover have "ledger_grows mx t (t @ [r])"
    using assms(3) by (auto simp: ledger_grows_def intro: same_origin_refl)
  ultimately show ?thesis using assms(1) by (simp add: store_row_def)
qed

lemma ledger_entry_row:
  assumes "ledger_entry zone w t p seq = Inr (r, seq')" "ledger_ok mx t" "mx (iw_key w) = seq"
  defines "u \<equiv> (case r of None \<Rightarrow> t | Some r' \<Rightarrow> store_row r' t)"
  shows "ledger_ok (mx(iw_key w := seq')) u \<and> ledger_grows mx t u \<and> seq \<le> seq'"
proof (cases r)
  case None
  then have "seq' = seq"
    using assms(1) by (auto simp: ledger_entry_def and_then_Inr_iff split: option.splits if_splits)
  then show ?thesis using None assms(2,3) ledger_grows_refl by (simp add: u_def fun_upd_idem)
next
  case (Some row)
  note key = ledger_entry_key[OF assms(1)[unfolded Some]]
  have scope: "row_scope row = iw_key w" using key by (simp flip: row_scope_key)
  show ?thesis
  proof (cases "find_row t (iw_key w, pl_mid p)")
    case None
    then have "lr_seq row = seq + 1" "seq' = seq + 1"
      using assms(1) Some by (auto simp: ledger_entry_def and_then_Inr_iff)
    then show ?thesis
      using store_new_row[of t row mx] None key scope assms(2,3) Some by (simp add: u_def)
  next
    case (Some current)
    then have "seq' = seq"
      using assms(1) by (auto simp: ledger_entry_def and_then_Inr_iff split: if_splits)
    then show ?thesis
      using store_correction[of t row mx] key Some \<open>r = Some row\<close> assms(2,3) by (simp add: u_def fun_upd_idem)
  qed
qed

lemma ledger_seq_inv:
  assumes "ledger_seq zone w ps seq any t = Inr (u, seq', any')" "ledger_ok mx t" "mx (iw_key w) = seq"
  shows "ledger_ok (mx(iw_key w := seq')) u \<and> ledger_grows mx t u \<and> seq \<le> seq' \<and> (any \<longrightarrow> any')
    \<and> (\<not> any' \<longrightarrow> u = t \<and> seq' = seq)"
  using assms
proof (induction ps arbitrary: seq any t mx)
  case Nil
  then show ?case using ledger_grows_refl by (auto simp: fun_upd_idem)
next
  case (Cons p ps)
  then obtain r seq1 where entry: "ledger_entry zone w t p seq = Inr (r, seq1)"
    by (auto simp: and_then_Inr_iff)
  let ?t = "case r of None \<Rightarrow> t | Some r' \<Rightarrow> store_row r' t"
  note one = ledger_entry_row[OF entry Cons.prems(2,3)]
  have run: "ledger_seq zone w ps seq1 (any \<or> r \<noteq> None) ?t = Inr (u, seq', any')"
    using Cons.prems(1) entry by simp
  have rest: "ledger_ok (mx(iw_key w := seq')) u" "ledger_grows (mx(iw_key w := seq1)) ?t u" "seq1 \<le> seq'"
    "any \<or> r \<noteq> None \<longrightarrow> any'" "\<not> any' \<longrightarrow> u = ?t \<and> seq' = seq1"
    using Cons.IH[OF run, where mx = "mx(iw_key w := seq1)", OF conjunct1[OF one] fun_upd_same]
    unfolding fun_upd_upd by blast+
  have "mx k \<le> (mx(iw_key w := seq1)) k" for k using one Cons.prems(3) by simp
  then have "ledger_grows mx t u"
    using ledger_grows_trans[of mx t ?t "mx(iw_key w := seq1)" u] one rest by (simp add: ledger_ok_def)
  moreover have "r = None \<Longrightarrow> seq1 = seq"
    using entry by (auto simp: ledger_entry_def and_then_Inr_iff split: option.splits if_splits)
  ultimately show ?case using rest one by (cases r) (simp_all del: fun_upd_apply)
qed

section \<open>The tables\<close>

definition last_seq :: "crm \<Rightarrow> scope_key \<Rightarrow> nat" where
  "last_seq db key = (case find (scope_at key) (crm_scopes db) of None \<Rightarrow> 0 | Some s \<Rightarrow> sc_last_seq s)"

definition inbox_ok :: "crm \<Rightarrow> bool" where
  "inbox_ok db \<longleftrightarrow> ledger_ok (last_seq db) (crm_ledger db)"

definition inbox_grows :: "crm \<Rightarrow> crm \<Rightarrow> bool" where
  "inbox_grows db db' \<longleftrightarrow> ledger_grows (last_seq db) (crm_ledger db) (crm_ledger db')
     \<and> (\<forall>key. last_seq db key \<le> last_seq db' key)
     \<and> (\<forall>key sid. read_seq_of key sid db \<le> read_seq_of key sid db')
     \<and> distinct (map row_key (crm_ledger db'))"

lemma inbox_grows_refl: "inbox_ok db \<Longrightarrow> inbox_grows db db"
  by (simp add: inbox_grows_def ledger_grows_refl inbox_ok_def ledger_ok_def)

lemma inbox_grows_trans: "inbox_grows a b \<Longrightarrow> inbox_grows b c \<Longrightarrow> inbox_grows a c"
  unfolding inbox_grows_def by (meson ledger_grows_trans order_trans)

lemma scope_at_unique: "scope_at k s \<Longrightarrow> scope_at k' s \<longleftrightarrow> k' = k"
  by (cases k; cases k') (auto simp: scope_at_def)

lemma find_put:
  assumes "\<And>i j x. isk i x \<Longrightarrow> isk j x \<longleftrightarrow> j = i" "isk k s"
  shows "find (isk k') (if find (isk k) t = None then t @ [s] else update_rows (isk k) (\<lambda>_. s) t) =
    (if k' = k then Some s else find (isk k') t)"
proof -
  have app: "find P (t @ [s]) = (case find P t of None \<Rightarrow> if P s then Some s else None | Some y \<Rightarrow> Some y)" for P
    by (induction t) auto
  have own: "find (isk k) t \<noteq> None \<Longrightarrow> find (isk k) (update_rows (isk k) (\<lambda>_. s) t) = Some s"
    using assms(2) by (induction t) auto
  have other: "find (isk k') (update_rows (isk k) (\<lambda>_. s) t) = find (isk k') t" if "k' \<noteq> k"
    using assms(1)[OF assms(2), of k'] assms(1)[of k _ k'] that by (induction t) auto
  show ?thesis
  proof (cases "k' = k")
    case True
    then show ?thesis using own assms(2) by (auto simp: app)
  next
    case False
    then show ?thesis using other assms(1)[OF assms(2), of k'] by (auto simp: app split: option.splits)
  qed
qed

lemma last_seq_put: "last_seq (db\<lparr>crm_scopes := put_scope s (crm_scopes db)\<rparr>) =
    (last_seq db)((sc_seller s, sc_dir s) := sc_last_seq s)"
proof
  fix k
  have "scope_at (sc_seller s, sc_dir s) s" by (simp add: scope_at_def)
  then have "find (scope_at k) (put_scope s (crm_scopes db)) =
      (if k = (sc_seller s, sc_dir s) then Some s else find (scope_at k) (crm_scopes db))"
    unfolding put_scope_def by (intro find_put scope_at_unique)
  then show "last_seq (db\<lparr>crm_scopes := put_scope s (crm_scopes db)\<rparr>) k =
      ((last_seq db)((sc_seller s, sc_dir s) := sc_last_seq s)) k"
    by (simp add: last_seq_def)
qed

lemma last_seq_same_scopes: "crm_scopes db' = crm_scopes db \<Longrightarrow> last_seq db' = last_seq db"
  by (simp add: last_seq_def fun_eq_iff)

lemma payload_keys:
  assumes "\<forall>kv \<in> set d. pl_mid (snd kv) = fst kv" "distinct (map fst d)"
  shows "(\<forall>kv \<in> set (fold (\<lambda>m d. alist_put (cm_mid m) (source_payload m) d) ms d). pl_mid (snd kv) = fst kv)
    \<and> distinct (map fst (fold (\<lambda>m d. alist_put (cm_mid m) (source_payload m) d) ms d))"
  using assms
proof (induction ms arbitrary: d)
  case (Cons m ms)
  have "\<forall>kv \<in> set (alist_put (cm_mid m) (source_payload m) d). pl_mid (snd kv) = fst kv"
    using Cons.prems(1) by (auto dest!: in_alist_put simp: source_payload_def)
  then show ?case using Cons.IH Cons.prems(2) by simp
qed simp

lemma archive_keys:
  assumes "distinct (map cm_mid (crm_archive db))"
  shows "(\<forall>kv \<in> set (archive_payloads json_text key db). pl_mid (snd kv) = fst kv)
    \<and> distinct (map fst (archive_payloads json_text key db))"
proof -
  have "distinct (map cm_mid (filter (adoptable key db) (crm_archive db)))"
    using assms by (simp add: distinct_map_filter)
  then have "distinct (map cm_mid (sort_key cm_mid (filter (adoptable key db) (crm_archive db))))"
    by (simp add: distinct_map)
  then show ?thesis by (auto simp: archive_payloads_def archive_payload_def comp_def)
qed

text \<open>A successful write is a run of \<open>ledger_seq\<close>, and a new scope row if it changed anything.\<close>

lemma write_inbox_cases:
  assumes "write_inbox canon zone json_text seller data_dir messages now db = Inr db'" "distinct (map cm_mid (crm_archive db))"
  obtains "crm_ledger db' = crm_ledger db" "crm_scopes db' = crm_scopes db" "crm_marks db' = crm_marks db"
  | key w ps t seq any where "inbox_key canon seller data_dir = Inr key" "iw_key w = key"
      "ledger_seq zone w ps (last_seq db key) False (crm_ledger db) = Inr (t, seq, any)"
      "crm_ledger db' = t" "crm_marks db' = crm_marks db"
      "last_seq db' = (last_seq db)(key := seq) \<or> (\<not> any \<and> last_seq db' = last_seq db)"
proof -
  obtain key where key: "inbox_key canon seller data_dir = Inr key"
    using assms(1) by (auto simp: write_inbox_def and_then_Inr_iff)
  define d where "d = db\<lparr>crm_tables := True\<rparr>"
  have d: "crm_ledger d = crm_ledger db" "crm_scopes d = crm_scopes db" "crm_marks d = crm_marks db"
    "distinct (map cm_mid (crm_archive d))" "last_seq d = last_seq db"
    using assms(2) by (simp_all add: d_def last_seq_def fun_eq_iff)
  define previous where "previous = find (scope_at key) (crm_scopes d)"
  define history where "history = (previous = None)"
  define sync_dirs where "sync_dirs = map sy_data_dir (filter (\<lambda>r. sy_seller r = seller)
    (case crm_sync d of None \<Rightarrow> [] | Some rs \<Rightarrow> rs))"
  define legacy where "legacy = (history \<and> snd key \<in> set sync_dirs)"
  define adopt where "adopt = (history \<and> (legacy \<or> (sync_dirs = [] \<and> \<not> (\<exists>s \<in> set (crm_scopes d). sc_seller s = seller))))"
  define archive where "archive = (if adopt then archive_payloads json_text key d else [])"
  define payloads where "payloads = map snd (fold (\<lambda>m d. alist_put (cm_mid m) (source_payload m) d)
    (case messages of None \<Rightarrow> [] | Some ms \<Rightarrow> ms) archive)"
  define w where "w = \<lparr>iw_key = key, iw_contacts = seller_sessions seller d, iw_archived = map fst archive,
    iw_source_history = (history \<and> \<not> (legacy \<or> map fst archive \<noteq> [])), iw_now = now\<rparr>"
  define start where "start = (case previous of None \<Rightarrow> 0 | Some s \<Rightarrow> sc_last_seq s)"
  have wr: "write_inbox canon zone json_text seller data_dir messages now db =
    (if previous \<noteq> None \<and> messages = None then Inr d
     else if messages = None \<and> map fst archive = [] \<and> \<not> legacy then Inr d
     else and_then (ledger_batches zone w payloads start False (crm_ledger d)) (\<lambda>(t, seq, any).
       Inr (if history \<or> any
            then d\<lparr>crm_ledger := t, crm_scopes := put_scope
              \<lparr>sc_seller = fst key, sc_dir = snd key, sc_complete = True, sc_last_seq = seq,
               sc_revision = (case previous of None \<Rightarrow> 0 | Some s \<Rightarrow> sc_revision s) + 1\<rparr> (crm_scopes d)\<rparr>
            else d\<lparr>crm_ledger := t\<rparr>)))"
    unfolding write_inbox_def key and_then_simps Let_def d_def[symmetric] previous_def[symmetric] history_def[symmetric]
      sync_dirs_def[symmetric] legacy_def[symmetric] adopt_def[symmetric] archive_def[symmetric] payloads_def[symmetric]
      w_def[symmetric] start_def[symmetric] ..
  have arch: "(\<forall>kv \<in> set archive. pl_mid (snd kv) = fst kv) \<and> distinct (map fst archive)"
    using archive_keys[OF d(4), of json_text key] by (cases adopt) (simp_all only: archive_def if_True if_False, auto)
  have "distinct (map pl_mid payloads)"
  proof -
    define e where "e = fold (\<lambda>m d. alist_put (cm_mid m) (source_payload m) d)
      (case messages of None \<Rightarrow> [] | Some ms \<Rightarrow> ms) archive"
    have e: "\<forall>kv \<in> set e. pl_mid (snd kv) = fst kv" "distinct (map fst e)"
      using payload_keys arch unfolding e_def by blast+
    have "map pl_mid payloads = map fst e" using e(1) by (simp add: payloads_def e_def[symmetric])
    then show ?thesis using e(2) by simp
  qed
  note batches = ledger_batches_seq[OF this]
  have start: "start = last_seq db key" using d(2) by (simp add: start_def previous_def last_seq_def)
  show thesis
  proof (cases "db' = d")
    case True
    then show ?thesis using that(1) d by simp
  next
    case False
    then obtain t seq any where run: "ledger_seq zone w payloads (last_seq db key) False (crm_ledger db) = Inr (t, seq, any)"
      and db': "db' = (if history \<or> any
            then d\<lparr>crm_ledger := t, crm_scopes := put_scope
              \<lparr>sc_seller = fst key, sc_dir = snd key, sc_complete = True, sc_last_seq = seq,
               sc_revision = (case previous of None \<Rightarrow> 0 | Some s \<Rightarrow> sc_revision s) + 1\<rparr> (crm_scopes d)\<rparr>
            else d\<lparr>crm_ledger := t\<rparr>)"
      using assms(1) unfolding wr batches start d(1)
      by (auto simp: and_then_Inr_iff split: if_splits)
    have "last_seq db' = (if history \<or> any then (last_seq db)(key := seq) else last_seq db)"
      using last_seq_put[where db = "d\<lparr>crm_ledger := t\<rparr>"] d(5) last_seq_same_scopes[of "d\<lparr>crm_ledger := t\<rparr>" d]
      by (simp add: db' del: fun_upd_apply)
    then show ?thesis
      using that(2)[OF key _ run] db' d by (auto simp: w_def)
  qed
qed

section \<open>Read marks\<close>

lemma mark_at_unique: "mark_at (fst k) (snd k) m \<Longrightarrow> mark_at (fst k') (snd k') m \<longleftrightarrow> k' = k"
  by (cases k; cases k') (auto simp: mark_at_def)

lemma read_seq_put:
  "read_seq_of key sid (db\<lparr>crm_marks := put_mark m (crm_marks db), crm_scopes := ss\<rparr>) =
     (if (key, sid) = ((rm_seller m, rm_dir m), rm_sid m) then rm_seq m else read_seq_of key sid db)"
proof -
  define isk where "isk k = mark_at (fst k) (snd k)" for k
  have mk: "mark_at k i = isk (k, i)" for k i by (simp add: isk_def)
  have "find (mark_at key sid) (put_mark m (crm_marks db)) =
      (if (key, sid) = ((rm_seller m, rm_dir m), rm_sid m) then Some m else find (mark_at key sid) (crm_marks db))"
    unfolding put_mark_def mk
  proof (rule find_put)
    show "isk j x \<longleftrightarrow> j = i" if "isk i x" for i j x using that mark_at_unique[of i x j] by (simp add: isk_def)
    show "isk ((rm_seller m, rm_dir m), rm_sid m) m" by (simp add: isk_def mark_at_def)
  qed
  then show ?thesis by (simp add: read_seq_of_def)
qed

lemma last_seq_bump: "last_seq (db\<lparr>crm_marks := ms, crm_scopes := update_rows P bump_revision (crm_scopes db)\<rparr>) = last_seq db"
proof
  fix key
  have "(case find (scope_at key) (update_rows P bump_revision ss) of None \<Rightarrow> 0 | Some s \<Rightarrow> sc_last_seq s) =
      (case find (scope_at key) ss of None \<Rightarrow> 0 | Some s \<Rightarrow> sc_last_seq s)" for ss
    by (induction ss) (auto simp: bump_revision_def scope_at_def)
  then show "last_seq (db\<lparr>crm_marks := ms, crm_scopes := update_rows P bump_revision (crm_scopes db)\<rparr>) key = last_seq db key"
    by (simp add: last_seq_def)
qed

lemma conversation_seqs [simp]:
  "cs_read_seq (conversation_of rows n) = n" "cs_snapshot_seq (conversation_of rows n) = max_default 0 (map lr_seq rows)"
  by (simp_all add: conversation_of_def Let_def)

lemma state_in_conversation:
  "state_in key sid (Some d) = Some st \<Longrightarrow>
     st = conversation_of (rows_of key sid d) (read_seq_of key sid d) \<and> rows_of key sid d \<noteq> []
   \<and> cs_read_seq st = read_seq_of key sid d"
  by (auto simp: state_in_def split: if_splits)

text \<open>A successful call: the key, the token, and the tables afterwards.\<close>

lemma mark_read_ok:
  assumes "mark_read canon verify path sid token seller data_dir epoch (Some d) = (Inr st, Some d')"
  obtains key sn where "inbox_key canon seller data_dir = Inr key" "verify token = Some sn" "sn_key sn = key" "sn_sid sn = sid"
    "crm_ledger d' = crm_ledger d" "last_seq d' = last_seq d"
    "\<And>k i. read_seq_of k i d' = (if (k, i) = (key, sid) then max (read_seq_of k i d) (nat (sn_seq sn)) else read_seq_of k i d)"
    "state_in key sid (Some d') = Some st"
proof -
  obtain key sn st0 where pre: "inbox_key canon seller data_dir = Inr key" "verify token = Some sn" "sn_key sn = key"
      "sn_sid sn = sid" "0 \<le> sn_seq sn" "state_in key sid (Some d) = Some st0"
    and d': "d' = (if int (cs_read_seq st0) < sn_seq sn
      then d\<lparr>crm_marks := put_mark \<lparr>rm_seller = fst key, rm_dir = snd key, rm_sid = sid, rm_seq = nat (sn_seq sn)\<rparr> (crm_marks d),
             crm_scopes := update_rows (scope_at key) bump_revision (crm_scopes d)\<rparr> else d)"
    and st: "state_in key sid (Some d') = Some st"
    using assms by (auto simp: mark_read_def Let_def split: if_splits sum.splits option.splits)
  have read: "cs_read_seq st0 = read_seq_of key sid d" using state_in_conversation[OF pre(6)] by blast
  have "read_seq_of k i d' = (if (k, i) = (key, sid) then max (read_seq_of k i d) (nat (sn_seq sn)) else read_seq_of k i d)" for k i
    using read pre(5) by (auto simp: d' read_seq_put nat_less_iff max_def)
  moreover have "crm_ledger d' = crm_ledger d" "last_seq d' = last_seq d" using last_seq_bump by (auto simp: d')
  ultimately show ?thesis using that pre st by blast
qed

lemma mark_read_error: "mark_read canon verify path sid token seller data_dir epoch db = (Inl e, db') \<Longrightarrow> db' = db"
  by (auto simp: mark_read_def Let_def split: if_splits sum.splits option.splits)

section \<open>Steps\<close>

text \<open>
  One committed write of the ledger (in an archive whose message identifiers are unique), one call of \<^verbatim>\<open>mark_read\<close>,
  or any change that other code makes to the other CRM tables.
\<close>

inductive inbox_step :: "crm \<Rightarrow> crm \<Rightarrow> bool" where
  ib_write: "write_inbox canon zone json_text seller data_dir messages now db = Inr db' \<Longrightarrow>
     distinct (map cm_mid (crm_archive db)) \<Longrightarrow> inbox_step db db'"
| ib_mark: "mark_read canon verify path sid token seller data_dir epoch (Some db) = (r, Some db') \<Longrightarrow> inbox_step db db'"
| ib_other: "inbox_step db (db\<lparr>crm_sessions := ss, crm_archive := ms, crm_sync := sy\<rparr>)"

lemma write_inbox_inv:
  assumes "write_inbox canon zone json_text seller data_dir messages now db = Inr db'"
    "distinct (map cm_mid (crm_archive db))" "inbox_ok db"
  shows "inbox_ok db' \<and> inbox_grows db db'"
  using assms(1,2)
proof (cases rule: write_inbox_cases)
  case 1
  have same: "last_seq db' = last_seq db" using 1(2) by (rule last_seq_same_scopes)
  have marks: "read_seq_of key sid db' = read_seq_of key sid db" for key sid
    unfolding read_seq_of_def 1(3) ..
  show ?thesis
    using assms(3) ledger_grows_refl[of "last_seq db" "crm_ledger db"]
    unfolding inbox_ok_def inbox_grows_def same marks 1(1) ledger_ok_def by blast
next
  case (2 key w ps t seq any)
  have marks: "read_seq_of k sid db' = read_seq_of k sid db" for k sid using 2(5) by (simp add: read_seq_of_def)
  have inv: "ledger_ok ((last_seq db)(key := seq)) t \<and> ledger_grows (last_seq db) (crm_ledger db) t
      \<and> last_seq db key \<le> seq \<and> (\<not> any \<longrightarrow> t = crm_ledger db \<and> seq = last_seq db key)"
    using ledger_seq_inv[OF 2(3), of "last_seq db"] 2(2) assms(3) by (simp add: inbox_ok_def del: fun_upd_apply)
  have last: "last_seq db' = (last_seq db)(key := seq)"
    using 2(6) inv by (auto simp: fun_upd_idem)
  show ?thesis
    using inv 2(4) marks unfolding inbox_ok_def inbox_grows_def last by (auto simp: ledger_ok_def)
qed

interpretation inbox: tracked_system inbox_step inbox_ok inbox_grows
proof
  fix s t assume ok: "inbox_ok s" and "inbox_step s t"
  from this(2) have "inbox_ok t \<and> inbox_grows s t"
  proof cases
    case (ib_write canon zone json_text seller data_dir messages now)
    then show ?thesis using write_inbox_inv ok by blast
  next
    case (ib_mark canon verify path sid token seller data_dir epoch r)
    show ?thesis
    proof (cases r)
      case (Inl e)
      then show ?thesis using mark_read_error ib_mark ok inbox_grows_refl by blast
    next
      case (Inr st)
      from ib_mark[unfolded Inr] show ?thesis
      proof (rule mark_read_ok)
        fix key sn
        assume same: "crm_ledger t = crm_ledger s" "last_seq t = last_seq s"
          and marks: "\<And>k i. read_seq_of k i t = (if (k, i) = (key, sid) then max (read_seq_of k i s) (nat (sn_seq sn)) else read_seq_of k i s)"
        have "read_seq_of k i s \<le> read_seq_of k i t" for k i by (simp add: marks)
        then show ?thesis
          using ok same ledger_grows_refl by (simp add: inbox_ok_def inbox_grows_def ledger_ok_def)
      qed
    qed
  next
    case (ib_other ss ms sy)
    then have "last_seq t = last_seq s" "read_seq_of key sid t = read_seq_of key sid s" "crm_ledger t = crm_ledger s" for key sid
      by (simp_all add: last_seq_def fun_eq_iff read_seq_of_def)
    then show ?thesis using ok ledger_grows_refl by (simp add: inbox_ok_def inbox_grows_def ledger_ok_def)
  qed
  then show "inbox_ok t" "inbox_grows s t" by auto
qed (auto intro: inbox_grows_refl inbox_grows_trans)

section \<open>Maxima and minima\<close>

lemma max_default_Max: "xs \<noteq> [] \<Longrightarrow> max_default d xs = Max (set xs)"
  by (cases xs) (simp_all add: Max.set_eq_fold del: set_simps)

lemma max_default_bound: "x \<in> set xs \<Longrightarrow> x \<le> max_default d xs"
  using max_default_Max[of xs d] by (cases xs) (auto simp: Max_ge simp del: max_default.simps)

lemma max_default_le: "max_default d xs \<le> y \<longleftrightarrow> (if xs = [] then d \<le> y else \<forall>x \<in> set xs. x \<le> y)"
  using max_default_Max[of xs d] by (cases "xs = []") auto

lemma min_of_Some: "min_of xs = Some m \<longleftrightarrow> m \<in> set xs \<and> (\<forall>x \<in> set xs. m \<le> x)"
proof (cases xs)
  case (Cons x ys)
  have "fold min ys x = Min (set xs)" using Min.set_eq_fold[of x ys] by (simp add: Cons)
  then have "min_of xs = Some m \<longleftrightarrow> Min (set xs) = m" by (simp add: Cons)
  also have "\<dots> \<longleftrightarrow> m \<in> set xs \<and> (\<forall>x \<in> set xs. m \<le> x)" by (subst Min_eq_iff) (auto simp: Cons)
  finally show ?thesis .
qed simp

section \<open>Properties\<close>

text \<open>
  C19: The ledger of a scope is append only, over any writes, read marks and changes of the other tables: rows keep
  their number, first observation and origin and are never lost, numbers are unique in a scope and at most its
  last one, a row that is new since then has a higher number than everything before, and read
  marks never move back.
\<close>

theorem inbox_ledger_append_only:
  assumes "inbox_step\<^sup>*\<^sup>* db db'" "inbox_ok db"
  shows "inbox_ok db'
    \<and> (\<forall>r \<in> set (crm_ledger db). \<exists>r' \<in> set (crm_ledger db'). row_key r' = row_key r \<and> lr_seq r' = lr_seq r
         \<and> lr_first_seen r' = lr_first_seen r \<and> lr_history r' = lr_history r)
    \<and> (\<forall>r' \<in> set (crm_ledger db'). row_key r' \<notin> row_key ` set (crm_ledger db) \<longrightarrow>
         (\<forall>r \<in> set (crm_ledger db). row_scope r = row_scope r' \<longrightarrow> lr_seq r < lr_seq r'))
    \<and> (\<forall>key sid. read_seq_of key sid db \<le> read_seq_of key sid db')"
proof -
  have ok: "inbox_ok db'" using inbox.steps_inv[OF assms] .
  have grows: "inbox_grows db db'" using inbox.steps_rel[OF assms] .
  have "lr_seq r < lr_seq r'" if "r' \<in> set (crm_ledger db')" "row_key r' \<notin> row_key ` set (crm_ledger db)"
    "r \<in> set (crm_ledger db)" "row_scope r = row_scope r'" for r r'
  proof -
    have "lr_seq r \<le> last_seq db (row_scope r')"
      using assms(2) that(3,4) by (auto simp: inbox_ok_def ledger_ok_def)
    moreover have "last_seq db (row_scope r') < lr_seq r'"
      using grows that(1,2) by (auto simp: inbox_grows_def ledger_grows_def)
    ultimately show ?thesis by linarith
  qed
  then show ?thesis
    using ok grows unfolding inbox_grows_def ledger_grows_def same_origin_def by blast
qed

text \<open>
  Marking a conversation read with a snapshot taken earlier marks exactly up to the snapshot: the mark is the
  larger of the old one and the snapshot's number, every message of the conversation that the snapshot saw is within it,
  and every message that entered the ledger after the snapshot is above the snapshot's number. The encoding of snapshots
  is assumed to be faithful (\<^verbatim>\<open>verify\<close> opens what \<^verbatim>\<open>issue\<close> made).
\<close>

theorem read_mark_boundary:
  assumes "inbox_ok d0" "\<forall>sn. verify (issue sn) = Some sn"
    "take_snapshot canon issue path sid seller data_dir epoch (Some d0) = Inr token"
    "inbox_step\<^sup>*\<^sup>* d0 d1"
    "mark_read canon verify path sid token seller data_dir epoch (Some d1) = (Inr st, Some d2)"
  shows "\<exists>key boundary. inbox_key canon seller data_dir = Inr key
    \<and> st = conversation_of (rows_of key sid d2) (max (read_seq_of key sid d1) boundary)
    \<and> crm_ledger d2 = crm_ledger d1
    \<and> (\<forall>r \<in> set (rows_of key sid d0). lr_seq r \<le> boundary)
    \<and> (\<forall>r \<in> set (rows_of key sid d2). row_key r \<notin> row_key ` set (crm_ledger d0) \<longrightarrow> boundary < lr_seq r)"
  using assms(5)
proof (rule mark_read_ok)
  fix key sn
  assume key: "inbox_key canon seller data_dir = Inr key" and sn: "verify token = Some sn"
    and ledger: "crm_ledger d2 = crm_ledger d1"
    and marks: "\<And>k i. read_seq_of k i d2 = (if (k, i) = (key, sid) then max (read_seq_of k i d1) (nat (sn_seq sn)) else read_seq_of k i d1)"
    and st: "state_in key sid (Some d2) = Some st"
  obtain st0 where st0: "state_in key sid (Some d0) = Some st0"
    and token: "token = issue \<lparr>sn_database = path, sn_key = key, sn_sid = sid, sn_epoch = epoch, sn_seq = int (cs_snapshot_seq st0)\<rparr>"
    using assms(3) key by (auto simp: take_snapshot_def split: if_splits option.splits)
  define boundary where "boundary = max_default 0 (map lr_seq (rows_of key sid d0))"
  have b: "nat (sn_seq sn) = boundary"
    using sn token assms(2) conjunct1[OF state_in_conversation[OF st0]] by (auto simp: boundary_def)
  have seen: "lr_seq r \<le> boundary" if "r \<in> set (rows_of key sid d0)" for r
    using that by (auto simp: boundary_def intro: max_default_bound)
  have "boundary \<le> last_seq d0 key"
    using assms(1) state_in_conversation[OF st0]
    by (auto simp: boundary_def max_default_le rows_of_def inbox_ok_def ledger_ok_def row_at_def row_scope_def)
  moreover have grows: "inbox_grows d0 d1" using inbox.steps_rel[OF assms(4,1)] .
  have "last_seq d0 key < lr_seq r" if "r \<in> set (rows_of key sid d2)" "row_key r \<notin> row_key ` set (crm_ledger d0)" for r
  proof -
    have "r \<in> set (crm_ledger d1)" "row_scope r = key"
      using that(1) ledger by (auto simp: rows_of_def row_at_def row_scope_def)
    then show ?thesis using grows that(2) by (auto simp: inbox_grows_def ledger_grows_def)
  qed
  ultimately have "boundary < lr_seq r" if "r \<in> set (rows_of key sid d2)" "row_key r \<notin> row_key ` set (crm_ledger d0)" for r
    using that by fastforce
  moreover have "st = conversation_of (rows_of key sid d2) (max (read_seq_of key sid d1) boundary)"
    using state_in_conversation[OF st] marks[of key sid] b by simp
  ultimately show ?thesis using key ledger seen by blast
qed

text \<open>A human buyer message that no human reply of the seller is later than.\<close>

definition awaits_reply :: "ledger_row list \<Rightarrow> ledger_row \<Rightarrow> bool" where
  "awaits_reply rows b \<longleftrightarrow> b \<in> set rows \<and> \<not> lr_system b \<and> \<not> lr_auto b \<and> lr_direction b = Inbound
     \<and> (\<forall>s \<in> set rows. \<not> lr_system s \<and> \<not> lr_auto s \<and> lr_direction s = Outbound \<longrightarrow> effective_time s \<le> effective_time b)"

lemma pending_rows_awaits:
  assumes "\<forall>r \<in> set rows. 0 < effective_time r"
  shows "set (pending_rows rows) = {b. awaits_reply rows b}"
proof -
  have "last_reply rows \<le> effective_time b \<longleftrightarrow>
      (\<forall>s \<in> set rows. \<not> lr_system s \<and> \<not> lr_auto s \<and> lr_direction s = Outbound \<longrightarrow> effective_time s \<le> effective_time b)"
    if "b \<in> set rows" for b
    using assms that by (auto simp: last_reply_def max_default_le from_direction_def human_rows_def filter_empty_conv less_imp_le)
  then show ?thesis by (auto simp: pending_rows_def awaits_reply_def from_direction_def human_rows_def)
qed

text \<open>The reply state of a conversation (with positive message times): it needs a reply exactly if some new message of
  the buyer awaits one and no message of unknown origin is as late as all others, with the earliest such message as the time
  it waits since; it is historically pending exactly if all messages that await a reply are history; and a
  conversation that waits for the customer has no message that awaits a reply.
\<close>

theorem reply_state_meaning:
  assumes "\<forall>r \<in> set rows. 0 < effective_time r"
  shows "(cs_reply (conversation_of rows n) = Needs_Reply \<longleftrightarrow>
       \<not> late_unknown rows \<and> (\<exists>b. awaits_reply rows b \<and> \<not> lr_history b))
   \<and> (cs_pending_since (conversation_of rows n) = Some t \<longleftrightarrow>
       (\<exists>b. awaits_reply rows b \<and> \<not> lr_history b \<and> effective_time b = t)
       \<and> (\<forall>b. awaits_reply rows b \<and> \<not> lr_history b \<longrightarrow> t \<le> effective_time b))
   \<and> (cs_reply (conversation_of rows n) = History_Pending \<longleftrightarrow>
       \<not> late_unknown rows \<and> (\<exists>b. awaits_reply rows b) \<and> (\<forall>b. awaits_reply rows b \<longrightarrow> lr_history b))
   \<and> (cs_reply (conversation_of rows n) = Waiting_Customer \<longrightarrow> (\<nexists>b. awaits_reply rows b))"
proof -
  have pending: "pending_rows rows \<noteq> [] \<longleftrightarrow> (\<exists>b. awaits_reply rows b)"
    using pending_rows_awaits[OF assms] by (metis empty_Collect_eq set_empty)
  have fresh: "set (new_pending rows) = {b. awaits_reply rows b \<and> \<not> lr_history b}"
    using pending_rows_awaits[OF assms] by (auto simp: new_pending_def)
  then have none: "new_pending rows = [] \<longleftrightarrow> (\<forall>b. awaits_reply rows b \<longrightarrow> lr_history b)"
    by (metis (no_types, lifting) empty_Collect_eq set_empty)
  have sub: "new_pending rows \<noteq> [] \<Longrightarrow> pending_rows rows \<noteq> []" by (auto simp: new_pending_def)
  have reply: "cs_reply (conversation_of rows n) = (if late_unknown rows then Unknown_Reply
      else if pending_rows rows \<noteq> [] \<and> new_pending rows = [] then History_Pending
      else if pending_rows rows \<noteq> [] then Needs_Reply
      else if from_direction Outbound rows \<noteq> [] then Waiting_Customer else No_Reply_State)"
    by (simp add: conversation_of_def Let_def)
  have since: "cs_pending_since (conversation_of rows n) = min_of (map effective_time (new_pending rows))"
    by (simp add: conversation_of_def Let_def)
  show ?thesis
    unfolding since min_of_Some set_map fresh using pending none sub by (auto simp: reply)
qed

section \<open>Witnesses\<close>

definition demo_zone :: time_zone where
  "demo_zone = \<lparr>tz_iso = (\<lambda>_. None), tz_valid = (\<lambda>_. True)\<rparr>"

definition demo_crm :: crm where
  "demo_crm = \<lparr>crm_sessions = [(1, ''alibaba_icbu:7:8'')], crm_archive = [], crm_sync = None, crm_tables = True,
     crm_scopes = [\<lparr>sc_seller = ''7'', sc_dir = ''/d'', sc_complete = True, sc_last_seq = 0, sc_revision = 1\<rparr>],
     crm_ledger = [], crm_marks = []\<rparr>"

definition demo_question :: crm_message where
  "demo_question = \<lparr>cm_mid = ''m'', cm_sid = 1, cm_sender = PNone,
     cm_content = PDict [(''sender_id'', PStr ''8@icbu''), (''created_at'', PInt 90)],
     cm_type = PNone, cm_created = PInt 90, cm_local = PNone\<rparr>"

definition demo_row1 :: ledger_row where
  "demo_row1 = \<lparr>lr_seller = ''7'', lr_dir = ''/d'', lr_mid = ''m'', lr_sid = 1, lr_seq = 1, lr_first_seen = 100,
     lr_direction = Inbound, lr_occurred = Some 90, lr_system = False, lr_auto = False, lr_history = False\<rparr>"

definition demo_crm1 :: crm where
  "demo_crm1 = demo_crm\<lparr>crm_ledger := [demo_row1],
     crm_scopes := [\<lparr>sc_seller = ''7'', sc_dir = ''/d'', sc_complete = True, sc_last_seq = 1, sc_revision = 2\<rparr>]\<rparr>"

lemma demo_inbox_write:
  "write_inbox id demo_zone (\<lambda>_. []) ''7'' ''/d'' (Some [demo_question]) 100 demo_crm = Inr demo_crm1"
  by code_simp

lemma demo_crm_ok: "inbox_ok demo_crm" "inbox_ok demo_crm1"
  by (simp_all add: inbox_ok_def ledger_ok_def demo_crm_def demo_crm1_def demo_row1_def last_seq_def scope_at_def row_scope_def)

lemma demo_inbox_steps: "inbox_step\<^sup>*\<^sup>* demo_crm demo_crm1"
  by (rule r_into_rtranclp, rule ib_write[OF demo_inbox_write]) (simp add: demo_crm_def)

theorem inbox_ledger_append_only_witness:
  "inbox_ok demo_crm1 \<and> (\<forall>key sid. read_seq_of key sid demo_crm \<le> read_seq_of key sid demo_crm1)"
  using inbox_ledger_append_only[OF demo_inbox_steps demo_crm_ok(1)] by blast

text \<open>A faithful encoding of snapshots as texts, by their number in an enumeration.\<close>

definition demo_issue :: "snapshot \<Rightarrow> string" where
  "demo_issue sn = replicate (to_nat (sn_database sn, sn_key sn, sn_sid sn, sn_epoch sn, sn_seq sn)) CHR ''x''"

definition demo_verify :: "string \<Rightarrow> snapshot option" where
  "demo_verify s = (case from_nat (length s) of (d, k, i, e, q) \<Rightarrow>
     Some \<lparr>sn_database = d, sn_key = k, sn_sid = i, sn_epoch = e, sn_seq = q\<rparr>)"

lemma demo_verify_issue: "demo_verify (demo_issue sn) = Some sn"
  by (simp add: demo_verify_def demo_issue_def)

lemma demo_inbox_key: "inbox_key id ''7'' ''/d'' = Inr (''7'', ''/d'')"
  by (simp add: inbox_key_def py_blank_iff py_space_def canonical_source_dir_def)

lemma demo_state: "state_in (''7'', ''/d'') 1 (Some demo_crm1) = Some (conversation_of [demo_row1] 0)"
  by (simp add: state_in_def inbox_metadata_def rows_of_def read_seq_of_def demo_crm_def demo_crm1_def demo_row1_def
      scope_at_def row_at_def)

definition demo_read_token :: string where
  "demo_read_token = demo_issue \<lparr>sn_database = ''db'', sn_key = (''7'', ''/d''), sn_sid = 1, sn_epoch = None, sn_seq = 1\<rparr>"

lemma demo_taken: "take_snapshot id demo_issue ''db'' 1 ''7'' ''/d'' None (Some demo_crm1) = Inr demo_read_token"
  by (simp add: take_snapshot_def demo_inbox_key demo_state demo_read_token_def) (simp add: demo_row1_def)

theorem read_mark_boundary_witness:
  "\<exists>st d2. mark_read id demo_verify ''db'' 1 demo_read_token ''7'' ''/d'' None (Some demo_crm1) = (Inr st, Some d2)
     \<and> st = conversation_of [demo_row1] 1"
proof -
  let ?m = "\<lparr>rm_seller = ''7'', rm_dir = ''/d'', rm_sid = 1, rm_seq = 1\<rparr>"
  let ?d = "demo_crm1\<lparr>crm_marks := [?m], crm_scopes := [\<lparr>sc_seller = ''7'', sc_dir = ''/d'', sc_complete = True,
      sc_last_seq = 1, sc_revision = 3\<rparr>]\<rparr>"
  have st: "state_in (''7'', ''/d'') 1 (Some ?d) = Some (conversation_of [demo_row1] 1)"
    by (simp add: state_in_def inbox_metadata_def rows_of_def read_seq_of_def demo_crm_def demo_crm1_def demo_row1_def
        scope_at_def row_at_def mark_at_def)
  have run: "mark_read id demo_verify ''db'' 1 demo_read_token ''7'' ''/d'' None (Some demo_crm1) =
      (Inr (conversation_of [demo_row1] 1), Some ?d)"
  proof -
    have one: "lr_seq demo_row1 = 1" by (simp add: demo_row1_def)
    have marked: "demo_crm1\<lparr>crm_marks := put_mark ?m (crm_marks demo_crm1),
        crm_scopes := update_rows (scope_at (''7'', ''/d'')) bump_revision (crm_scopes demo_crm1)\<rparr> = ?d"
      by (simp add: demo_crm1_def demo_crm_def put_mark_def scope_at_def bump_revision_def)
    show ?thesis
      by (simp add: mark_read_def demo_inbox_key demo_state demo_read_token_def demo_verify_issue one
          marked[simplified] st[simplified])
  qed
  from read_mark_boundary[OF demo_crm_ok(2) allI[OF demo_verify_issue] demo_taken rtranclp.rtrancl_refl run]
  show ?thesis using run by blast
qed

theorem reply_state_meaning_witness:
  "cs_reply (conversation_of [demo_row1] 0) = Needs_Reply \<and> cs_pending_since (conversation_of [demo_row1] 0) = Some 90"
proof -
  have awaits: "awaits_reply [demo_row1] b \<longleftrightarrow> b = demo_row1" for b
    by (auto simp: awaits_reply_def demo_row1_def)
  have "\<not> late_unknown [demo_row1]"
    by (simp add: late_unknown_def from_direction_def human_rows_def demo_row1_def)
  moreover have "\<forall>r \<in> set [demo_row1]. 0 < effective_time r" "effective_time demo_row1 = 90" "\<not> lr_history demo_row1"
    by (simp_all add: effective_time_def demo_row1_def)
  ultimately show ?thesis
    using reply_state_meaning[of "[demo_row1]" 0 90] by (simp add: awaits)
qed

end
