(* ===== verification/Portrait_Store.thy ===== *)
theory Portrait_Store
  imports Inbox_Store
begin

text \<open>
  Customer portraits and tags, \<^verbatim>\<open>shared/crm/customer_portrait_store.py\<close>, with the contact resolution
  of \<^verbatim>\<open>shared/crm/views.py\<close>. The state \<open>portrait_db\<close> holds the module's tables and the CRM tables it reads.
  Requests arrive as Python values and are checked field by field, as the code does; the canonical
  JSON text of a checked request is the checked request itself (\<open>batch_payload\<close>). \<open>nfkc\<close> and \<open>casefold\<close> are Unicode's
  normalisation and case folding. A write is one transaction: an error returns the tables it found.
\<close>

section \<open>Errors\<close>

datatype conflict_item = CI_Sid int string | CI_Cid int string "nat option"

datatype portrait_error =
    PE_Value string
  | PE_Type string
  | PE_Conflict string "conflict_item list"
  | PE_Not_Found string
  | PE_Integrity string
  | PE_Not_Ready

type_synonym 'a presult = "portrait_error + 'a"

definition pbind :: "'a presult \<Rightarrow> ('a \<Rightarrow> 'b presult) \<Rightarrow> 'b presult" where
  "pbind r f = (case r of Inl e \<Rightarrow> Inl e | Inr a \<Rightarrow> f a)"

lemma pbind_simps [simp]: "pbind (Inl e) f = Inl e" "pbind (Inr a) f = f a"
  by (simp_all add: pbind_def)

lemma pbind_Inr_iff: "pbind r f = Inr b \<longleftrightarrow> (\<exists>a. r = Inr a \<and> f a = Inr b)"
  by (cases r) auto

definition refuse_if :: "bool \<Rightarrow> portrait_error \<Rightarrow> unit presult" where
  "refuse_if c e = (if c then Inl e else Inr ())"

lemma refuse_if_Inr [simp]: "refuse_if c e = Inr u \<longleftrightarrow> \<not> c"
  by (simp add: refuse_if_def)

section \<open>The contact of a conversation\<close>

record account_row =
  an_aid :: int
  an_cid :: "int option"
  an_extra :: pyval

definition is_self_account :: "account_row \<Rightarrow> bool" where
  "is_self_account a \<longleftrightarrow> pyval_get (an_extra a) ''is_self'' = PBool True"

definition cid_of :: "account_row \<Rightarrow> int option" where
  "cid_of a = (case an_cid a of Some c \<Rightarrow> if 0 < c then Some c else None | None \<Rightarrow> None)"

definition account_at :: "account_row list \<Rightarrow> int \<Rightarrow> account_row option" where
  "account_at accounts aid = find (\<lambda>a. an_aid a = aid) accounts"

definition resolve_contact_cid :: "int list \<Rightarrow> account_row list \<Rightarrow> int option" where
  "resolve_contact_cid participants accounts =
     (let resolved = List.map_filter (account_at accounts) (dedup participants);
          nonself = filter (\<lambda>a. \<not> is_self_account a) resolved;
          second = (if length participants = 2 then account_at accounts (participants ! 1) else None);
          last_resort = (case second of
              Some a \<Rightarrow> if is_self_account a then None else cid_of a
            | None \<Rightarrow> None)
      in if length nonself = 1 then
           (if length participants \<noteq> 2 \<or> second = Some (hd nonself) then cid_of (hd nonself) else last_resort)
         else if 1 < length nonself then
           (case dedup (List.map_filter cid_of nonself) of [c] \<Rightarrow> Some c | _ \<Rightarrow> last_resort)
         else last_resort)"

section \<open>Tables\<close>

record portrait_row =
  pr_seller :: string
  pr_dir :: string
  pr_cid :: int
  pr_stage :: string
  pr_reason :: "string option"
  pr_note :: "string option"
  pr_lost_at :: "pytime option"
  pr_version :: nat
  pr_updated :: pytime

record tag_row =
  tr_id :: string
  tr_name :: string
  tr_key :: string
  tr_description :: string
  tr_archived :: bool
  tr_version :: nat
  tr_created :: pytime
  tr_updated :: pytime

record tag_link =
  tl_seller :: string
  tl_dir :: string
  tl_cid :: int
  tl_tag :: string
  tl_created :: pytime

text \<open>A checked request.\<close>

record batch_target =
  bt_sid :: int
  bt_cid :: int
  bt_version :: nat

record batch_changes =
  bc_stage :: "string option"
  bc_reason_set :: bool
  bc_reason :: "string option"
  bc_note_set :: bool
  bc_note :: "string option"
  bc_add :: "string list"
  bc_remove :: "string list"

record batch_payload =
  bp_targets :: "batch_target list"
  bp_stage :: "string option"
  bp_reason :: "string option"
  bp_note :: "string option"
  bp_add :: "string list"
  bp_remove :: "string list"

record batch_entry =
  be_cid :: int
  be_sids :: "int list"
  be_version :: nat

record batch_result =
  br_request :: string
  br_portrait_revision :: nat
  br_tag_revision :: nat
  br_changed :: "batch_entry list"
  br_unchanged :: "batch_entry list"

record portrait =
  po_stage :: string
  po_reason :: "string option"
  po_note :: "string option"
  po_lost_at :: "pytime option"
  po_version :: nat
  po_updated :: "pytime option"
  po_tags :: "tag_row list"
  po_stored :: bool

text \<open>The audit snapshot of a customer before a batch.\<close>

record audit =
  au_stage :: string
  au_reason :: "string option"
  au_note :: "string option"
  au_lost_at :: "pytime option"
  au_tags :: "(string \<times> string) list"

record operation_row =
  op_request :: string
  op_seller :: string
  op_dir :: string
  op_payload :: batch_payload
  op_results :: batch_result
  op_before :: "(int \<times> audit) list option"
  op_created :: pytime

text \<open>\<open>pd_schema\<close>: the module's tables exist; \<open>pd_chat\<close>: the chat tables exist.\<close>

record portrait_db =
  pd_schema :: bool
  pd_chat :: bool
  pd_ledger :: "ledger_row list"
  pd_sessions :: "(int \<times> pyval list) list"
  pd_accounts :: "account_row list"
  pd_portraits :: "portrait_row list"
  pd_tags :: "tag_row list"
  pd_links :: "tag_link list"
  pd_operations :: "operation_row list"
  pd_revisions :: "(scope_key \<times> nat) list"
  pd_tag_revision :: nat

definition portrait_key :: "(string \<Rightarrow> string) \<Rightarrow> string \<Rightarrow> string \<Rightarrow> scope_key presult" where
  "portrait_key canon seller data_dir =
     (if py_blank seller then Inl (PE_Value ''seller must be a nonempty string'')
      else Inr (seller, canonical_source_dir canon data_dir))"

definition portrait_stages :: "string list" where
  "portrait_stages = [''unknown'', ''new_inquiry'', ''following_up'', ''negotiating'', ''won'', ''dormant'', ''lost'']"

definition lost_reasons :: "string list" where
  "lost_reasons = [''unreachable'', ''price'', ''product_mismatch'', ''delivery'', ''competitor'', ''unclear'']"

definition default_portrait :: portrait where
  "default_portrait = \<lparr>po_stage = ''unknown'', po_reason = None, po_note = None, po_lost_at = None, po_version = 0,
     po_updated = None, po_tags = [], po_stored = False\<rparr>"

section \<open>Reads\<close>

text \<open>The fields that customer views show; without a resolved customer they are fixed and not editable.\<close>

record public_portrait =
  pp_cid :: "int option"
  pp_stage :: string
  pp_tags :: "(string \<times> string \<times> bool) list"
  pp_version :: nat
  pp_reason :: "string option"
  pp_note :: "string option"
  pp_lost_at :: "pytime option"
  pp_editable :: bool

definition public_portrait_fields :: "int option \<Rightarrow> portrait option \<Rightarrow> public_portrait" where
  "public_portrait_fields cid record =
     (let p = (case record of None \<Rightarrow> default_portrait | Some p \<Rightarrow> p)
      in case cid of
           None \<Rightarrow> \<lparr>pp_cid = None, pp_stage = ''unknown'', pp_tags = [], pp_version = 0, pp_reason = None, pp_note = None,
                    pp_lost_at = None, pp_editable = False\<rparr>
         | Some c \<Rightarrow> \<lparr>pp_cid = Some c, pp_stage = (if po_stage p = [] then ''unknown'' else po_stage p),
                      pp_tags = map (\<lambda>t. (tr_id t, tr_name t, tr_archived t)) (po_tags p), pp_version = po_version p,
                      pp_reason = po_reason p, pp_note = po_note p, pp_lost_at = po_lost_at p, pp_editable = True\<rparr>)"

definition portrait_at :: "scope_key \<Rightarrow> int \<Rightarrow> portrait_row \<Rightarrow> bool" where
  "portrait_at key cid r \<longleftrightarrow> pr_seller r = fst key \<and> pr_dir r = snd key \<and> pr_cid r = cid"

definition link_at :: "scope_key \<Rightarrow> int \<Rightarrow> tag_link \<Rightarrow> bool" where
  "link_at key cid l \<longleftrightarrow> tl_seller l = fst key \<and> tl_dir l = snd key \<and> tl_cid l = cid"

definition tag_at :: "portrait_db \<Rightarrow> string \<Rightarrow> tag_row option" where
  "tag_at db tid = find (\<lambda>t. tr_id t = tid) (pd_tags db)"

text \<open>The tags linked to a customer, by name and identifier.\<close>

definition tags_of :: "scope_key \<Rightarrow> int \<Rightarrow> portrait_db \<Rightarrow> tag_row list" where
  "tags_of key cid db =
     sort_key (\<lambda>t. (tr_key t, tr_id t))
       (List.map_filter (\<lambda>l. tag_at db (tl_tag l)) (filter (link_at key cid) (pd_links db)))"

text \<open>\<^verbatim>\<open>load_portrait_bundle\<close> at one customer.\<close>

definition portrait_of :: "scope_key \<Rightarrow> int \<Rightarrow> portrait_db \<Rightarrow> portrait" where
  "portrait_of key cid db =
     (if \<not> pd_schema db then default_portrait
      else (case find (portrait_at key cid) (pd_portraits db) of
              None \<Rightarrow> default_portrait\<lparr>po_tags := tags_of key cid db\<rparr>
            | Some r \<Rightarrow> \<lparr>po_stage = pr_stage r, po_reason = pr_reason r, po_note = pr_note r, po_lost_at = pr_lost_at r,
                po_version = pr_version r, po_updated = Some (pr_updated r), po_tags = tags_of key cid db, po_stored = True\<rparr>))"

definition portrait_records ::
  "(string \<Rightarrow> string) \<Rightarrow> string \<Rightarrow> string \<Rightarrow> int list \<Rightarrow> portrait_db option \<Rightarrow> (int \<times> portrait) list presult" where
  "portrait_records canon seller data_dir cids db =
     pbind (portrait_key canon seller data_dir) (\<lambda>key.
       Inr (map (\<lambda>cid. (cid, case db of None \<Rightarrow> default_portrait | Some d \<Rightarrow> portrait_of key cid d)) (dedup cids)))"

definition scope_revision :: "scope_key \<Rightarrow> portrait_db \<Rightarrow> nat" where
  "scope_revision key db = (case map_of (pd_revisions db) key of None \<Rightarrow> 0 | Some n \<Rightarrow> n)"

definition observe_revisions ::
  "(string \<Rightarrow> string) \<Rightarrow> string \<Rightarrow> string \<Rightarrow> portrait_db option \<Rightarrow> (nat \<times> nat) presult" where
  "observe_revisions canon seller data_dir db =
     (if seller = [] then Inr (0, 0)
      else case db of
        None \<Rightarrow> Inr (0, 0)
      | Some d \<Rightarrow> pbind (portrait_key canon seller data_dir) (\<lambda>key.
          Inr (if pd_schema d then (scope_revision key d, pd_tag_revision d) else (0, 0))))"

definition usage_count :: "scope_key \<Rightarrow> string \<Rightarrow> portrait_db \<Rightarrow> nat" where
  "usage_count key tid db =
     length (filter (\<lambda>l. tl_seller l = fst key \<and> tl_dir l = snd key \<and> tl_tag l = tid) (pd_links db))"

definition tag_catalog ::
  "(string \<Rightarrow> string) \<Rightarrow> string \<Rightarrow> string \<Rightarrow> portrait_db option \<Rightarrow> (tag_row \<times> nat) list presult" where
  "tag_catalog canon seller data_dir db =
     pbind (portrait_key canon seller data_dir) (\<lambda>key.
       Inr (case db of
              None \<Rightarrow> []
            | Some d \<Rightarrow> if \<not> pd_schema d then []
                else map (\<lambda>t. (t, usage_count key (tr_id t) d))
                       (sort_key (\<lambda>t. (tr_archived t, tr_key t, tr_id t)) (pd_tags d))))"

text \<open>The newest first; equal times by the order of insertion.\<close>

definition operations ::
  "(string \<Rightarrow> string) \<Rightarrow> string \<Rightarrow> string \<Rightarrow> int option \<Rightarrow> int \<Rightarrow> portrait_db option \<Rightarrow> (operation_row \<times> batch_entry list) list presult" where
  "operations canon seller data_dir cid limit db =
     (if limit < 1 \<or> 100 < limit then Inl (PE_Value ''limit'')
      else if (case cid of None \<Rightarrow> False | Some c \<Rightarrow> c < 1) then Inl (PE_Value ''cid'')
      else pbind (portrait_key canon seller data_dir) (\<lambda>key.
        Inr (case db of
               None \<Rightarrow> []
             | Some d \<Rightarrow> if \<not> pd_schema d then []
                 else
                   (let rows = rev (sort_key op_created (filter (\<lambda>r. op_seller r = fst key \<and> op_dir r = snd key) (pd_operations d)));
                        targets = (\<lambda>r. filter (\<lambda>e. cid = None \<or> cid = Some (be_cid e))
                          (br_changed (op_results r) @ br_unchanged (op_results r)))
                    in take (nat limit) (filter (\<lambda>rt. cid = None \<or> snd rt \<noteq> []) (map (\<lambda>r. (r, targets r)) rows))))))"

section \<open>Checking a request\<close>

fun positive_int :: "pyval \<Rightarrow> int option" where
  "positive_int (PInt i) = (if 1 \<le> i then Some i else None)"
| "positive_int _ = None"

definition check_target :: "int list \<Rightarrow> pyval \<Rightarrow> batch_target presult" where
  "check_target seen v =
     (case v of
        PDict d \<Rightarrow>
          (case positive_int (dict_get_none d ''sid'') of
             None \<Rightarrow> Inl (PE_Value ''sid'')
           | Some sid \<Rightarrow>
               (case positive_int (dict_get_none d ''expected_cid'') of
                  None \<Rightarrow> Inl (PE_Value ''expected_cid'')
                | Some cid \<Rightarrow>
                    (case (case map_of d ''expected_version'' of None \<Rightarrow> PInt 0 | Some v \<Rightarrow> v) of
                       PInt n \<Rightarrow>
                         if n < 0 then Inl (PE_Value ''expected_version'')
                         else if sid \<in> set seen then Inl (PE_Value ''duplicate sid'')
                         else Inr \<lparr>bt_sid = sid, bt_cid = cid, bt_version = nat n\<rparr>
                     | _ \<Rightarrow> Inl (PE_Value ''expected_version''))))
      | _ \<Rightarrow> Inl (PE_Value ''target''))"

fun check_targets :: "int list \<Rightarrow> pyval list \<Rightarrow> batch_target list presult" where
  "check_targets seen [] = Inr []"
| "check_targets seen (v # vs) =
     pbind (check_target seen v) (\<lambda>t. pbind (check_targets (bt_sid t # seen) vs) (\<lambda>ts. Inr (t # ts)))"

definition normalize_targets :: "pyval \<Rightarrow> batch_target list presult" where
  "normalize_targets v =
     (case v of
        PList vs \<Rightarrow>
          if vs = [] then Inl (PE_Value ''targets'')
          else if 50 < length vs then Inl (PE_Value ''too many targets'')
          else pbind (check_targets [] vs) (\<lambda>ts. Inr (sort_key bt_sid ts))
      | _ \<Rightarrow> Inl (PE_Value ''targets''))"

definition change_fields :: "string list" where
  "change_fields = [''stage'', ''lost_reason'', ''lost_note'', ''add_tag_ids'', ''remove_tag_ids'']"

text \<open>\<^verbatim>\<open>list(dict.fromkeys(xs or []))\<close> needs hashable members; the members must then be nonempty strings.\<close>

fun unhashable :: "pyval \<Rightarrow> bool" where
  "unhashable (PList _) = True"
| "unhashable (PDict _) = True"
| "unhashable _ = False"

definition tag_list :: "pyval \<Rightarrow> pyval list presult" where
  "tag_list v = (case v of PNone \<Rightarrow> Inr [] | PList xs \<Rightarrow> Inr xs | _ \<Rightarrow> Inl (PE_Value ''tag ids''))"

fun text_of :: "pyval \<Rightarrow> string" where
  "text_of (PStr s) = s"
| "text_of _ = []"

text \<open>An optional text among given choices.\<close>

definition choice :: "string list \<Rightarrow> string \<Rightarrow> pyval \<Rightarrow> string option presult" where
  "choice options what v =
     (case v of
        PNone \<Rightarrow> Inr None
      | PStr s \<Rightarrow> if s \<in> set options then Inr (Some s) else Inl (PE_Value what)
      | _ \<Rightarrow> Inl (PE_Value what))"

definition note_of :: "pyval \<Rightarrow> string option presult" where
  "note_of v =
     (case v of
        PNone \<Rightarrow> Inr None
      | PStr s \<Rightarrow> if 500 < length s then Inl (PE_Value ''lost_note'')
                  else Inr (if py_strip s = [] then None else Some (py_strip s))
      | _ \<Rightarrow> Inl (PE_Value ''lost_note''))"

definition normalize_changes :: "pyval \<Rightarrow> batch_changes presult" where
  "normalize_changes v =
     (case v of
        PDict d \<Rightarrow>
          if \<exists>k \<in> fst ` set d. k \<notin> set change_fields then Inl (PE_Value ''unknown field'')
          else
            pbind (choice portrait_stages ''stage'' (dict_get_none d ''stage'')) (\<lambda>stage.
            pbind (choice lost_reasons ''lost_reason'' (dict_get_none d ''lost_reason'')) (\<lambda>reason.
            pbind (note_of (dict_get_none d ''lost_note'')) (\<lambda>note.
            pbind (tag_list (dict_get_none d ''add_tag_ids'')) (\<lambda>adds.
            pbind (tag_list (dict_get_none d ''remove_tag_ids'')) (\<lambda>removes.
            pbind (refuse_if (\<exists>x \<in> set (adds @ removes). unhashable x) (PE_Type ''unhashable type'')) (\<lambda>_.
            pbind (refuse_if (\<exists>x \<in> set (adds @ removes). \<not> nonempty_str x) (PE_Value ''tag ids'')) (\<lambda>_.
              let add = dedup (map text_of adds); remove = dedup (map text_of removes);
                  note_set = (dict_get_none d ''lost_note'' \<noteq> PNone)
              in if \<exists>x \<in> set add. x \<in> set remove then Inl (PE_Value ''tag added and removed'')
                 else if stage = None \<and> add = [] \<and> remove = [] \<and> reason = None \<and> \<not> note_set
                 then Inl (PE_Value ''no change'')
                 else Inr \<lparr>bc_stage = stage, bc_reason_set = (reason \<noteq> None), bc_reason = reason,
                        bc_note_set = note_set, bc_note = note, bc_add = add, bc_remove = remove\<rparr>)))))))
      | _ \<Rightarrow> Inl (PE_Value ''changes''))"

definition canonical_payload :: "batch_target list \<Rightarrow> batch_changes \<Rightarrow> batch_payload" where
  "canonical_payload ts c =
     \<lparr>bp_targets = ts, bp_stage = bc_stage c, bp_reason = (if bc_reason_set c then bc_reason c else None),
      bp_note = (if bc_note_set c then bc_note c else None), bp_add = bc_add c, bp_remove = bc_remove c\<rparr>"

section \<open>Applying a batch\<close>

text \<open>\<^verbatim>\<open>resolve_scope_contacts\<close>: is the session visible and known, and whose is it?\<close>

definition session_known :: "scope_key \<Rightarrow> portrait_db \<Rightarrow> int \<Rightarrow> bool" where
  "session_known key db sid \<longleftrightarrow>
     (\<exists>r \<in> set (pd_ledger db). row_at key r \<and> lr_sid r = sid) \<and> sid \<in> fst ` set (pd_sessions db)"

definition participants_of :: "portrait_db \<Rightarrow> int \<Rightarrow> int list" where
  "participants_of db sid =
     (case map_of (pd_sessions db) sid of
        None \<Rightarrow> []
      | Some vs \<Rightarrow> List.map_filter (\<lambda>v. case v of PInt i \<Rightarrow> Some i | _ \<Rightarrow> None) vs)"

definition contact_of :: "portrait_db \<Rightarrow> int \<Rightarrow> int option" where
  "contact_of db sid = resolve_contact_cid (participants_of db sid) (pd_accounts db)"

definition target_conflict :: "scope_key \<Rightarrow> portrait_db \<Rightarrow> batch_target \<Rightarrow> conflict_item option" where
  "target_conflict key db t =
     (if \<not> session_known key db (bt_sid t) then Some (CI_Sid (bt_sid t) ''not_visible'')
      else case contact_of db (bt_sid t) of
             None \<Rightarrow> Some (CI_Sid (bt_sid t) ''identity_unresolved'')
           | Some c \<Rightarrow> if c \<noteq> bt_cid t then Some (CI_Sid (bt_sid t) ''identity_changed'') else None)"

text \<open>The targets of a customer, and whether they agree on its present version.\<close>

definition customer_conflict :: "scope_key \<Rightarrow> portrait_db \<Rightarrow> batch_target list \<Rightarrow> int \<Rightarrow> conflict_item option" where
  "customer_conflict key db ts cid =
     (case dedup (map bt_version (filter (\<lambda>t. bt_cid t = cid) ts)) of
        [v] \<Rightarrow> if v \<noteq> po_version (portrait_of key cid db)
               then Some (CI_Cid cid ''version_changed'' (Some (po_version (portrait_of key cid db)))) else None
      | _ \<Rightarrow> Some (CI_Cid cid ''target_version_mismatch'' None))"

definition new_stage :: "batch_changes \<Rightarrow> portrait \<Rightarrow> string" where
  "new_stage c p = (case bc_stage c of Some st \<Rightarrow> st | None \<Rightarrow> po_stage p)"

text \<open>Reason, note and time of a loss exist only in the lost stage.\<close>

definition changed_portrait :: "batch_changes \<Rightarrow> pytime \<Rightarrow> portrait \<Rightarrow> portrait" where
  "changed_portrait c now p =
     (if new_stage c p = ''lost''
      then p\<lparr>po_stage := ''lost'',
             po_reason := (if bc_reason_set c then bc_reason c else po_reason p),
             po_note := (if bc_note_set c then bc_note c else po_note p),
             po_lost_at := (if po_stage p = ''lost'' \<and> po_lost_at p \<noteq> None then po_lost_at p else Some now)\<rparr>
      else p\<lparr>po_stage := new_stage c p, po_reason := None, po_note := None, po_lost_at := None\<rparr>)"

definition add_now :: "batch_changes \<Rightarrow> portrait \<Rightarrow> string list" where
  "add_now c p = filter (\<lambda>tid. tid \<notin> tr_id ` set (po_tags p)) (bc_add c)"

definition remove_now :: "batch_changes \<Rightarrow> portrait \<Rightarrow> string list" where
  "remove_now c p = filter (\<lambda>tid. tid \<in> tr_id ` set (po_tags p)) (bc_remove c)"

definition portrait_to_row :: "scope_key \<Rightarrow> int \<Rightarrow> portrait \<Rightarrow> pytime \<Rightarrow> portrait_row" where
  "portrait_to_row key cid p now =
     \<lparr>pr_seller = fst key, pr_dir = snd key, pr_cid = cid, pr_stage = po_stage p, pr_reason = po_reason p,
      pr_note = po_note p, pr_lost_at = po_lost_at p, pr_version = po_version p + 1, pr_updated = now\<rparr>"

definition add_link :: "scope_key \<Rightarrow> int \<Rightarrow> pytime \<Rightarrow> string \<Rightarrow> tag_link list \<Rightarrow> tag_link list" where
  "add_link key cid now tid ls =
     (if \<exists>l \<in> set ls. link_at key cid l \<and> tl_tag l = tid then ls
      else ls @ [\<lparr>tl_seller = fst key, tl_dir = snd key, tl_cid = cid, tl_tag = tid, tl_created = now\<rparr>])"

definition remove_link :: "scope_key \<Rightarrow> int \<Rightarrow> string \<Rightarrow> tag_link list \<Rightarrow> tag_link list" where
  "remove_link key cid tid ls = filter (\<lambda>l. \<not> (link_at key cid l \<and> tl_tag l = tid)) ls"

definition write_portrait :: "scope_key \<Rightarrow> batch_changes \<Rightarrow> pytime \<Rightarrow> int \<Rightarrow> portrait \<Rightarrow> portrait_db \<Rightarrow> portrait_db" where
  "write_portrait key c now cid p db =
     (let row = portrait_to_row key cid (changed_portrait c now p) now
      in db\<lparr>pd_portraits := (if po_stored p then update_rows (portrait_at key cid) (\<lambda>_. row) (pd_portraits db)
                             else pd_portraits db @ [row]),
            pd_links := fold (remove_link key cid) (remove_now c p)
              (fold (add_link key cid now) (add_now c p) (pd_links db))\<rparr>)"

definition portrait_unchanged :: "batch_changes \<Rightarrow> pytime \<Rightarrow> portrait \<Rightarrow> bool" where
  "portrait_unchanged c now p \<longleftrightarrow> changed_portrait c now p = p \<and> add_now c p = [] \<and> remove_now c p = []"

definition batch_entry_of :: "batch_target list \<Rightarrow> int \<Rightarrow> nat \<Rightarrow> batch_entry" where
  "batch_entry_of ts cid v =
     \<lparr>be_cid = cid, be_sids = sort (map bt_sid (filter (\<lambda>t. bt_cid t = cid) ts)), be_version = v\<rparr>"

text \<open>The loop over the customers; \<open>db0\<close> is the state the portraits were read from.\<close>

fun apply_customers ::
  "scope_key \<Rightarrow> batch_changes \<Rightarrow> pytime \<Rightarrow> batch_target list \<Rightarrow> portrait_db \<Rightarrow> int list \<Rightarrow> portrait_db
     \<Rightarrow> portrait_db \<times> batch_entry list \<times> batch_entry list" where
  "apply_customers key c now ts db0 [] db = (db, [], [])"
| "apply_customers key c now ts db0 (cid # cids) db =
     (let p = portrait_of key cid db0
      in if portrait_unchanged c now p
         then (case apply_customers key c now ts db0 cids db of
                 (db', changed, unchanged) \<Rightarrow> (db', changed, batch_entry_of ts cid (po_version p) # unchanged))
         else (case apply_customers key c now ts db0 cids (write_portrait key c now cid p db) of
                 (db', changed, unchanged) \<Rightarrow> (db', batch_entry_of ts cid (po_version p + 1) # changed, unchanged)))"

definition audit_of :: "portrait \<Rightarrow> audit" where
  "audit_of p = \<lparr>au_stage = po_stage p, au_reason = po_reason p, au_note = po_note p, au_lost_at = po_lost_at p,
                 au_tags = map (\<lambda>t. (tr_id t, tr_name t)) (po_tags p)\<rparr>"

definition ensure_schema :: "portrait_db \<Rightarrow> portrait_db" where
  "ensure_schema db = db\<lparr>pd_schema := True\<rparr>"

definition tag_checks :: "portrait_db \<Rightarrow> batch_changes \<Rightarrow> unit presult" where
  "tag_checks db c =
     pbind (refuse_if (\<exists>tid \<in> set (bc_add c). case tag_at db tid of None \<Rightarrow> True | Some t \<Rightarrow> tr_archived t)
       (PE_Value ''tag cannot be added'')) (\<lambda>_.
     refuse_if (\<exists>tid \<in> set (bc_remove c). tag_at db tid = None) (PE_Value ''tag cannot be removed''))"

definition apply_new ::
  "scope_key \<Rightarrow> string \<Rightarrow> batch_target list \<Rightarrow> batch_changes \<Rightarrow> pytime \<Rightarrow> portrait_db \<Rightarrow> (batch_result \<times> portrait_db) presult" where
  "apply_new key request ts c now db =
     pbind (refuse_if (\<not> pd_chat db) (PE_Conflict ''chat data not ready'' [])) (\<lambda>_.
       let sid_conflicts = List.map_filter (target_conflict key db) ts;
           good = filter (\<lambda>t. target_conflict key db t = None) ts;
           cids = dedup (map bt_cid good);
           conflicts = sid_conflicts @ List.map_filter (customer_conflict key db good) cids
       in pbind (refuse_if ((bc_reason_set c \<or> bc_note_set c) \<and> (\<exists>cid \<in> set cids. new_stage c (portrait_of key cid db) \<noteq> ''lost''))
                   (PE_Value ''reason outside the lost stage'')) (\<lambda>_.
          pbind (tag_checks db c) (\<lambda>_.
          pbind (refuse_if (conflicts \<noteq> []) (PE_Conflict ''targets changed'' conflicts)) (\<lambda>_.
            let (db', changed, unchanged) = apply_customers key c now good db (sort cids) db;
                db'' = (if changed = [] then db' else db'\<lparr>pd_revisions := alist_put key (scope_revision key db' + 1) (pd_revisions db')\<rparr>);
                result = \<lparr>br_request = request, br_portrait_revision = scope_revision key db'', br_tag_revision = pd_tag_revision db'',
                          br_changed = changed, br_unchanged = unchanged\<rparr>;
                operation = \<lparr>op_request = request, op_seller = fst key, op_dir = snd key, op_payload = canonical_payload ts c,
                             op_results = result, op_before = Some (map (\<lambda>cid. (cid, audit_of (portrait_of key cid db))) (sort cids)),
                             op_created = now\<rparr>
            in Inr (result, db''\<lparr>pd_operations := pd_operations db'' @ [operation]\<rparr>)))))"

text \<open>\<^verbatim>\<open>apply\<close>: None is an absent database.\<close>

definition apply_batch ::
  "(string \<Rightarrow> string) \<Rightarrow> string \<Rightarrow> string \<Rightarrow> string \<Rightarrow> pyval \<Rightarrow> pyval \<Rightarrow> pytime \<Rightarrow> portrait_db option
     \<Rightarrow> batch_result presult \<times> portrait_db option" where
  "apply_batch canon seller data_dir request targets changes now db =
     (case db of
        None \<Rightarrow> (pbind (portrait_key canon seller data_dir) (\<lambda>_. Inl PE_Not_Ready), None)
      | Some d \<Rightarrow>
          (let checked =
             pbind (portrait_key canon seller data_dir) (\<lambda>key.
             pbind (refuse_if (py_blank request \<or> 64 < length request) (PE_Value ''request id'')) (\<lambda>_.
             pbind (normalize_targets targets) (\<lambda>ts.
             pbind (normalize_changes changes) (\<lambda>c. Inr (key, ts, c)))))
           in case checked of
                Inl e \<Rightarrow> (Inl e, db)
              | Inr (key, ts, c) \<Rightarrow>
                  (let d' = ensure_schema d
                   in case find (\<lambda>r. op_request r = request) (pd_operations d') of
                        Some prior \<Rightarrow>
                          if op_seller prior \<noteq> fst key \<or> op_dir prior \<noteq> snd key
                          then (Inl (PE_Conflict ''request used in another workspace'' []), db)
                          else if op_payload prior \<noteq> canonical_payload ts c
                          then (Inl (PE_Conflict ''request used for another operation'' []), db)
                          else (Inr (op_results prior), Some d')
                      | None \<Rightarrow>
                          (case apply_new key request ts c now d' of
                             Inl e \<Rightarrow> (Inl e, db)
                           | Inr (result, d'') \<Rightarrow> (Inr result, Some d'')))))"

section \<open>Tags\<close>

definition normalize_tag_name :: "(string \<Rightarrow> string) \<Rightarrow> string \<Rightarrow> string presult" where
  "normalize_tag_name nfkc v =
     (let name = py_strip (nfkc v)
      in if name = [] then Inl (PE_Value ''empty tag name'')
         else if 40 < length name then Inl (PE_Value ''tag name too long'') else Inr name)"

definition normalize_tag_description :: "(string \<Rightarrow> string) \<Rightarrow> string option \<Rightarrow> string presult" where
  "normalize_tag_description nfkc v =
     (case v of
        None \<Rightarrow> Inr []
      | Some s \<Rightarrow> if 200 < length (py_strip (nfkc s)) then Inl (PE_Value ''tag description too long'')
                  else Inr (py_strip (nfkc s)))"

definition create_tag ::
  "(string \<Rightarrow> string) \<Rightarrow> (string \<Rightarrow> string) \<Rightarrow> string \<Rightarrow> pytime \<Rightarrow> string \<Rightarrow> string option \<Rightarrow> portrait_db option
     \<Rightarrow> tag_row presult \<times> portrait_db option" where
  "create_tag nfkc casefold fresh now name description db =
     (case db of
        None \<Rightarrow> (Inl PE_Not_Ready, None)
      | Some d \<Rightarrow>
          (case pbind (normalize_tag_name nfkc name) (\<lambda>label.
                  pbind (normalize_tag_description nfkc description) (\<lambda>desc. Inr (label, desc))) of
             Inl e \<Rightarrow> (Inl e, db)
           | Inr (label, desc) \<Rightarrow>
               (let d' = ensure_schema d
                in if casefold label \<in> tr_key ` set (pd_tags d') then (Inl (PE_Conflict ''tag exists'' []), db)
                   else if fresh \<in> tr_id ` set (pd_tags d')
                   then (Inl (PE_Integrity ''UNIQUE constraint failed: app_portrait_tag.tag_id''), db)
                   else
                     (let tag = \<lparr>tr_id = fresh, tr_name = label, tr_key = casefold label, tr_description = desc,
                                 tr_archived = False, tr_version = 1, tr_created = now, tr_updated = now\<rparr>
                      in (Inr tag, Some (d'\<lparr>pd_tags := pd_tags d' @ [tag], pd_tag_revision := pd_tag_revision d' + 1\<rparr>))))))"

text \<open>The three optional updates of a tag, in the code's order.\<close>

definition rename_tag ::
  "(string \<Rightarrow> string) \<Rightarrow> (string \<Rightarrow> string) \<Rightarrow> string option \<Rightarrow> tag_row list \<Rightarrow> tag_row \<Rightarrow> tag_row presult" where
  "rename_tag nfkc casefold name tags row =
     (case name of
        None \<Rightarrow> Inr row
      | Some n \<Rightarrow>
          pbind (normalize_tag_name nfkc n) (\<lambda>label.
            if casefold label = tr_key row then Inr row
            else if \<exists>t \<in> set tags. tr_key t = casefold label \<and> tr_id t \<noteq> tr_id row then Inl (PE_Conflict ''tag exists'' [])
            else Inr (row\<lparr>tr_name := label, tr_key := casefold label\<rparr>)))"

definition describe_tag :: "(string \<Rightarrow> string) \<Rightarrow> string option \<Rightarrow> tag_row \<Rightarrow> tag_row presult" where
  "describe_tag nfkc description row =
     (case description of
        None \<Rightarrow> Inr row
      | Some s \<Rightarrow> pbind (normalize_tag_description nfkc (Some s)) (\<lambda>desc. Inr (row\<lparr>tr_description := desc\<rparr>)))"

definition update_tag ::
  "(string \<Rightarrow> string) \<Rightarrow> (string \<Rightarrow> string) \<Rightarrow> (string \<Rightarrow> string) \<Rightarrow> string \<Rightarrow> string \<Rightarrow> string \<Rightarrow> string option \<Rightarrow> string option
     \<Rightarrow> bool option \<Rightarrow> pytime \<Rightarrow> portrait_db option \<Rightarrow> (tag_row \<times> nat) presult \<times> portrait_db option" where
  "update_tag canon nfkc casefold seller data_dir tid name description archived now db =
     (case portrait_key canon seller data_dir of
        Inl e \<Rightarrow> (Inl e, db)
      | Inr key \<Rightarrow>
          (case db of
             None \<Rightarrow> (Inl PE_Not_Ready, None)
           | Some d \<Rightarrow>
               if tid = [] then (Inl (PE_Value ''tag id''), db)
               else
                 (let d' = ensure_schema d
                  in case tag_at d' tid of
                       None \<Rightarrow> (Inl (PE_Not_Found ''tag''), db)
                     | Some row \<Rightarrow>
                         (case pbind (rename_tag nfkc casefold name (pd_tags d') row) (\<lambda>r1.
                                 pbind (describe_tag nfkc description r1) (\<lambda>r2.
                                   Inr (case archived of None \<Rightarrow> r2 | Some b \<Rightarrow> r2\<lparr>tr_archived := b\<rparr>))) of
                            Inl e \<Rightarrow> (Inl e, db)
                          | Inr r3 \<Rightarrow>
                              if r3 = row then (Inr (row, usage_count key tid d'), Some d')
                              else
                                (let r4 = r3\<lparr>tr_version := tr_version row + 1, tr_updated := now\<rparr>
                                 in (Inr (r4, usage_count key tid d'),
                                     Some (d'\<lparr>pd_tags := update_rows (\<lambda>t. tr_id t = tid) (\<lambda>_. r4) (pd_tags d'),
                                              pd_tag_revision := pd_tag_revision d' + 1\<rparr>)))))))"

end
