(* ===== verification/Portrait_Store_Props.thy ===== *)
theory Portrait_Store_Props
  imports Portrait_Store
begin

text \<open>
  The portrait tables as a transition system: each call of \<^verbatim>\<open>apply\<close>, \<^verbatim>\<open>create_tag\<close> or \<^verbatim>\<open>update_tag\<close>, and any change
  of the chat tables by other code. The invariant holds the keys unique and the facts of a loss confined to the lost
  stage; the relation to later states says that recorded operations stay. The rest is the functional
  behaviour of a batch: which requests it accepts and what it writes.
\<close>

section \<open>One customer's row\<close>

definition row_of :: "scope_key \<Rightarrow> int \<Rightarrow> portrait_row list \<Rightarrow> portrait_row option" where
  "row_of key cid rows = find (portrait_at key cid) rows"

lemma portrait_at_unique: "portrait_at k i r \<Longrightarrow> portrait_at k' i' r \<longleftrightarrow> k' = k \<and> i' = i"
  by (cases k; cases k') (auto simp: portrait_at_def)

lemma portrait_to_row_at [simp]: "portrait_at k i (portrait_to_row key cid p now) \<longleftrightarrow> k = key \<and> i = cid"
  by (cases k; cases key) (auto simp: portrait_at_def portrait_to_row_def)

lemma row_of_append: "row_of k i (rows @ [r]) =
    (case row_of k i rows of None \<Rightarrow> if portrait_at k i r then Some r else None | Some x \<Rightarrow> Some x)"
  by (induction rows) (auto simp: row_of_def)

lemma row_of_update:
  assumes "portrait_at key cid row"
  shows "row_of k i (update_rows (portrait_at key cid) (\<lambda>_. row) rows) =
    (if k = key \<and> i = cid then map_option (\<lambda>_. row) (row_of k i rows) else row_of k i rows)"
proof (induction rows)
  case (Cons x rows)
  show ?case
  proof (cases "portrait_at key cid x")
    case True
    then show ?thesis using Cons portrait_at_unique[OF assms] portrait_at_unique[OF True] by (auto simp: row_of_def)
  next
    case False
    then show ?thesis using Cons by (auto simp: row_of_def)
  qed
qed (simp add: row_of_def)

lemma portrait_of_stored: "pd_schema db \<Longrightarrow> po_stored (portrait_of key cid db) \<longleftrightarrow> row_of key cid (pd_portraits db) \<noteq> None"
  by (auto simp: portrait_of_def row_of_def default_portrait_def split: option.splits)

section \<open>The customers of a batch\<close>

definition batch_row :: "scope_key \<Rightarrow> batch_changes \<Rightarrow> pytime \<Rightarrow> portrait_db \<Rightarrow> int \<Rightarrow> portrait_row" where
  "batch_row key c now db cid = portrait_to_row key cid (changed_portrait c now (portrait_of key cid db)) now"

lemma write_portrait_row:
  assumes "po_stored p \<longleftrightarrow> row_of key cid (pd_portraits db) \<noteq> None"
  shows "row_of k i (pd_portraits (write_portrait key c now cid p db)) =
    (if k = key \<and> i = cid then Some (portrait_to_row key cid (changed_portrait c now p) now) else row_of k i (pd_portraits db))"
  using assms by (auto simp: write_portrait_def Let_def row_of_append row_of_update split: option.splits)

lemma apply_customers_rows:
  assumes "distinct cids" "pd_schema db0" "\<forall>cid \<in> set cids. row_of key cid (pd_portraits db) = row_of key cid (pd_portraits db0)"
    "apply_customers key c now ts db0 cids db = (db', changed, unchanged)"
  shows "row_of k i (pd_portraits db') =
    (if k = key \<and> i \<in> set cids \<and> \<not> portrait_unchanged c now (portrait_of key i db0)
     then Some (batch_row key c now db0 i) else row_of k i (pd_portraits db))"
  using assms
proof (induction cids arbitrary: db db' changed unchanged)
  case (Cons cid cids)
  define p where "p = portrait_of key cid db0"
  show ?case
  proof (cases "portrait_unchanged c now p")
    case True
    then obtain u' where "apply_customers key c now ts db0 cids db = (db', changed, u')"
      using Cons.prems(4) by (auto simp: p_def Let_def split: prod.splits)
    from Cons.IH[OF _ Cons.prems(2) _ this] Cons.prems(1,3) show ?thesis using True by (auto simp: p_def)
  next
    case False
    define u where "u = write_portrait key c now cid p db"
    obtain c' where rest: "apply_customers key c now ts db0 cids u = (db', c', unchanged)"
      using Cons.prems(4) False by (auto simp: p_def u_def Let_def split: prod.splits)
    have stored: "po_stored p \<longleftrightarrow> row_of key cid (pd_portraits db) \<noteq> None"
      using portrait_of_stored[OF Cons.prems(2)] Cons.prems(3) by (simp add: p_def)
    note row = write_portrait_row[OF stored, of _ _ c now]
    have "\<forall>x \<in> set cids. row_of key x (pd_portraits u) = row_of key x (pd_portraits db0)"
      using Cons.prems(1,3) row by (auto simp: u_def)
    from Cons.IH[OF _ Cons.prems(2) this rest] Cons.prems(1) show ?thesis
      using False row by (auto simp: p_def u_def batch_row_def)
  qed
qed simp

lemma apply_customers_entries:
  "apply_customers key c now ts db0 cids db = (db', changed, unchanged) \<Longrightarrow>
     changed = map (\<lambda>cid. batch_entry_of ts cid (po_version (portrait_of key cid db0) + 1))
       (filter (\<lambda>cid. \<not> portrait_unchanged c now (portrait_of key cid db0)) cids)"
  by (induction cids arbitrary: db db' changed unchanged) (auto simp: Let_def split: if_splits prod.splits)

section \<open>Invariant\<close>

definition loss_ok :: "portrait_row \<Rightarrow> bool" where
  "loss_ok r \<longleftrightarrow> 1 \<le> pr_version r
     \<and> (pr_stage r = ''lost'' \<longrightarrow> pr_lost_at r \<noteq> None)
     \<and> (pr_stage r \<noteq> ''lost'' \<longrightarrow> pr_reason r = None \<and> pr_note r = None \<and> pr_lost_at r = None)"

definition pkey :: "portrait_row \<Rightarrow> scope_key \<times> int" where
  "pkey r = ((pr_seller r, pr_dir r), pr_cid r)"

definition lkey :: "tag_link \<Rightarrow> (scope_key \<times> int) \<times> string" where
  "lkey l = (((tl_seller l, tl_dir l), tl_cid l), tl_tag l)"

definition portraits_ok :: "portrait_db \<Rightarrow> bool" where
  "portraits_ok db \<longleftrightarrow> distinct (map pkey (pd_portraits db)) \<and> (\<forall>r \<in> set (pd_portraits db). loss_ok r)
     \<and> distinct (map lkey (pd_links db))
     \<and> distinct (map tr_id (pd_tags db)) \<and> distinct (map tr_key (pd_tags db))
     \<and> distinct (map op_request (pd_operations db))"

definition operations_kept :: "portrait_db \<Rightarrow> portrait_db \<Rightarrow> bool" where
  "operations_kept db db' \<longleftrightarrow> set (pd_operations db) \<subseteq> set (pd_operations db')"

lemma pkey_at: "portrait_at k i r \<longleftrightarrow> pkey r = (k, i)"
  by (cases k) (auto simp: portrait_at_def pkey_def)

lemma link_at_lkey: "link_at k i l \<and> tl_tag l = t \<longleftrightarrow> lkey l = ((k, i), t)"
  by (cases k) (auto simp: link_at_def lkey_def)

lemma fold_keep: "(\<And>x s. P s \<Longrightarrow> P (f x s)) \<Longrightarrow> P s \<Longrightarrow> P (fold f xs s)"
  by (induction xs arbitrary: s) auto

lemma changed_portrait_loss:
  "loss_ok (portrait_to_row key cid (changed_portrait c now p) now)"
  by (auto simp: loss_ok_def portrait_to_row_def changed_portrait_def)

lemma links_distinct:
  assumes "distinct (map lkey ls)"
  shows "distinct (map lkey (add_link key cid now tid ls))" "distinct (map lkey (remove_link key cid tid ls))"
proof -
  have "lkey \<lparr>tl_seller = fst key, tl_dir = snd key, tl_cid = cid, tl_tag = tid, tl_created = now\<rparr> = ((key, cid), tid)"
    by (simp add: lkey_def)
  then show "distinct (map lkey (add_link key cid now tid ls))"
    using assms by (auto simp: add_link_def link_at_lkey)
  show "distinct (map lkey (remove_link key cid tid ls))"
    using assms by (simp add: remove_link_def distinct_map_filter)
qed

lemma write_portrait_ok:
  assumes "portraits_ok db" "po_stored p \<longleftrightarrow> row_of key cid (pd_portraits db) \<noteq> None"
  shows "portraits_ok (write_portrait key c now cid p db)"
proof -
  define row where "row = portrait_to_row key cid (changed_portrait c now p) now"
  have key: "pkey row = (key, cid)" by (simp add: row_def pkey_def portrait_to_row_def)
  have loss: "loss_ok row" using changed_portrait_loss by (simp add: row_def)
  have links: "distinct (map lkey (fold (remove_link key cid) (remove_now c p) (fold (add_link key cid now) (add_now c p) (pd_links db))))"
    using assms(1) links_distinct by (intro fold_keep[where P = "\<lambda>ls. distinct (map lkey ls)"]) (auto simp: portraits_ok_def)
  have "map pkey (update_rows (portrait_at key cid) (\<lambda>_. row) (pd_portraits db)) = map pkey (pd_portraits db)"
    using key by (intro map_key_update_rows) (simp add: pkey_at)
  moreover have "(key, cid) \<notin> pkey ` set (pd_portraits db)" if "\<not> po_stored p"
    using assms(2) that by (auto simp: row_of_def find_None_iff pkey_at)
  ultimately show ?thesis
    using assms(1) key loss links
    by (auto simp: portraits_ok_def write_portrait_def Let_def row_def[symmetric] set_update_rows)
qed

lemma write_portrait_fields [simp]:
  "pd_operations (write_portrait key c now cid p db) = pd_operations db"
  "pd_tags (write_portrait key c now cid p db) = pd_tags db"
  "pd_schema (write_portrait key c now cid p db) = pd_schema db"
  by (simp_all add: write_portrait_def Let_def)

lemma apply_customers_ok:
  assumes "distinct cids" "pd_schema db0" "\<forall>cid \<in> set cids. row_of key cid (pd_portraits db) = row_of key cid (pd_portraits db0)"
    "apply_customers key c now ts db0 cids db = (db', changed, unchanged)" "portraits_ok db"
  shows "portraits_ok db' \<and> pd_operations db' = pd_operations db"
  using assms
proof (induction cids arbitrary: db db' changed unchanged)
  case (Cons cid cids)
  define p where "p = portrait_of key cid db0"
  show ?case
  proof (cases "portrait_unchanged c now p")
    case True
    then obtain u' where "apply_customers key c now ts db0 cids db = (db', changed, u')"
      using Cons.prems(4) by (auto simp: p_def Let_def split: prod.splits)
    from Cons.IH[OF _ Cons.prems(2) _ this] Cons.prems show ?thesis by simp
  next
    case False
    define u where "u = write_portrait key c now cid p db"
    obtain c' where rest: "apply_customers key c now ts db0 cids u = (db', c', unchanged)"
      using Cons.prems(4) False by (auto simp: p_def u_def Let_def split: prod.splits)
    have stored: "po_stored p \<longleftrightarrow> row_of key cid (pd_portraits db) \<noteq> None"
      using portrait_of_stored[OF Cons.prems(2)] Cons.prems(3) by (simp add: p_def)
    have "\<forall>x \<in> set cids. row_of key x (pd_portraits u) = row_of key x (pd_portraits db0)"
      using Cons.prems(1,3) write_portrait_row[OF stored, of _ _ c now] by (auto simp: u_def)
    from Cons.IH[OF _ Cons.prems(2) this rest] Cons.prems(1) write_portrait_ok[OF Cons.prems(5) stored, of c now]
    show ?thesis by (simp add: u_def)
  qed
qed simp

section \<open>A batch that is applied\<close>

text \<open>What a successful new batch was checked against, and the parts of its new state.\<close>

lemma apply_new_ok:
  assumes "apply_new key request ts c now db = Inr (r, db')"
  obtains d1 unchanged where
    "pd_chat db" "\<forall>t \<in> set ts. target_conflict key db t = None"
    "\<forall>cid \<in> bt_cid ` set ts. customer_conflict key db ts cid = None"
    "tag_checks db c = Inr ()"
    "apply_customers key c now ts db (sort (dedup (map bt_cid ts))) db = (d1, br_changed r, unchanged)"
    "pd_portraits db' = pd_portraits d1" "pd_links db' = pd_links d1" "pd_tags db' = pd_tags d1"
    "\<exists>op. pd_operations db' = pd_operations d1 @ [op] \<and> op_request op = request \<and> op_seller op = fst key
       \<and> op_dir op = snd key \<and> op_payload op = canonical_payload ts c \<and> op_results op = r"
proof -
  define good where "good = filter (\<lambda>t. target_conflict key db t = None) ts"
  define conflicts where "conflicts = List.map_filter (target_conflict key db) ts
    @ List.map_filter (customer_conflict key db good) (dedup (map bt_cid good))"
  obtain d1 changed unchanged where run: "apply_customers key c now good db (sort (dedup (map bt_cid good))) db = (d1, changed, unchanged)"
    by (metis surj_pair)
  note parts = assms[unfolded apply_new_def pbind_Inr_iff Let_def refuse_if_Inr, folded good_def, folded conflicts_def, unfolded run prod.case]
  have none: "conflicts = []" and chat: "pd_chat db" and tags: "tag_checks db c = Inr ()"
    using parts by auto
  then have ok: "\<forall>t \<in> set ts. target_conflict key db t = None" 
    by (auto simp: conflicts_def List.map_filter_def filter_empty_conv)
  then have good: "good = ts" by (simp add: good_def filter_id_conv)
  have cids: "\<forall>cid \<in> bt_cid ` set ts. customer_conflict key db ts cid = None"
    using none by (auto simp: conflicts_def List.map_filter_def filter_empty_conv good)
  have r: "changed = br_changed r" "pd_portraits db' = pd_portraits d1" "pd_links db' = pd_links d1" "pd_tags db' = pd_tags d1"
    "\<exists>op. pd_operations db' = pd_operations d1 @ [op] \<and> op_request op = request \<and> op_seller op = fst key
       \<and> op_dir op = snd key \<and> op_payload op = canonical_payload ts c \<and> op_results op = r"
    using parts by (auto split: if_splits)
  show ?thesis using that[OF chat ok cids tags _ r(2-5)] run r(1) good by blast
qed

lemma ensure_schema_fields [simp]:
  "pd_portraits (ensure_schema d) = pd_portraits d" "pd_links (ensure_schema d) = pd_links d"
  "pd_tags (ensure_schema d) = pd_tags d" "pd_operations (ensure_schema d) = pd_operations d"
  "pd_schema (ensure_schema d)"
  by (simp_all add: ensure_schema_def)

lemma ensure_schema_ok [simp]: "portraits_ok (ensure_schema d) = portraits_ok d"
  by (simp add: portraits_ok_def)

text \<open>A call that succeeds is a replay of a recorded operation, or a new one.\<close>

lemma apply_batch_cases:
  assumes "apply_batch canon seller data_dir request targets changes now (Some d) = (Inr r, Some d')"
  obtains key ts c where "portrait_key canon seller data_dir = Inr key" "\<not> py_blank request" "length request \<le> 64"
    "normalize_targets targets = Inr ts" "normalize_changes changes = Inr c"
    "(\<exists>prior. find (\<lambda>r. op_request r = request) (pd_operations d) = Some prior \<and> op_seller prior = fst key
        \<and> op_dir prior = snd key \<and> op_payload prior = canonical_payload ts c \<and> r = op_results prior \<and> d' = ensure_schema d)
     \<or> (find (\<lambda>r. op_request r = request) (pd_operations d) = None \<and> apply_new key request ts c now (ensure_schema d) = Inr (r, d'))"
proof -
  obtain key ts c where checked: "portrait_key canon seller data_dir = Inr key" "\<not> py_blank request" "length request \<le> 64"
      "normalize_targets targets = Inr ts" "normalize_changes changes = Inr c"
    using assms
    by (auto simp: apply_batch_def Let_def pbind_def refuse_if_def split: sum.splits if_splits)
  show ?thesis
    using that[OF checked] assms checked
    by (auto simp: apply_batch_def Let_def refuse_if_def split: sum.splits if_splits option.splits)
qed

lemma apply_batch_error:
  "apply_batch canon seller data_dir request targets changes now (Some d) = (Inl e, d') \<Longrightarrow> d' = Some d"
  by (auto simp: apply_batch_def Let_def split: sum.splits if_splits option.splits)

lemma sorted_cids: "distinct (sort (dedup (map bt_cid ts)))" "set (sort (dedup (map bt_cid ts))) = bt_cid ` set ts"
  by simp_all

lemma apply_new_inv:
  assumes "apply_new key request ts c now db = Inr (r, db')" "portraits_ok db" "pd_schema db"
    "find (\<lambda>r. op_request r = request) (pd_operations db) = None"
  shows "portraits_ok db' \<and> operations_kept db db'"
  using assms(1)
proof (rule apply_new_ok)
  fix d1 unchanged
  assume run: "apply_customers key c now ts db (sort (dedup (map bt_cid ts))) db = (d1, br_changed r, unchanged)"
    and same: "pd_portraits db' = pd_portraits d1" "pd_links db' = pd_links d1" "pd_tags db' = pd_tags d1"
    and ops: "\<exists>op. pd_operations db' = pd_operations d1 @ [op] \<and> op_request op = request \<and> op_seller op = fst key
       \<and> op_dir op = snd key \<and> op_payload op = canonical_payload ts c \<and> op_results op = r"
  have d1: "portraits_ok d1" "pd_operations d1 = pd_operations db"
    using apply_customers_ok[OF sorted_cids(1) assms(3) _ run assms(2)] by auto
  moreover have "request \<notin> op_request ` set (pd_operations db)" using assms(4) by (auto simp: find_None_iff)
  ultimately show ?thesis
    using ops same by (auto simp: portraits_ok_def operations_kept_def)
qed

section \<open>Tags\<close>

lemma create_tag_inv:
  assumes "create_tag nfkc casefold fresh now name description (Some d) = (r, Some d')" "portraits_ok d"
  shows "portraits_ok d' \<and> operations_kept d d'"
  using assms
  by (auto simp: create_tag_def Let_def portraits_ok_def operations_kept_def split: sum.splits if_splits)

lemma rename_tag_ok:
  assumes "rename_tag nfkc casefold name tags row = Inr r" "distinct (map tr_id tags)" "distinct (map tr_key tags)" "row \<in> set tags"
  shows "tr_id r = tr_id row" "\<forall>t \<in> set tags. tr_id t \<noteq> tr_id row \<longrightarrow> tr_key t \<noteq> tr_key r"
  using assms
  by (auto simp: rename_tag_def pbind_def distinct_map dest: inj_onD split: option.splits sum.splits if_splits)

lemma update_tag_row:
  assumes "pbind (rename_tag nfkc casefold name tags row) (\<lambda>r1. pbind (describe_tag nfkc description r1) (\<lambda>r2.
      Inr (case archived of None \<Rightarrow> r2 | Some b \<Rightarrow> r2\<lparr>tr_archived := b\<rparr>))) = Inr r3"
  obtains r1 where "rename_tag nfkc casefold name tags row = Inr r1" "tr_id r3 = tr_id r1" "tr_key r3 = tr_key r1"
  using assms
  by (auto simp: pbind_def describe_tag_def split: option.splits sum.splits)

lemma replace_tag_distinct:
  assumes "distinct (map tr_id tags)" "distinct (map tr_key tags)" "row \<in> set tags" "tr_id new = tr_id row"
    "\<forall>t \<in> set tags. tr_id t \<noteq> tr_id row \<longrightarrow> tr_key t \<noteq> tr_key new"
  shows "distinct (map tr_id (update_rows (\<lambda>t. tr_id t = tr_id row) (\<lambda>_. new) tags))"
    "distinct (map tr_key (update_rows (\<lambda>t. tr_id t = tr_id row) (\<lambda>_. new) tags))"
proof -
  have "map tr_id (update_rows (\<lambda>t. tr_id t = tr_id row) (\<lambda>_. new) tags) = map tr_id tags"
    using assms(4) by (intro map_key_update_rows) simp
  then show "distinct (map tr_id (update_rows (\<lambda>t. tr_id t = tr_id row) (\<lambda>_. new) tags))" using assms(1) by simp
  show "distinct (map tr_key (update_rows (\<lambda>t. tr_id t = tr_id row) (\<lambda>_. new) tags))"
    using assms(1,2,5)
  proof (induction tags)
    case (Cons t tags)
    have "tr_key new \<notin> tr_key ` set tags" if "tr_id t = tr_id row"
      using Cons.prems that by (force simp: image_iff)
    moreover have "tr_id x \<noteq> tr_id row" if "tr_id t = tr_id row" "x \<in> set tags" for x
      using Cons.prems(1) that by (force simp: image_iff)
    ultimately show ?case
      using Cons by (auto simp: set_update_rows image_iff split: if_splits)
  qed simp
qed

lemma update_tag_inv:
  assumes "update_tag canon nfkc casefold seller data_dir tid name description archived now (Some d) = (r, Some d')"
    "portraits_ok d"
  shows "portraits_ok d' \<and> operations_kept d d'"
proof (cases "\<exists>row r3. tag_at (ensure_schema d) tid = Some row \<and> pbind (rename_tag nfkc casefold name (pd_tags (ensure_schema d)) row)
      (\<lambda>r1. pbind (describe_tag nfkc description r1) (\<lambda>r2. Inr (case archived of None \<Rightarrow> r2 | Some b \<Rightarrow> r2\<lparr>tr_archived := b\<rparr>)))
      = Inr r3 \<and> r3 \<noteq> row \<and> d' = (ensure_schema d)\<lparr>pd_tags := update_rows (\<lambda>t. tr_id t = tid)
        (\<lambda>_. r3\<lparr>tr_version := tr_version row + 1, tr_updated := now\<rparr>) (pd_tags (ensure_schema d)),
        pd_tag_revision := pd_tag_revision (ensure_schema d) + 1\<rparr>")
  case True
  then obtain row r3 where row: "tag_at (ensure_schema d) tid = Some row"
    and r3: "pbind (rename_tag nfkc casefold name (pd_tags d) row)
      (\<lambda>r1. pbind (describe_tag nfkc description r1) (\<lambda>r2. Inr (case archived of None \<Rightarrow> r2 | Some b \<Rightarrow> r2\<lparr>tr_archived := b\<rparr>))) = Inr r3"
    and d': "d' = (ensure_schema d)\<lparr>pd_tags := update_rows (\<lambda>t. tr_id t = tid)
        (\<lambda>_. r3\<lparr>tr_version := tr_version row + 1, tr_updated := now\<rparr>) (pd_tags d),
        pd_tag_revision := pd_tag_revision (ensure_schema d) + 1\<rparr>" by auto
  have mem: "row \<in> set (pd_tags d)" "tr_id row = tid"
    using row find_SomeD[of "\<lambda>t. tr_id t = tid" "pd_tags d" row] by (auto simp: tag_at_def)
  have ids: "distinct (map tr_id (pd_tags d))" "distinct (map tr_key (pd_tags d))"
    using assms(2) by (simp_all add: portraits_ok_def)
  from r3 show ?thesis
  proof (rule update_tag_row)
    fix r1 assume r1: "rename_tag nfkc casefold name (pd_tags d) row = Inr r1" "tr_id r3 = tr_id r1" "tr_key r3 = tr_key r1"
    note keys = rename_tag_ok[OF r1(1) ids mem(1)]
    show ?thesis
      using replace_tag_distinct[OF ids mem(1), of "r3\<lparr>tr_version := tr_version row + 1, tr_updated := now\<rparr>"] keys r1 mem(2) assms(2)
      by (simp add: d' portraits_ok_def operations_kept_def)
  qed
next
  case False
  then have "d' = d \<or> d' = ensure_schema d"
    using assms(1) by (auto simp: update_tag_def Let_def split: sum.splits option.splits if_splits)
  then show ?thesis using assms(2) by (auto simp: operations_kept_def)
qed

section \<open>Steps\<close>

inductive portrait_step :: "portrait_db \<Rightarrow> portrait_db \<Rightarrow> bool" where
  ps_apply: "apply_batch canon seller data_dir request targets changes now (Some db) = (r, Some db') \<Longrightarrow> portrait_step db db'"
| ps_create: "create_tag nfkc casefold fresh now name description (Some db) = (r, Some db') \<Longrightarrow> portrait_step db db'"
| ps_update: "update_tag canon nfkc casefold seller data_dir tid name description archived now (Some db) = (r', Some db')
     \<Longrightarrow> portrait_step db db'"
| ps_chat: "portrait_step db (db\<lparr>pd_chat := b, pd_ledger := l, pd_sessions := s, pd_accounts := a\<rparr>)"

interpretation portraits: tracked_system portrait_step portraits_ok operations_kept
proof
  fix s t assume ok: "portraits_ok s" and "portrait_step s t"
  from this(2) have "portraits_ok t \<and> operations_kept s t"
  proof cases
    case (ps_apply canon seller data_dir request targets changes now r)
    show ?thesis
    proof (cases r)
      case (Inl e)
      have "t = s" using apply_batch_error[OF ps_apply[unfolded Inl]] by simp
      then show ?thesis using ok by (simp add: operations_kept_def)
    next
      case (Inr v)
      from ps_apply[unfolded Inr] show ?thesis
      proof (rule apply_batch_cases, elim disjE exE conjE)
        fix key ts c assume "find (\<lambda>r. op_request r = request) (pd_operations s) = None"
          "apply_new key request ts c now (ensure_schema s) = Inr (v, t)"
        then show ?thesis using apply_new_inv[of key request ts c now "ensure_schema s" v t] ok by (simp add: operations_kept_def)
      qed (use ok in \<open>simp add: operations_kept_def\<close>)
    qed
  next
    case (ps_create nfkc casefold fresh now name description r)
    then show ?thesis using create_tag_inv ok by blast
  next
    case (ps_update canon nfkc casefold seller data_dir tid name description archived now r')
    then show ?thesis using update_tag_inv ok by blast
  next
    case (ps_chat b l s a)
    then show ?thesis using ok by (simp add: portraits_ok_def operations_kept_def)
  qed
  then show "portraits_ok t" "operations_kept s t" by auto
qed (auto simp: operations_kept_def)

section \<open>Properties\<close>

text \<open>
  C25: Over any calls of the portrait store: a customer has at most one portrait in a workspace, tag identifiers, folded tag
  names and request identifiers are unique, every stored portrait has a positive version, and a reason, a note or
  a time of loss exists only in the lost stage, where the time always exists.
\<close>

theorem portrait_tables_invariant:
  assumes "portrait_step\<^sup>*\<^sup>* db db'" "portraits_ok db"
  shows "distinct (map pkey (pd_portraits db')) \<and> distinct (map tr_id (pd_tags db')) \<and> distinct (map tr_key (pd_tags db'))
    \<and> distinct (map op_request (pd_operations db'))
    \<and> (\<forall>r \<in> set (pd_portraits db'). 1 \<le> pr_version r \<and> (pr_stage r = ''lost'' \<longrightarrow> pr_lost_at r \<noteq> None)
        \<and> (pr_stage r \<noteq> ''lost'' \<longrightarrow> pr_reason r = None \<and> pr_note r = None \<and> pr_lost_at r = None))"
  using portraits.steps_inv[OF assms] by (simp add: portraits_ok_def loss_ok_def)

text \<open>A batch that succeeded can be repeated at any later time: the same request returns the recorded result and
  changes no portrait, tag, link or operation, whatever happened to the customers in between.
\<close>

theorem batch_replay:
  assumes "portraits_ok d0"
    "apply_batch canon seller data_dir request targets changes now (Some d0) = (Inr r, Some d1)"
    "portrait_step\<^sup>*\<^sup>* d1 d2"
  shows "apply_batch canon seller data_dir request targets changes now' (Some d2) = (Inr r, Some (ensure_schema d2))"
proof -
  have "portrait_step d0 d1" using assms(2) by (rule ps_apply)
  then have ok: "portraits_ok d1" "portraits_ok d2"
    using portraits.step_inv assms(1) portraits.steps_inv[OF assms(3)] by blast+
  have kept: "operations_kept d1 d2" using portraits.steps_rel[OF assms(3) ok(1)] .
  from assms(2) show ?thesis
  proof (rule apply_batch_cases)
    fix key ts c
    assume checked: "portrait_key canon seller data_dir = Inr key" "\<not> py_blank request" "length request \<le> 64"
      "normalize_targets targets = Inr ts" "normalize_changes changes = Inr c"
    assume how: "(\<exists>prior. find (\<lambda>r. op_request r = request) (pd_operations d0) = Some prior \<and> op_seller prior = fst key
        \<and> op_dir prior = snd key \<and> op_payload prior = canonical_payload ts c \<and> r = op_results prior \<and> d1 = ensure_schema d0)
     \<or> (find (\<lambda>r. op_request r = request) (pd_operations d0) = None \<and> apply_new key request ts c now (ensure_schema d0) = Inr (r, d1))"
    have "\<exists>op \<in> set (pd_operations d1). op_request op = request \<and> op_seller op = fst key \<and> op_dir op = snd key
        \<and> op_payload op = canonical_payload ts c \<and> op_results op = r"
      using how
    proof (elim disjE exE conjE)
      assume "apply_new key request ts c now (ensure_schema d0) = Inr (r, d1)"
      then show ?thesis by (rule apply_new_ok) auto
    qed (auto dest!: find_SomeD)
    then obtain op where op: "op \<in> set (pd_operations d2)" "op_request op = request" "op_seller op = fst key" "op_dir op = snd key"
        "op_payload op = canonical_payload ts c" "op_results op = r"
      using kept by (auto simp: operations_kept_def)
    have "find (\<lambda>r. op_request r = op_request op) (pd_operations d2) = Some op"
      using ok(2) op(1) by (intro find_Some_iff_distinct) (simp_all add: portraits_ok_def)
    then show ?thesis
      using checked op by (simp add: apply_batch_def Let_def refuse_if_def)
  qed
qed

text \<open>A new batch is applied only as a whole and only to what its author saw: every session is visible in the
  workspace and belongs to the expected customer at the expected version. Exactly the targeted customers that
  differ get a new row, one version higher; every other row of every workspace stays. A refused batch changes nothing.
\<close>

theorem batch_all_or_nothing:
  assumes "apply_batch canon seller data_dir request targets changes now (Some d) = (res, Some d')"
    "find (\<lambda>r. op_request r = request) (pd_operations d) = None"
  shows "case res of
      Inl e \<Rightarrow> d' = d
    | Inr r \<Rightarrow> \<exists>key ts c. portrait_key canon seller data_dir = Inr key \<and> normalize_targets targets = Inr ts
        \<and> normalize_changes changes = Inr c
        \<and> (\<forall>t \<in> set ts. session_known key d (bt_sid t) \<and> contact_of d (bt_sid t) = Some (bt_cid t)
             \<and> bt_version t = po_version (portrait_of key (bt_cid t) (ensure_schema d)))
        \<and> (\<forall>k i. row_of k i (pd_portraits d') =
             (if k = key \<and> i \<in> bt_cid ` set ts \<and> \<not> portrait_unchanged c now (portrait_of key i (ensure_schema d))
              then Some (portrait_to_row key i (changed_portrait c now (portrait_of key i (ensure_schema d))) now)
              else row_of k i (pd_portraits d)))"
proof (cases res)
  case (Inl e)
  then show ?thesis using apply_batch_error assms(1) by fastforce
next
  case (Inr r)
  from assms(1)[unfolded Inr] show ?thesis
  proof (rule apply_batch_cases)
    fix key ts c
    assume checked: "portrait_key canon seller data_dir = Inr key" "normalize_targets targets = Inr ts" "normalize_changes changes = Inr c"
      and how: "(\<exists>prior. find (\<lambda>r. op_request r = request) (pd_operations d) = Some prior \<and> op_seller prior = fst key
        \<and> op_dir prior = snd key \<and> op_payload prior = canonical_payload ts c \<and> r = op_results prior \<and> d' = ensure_schema d)
       \<or> (find (\<lambda>r. op_request r = request) (pd_operations d) = None \<and> apply_new key request ts c now (ensure_schema d) = Inr (r, d'))"
    let ?d = "ensure_schema d"
    have "apply_new key request ts c now ?d = Inr (r, d')" using how assms(2) by simp
    then show ?thesis
    proof (rule apply_new_ok)
      fix d1 unchanged
      assume sids: "\<forall>t \<in> set ts. target_conflict key ?d t = None"
        and cids: "\<forall>cid \<in> bt_cid ` set ts. customer_conflict key ?d ts cid = None"
        and run: "apply_customers key c now ts ?d (sort (dedup (map bt_cid ts))) ?d = (d1, br_changed r, unchanged)"
        and rows: "pd_portraits d' = pd_portraits d1"
      have known: "session_known key d (bt_sid t) \<and> contact_of d (bt_sid t) = Some (bt_cid t)" if "t \<in> set ts" for t
        using sids that
        by (fastforce simp: target_conflict_def session_known_def contact_of_def participants_of_def ensure_schema_def
            split: if_splits option.splits)
      have version: "bt_version t = po_version (portrait_of key (bt_cid t) ?d)" if t: "t \<in> set ts" for t
      proof -
        have "customer_conflict key ?d ts (bt_cid t) = None" using cids t by blast
        then have eq: "dedup (map bt_version (filter (\<lambda>u. bt_cid u = bt_cid t) ts)) = [po_version (portrait_of key (bt_cid t) ?d)]"
          by (auto simp: customer_conflict_def split: list.splits if_splits)
        have "bt_version t \<in> set (dedup (map bt_version (filter (\<lambda>u. bt_cid u = bt_cid t) ts)))" using t by auto
        then show ?thesis unfolding eq by simp
      qed
      show ?thesis
        using apply_customers_rows[OF sorted_cids(1) _ _ run] checked known version rows
        unfolding Inr by (auto simp: batch_row_def)
    qed
  qed
qed

section \<open>Witnesses\<close>

definition demo_portraits :: portrait_db where
  "demo_portraits = \<lparr>pd_schema = True, pd_chat = True,
     pd_ledger = [\<lparr>lr_seller = ''7'', lr_dir = ''/d'', lr_mid = ''m'', lr_sid = 1, lr_seq = 1, lr_first_seen = 100,
       lr_direction = Inbound, lr_occurred = Some 90, lr_system = False, lr_auto = False, lr_history = False\<rparr>],
     pd_sessions = [(1, [PInt 10, PInt 11])],
     pd_accounts = [\<lparr>an_aid = 10, an_cid = Some 4, an_extra = PDict [(''is_self'', PBool True)]\<rparr>,
                    \<lparr>an_aid = 11, an_cid = Some 5, an_extra = PNone\<rparr>],
     pd_portraits = [], pd_tags = [], pd_links = [], pd_operations = [], pd_revisions = [], pd_tag_revision = 0\<rparr>"

definition demo_targets :: pyval where
  "demo_targets = PList [PDict [(''sid'', PInt 1), (''expected_cid'', PInt 5), (''expected_version'', PInt 0)]]"

definition demo_changes :: pyval where
  "demo_changes = PDict [(''stage'', PStr ''lost''), (''lost_reason'', PStr ''price'')]"

definition demo_batch_result :: batch_result where
  "demo_batch_result = \<lparr>br_request = ''r'', br_portrait_revision = 1, br_tag_revision = 0,
     br_changed = [\<lparr>be_cid = 5, be_sids = [1], be_version = 1\<rparr>], br_unchanged = []\<rparr>"

definition demo_lost_row :: portrait_row where
  "demo_lost_row = \<lparr>pr_seller = ''7'', pr_dir = ''/d'', pr_cid = 5, pr_stage = ''lost'', pr_reason = Some ''price'', pr_note = None,
     pr_lost_at = Some 50, pr_version = 1, pr_updated = 50\<rparr>"

definition demo_applied :: portrait_db where
  "demo_applied = (case snd (apply_batch id ''7'' ''/d'' ''r'' demo_targets demo_changes 50 (Some demo_portraits)) of
     Some d \<Rightarrow> d | None \<Rightarrow> demo_portraits)"

lemma demo_batch:
  "apply_batch id ''7'' ''/d'' ''r'' demo_targets demo_changes 50 (Some demo_portraits) = (Inr demo_batch_result, Some demo_applied)"
  "pd_portraits demo_applied = [demo_lost_row]"
  by code_simp+

lemma demo_portraits_ok: "portraits_ok demo_portraits" "pd_operations demo_portraits = []"
  by (simp_all add: portraits_ok_def demo_portraits_def)

theorem portrait_tables_invariant_witness:
  "pr_stage demo_lost_row = ''lost'' \<and> demo_lost_row \<in> set (pd_portraits demo_applied) \<and> 1 \<le> pr_version demo_lost_row"
proof -
  have "portrait_step\<^sup>*\<^sup>* demo_portraits demo_applied"
    by (rule r_into_rtranclp, rule ps_apply[OF demo_batch(1)])
  from portrait_tables_invariant[OF this demo_portraits_ok(1)] show ?thesis
    by (simp add: demo_batch(2)) (simp add: demo_lost_row_def)
qed

theorem batch_replay_witness:
  "fst (apply_batch id ''7'' ''/d'' ''r'' demo_targets demo_changes 99 (Some demo_applied)) = Inr demo_batch_result"
  using batch_replay[OF demo_portraits_ok(1) demo_batch(1) rtranclp.rtrancl_refl] by simp

theorem batch_all_or_nothing_witness:
  "contact_of demo_portraits 1 = Some 5 \<and> row_of (''7'', ''/d'') 5 (pd_portraits demo_applied) = Some demo_lost_row"
proof -
  have "row_of (''7'', ''/d'') 5 (pd_portraits demo_applied) = Some demo_lost_row"
    by (simp add: demo_batch(2) row_of_def demo_lost_row_def portrait_at_def)
  moreover have "normalize_targets demo_targets = Inr [\<lparr>bt_sid = 1, bt_cid = 5, bt_version = 0\<rparr>]"
    by code_simp
  ultimately show ?thesis
    using batch_all_or_nothing[OF demo_batch(1)] demo_portraits_ok(2) by fastforce
qed

end
