(* ===== verification/Wal_Cache.thy ===== *)
theory Wal_Cache
  imports Py_Prelude "HOL-Library.Word"
begin

unbundle bit_operations_syntax

text \<open>
  The write-ahead log of the messenger's encrypted database: the checksum and the re-encoding of
  \<^verbatim>\<open>shared/utils/im_wal.py\<close>, and the check of a captured log in \<^verbatim>\<open>_rebuild_cache\<close> of
  \<^verbatim>\<open>shared/backend/im_db_middleware.py\<close>. A file is a list of bytes, the words of the checksum have their 32 bits, where
  the source masks its unbounded integers. \<open>dec\<close> is the block cipher's decryption with the key; all that is
  used of it is that it keeps the length. \<^verbatim>\<open>WalError\<close> is a \<^verbatim>\<open>ValueError\<close>.
\<close>

section \<open>Bytes and words\<close>

type_synonym byte = "8 word"
type_synonym word32 = "32 word"
type_synonym checksum = "word32 \<times> word32"

text \<open>\<^verbatim>\<open>struct\<close> formats \<^verbatim>\<open>>I\<close> and \<^verbatim>\<open><I\<close>.\<close>

fun be_word :: "byte list \<Rightarrow> word32" where
  "be_word [a, b, c, d] =
     push_bit 24 (ucast a) OR push_bit 16 (ucast b) OR push_bit 8 (ucast c) OR ucast d"
| "be_word _ = 0"

definition be_bytes :: "word32 \<Rightarrow> byte list" where
  "be_bytes w = [ucast (drop_bit 24 w), ucast (drop_bit 16 w), ucast (drop_bit 8 w), ucast w]"

definition wal_error :: "string \<Rightarrow> 'a result" where
  "wal_error m = Inl (Value_Error m)"

fun words_le :: "byte list \<Rightarrow> word32 list result" where
  "words_le [] = Inr []"
| "words_le (a # b # c # d # bs) = and_then (words_le bs) (\<lambda>ws. Inr (be_word [d, c, b, a] # ws))"
| "words_le _ = wal_error ''not a multiple of 4''"

fun chain_words :: "word32 list \<Rightarrow> checksum \<Rightarrow> checksum result" where
  "chain_words [] s = Inr s"
| "chain_words [_] s = wal_error ''expected an even count''"
| "chain_words (x # y # ws) s =
     (let s0 = fst s + x + snd s; s1 = snd s + y + s0 in chain_words ws (s0, s1))"

text \<open>\<^verbatim>\<open>checksum_chain\<close>: nothing is raised late, since the number of words does not depend on their values.\<close>

definition checksum_chain :: "byte list \<Rightarrow> checksum \<Rightarrow> checksum result" where
  "checksum_chain data seed = and_then (words_le data) (\<lambda>ws. chain_words ws seed)"

section \<open>The header\<close>

definition wal_magic :: word32 where
  "wal_magic = 0x377F0682"

record wal_header =
  wh_version :: word32
  wh_page_size :: word32
  wh_checkpoint :: word32
  wh_salt :: "byte list"
  wh_seed :: checksum

definition slice_of :: "nat \<Rightarrow> nat \<Rightarrow> byte list \<Rightarrow> byte list" where
  "slice_of a b bs = take (b - a) (drop a bs)"

definition read_wal_header :: "byte list \<Rightarrow> wal_header result" where
  "read_wal_header raw =
     (if length raw < 32 then wal_error ''WAL header is too short''
      else if be_word (slice_of 0 4 raw) \<noteq> wal_magic then wal_error ''WAL magic mismatch''
      else
        (let stored = (be_word (slice_of 24 28 raw), be_word (slice_of 28 32 raw)) in
         and_then (checksum_chain (slice_of 0 24 raw) (0, 0)) (\<lambda>s.
           if s \<noteq> stored then wal_error ''WAL header checksum mismatch''
           else Inr \<lparr>wh_version = be_word (slice_of 4 8 raw), wh_page_size = be_word (slice_of 8 12 raw),
                     wh_checkpoint = be_word (slice_of 12 16 raw), wh_salt = slice_of 16 24 raw,
                     wh_seed = stored\<rparr>)))"

section \<open>Frames\<close>

text \<open>
  A frame at the head of the remaining bytes: page number, size, salt, checksum, page image.
\<close>

definition frame_salt :: "byte list \<Rightarrow> byte list" where
  "frame_salt rest = slice_of 8 16 rest"

definition frame_page :: "byte list \<Rightarrow> word32" where
  "frame_page rest = be_word (slice_of 0 4 rest)"

definition frame_stored :: "byte list \<Rightarrow> checksum" where
  "frame_stored rest = (be_word (slice_of 16 20 rest), be_word (slice_of 20 24 rest))"

definition frame_payload :: "nat \<Rightarrow> byte list \<Rightarrow> byte list" where
  "frame_payload ps rest = slice_of 24 (24 + ps) rest"

definition frame_checksum :: "byte list \<Rightarrow> byte list \<Rightarrow> checksum \<Rightarrow> checksum result" where
  "frame_checksum rest payload seed =
     and_then (checksum_chain (slice_of 0 8 rest) seed) (\<lambda>s. checksum_chain payload s)"

text \<open>
  The loop of \<^verbatim>\<open>rekey_wal_copy\<close> on the bytes from the offset on: what it leaves there, and the
  frames counted. A frame whose length the cipher refuses raises.
\<close>

function rekey_frames ::
  "(byte list \<Rightarrow> byte list) \<Rightarrow> nat \<Rightarrow> byte list \<Rightarrow> byte list \<Rightarrow> checksum \<Rightarrow> (byte list \<times> nat) result" where
  "rekey_frames dec ps salt rest seed =
     (if length rest < 24 \<or> frame_salt rest \<noteq> salt \<or> frame_page rest = 0 \<or> length rest < 24 + ps
      then Inr ([], 0)
      else if ps mod 16 \<noteq> 0 then wal_error ''decrypt input length''
      else
        (let payload = dec (frame_payload ps rest) in
         and_then (frame_checksum rest payload seed) (\<lambda>s.
         and_then (rekey_frames dec ps salt (drop (24 + ps) rest) s) (\<lambda>(out, n).
           Inr (take 16 rest @ be_bytes (fst s) @ be_bytes (snd s) @ payload @ out, n + 1)))))"
  by pat_completeness auto
termination
  by (relation "measure (\<lambda>(dec, ps, salt, rest, seed). length rest)") auto

declare rekey_frames.simps [simp del]

definition rekey_wal :: "(byte list \<Rightarrow> byte list) \<Rightarrow> nat \<Rightarrow> byte list \<Rightarrow> (byte list \<times> nat) result" where
  "rekey_wal dec ps raw =
     and_then (read_wal_header raw) (\<lambda>h.
       if unat (wh_page_size h) \<noteq> ps then wal_error ''WAL page_size differs from the main database''
       else and_then (rekey_frames dec ps (wh_salt h) (drop 32 raw) (wh_seed h)) (\<lambda>(out, n).
         Inr (take 32 raw @ out, n)))"

text \<open>
  The check of a captured log before it is re-encoded: every frame of the current salts must be whole and carry
  the checksum of its ciphertext; a frame of other salts ends the log, which is cut there.
\<close>

function verify_frames :: "nat \<Rightarrow> byte list \<Rightarrow> byte list \<Rightarrow> checksum \<Rightarrow> byte list result" where
  "verify_frames ps salt rest seed =
     (if rest = [] then Inr []
      else if length rest < 24 then wal_error ''Incomplete WAL frame header''
      else if frame_salt rest \<noteq> salt then Inr []
      else if length rest < 24 + ps then wal_error ''Incomplete WAL frame''
      else if frame_page rest = 0 then wal_error ''Invalid WAL page number''
      else and_then (frame_checksum rest (frame_payload ps rest) seed) (\<lambda>s.
        if s \<noteq> frame_stored rest then wal_error ''WAL frame checksum mismatch''
        else and_then (verify_frames ps salt (drop (24 + ps) rest) s) (\<lambda>out.
          Inr (take (24 + ps) rest @ out))))"
  by pat_completeness auto
termination
  by (relation "measure (\<lambda>(ps, salt, rest, seed). length rest)") auto

declare verify_frames.simps [simp del]

definition page_size_ok :: "nat \<Rightarrow> bool" where
  "page_size_ok ps \<longleftrightarrow> 512 \<le> ps \<and> ps \<le> 65536 \<and> ps AND (ps - 1) = 0"

definition verify_wal :: "byte list \<Rightarrow> byte list result" where
  "verify_wal raw =
     and_then (read_wal_header raw) (\<lambda>h.
       if \<not> page_size_ok (unat (wh_page_size h)) then wal_error ''Invalid WAL page size''
       else and_then (verify_frames (unat (wh_page_size h)) (wh_salt h) (drop 32 raw) (wh_seed h)) (\<lambda>out.
         Inr (take 32 raw @ out)))"

text \<open>The page size of the main file, from its header.\<close>

definition main_page_size :: "byte \<Rightarrow> byte \<Rightarrow> nat" where
  "main_page_size hi lo = (let n = unat hi * 256 + unat lo in if n = 1 then 65536 else n)"

text \<open>The part of \<^verbatim>\<open>_rebuild_cache\<close> on a captured log that is not empty, with the two bytes of the page size in the
  main file's header. Every error leaves the previous cache in place; the caller renames it.\<close>

definition rebuild_wal :: "(byte list \<Rightarrow> byte list) \<Rightarrow> byte \<Rightarrow> byte \<Rightarrow> bool \<Rightarrow> byte list \<Rightarrow> (byte list \<times> nat) result" where
  "rebuild_wal dec hi lo pipeline raw =
     and_then (verify_wal raw) (\<lambda>kept.
     and_then (rekey_wal dec (main_page_size hi lo) kept) (\<lambda>(out, n).
       if 0 < n \<and> \<not> pipeline
       then Inl (Runtime_Error ''WAL contains frames but its pipeline is disabled'') else Inr (out, n)))"

section \<open>The reader's view\<close>

text \<open>
  The specification: what a reader of the format recovers from a log, frame by frame, until one is cut off, has
  other salts, no page or another checksum. A frame is given by its page number and size field and its page image.
\<close>

function read_frames :: "nat \<Rightarrow> byte list \<Rightarrow> byte list \<Rightarrow> checksum \<Rightarrow> (byte list \<times> byte list) list" where
  "read_frames ps salt rest seed =
     (if length rest < 24 + ps \<or> frame_salt rest \<noteq> salt \<or> frame_page rest = 0
         \<or> frame_checksum rest (frame_payload ps rest) seed \<noteq> Inr (frame_stored rest)
      then []
      else (slice_of 0 8 rest, frame_payload ps rest)
             # read_frames ps salt (drop (24 + ps) rest) (frame_stored rest))"
  by pat_completeness auto
termination
  by (relation "measure (\<lambda>(ps, salt, rest, seed). length rest)") auto

declare read_frames.simps [simp del]

definition wal_reader :: "byte list \<Rightarrow> (byte list \<times> byte list) list" where
  "wal_reader raw =
     (case read_wal_header raw of
        Inl _ \<Rightarrow> []
      | Inr h \<Rightarrow> read_frames (unat (wh_page_size h)) (wh_salt h) (drop 32 raw) (wh_seed h))"

section \<open>Lemmas on words and slices\<close>

lemma be_word_bytes [simp]: "be_word (be_bytes w) = w"
  unfolding be_bytes_def be_word.simps
proof (rule bit_word_eqI)
  fix n
  assume "n < LENGTH(32)"
  then consider "n < 8" | "8 \<le> n" "n < 16" | "16 \<le> n" "n < 24" | "24 \<le> n" "n < 32"
    by fastforce
  then show "bit (push_bit 24 (ucast (ucast (drop_bit 24 w) :: byte)) OR push_bit 16 (ucast (ucast (drop_bit 16 w) :: byte))
      OR push_bit 8 (ucast (ucast (drop_bit 8 w) :: byte)) OR ucast (ucast w :: byte) :: word32) n \<longleftrightarrow> bit w n"
    by cases (auto simp: bit_simps)
qed

lemma length_be_bytes [simp]: "length (be_bytes w) = 4"
  by (simp add: be_bytes_def)

lemma slice_of_append1: "b \<le> length xs \<Longrightarrow> slice_of a b (xs @ ys) = slice_of a b xs"
  by (cases "a \<le> length xs") (simp_all add: slice_of_def)

lemma slice_of_append2:
  "length xs \<le> a \<Longrightarrow> slice_of a b (xs @ ys) = slice_of (a - length xs) (b - length xs) ys"
  by (simp add: slice_of_def)

lemma slice_of_take: "b \<le> n \<Longrightarrow> slice_of a b (take n xs) = slice_of a b xs"
  unfolding slice_of_def by (cases "a \<le> b") (simp_all add: drop_take min_def)

lemma length_slice_of: "b \<le> length xs \<Longrightarrow> length (slice_of a b xs) = b - a"
  by (simp add: slice_of_def)

end
