(* ===== verification/Wal_Cache_Props.thy ===== *)
theory Wal_Cache_Props
  imports Wal_Cache
begin

text \<open>
  The re-encoded log is complete: a reader of the copy recovers the decrypted images of exactly the frames that a
  reader of the captured log would, in their order.
\<close>

section \<open>Checksums that are defined\<close>

lemma words_le_length: "words_le bs = Inr ws \<Longrightarrow> length bs = 4 * length ws"
  by (induction bs arbitrary: ws rule: words_le.induct) (auto simp: and_then_Inr_iff wal_error_def)

lemma words_le_total: "length bs mod 4 = 0 \<Longrightarrow> \<exists>ws. words_le bs = Inr ws"
proof (induction bs rule: words_le.induct)
  case (2 a b c d bs)
  then show ?case by (auto simp: and_then_Inr_iff)
qed simp_all

lemma chain_words_total: "even (length ws) \<Longrightarrow> \<exists>t. chain_words ws s = Inr t"
  by (induction ws s rule: chain_words.induct) (simp_all add: Let_def)

lemma checksum_chain_total:
  assumes "length bs mod 8 = 0"
  shows "\<exists>t. checksum_chain bs s = Inr t"
proof -
  have "length bs mod 4 = 0"
    using assms by presburger
  then obtain ws where ws: "words_le bs = Inr ws"
    using words_le_total [of bs] by auto
  then have "even (length ws)"
    using words_le_length [OF ws] assms by presburger
  then show ?thesis
    using ws chain_words_total by (simp add: checksum_chain_def)
qed

section \<open>Frames of a rewritten log\<close>

text \<open>A frame copied to a new log, and a frame with a new checksum and page image.\<close>

lemma copied_frame:
  assumes "24 + ps \<le> length rest"
  shows "slice_of 0 8 (take (24 + ps) rest @ out) = slice_of 0 8 rest"
    "frame_salt (take (24 + ps) rest @ out) = frame_salt rest"
    "frame_page (take (24 + ps) rest @ out) = frame_page rest"
    "frame_payload ps (take (24 + ps) rest @ out) = frame_payload ps rest"
    "take 16 (take (24 + ps) rest @ out) = take 16 rest"
    "drop (24 + ps) (take (24 + ps) rest @ out) = out"
    "length (take (24 + ps) rest @ out) = 24 + ps + length out"
  using assms
  by (simp_all add: frame_salt_def frame_page_def frame_payload_def slice_of_append1 slice_of_take min_def)

lemma new_frame:
  fixes a b :: word32 and out :: "byte list"
  assumes "16 \<le> length rest" "length payload = ps"
  defines "new \<equiv> take 16 rest @ be_bytes a @ be_bytes b @ payload @ out"
  shows "slice_of 0 8 new = slice_of 0 8 rest" "frame_salt new = frame_salt rest"
    "frame_page new = frame_page rest" "frame_stored new = (a, b)" "frame_payload ps new = payload"
    "drop (24 + ps) new = out" "length new = 24 + ps + length out"
proof -
  have len: "length (take 16 rest) = 16"
    using assms(1) by simp
  show "slice_of 0 8 new = slice_of 0 8 rest" "frame_salt new = frame_salt rest"
    "frame_page new = frame_page rest"
    unfolding new_def frame_salt_def frame_page_def using len
    by (simp_all add: slice_of_append1 slice_of_take)
  have whole: "slice_of 0 4 (be_bytes x @ ys) = be_bytes x" for x ys
    by (simp add: slice_of_def)
  have "slice_of 16 20 new = be_bytes a" "slice_of 20 24 new = be_bytes b"
    unfolding new_def using len whole by (simp_all add: slice_of_append2)
  then show "frame_stored new = (a, b)"
    by (simp add: frame_stored_def)
  show "frame_payload ps new = payload"
    unfolding new_def frame_payload_def using len assms(2) by (simp add: slice_of_append2) (simp add: slice_of_def)
  show "drop (24 + ps) new = out" "length new = 24 + ps + length out"
    unfolding new_def using len assms(2) by simp_all
qed

lemma frame_checksum_total:
  assumes "24 \<le> length rest" "length payload mod 8 = 0"
  shows "\<exists>t. frame_checksum rest payload seed = Inr t"
proof -
  obtain t where t: "checksum_chain (slice_of 0 8 rest) seed = Inr t"
    using checksum_chain_total [of "slice_of 0 8 rest" seed] assms(1) by (auto simp: length_slice_of)
  then show ?thesis
    using checksum_chain_total [OF assms(2)] by (simp add: frame_checksum_def)
qed

definition keeps_length :: "(byte list \<Rightarrow> byte list) \<Rightarrow> bool" where
  "keeps_length dec \<longleftrightarrow> (\<forall>bs. length (dec bs) = length bs)"

abbreviation decrypted :: "(byte list \<Rightarrow> byte list) \<Rightarrow> (byte list \<times> byte list) list \<Rightarrow> (byte list \<times> byte list) list" where
  "decrypted dec \<equiv> map (\<lambda>(head, image). (head, dec image))"

lemma verify_frames_cases:
  assumes "verify_frames ps salt rest seed = Inr out"
  obtains "out = []" "rest = [] \<or> frame_salt rest \<noteq> salt"
  | s out' where "24 + ps \<le> length rest" "frame_salt rest = salt" "frame_page rest \<noteq> 0"
      "frame_checksum rest (frame_payload ps rest) seed = Inr s" "s = frame_stored rest"
      "verify_frames ps salt (drop (24 + ps) rest) s = Inr out'" "out = take (24 + ps) rest @ out'"
  using assms
  by (subst (asm) verify_frames.simps) (fastforce simp: and_then_Inr_iff wal_error_def split: if_splits)

lemma rekeyed_frames:
  assumes "keeps_length dec"
  shows "ps mod 16 = 0 \<Longrightarrow> verify_frames ps salt rest seed = Inr out \<Longrightarrow>
    \<exists>new. rekey_frames dec ps salt out seed' = Inr (new, length (read_frames ps salt rest seed))
      \<and> read_frames ps salt new seed' = decrypted dec (read_frames ps salt rest seed)"
proof (induction ps salt rest seed arbitrary: out seed' rule: verify_frames.induct)
  case (1 ps salt rest seed)
  from "1.prems"(2) show ?case
  proof (cases rule: verify_frames_cases)
    case 1
    have "read_frames ps salt rest seed = []"
      using 1(2) by (subst read_frames.simps) auto
    with 1(1) show ?thesis
      by (simp add: rekey_frames.simps [of _ _ _ "[]"] read_frames.simps [of _ _ "[]"])
  next
    case (2 s out')
    define image where "image = frame_payload ps rest"
    have image: "length (dec image) = ps"
      using assms 2(1) by (simp add: keeps_length_def image_def frame_payload_def length_slice_of)
    have old: "read_frames ps salt rest seed
        = (slice_of 0 8 rest, image) # read_frames ps salt (drop (24 + ps) rest) s"
      using 2(1-5) by (subst read_frames.simps) (simp add: image_def)
    obtain t where t: "frame_checksum rest (dec image) seed' = Inr t"
    proof -
      have "length (dec image) mod 8 = 0"
        using "1.prems"(1) unfolding image by presburger
      with frame_checksum_total [of rest "dec image" seed'] 2(1) that show ?thesis by auto
    qed
    obtain new where new: "rekey_frames dec ps salt out' t
        = Inr (new, length (read_frames ps salt (drop (24 + ps) rest) s))"
      "read_frames ps salt new t = decrypted dec (read_frames ps salt (drop (24 + ps) rest) s)"
    proof -
      have "rest \<noteq> []"
        using 2(1) by auto
      with "1.IH" [of s out' t] 2 "1.prems"(1) that show ?thesis by (auto simp: wal_error_def)
    qed
    define frame where "frame = take 16 rest @ be_bytes (fst t) @ be_bytes (snd t) @ dec image @ new"
    note copied = copied_frame [OF 2(1), of out', folded 2(7)]
    have "frame_checksum out (dec image) seed' = Inr t"
      using t copied(1) by (simp add: frame_checksum_def)
    then have "rekey_frames dec ps salt out seed'
        = Inr (frame, length (read_frames ps salt (drop (24 + ps) rest) s) + 1)"
      using 2(2,3) copied new(1) "1.prems"(1)
      by (subst rekey_frames.simps) (simp add: frame_def image_def Let_def)
    moreover
    have "16 \<le> length rest"
      using 2(1) by simp
    note written = new_frame [OF this image, of "fst t" "snd t" new, folded frame_def]
    have "frame_checksum frame (dec image) seed' = Inr t"
      using t written(1) by (simp add: frame_checksum_def)
    then have "read_frames ps salt frame seed' = (slice_of 0 8 rest, dec image) # read_frames ps salt new t"
      using 2(2,3) written by (subst read_frames.simps) simp
    ultimately show ?thesis
      using old new(2) by simp
  qed
qed

section \<open>The header and the page size\<close>

lemma read_wal_header_prefix:
  assumes "32 \<le> length raw"
  shows "read_wal_header (take 32 raw @ out) = read_wal_header raw"
  using assms by (simp add: read_wal_header_def slice_of_append1 slice_of_take cong: if_cong)

lemma read_wal_header_length: "read_wal_header raw = Inr h \<Longrightarrow> 32 \<le> length raw"
  by (auto simp: read_wal_header_def wal_error_def split: if_splits)

lemma page_size_mod: "page_size_ok ps \<Longrightarrow> ps mod 16 = 0"
proof (rule ccontr)
  assume ok: "page_size_ok ps" and r: "ps mod 16 \<noteq> 0"
  have "drop_bit 4 (ps - 1) = drop_bit 4 ps"
    using r by (simp add: drop_bit_eq_div) (metis One_nat_def bot_nat_0.not_eq_extremum diff_Suc_1 div_Suc mod_Suc
        not0_implies_Suc mod_0)
  then have "drop_bit 4 (ps AND (ps - 1)) = drop_bit 4 ps"
    by simp
  then have "ps div 16 = 0"
    using ok by (simp add: page_size_ok_def drop_bit_eq_div)
  moreover have "512 \<le> ps"
    using ok by (simp add: page_size_ok_def)
  ultimately show False
    by presburger
qed

text \<open>
  C27: A captured log that passes the check loses nothing when it is re-encoded with the page size of its
  header: the re-encoding succeeds, its header stays, and a reader of the new log recovers, in order, the frames that a
  reader of the captured log recovers, with the same page numbers and sizes and the decrypted page images; the
  count returned is their number. All that is used of the cipher is that it keeps the length.
\<close>

theorem rekeyed_log_is_complete:
  assumes "verify_wal raw = Inr kept" "read_wal_header raw = Inr h" "keeps_length dec"
  shows "\<exists>new. rekey_wal dec (unat (wh_page_size h)) kept = Inr (new, length (wal_reader raw))
    \<and> read_wal_header new = Inr h \<and> wal_reader new = decrypted dec (wal_reader raw)"
proof -
  define ps where "ps = unat (wh_page_size h)"
  have long: "32 \<le> length raw"
    by (rule read_wal_header_length [OF assms(2)])
  obtain out where out: "page_size_ok ps" "kept = take 32 raw @ out"
    "verify_frames ps (wh_salt h) (drop 32 raw) (wh_seed h) = Inr out"
    using assms(1,2) by (auto simp: verify_wal_def and_then_Inr_iff wal_error_def ps_def split: if_splits)
  have header: "read_wal_header (take 32 raw @ x) = Inr h" for x
    using read_wal_header_prefix [OF long] assms(2) by simp
  obtain new where new: "rekey_frames dec ps (wh_salt h) out (wh_seed h)
      = Inr (new, length (read_frames ps (wh_salt h) (drop 32 raw) (wh_seed h)))"
    "read_frames ps (wh_salt h) new (wh_seed h)
      = decrypted dec (read_frames ps (wh_salt h) (drop 32 raw) (wh_seed h))"
    using rekeyed_frames [OF assms(3) page_size_mod [OF out(1)] out(3)] by blast
  have "rekey_wal dec ps kept = Inr (take 32 raw @ new, length (wal_reader raw))"
    using new(1) header out(2) long assms(2) by (simp add: rekey_wal_def wal_reader_def ps_def)
  moreover have "wal_reader (take 32 raw @ new) = decrypted dec (wal_reader raw)"
    using new(2) header long assms(2) by (simp add: wal_reader_def ps_def)
  ultimately show ?thesis
    using header ps_def by blast
qed

text \<open>
  A log of one frame with a page of 512 bytes, followed by the head of a frame from before a restart. Its
  checksums are those the format asks for, so that no sum has to be worked out.
\<close>

definition sample_checksum :: "byte list \<Rightarrow> checksum \<Rightarrow> checksum" where
  "sample_checksum bs s = (case checksum_chain bs s of Inl _ \<Rightarrow> (0, 0) | Inr t \<Rightarrow> t)"

definition sample_head :: "byte list" where
  "sample_head = be_bytes wal_magic @ be_bytes 3007000 @ be_bytes 512 @ be_bytes 0 @ be_bytes 17 @ be_bytes 34"

definition sample_seed :: checksum where
  "sample_seed = sample_checksum sample_head (0, 0)"

definition sample_page :: "byte list" where
  "sample_page = be_bytes 1 @ replicate 508 7"

definition sample_sum :: checksum where
  "sample_sum = sample_checksum sample_page (sample_checksum (be_bytes 1 @ be_bytes 1) sample_seed)"

definition sample_frames :: "byte list" where
  "sample_frames = take 16 (be_bytes 1 @ be_bytes 1 @ be_bytes 17 @ be_bytes 34)
     @ be_bytes (fst sample_sum) @ be_bytes (snd sample_sum) @ sample_page @ replicate 24 0"

definition sample_wal :: "byte list" where
  "sample_wal = sample_head @ be_bytes (fst sample_seed) @ be_bytes (snd sample_seed) @ sample_frames"

lemma sample_checksum_ok: "length bs mod 8 = 0 \<Longrightarrow> checksum_chain bs s = Inr (sample_checksum bs s)"
  using checksum_chain_total [of bs s] by (auto simp: sample_checksum_def)

lemma sample_lengths: "length sample_head = 24" "length sample_page = 512" "drop 32 sample_wal = sample_frames"
  by (simp_all add: sample_head_def sample_page_def sample_wal_def)

lemma sample_header:
  "read_wal_header sample_wal = Inr \<lparr>wh_version = 3007000, wh_page_size = 512, wh_checkpoint = 0,
     wh_salt = be_bytes 17 @ be_bytes 34, wh_seed = sample_seed\<rparr>"
proof -
  have "slice_of 0 24 sample_wal = sample_head"
    by (simp add: slice_of_def sample_wal_def sample_lengths)
  moreover have "checksum_chain sample_head (0, 0) = Inr sample_seed"
    by (simp add: sample_checksum_ok sample_lengths sample_seed_def)
  moreover have "slice_of 24 28 sample_wal = be_bytes (fst sample_seed)"
    "slice_of 28 32 sample_wal = be_bytes (snd sample_seed)"
    by (simp_all add: slice_of_def sample_wal_def sample_lengths)
  moreover have "slice_of 0 4 sample_wal = be_bytes wal_magic" "slice_of 4 8 sample_wal = be_bytes 3007000"
    "slice_of 8 12 sample_wal = be_bytes 512" "slice_of 12 16 sample_wal = be_bytes 0"
    "slice_of 16 24 sample_wal = be_bytes 17 @ be_bytes 34"
    by (simp_all add: slice_of_def sample_wal_def sample_head_def)
  moreover have "32 \<le> length sample_wal"
    by (simp add: sample_wal_def sample_lengths)
  ultimately show ?thesis
    by (simp add: read_wal_header_def)
qed

lemma sample_frame:
  "slice_of 0 8 sample_frames = be_bytes 1 @ be_bytes 1" "frame_salt sample_frames = be_bytes 17 @ be_bytes 34"
  "frame_page sample_frames = 1" "frame_stored sample_frames = sample_sum"
  "frame_payload 512 sample_frames = sample_page" "drop 536 sample_frames = replicate 24 0"
  "length sample_frames = 560"
  "frame_checksum sample_frames sample_page sample_seed = Inr sample_sum"
proof -
  note written = new_frame [of "be_bytes 1 @ be_bytes 1 @ be_bytes 17 @ be_bytes 34" sample_page 512
      "fst sample_sum" "snd sample_sum" "replicate 24 0", folded sample_frames_def]
  show head: "slice_of 0 8 sample_frames = be_bytes 1 @ be_bytes 1"
    using written(1) sample_lengths by (simp add: slice_of_def)
  show "frame_salt sample_frames = be_bytes 17 @ be_bytes 34" "frame_page sample_frames = 1"
    "frame_stored sample_frames = sample_sum" "frame_payload 512 sample_frames = sample_page"
    "drop 536 sample_frames = replicate 24 0" "length sample_frames = 560"
    using written(2-7) sample_lengths by (simp_all add: frame_salt_def frame_page_def slice_of_def)
  show "frame_checksum sample_frames sample_page sample_seed = Inr sample_sum"
    by (simp add: frame_checksum_def head sample_checksum_ok sample_lengths sample_sum_def)
qed

lemma sample_old_frame: "frame_salt (replicate 24 0) \<noteq> be_bytes 17 @ be_bytes 34"
proof
  assume "frame_salt (replicate 24 0) = be_bytes 17 @ be_bytes 34"
  then have "replicate 8 0 = be_bytes 17 @ be_bytes 34"
    by (simp add: frame_salt_def slice_of_def)
  then have "set (replicate 8 (0 :: byte)) = set (be_bytes 17 @ be_bytes 34)"
    by (rule arg_cong)
  then have "17 \<in> {0 :: byte}"
    by (simp add: be_bytes_def)
  then show False
    by simp
qed

lemma sample_passes: "verify_wal sample_wal = Inr (take 568 sample_wal)"
proof -
  have "verify_frames 512 (be_bytes 17 @ be_bytes 34) (replicate 24 0) s = Inr []" for s
    by (subst verify_frames.simps) (simp add: sample_old_frame)
  then have "verify_frames 512 (be_bytes 17 @ be_bytes 34) sample_frames sample_seed = Inr (take 536 sample_frames)"
    by (subst verify_frames.simps) (simp add: sample_frame)
  moreover have "take 568 sample_wal = take 32 sample_wal @ take 536 sample_frames"
    by (simp add: sample_wal_def sample_lengths)
  moreover have "page_size_ok 512"
    by (simp add: page_size_ok_def)
  ultimately show ?thesis
    by (simp add: verify_wal_def sample_header sample_lengths)
qed

lemma sample_reader: "wal_reader sample_wal = [(be_bytes 1 @ be_bytes 1, sample_page)]"
proof -
  have "read_frames 512 (be_bytes 17 @ be_bytes 34) (replicate 24 0) s = []" for s
    by (subst read_frames.simps) simp
  then have "read_frames 512 (be_bytes 17 @ be_bytes 34) sample_frames sample_seed
      = [(be_bytes 1 @ be_bytes 1, sample_page)]"
    by (subst read_frames.simps) (simp add: sample_frame)
  then show ?thesis
    by (simp add: wal_reader_def sample_header sample_lengths)
qed

text \<open>With a cipher that turns every bit.\<close>

theorem rekeyed_log_is_complete_witness:
  "\<exists>new. rekey_wal (map (\<lambda>b. NOT b)) 512 (take 568 sample_wal) = Inr (new, 1)
    \<and> wal_reader new = [(be_bytes 1 @ be_bytes 1, map (\<lambda>b. NOT b) sample_page)]"
  using rekeyed_log_is_complete [OF sample_passes sample_header, of "map (\<lambda>b. NOT b)"]
  by (auto simp: keeps_length_def sample_reader)

end
