(* ===== verification/Updater.thy ===== *)
theory Updater
  imports Py_Prelude
begin

text \<open>
  Application updates: \<^verbatim>\<open>updater.py\<close> and the helper process of \<^verbatim>\<open>update_runtime.py\<close>. A record
  holds the attributes of \<^verbatim>\<open>Updater\<close>, the displayed \<^verbatim>\<open>state\<close> included, and one holds those of
  \<^verbatim>\<open>WindowsUpdateRuntime\<close> with the two marker files it leaves for the helper. Every definition on
  them is a part of the code that runs without giving up the updater's lock, or a part of
  \<^verbatim>\<open>runtime.start\<close>, which runs without the lock.

  What the operating system answers is an argument: whether a process is alive, what the helper wrote, whether a
  write succeeds, the clock. The download itself and the unpacking of the archive are outside
  the model: their outcome is an argument of the step that follows them.
\<close>

section \<open>Build identities and the choice of a run\<close>

definition alpha_num :: "char \<Rightarrow> bool" where
  "alpha_num c \<longleftrightarrow>
     (CHR ''a'' \<le> c \<and> c \<le> CHR ''z'') \<or> (CHR ''A'' \<le> c \<and> c \<le> CHR ''Z'')
       \<or> (CHR ''0'' \<le> c \<and> c \<le> CHR ''9'')"

definition lower_hex :: "char \<Rightarrow> bool" where
  "lower_hex c \<longleftrightarrow> (CHR ''a'' \<le> c \<and> c \<le> CHR ''f'') \<or> (CHR ''0'' \<le> c \<and> c \<le> CHR ''9'')"

text \<open>\<^verbatim>\<open>REPOSITORY_PATTERN\<close>: an owner, a slash, and a name that is neither one dot nor two.\<close>

definition repository_ok :: "string \<Rightarrow> bool" where
  "repository_ok s =
     (case split_on CHR ''/'' s of
        [c # cs, name] \<Rightarrow>
          alpha_num c \<and> list_all (\<lambda>x. alpha_num x \<or> x = CHR ''-'') cs
          \<and> name \<noteq> [] \<and> name \<noteq> ''.'' \<and> name \<noteq> ''..''
          \<and> list_all (\<lambda>x. alpha_num x \<or> x = CHR ''_'' \<or> x = CHR ''.'' \<or> x = CHR ''-'') name
      | _ \<Rightarrow> False)"

definition sha1_ok :: "string \<Rightarrow> bool" where
  "sha1_ok s \<longleftrightarrow> length s = 40 \<and> list_all lower_hex s"

definition app_id :: string where
  "app_id = ''580868F7-B96A-4214-829A-609D552F2C3A''"

definition build_keys :: "string list" where
  "build_keys = [''schema_version'', ''app_id'', ''version'', ''repository'', ''sha'', ''run_id'',
     ''run_number'', ''run_attempt'']"

fun plain_nat :: "pyval \<Rightarrow> bool" where
  "plain_nat (PInt i) = (0 \<le> i)"
| "plain_nat _ = False"

definition valid_build :: "(string \<times> pyval) list \<Rightarrow> bool" where
  "valid_build d \<longleftrightarrow>
     list_all (\<lambda>k. dict_get d k \<noteq> None) build_keys
     \<and> dict_get_none d ''schema_version'' = PInt 1
     \<and> dict_get_none d ''app_id'' = PStr app_id
     \<and> (case dict_get_none d ''version'' of PStr v \<Rightarrow> 0 < length v \<and> length v \<le> 200 | _ \<Rightarrow> False)
     \<and> (case dict_get_none d ''repository'' of PNone \<Rightarrow> True | PStr r \<Rightarrow> repository_ok r | _ \<Rightarrow> False)
     \<and> (case dict_get_none d ''sha'' of PNone \<Rightarrow> True | PStr h \<Rightarrow> sha1_ok h | _ \<Rightarrow> False)
     \<and> list_all (\<lambda>k. plain_nat (dict_get_none d k)) [''run_id'', ''run_number'', ''run_attempt'']"

text \<open>
  The result file of the helper: its status, message and version, when it is a terminal result. The
  fixed statuses are strings, so other JSON values of the key are not among them
  (a list or a dict is unhashable there and raises; the caller of the source does not catch it).
\<close>

record helper_result =
  te_status :: string
  te_message :: string
  te_version :: "string option"

definition terminal_statuses :: "string list" where
  "terminal_statuses = [''installed'', ''error'', ''reboot_required'']"

definition terminal_result :: "(string \<times> pyval) list \<Rightarrow> helper_result option result" where
  "terminal_result d =
     (case dict_get_none d ''status'' of
        PList _ \<Rightarrow> Inl (Type_Error ''unhashable type'')
      | PDict _ \<Rightarrow> Inl (Type_Error ''unhashable type'')
      | PStr st \<Rightarrow>
          Inr (if st \<in> set terminal_statuses then
                 (case (dict_get_none d ''message'', dict_get_none d ''version'') of
                    (PStr msg, PNone) \<Rightarrow> Some \<lparr>te_status = st, te_message = msg, te_version = None\<rparr>
                  | (PStr msg, PStr v) \<Rightarrow> Some \<lparr>te_status = st, te_message = msg, te_version = Some v\<rparr>
                  | _ \<Rightarrow> None)
               else None)
      | _ \<Rightarrow> Inr None)"

text \<open>The identity of a run of the workflow, and that of the running build.\<close>

record run_ident =
  ri_id :: int
  ri_number :: int
  ri_attempt :: int
  ri_sha :: string

record update_source =
  so_repository :: string
  so_branch :: string
  so_workflow :: string
  so_artifact :: string

record build =
  bu_repository :: "string option"
  bu_run_id :: int
  bu_number :: int
  bu_attempt :: int
  bu_version :: string

fun positive_num :: "pyval \<Rightarrow> int option" where
  "positive_num (PInt i) = (if 0 < i then Some i else None)"
| "positive_num _ = None"

text \<open>
  The chain of conditions on one entry of \<^verbatim>\<open>workflow_runs\<close>, tested from left to right; an entry, a repository or a
  path of another JSON type has no \<^verbatim>\<open>get\<close> or \<^verbatim>\<open>split\<close>.
\<close>

definition attribute_error :: py_error where
  "attribute_error = Type_Error ''attribute''"

definition head_repository :: "(string \<times> pyval) list \<Rightarrow> pyval result" where
  "head_repository r =
     (let v = dict_get_none r ''head_repository'' in
      if \<not> truthy v then Inr PNone
      else case v of PDict d \<Rightarrow> Inr (dict_get_none d ''full_name'') | _ \<Rightarrow> Inl attribute_error)"

definition run_workflow :: "(string \<times> pyval) list \<Rightarrow> string result" where
  "run_workflow r =
     (case dict_get r ''path'' of
        None \<Rightarrow> Inr ''''
      | Some (PStr p) \<Rightarrow> Inr (hd (split_on CHR ''@'' p))
      | Some _ \<Rightarrow> Inl attribute_error)"

definition run_numbers :: "(string \<times> pyval) list \<Rightarrow> run_ident option" where
  "run_numbers r =
     (case (positive_num (dict_get_none r ''id''), positive_num (dict_get_none r ''run_number''),
            positive_num (dict_get_none r ''run_attempt''), dict_get_none r ''head_sha'') of
        (Some i, Some n, Some a, PStr h) \<Rightarrow>
          if sha1_ok h then Some \<lparr>ri_id = i, ri_number = n, ri_attempt = a, ri_sha = h\<rparr> else None
      | _ \<Rightarrow> None)"

definition eligible_run :: "update_source \<Rightarrow> (string \<times> pyval) list \<Rightarrow> run_ident option result" where
  "eligible_run so r =
     (if dict_get_none r ''event'' = PStr ''push'' \<and> dict_get_none r ''status'' = PStr ''completed''
         \<and> dict_get_none r ''conclusion'' = PStr ''success''
         \<and> dict_get_none r ''head_branch'' = PStr (so_branch so)
      then and_then (head_repository r) (\<lambda>full.
             if full \<noteq> PStr (so_repository so) then Inr None
             else and_then (run_workflow r) (\<lambda>p.
               Inr (if p = ''.github/workflows/'' @ so_workflow so then run_numbers r else None)))
      else Inr None)"

fun eligible_runs :: "update_source \<Rightarrow> pyval list \<Rightarrow> run_ident list result" where
  "eligible_runs so [] = Inr []"
| "eligible_runs so (v # vs) =
     (case v of
        PDict r \<Rightarrow> and_then (eligible_run so r) (\<lambda>x.
          and_then (eligible_runs so vs) (\<lambda>xs. Inr (case x of None \<Rightarrow> xs | Some y \<Rightarrow> y # xs)))
      | _ \<Rightarrow> Inl attribute_error)"

text \<open>\<^verbatim>\<open>max(..., key=...)\<close> keeps the first of the largest.\<close>

fun newest_run :: "run_ident list \<Rightarrow> run_ident option" where
  "newest_run [] = None"
| "newest_run (r # rs) =
     (case newest_run rs of
        None \<Rightarrow> Some r
      | Some b \<Rightarrow>
          if (ri_number r, ri_attempt r) < (ri_number b, ri_attempt b) then Some b else Some r)"

definition latest_run :: "update_source \<Rightarrow> build option \<Rightarrow> pyval list \<Rightarrow> run_ident option result" where
  "latest_run so b vs = and_then (eligible_runs so vs) (\<lambda>rs.
     Inr (case newest_run rs of
            None \<Rightarrow> None
          | Some r \<Rightarrow>
              (case b of
                 None \<Rightarrow> Some r
               | Some bu \<Rightarrow>
                   if bu_repository bu = Some (so_repository so)
                      \<and> (ri_number r, ri_attempt r) \<le> (bu_number bu, bu_attempt bu)
                   then None else Some r)))"

lemma newest_run_in: "newest_run rs = Some r \<Longrightarrow> r \<in> set rs"
  by (induction rs arbitrary: r) (auto split: option.splits if_splits)

lemma newest_run_max:
  "newest_run rs = Some r \<Longrightarrow> x \<in> set rs \<Longrightarrow> (ri_number x, ri_attempt x) \<le> (ri_number r, ri_attempt r)"
proof (induction rs arbitrary: r x)
  case (Cons a rs)
  show ?case
  proof (cases "newest_run rs")
    case None
    have "rs = []"
      using None by (cases rs) (auto split: option.splits if_splits)
    with Cons.prems None show ?thesis by auto
  next
    case (Some b)
    have "\<forall>y \<in> set rs. (ri_number y, ri_attempt y) \<le> (ri_number b, ri_attempt b)"
      using Cons.IH Some by blast
    with Cons.prems Some show ?thesis
      by (auto split: if_splits simp del: less_eq_prod_simp less_prod_simp)
  qed
qed simp

section \<open>The artifact of a run\<close>

text \<open>
  \<^verbatim>\<open>_resolve\<close>: the pages of the artifact list, at most ten, until as many artifacts have been
  read as the server counts; then the only unexpired artifact of the configured name, whose digest must be
  usable. A page is what the GitHub client returned or raised.
\<close>

datatype update_failure = Update_Failure string | Os_Failure | Other_Failure

type_synonym 'a attempt = "update_failure + 'a"

record artifact_page =
  ap_artifacts :: "(string \<times> pyval) list list"
  ap_total :: int

fun read_pages :: "(nat \<Rightarrow> artifact_page attempt) \<Rightarrow> nat list \<Rightarrow> (string \<times> pyval) list list
    \<Rightarrow> (string \<times> pyval) list list attempt" where
  "read_pages fetch [] acc =
     Inl (Update_Failure ''The workflow has too many artifacts to select safely.'')"
| "read_pages fetch (n # ns) acc =
     (case fetch n of
        Inl e \<Rightarrow> Inl e
      | Inr p \<Rightarrow>
          (let acc' = acc @ ap_artifacts p in
           if ap_total p \<le> int (length acc') then Inr acc' else read_pages fetch ns acc'))"

definition digest_of :: "pyval \<Rightarrow> string option" where
  "digest_of v =
     (case v of
        PStr s \<Rightarrow>
          if has_prefix ''sha256:'' s \<and> length s = 71 \<and> list_all lower_hex (drop 7 s)
          then Some (drop 7 s) else None
      | _ \<Rightarrow> None)"

record selected =
  se_run :: run_ident
  se_artifact :: int
  se_digest :: string

record candidate =
  ca_id :: string
  ca_version :: string
  ca_run_id :: int
  ca_attempt :: int

definition select_artifact :: "update_source \<Rightarrow> run_ident \<Rightarrow> (string \<times> pyval) list list \<Rightarrow> selected attempt" where
  "select_artifact so run arts =
     (case filter (\<lambda>a. dict_get_none a ''name'' = PStr (so_artifact so)
                       \<and> dict_get_none a ''expired'' = PBool False) arts of
        [a] \<Rightarrow>
          (case (positive_num (dict_get_none a ''id''), digest_of (dict_get_none a ''digest'')) of
             (Some i, Some h) \<Rightarrow> Inr \<lparr>se_run = run, se_artifact = i, se_digest = h\<rparr>
           | _ \<Rightarrow> Inl (Update_Failure ''The artifact has no verifiable GitHub SHA-256 digest.''))
      | _ \<Rightarrow> Inl (Update_Failure ''The newest eligible run has no unique unexpired installer artifact.''))"

definition run_candidate :: "(int \<Rightarrow> string) \<Rightarrow> string \<Rightarrow> run_ident \<Rightarrow> candidate" where
  "run_candidate digits fresh run =
     \<lparr>ca_id = fresh,
      ca_version = ''Build '' @ digits (ri_number run) @ ''.'' @ digits (ri_attempt run),
      ca_run_id = ri_id run, ca_attempt = ri_attempt run\<rparr>"

definition resolve_artifact :: "(int \<Rightarrow> string) \<Rightarrow> update_source \<Rightarrow> (nat \<Rightarrow> artifact_page attempt) \<Rightarrow> string
    \<Rightarrow> run_ident \<Rightarrow> (selected \<times> candidate) attempt" where
  "resolve_artifact digits so fetch fresh run =
     (case read_pages fetch [1..<11] [] of
        Inl e \<Rightarrow> Inl e
      | Inr arts \<Rightarrow>
          (case select_artifact so run arts of
             Inl e \<Rightarrow> Inl e
           | Inr sel \<Rightarrow> Inr (sel, run_candidate digits fresh run)))"

text \<open>\<^verbatim>\<open>_message\<close>.\<close>

fun failure_message :: "update_failure \<Rightarrow> string" where
  "failure_message (Update_Failure m) = m"
| "failure_message _ = ''Update operation failed. Check access, disk space, and artifact availability.''"

section \<open>The helper process\<close>

text \<open>
  The attributes of \<^verbatim>\<open>WindowsUpdateRuntime\<close>, the \<^verbatim>\<open>go.json\<close> and \<^verbatim>\<open>cancel.json\<close> files written so far
  with the stage directory they went to and the nonce inside, and the processes killed.
\<close>

datatype marker = Go_File string string | Cancel_File string string

record runtime =
  rt_stage :: "string option"
  rt_process :: "string option"
  rt_nonce :: "string option"
  rt_files :: "marker list"
  rt_killed :: "string list"

text \<open>What the operating system answers: live processes, \<^verbatim>\<open>accepted.json\<close> of a stage (nonce and status), writes that succeed.\<close>

record helper_view =
  hv_alive :: "string \<Rightarrow> bool"
  hv_accepted :: "string \<Rightarrow> (string \<times> string) option"
  hv_disk :: bool

definition rt_reset :: "runtime \<Rightarrow> runtime" where
  "rt_reset rt = rt\<lparr>rt_stage := None, rt_process := None, rt_nonce := None\<rparr>"

definition process_gone :: "helper_view \<Rightarrow> runtime \<Rightarrow> bool" where
  "process_gone hv rt = (case rt_process rt of None \<Rightarrow> False | Some p \<Rightarrow> \<not> hv_alive hv p)"

text \<open>
  The part of \<^verbatim>\<open>start\<close> before the wait: what may fail, in the source's order, and the assignment of the three
  attributes. \<open>shell\<close> is the resolved PowerShell, \<open>times\<close> whether the process times are readable, \<open>staged\<close> whether
  the stage directory could be filled, \<open>child\<close> the new process or None when it could not be started.
\<close>

record launch_view =
  lv_shell :: bool
  lv_times :: bool
  lv_staged :: bool
  lv_child :: "string option"
  lv_stage :: string
  lv_nonce :: string

definition rt_spawn :: "helper_view \<Rightarrow> launch_view \<Rightarrow> runtime \<Rightarrow> string attempt \<times> runtime" where
  "rt_spawn hv lv rt =
     (if rt_process rt \<noteq> None \<and> \<not> process_gone hv rt
      then (Inl (Update_Failure ''An updater helper is already running.''), rt)
      else if \<not> lv_shell lv
      then (Inl (Update_Failure ''An external PowerShell runtime is required.''), rt_reset rt)
      else if \<not> lv_times lv
      then (Inl (Update_Failure ''Cannot identify the application process.''), rt_reset rt)
      else if \<not> lv_staged lv
      then (Inl (Update_Failure ''The updater staging area could not be prepared.''), rt_reset rt)
      else (case lv_child lv of
              None \<Rightarrow> (Inl (Update_Failure ''The updater helper could not be started.''), rt_reset rt)
            | Some p \<Rightarrow>
                (Inr p, rt\<lparr>rt_stage := Some (lv_stage lv), rt_process := Some p,
                          rt_nonce := Some (lv_nonce lv)\<rparr>)))"

text \<open>
  One round of \<^verbatim>\<open>_await_accept\<close>, and the rounds in sequence; each round reads the attributes and the clock
  again. The list of rounds is what the loop sees; when it ends the wait goes on.
\<close>

definition helper_accept_seconds :: pytime where
  "helper_accept_seconds = 30"

datatype wait_result = Wait_On | Wait_Accepted | Wait_Raised update_failure

definition not_accepted :: wait_result where
  "not_accepted = Wait_Raised (Update_Failure ''The updater helper did not accept the installation.'')"

definition wait_round :: "pytime \<Rightarrow> pytime \<Rightarrow> helper_view \<Rightarrow> runtime \<Rightarrow> wait_result" where
  "wait_round deadline now hv rt =
     (if deadline \<le> now then not_accepted
      else case rt_stage rt of
        None \<Rightarrow> Wait_Raised Other_Failure
      | Some stage \<Rightarrow>
          (case hv_accepted hv stage of
             Some (n, status) \<Rightarrow>
               if rt_nonce rt = Some n then
                 (if status = ''accepted'' then Wait_Accepted
                  else Wait_Raised (Update_Failure ''The updater helper rejected the installation.''))
               else if process_gone hv rt then not_accepted else Wait_On
           | None \<Rightarrow> if process_gone hv rt then not_accepted else Wait_On))"

fun await_accept :: "pytime \<Rightarrow> (pytime \<times> helper_view \<times> runtime) list \<Rightarrow> wait_result" where
  "await_accept deadline [] = Wait_On"
| "await_accept deadline ((now, hv, rt) # rounds) =
     (case wait_round deadline now hv rt of
        Wait_On \<Rightarrow> await_accept deadline rounds
      | r \<Rightarrow> r)"

text \<open>The handler of a failed wait: the process it started is killed, the attributes are forgotten.\<close>

definition rt_abandon :: "helper_view \<Rightarrow> string \<Rightarrow> runtime \<Rightarrow> runtime" where
  "rt_abandon hv p rt =
     (rt_reset rt)\<lparr>rt_killed := (if hv_alive hv p then rt_killed rt @ [p] else rt_killed rt)\<rparr>"

definition rt_arm :: "helper_view \<Rightarrow> runtime \<Rightarrow> unit attempt \<times> runtime" where
  "rt_arm hv rt =
     (case (rt_process rt, rt_stage rt, rt_nonce rt) of
        (Some p, Some stage, Some n) \<Rightarrow>
          if \<not> hv_alive hv p \<or> n = '''' then (Inl (Update_Failure ''Updater helper is unavailable.''), rt)
          else if \<not> hv_disk hv then (Inl Os_Failure, rt)
          else (Inr (), rt\<lparr>rt_files := rt_files rt @ [Go_File stage n]\<rparr>)
      | _ \<Rightarrow> (Inl (Update_Failure ''Updater helper is unavailable.''), rt))"

text \<open>\<^verbatim>\<open>cancel\<close> under the handler of its callers, which ignore a write that fails.\<close>

definition rt_cancel :: "helper_view \<Rightarrow> runtime \<Rightarrow> runtime" where
  "rt_cancel hv rt =
     (case (rt_stage rt, rt_nonce rt) of
        (Some stage, Some n) \<Rightarrow>
          if n \<noteq> '''' \<and> hv_disk hv then rt\<lparr>rt_files := rt_files rt @ [Cancel_File stage n]\<rparr> else rt
      | _ \<Rightarrow> rt)"

definition rt_failed :: "helper_view \<Rightarrow> runtime \<Rightarrow> bool" where
  "rt_failed hv rt \<longleftrightarrow>
     process_gone hv rt
     \<or> (case (rt_stage rt, rt_nonce rt) of
          (Some stage, Some n) \<Rightarrow> n \<noteq> '''' \<and> hv_accepted hv stage = Some (n, ''error'')
        | _ \<Rightarrow> False)"

section \<open>The updater\<close>

datatype update_phase = Ph_Idle | Ph_Checking | Ph_Downloading | Ph_Ready | Ph_Installing | Ph_Error

record prepared =
  pr_installer :: string
  pr_run :: run_ident
  pr_version :: string

text \<open>
  \<open>up_ended\<close> collects the operations whose \<^verbatim>\<open>_handoff_finished\<close> event has been set (each attempt has
  an event of its own); \<open>up_deadline\<close> is None for \<^verbatim>\<open>float("inf")\<close>; an empty \<open>up_reason\<close> is the
  source's None. The displayed state's description of the running build and its \<^verbatim>\<open>auto\<close> flag are left out: no
  operation on this record reads them.
\<close>

record updater =
  up_supported :: bool
  up_reason :: string
  up_phase :: update_phase
  up_candidate :: "candidate option"
  up_bytes :: nat
  up_total :: "nat option"
  up_error :: "string option"
  up_last :: "helper_result option"
  up_handoff :: bool
  up_handoff_id :: "string option"
  up_ended :: "string list"
  up_deadline :: "pytime option"
  up_armed :: bool
  up_runtime :: "runtime option"
  up_build :: "build option"
  up_source :: update_source
  up_prepared :: "prepared option"
  up_busy :: bool
  up_stage :: "string option"

definition new_updater :: "update_source \<Rightarrow> build option \<Rightarrow> helper_result option \<Rightarrow> updater" where
  "new_updater so b r =
     \<lparr>up_supported = False,
      up_reason = ''Manual updates require the installed Windows main launcher.'',
      up_phase = Ph_Idle, up_candidate = None, up_bytes = 0, up_total = None, up_error = None,
      up_last = r, up_handoff = False, up_handoff_id = None, up_ended = [], up_deadline = Some 0,
      up_armed = False, up_runtime = None, up_build = b, up_source = so, up_prepared = None,
      up_busy = False, up_stage = None\<rparr>"

text \<open>
  \<^verbatim>\<open>register_runtime\<close> past its first test: the configuration is checked, a shell is looked for, and the
  runtime is created or its creation fails with a message of its own or with another exception.
\<close>

definition workflow_ok :: "string \<Rightarrow> bool" where
  "workflow_ok w \<longleftrightarrow>
     (\<exists>x \<in> set [''.yml'', ''.yaml''].
        has_suffix x w \<and> remove_suffix x w \<noteq> []
        \<and> list_all (\<lambda>c. alpha_num c \<or> c = CHR ''_'' \<or> c = CHR ''.'' \<or> c = CHR ''-'') (remove_suffix x w))"

definition source_ok :: "update_source \<Rightarrow> bool" where
  "source_ok so \<longleftrightarrow>
     repository_ok (so_repository so) \<and> workflow_ok (so_workflow so)
     \<and> so_branch so \<noteq> [] \<and> so_artifact so \<noteq> []"

definition new_runtime :: runtime where
  "new_runtime = \<lparr>rt_stage = None, rt_process = None, rt_nonce = None, rt_files = [], rt_killed = []\<rparr>"

definition register_runtime :: "unit attempt \<Rightarrow> updater \<Rightarrow> updater" where
  "register_runtime created u =
     (if up_build u = None then u
      else if \<not> source_ok (up_source u)
      then u\<lparr>up_reason := ''Invalid updater source configuration.''\<rparr>
      else (case created of
              Inl (Update_Failure m) \<Rightarrow> u\<lparr>up_reason := m\<rparr>
            | Inl _ \<Rightarrow> u\<lparr>up_reason :=
                ''The independent updater helper or Windows process containment is unavailable.''\<rparr>
            | Inr _ \<Rightarrow> u\<lparr>up_runtime := Some new_runtime, up_supported := True, up_reason := []\<rparr>))"

text \<open>\<^verbatim>\<open>if self.prepared is not None\<close>: the phase to return to.\<close>

definition rest_phase :: "updater \<Rightarrow> update_phase" where
  "rest_phase u = (if up_prepared u \<noteq> None then Ph_Ready else Ph_Error)"

definition runtime_do :: "(runtime \<Rightarrow> runtime) \<Rightarrow> updater \<Rightarrow> updater" where
  "runtime_do f u = u\<lparr>up_runtime := map_option f (up_runtime u)\<rparr>"

definition clear_handoff :: "updater \<Rightarrow> updater" where
  "clear_handoff u =
     u\<lparr>up_ended := up_ended u @ (case up_handoff_id u of None \<Rightarrow> [] | Some op \<Rightarrow> [op]),
       up_handoff_id := None, up_handoff := False\<rparr>"

definition cancel_install_locked :: "helper_view \<Rightarrow> string \<Rightarrow> updater \<Rightarrow> updater" where
  "cancel_install_locked hv msg u =
     (let u' = clear_handoff (runtime_do (rt_cancel hv) u) in
      u'\<lparr>up_phase := rest_phase u', up_error := Some msg\<rparr>)"

definition deadline_passed :: "pytime \<Rightarrow> updater \<Rightarrow> bool" where
  "deadline_passed now u = (case up_deadline u of None \<Rightarrow> False | Some d \<Rightarrow> d \<le> now)"

definition writes_blocked :: "helper_view \<Rightarrow> pytime \<Rightarrow> updater \<Rightarrow> bool \<times> updater" where
  "writes_blocked hv now u =
     (let u' =
        (if \<not> up_handoff u then u
         else if (case up_runtime u of None \<Rightarrow> False | Some rt \<Rightarrow> rt_failed hv rt)
         then cancel_install_locked hv
                ''The updater helper stopped; the application was not stopped.'' u
         else if \<not> up_armed u \<and> deadline_passed now u
         then cancel_install_locked hv
                ''The update handoff expired; the application was not stopped.'' u
         else u)
      in (up_handoff u', u'))"

text \<open>\<^verbatim>\<open>snapshot\<close>: the gate is reconciled, then the result file is read unless a handoff is live.\<close>

definition up_snapshot :: "helper_view \<Rightarrow> pytime \<Rightarrow> helper_result option \<Rightarrow> updater \<Rightarrow> updater" where
  "up_snapshot hv now result u =
     (let u' = snd (writes_blocked hv now u) in
      if up_runtime u' \<noteq> None \<and> \<not> up_handoff u' \<and> result \<noteq> None
      then u'\<lparr>up_last := result\<rparr> else u')"

subsection \<open>Checking and downloading\<close>

definition active_error :: py_error where
  "active_error = App_Error 409 ''An update operation is already active.''"

definition admit :: "updater \<Rightarrow> unit result" where
  "admit u =
     (if \<not> up_supported u then Inl (App_Error 409 (up_reason u))
      else if up_phase u \<in> {Ph_Checking, Ph_Downloading, Ph_Installing} \<or> up_handoff u
      then Inl active_error
      else Inr ())"

definition admit_operation :: "updater \<Rightarrow> unit result \<times> updater" where
  "admit_operation u =
     (case admit u of
        Inl e \<Rightarrow> (Inl e, u)
      | Inr _ \<Rightarrow> if up_busy u then (Inl active_error, u) else (Inr (), u\<lparr>up_busy := True\<rparr>))"

text \<open>\<^verbatim>\<open>check\<close> with \<^verbatim>\<open>_start\<close>; \<open>spawned\<close> is whether the thread could be started.\<close>

definition check_updates :: "bool \<Rightarrow> updater \<Rightarrow> unit result \<times> updater" where
  "check_updates spawned u =
     (case admit_operation u of
        (Inl e, u') \<Rightarrow> (Inl e, u')
      | (Inr _, u') \<Rightarrow>
          if spawned then (Inr (), u'\<lparr>up_phase := Ph_Checking, up_error := None\<rparr>)
          else (Inl (App_Error 503 ''Could not start the update operation.''),
                u'\<lparr>up_busy := False, up_phase := Ph_Error,
                   up_error := Some ''Could not start the update operation.''\<rparr>))"

definition scheduled_admit :: "updater \<Rightarrow> bool \<times> updater" where
  "scheduled_admit u =
     (if \<not> up_supported u \<or> up_phase u \<notin> {Ph_Idle, Ph_Ready, Ph_Error} \<or> up_handoff u \<or> up_busy u
      then (False, u) else (True, u\<lparr>up_busy := True\<rparr>))"

text \<open>\<^verbatim>\<open>_schedule\<close>: the delay before the next round.\<close>

definition next_check_delay :: "bool \<Rightarrow> pytime \<Rightarrow> pytime" where
  "next_check_delay ok delay = (if ok then 300 else min (max delay 300 * 2) 21600)"

definition holds_run :: "run_ident \<Rightarrow> updater \<Rightarrow> bool" where
  "holds_run r u =
     (case up_prepared u of
        None \<Rightarrow> False
      | Some p \<Rightarrow> ri_id (pr_run p) = ri_id r \<and> ri_attempt (pr_run p) = ri_attempt r)"

text \<open>The locked part of \<^verbatim>\<open>_cycle\<close>: the run to download, or None when the cycle is over.\<close>

definition cycle_decide :: "bool \<Rightarrow> run_ident option \<Rightarrow> updater \<Rightarrow> run_ident option \<times> updater" where
  "cycle_decide announce run u =
     (if (case run of None \<Rightarrow> True | Some r \<Rightarrow> holds_run r u)
      then (None,
            if \<not> announce then u
            else if up_prepared u = None
            then u\<lparr>up_phase := Ph_Idle, up_candidate := None, up_bytes := 0, up_total := None\<rparr>
            else u\<lparr>up_phase := Ph_Ready\<rparr>)
      else (run, u))"

definition download_begin :: "updater \<Rightarrow> bool \<times> updater" where
  "download_begin u =
     (if up_handoff u \<or> up_phase u = Ph_Installing then (False, u)
      else (True, u\<lparr>up_phase := Ph_Downloading, up_bytes := 0, up_total := None, up_error := None\<rparr>))"

text \<open>The stage directory of the running download: set before it, forgotten after it.\<close>

definition set_stage :: "string option \<Rightarrow> updater \<Rightarrow> updater" where
  "set_stage stage u = u\<lparr>up_stage := stage\<rparr>"

definition download_progress :: "nat \<Rightarrow> nat option \<Rightarrow> updater \<Rightarrow> updater" where
  "download_progress n whole u = u\<lparr>up_bytes := n, up_total := whole\<rparr>"

definition download_finish :: "candidate \<Rightarrow> prepared attempt \<Rightarrow> updater \<Rightarrow> updater" where
  "download_finish cand outcome u =
     (case outcome of
        Inl e \<Rightarrow> u\<lparr>up_phase := rest_phase u, up_error := Some (failure_message e)\<rparr>
      | Inr p \<Rightarrow> u\<lparr>up_prepared := Some p, up_phase := Ph_Ready,
                     up_candidate := Some (cand\<lparr>ca_version := pr_version p\<rparr>)\<rparr>)"

text \<open>The handler of \<^verbatim>\<open>_run_guarded\<close>, and its end.\<close>

definition operation_failed :: "update_failure \<Rightarrow> updater \<Rightarrow> updater" where
  "operation_failed e u =
     (if up_phase u \<in> {Ph_Checking, Ph_Downloading}
      then u\<lparr>up_phase := rest_phase u, up_error := Some (failure_message e)\<rparr> else u)"

definition operation_end :: "updater \<Rightarrow> updater" where
  "operation_end u = u\<lparr>up_busy := False\<rparr>"

subsection \<open>Installing\<close>

definition candidate_check :: "string \<Rightarrow> updater \<Rightarrow> unit result" where
  "candidate_check cid u =
     (case up_candidate u of
        Some c \<Rightarrow> if ca_id c = cid then Inr () else
          Inl (App_Error 409 ''The update candidate changed; check for updates again.'')
      | None \<Rightarrow> Inl (App_Error 409 ''The update candidate changed; check for updates again.''))"

text \<open>The first locked part of \<^verbatim>\<open>install_update\<close>; \<open>present\<close> is whether the installer is still a file.\<close>

definition install_begin :: "string \<Rightarrow> string \<Rightarrow> (string \<Rightarrow> bool) \<Rightarrow> updater \<Rightarrow> unit result \<times> updater" where
  "install_begin cid op present u =
     (case and_then (admit u) (\<lambda>_. candidate_check cid u) of
        Inl e \<Rightarrow> (Inl e, u)
      | Inr _ \<Rightarrow>
          (case (up_prepared u, up_runtime u) of
             (Some p, Some rt) \<Rightarrow>
               if up_phase u \<noteq> Ph_Ready
               then (Inl (App_Error 409 ''Download and verify the update before installing.''), u)
               else if \<not> present (pr_installer p)
               then (Inl (App_Error 409 ''The downloaded installer is missing; check for updates again.''),
                     u\<lparr>up_prepared := None, up_phase := Ph_Idle, up_candidate := None,
                       up_bytes := 0, up_total := None\<rparr>)
               else (Inr (),
                     u\<lparr>up_runtime := Some (rt_reset rt), up_handoff := True, up_handoff_id := Some op,
                       up_deadline := None, up_armed := False, up_phase := Ph_Installing,
                       up_error := None\<rparr>)
           | _ \<Rightarrow> (Inl (App_Error 409 ''Download and verify the update before installing.''), u)))"

text \<open>After \<^verbatim>\<open>runtime.start\<close> returned.\<close>

definition install_accepted :: "pytime \<Rightarrow> updater \<Rightarrow> updater" where
  "install_accepted now u = u\<lparr>up_deadline := Some (now + 15)\<rparr>"

text \<open>
  The handler around \<^verbatim>\<open>runtime.start\<close>. The handoff is cleared for the attempt's own identifier only; the
  cancel marker is written for whatever stage and nonce the runtime holds.
\<close>

definition install_failed :: "string \<Rightarrow> helper_view \<Rightarrow> update_failure \<Rightarrow> updater \<Rightarrow> py_error \<times> updater" where
  "install_failed op hv e u =
     (let u' = (if up_handoff_id u = Some op
                then (clear_handoff u)\<lparr>up_phase := Ph_Ready, up_error := None\<rparr> else u)
      in (App_Error 503 (case e of Update_Failure m \<Rightarrow> m
            | _ \<Rightarrow> ''Update handoff failed; the application was not stopped.''),
          runtime_do (rt_cancel hv) u'))"

definition cancel_install :: "string \<Rightarrow> helper_view \<Rightarrow> updater \<Rightarrow> updater" where
  "cancel_install op hv u =
     (if up_handoff_id u = Some op \<and> \<not> up_armed u
      then cancel_install_locked hv ''Update handoff was cancelled; the application was not stopped.'' u
      else u)"

definition arm_install :: "string \<Rightarrow> helper_view \<Rightarrow> pytime \<Rightarrow> updater \<Rightarrow> updater" where
  "arm_install op hv now u =
     (if up_handoff_id u \<noteq> Some op \<or> up_armed u then u
      else if deadline_passed now u
      then cancel_install_locked hv ''Updater handoff failed; the application was not stopped.'' u
      else (case up_runtime u of
              None \<Rightarrow> cancel_install_locked hv ''Updater handoff failed; the application was not stopped.'' u
            | Some rt \<Rightarrow>
                (case rt_arm hv rt of
                   (Inl _, rt') \<Rightarrow>
                     cancel_install_locked hv ''Updater handoff failed; the application was not stopped.''
                       (u\<lparr>up_runtime := Some rt'\<rparr>)
                 | (Inr _, rt') \<Rightarrow> u\<lparr>up_runtime := Some rt', up_armed := True\<rparr>)))"

text \<open>The watchdog of an attempt: it stops with its own event, or once another attempt has the lease.\<close>

definition watchdog_round :: "string \<Rightarrow> helper_view \<Rightarrow> pytime \<Rightarrow> updater \<Rightarrow> bool \<times> updater" where
  "watchdog_round op hv now u =
     (if op \<in> set (up_ended u) \<or> up_handoff_id u \<noteq> Some op then (False, u)
      else (True, snd (writes_blocked hv now u)))"

end
