(* ===== verification/Access_Gate.thy ===== *)
theory Access_Gate
  imports Updater
begin

text \<open>
  The access control of the API, \<^verbatim>\<open>api/auth.py\<close>: the request counters, the login limiter, the table of
  sessions bound to the fingerprint of the configured secret, and the middleware in front of the application.
  \<open>sha\<close> is SHA-256 in hexadecimal. The middleware decides from the head of a request whether the
  application sees it; afterwards the messages of the response decide what becomes of an update handoff
  that the request asked for.
\<close>

section \<open>Counters\<close>

record http_counts =
  hc_requests :: nat
  hc_reads :: nat
  hc_writes :: nat
  hc_errors :: nat
  hc_slow :: nat
  hc_observed_at :: "pytime option"

definition read_methods :: "string list" where
  "read_methods = [''GET'', ''HEAD'', ''OPTIONS'']"

definition record_request :: "string option \<Rightarrow> nat \<Rightarrow> rat \<Rightarrow> pytime \<Rightarrow> http_counts \<Rightarrow> http_counts" where
  "record_request verb status duration now c =
     (let reading = (case verb of None \<Rightarrow> False | Some v \<Rightarrow> v \<in> set read_methods) in
      \<lparr>hc_requests = hc_requests c + 1,
       hc_reads = (if reading then hc_reads c + 1 else hc_reads c),
       hc_writes = (if reading then hc_writes c else hc_writes c + 1),
       hc_errors = (if 400 \<le> status then hc_errors c + 1 else hc_errors c),
       hc_slow = (if 1000 \<le> duration then hc_slow c + 1 else hc_slow c),
       hc_observed_at = Some now\<rparr>)"

section \<open>Configuration\<close>

definition hex_digit :: "char \<Rightarrow> bool" where
  "hex_digit c \<longleftrightarrow> lower_hex c \<or> (CHR ''A'' \<le> c \<and> c \<le> CHR ''F'')"

definition hex_value :: "char \<Rightarrow> nat" where
  "hex_value c =
     (let n = of_char c in
      if 97 \<le> n then n - 87 else if 65 \<le> n then n - 55 else (n::nat) - 48)"

fun bytes_from_hex :: "string \<Rightarrow> nat list" where
  "bytes_from_hex (a # b # cs) = (16 * hex_value a + hex_value b) # bytes_from_hex cs"
| "bytes_from_hex _ = []"

record auth_config =
  au_digest :: "nat list"
  au_path :: string

text \<open>\<open>user_path\<close> and \<open>default_path\<close> are the resolved paths of the override and of the data directory.\<close>

definition validate_auth_config ::
  "string option \<Rightarrow> string option \<Rightarrow> (string \<Rightarrow> string) \<Rightarrow> string \<Rightarrow> auth_config result" where
  "validate_auth_config secret override user_path default_path =
     (let v = (case secret of None \<Rightarrow> [] | Some s \<Rightarrow> s) in
      if length v \<noteq> 64 \<or> \<not> list_all hex_digit v
      then Inl (Value_Error ''MAA_AUTH_SECRET_SHA256 must contain exactly 64 hexadecimal characters'')
      else case override of
        None \<Rightarrow> Inr \<lparr>au_digest = bytes_from_hex v, au_path = default_path\<rparr>
      | Some p \<Rightarrow>
          if py_blank p then Inl (Value_Error ''MAA_AUTH_DB_PATH must be a nonempty file path'')
          else Inr \<lparr>au_digest = bytes_from_hex v, au_path = user_path p\<rparr>)"

section \<open>The login limiter\<close>

text \<open>The next admitted attempt; None stands for \<^verbatim>\<open>float("-inf")\<close>.\<close>

type_synonym limiter = "pytime option"

definition retry_after :: "pytime \<Rightarrow> limiter \<Rightarrow> int \<times> limiter" where
  "retry_after now l =
     (case l of
        Some t \<Rightarrow> if now < t then (max 1 \<lceil>t - now\<rceil>, l) else (0, Some (now + 2))
      | None \<Rightarrow> (0, Some (now + 2)))"

section \<open>Sessions\<close>

record auth_db =
  ad_fingerprint :: "string option"
  ad_sessions :: "string list"

record session_store =
  st_fingerprint :: string
  st_initialized :: bool

definition st_initialize :: "session_store \<Rightarrow> auth_db \<Rightarrow> session_store \<times> auth_db" where
  "st_initialize st db =
     (if st_initialized st then (st, db)
      else (st\<lparr>st_initialized := True\<rparr>,
            if ad_fingerprint db \<noteq> Some (st_fingerprint st)
            then \<lparr>ad_fingerprint = Some (st_fingerprint st), ad_sessions = []\<rparr> else db))"

definition check_fingerprint :: "session_store \<Rightarrow> auth_db \<Rightarrow> unit result" where
  "check_fingerprint st db =
     raise_if (ad_fingerprint db \<noteq> Some (st_fingerprint st))
       (Runtime_Error ''Authentication configuration changed; restart required'')"

definition new_token :: "string \<Rightarrow> string" where
  "new_token fresh = ''maa_'' @ fresh"

definition issue_session ::
  "(string \<Rightarrow> string) \<Rightarrow> string \<Rightarrow> session_store \<Rightarrow> auth_db \<Rightarrow> string result \<times> session_store \<times> auth_db" where
  "issue_session sha fresh st0 db0 =
     (case st_initialize st0 db0 of
        (st, db) \<Rightarrow>
          (case check_fingerprint st db of
             Inl e \<Rightarrow> (Inl e, st, db)
           | Inr _ \<Rightarrow>
               let h = sha (new_token fresh) in
               if h \<in> set (ad_sessions db)
               then (Inl (Integrity_Error ''UNIQUE constraint failed: auth_sessions.token_hash''), st, db)
               else (Inr (new_token fresh), st, db\<lparr>ad_sessions := ad_sessions db @ [h]\<rparr>)))"

definition contains_session ::
  "string \<Rightarrow> session_store \<Rightarrow> auth_db \<Rightarrow> bool result \<times> session_store \<times> auth_db" where
  "contains_session h st0 db0 =
     (case st_initialize st0 db0 of
        (st, db) \<Rightarrow>
          (and_then (check_fingerprint st db) (\<lambda>_. Inr (h \<in> set (ad_sessions db))), st, db))"

definition revoke_sessions ::
  "string option \<Rightarrow> session_store \<Rightarrow> auth_db \<Rightarrow> nat result \<times> session_store \<times> auth_db" where
  "revoke_sessions target st0 db0 =
     (case st_initialize st0 db0 of
        (st, db) \<Rightarrow>
          (case check_fingerprint st db of
             Inl e \<Rightarrow> (Inl e, st, db)
           | Inr _ \<Rightarrow>
               let gone = (\<lambda>h. case target of None \<Rightarrow> True | Some t \<Rightarrow> h = t) in
               (Inr (length (filter gone (ad_sessions db))), st,
                db\<lparr>ad_sessions := filter (\<lambda>h. \<not> gone h) (ad_sessions db)\<rparr>)))"

section \<open>The middleware's decision\<close>

datatype scope_type = Sc_Http | Sc_Websocket | Sc_Other

text \<open>Header names arrive in lower case, as ASGI has them.\<close>

record http_request =
  rq_type :: scope_type
  rq_path :: string
  rq_method :: string
  rq_headers :: "(string \<times> string) list"

datatype verdict =
    Vd_Close nat
  | Vd_Reject nat string "(string \<times> string) list"
  | Vd_Forward "string option"

record gate =
  ga_limiter :: limiter
  ga_store :: session_store
  ga_db :: auth_db
  ga_updater :: updater

definition header_values :: "http_request \<Rightarrow> string \<Rightarrow> string list" where
  "header_values rq name = map snd (filter (\<lambda>h. fst h = name) (rq_headers rq))"

definition header_present :: "http_request \<Rightarrow> string \<Rightarrow> bool" where
  "header_present rq name = (case header_values rq name of [] \<Rightarrow> False | v # _ \<Rightarrow> v \<noteq> [])"

definition protected_path :: "http_request \<Rightarrow> bool" where
  "protected_path rq \<longleftrightarrow>
     rq_type rq \<noteq> Sc_Other \<and> (rq_path rq = ''/api'' \<or> has_prefix ''/api/'' (rq_path rq))"

definition preflight :: "http_request \<Rightarrow> bool" where
  "preflight rq \<longleftrightarrow>
     rq_method rq = ''OPTIONS'' \<and> header_present rq ''origin''
     \<and> header_present rq ''access-control-request-method''"

definition login_request :: "http_request \<Rightarrow> bool" where
  "login_request rq \<longleftrightarrow> rq_path rq = ''/api/auth/login'' \<and> rq_method rq = ''POST''"

text \<open>\<^verbatim>\<open>TOKEN_PATTERN\<close>.\<close>

definition token_ok :: "string \<Rightarrow> bool" where
  "token_ok t \<longleftrightarrow>
     has_prefix ''maa_'' t \<and> length t = 47
     \<and> list_all (\<lambda>c. alpha_num c \<or> c = CHR ''_'' \<or> c = CHR ''-'') (drop 4 t)"

definition ascii_lower :: "char \<Rightarrow> char" where
  "ascii_lower c = (if CHR ''A'' \<le> c \<and> c \<le> CHR ''Z'' then char_of (of_char c + 32 :: nat) else c)"

text \<open>The token of the only Authorization header, when it is well formed.\<close>

definition bearer_token :: "http_request \<Rightarrow> string option" where
  "bearer_token rq =
     (case header_values rq ''authorization'' of
        [v] \<Rightarrow>
          (case split_on CHR '' '' v of
             [scheme, t] \<Rightarrow>
               if map ascii_lower scheme = ''bearer'' \<and> token_ok t then Some t else None
           | _ \<Rightarrow> None)
      | _ \<Rightarrow> None)"

definition unauthorized :: verdict where
  "unauthorized = Vd_Reject 401 ''Authentication required'' [(''WWW-Authenticate'', ''Bearer'')]"

text \<open>The gate on writes during an update handoff, and the forwarding after it.\<close>

definition write_gate ::
  "helper_view \<Rightarrow> pytime \<Rightarrow> http_request \<Rightarrow> string option \<Rightarrow> gate \<Rightarrow> verdict \<times> gate" where
  "write_gate hv now rq auth g =
     (if rq_method rq \<in> set read_methods then (Vd_Forward auth, g)
      else (case writes_blocked hv now (ga_updater g) of
              (blocked, u) \<Rightarrow>
                (if blocked
                 then Vd_Reject 409 ''Application update handoff is active; new writes are unavailable.'' []
                 else Vd_Forward auth, g\<lparr>ga_updater := u\<rparr>)))"

text \<open>
  \<^verbatim>\<open>_handle\<close> up to the call of the application. \<open>io\<close> is whether the session database answers, \<open>digits\<close> prints
  a number.
\<close>

definition handle_request ::
  "(string \<Rightarrow> string) \<Rightarrow> (int \<Rightarrow> string) \<Rightarrow> helper_view \<Rightarrow> bool \<Rightarrow> pytime \<Rightarrow> http_request \<Rightarrow> gate
     \<Rightarrow> verdict \<times> gate" where
  "handle_request sha digits hv io now rq g =
     (if rq_type rq \<noteq> Sc_Http
      then (if rq_type rq = Sc_Websocket \<and> protected_path rq then Vd_Close 1008 else Vd_Forward None, g)
      else if \<not> protected_path rq \<or> preflight rq then (Vd_Forward None, g)
      else if login_request rq
      then (case retry_after now (ga_limiter g) of
              (wait, l) \<Rightarrow>
                if wait \<noteq> 0
                then (Vd_Reject 429 ''Too many login attempts'' [(''Retry-After'', digits wait)],
                      g\<lparr>ga_limiter := l\<rparr>)
                else write_gate hv now rq None (g\<lparr>ga_limiter := l\<rparr>))
      else (case bearer_token rq of
              None \<Rightarrow> (unauthorized, g)
            | Some t \<Rightarrow>
                if \<not> io then (Vd_Reject 503 ''Authentication unavailable'' [], g)
                else (case contains_session (sha t) (ga_store g) (ga_db g) of
                        (r, st, db) \<Rightarrow>
                          let g' = g\<lparr>ga_store := st, ga_db := db\<rparr> in
                          (case r of
                             Inl _ \<Rightarrow> (Vd_Reject 503 ''Authentication unavailable'' [], g')
                           | Inr valid \<Rightarrow>
                               if valid then write_gate hv now rq (Some (sha t)) g'
                               else (unauthorized, g')))))"

section \<open>The response, and a pending handoff\<close>

text \<open>
  The messages the application sends, each with whether the server took it; what the middleware notes
  of them. A response that was not started when an exception escapes is replaced by a 500.
\<close>

datatype asgi_message = Ms_Start nat | Ms_Body bool | Ms_Other

record response =
  rs_started :: bool
  rs_status :: "nat option"
  rs_complete :: bool
  rs_send_failed :: bool

definition no_response :: response where
  "no_response = \<lparr>rs_started = False, rs_status = None, rs_complete = False, rs_send_failed = False\<rparr>"

fun send_response :: "asgi_message \<times> bool \<Rightarrow> response \<Rightarrow> response" where
  "send_response (m, taken) r =
     (let r' = (case m of Ms_Start n \<Rightarrow> r\<lparr>rs_started := True, rs_status := Some n\<rparr> | _ \<Rightarrow> r) in
      if \<not> taken then r'\<lparr>rs_send_failed := True\<rparr>
      else if m = Ms_Body False then r'\<lparr>rs_complete := True\<rparr> else r')"

definition observe_response :: "(asgi_message \<times> bool) list \<Rightarrow> bool \<Rightarrow> response" where
  "observe_response ms returned =
     (let r = fold send_response ms no_response in
      if returned \<or> rs_started r then r
      else fold send_response [(Ms_Start 500, True), (Ms_Body False, True)] r)"

definition response_good :: "bool \<Rightarrow> bool \<Rightarrow> response \<Rightarrow> bool" where
  "response_good returned disconnected r \<longleftrightarrow>
     returned \<and> rs_complete r
     \<and> (case rs_status r of None \<Rightarrow> False | Some n \<Rightarrow> 200 \<le> n \<and> n < 300)
     \<and> \<not> rs_send_failed r \<and> \<not> disconnected"

definition settle_handoff :: "string option \<Rightarrow> bool \<Rightarrow> helper_view \<Rightarrow> pytime \<Rightarrow> updater \<Rightarrow> updater" where
  "settle_handoff pending good hv now u =
     (case pending of
        None \<Rightarrow> u
      | Some op \<Rightarrow> if good then arm_install op hv now u else cancel_install op hv u)"

text \<open>\<^verbatim>\<open>status\<close> of the access record: the last started response, 500 before any.\<close>

definition access_status :: "response \<Rightarrow> nat" where
  "access_status r = (case rs_status r of None \<Rightarrow> 500 | Some n \<Rightarrow> n)"

end
