(* ===== verification/Access_Gate_Props.thy ===== *)
theory Access_Gate_Props
  imports Access_Gate
begin

text \<open>
  What the access control promises. The sessions of the database are traced back through any sequence of operations of
  any application instances, old and new, to the issue that created them; the middleware forwards
  a protected request only with such a session, and a write only while no update handoff is live.
\<close>

section \<open>The login limiter\<close>

lemma wait_not_zero [simp]: "(now :: pytime) < t \<Longrightarrow> \<lceil>t - now\<rceil> \<noteq> 0"
  by linarith

lemma retry_after_admits:
  assumes "retry_after now l = (0, l')"
  shows "l' = Some (now + 2)"
  using assms by (auto simp: retry_after_def split: option.splits if_splits)

lemma retry_after_refuses:
  assumes "t < now + 2" "now \<le> t"
  shows "retry_after t (Some (now + 2)) = (max 1 \<lceil>now + 2 - t\<rceil>, Some (now + 2))"
    "max 1 \<lceil>now + 2 - t\<rceil> \<in> {1, 2}"
  using assms by (simp_all add: retry_after_def, linarith)

lemma retry_after_wait:
  assumes "retry_after t l = (w, l')" "w \<noteq> 0"
  shows "l' = l" "fst (retry_after (t + of_int w) l) = 0"
proof -
  obtain u where u: "l = Some u" "t < u" "w = max 1 \<lceil>u - t\<rceil>"
    using assms by (auto simp: retry_after_def split: option.splits if_splits)
  have "u \<le> t + of_int w"
    using u(3) by linarith
  with u assms show "l' = l" "fst (retry_after (t + of_int w) l) = 0"
    by (auto simp: retry_after_def)
qed

section \<open>Where sessions come from\<close>

text \<open>
  The operations on the session database, each by an application instance: its configured fingerprint, and
  whether it has initialised the database before.
\<close>

datatype session_event =
    Ev_Init session_store
  | Ev_Issue session_store string
  | Ev_Contains session_store string
  | Ev_Revoke session_store "string option"

fun session_step :: "(string \<Rightarrow> string) \<Rightarrow> session_event \<Rightarrow> auth_db \<Rightarrow> auth_db" where
  "session_step sha (Ev_Init st) db = snd (st_initialize st db)"
| "session_step sha (Ev_Issue st fresh) db = snd (snd (issue_session sha fresh st db))"
| "session_step sha (Ev_Contains st h) db = snd (snd (contains_session h st db))"
| "session_step sha (Ev_Revoke st target) db = snd (snd (revoke_sessions target st db))"

fun event_store :: "session_event \<Rightarrow> session_store" where
  "event_store (Ev_Init st) = st"
| "event_store (Ev_Issue st _) = st"
| "event_store (Ev_Contains st _) = st"
| "event_store (Ev_Revoke st _) = st"

definition empty_auth_db :: auth_db where
  "empty_auth_db = \<lparr>ad_fingerprint = None, ad_sessions = []\<rparr>"

definition run_sessions :: "(string \<Rightarrow> string) \<Rightarrow> session_event list \<Rightarrow> auth_db" where
  "run_sessions sha evs = fold (session_step sha) evs empty_auth_db"

text \<open>
  What ends a session \<open>h\<close> issued under the fingerprint \<open>fp\<close>: a new instance with another
  fingerprint, or a revocation by an instance that still has this one.
\<close>

definition ends_session :: "string \<Rightarrow> string \<Rightarrow> session_event \<Rightarrow> bool" where
  "ends_session fp h e \<longleftrightarrow>
     (if st_fingerprint (event_store e) = fp
      then (case e of Ev_Revoke _ target \<Rightarrow> target = None \<or> target = Some h | _ \<Rightarrow> False)
      else \<not> st_initialized (event_store e))"

text \<open>The session is alive at the end of the history: issued under \<open>fp\<close>, and not ended since.\<close>

definition issued_alive :: "(string \<Rightarrow> string) \<Rightarrow> string \<Rightarrow> string \<Rightarrow> session_event list \<Rightarrow> bool" where
  "issued_alive sha fp h evs \<longleftrightarrow>
     (\<exists>pre st fresh post. evs = pre @ Ev_Issue st fresh # post
        \<and> sha (new_token fresh) = h \<and> st_fingerprint st = fp
        \<and> list_all (\<lambda>e. \<not> ends_session fp h e) post)"

lemma issued_alive_snoc:
  assumes "issued_alive sha fp h evs" "\<not> ends_session fp h e"
  shows "issued_alive sha fp h (evs @ [e])"
proof -
  obtain pre st fresh post where
    "evs = pre @ Ev_Issue st fresh # post" "sha (new_token fresh) = h" "st_fingerprint st = fp"
    "list_all (\<lambda>e. \<not> ends_session fp h e) post"
    using assms(1) by (auto simp: issued_alive_def)
  then have "evs @ [e] = pre @ Ev_Issue st fresh # (post @ [e]) \<and> sha (new_token fresh) = h
      \<and> st_fingerprint st = fp \<and> list_all (\<lambda>e. \<not> ends_session fp h e) (post @ [e])"
    using assms(2) by simp
  then show ?thesis unfolding issued_alive_def by blast
qed

lemma issued_alive_new:
  assumes "sha (new_token fresh) = h" "st_fingerprint st = fp"
  shows "issued_alive sha fp h (evs @ [Ev_Issue st fresh])"
  using assms unfolding issued_alive_def by fastforce

lemmas session_ops = st_initialize_def issue_session_def contains_session_def revoke_sessions_def
  check_fingerprint_def raise_if_def

text \<open>One operation: a session it leaves was there before under the same fingerprint and not ended, or it is new.\<close>

lemma session_step_origin:
  assumes "h \<in> set (ad_sessions (session_step sha e db))"
    and "ad_fingerprint (session_step sha e db) = Some fp"
  shows "(h \<in> set (ad_sessions db) \<and> ad_fingerprint db = Some fp \<and> \<not> ends_session fp h e)
    \<or> (\<exists>st fresh. e = Ev_Issue st fresh \<and> sha (new_token fresh) = h \<and> st_fingerprint st = fp)"
proof (cases e)
  case (Ev_Init st)
  with assms show ?thesis
    by (auto simp: session_ops ends_session_def split: if_splits)
next
  case (Ev_Issue st fresh)
  with assms show ?thesis
    by (auto simp: session_ops ends_session_def Let_def split: if_splits)
next
  case (Ev_Contains st k)
  with assms show ?thesis
    by (auto simp: session_ops ends_session_def split: if_splits)
next
  case (Ev_Revoke st target)
  with assms show ?thesis
    by (auto simp: session_ops ends_session_def Let_def split: if_splits option.splits)
qed

lemma session_provenance:
  assumes "h \<in> set (ad_sessions (run_sessions sha evs))"
    and "ad_fingerprint (run_sessions sha evs) = Some fp"
  shows "issued_alive sha fp h evs"
  using assms
proof (induction evs rule: rev_induct)
  case Nil
  then show ?case by (simp add: run_sessions_def empty_auth_db_def)
next
  case (snoc e evs)
  have step: "run_sessions sha (evs @ [e]) = session_step sha e (run_sessions sha evs)"
    by (simp add: run_sessions_def)
  from session_step_origin [OF snoc.prems [unfolded step]]
  show ?case
    using snoc.IH by (auto intro: issued_alive_snoc issued_alive_new)
qed

section \<open>What passes the gate\<close>

lemma contains_session_Inr:
  assumes "contains_session h st db = (Inr True, st', db')"
  shows "h \<in> set (ad_sessions db)" "ad_fingerprint db = Some (st_fingerprint st)"
  using assms by (auto simp: session_ops and_then_Inr_iff split: if_splits)

lemma write_gate_forward:
  assumes "write_gate hv now rq a g = (Vd_Forward auth, g')"
  shows "auth = a" "rq_method rq \<notin> set read_methods \<Longrightarrow> \<not> up_handoff (ga_updater g')"
  using assms
  by (auto simp: write_gate_def writes_blocked_def Let_def split: if_splits prod.splits)

lemma handle_request_token:
  assumes "rq_type rq = Sc_Http" "protected_path rq" "\<not> preflight rq" "\<not> login_request rq"
    and "handle_request sha digits hv io now rq g = (Vd_Forward auth, g')"
  obtains t st db where "bearer_token rq = Some t" "io"
    "contains_session (sha t) (ga_store g) (ga_db g) = (Inr True, st, db)"
    "write_gate hv now rq (Some (sha t)) (g\<lparr>ga_store := st, ga_db := db\<rparr>) = (Vd_Forward auth, g')"
  using assms
  by (auto simp: handle_request_def unauthorized_def Let_def
      split: option.splits if_splits prod.splits sum.splits)

lemma handle_request_login:
  assumes "rq_type rq = Sc_Http" "protected_path rq" "\<not> preflight rq" "login_request rq"
    and "handle_request sha digits hv io now rq g = (Vd_Forward auth, g')"
  shows "fst (retry_after now (ga_limiter g)) = 0 \<and> ga_limiter g' = Some (now + 2)"
  using assms
  by (auto simp: handle_request_def retry_after_def write_gate_def Let_def
      split: option.splits if_splits prod.splits)

text \<open>
  C26: The application sees a request below \<^verbatim>\<open>/api\<close>, other than a preflight or a login, only when its one
  Authorization header carries a bearer token whose hash was issued as a session under the
  fingerprint of this instance's secret, and since then neither a revocation nor a start under another secret has ended
  it, whatever the history of instances on the session database; the application is told this hash. A
  request that writes reaches it only while no update handoff holds the write gate. A websocket never reaches a protected path.
\<close>

theorem only_live_sessions_pass:
  assumes "ga_db g = run_sessions sha evs"
    and "protected_path rq" "\<not> preflight rq" "\<not> login_request rq"
    and "handle_request sha digits hv io now rq g = (Vd_Forward auth, g')"
  shows "rq_type rq = Sc_Http
    \<and> (\<exists>t. bearer_token rq = Some t \<and> auth = Some (sha t)
        \<and> issued_alive sha (st_fingerprint (ga_store g)) (sha t) evs)
    \<and> (rq_method rq \<notin> set read_methods \<longrightarrow> \<not> up_handoff (ga_updater g'))"
proof -
  have http: "rq_type rq = Sc_Http"
    using assms(2,5)
    by (cases "rq_type rq") (auto simp: handle_request_def protected_path_def split: if_splits)
  obtain t st db where t: "bearer_token rq = Some t"
    "contains_session (sha t) (ga_store g) (ga_db g) = (Inr True, st, db)"
    "write_gate hv now rq (Some (sha t)) (g\<lparr>ga_store := st, ga_db := db\<rparr>) = (Vd_Forward auth, g')"
    using handle_request_token [OF http assms(2-5)] by metis
  have "issued_alive sha (st_fingerprint (ga_store g)) (sha t) evs"
    using contains_session_Inr [OF t(2)] session_provenance assms(1) by simp
  with http t(1) write_gate_forward [OF t(3)] show ?thesis by auto
qed

definition demo_hash :: "string \<Rightarrow> string" where
  "demo_hash t = CHR ''#'' # t"

definition demo_fresh :: string where
  "demo_fresh = ''abcdefghijklmnopqrstuvwxyzABCDEFGHIJKLMNO-_''"

definition demo_store :: session_store where
  "demo_store = \<lparr>st_fingerprint = ''fp1'', st_initialized = True\<rparr>"

definition demo_session_events :: "session_event list" where
  "demo_session_events =
     [Ev_Issue \<lparr>st_fingerprint = ''fp0'', st_initialized = False\<rparr> demo_fresh,
      Ev_Init (demo_store\<lparr>st_initialized := False\<rparr>),
      Ev_Issue demo_store demo_fresh,
      Ev_Revoke \<lparr>st_fingerprint = ''fp0'', st_initialized = True\<rparr> None]"

definition demo_gate :: gate where
  "demo_gate =
     \<lparr>ga_limiter = None, ga_store = demo_store, ga_db = run_sessions demo_hash demo_session_events,
      ga_updater = new_updater \<lparr>so_repository = [], so_branch = [], so_workflow = [], so_artifact = []\<rparr>
        None None\<rparr>"

definition demo_request :: http_request where
  "demo_request =
     \<lparr>rq_type = Sc_Http, rq_path = ''/api/outbox'', rq_method = ''POST'',
      rq_headers = [(''authorization'', ''Bearer maa_'' @ demo_fresh)]\<rparr>"

definition demo_helper :: helper_view where
  "demo_helper = \<lparr>hv_alive = (\<lambda>_. True), hv_accepted = (\<lambda>_. None), hv_disk = True\<rparr>"

lemma demo_request_passes:
  "protected_path demo_request" "\<not> preflight demo_request" "\<not> login_request demo_request"
  "handle_request demo_hash (\<lambda>_. []) demo_helper True 5 demo_request demo_gate
     = (Vd_Forward (Some (demo_hash (''maa_'' @ demo_fresh))), demo_gate)"
  by code_simp+

theorem only_live_sessions_pass_witness:
  "\<exists>t. bearer_token demo_request = Some t
     \<and> issued_alive demo_hash ''fp1'' (demo_hash t) demo_session_events"
  using only_live_sessions_pass [of demo_gate demo_hash demo_session_events demo_request "\<lambda>_. []" demo_helper
      True 5 "Some (demo_hash (''maa_'' @ demo_fresh))" demo_gate] demo_request_passes
  by (auto simp: demo_gate_def demo_store_def)

end
