(* ===== verification/Update_Handoff.thy ===== *)
theory Update_Handoff
  imports Access_Gate
begin

text \<open>
  The updater with its threads: the scheduler's and the user's check, the requests that install, the wait for
  the helper, the write gate and the watchdogs, interleaved at the granularity of the updater's lock. The
  wait for the helper reads the runtime without the lock, so each of its rounds is a step of its own, and so is
  the launch of the process. A check is at \<open>us_cycle\<close>; an installing request is in \<open>us_launches\<close> until
  its helper accepted, and in \<open>us_accepted\<close> afterwards, when its response is on its way.
\<close>

section \<open>Steps\<close>

datatype cycle =
    Cy_None
  | Cy_Query bool
  | Cy_Resolve bool run_ident
  | Cy_Fetch bool candidate
  | Cy_Download candidate
  | Cy_Failed update_failure
  | Cy_Ended

datatype launch = La_Start | La_Wait pytime string

record update_system =
  us_up :: updater
  us_cycle :: cycle
  us_launches :: "(string \<times> launch) list"
  us_accepted :: "string list"
  us_nonces :: "string list"

definition start_system :: "update_source \<Rightarrow> build option \<Rightarrow> helper_result option \<Rightarrow> update_system" where
  "start_system so b r =
     \<lparr>us_up = new_updater so b r, us_cycle = Cy_None, us_launches = [], us_accepted = [], us_nonces = []\<rparr>"

text \<open>
  The exception handler of the launch of operation \<open>op\<close>, after a wait or before. It clears the handoff under the lock and cancels
  the runtime after it; both are one step here.
\<close>

definition launch_failed :: "string \<Rightarrow> helper_view \<Rightarrow> update_failure \<Rightarrow> update_system \<Rightarrow> update_system" where
  "launch_failed op hv e s =
     s\<lparr>us_up := snd (install_failed op hv e (us_up s)), us_launches := alist_del op (us_launches s)\<rparr>"

definition launch_spawn ::
  "string \<Rightarrow> helper_view \<Rightarrow> launch_view \<Rightarrow> pytime \<Rightarrow> runtime \<Rightarrow> update_system \<Rightarrow> update_system" where
  "launch_spawn op hv lv now rt s =
     (case rt_spawn hv lv rt of
        (Inl e, rt') \<Rightarrow> launch_failed op hv e (s\<lparr>us_up := (us_up s)\<lparr>up_runtime := Some rt'\<rparr>\<rparr>)
      | (Inr p, rt') \<Rightarrow>
          s\<lparr>us_up := (us_up s)\<lparr>up_runtime := Some rt'\<rparr>, us_nonces := lv_nonce lv # us_nonces s,
            us_launches := alist_put op (La_Wait (now + helper_accept_seconds) p) (us_launches s)\<rparr>)"

definition launch_round ::
  "string \<Rightarrow> pytime \<Rightarrow> string \<Rightarrow> helper_view \<Rightarrow> pytime \<Rightarrow> runtime \<Rightarrow> update_system \<Rightarrow> update_system" where
  "launch_round op deadline p hv now rt s =
     (case wait_round deadline now hv rt of
        Wait_On \<Rightarrow> s
      | Wait_Accepted \<Rightarrow>
          s\<lparr>us_up := install_accepted now (us_up s), us_launches := alist_del op (us_launches s),
            us_accepted := op # us_accepted s\<rparr>
      | Wait_Raised e \<Rightarrow>
          launch_failed op hv e (s\<lparr>us_up := runtime_do (rt_abandon hv p) (us_up s)\<rparr>))"

definition install_request :: "string \<Rightarrow> string \<Rightarrow> (string \<Rightarrow> bool) \<Rightarrow> update_system \<Rightarrow> update_system" where
  "install_request cid op present s =
     (case install_begin cid op present (us_up s) of
        (r, u) \<Rightarrow> s\<lparr>us_up := u,
          us_launches := (if r = Inr () then alist_put op La_Start (us_launches s) else us_launches s)\<rparr>)"

definition check_request :: "bool \<Rightarrow> update_system \<Rightarrow> update_system" where
  "check_request spawned s =
     (case check_updates spawned (us_up s) of
        (r, u) \<Rightarrow> s\<lparr>us_up := u, us_cycle := (if r = Inr () then Cy_Query True else us_cycle s)\<rparr>)"

definition scheduled_round :: "update_system \<Rightarrow> update_system" where
  "scheduled_round s =
     (case scheduled_admit (us_up s) of
        (ok, u) \<Rightarrow> s\<lparr>us_up := u, us_cycle := (if ok then Cy_Query False else us_cycle s)\<rparr>)"

text \<open>The next part of a check; what GitHub answered is the argument.\<close>

datatype answer =
    An_Latest "run_ident option"
  | An_Resolved candidate
  | An_Downloaded prepared
  | An_Failed update_failure

definition cycle_step :: "answer \<Rightarrow> update_system \<Rightarrow> update_system" where
  "cycle_step an s =
     (case us_cycle s of
        Cy_None \<Rightarrow> s
      | Cy_Query ann \<Rightarrow>
          (case an of
             An_Latest run \<Rightarrow>
               (case cycle_decide ann run (us_up s) of
                  (None, u) \<Rightarrow> s\<lparr>us_up := u, us_cycle := Cy_Ended\<rparr>
                | (Some r, u) \<Rightarrow> s\<lparr>us_up := u, us_cycle := Cy_Resolve ann r\<rparr>)
           | An_Failed e \<Rightarrow> s\<lparr>us_cycle := Cy_Failed e\<rparr>
           | _ \<Rightarrow> s)
      | Cy_Resolve ann r \<Rightarrow>
          (case an of
             An_Resolved c \<Rightarrow> s\<lparr>us_cycle := Cy_Fetch ann c\<rparr>
           | An_Failed e \<Rightarrow> s\<lparr>us_cycle := Cy_Failed e\<rparr>
           | _ \<Rightarrow> s)
      | Cy_Fetch ann c \<Rightarrow>
          (case download_begin (us_up s) of
             (ok, u) \<Rightarrow> s\<lparr>us_up := u, us_cycle := (if ok then Cy_Download c else Cy_Ended)\<rparr>)
      | Cy_Download c \<Rightarrow>
          (case an of
             An_Downloaded p \<Rightarrow> s\<lparr>us_up := download_finish c (Inr p) (us_up s), us_cycle := Cy_Ended\<rparr>
           | An_Failed e \<Rightarrow> s\<lparr>us_up := download_finish c (Inl e) (us_up s), us_cycle := Cy_Failed e\<rparr>
           | _ \<Rightarrow> s)
      | Cy_Failed e \<Rightarrow> s\<lparr>us_up := operation_failed e (us_up s), us_cycle := Cy_Ended\<rparr>
      | Cy_Ended \<Rightarrow> s\<lparr>us_up := operation_end (us_up s), us_cycle := Cy_None\<rparr>)"

definition in_download :: "update_system \<Rightarrow> bool" where
  "in_download s = (case us_cycle s of Cy_Download _ \<Rightarrow> True | _ \<Rightarrow> False)"

inductive update_step :: "update_system \<Rightarrow> update_system \<Rightarrow> bool" where
  register: "up_runtime (us_up s) = None \<Longrightarrow>
    update_step s (s\<lparr>us_up := register_runtime made (us_up s)\<rparr>)"
| gate: "update_step s (s\<lparr>us_up := snd (writes_blocked hv now (us_up s))\<rparr>)"
| watchdog: "op \<in> set (us_accepted s) \<Longrightarrow>
    update_step s (s\<lparr>us_up := snd (watchdog_round op hv now (us_up s))\<rparr>)"
| snapshot: "update_step s (s\<lparr>us_up := up_snapshot hv now res (us_up s)\<rparr>)"
| check: "update_step s (check_request spawned s)"
| scheduled: "update_step s (scheduled_round s)"
| cycle: "update_step s (cycle_step an s)"
| staging: "in_download s \<Longrightarrow> update_step s (s\<lparr>us_up := set_stage dir (us_up s)\<rparr>)"
| progress: "in_download s \<Longrightarrow> update_step s (s\<lparr>us_up := download_progress n whole (us_up s)\<rparr>)"
| install: "op \<notin> fst ` set (us_launches s) \<union> set (us_accepted s) \<Longrightarrow>
    update_step s (install_request cid op present s)"
| spawn: "map_of (us_launches s) op = Some La_Start \<Longrightarrow> up_runtime (us_up s) = Some rt \<Longrightarrow>
    lv_nonce lv \<notin> set (us_nonces s) \<Longrightarrow> update_step s (launch_spawn op hv lv now rt s)"
| await: "map_of (us_launches s) op = Some (La_Wait deadline p) \<Longrightarrow> up_runtime (us_up s) = Some rt \<Longrightarrow>
    update_step s (launch_round op deadline p hv now rt s)"
| settle: "op \<in> set (us_accepted s) \<Longrightarrow>
    update_step s (s\<lparr>us_up := settle_handoff (Some op) good hv now (us_up s)\<rparr>)"

section \<open>The invariant\<close>

fun go_nonce :: "marker \<Rightarrow> string list" where
  "go_nonce (Go_File _ n) = [n]"
| "go_nonce (Cancel_File _ _) = []"

definition go_nonces :: "updater \<Rightarrow> string list" where
  "go_nonces u = (case up_runtime u of None \<Rightarrow> [] | Some rt \<Rightarrow> concat (map go_nonce (rt_files rt)))"

definition live_nonce :: "updater \<Rightarrow> string option" where
  "live_nonce u = (case up_runtime u of None \<Rightarrow> None | Some rt \<Rightarrow> rt_nonce rt)"

definition lease_ok :: "updater \<Rightarrow> bool" where
  "lease_ok u \<longleftrightarrow>
     (up_handoff u \<longleftrightarrow> up_handoff_id u \<noteq> None) \<and> (up_handoff u \<longleftrightarrow> up_phase u = Ph_Installing)
     \<and> (up_handoff u \<longrightarrow> up_runtime u \<noteq> None)"

definition ready_ok :: "updater \<Rightarrow> bool" where
  "ready_ok u \<longleftrightarrow>
     (up_phase u \<in> {Ph_Ready, Ph_Installing} \<longrightarrow> up_prepared u \<noteq> None)
     \<and> (up_prepared u \<noteq> None \<longrightarrow> up_candidate u \<noteq> None)"

definition go_ok :: "string list \<Rightarrow> updater \<Rightarrow> bool" where
  "go_ok ns u \<longleftrightarrow>
     distinct (go_nonces u) \<and> set (go_nonces u) \<subseteq> set ns
     \<and> (\<forall>n. live_nonce u = Some n \<longrightarrow> n \<in> set ns \<and> (\<not> up_armed u \<longrightarrow> n \<notin> set (go_nonces u)))"

fun cycle_ok :: "cycle \<Rightarrow> updater \<Rightarrow> bool" where
  "cycle_ok Cy_None u = (\<not> up_busy u \<and> up_phase u \<notin> {Ph_Checking, Ph_Downloading})"
| "cycle_ok (Cy_Query ann) u =
     (up_busy u \<and> (if ann then up_phase u = Ph_Checking else up_phase u \<notin> {Ph_Checking, Ph_Downloading}))"
| "cycle_ok (Cy_Resolve ann r) u =
     (up_busy u \<and> (if ann then up_phase u = Ph_Checking else up_phase u \<notin> {Ph_Checking, Ph_Downloading}))"
| "cycle_ok (Cy_Fetch ann c) u =
     (up_busy u \<and> (if ann then up_phase u = Ph_Checking else up_phase u \<notin> {Ph_Checking, Ph_Downloading}))"
| "cycle_ok (Cy_Download c) u = (up_busy u \<and> up_phase u = Ph_Downloading)"
| "cycle_ok (Cy_Failed e) u = up_busy u"
| "cycle_ok Cy_Ended u = (up_busy u \<and> up_phase u \<notin> {Ph_Checking, Ph_Downloading})"

definition update_inv :: "update_system \<Rightarrow> bool" where
  "update_inv s \<longleftrightarrow>
     lease_ok (us_up s) \<and> ready_ok (us_up s) \<and> go_ok (us_nonces s) (us_up s)
     \<and> cycle_ok (us_cycle s) (us_up s)"

end
