(* ===== verification/Update_Handoff_Props.thy ===== *)
theory Update_Handoff_Props
  imports Update_Handoff
begin

text \<open>
  The guarantees of the update handoff. The invariant ties the write gate, the lease and the displayed phase together,
  whatever the threads do; from it, the response of an installing request either commits the
  handoff, with a nonce that was never committed before, or leaves an installable update and open writes.
\<close>

section \<open>The runtime\<close>

definition gos :: "runtime \<Rightarrow> string list" where
  "gos rt = concat (map go_nonce (rt_files rt))"

lemma go_nonces_gos: "go_nonces u = (case up_runtime u of None \<Rightarrow> [] | Some rt \<Rightarrow> gos rt)"
  by (simp add: go_nonces_def gos_def split: option.splits)

lemma rt_reset_simps [simp]:
  "gos (rt_reset rt) = gos rt" "rt_nonce (rt_reset rt) = None"
  by (simp_all add: rt_reset_def gos_def)

lemma rt_cancel_simps [simp]:
  "gos (rt_cancel hv rt) = gos rt" "rt_nonce (rt_cancel hv rt) = rt_nonce rt"
  by (simp_all add: rt_cancel_def gos_def split: option.splits)

lemma rt_abandon_simps [simp]:
  "gos (rt_abandon hv p rt) = gos rt" "rt_nonce (rt_abandon hv p rt) = None"
  by (simp_all add: rt_abandon_def rt_reset_def gos_def)

lemma rt_spawn_cases:
  assumes "rt_spawn hv lv rt = (r, rt')"
  shows "gos rt' = gos rt \<and> (rt_nonce rt' = rt_nonce rt \<or> rt_nonce rt' = None
    \<or> (\<exists>p. r = Inr p \<and> rt_nonce rt' = Some (lv_nonce lv)))"
  using assms by (auto simp: rt_spawn_def rt_reset_def gos_def split: if_splits option.splits)

lemma rt_spawn_Inl_nonce:
  assumes "rt_spawn hv lv rt = (Inl e, rt')"
  shows "rt_nonce rt' = rt_nonce rt \<or> rt_nonce rt' = None"
  using assms by (auto simp: rt_spawn_def rt_reset_def split: if_splits option.splits)

definition helper_ready :: "helper_view \<Rightarrow> runtime \<Rightarrow> bool" where
  "helper_ready hv rt \<longleftrightarrow>
     (case (rt_process rt, rt_stage rt, rt_nonce rt) of
        (Some p, Some _, Some n) \<Rightarrow> hv_alive hv p \<and> n \<noteq> '''' \<and> hv_disk hv
      | _ \<Rightarrow> False)"

lemma rt_arm_cases:
  "rt_arm hv rt =
     (if helper_ready hv rt
      then (Inr (), rt\<lparr>rt_files := rt_files rt @ [Go_File (the (rt_stage rt)) (the (rt_nonce rt))]\<rparr>)
      else (fst (rt_arm hv rt), rt))"
  "helper_ready hv rt \<longleftrightarrow> fst (rt_arm hv rt) = Inr ()"
  by (auto simp: rt_arm_def helper_ready_def split: option.splits)

lemma rt_arm_Inl: "rt_arm hv rt = (Inl e, rt') \<Longrightarrow> rt' = rt \<and> \<not> helper_ready hv rt"
  by (metis rt_arm_cases fst_conv snd_conv Inl_Inr_False)

lemma rt_arm_Inr:
  assumes "rt_arm hv rt = (Inr u, rt')"
  obtains n where "rt_nonce rt = Some n" "rt_nonce rt' = Some n" "gos rt' = gos rt @ [n]"
    "helper_ready hv rt"
  using assms by (auto simp: rt_arm_def helper_ready_def gos_def split: option.splits if_splits)

section \<open>The operations keep the invariant\<close>

definition upd_ok :: "string list \<Rightarrow> cycle \<Rightarrow> updater \<Rightarrow> bool" where
  "upd_ok ns cy u \<longleftrightarrow> lease_ok u \<and> ready_ok u \<and> go_ok ns u \<and> cycle_ok cy u"

lemma update_inv_upd_ok: "update_inv s \<longleftrightarrow> upd_ok (us_nonces s) (us_cycle s) (us_up s)"
  by (simp add: update_inv_def upd_ok_def)

lemmas upd_ok_unfold = upd_ok_def lease_ok_def ready_ok_def go_ok_def go_nonces_gos live_nonce_def

text \<open>Between a handoff and its end the phase only passes from one quiet phase to another.\<close>

lemma cycle_ok_quiet:
  assumes "cycle_ok cy u" "up_busy u' = up_busy u"
    and "up_phase u \<notin> {Ph_Checking, Ph_Downloading}" "up_phase u' \<notin> {Ph_Checking, Ph_Downloading}"
  shows "cycle_ok cy u'"
  using assms by (cases cy) (auto split: if_splits)

lemma cycle_ok_same:
  assumes "cycle_ok cy u" "up_busy u' = up_busy u" "up_phase u' = up_phase u"
  shows "cycle_ok cy u'"
  using assms by (cases cy) (auto split: if_splits)

lemma cancel_install_locked_ok:
  assumes "upd_ok ns cy u" "up_handoff u"
  shows "upd_ok ns cy (cancel_install_locked hv msg u)"
proof -
  define u' where "u' = cancel_install_locked hv msg u"
  have ph: "up_phase u = Ph_Installing"
    using assms by (simp add: upd_ok_def lease_ok_def)
  have f: "up_busy u' = up_busy u" "up_phase u' = rest_phase u" "up_prepared u' = up_prepared u"
    "up_candidate u' = up_candidate u" "up_runtime u' = map_option (rt_cancel hv) (up_runtime u)"
    "up_armed u' = up_armed u" "\<not> up_handoff u'" "up_handoff_id u' = None"
    by (simp_all add: u'_def cancel_install_locked_def clear_handoff_def runtime_do_def rest_phase_def Let_def)
  have "cycle_ok cy u'"
    by (rule cycle_ok_quiet [of cy u]) (use assms f ph in \<open>auto simp: upd_ok_def rest_phase_def\<close>)
  moreover have "lease_ok u'" "ready_ok u'"
    using assms f by (auto simp: upd_ok_def lease_ok_def ready_ok_def rest_phase_def)
  moreover have "go_ok ns u'"
    using assms f by (auto simp: upd_ok_unfold split: option.splits)
  ultimately show ?thesis by (simp add: upd_ok_def u'_def)
qed

lemma writes_blocked_ok: "upd_ok ns cy u \<Longrightarrow> upd_ok ns cy (snd (writes_blocked hv now u))"
  by (auto simp: writes_blocked_def Let_def intro: cancel_install_locked_ok)

lemma watchdog_round_ok: "upd_ok ns cy u \<Longrightarrow> upd_ok ns cy (snd (watchdog_round op hv now u))"
  by (auto simp: watchdog_round_def intro: writes_blocked_ok)

text \<open>Changes outside the fields of the invariant.\<close>

lemma upd_ok_cong:
  assumes "upd_ok ns cy u" "up_busy u' = up_busy u" "up_phase u' = up_phase u"
    "up_prepared u' = up_prepared u" "up_candidate u' = up_candidate u" "up_runtime u' = up_runtime u"
    "up_armed u' = up_armed u" "up_handoff u' = up_handoff u" "up_handoff_id u' = up_handoff_id u"
  shows "upd_ok ns cy u'"
  using assms cycle_ok_same [of cy u u'] by (auto simp: upd_ok_unfold)

lemma up_snapshot_ok:
  assumes "upd_ok ns cy u"
  shows "upd_ok ns cy (up_snapshot hv now res u)"
  using upd_ok_cong [OF writes_blocked_ok [OF assms]] writes_blocked_ok [OF assms]
  by (simp add: up_snapshot_def Let_def)

lemma quiet_updates_ok:
  assumes "upd_ok ns cy u"
  shows "upd_ok ns cy (set_stage dir u)" "upd_ok ns cy (download_progress n whole u)"
    "upd_ok ns cy (install_accepted now u)"
  by (rule upd_ok_cong [OF assms]; simp add: set_stage_def download_progress_def install_accepted_def)+

lemma register_runtime_ok:
  assumes "upd_ok ns cy u" "up_runtime u = None"
  shows "upd_ok ns cy (register_runtime made u)"
proof -
  define u' where "u' = register_runtime made u"
  have f: "up_busy u' = up_busy u" "up_phase u' = up_phase u" "up_prepared u' = up_prepared u"
    "up_candidate u' = up_candidate u" "up_armed u' = up_armed u" "up_handoff u' = up_handoff u"
    "up_handoff_id u' = up_handoff_id u" "up_runtime u' \<in> {None, Some new_runtime}"
    using assms(2)
    by (auto simp: u'_def register_runtime_def split: sum.splits update_failure.splits)
  have "go_ok ns u'"
    using f(8) by (auto simp: go_ok_def go_nonces_gos live_nonce_def new_runtime_def gos_def)
  with assms f(1-7) cycle_ok_same [of cy u u'] show ?thesis
    by (auto simp: upd_ok_def lease_ok_def ready_ok_def u'_def)
qed

lemma arm_install_ok:
  assumes "upd_ok ns cy u"
  shows "upd_ok ns cy (arm_install op hv now u)"
proof (cases "up_handoff_id u \<noteq> Some op \<or> up_armed u")
  case False
  then have live: "up_handoff u" "\<not> up_armed u"
    using assms by (auto simp: upd_ok_def lease_ok_def)
  note cancelled = cancel_install_locked_ok [OF assms live(1)]
  obtain rt where rt: "up_runtime u = Some rt"
    using assms live by (auto simp: upd_ok_def lease_ok_def)
  obtain r rt' where arm: "rt_arm hv rt = (r, rt')" by fastforce
  show ?thesis
  proof (cases r)
    case (Inl e)
    then have "u\<lparr>up_runtime := Some rt'\<rparr> = u"
      using rt_arm_Inl [of hv rt e rt'] arm rt by simp
    with False rt arm Inl cancelled show ?thesis by (auto simp: arm_install_def)
  next
    case (Inr x)
    obtain n where n: "rt_nonce rt = Some n" "rt_nonce rt' = Some n" "gos rt' = gos rt @ [n]"
      using rt_arm_Inr arm [unfolded Inr] by metis
    have "upd_ok ns cy (u\<lparr>up_runtime := Some rt', up_armed := True\<rparr>)"
      using assms live rt n cycle_ok_same [of cy u "u\<lparr>up_runtime := Some rt', up_armed := True\<rparr>"]
      by (auto simp: upd_ok_unfold)
    with False rt arm Inr cancelled show ?thesis by (auto simp: arm_install_def)
  qed
qed (auto simp: arm_install_def assms)

lemma settle_handoff_ok:
  assumes "upd_ok ns cy u"
  shows "upd_ok ns cy (settle_handoff pending good hv now u)"
proof -
  have "upd_ok ns cy (cancel_install op hv u)" for op
    using assms cancel_install_locked_ok [OF assms]
    by (auto simp: cancel_install_def upd_ok_def lease_ok_def)
  with assms arm_install_ok [OF assms] show ?thesis
    by (auto simp: settle_handoff_def split: option.splits)
qed

lemma install_begin_ok:
  assumes "upd_ok ns cy u"
  shows "upd_ok ns cy (snd (install_begin cid op present u))"
proof (cases "\<exists>p rt. and_then (admit u) (\<lambda>_. candidate_check cid u) = Inr ()
    \<and> up_prepared u = Some p \<and> up_runtime u = Some rt \<and> up_phase u = Ph_Ready")
  case True
  then obtain p rt where t: "and_then (admit u) (\<lambda>_. candidate_check cid u) = Inr ()"
    "up_prepared u = Some p" "up_runtime u = Some rt" "up_phase u = Ph_Ready" by blast
  have cy: "cycle_ok cy u'" if "up_busy u' = up_busy u" "up_phase u' \<in> {Ph_Idle, Ph_Installing}" for u'
    by (rule cycle_ok_quiet [of cy u]) (use assms t that in \<open>auto simp: upd_ok_def\<close>)
  show ?thesis
  proof (cases "present (pr_installer p)")
    case True
    with assms t cy show ?thesis
      by (auto simp: install_begin_def upd_ok_unfold)
  next
    case False
    with assms t cy show ?thesis
      by (auto simp: install_begin_def upd_ok_unfold)
  qed
next
  case False
  then have "snd (install_begin cid op present u) = u"
    by (auto simp: install_begin_def split: sum.splits option.splits)
  with assms show ?thesis by simp
qed

lemma install_failed_ok:
  assumes "upd_ok ns cy u"
  shows "upd_ok ns cy (snd (install_failed op hv e u))"
proof -
  define u1 where "u1 = (if up_handoff_id u = Some op
    then (clear_handoff u)\<lparr>up_phase := Ph_Ready, up_error := None\<rparr> else u)"
  have ok1: "upd_ok ns cy u1"
  proof (cases "up_handoff_id u = Some op")
    case True
    then have ph: "up_phase u = Ph_Installing"
      using assms by (auto simp: upd_ok_def lease_ok_def)
    have "cycle_ok cy u1"
      by (rule cycle_ok_quiet [of cy u])
        (use assms ph True in \<open>auto simp: upd_ok_def u1_def clear_handoff_def\<close>)
    with assms True ph show ?thesis
      by (auto simp: upd_ok_unfold u1_def clear_handoff_def)
  qed (simp add: u1_def assms)
  have "snd (install_failed op hv e u) = runtime_do (rt_cancel hv) u1"
    by (simp add: install_failed_def u1_def Let_def)
  moreover have "upd_ok ns cy (runtime_do (rt_cancel hv) u1)"
    using ok1 cycle_ok_same [of cy u1 "runtime_do (rt_cancel hv) u1"]
    by (auto simp: upd_ok_unfold runtime_do_def split: option.splits)
  ultimately show ?thesis by simp
qed

text \<open>Replacing the runtime by one that committed the same nonces.\<close>

lemma set_runtime_ok:
  assumes "upd_ok ns cy u" "up_runtime u = Some rt" "gos rt' = gos rt" "set ns \<subseteq> set ns'"
    and "rt_nonce rt' = rt_nonce rt \<or> rt_nonce rt' = None
      \<or> (\<exists>n. rt_nonce rt' = Some n \<and> n \<notin> set ns \<and> n \<in> set ns')"
  shows "upd_ok ns' cy (u\<lparr>up_runtime := Some rt'\<rparr>)"
  using assms cycle_ok_same [of cy u "u\<lparr>up_runtime := Some rt'\<rparr>"]
  by (auto simp: upd_ok_unfold)

lemma launch_spawn_inv:
  assumes "update_inv s" "up_runtime (us_up s) = Some rt" "lv_nonce lv \<notin> set (us_nonces s)"
  shows "update_inv (launch_spawn op hv lv now rt s)"
proof -
  note ok = assms(1) [unfolded update_inv_upd_ok]
  obtain r rt' where sp: "rt_spawn hv lv rt = (r, rt')" by fastforce
  show ?thesis
  proof (cases r)
    case (Inl e)
    have "upd_ok (us_nonces s) (us_cycle s) ((us_up s)\<lparr>up_runtime := Some rt'\<rparr>)"
      by (rule set_runtime_ok [OF ok assms(2)])
        (use rt_spawn_cases [OF sp] rt_spawn_Inl_nonce [OF sp [unfolded Inl]] in auto)
    from install_failed_ok [OF this] show ?thesis
      using sp Inl by (simp add: launch_spawn_def launch_failed_def update_inv_upd_ok)
  next
    case (Inr p)
    have "upd_ok (lv_nonce lv # us_nonces s) (us_cycle s) ((us_up s)\<lparr>up_runtime := Some rt'\<rparr>)"
      by (rule set_runtime_ok [OF ok assms(2)]) (use rt_spawn_cases [OF sp] assms(3) in auto)
    then show ?thesis
      using sp Inr by (simp add: launch_spawn_def update_inv_upd_ok)
  qed
qed

lemma launch_round_inv:
  assumes "update_inv s" "up_runtime (us_up s) = Some rt"
  shows "update_inv (launch_round op deadline p hv now rt s)"
proof -
  note ok = assms(1) [unfolded update_inv_upd_ok]
  have "upd_ok (us_nonces s) (us_cycle s) (runtime_do (rt_abandon hv p) (us_up s))"
    using set_runtime_ok [OF ok assms(2), of "rt_abandon hv p rt" "us_nonces s"] assms(2)
    by (simp add: runtime_do_def)
  from install_failed_ok [OF this] quiet_updates_ok(3) [OF ok] assms(1) show ?thesis
    by (auto simp: launch_round_def launch_failed_def update_inv_upd_ok split: wait_result.splits)
qed

lemma check_request_inv:
  assumes "update_inv s"
  shows "update_inv (check_request spawned s)"
proof (cases "admit (us_up s) = Inr () \<and> \<not> up_busy (us_up s)")
  case True
  then have "us_cycle s = Cy_None"
    using assms by (cases "us_cycle s") (auto simp: update_inv_def)
  with True assms show ?thesis
    by (auto simp: check_request_def check_updates_def admit_operation_def admit_def update_inv_upd_ok
        upd_ok_unfold split: if_splits)
next
  case False
  then obtain e where "check_updates spawned (us_up s) = (Inl e, us_up s)"
    by (cases "admit (us_up s)") (auto simp: check_updates_def admit_operation_def)
  with assms show ?thesis by (simp add: check_request_def)
qed

lemma scheduled_round_inv:
  assumes "update_inv s"
  shows "update_inv (scheduled_round s)"
proof (cases "fst (scheduled_admit (us_up s))")
  case True
  then have "us_cycle s = Cy_None"
    using assms by (cases "us_cycle s") (auto simp: update_inv_def scheduled_admit_def split: if_splits)
  with True assms show ?thesis
    by (auto simp: scheduled_round_def scheduled_admit_def update_inv_upd_ok upd_ok_unfold
        split: if_splits)
next
  case False
  then have "scheduled_admit (us_up s) = (False, us_up s)"
    by (auto simp: scheduled_admit_def split: if_splits)
  with assms show ?thesis by (simp add: scheduled_round_def)
qed

lemma cycle_step_inv:
  assumes "update_inv s"
  shows "update_inv (cycle_step an s)"
proof (cases "us_cycle s")
  case Cy_None
  with assms show ?thesis by (simp add: cycle_step_def)
next
  case (Cy_Query ann)
  with assms show ?thesis
    by (auto simp: cycle_step_def cycle_decide_def update_inv_upd_ok upd_ok_unfold
        split: answer.splits option.splits if_splits)
next
  case (Cy_Resolve ann r)
  with assms show ?thesis
    by (auto simp: cycle_step_def update_inv_upd_ok upd_ok_unfold split: answer.splits option.splits)
next
  case (Cy_Fetch ann c)
  with assms show ?thesis
    by (auto simp: cycle_step_def download_begin_def update_inv_upd_ok upd_ok_unfold
        split: option.splits if_splits)
next
  case (Cy_Download c)
  with assms show ?thesis
    by (auto simp: cycle_step_def download_finish_def rest_phase_def update_inv_upd_ok upd_ok_unfold
        split: answer.splits option.splits)
next
  case (Cy_Failed e)
  with assms show ?thesis
    by (auto simp: cycle_step_def operation_failed_def rest_phase_def update_inv_upd_ok upd_ok_unfold
        split: option.splits)
next
  case Cy_Ended
  with assms show ?thesis
    by (auto simp: cycle_step_def operation_end_def update_inv_upd_ok upd_ok_unfold split: option.splits)
qed

lemma install_request_inv:
  assumes "update_inv s"
  shows "update_inv (install_request cid op present s)"
  using install_begin_ok [OF assms [unfolded update_inv_upd_ok], of cid op present]
  by (auto simp: install_request_def update_inv_upd_ok split: prod.splits)

lemma update_step_inv: "update_step s t \<Longrightarrow> update_inv s \<Longrightarrow> update_inv t"
proof (induction rule: update_step.induct)
  case (register s made)
  then show ?case by (simp add: update_inv_upd_ok register_runtime_ok)
next
  case (gate s hv now)
  then show ?case by (simp add: update_inv_upd_ok writes_blocked_ok)
next
  case (watchdog op s hv now)
  then show ?case by (simp add: update_inv_upd_ok watchdog_round_ok)
next
  case (snapshot s hv now res)
  then show ?case by (simp add: update_inv_upd_ok up_snapshot_ok)
next
  case (staging s dir)
  then show ?case by (simp add: update_inv_upd_ok quiet_updates_ok)
next
  case (progress s n whole)
  then show ?case by (simp add: update_inv_upd_ok quiet_updates_ok)
next
  case (settle op s good hv now)
  then show ?case by (simp add: update_inv_upd_ok settle_handoff_ok)
qed (auto intro: check_request_inv scheduled_round_inv cycle_step_inv install_request_inv launch_spawn_inv
    launch_round_inv)

interpretation updates: invariant_system update_step update_inv
  by unfold_locales (rule update_step_inv)

lemma start_system_inv: "update_inv (start_system so b r)"
  by (simp add: update_inv_def start_system_def new_updater_def lease_ok_def ready_ok_def go_ok_def
      go_nonces_def live_nonce_def)

lemma update_reachable:
  assumes "update_step\<^sup>*\<^sup>* (start_system so b r) s"
  shows "update_inv s"
  using updates.steps_inv [OF assms start_system_inv] .

section \<open>An install request is committed or rolled back\<close>

text \<open>When a commit may be told to the helper.\<close>

definition commit_possible :: "bool \<Rightarrow> helper_view \<Rightarrow> pytime \<Rightarrow> updater \<Rightarrow> bool" where
  "commit_possible good hv now u \<longleftrightarrow>
     good \<and> \<not> deadline_passed now u
     \<and> (case up_runtime u of None \<Rightarrow> False | Some rt \<Rightarrow> helper_ready hv rt)"

definition handoff_committed :: "updater \<Rightarrow> updater \<Rightarrow> bool" where
  "handoff_committed u t \<longleftrightarrow>
     up_armed t \<and> up_handoff t \<and> up_phase t = Ph_Installing
     \<and> (\<exists>n. live_nonce u = Some n \<and> n \<notin> set (go_nonces u) \<and> go_nonces t = go_nonces u @ [n])"

definition rolled_back :: "updater \<Rightarrow> updater \<Rightarrow> bool" where
  "rolled_back u t \<longleftrightarrow>
     \<not> up_armed t \<and> \<not> up_handoff t \<and> up_phase t = Ph_Ready \<and> up_prepared t \<noteq> None
     \<and> up_prepared t = up_prepared u \<and> up_candidate t = up_candidate u \<and> go_nonces t = go_nonces u"

lemma cancel_rolls_back:
  assumes "upd_ok ns cy u" "up_handoff u" "\<not> up_armed u"
  shows "rolled_back u (cancel_install_locked hv msg u)"
proof -
  have "up_prepared u \<noteq> None"
    using assms by (auto simp: upd_ok_def lease_ok_def ready_ok_def)
  with assms(3) show ?thesis
    by (auto simp: rolled_back_def cancel_install_locked_def clear_handoff_def runtime_do_def
        rest_phase_def go_nonces_gos Let_def split: option.splits)
qed

lemma arm_commits:
  assumes "upd_ok ns cy u" "up_handoff_id u = Some op" "\<not> up_armed u"
    and "commit_possible True hv now u"
  shows "handoff_committed u (arm_install op hv now u)"
proof -
  obtain rt where rt: "up_runtime u = Some rt" "helper_ready hv rt" "\<not> deadline_passed now u"
    using assms(4) by (auto simp: commit_possible_def split: option.splits)
  obtain rt' where arm: "rt_arm hv rt = (Inr (), rt')"
    using rt_arm_cases(1) rt(2) by metis
  obtain n where n: "rt_nonce rt = Some n" "gos rt' = gos rt @ [n]"
    using rt_arm_Inr arm by metis
  have "n \<notin> set (gos rt)"
    using assms(1,3) rt n by (simp add: upd_ok_unfold)
  moreover have "arm_install op hv now u = u\<lparr>up_runtime := Some rt', up_armed := True\<rparr>"
    using assms rt arm by (simp add: arm_install_def)
  ultimately show ?thesis
    using assms(1,2) rt n
    by (auto simp: handoff_committed_def go_nonces_gos live_nonce_def upd_ok_def lease_ok_def)
qed

lemma arm_rolls_back:
  assumes "upd_ok ns cy u" "up_handoff_id u = Some op" "\<not> up_armed u"
    and "\<not> commit_possible True hv now u"
  shows "rolled_back u (arm_install op hv now u)"
proof -
  have live: "up_handoff u"
    using assms by (auto simp: upd_ok_def lease_ok_def)
  have "arm_install op hv now u
      = cancel_install_locked hv ''Updater handoff failed; the application was not stopped.'' u"
  proof (cases "up_runtime u")
    case (Some rt)
    obtain r rt' where arm: "rt_arm hv rt = (r, rt')" by fastforce
    show ?thesis
    proof (cases r)
      case (Inl e)
      then have "u\<lparr>up_runtime := Some rt'\<rparr> = u"
        using rt_arm_Inl [of hv rt e rt'] arm Some by simp
      with assms Some arm Inl show ?thesis by (simp add: arm_install_def)
    next
      case (Inr x)
      then have "helper_ready hv rt"
        using arm rt_arm_Inr by metis
      with assms Some show ?thesis by (simp add: arm_install_def commit_possible_def)
    qed
  qed (use assms in \<open>simp add: arm_install_def\<close>)
  with cancel_rolls_back [OF assms(1) live assms(3)] show ?thesis by simp
qed

text \<open>
  C28: Whatever checks, downloads, installs, watchdogs and reads were interleaved before, when the response of
  an installing request whose lease still stands has been sent, the handoff is settled one way or
  the other. It is committed exactly when the response was a complete success that reached the client, the
  fifteen seconds after the helper's acceptance have not passed, and the helper is alive and can be
  told: then one \<^verbatim>\<open>go.json\<close> is written, with a nonce that no earlier commit used, and writes
  stay blocked. Otherwise no commit is written, writes are open again, and the verified update is ready to
  be installed.
\<close>

theorem install_request_settles:
  assumes "update_step\<^sup>*\<^sup>* (start_system so b r) s"
    and "up_handoff_id (us_up s) = Some op" "\<not> up_armed (us_up s)"
  shows "if commit_possible (response_good returned disconnected resp) hv now (us_up s)
    then handoff_committed (us_up s)
      (settle_handoff (Some op) (response_good returned disconnected resp) hv now (us_up s))
    else rolled_back (us_up s)
      (settle_handoff (Some op) (response_good returned disconnected resp) hv now (us_up s))"
proof -
  define u where "u = us_up s"
  define good where "good = response_good returned disconnected resp"
  have ok: "upd_ok (us_nonces s) (us_cycle s) u"
    using update_reachable [OF assms(1)] by (simp add: update_inv_upd_ok u_def)
  have lease: "up_handoff_id u = Some op" "\<not> up_armed u" "up_handoff u"
    using assms(2,3) ok by (auto simp: u_def upd_ok_def lease_ok_def)
  show ?thesis
  proof (cases good)
    case True
    with arm_commits [OF ok lease(1,2)] arm_rolls_back [OF ok lease(1,2)] show ?thesis
      by (simp add: settle_handoff_def flip: u_def good_def)
  next
    case False
    with lease cancel_rolls_back [OF ok lease(3,2)] show ?thesis
      by (simp add: settle_handoff_def cancel_install_def commit_possible_def flip: u_def good_def)
  qed
qed

section \<open>The wait for the helper\<close>

text \<open>The clock of the rounds: each sleeps a twentieth of a second.\<close>

fun paced :: "pytime \<Rightarrow> (pytime \<times> helper_view \<times> runtime) list \<Rightarrow> bool" where
  "paced t [] = True"
| "paced t ((now, v) # rounds) = (t \<le> now \<and> paced (now + 1 / 20) rounds)"

definition sees_acceptance :: "pytime \<Rightarrow> pytime \<times> helper_view \<times> runtime \<Rightarrow> bool" where
  "sees_acceptance deadline w =
     (case w of (now, hv, rt) \<Rightarrow>
        now < deadline
        \<and> (\<exists>stage n. rt_stage rt = Some stage \<and> rt_nonce rt = Some n
             \<and> hv_accepted hv stage = Some (n, ''accepted'')))"

lemma wait_round_accepted:
  "wait_round deadline now hv rt = Wait_Accepted \<longleftrightarrow> sees_acceptance deadline (now, hv, rt)"
  by (auto simp: wait_round_def sees_acceptance_def not_accepted_def split: option.splits if_splits prod.splits)

lemma wait_round_late: "deadline \<le> now \<Longrightarrow> wait_round deadline now hv rt \<noteq> Wait_On"
  by (simp add: wait_round_def not_accepted_def)

lemma await_ends:
  "paced t rounds \<Longrightarrow> deadline - t + 1 / 20 \<le> of_nat (length rounds) / 20 \<Longrightarrow> await_accept deadline rounds \<noteq> Wait_On
    \<or> rounds = []"
proof (induction rounds arbitrary: t)
  case (Cons a rounds)
  obtain now hv rt where a: "a = (now, hv, rt)" by (cases a)
  show ?case
  proof (cases "wait_round deadline now hv rt")
    case Wait_On
    then have early: "now < deadline"
      using wait_round_late [of deadline now hv rt] by force
    have rest: "paced (now + 1 / 20) rounds" "deadline - (now + 1 / 20) + 1 / 20 \<le> of_nat (length rounds) / 20"
      using Cons.prems a by (auto simp: field_simps)
    have "rounds \<noteq> []"
      using Cons.prems a early by (auto simp: field_simps)
    with Cons.IH [OF rest] Wait_On a show ?thesis by simp
  qed (simp_all add: a)
qed simp

lemma await_accepted_seen:
  "await_accept deadline rounds = Wait_Accepted \<Longrightarrow> \<exists>w \<in> set rounds. sees_acceptance deadline w"
proof (induction rounds)
  case (Cons a rounds)
  obtain now hv rt where a: "a = (now, hv, rt)" by (cases a)
  with Cons show ?case
    by (cases "wait_round deadline now hv rt") (auto simp: wait_round_accepted)
qed simp

text \<open>The wait for the helper's acceptance always ends: with the sleep of a twentieth of a second between the rounds, 601
  rounds decide it, however the clock runs ahead and whatever the rounds read. It ends in acceptance only if a
  round before the deadline read the nonce of this attempt with the status ''accepted''; a wait that ends
  otherwise raises, and after the handler of the installing request, if its lease still stands, writes are
  open again, the update is ready to be installed, and no commit was written.
\<close>

theorem helper_wait_ends:
  assumes "paced start rounds" "601 \<le> length rounds"
    and "update_step\<^sup>*\<^sup>* (start_system so b r) s" "up_handoff_id (us_up s) = Some op"
  shows "(await_accept (start + helper_accept_seconds) rounds = Wait_Accepted
      \<and> (\<exists>w \<in> set rounds. sees_acceptance (start + helper_accept_seconds) w))
    \<or> (\<exists>e. await_accept (start + helper_accept_seconds) rounds = Wait_Raised e
      \<and> (let t = us_up (launch_failed op hv e (s\<lparr>us_up := runtime_do (rt_abandon hv p) (us_up s)\<rparr>)) in
         \<not> up_handoff t \<and> up_phase t = Ph_Ready \<and> up_prepared t \<noteq> None
         \<and> go_nonces t = go_nonces (us_up s)))"
proof -
  define w where "w = await_accept (start + helper_accept_seconds) rounds"
  have "(601::rat) \<le> of_nat (length rounds)"
    using assms(2) by linarith
  then have "start + helper_accept_seconds - start + 1 / 20 \<le> of_nat (length rounds) / 20"
    by (simp add: helper_accept_seconds_def)
  moreover have "rounds \<noteq> []"
    using assms(2) by auto
  ultimately have "w \<noteq> Wait_On"
    unfolding w_def using await_ends [OF assms(1)] by blast
  then consider "w = Wait_Accepted" | e where "w = Wait_Raised e"
    by (cases w) auto
  then show ?thesis
  proof cases
    case 1
    with await_accepted_seen show ?thesis unfolding w_def by blast
  next
    case 2
    have "up_phase (us_up s) = Ph_Installing" "up_prepared (us_up s) \<noteq> None"
      using update_reachable [OF assms(3)] assms(4) by (auto simp: update_inv_def lease_ok_def ready_ok_def)
    with 2 assms(4) show ?thesis unfolding w_def
      by (auto simp: launch_failed_def install_failed_def clear_handoff_def runtime_do_def go_nonces_gos
          Let_def split: option.splits)
  qed
qed

section \<open>A run\<close>

definition demo_source :: update_source where
  "demo_source = \<lparr>so_repository = ''EgooAI/MaaAlibabaSupplier'', so_branch = ''main'',
     so_workflow = ''install.yml'', so_artifact = ''MaaAlibabaSupplier-Setup''\<rparr>"

definition demo_build :: build where
  "demo_build = \<lparr>bu_repository = None, bu_run_id = 1, bu_number = 1, bu_attempt = 1, bu_version = ''v1''\<rparr>"

definition demo_run :: run_ident where
  "demo_run = \<lparr>ri_id = 7, ri_number = 2, ri_attempt = 1, ri_sha = ''s''\<rparr>"

definition demo_candidate :: candidate where
  "demo_candidate = \<lparr>ca_id = ''c1'', ca_version = ''Build 2.1'', ca_run_id = 7, ca_attempt = 1\<rparr>"

definition demo_prepared :: prepared where
  "demo_prepared = \<lparr>pr_installer = ''setup.exe'', pr_run = demo_run, pr_version = ''v2''\<rparr>"

definition demo_view :: helper_view where
  "demo_view = \<lparr>hv_alive = (\<lambda>_. True), hv_accepted = (\<lambda>_. Some (''n1'', ''accepted'')), hv_disk = True\<rparr>"

definition demo_launch :: launch_view where
  "demo_launch = \<lparr>lv_shell = True, lv_times = True, lv_staged = True, lv_child = Some ''p1'',
     lv_stage = ''st1'', lv_nonce = ''n1''\<rparr>"

definition demo_registered :: update_system where
  "demo_registered =
     (let s = start_system demo_source (Some demo_build) None in
      s\<lparr>us_up := register_runtime (Inr ()) (us_up s)\<rparr>)"

definition demo_downloaded :: update_system where
  "demo_downloaded =
     fold cycle_step
       [An_Latest (Some demo_run), An_Resolved demo_candidate, An_Latest None,
        An_Downloaded demo_prepared, An_Latest None]
       (check_request True demo_registered)"

definition demo_installing :: update_system where
  "demo_installing = install_request ''c1'' ''op1'' (\<lambda>_. True) demo_downloaded"

definition demo_spawned :: update_system where
  "demo_spawned =
     launch_spawn ''op1'' demo_view demo_launch 100 (the (up_runtime (us_up demo_installing))) demo_installing"

definition demo_accepted :: update_system where
  "demo_accepted =
     launch_round ''op1'' 130 ''p1'' demo_view 101 (the (up_runtime (us_up demo_spawned))) demo_spawned"

lemma cycle_steps: "update_step\<^sup>*\<^sup>* s (fold cycle_step ans s)"
proof (induction ans arbitrary: s)
  case (Cons an ans)
  show ?case
    using converse_rtranclp_into_rtranclp [of update_step, OF update_step.cycle Cons.IH] by simp
qed simp

lemma demo_side_conditions:
  "up_runtime (us_up (start_system demo_source (Some demo_build) None)) = None"
  "''op1'' \<notin> fst ` set (us_launches demo_downloaded) \<union> set (us_accepted demo_downloaded)"
  "map_of (us_launches demo_installing) ''op1'' = Some La_Start"
  "up_runtime (us_up demo_installing) \<noteq> None"
  "lv_nonce demo_launch \<notin> set (us_nonces demo_installing)"
  "map_of (us_launches demo_spawned) ''op1'' = Some (La_Wait 130 ''p1'')"
  "up_runtime (us_up demo_spawned) \<noteq> None"
  "up_handoff_id (us_up demo_accepted) = Some ''op1''" "\<not> up_armed (us_up demo_accepted)"
  by code_simp+

lemma demo_reaches:
  "update_step\<^sup>*\<^sup>* (start_system demo_source (Some demo_build) None) demo_spawned"
  "update_step demo_spawned demo_accepted"
proof -
  let ?s = "start_system demo_source (Some demo_build) None"
  have 1: "update_step ?s demo_registered"
    unfolding demo_registered_def Let_def by (rule update_step.register) (rule demo_side_conditions(1))
  have 2: "update_step\<^sup>*\<^sup>* demo_registered demo_downloaded"
    unfolding demo_downloaded_def
    by (rule converse_rtranclp_into_rtranclp [OF update_step.check cycle_steps])
  have 3: "update_step demo_downloaded demo_installing"
    unfolding demo_installing_def by (rule update_step.install) (rule demo_side_conditions(2))
  have 4: "update_step demo_installing demo_spawned"
    unfolding demo_spawned_def
    by (rule update_step.spawn) (use demo_side_conditions(3-5) in simp_all)
  show "update_step\<^sup>*\<^sup>* ?s demo_spawned"
    using 1 2 3 4 by (meson converse_rtranclp_into_rtranclp rtranclp.rtrancl_into_rtrancl)
  show "update_step demo_spawned demo_accepted"
    unfolding demo_accepted_def
    by (rule update_step.await) (use demo_side_conditions(6,7) in simp_all)
qed

definition demo_response :: response where
  "demo_response = observe_response [(Ms_Start 200, True), (Ms_Body True, True), (Ms_Body False, True)] True"

lemma demo_commit:
  "commit_possible (response_good True False demo_response) demo_view 110 (us_up demo_accepted)"
  "\<not> commit_possible (response_good True False demo_response) demo_view 116 (us_up demo_accepted)"
  by code_simp+

theorem install_request_settles_witness:
  "handoff_committed (us_up demo_accepted)
     (settle_handoff (Some ''op1'') (response_good True False demo_response) demo_view 110 (us_up demo_accepted))
   \<and> rolled_back (us_up demo_accepted)
     (settle_handoff (Some ''op1'') (response_good True False demo_response) demo_view 116 (us_up demo_accepted))"
proof -
  have run: "update_step\<^sup>*\<^sup>* (start_system demo_source (Some demo_build) None) demo_accepted"
    using demo_reaches by (rule rtranclp.rtrancl_into_rtrancl)
  show ?thesis
    using install_request_settles [OF run demo_side_conditions(8,9), of True False demo_response demo_view]
      demo_commit by presburger
qed

definition demo_rounds :: "(pytime \<times> helper_view \<times> runtime) list" where
  "demo_rounds = map (\<lambda>i. (100 + of_nat i, demo_view, new_runtime)) [0..<601]"

lemma paced_rounds:
  "paced t (map (\<lambda>i. (100 + of_nat i, v)) [k..<n])" if "t \<le> 100 + of_nat k"
  using that
proof (induction "n - k" arbitrary: k t)
  case (Suc m)
  then have "[k..<n] = k # [Suc k..<n]"
    by (simp add: upt_conv_Cons)
  with Suc show ?case by simp
qed simp

theorem helper_wait_ends_witness:
  "\<exists>e. await_accept 130 demo_rounds = Wait_Raised e"
proof -
  have rounds: "paced 100 demo_rounds" "601 \<le> length demo_rounds"
    using paced_rounds [of 100 0] by (simp_all add: demo_rounds_def)
  have "up_handoff_id (us_up demo_spawned) = Some ''op1''"
    by code_simp
  note ends = helper_wait_ends [OF rounds demo_reaches(1) this, where hv = demo_view and p = "[]"]
  have "\<not> sees_acceptance d w" if "w \<in> set demo_rounds" for d w
    using that by (auto simp: demo_rounds_def sees_acceptance_def new_runtime_def)
  with ends show ?thesis
    by (auto simp: helper_accept_seconds_def)
qed

end
