(* ===== verification/Reply_Effects.thy ===== *)
theory Reply_Effects
  imports Intent_Store
begin

text \<open>
  The one effect the agent has, proposing a reply: the tool of \<^verbatim>\<open>shared/agent/reply_tool.py\<close>, which
  checks a proposal and records it in the run; the dispatcher of
  \<^verbatim>\<open>shared/agent/effect_dispatch.py\<close>, which makes intents of the recorded proposals; and the
  parts of \<^verbatim>\<open>runner.py\<close> and \<^verbatim>\<open>suggestions.py\<close> between them. The agent pipeline itself is a library
  outside the repository: which calls the model makes is a list, and what the context keeps of an
  emitted content is the argument \<open>kept\<close>.

  \<open>han\<close> holds the four Chinese words of the placeholder pattern.
\<close>

section \<open>Text\<close>

text \<open>\<^verbatim>\<open>re.sub(r"\s+", " ", s)\<close>.\<close>

fun collapse_space :: "string \<Rightarrow> string" where
  "collapse_space [] = []"
| "collapse_space (c # cs) =
     (if py_space c then CHR '' '' # dropWhile (\<lambda>x. x = CHR '' '') (collapse_space cs)
      else c # collapse_space cs)"

definition normalize_text :: "string \<Rightarrow> string" where
  "normalize_text s = py_lower (collapse_space (py_strip s))"

text \<open>The placeholders, at the head of a text and anywhere in it.\<close>

definition braces_at :: "string \<Rightarrow> bool" where
  "braces_at s \<longleftrightarrow>
     has_prefix ''{{'' s
     \<and> (let body = takeWhile (\<lambda>c. c \<noteq> CHR ''{'' \<and> c \<noteq> CHR ''}'') (drop 2 s) in
        1 \<le> length body \<and> length body \<le> 80 \<and> has_prefix ''}}'' (drop (2 + length body) s))"

definition placeholder_words :: "string list" where
  "placeholder_words = [''name'', ''product'', ''price'', ''company'']"

definition tagged_at :: "char \<Rightarrow> string list \<Rightarrow> char \<Rightarrow> string \<Rightarrow> bool" where
  "tagged_at l ws r s \<longleftrightarrow> (\<exists>w \<in> set ws. has_prefix (l # w @ [r]) (py_lower s))"

definition placeholder_at :: "string list \<Rightarrow> string \<Rightarrow> bool" where
  "placeholder_at han s \<longleftrightarrow>
     braces_at s \<or> tagged_at CHR ''['' (placeholder_words @ han) CHR '']'' s
     \<or> tagged_at CHR ''<'' placeholder_words CHR ''>'' s"

fun has_placeholder :: "string list \<Rightarrow> string \<Rightarrow> bool" where
  "has_placeholder han [] = False"
| "has_placeholder han (c # cs) = (placeholder_at han (c # cs) \<or> has_placeholder han cs)"

section \<open>The tool\<close>

record reply_scope =
  rp_seller :: string
  rp_data_dir :: string
  rp_apid :: string
  rp_agent :: string
  rp_conversation :: "int option"
  rp_revision :: "int option"
  rp_prior :: "string list"

record reply_content =
  rc_reply :: string
  rc_zh :: string
  rc_tone :: string
  rc_scope :: "reply_scope option"

definition tone_values :: "string list" where
  "tone_values = [''formal'', ''friendly'', ''urgent'']"

definition max_replies_per_run :: nat where
  "max_replies_per_run = 3"

definition max_reply_length :: nat where
  "max_reply_length = 4000"

definition validate_reply :: "string list \<Rightarrow> string \<Rightarrow> string list \<Rightarrow> string option" where
  "validate_reply han reply prior =
     (let s = py_strip reply in
      if s = [] then Some ''empty''
      else if max_reply_length < length s then Some ''too long''
      else if has_placeholder han s then Some ''placeholder''
      else if normalize_text s \<in> set (map normalize_text prior) then Some ''repeated''
      else None)"

definition or_default :: "string \<Rightarrow> string \<Rightarrow> string" where
  "or_default s d = (if s = [] then d else s)"

record tool_call =
  tc_reply :: string
  tc_zh :: string
  tc_tone :: string

text \<open>
  \<^verbatim>\<open>reply_customer\<close>; \<open>recorded\<close> is \<^verbatim>\<open>ctx.recorded\<close>. The result is the index and the rest of the answer, and
  what the context records.
\<close>

definition reply_customer ::
  "string list \<Rightarrow> (reply_content \<Rightarrow> reply_content) \<Rightarrow> reply_scope option \<Rightarrow> tool_call
     \<Rightarrow> reply_content list \<Rightarrow> (nat \<times> int) result \<times> reply_content list" where
  "reply_customer han kept scope call recorded =
     (case scope of
        None \<Rightarrow> (Inl (Value_Error ''no scope''), recorded)
      | Some sc \<Rightarrow>
          (let tone = py_lower (py_strip (or_default (tc_tone call) ''formal'')) in
           if tone \<notin> set tone_values then (Inl (Value_Error ''tone''), recorded)
           else if max_replies_per_run \<le> length recorded then (Inl (Value_Error ''too many replies''), recorded)
           else case validate_reply han (tc_reply call) (rp_prior sc) of
             Some reason \<Rightarrow> (Inl (Value_Error reason), recorded)
           | None \<Rightarrow>
               (let reference = or_default (py_strip (tc_zh call)) (py_strip (tc_reply call)) in
                if normalize_text reference \<in> set (map (\<lambda>c. normalize_text (rc_zh c)) recorded)
                then (Inl (Value_Error ''repeated in run''), recorded)
                else
                  (Inr (length recorded + 1, int max_replies_per_run - int (length recorded) - 1),
                   recorded @ [kept \<lparr>rc_reply = py_strip (tc_reply call), rc_zh = reference,
                                      rc_tone = tone, rc_scope = Some sc\<rparr>]))))"

text \<open>The calls of one run, in the model's order; a call that raises is answered with its error and leaves the run as it was.\<close>

fun run_tool ::
  "string list \<Rightarrow> (reply_content \<Rightarrow> reply_content) \<Rightarrow> reply_scope option \<Rightarrow> tool_call list
     \<Rightarrow> reply_content list \<Rightarrow> reply_content list" where
  "run_tool han kept scope [] recorded = recorded"
| "run_tool han kept scope (call # calls) recorded =
     run_tool han kept scope calls (snd (reply_customer han kept scope call recorded))"

section \<open>The dispatcher\<close>

record effect_intent =
  ei_kind :: string
  ei_content :: reply_content
  ei_call :: "string option"
  ei_sequence :: int

record dispatched =
  di_status :: intent_status
  di_reply :: string
  di_zh :: string
  di_tone :: string
  di_scope :: reply_scope
  di_id :: "string option"
  di_call :: "string option"
  di_batch :: string
  di_sequence :: int

definition reply_kind :: string where
  "reply_kind = ''reply_customer''"

definition require_scope :: "reply_content \<Rightarrow> reply_scope result" where
  "require_scope c =
     (case rc_scope c of
        None \<Rightarrow> Inl (Value_Error ''no run scope'')
      | Some sc \<Rightarrow>
          if rp_seller sc = [] \<or> rp_data_dir sc = [] then Inl (Value_Error ''no account scope'') else Inr sc)"

record reply_payload =
  py_reply :: string
  py_zh :: string
  py_tone :: string

definition make_payload :: "string list \<Rightarrow> reply_content \<Rightarrow> reply_payload result" where
  "make_payload han c =
     (let reply = py_strip (rc_reply c) in
      case validate_reply han reply [] of
        Some reason \<Rightarrow> Inl (Value_Error reason)
      | None \<Rightarrow>
          (let tone = py_lower (py_strip (or_default (rc_tone c) ''formal'')) in
           if tone \<notin> set tone_values then Inl (Value_Error ''tone'')
           else Inr \<lparr>py_reply = reply, py_zh = or_default (py_strip (rc_zh c)) reply, py_tone = tone\<rparr>))"

definition dispatched_of ::
  "effect_intent \<Rightarrow> reply_scope \<Rightarrow> reply_payload \<Rightarrow> string \<Rightarrow> intent_status \<Rightarrow> string option \<Rightarrow> dispatched" where
  "dispatched_of ei sc p batch st iid =
     \<lparr>di_status = st, di_reply = py_reply p, di_zh = py_zh p, di_tone = py_tone p, di_scope = sc,
      di_id = iid, di_call = ei_call ei, di_batch = batch, di_sequence = ei_sequence ei\<rparr>"

definition intent_draft :: "effect_intent \<Rightarrow> reply_scope \<Rightarrow> reply_payload \<Rightarrow> string \<Rightarrow> intent" where
  "intent_draft ei sc p batch =
     \<lparr>in_id = [], in_seller = rp_seller sc, in_data_dir = rp_data_dir sc, in_apid = rp_apid sc,
      in_agent = rp_agent sc, in_revision = rp_revision sc, in_conversation = rp_conversation sc,
      in_batch = batch, in_mode = In_Live, in_reply = py_reply p, in_zh = py_zh p, in_tone = py_tone p,
      in_status = In_Requested, in_call = ei_call ei, in_created = 0, in_updated = 0\<rparr>"

text \<open>
  One intent: rejected silently, simulated, or persisted; only the store's exceptions escape.
  \<open>fresh\<close> and \<open>now\<close> are the identifier and the time the store would use for it.
\<close>

definition dispatch_one ::
  "(string \<Rightarrow> string) \<Rightarrow> string list \<Rightarrow> string \<Rightarrow> string \<Rightarrow> effect_intent \<times> string \<times> pytime
     \<Rightarrow> intent_db \<Rightarrow> dispatched option result \<times> intent_db" where
  "dispatch_one canon han mode batch item db =
     (case item of (ei, fresh, now) \<Rightarrow>
        if ei_kind ei \<noteq> reply_kind then (Inr None, db)
        else case and_then (require_scope (ei_content ei))
                    (\<lambda>sc. and_then (make_payload han (ei_content ei)) (\<lambda>p. Inr (sc, p))) of
          Inl _ \<Rightarrow> (Inr None, db)
        | Inr (sc, p) \<Rightarrow>
            if mode = ''simulated''
            then (Inr (Some (dispatched_of ei sc p batch In_Simulated None)), db)
            else if mode \<noteq> ''live'' then (Inr None, db)
            else (case intent_create canon fresh now (intent_draft ei sc p batch) ''requested'' db of
                    (Inl e, db') \<Rightarrow> (Inl e, db')
                  | (Inr row, db') \<Rightarrow>
                      (Inr (Some (dispatched_of ei sc p batch In_Requested (Some (in_id row)))), db')))"

fun dispatch_intents ::
  "(string \<Rightarrow> string) \<Rightarrow> string list \<Rightarrow> string \<Rightarrow> string \<Rightarrow> (effect_intent \<times> string \<times> pytime) list
     \<Rightarrow> intent_db \<Rightarrow> dispatched list result \<times> intent_db" where
  "dispatch_intents canon han mode batch [] db = (Inr [], db)"
| "dispatch_intents canon han mode batch (item # items) db =
     (case dispatch_one canon han mode batch item db of
        (Inl e, db') \<Rightarrow> (Inl e, db')
      | (Inr d, db') \<Rightarrow>
          (case dispatch_intents canon han mode batch items db' of
             (Inl e, db'') \<Rightarrow> (Inl e, db'')
           | (Inr ds, db'') \<Rightarrow> (Inr (case d of None \<Rightarrow> ds | Some x \<Rightarrow> x # ds), db'')))"

text \<open>\<^verbatim>\<open>_dispatch_intents\<close> of the runner: the run's scope completes a bare content.\<close>

definition fill_scope :: "reply_scope option \<Rightarrow> effect_intent \<Rightarrow> effect_intent" where
  "fill_scope scope ei =
     (if rc_scope (ei_content ei) = None
      then ei\<lparr>ei_content := (ei_content ei)\<lparr>rc_scope := scope\<rparr>\<rparr> else ei)"

definition run_dispatch ::
  "(string \<Rightarrow> string) \<Rightarrow> string list \<Rightarrow> string \<Rightarrow> string \<Rightarrow> reply_scope option
     \<Rightarrow> (effect_intent \<times> string \<times> pytime) list \<Rightarrow> intent_db \<Rightarrow> dispatched list result \<times> intent_db" where
  "run_dispatch canon han mode batch scope items db =
     dispatch_intents canon han mode batch (map (\<lambda>(ei, x). (fill_scope scope ei, x)) items) db"

section \<open>Suggestions\<close>

record suggestion =
  su_intent :: "string option"
  su_reply :: string
  su_zh :: string
  su_tone :: string
  su_status :: intent_status

definition suggestion_of :: "dispatched \<Rightarrow> suggestion" where
  "suggestion_of d =
     \<lparr>su_intent = di_id d, su_reply = py_strip (di_reply d), su_zh = py_strip (di_zh d),
      su_tone = or_default (di_tone d) ''formal'', su_status = di_status d\<rparr>"

definition suggestions_of :: "dispatched list \<Rightarrow> suggestion list result" where
  "suggestions_of ds =
     (case map suggestion_of (filter (\<lambda>d. py_strip (di_reply d) \<noteq> []) ds) of
        [] \<Rightarrow> Inl (Runtime_Error ''no reply intent'')
      | ss \<Rightarrow> Inr ss)"

text \<open>\<^verbatim>\<open>to_payload\<close>: the identifier and the title shown.\<close>

definition suggestion_title :: "suggestion \<Rightarrow> string" where
  "suggestion_title s =
     (let t = py_strip (or_default (su_zh s) (su_reply s)) in
      if 16 < length t then take 16 t else t)"

definition suggestion_id :: "(nat \<Rightarrow> string) \<Rightarrow> nat \<Rightarrow> suggestion \<Rightarrow> string" where
  "suggestion_id digits i s =
     (case su_intent s of Some x \<Rightarrow> or_default x (''sug-'' @ digits i) | None \<Rightarrow> ''sug-'' @ digits i)"

definition merge_prior :: "string list \<Rightarrow> reply_scope \<Rightarrow> reply_scope" where
  "merge_prior prior sc = (if prior = [] then sc else sc\<lparr>rp_prior := prior\<rparr>)"

end
