(* ===== verification/Reply_Effects_Props.thy ===== *)
theory Reply_Effects_Props
  imports Reply_Effects
begin

text \<open>
  The path of a proposed reply: what one run of the agent records is bounded, valid and free of
  repetitions, and the dispatcher makes exactly one requested intent of each record, or none at all
  in a simulation.
\<close>

section \<open>Stripped texts\<close>

declare py_strip_idem [simp]

lemma validate_reply_strip [simp]: "validate_reply han (py_strip s) prior = validate_reply han s prior"
  by (simp add: validate_reply_def)

lemma validate_reply_no_prior: "validate_reply han s prior = None \<Longrightarrow> validate_reply han s [] = None"
  by (simp add: validate_reply_def Let_def split: if_splits)

lemma validate_reply_nonempty: "validate_reply han s prior = None \<Longrightarrow> py_strip s \<noteq> []"
  by (auto simp: validate_reply_def Let_def split: if_splits)

lemma tone_stable:
  "t \<in> set tone_values \<Longrightarrow> py_lower (py_strip (or_default t ''formal'')) = t"
proof -
  have "\<forall>t \<in> set tone_values. py_lower (py_strip (or_default t ''formal'')) = t"
    by code_simp
  then show "t \<in> set tone_values \<Longrightarrow> py_lower (py_strip (or_default t ''formal'')) = t" ..
qed

section \<open>What a run records\<close>

definition content_ok :: "string list \<Rightarrow> reply_scope \<Rightarrow> reply_content \<Rightarrow> bool" where
  "content_ok han sc c \<longleftrightarrow>
     rc_scope c = Some sc \<and> py_strip (rc_reply c) = rc_reply c
     \<and> py_strip (rc_zh c) = rc_zh c \<and> rc_zh c \<noteq> []
     \<and> validate_reply han (rc_reply c) (rp_prior sc) = None \<and> rc_tone c \<in> set tone_values"

definition recorded_ok :: "string list \<Rightarrow> reply_scope \<Rightarrow> reply_content list \<Rightarrow> bool" where
  "recorded_ok han sc cs \<longleftrightarrow>
     length cs \<le> max_replies_per_run \<and> list_all (content_ok han sc) cs
     \<and> distinct (map (\<lambda>c. normalize_text (rc_zh c)) cs)"

lemma reply_customer_ok:
  assumes "\<And>c. kept c = c" "recorded_ok han sc cs"
  shows "recorded_ok han sc (snd (reply_customer han kept (Some sc) call cs))"
proof -
  define reference where "reference = or_default (py_strip (tc_zh call)) (py_strip (tc_reply call))"
  define new where "new = \<lparr>rc_reply = py_strip (tc_reply call), rc_zh = reference,
    rc_tone = py_lower (py_strip (or_default (tc_tone call) ''formal'')), rc_scope = Some sc\<rparr>"
  define fits where "fits \<longleftrightarrow> rc_tone new \<in> set tone_values \<and> length cs < max_replies_per_run
    \<and> validate_reply han (tc_reply call) (rp_prior sc) = None
    \<and> normalize_text reference \<notin> set (map (\<lambda>c. normalize_text (rc_zh c)) cs)"
  show ?thesis
  proof (cases fits)
    case True
    then have "snd (reply_customer han kept (Some sc) call cs) = cs @ [new]"
      by (simp add: fits_def reply_customer_def assms(1) new_def reference_def)
    moreover have "py_strip reference = reference" "reference \<noteq> []"
      using True validate_reply_nonempty by (auto simp: fits_def reference_def or_default_def)
    with True have "content_ok han sc new"
      by (simp add: content_ok_def new_def fits_def)
    ultimately show ?thesis
      using True assms(2) by (auto simp: recorded_ok_def new_def fits_def)
  next
    case False
    then have "snd (reply_customer han kept (Some sc) call cs) = cs"
      by (auto simp: fits_def reply_customer_def Let_def new_def reference_def split: option.splits)
    with assms(2) show ?thesis by simp
  qed
qed

lemma run_tool_ok:
  assumes "\<And>c. kept c = c"
  shows "recorded_ok han sc cs \<Longrightarrow> recorded_ok han sc (run_tool han kept (Some sc) calls cs)"
  by (induction calls arbitrary: cs) (simp_all add: reply_customer_ok assms)

section \<open>What the dispatcher makes of it\<close>

definition content_payload :: "reply_content \<Rightarrow> reply_payload" where
  "content_payload c = \<lparr>py_reply = rc_reply c, py_zh = rc_zh c, py_tone = rc_tone c\<rparr>"

text \<open>The row of an intent: the recorded content in the run's scope, requested, live.\<close>

definition requested_row ::
  "(string \<Rightarrow> string) \<Rightarrow> reply_scope \<Rightarrow> string \<Rightarrow> effect_intent \<times> string \<times> pytime \<Rightarrow> intent" where
  "requested_row canon sc batch item =
     (case item of (ei, fresh, now) \<Rightarrow>
        (intent_draft ei sc (content_payload (ei_content ei)) batch)
          \<lparr>in_id := fresh, in_data_dir := canon (rp_data_dir sc), in_created := now, in_updated := now\<rparr>)"

lemma make_payload_ok:
  assumes "content_ok han sc c"
  shows "make_payload han c = Inr (content_payload c)"
proof -
  have "validate_reply han (rc_reply c) [] = None"
    using assms validate_reply_no_prior by (auto simp: content_ok_def)
  with assms tone_stable [of "rc_tone c"] show ?thesis
    by (simp add: make_payload_def content_payload_def content_ok_def or_default_def)
qed

definition scope_ok :: "reply_scope \<Rightarrow> bool" where
  "scope_ok sc \<longleftrightarrow> \<not> py_blank (rp_seller sc) \<and> \<not> py_blank (rp_data_dir sc)"

lemma require_scope_ok:
  "content_ok han sc c \<Longrightarrow> scope_ok sc \<Longrightarrow> require_scope c = Inr sc"
  by (auto simp: require_scope_def content_ok_def scope_ok_def)

definition table_ready :: "intent_db \<Rightarrow> bool" where
  "table_ready db \<longleftrightarrow> (id_initialized db \<longrightarrow> id_rows db \<noteq> None)"

lemma requested_status: "intent_status_of ''requested'' = Some In_Requested"
  by code_simp

lemma create_requested:
  assumes "content_ok han sc (ei_content ei)" "scope_ok sc" "table_ready db"
    and "fresh \<notin> in_id ` set (intent_rows db)"
  shows "\<exists>db'. intent_create canon fresh now (intent_draft ei sc (content_payload (ei_content ei)) batch)
        ''requested'' db = (Inr (requested_row canon sc batch (ei, fresh, now)), db')
      \<and> intent_rows db' = intent_rows db @ [requested_row canon sc batch (ei, fresh, now)] \<and> table_ready db'"
proof -
  have init: "id_rows (intent_initialize db) = Some (intent_rows db)"
    using assms(3) by (auto simp: intent_initialize_def intent_rows_def table_ready_def split: option.splits)
  show ?thesis
    using assms init
    by (simp add: intent_create_def intent_scope_def scope_ok_def intent_draft_def requested_status
        intent_write_def insert_intent_def requested_row_def intent_rows_def table_ready_def)
qed

lemma dispatch_live:
  assumes "scope_ok sc"
  shows "\<forall>i \<in> set items. content_ok han sc (ei_content (fst i)) \<and> ei_kind (fst i) = reply_kind \<Longrightarrow>
    distinct (map (fst \<circ> snd) items) \<Longrightarrow> table_ready db \<Longrightarrow>
    (fst \<circ> snd) ` set items \<inter> in_id ` set (intent_rows db) = {} \<Longrightarrow>
    \<exists>ds db'. dispatch_intents canon han ''live'' batch items db = (Inr ds, db')
      \<and> intent_rows db' = intent_rows db @ map (requested_row canon sc batch) items
      \<and> map di_id ds = map (Some \<circ> fst \<circ> snd) items"
proof (induction items arbitrary: db)
  case (Cons item items)
  obtain ei fresh now where item: "item = (ei, fresh, now)" by (cases item)
  have ok: "content_ok han sc (ei_content ei)" "ei_kind ei = reply_kind" "fresh \<notin> in_id ` set (intent_rows db)"
    using Cons.prems item by auto
  obtain db1 where db1: "intent_create canon fresh now
      (intent_draft ei sc (content_payload (ei_content ei)) batch) ''requested'' db
      = (Inr (requested_row canon sc batch item), db1)"
    "intent_rows db1 = intent_rows db @ [requested_row canon sc batch item]" "table_ready db1"
    using create_requested [OF ok(1) assms Cons.prems(3) ok(3)] item by blast
  have row: "in_id (requested_row canon sc batch item) = fresh"
    by (simp add: requested_row_def item)
  have fresh_ids: "fresh \<notin> (fst \<circ> snd) ` set items"
    using Cons.prems(2) item by auto
  then have disjoint: "(fst \<circ> snd) ` set items \<inter> in_id ` set (intent_rows db1) = {}"
  proof -
    have "in_id ` set (intent_rows db1) = insert fresh (in_id ` set (intent_rows db))"
      unfolding db1(2) using row by auto
    moreover have "(fst \<circ> snd) ` set items \<inter> in_id ` set (intent_rows db) = {}"
      using Cons.prems(4) by auto
    ultimately show ?thesis using fresh_ids by simp
  qed
  have rest_ok: "\<forall>i \<in> set items. content_ok han sc (ei_content (fst i)) \<and> ei_kind (fst i) = reply_kind"
    "distinct (map (fst \<circ> snd) items)" "table_ready db1"
    "(fst \<circ> snd) ` set items \<inter> in_id ` set (intent_rows db1) = {}"
    using Cons.prems(1,2) db1(3) disjoint by (simp_all add: o_def)
  obtain ds db2 where rest: "dispatch_intents canon han ''live'' batch items db1 = (Inr ds, db2)"
    "intent_rows db2 = intent_rows db1 @ map (requested_row canon sc batch) items"
    "map di_id ds = map (Some \<circ> fst \<circ> snd) items"
    using Cons.IH [OF rest_ok] by blast
  have "dispatch_one canon han ''live'' batch item db
      = (Inr (Some (dispatched_of ei sc (content_payload (ei_content ei)) batch In_Requested (Some fresh))), db1)"
    using ok db1(1) row make_payload_ok [OF ok(1)] require_scope_ok [OF ok(1) assms]
    by (simp add: dispatch_one_def item)
  with rest db1(2) item show ?case
    by (simp add: dispatched_of_def)
qed simp

lemma dispatch_simulated:
  assumes "scope_ok sc"
  shows "\<forall>i \<in> set items. content_ok han sc (ei_content (fst i)) \<and> ei_kind (fst i) = reply_kind \<Longrightarrow>
    dispatch_intents canon han ''simulated'' batch items db
      = (Inr (map (\<lambda>(ei, _). dispatched_of ei sc (content_payload (ei_content ei)) batch In_Simulated None)
           items), db)"
proof (induction items)
  case (Cons item items)
  obtain ei fresh now where item: "item = (ei, fresh, now)" by (cases item)
  have ok: "content_ok han sc (ei_content ei)" "ei_kind ei = reply_kind"
    using Cons.prems item by auto
  have "dispatch_one canon han ''simulated'' batch item db
      = (Inr (Some (dispatched_of ei sc (content_payload (ei_content ei)) batch In_Simulated None)), db)"
    using ok make_payload_ok [OF ok(1)] require_scope_ok [OF ok(1) assms]
    by (simp add: dispatch_one_def item)
  with Cons item show ?case by simp
qed simp

text \<open>
  What the pipeline library promises: the context keeps an emitted content as it is, and the run returns the
  recorded contents as intents of the tool's kind.
\<close>

definition pipeline_keeps :: "(reply_content \<Rightarrow> reply_content) \<Rightarrow> bool" where
  "pipeline_keeps kept \<longleftrightarrow> (\<forall>c. kept c = c)"

definition pipeline_returns :: "reply_content list \<Rightarrow> (effect_intent \<times> string \<times> pytime) list \<Rightarrow> bool" where
  "pipeline_returns cs items \<longleftrightarrow>
     map (\<lambda>i. ei_content (fst i)) items = cs \<and> list_all (\<lambda>i. ei_kind (fst i) = reply_kind) items"

lemma run_dispatch_scoped:
  assumes "\<forall>i \<in> set items. content_ok han sc (ei_content (fst i))"
  shows "run_dispatch canon han mode batch scope items db = dispatch_intents canon han mode batch items db"
proof -
  have "map (\<lambda>(ei, x). (fill_scope scope ei, x)) items = items"
    using assms by (intro map_idI) (auto simp: fill_scope_def content_ok_def)
  then show ?thesis by (simp add: run_dispatch_def)
qed

text \<open>
  C32: Whatever calls the model makes in a run, at most three replies are recorded; each is non-empty, within the
  length limit, free of placeholders, no repetition of one of the prior replies that the run was given, with one of the three tones,
  and no two have the same Chinese reference text up to spelling; two of them may have the same reply text. When the pipeline library returns what was recorded,
  the scope is valid and the identifiers are fresh, a live run then adds to the intent table exactly one row per
  record, requested, in the run's account and conversation, and nothing is rejected on the way; a simulated
  run leaves the table unchanged.
\<close>

theorem proposed_replies_become_requests:
  assumes "pipeline_keeps kept" "pipeline_returns (run_tool han kept (Some sc) calls []) items"
    and "scope_ok sc" "table_ready db"
    and "distinct (map (fst \<circ> snd) items)" "(fst \<circ> snd) ` set items \<inter> in_id ` set (intent_rows db) = {}"
  shows "recorded_ok han sc (run_tool han kept (Some sc) calls [])
    \<and> (\<exists>ds db'. run_dispatch canon han ''live'' batch (Some sc) items db = (Inr ds, db')
        \<and> intent_rows db' = intent_rows db @ map (requested_row canon sc batch) items
        \<and> map di_id ds = map (Some \<circ> fst \<circ> snd) items)
    \<and> (\<exists>ds. run_dispatch canon han ''simulated'' batch (Some sc) items db = (Inr ds, db)
        \<and> map di_status ds = replicate (length items) In_Simulated)"
proof -
  have rec: "recorded_ok han sc (run_tool han kept (Some sc) calls [])"
    by (rule run_tool_ok) (use assms(1) in \<open>simp_all add: pipeline_keeps_def recorded_ok_def\<close>)
  have items: "\<forall>i \<in> set items. content_ok han sc (ei_content (fst i)) \<and> ei_kind (fst i) = reply_kind"
  proof
    fix i
    assume i: "i \<in> set items"
    then have "ei_content (fst i) \<in> set (run_tool han kept (Some sc) calls [])"
      using assms(2) unfolding pipeline_returns_def by (metis image_eqI set_map)
    with rec assms(2) i show "content_ok han sc (ei_content (fst i)) \<and> ei_kind (fst i) = reply_kind"
      by (simp add: recorded_ok_def pipeline_returns_def list_all_iff)
  qed
  have "map di_status (map (\<lambda>(ei, _). dispatched_of ei sc (content_payload (ei_content ei)) batch In_Simulated None)
      items) = replicate (length items) In_Simulated"
    by (induction items) (auto simp: dispatched_of_def)
  then have "\<exists>ds. dispatch_intents canon han ''simulated'' batch items db = (Inr ds, db)
      \<and> map di_status ds = replicate (length items) In_Simulated"
    using dispatch_simulated [OF assms(3) items] by blast
  moreover note dispatch_live [OF assms(3) items assms(5,4,6)]
  moreover have "run_dispatch canon han mode batch (Some sc) items db
      = dispatch_intents canon han mode batch items db" for mode
    by (rule run_dispatch_scoped) (use items in blast)
  ultimately show ?thesis
    using rec by simp
qed

definition demo_scope :: reply_scope where
  "demo_scope = \<lparr>rp_seller = ''shop'', rp_data_dir = ''/data'', rp_apid = ''a'', rp_agent = ''reply'',
     rp_conversation = Some 4, rp_revision = None, rp_prior = [''Hello  there'']\<rparr>"

definition demo_calls :: "tool_call list" where
  "demo_calls =
     [\<lparr>tc_reply = '' hello there '', tc_zh = ''a'', tc_tone = []\<rparr>,
      \<lparr>tc_reply = ''Dear {{name}}'', tc_zh = ''b'', tc_tone = []\<rparr>,
      \<lparr>tc_reply = '' Thank you '', tc_zh = ''thanks'', tc_tone = '' Friendly''\<rparr>,
      \<lparr>tc_reply = ''Thanks!'', tc_zh = ''THANKS'', tc_tone = []\<rparr>,
      \<lparr>tc_reply = ''We ship today'', tc_zh = [], tc_tone = []\<rparr>]"

definition demo_records :: "reply_content list" where
  "demo_records =
     [\<lparr>rc_reply = ''Thank you'', rc_zh = ''thanks'', rc_tone = ''friendly'', rc_scope = Some demo_scope\<rparr>,
      \<lparr>rc_reply = ''We ship today'', rc_zh = ''We ship today'', rc_tone = ''formal'',
       rc_scope = Some demo_scope\<rparr>]"

definition demo_items :: "(effect_intent \<times> string \<times> pytime) list" where
  "demo_items =
     [(\<lparr>ei_kind = reply_kind, ei_content = demo_records ! 0, ei_call = None, ei_sequence = 0\<rparr>, ''i1'', 5),
      (\<lparr>ei_kind = reply_kind, ei_content = demo_records ! 1, ei_call = None, ei_sequence = 1\<rparr>, ''i2'', 6)]"

lemma demo_tool_run: "run_tool [] (\<lambda>c. c) (Some demo_scope) demo_calls [] = demo_records"
  by code_simp

theorem proposed_replies_become_requests_witness:
  "\<exists>ds db'. run_dispatch (\<lambda>p. p) [] ''live'' ''b1'' (Some demo_scope) demo_items
      \<lparr>id_rows = None, id_initialized = False\<rparr> = (Inr ds, db')
    \<and> length (intent_rows db') = 2 \<and> map di_id ds = [Some ''i1'', Some ''i2'']"
proof -
  have "pipeline_returns (run_tool [] (\<lambda>c. c) (Some demo_scope) demo_calls []) demo_items"
    by (simp add: demo_tool_run pipeline_returns_def demo_items_def demo_records_def)
  from proposed_replies_become_requests [OF _ this, of "\<lparr>id_rows = None, id_initialized = False\<rparr>"
      "\<lambda>p. p" "''b1''"]
  have "\<exists>ds db'. run_dispatch (\<lambda>p. p) [] ''live'' ''b1'' (Some demo_scope) demo_items
      \<lparr>id_rows = None, id_initialized = False\<rparr> = (Inr ds, db')
    \<and> intent_rows db' = map (requested_row (\<lambda>p. p) demo_scope ''b1'') demo_items
    \<and> map di_id ds = map (Some \<circ> fst \<circ> snd) demo_items"
    by (simp add: pipeline_keeps_def scope_ok_def demo_scope_def table_ready_def intent_rows_def
        py_blank_iff py_space_def demo_items_def)
  then show ?thesis
    by (auto simp: demo_items_def)
qed

end
