(* ===== verification/Experiments.thy ===== *)
theory Experiments
  imports Py_Prelude
begin

text \<open>
  Experiments of the agent playground: the registry of runs in \<^verbatim>\<open>shared/agent/experiment_runs.py\<close>, the
  steps and their progress records in \<^verbatim>\<open>shared/agent/experiments.py\<close>, and the endpoints and the worker of
  \<^verbatim>\<open>api/routers/experiments.py\<close> that connect them. Variants are named by the decimal text of their session
  identifiers. The content document of an experiment is a record of the fields these operations use;
  the agent's answer to a transcript is an argument.
\<close>

section \<open>Runs\<close>

datatype run_status = Ru_Queued | Ru_Running | Ru_Completed | Ru_Failed | Ru_Cancelled | Ru_Interrupted

definition terminal_runs :: "run_status list" where
  "terminal_runs = [Ru_Completed, Ru_Failed, Ru_Cancelled]"

record variant_run =
  vr_status :: run_status
  vr_error :: "string option"
  vr_duration :: rat

record run_state =
  rn_id :: string
  rn_experiment :: int
  rn_step :: nat
  rn_status :: run_status
  rn_variants :: "(string \<times> variant_run) list"
  rn_started :: pytime
  rn_finished :: "pytime option"
  rn_cancelled :: bool

definition run_active :: "run_state \<Rightarrow> bool" where
  "run_active r \<longleftrightarrow> rn_status r \<notin> set terminal_runs \<and> rn_status r \<noteq> Ru_Interrupted"

text \<open>\<^verbatim>\<open>update\<close>: the change is a function on the variant's record; an unknown variant is ignored.\<close>

definition run_update :: "string \<Rightarrow> (variant_run \<Rightarrow> variant_run) \<Rightarrow> run_state \<Rightarrow> run_state" where
  "run_update v f r =
     (case map_of (rn_variants r) v of
        None \<Rightarrow> r
      | Some x \<Rightarrow> r\<lparr>rn_variants := alist_put v (f x) (rn_variants r)\<rparr>)"

definition run_finish :: "pytime \<Rightarrow> run_state \<Rightarrow> run_state" where
  "run_finish now r =
     (let has = (\<lambda>st. list_ex (\<lambda>(_, x). vr_status x = st) (rn_variants r)) in
      r\<lparr>rn_status := (if has Ru_Cancelled then Ru_Cancelled else if has Ru_Failed then Ru_Failed else Ru_Completed),
        rn_finished := Some now\<rparr>)"

section \<open>The registry\<close>

type_synonym exp_account = "string \<times> string"

record registry =
  rg_runs :: "(string \<times> run_state) list"
  rg_owners :: "(string \<times> exp_account) list"

definition empty_registry :: registry where
  "empty_registry = \<lparr>rg_runs = [], rg_owners = []\<rparr>"

definition same_step :: "int \<Rightarrow> nat \<Rightarrow> run_state \<Rightarrow> bool" where
  "same_step e k r \<longleftrightarrow> rn_experiment r = e \<and> rn_step r = k \<and> run_active r"

definition new_run :: "string \<Rightarrow> pytime \<Rightarrow> int \<Rightarrow> nat \<Rightarrow> string list \<Rightarrow> run_state" where
  "new_run fresh now e k vs =
     \<lparr>rn_id = fresh, rn_experiment = e, rn_step = k, rn_status = Ru_Running,
      rn_variants = fold (\<lambda>v. alist_put v \<lparr>vr_status = Ru_Queued, vr_error = None, vr_duration = 0\<rparr>) vs [],
      rn_started = now, rn_finished = None, rn_cancelled = False\<rparr>"

definition registry_start ::
  "string \<Rightarrow> pytime \<Rightarrow> int \<Rightarrow> nat \<Rightarrow> string list \<Rightarrow> registry \<Rightarrow> run_state result \<times> registry" where
  "registry_start fresh now e k vs g =
     (case find (same_step e k) (map snd (rg_runs g)) of
        Some r \<Rightarrow> (Inl (Run_Conflict (rn_id r)), g)
      | None \<Rightarrow>
          (Inr (new_run fresh now e k vs),
           g\<lparr>rg_runs := alist_put fresh (new_run fresh now e k vs) (rg_runs g)\<rparr>))"

definition bind_owner :: "string \<Rightarrow> exp_account \<Rightarrow> registry \<Rightarrow> registry" where
  "bind_owner rid a g = g\<lparr>rg_owners := alist_put rid a (rg_owners g)\<rparr>"

definition active_for :: "int \<Rightarrow> registry \<Rightarrow> run_state option" where
  "active_for e g = find (\<lambda>r. rn_experiment r = e \<and> run_active r) (map snd (rg_runs g))"

definition forget_run :: "string \<Rightarrow> registry \<Rightarrow> registry" where
  "forget_run rid g = \<lparr>rg_runs = alist_del rid (rg_runs g), rg_owners = alist_del rid (rg_owners g)\<rparr>"

text \<open>A change of the shared state of a run that the registry holds.\<close>

definition change_run :: "string \<Rightarrow> (run_state \<Rightarrow> run_state) \<Rightarrow> registry \<Rightarrow> registry" where
  "change_run rid f g =
     (case map_of (rg_runs g) rid of
        None \<Rightarrow> g
      | Some r \<Rightarrow> g\<lparr>rg_runs := alist_put rid (f r) (rg_runs g)\<rparr>)"

section \<open>Steps and their progress\<close>

datatype step_mode = Buyer_Step | Agent_Step

record script_step =
  sp_index :: nat
  sp_mode :: step_mode
  sp_text :: string
  sp_label :: string

record step_record =
  sr_variants :: "string list"
  sr_before :: "(string \<times> int) list"

record experiment_doc =
  ex_steps :: "script_step list"
  ex_owner :: "exp_account option"
  ex_progress :: "(nat \<times> step_record) list"
  ex_notes :: string

definition max_steps :: nat where
  "max_steps = 20"

fun step_mode_of :: "string \<Rightarrow> step_mode option" where
  "step_mode_of m = (if m = ''buyer'' then Some Buyer_Step else if m = ''agent'' then Some Agent_Step else None)"

definition append_step ::
  "string \<Rightarrow> string \<Rightarrow> string \<Rightarrow> experiment_doc \<Rightarrow> script_step result \<times> experiment_doc" where
  "append_step mode txt label ex =
     (case step_mode_of mode of
        None \<Rightarrow> (Inl (App_Error 422 ''mode''), ex)
      | Some md \<Rightarrow>
          if max_steps \<le> length (ex_steps ex) then (Inl (App_Error 422 ''too many steps''), ex)
          else if md = Buyer_Step \<and> py_blank txt then (Inl (App_Error 422 ''empty buyer step''), ex)
          else let st = \<lparr>sp_index = length (ex_steps ex), sp_mode = md, sp_text = py_strip txt,
                         sp_label = py_strip label\<rparr> in
            (Inr st, ex\<lparr>ex_steps := ex_steps ex @ [st]\<rparr>))"

definition progress_of :: "nat \<Rightarrow> experiment_doc \<Rightarrow> step_record" where
  "progress_of k ex =
     (case map_of (ex_progress ex) k of None \<Rightarrow> \<lparr>sr_variants = [], sr_before = []\<rparr> | Some x \<Rightarrow> x)"

definition guard_step_run :: "nat \<Rightarrow> string list \<Rightarrow> bool \<Rightarrow> experiment_doc \<Rightarrow> string list result" where
  "guard_step_run k vs force ex =
     (if vs = [] then Inr []
      else let pending = filter (\<lambda>v. v \<notin> set (sr_variants (progress_of k ex))) vs in
        if pending = [] then
          (if force then Inr vs else Inl (App_Error 409 ''step already run''))
        else if 0 < k \<and> sr_variants (progress_of (k - 1) ex) = []
        then Inl (App_Error 409 ''run the previous step first'')
        else Inr pending)"

definition step_checkpoint :: "nat \<Rightarrow> string \<Rightarrow> experiment_doc \<Rightarrow> int option" where
  "step_checkpoint k v ex = map_of (sr_before (progress_of k ex)) v"

definition record_step_progress :: "nat \<Rightarrow> string \<Rightarrow> int \<Rightarrow> experiment_doc \<Rightarrow> experiment_doc" where
  "record_step_progress k v before ex =
     (let r = progress_of k ex in
      ex\<lparr>ex_progress := alist_put k
           \<lparr>sr_variants = (if v \<in> set (sr_variants r) then sr_variants r else sr_variants r @ [v]),
            sr_before = (if map_of (sr_before r) v = None then alist_put v before (sr_before r) else sr_before r)\<rparr>
           (ex_progress ex)\<rparr>)"

text \<open>
  Ownership: the experiment of another account does not exist; one without an owner is open
  to all until its first write adopts it. \<open>same_dir\<close> compares two paths.
\<close>

definition with_owner :: "exp_account \<Rightarrow> experiment_doc \<Rightarrow> experiment_doc" where
  "with_owner a ex = ex\<lparr>ex_owner := Some a\<rparr>"

definition adopt_owner :: "exp_account \<Rightarrow> experiment_doc \<Rightarrow> experiment_doc" where
  "adopt_owner a ex =
     (case ex_owner ex of
        Some (seller, d) \<Rightarrow> if py_blank seller then with_owner a ex else ex
      | None \<Rightarrow> with_owner a ex)"

definition owned :: "(string \<Rightarrow> string \<Rightarrow> bool) \<Rightarrow> exp_account \<Rightarrow> experiment_doc \<Rightarrow> unit result" where
  "owned same_dir a ex =
     (let seller = (case ex_owner ex of None \<Rightarrow> [] | Some x \<Rightarrow> py_strip (fst x));
          d = (case ex_owner ex of None \<Rightarrow> [] | Some x \<Rightarrow> py_strip (snd x)) in
      if seller = [] \<and> d = [] then Inr ()
      else if seller \<noteq> fst a then Inl (App_Error 404 ''no experiment'')
      else if d \<noteq> [] \<and> \<not> same_dir d (snd a) then Inl (App_Error 404 ''no experiment'')
      else Inr ())"

section \<open>Transcripts\<close>

datatype turn = User_Turn string | Agent_Turn string | Other_Turn string string

text \<open>Python's \<^verbatim>\<open>xs[:b]\<close>.\<close>

definition slice_to :: "int \<Rightarrow> 'a list \<Rightarrow> 'a list" where
  "slice_to b xs = (if b < 0 then take (length xs - nat (- b)) xs else take (nat b) xs)"

text \<open>
  \<^verbatim>\<open>_run_variant\<close>: one step for one variant; \<open>answer\<close> is the agent. Nothing is written when
  the agent raises.
\<close>

definition run_variant ::
  "script_step \<Rightarrow> string \<Rightarrow> (turn list \<Rightarrow> string result) \<Rightarrow> turn list \<times> experiment_doc
     \<Rightarrow> string result \<times> turn list \<times> experiment_doc" where
  "run_variant st v answer state =
     (case state of (messages, ex) \<Rightarrow>
        let before = step_checkpoint (sp_index st) v ex;
            base = (case before of
                      None \<Rightarrow> messages
                    | Some b \<Rightarrow> if b \<le> int (length messages) then slice_to b messages else messages);
            asked = (if sp_mode st = Buyer_Step then base @ [User_Turn (sp_text st)] else base) in
        case answer asked of
          Inl e \<Rightarrow> (Inl e, messages, ex)
        | Inr reply \<Rightarrow>
            let final = asked @ [Agent_Turn reply] in
            (Inr reply, final,
             record_step_progress (sp_index st) v
               (case before of Some b \<Rightarrow> b | None \<Rightarrow> int (length final) - 2) ex))"

text \<open>\<^verbatim>\<open>_lineage_messages\<close>: the user turns of the common prefix of the variants' transcripts.\<close>

fun shortest :: "'a list list \<Rightarrow> 'a list" where
  "shortest [] = []"
| "shortest [x] = x"
| "shortest (x # y # zs) = (let s = shortest (y # zs) in if length x \<le> length s then x else s)"

fun common_prefix :: "'a list \<Rightarrow> 'a list list \<Rightarrow> 'a list" where
  "common_prefix [] yss = []"
| "common_prefix (x # xs) yss =
     (if \<exists>ys \<in> set yss. hd ys \<noteq> x then [] else x # common_prefix xs (map tl yss))"

fun is_user_turn :: "turn \<Rightarrow> bool" where
  "is_user_turn (User_Turn _) = True"
| "is_user_turn _ = False"

definition lineage_messages :: "turn list list \<Rightarrow> turn list" where
  "lineage_messages ts = filter is_user_turn (common_prefix (shortest ts) ts)"

section \<open>The endpoints and the worker\<close>

definition start_run ::
  "string \<Rightarrow> pytime \<Rightarrow> int \<Rightarrow> nat \<Rightarrow> bool \<Rightarrow> string list \<Rightarrow> exp_account \<Rightarrow> experiment_doc \<Rightarrow> registry
     \<Rightarrow> run_state result \<times> registry" where
  "start_run fresh now e k force vs a ex g =
     (if length (ex_steps ex) \<le> k then (Inl (App_Error 404 ''no step''), g)
      else if vs = [] then (Inl (App_Error 422 ''no variant to run''), g)
      else case guard_step_run k vs force ex of
        Inl err \<Rightarrow> (Inl err, g)
      | Inr pending \<Rightarrow>
          (case registry_start fresh now e k pending g of
             (Inl err, g') \<Rightarrow> (Inl err, g')
           | (Inr r, g') \<Rightarrow> (Inr r, bind_owner fresh a g')))"

definition fail_variant :: "string \<Rightarrow> rat \<Rightarrow> variant_run \<Rightarrow> variant_run" where
  "fail_variant reason duration x =
     x\<lparr>vr_status := Ru_Failed, vr_error := Some reason, vr_duration := duration\<rparr>"

definition end_variant :: "run_status \<Rightarrow> rat \<Rightarrow> variant_run \<Rightarrow> variant_run" where
  "end_variant st duration x = x\<lparr>vr_status := st, vr_duration := duration\<rparr>"

definition fail_all :: "string \<Rightarrow> run_state \<Rightarrow> run_state" where
  "fail_all reason r =
     fold (\<lambda>v. run_update v (\<lambda>x. x\<lparr>vr_status := Ru_Failed, vr_error := Some reason\<rparr>))
       (map fst (rn_variants r)) r"

text \<open>The end of \<^verbatim>\<open>_execute_run\<close>: what never ended is cancelled, then the run is finished.\<close>

definition cancel_variant :: "string \<times> variant_run \<Rightarrow> run_state \<Rightarrow> run_state" where
  "cancel_variant vx r =
     (if vr_status (snd vx) \<notin> set terminal_runs
      then run_update (fst vx) (\<lambda>y. y\<lparr>vr_status := Ru_Cancelled\<rparr>) r else r)"

definition cancel_rest :: "run_state \<Rightarrow> run_state" where
  "cancel_rest r = fold cancel_variant (rn_variants r) r"

definition end_run :: "pytime \<Rightarrow> run_state \<Rightarrow> run_state" where
  "end_run now r = run_finish now (cancel_rest r)"

definition owned_run :: "exp_account \<Rightarrow> string \<Rightarrow> registry \<Rightarrow> run_state result" where
  "owned_run a rid g =
     (case map_of (rg_runs g) rid of
        None \<Rightarrow> Inl (App_Error 404 ''no run'')
      | Some r \<Rightarrow>
          (case map_of (rg_owners g) rid of
             Some owner \<Rightarrow> if owner = a then Inr r else Inl (App_Error 404 ''no run'')
           | None \<Rightarrow> Inr r))"

definition run_retention :: pytime where
  "run_retention = 600"

definition get_run :: "exp_account \<Rightarrow> string \<Rightarrow> pytime \<Rightarrow> registry \<Rightarrow> run_state result \<times> registry" where
  "get_run a rid now g =
     (case owned_run a rid g of
        Inl e \<Rightarrow> (Inl e, g)
      | Inr r \<Rightarrow>
          (case rn_finished r of
             Some t \<Rightarrow>
               if \<not> run_active r \<and> run_retention < now - t
               then (Inl (App_Error 404 ''no run''), forget_run rid g) else (Inr r, g)
           | None \<Rightarrow> (Inr r, g)))"

definition cancel_run :: "exp_account \<Rightarrow> string \<Rightarrow> registry \<Rightarrow> run_state result \<times> registry" where
  "cancel_run a rid g =
     (case owned_run a rid g of
        Inl e \<Rightarrow> (Inl e, g)
      | Inr r \<Rightarrow> (Inr (r\<lparr>rn_cancelled := True\<rparr>), change_run rid (\<lambda>x. x\<lparr>rn_cancelled := True\<rparr>) g))"

end
