(* ===== verification/Experiments_Props.thy ===== *)
theory Experiments_Props
  imports Experiments
begin

text \<open>
  What experiments promise: at most one active run per step of an experiment, whatever requests and workers
  do, every run that ends says so of each of its variants, and what a retried step does to a variant's transcript.
\<close>

section \<open>The registry over time\<close>

text \<open>
  A change to a run: an update of a variant, the cancellation of the token, or the end of an active run. None but the
  last touches the status.
\<close>

inductive run_change :: "run_state \<Rightarrow> run_state \<Rightarrow> bool" where
  update: "run_change r (run_update v f r)"
| fail: "run_change r (fail_all reason r)"
| token: "run_change r (r\<lparr>rn_cancelled := True\<rparr>)"
| finish: "run_active r \<Longrightarrow> run_change r (end_run now r)"

inductive registry_step :: "registry \<Rightarrow> registry \<Rightarrow> bool" where
  start: "fresh \<notin> fst ` set (rg_runs g) \<Longrightarrow>
    registry_step g (snd (start_run fresh now e k force vs a ex g))"
| change: "map_of (rg_runs g) rid = Some r \<Longrightarrow> run_change r r' \<Longrightarrow> registry_step g (change_run rid (\<lambda>_. r') g)"
| read: "registry_step g (snd (get_run a rid now g))"
| cancel: "registry_step g (snd (cancel_run a rid g))"

lemma run_update_simps [simp]:
  "rn_id (run_update v f r) = rn_id r" "rn_experiment (run_update v f r) = rn_experiment r"
  "rn_step (run_update v f r) = rn_step r" "rn_status (run_update v f r) = rn_status r"
  "rn_cancelled (run_update v f r) = rn_cancelled r"
  by (simp_all add: run_update_def split: option.splits)

lemma run_update_distinct [simp]:
  "distinct (map fst (rn_variants r)) \<Longrightarrow> distinct (map fst (rn_variants (run_update v f r)))"
  by (simp add: run_update_def split: option.splits)

lemma fold_run_update_distinct:
  assumes "\<And>x s. g x s = s \<or> (\<exists>v f. g x s = run_update v f s)"
  shows "distinct (map fst (rn_variants r)) \<Longrightarrow> distinct (map fst (rn_variants (fold g xs r)))"
proof (induction xs arbitrary: r)
  case (Cons x xs)
  have "distinct (map fst (rn_variants (g x r)))"
    using assms [of x r] Cons.prems by fastforce
  with Cons.IH [of "g x r"] show ?case by simp
qed simp

lemma fold_run_update_simps:
  assumes "\<And>x s. g x s = s \<or> (\<exists>v f. g x s = run_update v f s)"
  shows "rn_id (fold g xs r) = rn_id r \<and> rn_experiment (fold g xs r) = rn_experiment r
    \<and> rn_step (fold g xs r) = rn_step r \<and> rn_status (fold g xs r) = rn_status r"
proof (induction xs arbitrary: r)
  case (Cons x xs)
  have "rn_id (g x r) = rn_id r \<and> rn_experiment (g x r) = rn_experiment r
      \<and> rn_step (g x r) = rn_step r \<and> rn_status (g x r) = rn_status r"
    using assms [of x r] by fastforce
  with Cons.IH [of "g x r"] show ?case by simp
qed simp

lemma fail_all_simps [simp]:
  "rn_id (fail_all m r) = rn_id r" "rn_experiment (fail_all m r) = rn_experiment r"
  "rn_step (fail_all m r) = rn_step r" "rn_status (fail_all m r) = rn_status r"
  unfolding fail_all_def by (rule fold_run_update_simps [THEN conjunct1]
      fold_run_update_simps [THEN conjunct2, THEN conjunct1]
      fold_run_update_simps [THEN conjunct2, THEN conjunct2, THEN conjunct1]
      fold_run_update_simps [THEN conjunct2, THEN conjunct2, THEN conjunct2]; blast)+

lemma cancel_rest_step: "cancel_variant x s = s \<or> (\<exists>v f. cancel_variant x s = run_update v f s)"
  by (auto simp: cancel_variant_def)

lemma end_run_simps [simp]:
  "rn_id (end_run now r) = rn_id r" "rn_experiment (end_run now r) = rn_experiment r"
  "rn_step (end_run now r) = rn_step r" "\<not> run_active (end_run now r)"
  using fold_run_update_simps [of cancel_variant "rn_variants r" r, OF cancel_rest_step]
  by (simp_all add: end_run_def run_finish_def run_active_def terminal_runs_def Let_def cancel_rest_def)

lemma run_active_status: "rn_status r' = rn_status r \<Longrightarrow> run_active r' \<longleftrightarrow> run_active r"
  by (simp add: run_active_def)

lemma run_change_facts:
  assumes "run_change r r'"
  shows "rn_id r' = rn_id r \<and> rn_experiment r' = rn_experiment r \<and> rn_step r' = rn_step r
    \<and> (run_active r' \<longrightarrow> run_active r) \<and> (\<not> run_active r \<longrightarrow> rn_status r' = rn_status r)"
  using assms
proof cases
  case (update v f)
  then show ?thesis using run_active_status [of r' r] by simp
next
  case (fail m)
  then show ?thesis using run_active_status [of r' r] by simp
next
  case token
  then show ?thesis using run_active_status [of r' r] by simp
next
  case (finish now)
  then show ?thesis by simp
qed

lemma run_change_distinct:
  assumes "run_change r r'" "distinct (map fst (rn_variants r))"
  shows "distinct (map fst (rn_variants r'))"
  using assms
proof cases
  case (fail m)
  with assms(2) show ?thesis
    unfolding fail_all_def by (simp del: fold_map) (rule fold_run_update_distinct; blast)
next
  case (finish now)
  with assms(2) fold_run_update_distinct [of cancel_variant r "rn_variants r", OF cancel_rest_step]
  show ?thesis by (simp add: end_run_def run_finish_def cancel_rest_def Let_def)
qed simp_all

definition run_keyed :: "string \<Rightarrow> run_state \<Rightarrow> bool" where
  "run_keyed rid r \<longleftrightarrow> rn_id r = rid \<and> distinct (map fst (rn_variants r))"

definition one_active :: "(string \<times> run_state) set \<Rightarrow> bool" where
  "one_active rs \<longleftrightarrow>
     (\<forall>x \<in> rs. \<forall>y \<in> rs. run_active (snd x) \<longrightarrow> run_active (snd y)
        \<longrightarrow> rn_experiment (snd x) = rn_experiment (snd y) \<longrightarrow> rn_step (snd x) = rn_step (snd y)
        \<longrightarrow> fst x = fst y)"

lemma one_activeD:
  "one_active rs \<Longrightarrow> x \<in> rs \<Longrightarrow> y \<in> rs \<Longrightarrow> run_active (snd x) \<Longrightarrow> run_active (snd y)
    \<Longrightarrow> rn_experiment (snd x) = rn_experiment (snd y) \<Longrightarrow> rn_step (snd x) = rn_step (snd y) \<Longrightarrow> fst x = fst y"
  unfolding one_active_def by blast

definition registry_inv :: "registry \<Rightarrow> bool" where
  "registry_inv g \<longleftrightarrow>
     distinct (map fst (rg_runs g))
     \<and> (\<forall>(rid, r) \<in> set (rg_runs g). run_keyed rid r)
     \<and> one_active (set (rg_runs g))"

lemma set_alist_put_distinct:
  "distinct (map fst xs) \<Longrightarrow> set (alist_put k v xs) = insert (k, v) {x \<in> set xs. fst x \<noteq> k}"
proof (induction xs)
  case (Cons x xs)
  obtain i r where x: "x = (i, r)" by (cases x)
  show ?case
  proof (cases "i = k")
    case True
    with Cons.prems x have "{y \<in> set (x # xs). fst y \<noteq> k} = {y \<in> set xs. fst y \<noteq> k}" "\<forall>y \<in> set xs. fst y \<noteq> k"
      by auto
    with True x show ?thesis by auto
  next
    case False
    with Cons x show ?thesis by auto
  qed
qed simp

lemma registry_inv_change:
  assumes "registry_inv g" "map_of (rg_runs g) rid = Some r" "run_change r r'"
  shows "registry_inv (change_run rid (\<lambda>_. r') g)"
proof -
  have d: "distinct (map fst (rg_runs g))" and mem: "(rid, r) \<in> set (rg_runs g)"
    using assms(1,2) by (auto simp: registry_inv_def dest: map_of_SomeD)
  note f = run_change_facts [OF assms(3)]
  have rows: "set (rg_runs (change_run rid (\<lambda>_. r') g)) = insert (rid, r') {x \<in> set (rg_runs g). fst x \<noteq> rid}"
    using assms(2) set_alist_put_distinct [OF d] by (simp add: change_run_def)
  have one: "one_active (set (rg_runs g))"
    using assms(1) by (simp add: registry_inv_def)
  have "distinct (map fst (rg_runs (change_run rid (\<lambda>_. r') g)))"
    using d assms(2) by (simp add: change_run_def)
  moreover have "\<forall>(k, x) \<in> set (rg_runs (change_run rid (\<lambda>_. r') g)). run_keyed k x"
    using assms(1) mem f run_change_distinct [OF assms(3)] unfolding rows
    by (auto simp: registry_inv_def run_keyed_def)
  moreover have "one_active (set (rg_runs (change_run rid (\<lambda>_. r') g)))"
    unfolding one_active_def
  proof (intro ballI impI)
    fix x y
    assume xy: "x \<in> set (rg_runs (change_run rid (\<lambda>_. r') g))" "y \<in> set (rg_runs (change_run rid (\<lambda>_. r') g))"
      "run_active (snd x)" "run_active (snd y)" "rn_experiment (snd x) = rn_experiment (snd y)"
      "rn_step (snd x) = rn_step (snd y)"
    define old where "old = (\<lambda>z :: string \<times> run_state. if fst z = rid then (rid, r) else z)"
    have old: "old z \<in> set (rg_runs g) \<and> fst (old z) = fst z \<and> rn_experiment (snd (old z)) = rn_experiment (snd z)
        \<and> rn_step (snd (old z)) = rn_step (snd z) \<and> (run_active (snd z) \<longrightarrow> run_active (snd (old z)))"
      if "z \<in> set (rg_runs (change_run rid (\<lambda>_. r') g))" for z
      using that mem f unfolding rows old_def by auto
    have "fst (old x) = fst (old y)"
      by (rule one_activeD [OF one]) (use old [OF xy(1)] old [OF xy(2)] xy(3-6) in simp_all)
    with old xy(1,2) show "fst x = fst y" by simp
  qed
  ultimately show ?thesis unfolding registry_inv_def by blast
qed

lemma distinct_fold_put:
  "distinct (map fst xs) \<Longrightarrow> distinct (map fst (fold (\<lambda>v. alist_put v (f v)) vs xs))"
  by (induction vs arbitrary: xs) simp_all

lemma registry_inv_start:
  assumes "registry_inv g" "fresh \<notin> fst ` set (rg_runs g)"
  shows "registry_inv (snd (start_run fresh now e k force vs a ex g))"
proof -
  have new: "registry_inv (bind_owner fresh a (g\<lparr>rg_runs := alist_put fresh (new_run fresh now e k ws) (rg_runs g)\<rparr>))"
    if none: "find (same_step e k) (map snd (rg_runs g)) = None" for ws
  proof -
    have d: "distinct (map fst (rg_runs g))"
      using assms(1) by (simp add: registry_inv_def)
    have rows: "set (alist_put fresh (new_run fresh now e k ws) (rg_runs g))
        = insert (fresh, new_run fresh now e k ws) (set (rg_runs g))"
      using set_alist_put_distinct [OF d, of fresh] assms(2) by force
    have free: "\<not> (run_active (snd x) \<and> rn_experiment (snd x) = e \<and> rn_step (snd x) = k)"
      if "x \<in> set (rg_runs g)" for x
      using none that by (auto simp: find_None_iff same_step_def)
    have fields: "rn_id (new_run fresh now e k ws) = fresh" "rn_experiment (new_run fresh now e k ws) = e"
      "rn_step (new_run fresh now e k ws) = k" "run_keyed fresh (new_run fresh now e k ws)"
      by (simp_all add: new_run_def run_keyed_def distinct_fold_put)
    have one: "one_active (set (rg_runs g))"
      using assms(1) by (simp add: registry_inv_def)
    have "one_active (insert (fresh, new_run fresh now e k ws) (set (rg_runs g)))"
      unfolding one_active_def
    proof (intro ballI impI)
      fix x y
      assume "x \<in> insert (fresh, new_run fresh now e k ws) (set (rg_runs g))"
        "y \<in> insert (fresh, new_run fresh now e k ws) (set (rg_runs g))"
        "run_active (snd x)" "run_active (snd y)" "rn_experiment (snd x) = rn_experiment (snd y)"
        "rn_step (snd x) = rn_step (snd y)"
      then show "fst x = fst y"
        using free [of x] free [of y] fields one_activeD [OF one, of x y] by (elim insertE) simp_all
    qed
    moreover have "\<forall>(rid, r) \<in> insert (fresh, new_run fresh now e k ws) (set (rg_runs g)). run_keyed rid r"
      using assms(1) fields by (simp add: registry_inv_def)
    ultimately show ?thesis
      using d unfolding registry_inv_def bind_owner_def by (simp add: rows)
  qed
  show ?thesis
    using assms(1) new
    by (auto simp: start_run_def registry_start_def split: sum.splits option.splits)
qed

lemma registry_inv_forget:
  assumes "registry_inv g"
  shows "registry_inv (forget_run rid g)"
  using assms by (auto simp: registry_inv_def forget_run_def alist_del_def distinct_map_filter one_active_def)

lemma registry_step_inv: "registry_step g h \<Longrightarrow> registry_inv g \<Longrightarrow> registry_inv h"
proof (induction rule: registry_step.induct)
  case (start fresh g now e k force vs a ex)
  then show ?case by (simp add: registry_inv_start)
next
  case (change g rid r r')
  then show ?case by (simp add: registry_inv_change)
next
  case (read g a rid now)
  then show ?case
    by (auto simp: get_run_def registry_inv_forget split: sum.splits option.splits)
next
  case (cancel g a rid)
  show ?case
  proof (cases "map_of (rg_runs g) rid")
    case (Some r)
    have "change_run rid (\<lambda>x. x\<lparr>rn_cancelled := True\<rparr>) g = change_run rid (\<lambda>_. r\<lparr>rn_cancelled := True\<rparr>) g"
      using Some by (simp add: change_run_def)
    with registry_inv_change [OF cancel Some run_change.token] cancel show ?thesis
      by (simp add: cancel_run_def split: sum.splits)
  qed (simp add: cancel_run_def owned_run_def cancel)
qed

interpretation run_registry: invariant_system registry_step registry_inv
  by unfold_locales (rule registry_step_inv)

lemma registry_reachable:
  assumes "registry_step\<^sup>*\<^sup>* empty_registry g"
  shows "registry_inv g"
  by (rule run_registry.steps_inv [OF assms]) (simp add: registry_inv_def empty_registry_def one_active_def)

section \<open>The end of a run\<close>

lemma map_of_cancel_variant:
  "map_of (rn_variants (cancel_variant x r)) v
     = (if v = fst x \<and> vr_status (snd x) \<notin> set terminal_runs
        then map_option (\<lambda>y. y\<lparr>vr_status := Ru_Cancelled\<rparr>) (map_of (rn_variants r) v)
        else map_of (rn_variants r) v)"
  by (auto simp: cancel_variant_def run_update_def split: option.splits)

text \<open>After the pass over the variants, each one seen not to have ended, and no other, is cancelled.\<close>

lemma fold_cancel_variants:
  "map_of (rn_variants (fold cancel_variant xs r)) v = Some y \<Longrightarrow>
    (\<exists>x. map_of (rn_variants r) v = Some x
      \<and> (y = x \<or> vr_status y = Ru_Cancelled)
      \<and> ((\<exists>z. (v, z) \<in> set xs \<and> vr_status z \<notin> set terminal_runs) \<longrightarrow> vr_status y = Ru_Cancelled))"
proof (induction xs arbitrary: r)
  case (Cons a xs)
  obtain x' where x': "map_of (rn_variants (cancel_variant a r)) v = Some x'"
    "y = x' \<or> vr_status y = Ru_Cancelled"
    "(\<exists>z. (v, z) \<in> set xs \<and> vr_status z \<notin> set terminal_runs) \<longrightarrow> vr_status y = Ru_Cancelled"
    using Cons.IH [of "cancel_variant a r"] Cons.prems by auto
  then show ?case
    by (cases a) (auto simp: map_of_cancel_variant split: if_splits)
qed simp

lemma cancel_rest_terminal:
  assumes "distinct (map fst (rn_variants r))" "(v, y) \<in> set (rn_variants (cancel_rest r))"
  shows "vr_status y \<in> set terminal_runs"
proof -
  have "distinct (map fst (rn_variants (cancel_rest r)))"
    unfolding cancel_rest_def
    by (rule fold_run_update_distinct [OF _ assms(1)]) (rule cancel_rest_step)
  then have "map_of (rn_variants (fold cancel_variant (rn_variants r) r)) v = Some y"
    using assms(2) by (simp add: cancel_rest_def)
  from fold_cancel_variants [OF this] obtain x where x: "map_of (rn_variants r) v = Some x"
    "y = x \<or> vr_status y = Ru_Cancelled"
    "vr_status x \<notin> set terminal_runs \<longrightarrow> vr_status y = Ru_Cancelled"
    using map_of_SomeD by metis
  then show ?thesis by (auto simp: terminal_runs_def)
qed

text \<open>
  C35: Whatever requests, workers, reads and cancellations happened, two active runs never work on the same step
  of one experiment: the registry refuses a start exactly while such a run is active, naming it. When a run
  ends it is no longer active, each of its variants is completed, failed or cancelled, and
  it is reported as completed only if all of them are.
\<close>

theorem one_active_run_per_step:
  assumes "registry_step\<^sup>*\<^sup>* empty_registry g"
  shows "one_active (set (rg_runs g))
    \<and> ((\<exists>rid. fst (registry_start fresh now e k vs g) = Inl (Run_Conflict rid))
        \<longleftrightarrow> (\<exists>(rid, r) \<in> set (rg_runs g). rn_experiment r = e \<and> rn_step r = k \<and> run_active r))
    \<and> (\<forall>(rid, r) \<in> set (rg_runs g). let r' = end_run now r in
        \<not> run_active r' \<and> (\<forall>(v, x) \<in> set (rn_variants r'). vr_status x \<in> set terminal_runs)
        \<and> (rn_status r' = Ru_Completed \<longleftrightarrow> (\<forall>(v, x) \<in> set (rn_variants r'). vr_status x = Ru_Completed)))"
proof -
  have inv: "registry_inv g"
    by (rule registry_reachable [OF assms])
  have "(\<exists>rid. fst (registry_start fresh now e k vs g) = Inl (Run_Conflict rid))
      \<longleftrightarrow> find (same_step e k) (map snd (rg_runs g)) \<noteq> None"
    by (auto simp: registry_start_def split: option.splits)
  also have "\<dots> \<longleftrightarrow> (\<exists>(rid, r) \<in> set (rg_runs g). rn_experiment r = e \<and> rn_step r = k \<and> run_active r)"
    by (force simp: find_None_iff same_step_def)
  finally have conflict: "(\<exists>rid. fst (registry_start fresh now e k vs g) = Inl (Run_Conflict rid))
      \<longleftrightarrow> (\<exists>(rid, r) \<in> set (rg_runs g). rn_experiment r = e \<and> rn_step r = k \<and> run_active r)" .
  have ended: "(\<forall>(v, x) \<in> set (rn_variants (end_run now r)). vr_status x \<in> set terminal_runs)
      \<and> (rn_status (end_run now r) = Ru_Completed
         \<longleftrightarrow> (\<forall>(v, x) \<in> set (rn_variants (end_run now r)). vr_status x = Ru_Completed))"
    if "(rid, r) \<in> set (rg_runs g)" for rid r
  proof -
    have "distinct (map fst (rn_variants r))"
      using inv that by (auto simp: registry_inv_def run_keyed_def)
    then have t: "\<forall>(v, x) \<in> set (rn_variants (cancel_rest r)). vr_status x \<in> set terminal_runs"
      using cancel_rest_terminal by blast
    have "(\<forall>(v, x) \<in> set (rn_variants (cancel_rest r)). vr_status x = Ru_Completed)
        \<longleftrightarrow> \<not> (\<exists>(v, x) \<in> set (rn_variants (cancel_rest r)). vr_status x = Ru_Cancelled)
          \<and> \<not> (\<exists>(v, x) \<in> set (rn_variants (cancel_rest r)). vr_status x = Ru_Failed)"
      using t by (fastforce simp: terminal_runs_def)
    with t show ?thesis
      by (simp add: end_run_def run_finish_def Let_def list_ex_iff)
  qed
  have "\<forall>(rid, r) \<in> set (rg_runs g). let r' = end_run now r in
      \<not> run_active r' \<and> (\<forall>(v, x) \<in> set (rn_variants r'). vr_status x \<in> set terminal_runs)
      \<and> (rn_status r' = Ru_Completed \<longleftrightarrow> (\<forall>(v, x) \<in> set (rn_variants r'). vr_status x = Ru_Completed))"
  proof (intro ballI, clarify)
    fix rid r
    assume "(rid, r) \<in> set (rg_runs g)"
    from ended [OF this] show "let r' = end_run now r in
        \<not> run_active r' \<and> (\<forall>(v, x) \<in> set (rn_variants r'). vr_status x \<in> set terminal_runs)
        \<and> (rn_status r' = Ru_Completed \<longleftrightarrow> (\<forall>(v, x) \<in> set (rn_variants r'). vr_status x = Ru_Completed))"
      by (simp add: Let_def)
  qed
  moreover have "one_active (set (rg_runs g))"
    using inv by (simp add: registry_inv_def)
  ultimately show ?thesis
    using conflict by (intro conjI)
qed

section \<open>Retrying a step\<close>

lemma step_checkpoint_recorded:
  "step_checkpoint k v (record_step_progress k' v' b ex)
     = (if k' = k \<and> v' = v \<and> step_checkpoint k v ex = None then Some b else step_checkpoint k v ex)"
  by (auto simp: step_checkpoint_def record_step_progress_def progress_of_def Let_def split: option.splits)

lemma step_checkpoint_kept:
  "step_checkpoint k v ex = Some b \<Longrightarrow>
    step_checkpoint k v (fold (\<lambda>(k', v', b'). record_step_progress k' v' b') recs ex) = Some b"
  by (induction recs arbitrary: ex) (auto simp: step_checkpoint_recorded)

lemma first_run:
  assumes "step_checkpoint (sp_index st) v ex = None" "run_variant st v answer (h, ex) = (Inr reply, h1, ex1)"
    and "ex2 = fold (\<lambda>(k, v, b). record_step_progress k v b) recs ex1"
  shows "h1 = (if sp_mode st = Buyer_Step then h @ [User_Turn (sp_text st)] else h) @ [Agent_Turn reply]"
    "step_checkpoint (sp_index st) v ex2 = Some (int (length h1) - 2)"
proof -
  have run: "h1 = (if sp_mode st = Buyer_Step then h @ [User_Turn (sp_text st)] else h) @ [Agent_Turn reply]"
    "ex1 = record_step_progress (sp_index st) v (int (length h1) - 2) ex"
    using assms(1,2) by (auto simp: run_variant_def Let_def split: sum.splits)
  show "h1 = (if sp_mode st = Buyer_Step then h @ [User_Turn (sp_text st)] else h) @ [Agent_Turn reply]" by (rule run(1))
  show "step_checkpoint (sp_index st) v ex2 = Some (int (length h1) - 2)"
    unfolding assms(3) by (rule step_checkpoint_kept) (simp add: run(2) step_checkpoint_recorded assms(1))
qed

text \<open>
  C36: A buyer step is run once for a variant, then any other progress is recorded and any further turns are appended, and the
  step is retried. The agent is asked with the transcript from before the step, which may be empty, and the buyer message once;
  its answer replaces everything after that, and the checkpoint stays. An answer that fails changes nothing.
\<close>

theorem retried_buyer_step:
  assumes "sp_mode st = Buyer_Step" "step_checkpoint (sp_index st) v ex = None"
    and "run_variant st v answer (h, ex) = (Inr reply, h1, ex1)"
    and "ex2 = fold (\<lambda>(k, v, b). record_step_progress k v b) recs ex1"
  shows "run_variant st v answer2 (h1 @ later, ex2) =
    (case answer2 (h @ [User_Turn (sp_text st)]) of
       Inl e \<Rightarrow> (Inl e, h1 @ later, ex2)
     | Inr reply2 \<Rightarrow> (Inr reply2, h @ [User_Turn (sp_text st), Agent_Turn reply2],
         record_step_progress (sp_index st) v (int (length h)) ex2))"
proof -
  note first = first_run [OF assms(2-4)]
  have "slice_to (int (length h1) - 2) (h1 @ later) = h"
    by (simp add: first(1) assms(1) slice_to_def)
  then show ?thesis
    by (simp add: run_variant_def first assms(1) Let_def split: sum.splits)
qed

text \<open>
  For an agent step, which appends one turn, the recorded checkpoint is one short of the documented one, the turn count from before
  the step: the retry loses the last turn from before the step. With an empty transcript the checkpoint is -1, which Python's slice counts
  from the end: only the last turn is dropped, so an earlier answer of the step stays when turns were appended after it.
\<close>

theorem retried_agent_step_loses_turn:
  assumes "sp_mode st = Agent_Step" "step_checkpoint (sp_index st) v ex = None"
    and "run_variant st v answer (h, ex) = (Inr reply, h1, ex1)"
    and "ex2 = fold (\<lambda>(k, v, b). record_step_progress k v b) recs ex1"
    and "answer2 (if h = [] then butlast (h1 @ later) else butlast h) = Inr reply2"
  shows "fst (snd (run_variant st v answer2 (h1 @ later, ex2))) = (if h = [] then butlast (h1 @ later) else butlast h) @ [Agent_Turn reply2]"
proof -
  note first = first_run [OF assms(2-4)]
  have "slice_to (int (length h1) - 2) (h1 @ later) = (if h = [] then butlast (h1 @ later) else butlast h)"
    by (cases h rule: rev_cases) (simp_all add: first(1) assms(1) slice_to_def butlast_conv_take)
  with assms(5) show ?thesis
    by (simp add: run_variant_def first assms(1) Let_def)
qed

section \<open>Runs on concrete data\<close>

definition demo_experiment :: experiment_doc where
  "demo_experiment =
     \<lparr>ex_steps = [\<lparr>sp_index = 0, sp_mode = Buyer_Step, sp_text = ''How much?'', sp_label = []\<rparr>],
      ex_owner = None, ex_progress = [], ex_notes = []\<rparr>"

definition demo_registry :: registry where
  "demo_registry =
     snd (start_run ''r1'' 10 7 0 False [''1'', ''2''] (''shop'', ''/data'') demo_experiment empty_registry)"

lemma demo_registry_step: "registry_step empty_registry demo_registry"
  unfolding demo_registry_def by (rule registry_step.start) (simp add: empty_registry_def)

theorem one_active_run_per_step_witness:
  "one_active (set (rg_runs demo_registry)) \<and> length (rg_runs demo_registry) = 1
    \<and> (\<exists>rid. fst (registry_start ''r2'' 20 7 0 [''1''] demo_registry) = Inl (Run_Conflict rid))"
proof -
  have "registry_step\<^sup>*\<^sup>* empty_registry demo_registry"
    using demo_registry_step by (rule r_into_rtranclp)
  note facts = one_active_run_per_step [OF this, of "''r2''" 20 7 0 "[''1'']"]
  have "length (rg_runs demo_registry) = 1"
    "list_ex (\<lambda>(rid, r). rn_experiment r = 7 \<and> rn_step r = 0 \<and> run_active r) (rg_runs demo_registry)"
    by code_simp+
  with facts show ?thesis by (simp add: list_ex_iff)
qed

definition demo_step :: "step_mode \<Rightarrow> script_step" where
  "demo_step m = \<lparr>sp_index = 0, sp_mode = m, sp_text = ''How much?'', sp_label = []\<rparr>"

definition demo_history :: "turn list" where
  "demo_history = [User_Turn ''Hi'', Agent_Turn ''Welcome'']"

definition demo_first :: "step_mode \<Rightarrow> string result \<times> turn list \<times> experiment_doc" where
  "demo_first m = run_variant (demo_step m) ''1'' (\<lambda>_. Inr ''First'') (demo_history, demo_experiment)"

lemma demo_first_runs:
  "run_variant (demo_step m) ''1'' (\<lambda>_. Inr ''First'') (demo_history, demo_experiment)
     = (Inr ''First'', fst (snd (demo_first m)), snd (snd (demo_first m)))"
  "step_checkpoint (sp_index (demo_step m)) ''1'' demo_experiment = None"
  "snd (snd (demo_first m)) = fold (\<lambda>(k, v, b). record_step_progress k v b) [] (snd (snd (demo_first m)))"
  by (cases m; code_simp)+

theorem retried_buyer_step_witness:
  "fst (snd (run_variant (demo_step Buyer_Step) ''1'' (\<lambda>_. Inr ''Second'')
      (fst (snd (demo_first Buyer_Step)) @ [], snd (snd (demo_first Buyer_Step)))))
     = [User_Turn ''Hi'', Agent_Turn ''Welcome'', User_Turn ''How much?'', Agent_Turn ''Second'']"
proof -
  have "sp_mode (demo_step Buyer_Step) = Buyer_Step" by (simp add: demo_step_def)
  from retried_buyer_step [OF this demo_first_runs(2,1,3), where later = "[]" and ?answer2.0 = "\<lambda>_. Inr ''Second''"]
  show ?thesis by (simp add: demo_history_def demo_step_def)
qed

lemma retried_agent_step_example:
  "fst (snd (run_variant (demo_step Agent_Step) ''1'' (\<lambda>_. Inr ''Second'')
      (fst (snd (demo_first Agent_Step)) @ [], snd (snd (demo_first Agent_Step)))))
     = [User_Turn ''Hi'', Agent_Turn ''Second'']"
proof -
  have "sp_mode (demo_step Agent_Step) = Agent_Step" by (simp add: demo_step_def)
  from retried_agent_step_loses_turn [OF this demo_first_runs(2,1,3), where later = "[]" and ?answer2.0 = "\<lambda>_. Inr ''Second''" and ?reply2.0 = "''Second''"]
  show ?thesis by (simp add: demo_history_def demo_step_def)
qed

end
