(* ===== verification/Account_Keys.thy ===== *)
theory Account_Keys
  imports Wal_Cache
begin

text \<open>
  The keys of the accounts' messenger databases, \<^verbatim>\<open>shared/crm/account_keys.py\<close>: reading and writing them in
  hexadecimal, and the table of keys. A key is a list of bytes; \<open>dec\<close> is the cipher: it raises on a key it
  refuses. The table has one row for an account, its primary key, and is kept by the CRM library, whose upsert
  replaces the row. \<^verbatim>\<open>KeyFormatError\<close> is a \<^verbatim>\<open>ValueError\<close>; the time of the last update is left out.
\<close>

section \<open>Hexadecimal text\<close>

definition nibble_value :: "char \<Rightarrow> nat option" where
  "nibble_value c =
     (let n = (of_char c :: nat) in
      if 48 \<le> n \<and> n \<le> 57 then Some (n - 48)
      else if 97 \<le> n \<and> n \<le> 102 then Some (n - 87)
      else if 65 \<le> n \<and> n \<le> 70 then Some (n - 55) else None)"

text \<open>\<^verbatim>\<open>bytes.fromhex\<close>: white space may stand between bytes, not inside one.\<close>

definition hex_space :: "char \<Rightarrow> bool" where
  "hex_space c \<longleftrightarrow> (let n = (of_char c :: nat) in (9 \<le> n \<and> n \<le> 13) \<or> n = 32)"

fun from_hex :: "string \<Rightarrow> byte list option" where
  "from_hex [] = Some []"
| "from_hex [c] = (if hex_space c then Some [] else None)"
| "from_hex (c # d # s) =
     (if hex_space c then from_hex (d # s)
      else case (nibble_value c, nibble_value d) of
             (Some a, Some b) \<Rightarrow> map_option (\<lambda>bs. word_of_nat (16 * a + b) # bs) (from_hex s)
           | _ \<Rightarrow> None)"

text \<open>\<^verbatim>\<open>key.hex()\<close>.\<close>

definition nibble_char :: "nat \<Rightarrow> char" where
  "nibble_char n = char_of (if n < 10 then n + 48 else n + 87)"

definition to_hex :: "byte list \<Rightarrow> string" where
  "to_hex bs = concat (map (\<lambda>b. [nibble_char (unat b div 16), nibble_char (unat b mod 16)]) bs)"

definition remove_prefix :: "string \<Rightarrow> string \<Rightarrow> string" where
  "remove_prefix p s = (if has_prefix p s then drop (length p) s else s)"

definition aes_key_sizes :: "nat set" where
  "aes_key_sizes = {16, 24, 32}"

definition parse_key_hex :: "string \<Rightarrow> byte list result" where
  "parse_key_hex raw =
     (case from_hex (remove_prefix ''0x'' (py_lower (py_strip raw))) of
        None \<Rightarrow> Inl (Value_Error ''Key must be a hexadecimal text'')
      | Some key \<Rightarrow>
          if length key \<notin> aes_key_sizes then Inl (Value_Error ''Key must have 16, 24 or 32 bytes'') else Inr key)"

definition mask_key_preview :: "string \<Rightarrow> string" where
  "mask_key_preview key_hex =
     (let t = py_lower (py_strip key_hex)
      in if length t < 8 then ''***'' else take 2 t @ ''***'' @ drop (length t - 2) t)"

section \<open>The table of keys\<close>

text \<open>A row is the stored text, of whatever type a foreign writer left, and the source of the key.\<close>

type_synonym key_table = "(string \<times> (pyval \<times> string)) list"

definition key_auto :: string where
  "key_auto = ''auto''"

definition save_key :: "string \<Rightarrow> byte list \<Rightarrow> string \<Rightarrow> key_table \<Rightarrow> key_table" where
  "save_key ali_id key source t = alist_put ali_id (PStr (to_hex key), source) t"

definition delete_key :: "string \<Rightarrow> key_table \<Rightarrow> bool \<times> key_table" where
  "delete_key ali_id t = (if map_of t ali_id = None then (False, t) else (True, alist_del ali_id t))"

text \<open>
  \<^verbatim>\<open>get_key_hex\<close> through the library, which reads a text column: absent and corrupt keys are None.
\<close>

definition get_key_hex :: "string \<Rightarrow> key_table \<Rightarrow> byte list option" where
  "get_key_hex ali_id t =
     (if ali_id = [] then None
      else case map_of t ali_id of
             Some (PStr h, _) \<Rightarrow> (case parse_key_hex h of Inl _ \<Rightarrow> None | Inr k \<Rightarrow> Some k)
           | _ \<Rightarrow> None)"

definition get_key_source :: "string \<Rightarrow> key_table \<Rightarrow> string" where
  "get_key_source ali_id t =
     (if ali_id = [] then [] else case map_of t ali_id of None \<Rightarrow> [] | Some (_, source) \<Rightarrow> source)"

text \<open>
  \<^verbatim>\<open>read_saved_key\<close> on the file itself (\<open>db\<close> is None when there is no file or no table): absent is None,
  malformed raises a \<^verbatim>\<open>KeyFormatError\<close>, and a busy database the error that \<open>busy\<close> gives.
\<close>

definition read_saved_key :: "py_error option \<Rightarrow> string \<Rightarrow> key_table option \<Rightarrow> (byte list \<times> string) option result" where
  "read_saved_key busy ali_id db =
     (if ali_id = [] then Inr None
      else case busy of
             Some e \<Rightarrow> Inl e
           | None \<Rightarrow>
               (case db of
                  None \<Rightarrow> Inr None
                | Some t \<Rightarrow>
                    (case map_of t ali_id of
                       None \<Rightarrow> Inr None
                     | Some (PStr h, source) \<Rightarrow> and_then (parse_key_hex h) (\<lambda>k. Inr (Some (k, source)))
                     | Some _ \<Rightarrow> Inl (Value_Error ''Stored AES key is malformed''))))"

section \<open>Trial decryption\<close>

definition sqlite_magic :: "byte list" where
  "sqlite_magic = [0x53, 0x51, 0x4C, 0x69, 0x74, 0x65, 0x20, 0x66, 0x6F, 0x72, 0x6D, 0x61, 0x74, 0x20, 0x33, 0x00]"

type_synonym cipher = "byte list \<Rightarrow> byte list \<Rightarrow> byte list result"

text \<open>\<open>file\<close> are the bytes of the database, None when it cannot be read.\<close>

definition verify_key_against_db :: "cipher \<Rightarrow> byte list \<Rightarrow> byte list option \<Rightarrow> bool" where
  "verify_key_against_db dec key file =
     (case file of
        None \<Rightarrow> False
      | Some bs \<Rightarrow> length (take 16 bs) = 16 \<and> dec key (take 16 bs) = Inr sqlite_magic)"

definition parse_and_verify_key :: "cipher \<Rightarrow> string \<Rightarrow> bool \<Rightarrow> byte list option \<Rightarrow> byte list result" where
  "parse_and_verify_key dec raw there file =
     and_then (parse_key_hex raw) (\<lambda>key.
       if \<not> there then Inl (Value_Error ''im.sqlite of this account is missing'')
       else if \<not> verify_key_against_db dec key file then Inl (Value_Error ''Key does not match the database'')
       else Inr key)"

section \<open>Round trip\<close>

lemma nibble_char_plain:
  assumes "n < 16"
  shows "\<not> hex_space (nibble_char n)" "\<not> py_space (nibble_char n)" "lower_char (nibble_char n) = nibble_char n"
    "nibble_char n \<noteq> CHR ''x''" "nibble_value (nibble_char n) = Some n"
proof -
  have code: "of_char (nibble_char n) = (if n < 10 then n + 48 else n + 87)"
    using assms by (simp add: nibble_char_def)
  show "\<not> hex_space (nibble_char n)" "\<not> py_space (nibble_char n)" "lower_char (nibble_char n) = nibble_char n"
    "nibble_value (nibble_char n) = Some n"
    using assms by (simp_all add: hex_space_def py_space_def lower_char_def nibble_value_def code Let_def)
  have "of_char (nibble_char n) \<noteq> (of_char CHR ''x'' :: nat)"
    using assms by (simp add: code)
  then show "nibble_char n \<noteq> CHR ''x''"
    by auto
qed

lemma from_hex_to_hex: "from_hex (to_hex bs) = Some bs"
proof (induction bs)
  case (Cons b bs)
  have "unat b < 256"
    using unsigned_less [of b] by simp
  then have n: "unat b div 16 < 16" "unat b mod 16 < 16"
    by simp_all
  have "from_hex (to_hex (b # bs))
      = map_option (\<lambda>bs. word_of_nat (16 * (unat b div 16) + unat b mod 16) # bs) (from_hex (to_hex bs))"
    using n by (simp add: to_hex_def nibble_char_plain)
  then show ?case
    using Cons by simp
qed (simp add: to_hex_def)

lemma set_to_hex: "c \<in> set (to_hex bs) \<Longrightarrow> \<exists>n < 16. c = nibble_char n"
proof -
  assume "c \<in> set (to_hex bs)"
  then have "\<exists>b :: byte. c = nibble_char (unat b div 16) \<or> c = nibble_char (unat b mod 16)"
    unfolding to_hex_def by auto
  then obtain b :: byte where "c = nibble_char (unat b div 16) \<or> c = nibble_char (unat b mod 16)" ..
  moreover have "unat b < 256"
    using unsigned_less [of b] by simp
  then have "unat b div 16 < 16" "unat b mod 16 < 16"
    by simp_all
  ultimately show ?thesis
    by blast
qed

lemma py_strip_id: "\<forall>c \<in> set s. \<not> py_space c \<Longrightarrow> py_strip s = s"
proof -
  have "dropWhile py_space t = t" if "\<forall>c \<in> set t. \<not> py_space c" for t
    using that by (cases t) auto
  then show "\<forall>c \<in> set s. \<not> py_space c \<Longrightarrow> py_strip s = s"
    by (metis py_strip_def rev_rev_ident set_rev)
qed

lemma parse_to_hex:
  assumes "length key \<in> aes_key_sizes"
  shows "parse_key_hex (to_hex key) = Inr key"
proof -
  have "py_strip (to_hex key) = to_hex key"
    by (rule py_strip_id) (auto dest!: set_to_hex simp: nibble_char_plain)
  moreover have "py_lower (to_hex key) = to_hex key"
    unfolding py_lower_def by (rule map_idI) (auto dest!: set_to_hex simp: nibble_char_plain)
  moreover have "remove_prefix ''0x'' (to_hex key) = to_hex key"
  proof -
    have "CHR ''x'' \<notin> set (to_hex key)"
      by (auto dest!: set_to_hex simp: nibble_char_plain(4) [symmetric])
    then have "\<not> has_prefix ''0x'' (to_hex key)"
      by (auto simp: has_prefix_iff)
    then show ?thesis
      by (simp add: remove_prefix_def)
  qed
  ultimately show ?thesis
    using assms by (simp add: parse_key_hex_def from_hex_to_hex)
qed

text \<open>A key that is saved is read back: by the library's reader, with its source, and by the reader of the file,
  whatever the table held before; the keys of all other accounts stay as they were.
\<close>

theorem saved_key_is_read:
  fixes t :: key_table and source :: string
  assumes "ali_id \<noteq> []" "length key \<in> aes_key_sizes"
  defines "t' \<equiv> save_key ali_id key source t"
  shows "get_key_hex ali_id t' = Some key \<and> get_key_source ali_id t' = source
    \<and> read_saved_key None ali_id (Some t') = Inr (Some (key, source))
    \<and> (\<forall>other. other \<noteq> ali_id \<longrightarrow> get_key_hex other t' = get_key_hex other t
         \<and> get_key_source other t' = get_key_source other t)"
  using assms
  by (simp add: t'_def save_key_def get_key_hex_def get_key_source_def read_saved_key_def parse_to_hex)

text \<open>A key of sixteen bytes over a table with a malformed key.\<close>

theorem saved_key_is_read_witness:
  "get_key_hex ''7'' (save_key ''7'' (map word_of_nat [0..<16]) key_auto [(''7'', (PNone, []))])
     = Some (map word_of_nat [0..<16])"
  using saved_key_is_read [of "''7''" "map word_of_nat [0..<16]" key_auto "[(''7'', (PNone, []))]"]
  by (simp add: aes_key_sizes_def)

end
