(* ===== verification/Source_Cache.thy ===== *)
theory Source_Cache
  imports Account_Keys Sync_Coordinator
begin

text \<open>
  The cache of the messenger's encrypted database, \<^verbatim>\<open>IMDBMiddleware\<close> in \<^verbatim>\<open>shared/backend/im_db_middleware.py\<close>:
  capture of the source, building of a decrypted copy, refresh with its limits, the account's key, pins of readers,
  and the published status. The account selection is the one of \<open>Gui_Session\<close>, the scheduler the one of
  \<open>Sync_Coordinator\<close>, the key table the one of \<open>Account_Keys\<close> and the log the one of \<open>Wal_Cache\<close>; all are parts of
  one state.

  An operation is what runs under the account lock and the middleware's lock. What it reads from outside is in
  \<open>environment\<close>. The messenger writes its files at any time, so the source is a function
  of the moment: the reads of one operation see the moments \<open>n\<close>, \<open>n + 1\<close>, and so on, each a file that may have
  changed. Files of the cache directory are named by their names in it, and are not touched by
  others. The memory sidecar that SQLite makes appears in the sets of protected names only. Logging is left out.
\<close>

unbundle bit_operations_syntax

section \<open>Checksums\<close>

text \<open>\<^verbatim>\<open>zlib.crc32\<close>: the reflected polynomial, bit by bit.\<close>

definition crc_bit :: "word32 \<Rightarrow> word32" where
  "crc_bit w = (if bit w 0 then drop_bit 1 w XOR 0xEDB88320 else drop_bit 1 w)"

definition crc_byte :: "byte \<Rightarrow> word32 \<Rightarrow> word32" where
  "crc_byte b c = (crc_bit ^^ 8) (c XOR ucast b)"

definition crc32_from :: "byte list \<Rightarrow> word32 \<Rightarrow> word32" where
  "crc32_from bs c = NOT (fold crc_byte bs (NOT c))"

text \<open>\<^verbatim>\<open>_crc32_of\<close> reads the file in chunks of a mebibyte.\<close>

definition chunk_size :: nat where
  "chunk_size = 1048576"

function crc_chunks :: "byte list \<Rightarrow> word32 \<Rightarrow> word32" where
  "crc_chunks bs c = (if bs = [] then c else crc_chunks (drop chunk_size bs) (crc32_from (take chunk_size bs) c))"
  by pat_completeness auto
termination
  by (relation "measure (\<lambda>(bs, c). length bs)") (auto simp: chunk_size_def)

declare crc_chunks.simps [simp del]

lemma crc32_append: "crc32_from (xs @ ys) c = crc32_from ys (crc32_from xs c)"
  by (simp add: crc32_from_def)

lemma crc_chunks_whole: "crc_chunks bs c = crc32_from bs c"
proof (induction bs c rule: crc_chunks.induct)
  case (1 bs c)
  show ?case
  proof (cases "bs = []")
    case True
    then show ?thesis by (subst crc_chunks.simps) (simp add: crc32_from_def)
  next
    case False
    then have "crc_chunks bs c = crc32_from (drop chunk_size bs) (crc32_from (take chunk_size bs) c)"
      by (subst crc_chunks.simps) (simp add: 1)
    also have "\<dots> = crc32_from (take chunk_size bs @ drop chunk_size bs) c"
      by (simp only: crc32_append)
    finally show ?thesis by simp
  qed
qed

definition crc_of :: "byte list \<Rightarrow> word32" where
  "crc_of bs = crc_chunks bs 0"

section \<open>The source\<close>

text \<open>A file at a moment: time of the last change and size (None when it cannot be read), and its bytes.\<close>

record disk_file =
  df_stat :: "(int \<times> int) option"
  df_bytes :: "byte list option"

record disk =
  dk_main :: disk_file
  dk_wal :: disk_file

type_synonym fingerprint = "int \<times> int \<times> int \<times> int \<times> int"
type_synonym signature = "fingerprint \<times> word32 \<times> word32"

definition source_fingerprint :: "(nat \<Rightarrow> disk) \<Rightarrow> nat \<Rightarrow> fingerprint option" where
  "source_fingerprint world n =
     (case df_stat (dk_main (world n)) of
        None \<Rightarrow> None
      | Some (mt, sz) \<Rightarrow>
          (case df_stat (dk_wal (world (n + 1))) of
             Some (wmt, wsz) \<Rightarrow> Some (mt, sz, wmt, wsz, 1)
           | None \<Rightarrow> Some (mt, sz, 0, 0, 0)))"

definition main_crc :: "(nat \<Rightarrow> disk) \<Rightarrow> nat \<Rightarrow> word32 option" where
  "main_crc world n = map_option crc_of (df_bytes (dk_main (world n)))"

definition wal_crc :: "(nat \<Rightarrow> disk) \<Rightarrow> nat \<Rightarrow> word32 option" where
  "wal_crc world n =
     (if df_stat (dk_wal (world n)) = None then Some 0 else map_option crc_of (df_bytes (dk_wal (world (n + 1)))))"

text \<open>\<^verbatim>\<open>_capture_source\<close>: seven moments.\<close>

definition capture_source :: "(nat \<Rightarrow> disk) \<Rightarrow> nat \<Rightarrow> signature option" where
  "capture_source world n =
     (case (source_fingerprint world n, main_crc world (n + 2), wal_crc world (n + 3)) of
        (Some f, Some m, Some w) \<Rightarrow>
          if source_fingerprint world (n + 5) = Some f then Some (f, m, w) else None
      | _ \<Rightarrow> None)"

section \<open>Files of the cache directory\<close>

type_synonym cache_files = "(string \<times> byte list) list"

definition wal_name :: "string \<Rightarrow> string" where
  "wal_name p = p @ ''-wal''"

definition shm_name :: "string \<Rightarrow> string" where
  "shm_name p = p @ ''-shm''"

definition with_sidecars :: "string \<Rightarrow> string list" where
  "with_sidecars p = [p, wal_name p, shm_name p]"

text \<open>
  Unlinking, except of the files that are \<open>locked\<close> by another process, which stay. Files that an operation has just
  written are not among them.
\<close>

definition unlink_files :: "string list \<Rightarrow> (string \<Rightarrow> bool) \<Rightarrow> cache_files \<Rightarrow> cache_files" where
  "unlink_files locked doomed fs = filter (\<lambda>f. \<not> doomed (fst f) \<or> fst f \<in> set locked) fs"

definition discard_build :: "string list \<Rightarrow> string \<Rightarrow> cache_files \<Rightarrow> cache_files" where
  "discard_build locked p fs = unlink_files locked (\<lambda>q. q \<in> set (with_sidecars p)) fs"

text \<open>The pattern \<^verbatim>\<open>im_*.sqlite*\<close>.\<close>

definition is_cache_name :: "string \<Rightarrow> bool" where
  "is_cache_name p \<longleftrightarrow> has_prefix ''im_'' p \<and> contains_text ''.sqlite'' (drop 3 p)"

definition cache_path_for :: "string \<Rightarrow> string \<Rightarrow> string" where
  "cache_path_for ali_id fresh = ''im_'' @ ali_id @ ''_'' @ fresh @ ''.sqlite''"

section \<open>State\<close>

datatype key_state = K_Unverified | K_Verifying | K_Valid | K_Invalid | K_Unavailable

text \<open>What \<^verbatim>\<open>_publish_source_status\<close> leaves for readers without the lock.\<close>

record source_status =
  ss_revision :: int
  ss_cache_time :: pytime
  ss_mtime :: "int option"
  ss_frames :: nat
  ss_refresh_ms :: rat
  ss_checked :: "pytime option"
  ss_observed :: "pytime option"
  ss_error :: string
  ss_code :: string
  ss_retry :: "pytime option"
  ss_validation :: key_state
  ss_auto :: bool
  ss_dirty :: bool

record source =
  im_gui :: gui
  im_data_dir :: "string option"
  im_keys :: key_table
  im_key :: "byte list option"
  im_key_owner :: string
  im_key_source :: string
  im_validation :: key_state
  im_files :: cache_files
  im_cached :: "string option"
  im_conn :: "string option"
  im_pins :: "(string \<times> nat) list"
  im_cache_time :: pytime
  im_fingerprint :: "fingerprint option"
  im_crc :: "word32 option"
  im_wal_crc :: "word32 option"
  im_refresh_start :: pytime
  im_backoff :: pytime
  im_failures :: nat
  im_error :: string
  im_code :: string
  im_frames :: nat
  im_refresh_ms :: rat
  im_revision :: int
  im_saved_revision :: int
  im_future :: "nat option"
  im_auto :: bool
  im_sequence :: nat
  im_startup :: "(account \<times> nat) option"
  im_running :: bool
  im_dirty :: bool
  im_checked :: "pytime option"
  im_observed :: "pytime option"
  im_status :: source_status
  im_coord :: coordinator

text \<open>
  What one operation reads: the calling thread's bound account; fresh identifiers for an epoch and a cache file; the
  clock and the executor of the scheduler; the canonical form of a path and the normal form of \<^verbatim>\<open>Path(raw)\<close>; the source, whether it
  is where the layout puts it, and its path; the cipher; whether SQLite opens a pair of files and lists its tables,
  and connects; the pipeline switch; locked files; what the key store, the configuration file, the sync state, the old
  key files and the running client answer; and the time a build took.
\<close>

record environment =
  ev_bound :: "account option"
  ev_epoch :: string
  ev_name :: string
  ev_clock :: "nat \<Rightarrow> pytime"
  ev_submit :: "sync_target \<Rightarrow> submission"
  ev_canon :: "string \<Rightarrow> string"
  ev_path :: "string \<Rightarrow> string"
  ev_world :: "nat \<Rightarrow> disk"
  ev_located :: "string \<Rightarrow> string \<Rightarrow> bool"
  ev_source_path :: "string \<Rightarrow> string \<Rightarrow> string"
  ev_dec :: cipher
  ev_opens :: "byte list \<Rightarrow> byte list option \<Rightarrow> bool"
  ev_connects :: bool
  ev_pipeline :: bool
  ev_locked :: "string list"
  ev_busy :: "py_error option"
  ev_config_fails :: bool
  ev_restored :: "sync_row option result"
  ev_legacy :: "byte list option list"
  ev_live :: "byte list option"
  ev_elapsed :: rat

definition now_of :: "environment \<Rightarrow> source \<Rightarrow> pytime \<times> source" where
  "now_of ev s = (let (t, c) = read_clock (ev_clock ev) (im_coord s) in (t, s\<lparr>im_coord := c\<rparr>))"

definition current_context :: "environment \<Rightarrow> source \<Rightarrow> account \<times> source" where
  "current_context ev s =
     (let (a, g) = get_account_context (ev_bound ev) (ev_epoch ev) (im_gui s) in (a, s\<lparr>im_gui := g\<rparr>))"

definition configured_seller :: "source \<Rightarrow> string" where
  "configured_seller s = py_strip (fst (g_config (im_gui s)))"

definition configured_dir :: "source \<Rightarrow> string" where
  "configured_dir s = py_strip (snd (g_config (im_gui s)))"

definition publish_status :: "source \<Rightarrow> source" where
  "publish_status s = s\<lparr>im_status :=
     \<lparr>ss_revision = im_revision s, ss_cache_time = im_cache_time s, ss_mtime = map_option fst (im_fingerprint s),
      ss_frames = im_frames s, ss_refresh_ms = im_refresh_ms s, ss_checked = im_checked s, ss_observed = im_observed s,
      ss_error = im_error s, ss_code = im_code s,
      ss_retry = (if im_auto s \<or> im_startup s \<noteq> None then (if im_backoff s = 0 then None else Some (im_backoff s)) else None),
      ss_validation = im_validation s, ss_auto = im_auto s, ss_dirty = im_dirty s\<rparr>\<rparr>"

section \<open>Selecting an account\<close>

text \<open>\<^verbatim>\<open>_cancel_startup_validation\<close>, \<^verbatim>\<open>_reset_runtime_state\<close>, \<^verbatim>\<open>_select_sync_context\<close>.\<close>

definition cancel_validation :: "source \<Rightarrow> source" where
  "cancel_validation s = s\<lparr>im_sequence := im_sequence s + 1, im_startup := None, im_running := False,
     im_validation := (if im_validation s = K_Verifying then K_Unverified else im_validation s)\<rparr>"

definition reset_runtime :: "source \<Rightarrow> source" where
  "reset_runtime s = publish_status ((cancel_validation s)\<lparr>im_conn := None, im_key := None, im_key_owner := [],
     im_key_source := ''none'', im_validation := K_Unverified, im_cached := None, im_cache_time := 0,
     im_fingerprint := None, im_crc := None, im_wal_crc := None, im_refresh_start := 0, im_backoff := 0,
     im_failures := 0, im_error := [], im_code := [], im_frames := 0, im_refresh_ms := 0, im_future := None,
     im_auto := False, im_dirty := False, im_checked := None, im_observed := None\<rparr>)"

definition select_context :: "environment \<Rightarrow> source \<Rightarrow> source" where
  "select_context ev s =
     (let (ctx, s1) = current_context ev s;
          s2 = s1\<lparr>im_coord := select_account ctx None (im_coord s1)\<rparr>;
          s3 = (if ac_seller ctx = [] then s2
                else case ev_restored ev of
                  Inl e \<Rightarrow> s2\<lparr>im_error := error_label e, im_code := ''sync_error''\<rparr>
                | Inr None \<Rightarrow> s2
                | Inr (Some r) \<Rightarrow> s2\<lparr>im_revision := max (im_revision s2) (sy_source_revision r),
                                   im_coord := select_account ctx (Some r) (im_coord s2)\<rparr>)
      in publish_status s3)"

text \<open>\<open>free\<close>: nobody holds the account lock.\<close>

definition busy_error :: py_error where
  "busy_error = App_Error 409 ''The current account is still in use''"

definition new_selection :: "environment \<Rightarrow> source \<Rightarrow> source" where
  "new_selection ev s =
     (let s1 = reset_runtime s;
          s2 = s1\<lparr>im_gui := snd (invalidate_account_context (ev_bound ev) (ev_epoch ev) (im_gui s1))\<rparr>
      in select_context ev s2)"

definition set_data_dir :: "environment \<Rightarrow> bool \<Rightarrow> string \<Rightarrow> source \<Rightarrow> unit result \<times> source" where
  "set_data_dir ev free raw s =
     (let dir = py_strip raw in
      if \<not> free then (Inl busy_error, s)
      else if dir = configured_dir s
        \<or> (dir \<noteq> [] \<and> configured_dir s \<noteq> [] \<and> ev_path ev dir = ev_path ev (configured_dir s))
      then (Inr (), s)
      else if ev_config_fails ev then (Inl (OS_Error ''config''), s)
      else (Inr (), new_selection ev (s\<lparr>im_gui := (im_gui s)\<lparr>g_config := ([], dir)\<rparr>,
                                       im_data_dir := (if dir = [] then None else Some dir)\<rparr>)))"

definition set_self_ali_id :: "environment \<Rightarrow> bool \<Rightarrow> string \<Rightarrow> source \<Rightarrow> unit result \<times> source" where
  "set_self_ali_id ev free raw s =
     (let ali_id = py_strip raw in
      if \<not> free then (Inl busy_error, s)
      else if ali_id = configured_seller s then (Inr (), s)
      else if ev_config_fails ev then (Inl (OS_Error ''config''), s)
      else (Inr (), new_selection ev
              (s\<lparr>im_gui := (im_gui s)\<lparr>g_config := (ali_id, snd (g_config (im_gui s)))\<rparr>\<rparr>)))"

definition drop_cached_key :: "environment \<Rightarrow> source \<Rightarrow> source" where
  "drop_cached_key ev s = new_selection ev s"

definition source_located :: "environment \<Rightarrow> string \<Rightarrow> source \<Rightarrow> bool" where
  "source_located ev ali_id s =
     (case im_data_dir s of None \<Rightarrow> False | Some dir \<Rightarrow> ali_id \<noteq> [] \<and> ev_located ev dir ali_id)"

section \<open>Keys\<close>

text \<open>\<^verbatim>\<open>_verify_source_key\<close>: a header that cannot be read whole is a failure of the source, not of the key.\<close>

definition verify_source_key :: "environment \<Rightarrow> nat \<Rightarrow> byte list \<Rightarrow> bool result" where
  "verify_source_key ev n key =
     (case df_bytes (dk_main (ev_world ev n)) of
        None \<Rightarrow> Inl (OS_Error ''source'')
      | Some bs \<Rightarrow>
          if length (take 16 bs) \<noteq> 16 then Inl (OS_Error ''IM source header is incomplete'')
          else Inr (ev_dec ev key (take 16 bs) = Inr sqlite_magic))"

text \<open>\<^verbatim>\<open>_migrate_legacy_key_file\<close>: the first file of a usable size that fits the source is imported.\<close>

fun legacy_key :: "environment \<Rightarrow> nat \<Rightarrow> byte list option list \<Rightarrow> byte list option result" where
  "legacy_key ev n [] = Inr None"
| "legacy_key ev n (None # fs) = legacy_key ev n fs"
| "legacy_key ev n (Some raw # fs) =
     (if length raw \<notin> aes_key_sizes then legacy_key ev n fs
      else and_then (verify_source_key ev n raw) (\<lambda>ok. if ok then Inr (Some raw) else legacy_key ev (n + 1) fs))"

definition use_key :: "string \<Rightarrow> byte list \<Rightarrow> string \<Rightarrow> source \<Rightarrow> source" where
  "use_key ali_id key source s =
     s\<lparr>im_key := Some key, im_key_owner := ali_id, im_key_source := source, im_validation := K_Valid\<rparr>"

definition stored_key_source :: "string \<Rightarrow> source \<Rightarrow> string" where
  "stored_key_source ali_id s =
     (let src = get_key_source ali_id (im_keys s) in if src = [] then key_auto else src)"

definition capture_live_key :: "environment \<Rightarrow> nat \<Rightarrow> string \<Rightarrow> source \<Rightarrow> bool result \<times> source" where
  "capture_live_key ev n ali_id s =
     (case ev_live ev of
        None \<Rightarrow> (Inr False, s)
      | Some key \<Rightarrow>
          (case verify_source_key ev n key of
             Inl e \<Rightarrow> (Inl e, s)
           | Inr False \<Rightarrow> (Inr False, s\<lparr>im_validation := K_Invalid\<rparr>)
           | Inr True \<Rightarrow>
               (case ev_busy ev of
                  Some e \<Rightarrow> (Inl e, s)
                | None \<Rightarrow> (Inr True, use_key ali_id key ''live'' (s\<lparr>im_keys := save_key ali_id key key_auto (im_keys s)\<rparr>)))))"

definition other_keys :: "environment \<Rightarrow> nat \<Rightarrow> string \<Rightarrow> source \<Rightarrow> bool result \<times> source" where
  "other_keys ev n ali_id s =
     (case legacy_key ev n (ev_legacy ev) of
        Inl e \<Rightarrow> (Inl e, s)
      | Inr (Some key) \<Rightarrow>
          (case ev_busy ev of
             Some e \<Rightarrow> (Inl e, s)
           | None \<Rightarrow>
               (let s1 = s\<lparr>im_keys := save_key ali_id key key_auto (im_keys s)\<rparr>
                in (Inr True, use_key ali_id key (stored_key_source ali_id s1) s1)))
      | Inr None \<Rightarrow> capture_live_key ev (n + length (ev_legacy ev)) ali_id s)"

text \<open>\<^verbatim>\<open>_ensure_key\<close>: the key in hand, the stored key, an old key file, the running client.\<close>

definition stored_key :: "environment \<Rightarrow> nat \<Rightarrow> string \<Rightarrow> source \<Rightarrow> bool result \<times> source" where
  "stored_key ev n ali_id s =
     (case ev_busy ev of
        Some e \<Rightarrow> (Inl e, s)
      | None \<Rightarrow>
          (case get_key_hex ali_id (im_keys s) of
             None \<Rightarrow> other_keys ev (n + 1) ali_id (s\<lparr>im_validation := K_Unavailable\<rparr>)
           | Some key \<Rightarrow>
               (let s1 = s\<lparr>im_validation := K_Unverified\<rparr>
                in case verify_source_key ev n key of
                     Inl e \<Rightarrow> (Inl e, s1)
                   | Inr True \<Rightarrow> (Inr True, use_key ali_id key (stored_key_source ali_id s1) s1)
                   | Inr False \<Rightarrow> other_keys ev (n + 1) ali_id (s1\<lparr>im_validation := K_Invalid\<rparr>))))"

definition forget_key :: "source \<Rightarrow> source" where
  "forget_key s = s\<lparr>im_key := None, im_key_owner := [], im_key_source := ''none''\<rparr>"

definition ensure_key :: "environment \<Rightarrow> nat \<Rightarrow> string \<Rightarrow> source \<Rightarrow> bool result \<times> source" where
  "ensure_key ev n ali_id s =
     (case im_key s of
        Some key \<Rightarrow>
          if im_key_owner s = ali_id
          then (case verify_source_key ev n key of
                  Inl e \<Rightarrow> (Inl e, s)
                | Inr True \<Rightarrow> (Inr True, s\<lparr>im_validation := K_Valid\<rparr>)
                | Inr False \<Rightarrow> stored_key ev (n + 1) ali_id (forget_key s))
          else stored_key ev (n + 1) ali_id (forget_key s)
      | None \<Rightarrow> stored_key ev (n + 1) ali_id (forget_key s))"

section \<open>Building a copy\<close>

text \<open>
  The copy of the pair: None when the main file or a present log cannot be read. What a failed copy leaves behind is
  removed by the caller.
\<close>

definition copy_source_pair ::
  "(nat \<Rightarrow> disk) \<Rightarrow> nat \<Rightarrow> (byte list \<times> byte list option) option" where
  "copy_source_pair world n =
     (case df_bytes (dk_main (world n)) of
        None \<Rightarrow> None
      | Some main \<Rightarrow>
          if df_stat (dk_wal (world (n + 1))) = None then Some (main, None)
          else case df_bytes (dk_wal (world (n + 2))) of None \<Rightarrow> None | Some wal \<Rightarrow> Some (main, Some wal))"

text \<open>\<^verbatim>\<open>_decrypt_db\<close>: whole blocks, in one piece.\<close>

definition decrypt_db :: "cipher \<Rightarrow> byte list \<Rightarrow> byte list \<Rightarrow> byte list option" where
  "decrypt_db dec key bs =
     (if bs = [] \<or> length bs mod 16 \<noteq> 0 then None
      else case dec key bs of Inl _ \<Rightarrow> None | Inr plain \<Rightarrow> Some plain)"

text \<open>The log of a copy whose main file the key has opened; \<open>plain\<close> is the decrypted main file.\<close>

definition page_cipher :: "cipher \<Rightarrow> byte list \<Rightarrow> byte list \<Rightarrow> byte list" where
  "page_cipher dec key bs = (case dec key bs of Inl _ \<Rightarrow> bs | Inr out \<Rightarrow> out)"

definition build_wal ::
  "environment \<Rightarrow> byte list \<Rightarrow> byte list \<Rightarrow> byte list option \<Rightarrow> (byte list option \<times> nat) result" where
  "build_wal ev key plain wal =
     (case wal of
        None \<Rightarrow> Inr (None, 0)
      | Some raw \<Rightarrow>
          if raw = [] then Inr (None, 0)
          else and_then (verify_wal raw) (\<lambda>_.
            if length plain < 18 then wal_error ''unpack requires a buffer of 2 bytes''
            else and_then (rebuild_wal (page_cipher (ev_dec ev) key) (plain ! 16) (plain ! 17) (ev_pipeline ev) raw)
              (\<lambda>(out, frames). Inr (Some out, frames))))"

text \<open>\<^verbatim>\<open>CacheBuildError\<close>: detail and code.\<close>

type_synonym build_error = "string \<times> string"

definition wal_code :: "py_error \<Rightarrow> string" where
  "wal_code e = (case e of Runtime_Error _ \<Rightarrow> ''wal_disabled'' | _ \<Rightarrow> ''wal_error'')"

record built =
  bd_path :: string
  bd_frames :: nat
  bd_source :: signature

text \<open>The parts of \<^verbatim>\<open>_rebuild_cache\<close>: the contents of the accepted pair, then the files.\<close>

definition stable_copy :: "environment \<Rightarrow> nat \<Rightarrow> build_error + (signature \<times> byte list \<times> byte list option)" where
  "stable_copy ev n =
     (case capture_source (ev_world ev) n of
        None \<Rightarrow> Inl (''Source changed during capture'', ''source_changed'')
      | Some captured \<Rightarrow>
          (case copy_source_pair (ev_world ev) (n + 7) of
             None \<Rightarrow> Inl (''source copy'', ''source_copy_error'')
           | Some (main, wal) \<Rightarrow>
               if capture_source (ev_world ev) (n + 10) \<noteq> Some captured
                 \<or> (crc_of main, case wal of None \<Rightarrow> 0 | Some w \<Rightarrow> crc_of w) \<noteq> snd captured
               then Inl (''Source changed during copy'', ''source_changed'')
               else Inr (captured, main, wal)))"

definition plain_pair ::
  "environment \<Rightarrow> byte list \<Rightarrow> byte list \<Rightarrow> byte list option \<Rightarrow> build_error + (byte list \<times> byte list option \<times> nat)" where
  "plain_pair ev key main wal =
     (case decrypt_db (ev_dec ev) key main of
        None \<Rightarrow> Inl (''cache rebuild failed'', ''decrypt_error'')
      | Some plain \<Rightarrow>
          (case build_wal ev key plain wal of
             Inl e \<Rightarrow> Inl (err_text e, wal_code e)
           | Inr (out, frames) \<Rightarrow>
               if \<not> ev_opens ev plain out then Inl (''cache rebuild failed'', ''decrypt_error'')
               else Inr (plain, out, frames)))"

definition write_pair :: "string \<Rightarrow> byte list \<Rightarrow> byte list option \<Rightarrow> cache_files \<Rightarrow> cache_files" where
  "write_pair p main wal fs =
     (case wal of None \<Rightarrow> alist_put p main fs | Some w \<Rightarrow> alist_put (wal_name p) w (alist_put p main fs))"

text \<open>
  A build that fails discards what it wrote: the encrypted pair when the copy was taken, nothing before.
\<close>

definition rebuild_cache ::
  "environment \<Rightarrow> nat \<Rightarrow> string \<Rightarrow> byte list \<Rightarrow> cache_files \<Rightarrow> (build_error + built) \<times> cache_files" where
  "rebuild_cache ev n ali_id key fs =
     (let p = cache_path_for ali_id (ev_name ev) in
      case stable_copy ev n of
        Inl e \<Rightarrow> (Inl e, discard_build (ev_locked ev) p fs)
      | Inr (captured, main, wal) \<Rightarrow>
          (case plain_pair ev key main wal of
             Inl e \<Rightarrow> (Inl e, discard_build (ev_locked ev) p (write_pair p main wal fs))
           | Inr (plain, out, frames) \<Rightarrow>
               (Inr \<lparr>bd_path = p, bd_frames = frames, bd_source = captured\<rparr>, write_pair p plain out fs)))"

section \<open>Refreshing\<close>

definition cache_ttl :: pytime where "cache_ttl = 5"

definition min_refresh_interval :: pytime where "min_refresh_interval = 3"

definition max_backoff :: pytime where "max_backoff = 30"

definition observation_max_age :: pytime where "observation_max_age = 30"

definition protected_names :: "string \<Rightarrow> source \<Rightarrow> string set" where
  "protected_names keep s = set (with_sidecars keep)
     \<union> (\<Union>p \<in> pinned_paths (im_coord s). set (with_sidecars p))
     \<union> (\<Union>p \<in> fst ` set (im_pins s). set (with_sidecars p))
     \<union> (case im_cached s of None \<Rightarrow> {} | Some p \<Rightarrow> set (with_sidecars p))"

definition cleanup_caches :: "environment \<Rightarrow> string \<Rightarrow> source \<Rightarrow> source" where
  "cleanup_caches ev keep s = s\<lparr>im_files :=
     unlink_files (ev_locked ev) (\<lambda>q. is_cache_name q \<and> q \<notin> protected_names keep s) (im_files s)\<rparr>"

text \<open>\<^verbatim>\<open>_is_source_fresh\<close>: metadata alone for five seconds, then the contents too; five moments.\<close>

definition source_fresh :: "environment \<Rightarrow> nat \<Rightarrow> pytime \<Rightarrow> source \<Rightarrow> bool \<times> source" where
  "source_fresh ev n now s =
     (if im_cached s = None \<or> im_fingerprint s = None
        \<or> source_fingerprint (ev_world ev) n \<noteq> im_fingerprint s
      then (False, s)
      else if now - im_cache_time s < cache_ttl then (True, s)
      else if main_crc (ev_world ev) (n + 2) = None \<or> main_crc (ev_world ev) (n + 2) \<noteq> im_crc s then (False, s)
      else if wal_crc (ev_world ev) (n + 3) = None \<or> wal_crc (ev_world ev) (n + 3) \<noteq> im_wal_crc s then (False, s)
      else (True, s\<lparr>im_cache_time := now\<rparr>))"

definition refresh_delay :: "nat \<Rightarrow> pytime" where
  "refresh_delay failures = min (min_refresh_interval * 2 ^ min (failures - 1) 4) max_backoff"

definition note_success :: "environment \<Rightarrow> nat \<Rightarrow> source \<Rightarrow> source" where
  "note_success ev frames s =
     (let (now, s1) = now_of ev s; revision = im_revision s1 + 1
      in s1\<lparr>im_observed := Some now, im_failures := 0, im_backoff := 0, im_error := [], im_code := [],
            im_refresh_ms := ev_elapsed ev, im_frames := frames, im_revision := revision,
            im_saved_revision := (if ev_config_fails ev then im_saved_revision s1 else revision)\<rparr>)"

definition note_source_failure :: "environment \<Rightarrow> string \<Rightarrow> string \<Rightarrow> source \<Rightarrow> source" where
  "note_source_failure ev detail code s =
     (let failures = im_failures s + 1; (now, s1) = now_of ev s
      in s1\<lparr>im_failures := failures, im_backoff := now + refresh_delay failures, im_error := detail, im_code := code\<rparr>)"

definition held :: "source \<Rightarrow> bool" where
  "held s \<longleftrightarrow> im_cached s \<noteq> None"

definition refused :: "environment \<Rightarrow> string \<Rightarrow> string \<Rightarrow> source \<Rightarrow> bool result \<times> source" where
  "refused ev detail code s = (Inr (held s), note_source_failure ev detail code s)"

text \<open>\<^verbatim>\<open>sync_to_crm\<close> without the wait: the caller's waiter, None when there is nothing to synchronise.\<close>

definition sync_to_crm :: "environment \<Rightarrow> source \<Rightarrow> nat option result \<times> source" where
  "sync_to_crm ev s =
     (let (ctx, s1) = current_context ev s in
      case im_cached s1 of
        None \<Rightarrow> (Inr None, s1)
      | Some cached \<Rightarrow>
          if ac_seller ctx = [] \<or> \<not> im_auto s1 then (Inr None, s1)
          else case request_sync (ev_clock ev) (ev_submit ev) ctx cached (im_revision s1) (im_coord s1) of
                 (Inl e, c) \<Rightarrow> (Inl e, s1\<lparr>im_coord := c\<rparr>)
               | (Inr w, c) \<Rightarrow> (Inr (Some w),
                   s1\<lparr>im_future := Some w, im_coord := sync_tick (ev_clock ev) (ev_submit ev) (ev_canon ev) c\<rparr>))"

definition adopt_build :: "environment \<Rightarrow> built \<Rightarrow> source \<Rightarrow> source" where
  "adopt_build ev b s =
     (let (now, s1) = now_of ev (s\<lparr>im_conn := Some (bd_path b), im_cached := Some (bd_path b)\<rparr>)
      in note_success ev (bd_frames b)
           (s1\<lparr>im_cache_time := now, im_fingerprint := Some (fst (bd_source b)), im_crc := Some (fst (snd (bd_source b))),
               im_wal_crc := Some (snd (snd (bd_source b))), im_dirty := False\<rparr>))"

text \<open>The last part of \<^verbatim>\<open>_refresh_locked\<close>, with a key that fits; the build reads from moment \<open>n\<close> on.\<close>

definition rebuild_source :: "environment \<Rightarrow> nat \<Rightarrow> pytime \<Rightarrow> byte list \<Rightarrow> source \<Rightarrow> bool result \<times> source" where
  "rebuild_source ev n now key s =
     (let s1 = publish_status (s\<lparr>im_refresh_start := now\<rparr>);
          (r, fs) = rebuild_cache ev n (configured_seller s) key (im_files s1);
          s2 = s1\<lparr>im_files := fs\<rparr>
      in case r of
           Inl (detail, code) \<Rightarrow> refused ev detail code s2
         | Inr b \<Rightarrow>
             if \<not> ev_connects ev
             then refused ev ''cache could not be opened'' ''decrypt_error''
                    (s2\<lparr>im_files := discard_build (ev_locked ev) (bd_path b) (im_files s2)\<rparr>)
             else (case sync_to_crm ev (adopt_build ev b s2) of
                     (Inl e, s3) \<Rightarrow> (Inl e, s3)
                   | (Inr _, s3) \<Rightarrow> (Inr True, cleanup_caches ev (bd_path b) s3)))"

definition refresh_stale :: "environment \<Rightarrow> nat \<Rightarrow> pytime \<Rightarrow> source \<Rightarrow> bool result \<times> source" where
  "refresh_stale ev n now s =
     (if held s \<and> now - im_refresh_start s < min_refresh_interval then (Inr True, s)
      else case (case im_key s of None \<Rightarrow> Inr False | Some key \<Rightarrow> verify_source_key ev n key) of
             Inl e \<Rightarrow> refused ev (err_text e) ''source_unreadable'' s
           | Inr False \<Rightarrow>
               refused ev ''AES key is not available'' ''key_unavailable''
                 (s\<lparr>im_validation := (if im_key s = None \<or> im_key s = Some [] then K_Unavailable else K_Invalid),
                    im_auto := False\<rparr>)
           | Inr True \<Rightarrow> rebuild_source ev (n + 1) now (case im_key s of Some k \<Rightarrow> k | None \<Rightarrow> []) s)"

definition refresh_locked :: "environment \<Rightarrow> nat \<Rightarrow> source \<Rightarrow> bool result \<times> source" where
  "refresh_locked ev n s =
     (if \<not> im_auto s then (Inr (held s), s)
      else
        (let (now, s1) = now_of ev s in
         if now < im_backoff s1 then (Inr (held s1), s1)
         else
           (let s2 = s1\<lparr>im_checked := Some now\<rparr> in
            if \<not> source_located ev (configured_seller s2) s2
            then refused ev ''IM source database is missing or not configured'' ''source_missing'' s2
            else if im_frames s2 \<noteq> 0 \<and> \<not> ev_pipeline ev
            then refused ev ''WAL pipeline is disabled'' ''wal_disabled'' s2
            else
              (let (fresh, s3) = source_fresh ev n now s2 in
               if fresh
               then (let (t, s4) = now_of ev s3
                     in (Inr True, s4\<lparr>im_observed := Some t, im_error := [], im_code := [], im_backoff := 0,
                                      im_failures := 0, im_dirty := False\<rparr>))
               else refresh_stale ev (n + 5) now (s3\<lparr>im_dirty := True\<rparr>)))))"

definition refresh :: "environment \<Rightarrow> nat \<Rightarrow> source \<Rightarrow> bool result \<times> source" where
  "refresh ev n s = (let (r, s1) = refresh_locked ev n s in (r, publish_status s1))"

definition get_connection :: "environment \<Rightarrow> source \<Rightarrow> string option result \<times> source" where
  "get_connection ev s = (let (r, s1) = refresh ev 0 s in (and_then r (\<lambda>_. Inr (im_conn s1)), s1))"

section \<open>Validation of the saved key at the start\<close>

text \<open>
  \<^verbatim>\<open>prepare_startup_validation\<close> queues it; \<open>source_tick\<close> takes it up; the reads run without a lock, so what they
  find (\<open>saved_key_verdict\<close>) is applied by an operation of its own, only for the validation that is still the current one.
\<close>

definition prepare_validation :: "environment \<Rightarrow> source \<Rightarrow> source" where
  "prepare_validation ev s =
     (let (ctx, s1) = current_context ev s in
      if ac_seller ctx = [] \<or> ac_data_dir ctx = [] \<or> im_validation s1 \<noteq> K_Unverified \<or> im_checked s1 \<noteq> None
        \<or> im_startup s1 \<noteq> None
      then s1
      else publish_status (s1\<lparr>im_sequence := im_sequence s1 + 1, im_startup := Some (ctx, im_sequence s1 + 1),
                              im_validation := K_Verifying\<rparr>))"

record key_verdict =
  vd_state :: key_state
  vd_key :: "byte list option"
  vd_source :: string
  vd_detail :: string
  vd_code :: string

definition saved_key_verdict :: "environment \<Rightarrow> account \<Rightarrow> key_table option \<Rightarrow> key_verdict" where
  "saved_key_verdict ev ctx db =
     (case read_saved_key (ev_busy ev) (ac_seller ctx) db of
        Inl (Value_Error _) \<Rightarrow> \<lparr>vd_state = K_Invalid, vd_key = None, vd_source = ''none'',
          vd_detail = ''the saved AES key is malformed'', vd_code = ''key_invalid''\<rparr>
      | Inl _ \<Rightarrow> \<lparr>vd_state = K_Unverified, vd_key = None, vd_source = ''none'',
          vd_detail = ''the saved AES key cannot be read now'', vd_code = ''key_store_unreadable''\<rparr>
      | Inr None \<Rightarrow> \<lparr>vd_state = K_Unavailable, vd_key = None, vd_source = ''none'',
          vd_detail = ''no saved AES key'', vd_code = ''key_unavailable''\<rparr>
      | Inr (Some (key, source)) \<Rightarrow>
          (case verify_source_key ev 0 key of
             Inl _ \<Rightarrow> \<lparr>vd_state = K_Unverified, vd_key = Some key, vd_source = source,
               vd_detail = ''the source header cannot be read now'', vd_code = ''source_unreadable''\<rparr>
           | Inr False \<Rightarrow> \<lparr>vd_state = K_Invalid, vd_key = Some key, vd_source = source,
               vd_detail = ''the saved AES key does not match'', vd_code = ''key_invalid''\<rparr>
           | Inr True \<Rightarrow> \<lparr>vd_state = K_Valid, vd_key = Some key, vd_source = source, vd_detail = [], vd_code = []\<rparr>))"

definition apply_verdict :: "environment \<Rightarrow> account \<Rightarrow> key_verdict \<Rightarrow> source \<Rightarrow> source" where
  "apply_verdict ev ctx v s =
     (let s1 = s\<lparr>im_running := False, im_validation := vd_state v\<rparr> in
      if vd_state v = K_Unverified then note_source_failure ev (vd_detail v) (vd_code v) s1
      else
        (let s2 = s1\<lparr>im_startup := None, im_backoff := 0, im_failures := 0, im_error := vd_detail v, im_code := vd_code v\<rparr>
         in if vd_state v = K_Valid
            then s2\<lparr>im_key := vd_key v, im_key_source := vd_source v, im_key_owner := ac_seller ctx, im_auto := True\<rparr>
            else s2))"

definition finish_validation ::
  "environment \<Rightarrow> bool \<Rightarrow> account \<times> nat \<Rightarrow> key_verdict \<Rightarrow> source \<Rightarrow> bool result \<times> source" where
  "finish_validation ev stopped task v s =
     (if stopped \<or> Some task \<noteq> im_startup s \<or> snd task \<noteq> im_sequence s then (Inr False, s)
      else
        (let (ctx, s1) = current_context ev s in
         if fst task \<noteq> ctx then (Inr False, s1)
         else
           (let s2 = publish_status (apply_verdict ev (fst task) v s1)
            in if im_auto s2 then refresh ev 0 s2 else (Inr False, s2))))"

text \<open>
  One iteration of the worker: the scheduler first, without the middleware's locks; then, when nobody holds them
  (\<open>free\<close>), it takes up a validation that is due, or refreshes. The result is the validation to run.
\<close>

definition tick_coordinator :: "environment \<Rightarrow> source \<Rightarrow> source" where
  "tick_coordinator ev s = s\<lparr>im_coord := sync_tick (ev_clock ev) (ev_submit ev) (ev_canon ev) (im_coord s)\<rparr>"

definition start_validation :: "environment \<Rightarrow> source \<Rightarrow> source" where
  "start_validation ev s =
     (let (now, s1) = now_of ev (s\<lparr>im_running := True, im_validation := K_Verifying\<rparr>)
      in publish_status (s1\<lparr>im_checked := Some now, im_backoff := 0, im_error := [], im_code := []\<rparr>))"

definition source_tick :: "environment \<Rightarrow> bool \<Rightarrow> bool \<Rightarrow> source \<Rightarrow> (account \<times> nat) option result \<times> source" where
  "source_tick ev stopped free s =
     (if stopped then (Inr None, s)
      else
        (let s1 = tick_coordinator ev s in
         if \<not> free then (Inr None, s1)
         else if im_startup s1 \<noteq> None \<and> \<not> im_running s1
         then (let (now, s2) = now_of ev s1 in
               if im_backoff s2 \<le> now then (Inr (im_startup s2), start_validation ev s2)
               else if im_auto s2 then (let (r, s3) = refresh ev 0 s2 in (and_then r (\<lambda>_. Inr None), s3))
               else (Inr None, s2))
         else if im_auto s1 then (let (r, s2) = refresh ev 0 s1 in (and_then r (\<lambda>_. Inr None), s2))
         else (Inr None, s1)))"

section \<open>An explicit retry\<close>

definition reset_retry :: "source \<Rightarrow> source" where
  "reset_retry s = (cancel_validation s)\<lparr>im_backoff := 0, im_refresh_start := 0, im_failures := 0,
     im_coord := clear_retry (im_coord s)\<rparr>"

text \<open>With a key that fits: contents are compared even when metadata and age would do.\<close>

definition retry_refresh :: "environment \<Rightarrow> nat \<Rightarrow> source \<Rightarrow> nat option result \<times> source" where
  "retry_refresh ev n s =
     (let previous = im_revision s; (r, s1) = refresh ev n (s\<lparr>im_auto := True, im_cache_time := 0\<rparr>) in
      case r of
        Inl e \<Rightarrow> (Inl e, s1)
      | Inr _ \<Rightarrow>
          if im_error s1 \<noteq> [] then (Inr None, s1)
          else if im_revision s1 = previous
          then (case sync_to_crm ev s1 of (Inl e, s2) \<Rightarrow> (Inl e, s2) | (Inr _, s2) \<Rightarrow> (Inr (im_future s2), s2))
          else (Inr (im_future s1), s1))"

definition retry_source :: "environment \<Rightarrow> source \<Rightarrow> nat option result \<times> source" where
  "retry_source ev s =
     (if \<not> source_located ev (configured_seller s) s
      then (Inr None, note_source_failure ev ''IM source database is missing or not configured'' ''source_missing'' s)
      else case ensure_key ev 0 (configured_seller s) s of
             (Inl e, s1) \<Rightarrow> (Inl e, s1)
           | (Inr False, s1) \<Rightarrow>
               (Inr None, note_source_failure ev ''AES key is not available'' ''key_unavailable'' (s1\<lparr>im_auto := False\<rparr>))
           | (Inr True, s1) \<Rightarrow> retry_refresh ev (3 + length (ev_legacy ev)) s1)"

text \<open>The connection, and the waiter a caller may wait for.\<close>

definition retry_connection :: "environment \<Rightarrow> source \<Rightarrow> (string option \<times> nat option) result \<times> source" where
  "retry_connection ev s =
     (let (now, s1) = now_of ev (reset_retry s);
          (r, s2) = retry_source ev (s1\<lparr>im_checked := Some now\<rparr>)
      in case r of
           Inl (OS_Error d) \<Rightarrow>
             (let s3 = publish_status (note_source_failure ev d ''source_unreadable'' s2) in (Inr (im_conn s3, None), s3))
         | Inl e \<Rightarrow> (Inl e, s2)
         | Inr w \<Rightarrow> (let s3 = publish_status s2 in (Inr (im_conn s3, w), s3)))"

section \<open>Pinned readers\<close>

record pinned =
  pn_path :: string
  pn_seller :: string
  pn_data_dir :: string
  pn_source_path :: string
  pn_revision :: int
  pn_signature :: "fingerprint \<times> word32 option \<times> word32 option"

text \<open>\<^verbatim>\<open>pin_source_reader\<close>: the entry and the exit of its context.\<close>

definition same_scope :: "environment \<Rightarrow> account \<Rightarrow> account \<Rightarrow> source \<Rightarrow> bool" where
  "same_scope ev ctx now s \<longleftrightarrow> ac_seller ctx \<noteq> [] \<and> ac_data_dir ctx \<noteq> [] \<and> ac_seller now = ac_seller ctx
     \<and> ac_data_dir now \<noteq> [] \<and> ev_canon ev (ac_data_dir now) = ev_canon ev (ac_data_dir ctx)
     \<and> (case im_data_dir s of None \<Rightarrow> False | Some dir \<Rightarrow> ev_canon ev dir = ev_canon ev (ac_data_dir ctx))"

definition pin_source :: "environment \<Rightarrow> account \<Rightarrow> source \<Rightarrow> pinned result \<times> source" where
  "pin_source ev ctx s =
     (let (now, s1) = current_context ev s in
      if \<not> same_scope ev ctx now s1 then (Inl (Value_Error ''source_context_mismatch''), s1)
      else if \<not> im_auto s1 \<or> im_validation s1 \<noteq> K_Valid \<or> im_key s1 = None \<or> im_key_owner s1 \<noteq> ac_seller ctx
      then (Inl (Value_Error ''source_not_verified''), s1)
      else case (im_cached s1, im_fingerprint s1) of
             (Some cached, Some f) \<Rightarrow>
               (Inr \<lparr>pn_path = cached, pn_seller = ac_seller ctx, pn_data_dir = ev_canon ev (ac_data_dir ctx),
                     pn_source_path = ev_source_path ev (ev_canon ev (ac_data_dir ctx)) (ac_seller ctx),
                     pn_revision = im_revision s1, pn_signature = (f, im_crc s1, im_wal_crc s1)\<rparr>,
                s1\<lparr>im_pins := alist_put cached ((case map_of (im_pins s1) cached of None \<Rightarrow> 0 | Some k \<Rightarrow> k) + 1) (im_pins s1)\<rparr>)
           | _ \<Rightarrow> (Inl (Value_Error ''source_cache_missing''), s1))"

definition unpin_source :: "string \<Rightarrow> source \<Rightarrow> source" where
  "unpin_source path s =
     (case map_of (im_pins s) path of
        None \<Rightarrow> s
      | Some k \<Rightarrow> s\<lparr>im_pins := (if k - 1 \<noteq> 0 then alist_put path (k - 1) (im_pins s) else alist_del path (im_pins s))\<rparr>)"

section \<open>Status\<close>

definition key_status :: "source \<Rightarrow> bool \<times> string" where
  "key_status s =
     (let ali_id = configured_seller s; src = get_key_source ali_id (im_keys s) in
      if ali_id = [] then (False, ''none'')
      else if im_key s \<noteq> None \<and> im_key_owner s = ali_id then (True, im_key_source s)
      else if src \<noteq> [] then (True, src) else (False, ''none''))"

record sync_status =
  st_error :: string
  st_code :: string
  st_retry :: "pytime option"
  st_phase :: string
  st_stale :: bool
  st_ready :: bool
  st_freshness :: string
  st_observation_stale :: bool

definition latest_retry :: "pytime option \<Rightarrow> pytime option \<Rightarrow> pytime option" where
  "latest_retry a b =
     (let t = max (case a of None \<Rightarrow> 0 | Some x \<Rightarrow> x) (case b of None \<Rightarrow> 0 | Some x \<Rightarrow> x)
      in if t = 0 then None else Some t)"

text \<open>The published part is read without the lock: \<open>ss\<close> and \<open>view\<close> may be of different moments.\<close>

definition sync_status_of :: "pytime \<Rightarrow> source_status \<Rightarrow> sync_view \<Rightarrow> sync_status" where
  "sync_status_of now ss view =
     (let error = (if ss_error ss \<noteq> [] then ss_error ss else sv_last_error view);
          syncing = (sv_syncing view \<or> sv_pending view);
          old = (case ss_observed ss of None \<Rightarrow> True | Some t \<Rightarrow> now - t > observation_max_age);
          stale = (error \<noteq> [] \<or> \<not> ss_auto ss \<or> ss_dirty ss \<or> syncing \<or> old
                   \<or> \<not> py_eq (PInt (ss_revision ss)) (sv_applied view));
          phase = (if error \<noteq> [] then ''error'' else if syncing then ''syncing'' else sv_phase view)
      in \<lparr>st_error = error,
          st_code = (if ss_code ss \<noteq> [] then ss_code ss else if sv_last_error view \<noteq> [] then ''sync_error'' else []),
          st_retry = latest_retry (ss_retry ss) (sv_retry_at view), st_phase = phase, st_stale = stale,
          st_ready = (phase = ''ready'' \<and> \<not> stale),
          st_freshness = (if stale \<and> error \<noteq> [] then ''stale'' else if syncing then ''syncing''
                          else if stale then ''stale'' else ''fresh''),
          st_observation_stale = old\<rparr>)"

definition source_sync_status :: "pytime \<Rightarrow> source \<Rightarrow> sync_status" where
  "source_sync_status now s = sync_status_of now (im_status s) (co_view (im_coord s))"

section \<open>The first state\<close>

text \<open>\<^verbatim>\<open>__new__\<close>, with the saved revision; \<open>files\<close> are what earlier processes left in the cache directory.\<close>

definition new_source :: "gui \<Rightarrow> int \<Rightarrow> key_table \<Rightarrow> cache_files \<Rightarrow> source" where
  "new_source g saved keys files =
     \<lparr>im_gui = g, im_data_dir = (let dir = py_strip (snd (g_config g)) in if dir = [] then None else Some dir),
      im_keys = keys, im_key = None, im_key_owner = [], im_key_source = ''none'', im_validation = K_Unverified,
      im_files = files, im_cached = None, im_conn = None, im_pins = [], im_cache_time = 0, im_fingerprint = None,
      im_crc = None, im_wal_crc = None, im_refresh_start = 0, im_backoff = 0, im_failures = 0, im_error = [],
      im_code = [], im_frames = 0, im_refresh_ms = 0, im_revision = max 0 saved, im_saved_revision = saved,
      im_future = None, im_auto = False, im_sequence = 0, im_startup = None, im_running = False, im_dirty = False,
      im_checked = None, im_observed = None,
      im_status = \<lparr>ss_revision = 0, ss_cache_time = 0, ss_mtime = None, ss_frames = 0, ss_refresh_ms = 0,
        ss_checked = None, ss_observed = None, ss_error = [], ss_code = [], ss_retry = None,
        ss_validation = K_Unverified, ss_auto = False, ss_dirty = False\<rparr>,
      im_coord = new_coordinator\<rparr>"

definition start_source :: "environment \<Rightarrow> gui \<Rightarrow> int \<Rightarrow> key_table \<Rightarrow> cache_files \<Rightarrow> source" where
  "start_source ev g saved keys files = select_context ev (new_source g saved keys files)"

end
