(* ===== verification/Source_Cache_Props.thy ===== *)
theory Source_Cache_Props
  imports Source_Cache Sync_Coordinator_Props
begin

text \<open>
  The cache as a transition system: \<open>source_step\<close> is one operation under the locks, one completion reported by the
  executor, or a reader's entry or exit. Files in use (the current copy, copies that readers or synchronisations
  hold) are never removed nor changed; a failed refresh keeps the copy in place; an accepted copy is a whole copy of
  a source that did not change meanwhile; the key in hand belongs to the selected account.
\<close>

section \<open>Paths held by the scheduler\<close>

lemma pinned_paths_live: "pinned_paths s = tg_path ` set (live (co_active s) (co_pending s))"
  by (cases "co_pending s") (auto simp: pinned_paths_def image_image)

lemma pinned_cancel: "pinned_paths (cancel_pending s) \<subseteq> pinned_paths s"
  by (auto simp: pinned_paths_def cancel_pending_def split: option.splits)

lemma pinned_select: "pinned_paths (select_account ctx restored s) \<subseteq> pinned_paths s"
  using pinned_cancel [of s] by (simp add: pinned_paths_def select_account_def Let_def)

lemma pinned_parts [simp]:
  "pinned_paths (s\<lparr>co_reads := n\<rparr>) = pinned_paths s" "pinned_paths (s\<lparr>co_view := v\<rparr>) = pinned_paths s"
  "pinned_paths (s\<lparr>co_completed := q\<rparr>) = pinned_paths s" "pinned_paths (s\<lparr>co_waiters := ws\<rparr>) = pinned_paths s"
  "pinned_paths (clear_retry s) = pinned_paths s" "pinned_paths (complete_target t out s) = pinned_paths s"
  by (simp_all add: pinned_paths_def clear_retry_def complete_target_def)

lemma pinned_dispatch: "pinned_paths (dispatch clock submit s) \<subseteq> pinned_paths s"
proof (cases "co_pending s")
  case (Some t)
  then show ?thesis
    by (auto simp: pinned_paths_def dispatch_def read_clock_def Let_def complete_target_def alist_put_new
        split: option.splits)
qed (simp add: dispatch_def)

lemma pinned_request:
  "pinned_paths (snd (request_sync clock submit ctx path source s)) \<subseteq> insert path (pinned_paths s)"
proof -
  have "pinned_paths (dispatch clock submit
      (s1\<lparr>co_pending := Some t, co_last := l, co_view := v\<rparr>)) \<subseteq> insert path (pinned_paths s)"
    if "new_target ctx path source ws s = (t, s1)" for t s1 l v ws
  proof -
    have "pinned_paths (s1\<lparr>co_pending := Some t, co_last := l, co_view := v\<rparr>) \<subseteq> insert path (pinned_paths s)"
      using that by (auto simp: pinned_paths_def new_target_def split: option.splits)
    with pinned_dispatch show ?thesis by blast
  qed
  then show ?thesis
    by (auto simp: request_sync_def Let_def split: option.split prod.split)
qed

lemma pinned_retry_later: "pinned_paths (retry_later clock t e s) \<subseteq> insert (tg_path t) (pinned_paths s)"
  by (auto simp: pinned_paths_def retry_later_def read_clock_def new_target_def Let_def split: option.splits)

lemma pinned_publish [simp]: "pinned_paths (publish_result canon ctx c s) = pinned_paths s"
  by (simp add: publish_result_def pinned_paths_def split: option.split)

lemma pinned_finish:
  assumes "coord_inv (t # q) {} s"
  shows "pinned_paths (finish_target clock canon t s) \<subseteq> pinned_paths s"
proof (cases "map_of (co_active s) (ac_epoch (tg_context t))")
  case None
  then show ?thesis by (simp add: finish_target_def)
next
  case (Some a)
  show ?thesis
  proof (cases "tg_id a = tg_id t")
    case False
    then show ?thesis using Some by (simp add: finish_target_def)
  next
    case True
    have mem: "a \<in> set (live (co_active s) (co_pending s))"
      using Some by (force simp: live_def dest: map_of_SomeD)
    then have "a = t"
      using assms True by (auto simp: coord_inv_def coord_ok_def results_ok_def)
    then have path: "tg_path t \<in> pinned_paths s"
      using mem by (simp add: pinned_paths_live)
    define s1 where "s1 = s\<lparr>co_active := alist_del (ac_epoch (tg_context t)) (co_active s)\<rparr>"
    have s1: "pinned_paths s1 \<subseteq> pinned_paths s"
      by (auto simp: s1_def pinned_paths_def set_alist_del)
    have "pinned_paths (retry_later clock t e (u\<lparr>co_view := v\<rparr>)) \<subseteq> pinned_paths s"
      if "pinned_paths u \<subseteq> pinned_paths s" for e u v
      using pinned_retry_later [of clock t e "u\<lparr>co_view := v\<rparr>"] that path by auto
    moreover have "pinned_paths (u\<lparr>co_failures := n, co_view := v\<rparr>) = pinned_paths u" for u n v
      by (simp add: pinned_paths_def)
    ultimately show ?thesis
      using s1 Some True unfolding finish_target_def s1_def [symmetric]
      by (simp add: Let_def split: sum.split)
  qed
qed

lemma pinned_tick:
  assumes "sync_inv s"
  shows "pinned_paths (sync_tick clock submit canon s) \<subseteq> pinned_paths s"
proof -
  have "coord_inv q {} u \<Longrightarrow> pinned_paths (fold (finish_target clock canon) q u) \<subseteq> pinned_paths u" for q u
  proof (induction q arbitrary: u)
    case (Cons t q)
    from finish_target_inv [OF Cons.prems, of clock canon] pinned_finish [OF Cons.prems, of clock canon]
      Cons.IH [of "finish_target clock canon t u"] show ?case by auto
  qed simp
  from this [of "co_completed s" "s\<lparr>co_completed := []\<rparr>"] assms
  have "pinned_paths (drain_completed clock canon s) \<subseteq> pinned_paths s"
    by (simp add: drain_completed_def coord_inv_parts)
  with pinned_dispatch [of clock submit "drain_completed clock canon s"] show ?thesis
    by (simp add: sync_tick_def)
qed

section \<open>Operations that leave the copies alone\<close>

definition key_ok :: "source \<Rightarrow> bool" where
  "key_ok s \<longleftrightarrow> (im_key s \<noteq> None \<longrightarrow> im_key_owner s = configured_seller s \<and> configured_seller s \<noteq> [])
     \<and> (\<forall>a n. im_startup s = Some (a, n) \<longrightarrow> n \<le> im_sequence s \<and> ac_seller a \<noteq> [])"

text \<open>The numbers of the validations only grow, so one that was cancelled does not become current again.\<close>

definition later :: "source \<Rightarrow> source \<Rightarrow> bool" where
  "later s t \<longleftrightarrow> im_sequence s \<le> im_sequence t
     \<and> (\<forall>a n. im_startup t = Some (a, n) \<longrightarrow> im_startup s = Some (a, n) \<or> im_sequence s < n)"

lemma later_same [simp]: "im_sequence t = im_sequence s \<Longrightarrow> im_startup t = im_startup s \<Longrightarrow> later s t"
  by (simp add: later_def)

lemma later_none [simp]: "im_sequence s \<le> im_sequence t \<Longrightarrow> im_startup t = None \<Longrightarrow> later s t"
  by (simp add: later_def)

lemma later_trans: "later s t \<Longrightarrow> later t u \<Longrightarrow> later s u"
  unfolding later_def by fastforce

definition quiet :: "source \<Rightarrow> source \<Rightarrow> bool" where
  "quiet s t \<longleftrightarrow> im_files t = im_files s \<and> im_cached t = im_cached s \<and> im_conn t = im_conn s \<and> im_pins t = im_pins s
     \<and> im_fingerprint t = im_fingerprint s \<and> im_crc t = im_crc s \<and> im_wal_crc t = im_wal_crc s
     \<and> im_revision t = im_revision s \<and> im_frames t = im_frames s \<and> later s t
     \<and> configured_seller t = configured_seller s \<and> im_data_dir t = im_data_dir s \<and> (key_ok s \<longrightarrow> key_ok t)
     \<and> (sync_inv (im_coord s) \<longrightarrow> sync_inv (im_coord t)
          \<and> pinned_paths (im_coord t) \<subseteq> pinned_paths (im_coord s) \<union> set_option (im_cached s))"

lemma quiet_refl [simp]: "quiet s s"
  by (auto simp: quiet_def)

lemma quiet_trans [trans]: "quiet s t \<Longrightarrow> quiet t u \<Longrightarrow> quiet s u"
  unfolding quiet_def using later_trans [of s t u] by auto

lemma now_of_quiet [simp]: "quiet s (snd (now_of ev s))"
  by (auto simp: quiet_def now_of_def read_clock_def key_ok_def configured_seller_def coord_inv_parts)

lemma publish_quiet [simp]: "quiet s (publish_status s)"
  by (auto simp: quiet_def publish_status_def key_ok_def configured_seller_def)

lemma account_config [simp]: "g_config (snd (get_account_context bound fresh g)) = g_config g"
  by (auto simp: get_account_context_def Let_def split: option.split)

lemma account_seller: "ac_seller (fst (get_account_context None fresh g)) = py_strip (fst (g_config g))"
  by (auto simp: get_account_context_def Let_def split: option.split)

lemma current_context_fields:
  "snd (current_context ev s) = s\<lparr>im_gui := snd (get_account_context (ev_bound ev) (ev_epoch ev) (im_gui s))\<rparr>"
  by (simp add: current_context_def split: prod.split)

lemma context_quiet [simp]: "quiet s (snd (current_context ev s))"
  by (auto simp: quiet_def current_context_fields key_ok_def configured_seller_def)

lemma context_seller:
  "ev_bound ev = None \<Longrightarrow> ac_seller (fst (current_context ev s)) = configured_seller s"
  by (simp add: current_context_def configured_seller_def case_prod_beta account_seller)

lemma note_failure_quiet [simp]: "quiet s (note_source_failure ev d c s)"
  by (auto simp: quiet_def note_source_failure_def now_of_def read_clock_def key_ok_def configured_seller_def coord_inv_parts
      split: prod.split)

lemma refused_quiet [simp]: "quiet s (snd (refused ev d c s))"
  by (simp add: refused_def)

lemma cancel_validation_quiet [simp]: "quiet s (cancel_validation s)"
  by (auto simp: quiet_def cancel_validation_def key_ok_def configured_seller_def)

lemma tick_quiet [simp]: "quiet s (tick_coordinator ev s)"
  using sync_tick_inv [of "im_coord s" "ev_clock ev" "ev_submit ev" "ev_canon ev"]
    pinned_tick [of "im_coord s" "ev_clock ev" "ev_submit ev" "ev_canon ev"]
  by (auto simp: quiet_def tick_coordinator_def key_ok_def configured_seller_def)

lemma source_fresh_quiet [simp]: "quiet s (snd (source_fresh ev n now s))"
  by (auto simp: quiet_def source_fresh_def key_ok_def configured_seller_def)

lemma sync_to_crm_quiet [simp]: "quiet s (snd (sync_to_crm ev s))"
proof -
  obtain ctx s1 where c: "current_context ev s = (ctx, s1)" by (cases "current_context ev s")
  then have s1: "quiet s s1" by (metis context_quiet snd_conv)
  show ?thesis
  proof (cases "im_cached s1 = None \<or> ac_seller ctx = [] \<or> \<not> im_auto s1")
    case True
    then show ?thesis using c s1 by (auto simp: sync_to_crm_def split: option.split)
  next
    case False
    then obtain cached where cached: "im_cached s1 = Some cached" by auto
    obtain r k where r: "request_sync (ev_clock ev) (ev_submit ev) ctx cached (im_revision s1) (im_coord s1) = (r, k)"
      by (metis surj_pair)
    have k: "sync_inv (im_coord s1) \<Longrightarrow> sync_inv k" "pinned_paths k \<subseteq> insert cached (pinned_paths (im_coord s1))"
      using request_inv [of "im_coord s1" "ev_clock ev" "ev_submit ev" ctx cached "im_revision s1"]
        pinned_request [of "ev_clock ev" "ev_submit ev" ctx cached "im_revision s1" "im_coord s1"] r by auto
    have "quiet s1 (s1\<lparr>im_coord := k\<rparr>)"
      using k cached by (auto simp: quiet_def key_ok_def configured_seller_def)
    moreover have "quiet s1 (s1\<lparr>im_future := w, im_coord := sync_tick (ev_clock ev) (ev_submit ev) (ev_canon ev) k\<rparr>)" for w
      using k cached sync_tick_inv [of k] pinned_tick [of k "ev_clock ev" "ev_submit ev" "ev_canon ev"]
      by (auto simp: quiet_def key_ok_def configured_seller_def)
    ultimately show ?thesis
      using c r cached False s1 by (auto simp: sync_to_crm_def split: sum.split intro: quiet_trans)
  qed
qed

section \<open>The invariant\<close>

definition file_names :: "source \<Rightarrow> string set" where
  "file_names s = fst ` set (im_files s)"

definition used_paths :: "source \<Rightarrow> string set" where
  "used_paths s = pinned_paths (im_coord s) \<union> fst ` set (im_pins s) \<union> set_option (im_cached s)"

definition source_wf :: "source \<Rightarrow> bool" where
  "source_wf s \<longleftrightarrow> sync_inv (im_coord s) \<and> used_paths s \<subseteq> file_names s
     \<and> distinct (map fst (im_pins s)) \<and> (\<forall>pk \<in> set (im_pins s). 0 < snd pk)
     \<and> im_conn s = im_cached s
     \<and> (im_cached s \<noteq> None \<longrightarrow> im_fingerprint s \<noteq> None \<and> im_crc s \<noteq> None \<and> im_wal_crc s \<noteq> None)
     \<and> key_ok s"

lemma source_okD:
  assumes "source_wf s"
  shows "sync_inv (im_coord s)" "used_paths s \<subseteq> file_names s" "distinct (map fst (im_pins s))"
    "\<forall>pk \<in> set (im_pins s). 0 < snd pk" "im_conn s = im_cached s" "key_ok s"
  using assms by (simp_all add: source_wf_def)

text \<open>A copy, the main file and its log, is the same in both states.\<close>

definition same_copy :: "string \<Rightarrow> source \<Rightarrow> source \<Rightarrow> bool" where
  "same_copy p s t \<longleftrightarrow> (\<forall>q \<in> {p, wal_name p}. map_of (im_files t) q = map_of (im_files s) q)"

definition good :: "source \<Rightarrow> source \<Rightarrow> bool" where
  "good s t \<longleftrightarrow> source_wf t \<and> im_pins t = im_pins s \<and> im_revision s \<le> im_revision t \<and> later s t \<and> used_paths t \<inter> file_names s \<subseteq> used_paths s
     \<and> (\<forall>p \<in> used_paths s \<inter> used_paths t. same_copy p s t)"

lemma quietD:
  assumes "quiet s t" "source_wf s"
  shows "source_wf t" "im_pins t = im_pins s" "used_paths t \<subseteq> used_paths s" "im_files t = im_files s"
    "configured_seller t = configured_seller s" "im_revision t = im_revision s" "later s t"
  using assms by (auto simp: quiet_def source_wf_def used_paths_def file_names_def)

lemma quiet_good: "source_wf s \<Longrightarrow> quiet s t \<Longrightarrow> good s t"
  using quietD [of s t] by (auto simp: good_def same_copy_def)

lemma quiet_then_good:
  assumes "quiet s t" "source_wf s" "good t u"
  shows "good s u"
proof -
  note q = quietD [OF assms(1,2)]
  have files: "file_names t = file_names s"
    using q(4) by (simp add: file_names_def)
  have "p \<in> used_paths t" if "p \<in> used_paths s" "p \<in> used_paths u" for p
    using that assms(3) files source_okD(2) [OF assms(2)] by (auto simp: good_def)
  then show ?thesis
    using assms(3) q files later_trans [OF q(7)] by (auto simp: good_def same_copy_def)
qed

lemma good_then_quiet: "good s t \<Longrightarrow> quiet t u \<Longrightarrow> good s u"
  using quietD [of t u] later_trans [of s t u] by (auto simp: good_def same_copy_def)

section \<open>Files\<close>

lemma map_of_filter_key: "P q \<Longrightarrow> map_of (filter (\<lambda>f. P (fst f)) fs) q = map_of fs q"
  by (induction fs) auto

lemma unlink_other: "\<not> doomed q \<Longrightarrow> map_of (unlink_files locked doomed fs) q = map_of fs q"
  unfolding unlink_files_def by (rule map_of_filter_key) simp

lemma discard_other: "q \<notin> set (with_sidecars p) \<Longrightarrow> map_of (discard_build locked p fs) q = map_of fs q"
  unfolding discard_build_def by (rule unlink_other)

lemma write_pair_other: "q \<notin> set (with_sidecars p) \<Longrightarrow> map_of (write_pair p m w fs) q = map_of fs q"
  by (auto simp: write_pair_def with_sidecars_def split: option.split)

lemma write_pair_main: "map_of (write_pair p m w fs) p = Some m"
  by (auto simp: write_pair_def wal_name_def split: option.split)

lemma write_pair_wal: "map_of (write_pair p m (Some w) fs) (wal_name p) = Some w"
  by (simp add: write_pair_def)

lemma map_of_names: "map_of fs q = map_of gs q \<Longrightarrow> q \<in> fst ` set fs \<longleftrightarrow> q \<in> fst ` set gs"
  by (metis map_of_eq_None_iff)

text \<open>What a build may touch; and names that no earlier file has.\<close>

definition only_touches :: "string \<Rightarrow> cache_files \<Rightarrow> cache_files \<Rightarrow> bool" where
  "only_touches p fs gs \<longleftrightarrow> (\<forall>q. q \<notin> set (with_sidecars p) \<longrightarrow> map_of gs q = map_of fs q)"

definition fresh_name :: "environment \<Rightarrow> source \<Rightarrow> bool" where
  "fresh_name ev s \<longleftrightarrow> (\<forall>a. set (with_sidecars (cache_path_for a (ev_name ev))) \<inter> file_names s = {})"

lemma rebuild_touches:
  assumes "rebuild_cache ev n a key fs = (r, gs)"
  shows "only_touches (cache_path_for a (ev_name ev)) fs gs"
    "r = Inr b \<Longrightarrow> bd_path b = cache_path_for a (ev_name ev) \<and> bd_path b \<in> fst ` set gs"
proof -
  show "only_touches (cache_path_for a (ev_name ev)) fs gs"
    using assms
    by (auto simp: rebuild_cache_def Let_def only_touches_def discard_other write_pair_other split: sum.splits prod.splits)
  assume "r = Inr b"
  then have "bd_path b = cache_path_for a (ev_name ev) \<and> map_of gs (bd_path b) \<noteq> None"
    using assms by (auto simp: rebuild_cache_def Let_def write_pair_main split: sum.splits prod.splits)
  then show "bd_path b = cache_path_for a (ev_name ev) \<and> bd_path b \<in> fst ` set gs"
    by (metis map_of_eq_None_iff)
qed

lemma last_names: "last (cache_path_for a x) = CHR ''e''" "last (wal_name p) = CHR ''l''" "last (shm_name p) = CHR ''m''"
  by (simp_all add: cache_path_for_def wal_name_def shm_name_def)

lemma fresh_apart:
  assumes "set (with_sidecars (cache_path_for a x)) \<inter> names = {}" "q \<in> names"
  shows "q \<notin> set (with_sidecars (cache_path_for a x))" "wal_name q \<notin> set (with_sidecars (cache_path_for a x))"
proof -
  show 1: "q \<notin> set (with_sidecars (cache_path_for a x))"
    using assms by auto
  have "last (wal_name q) \<noteq> last (cache_path_for a x)" "last (wal_name q) \<noteq> last (shm_name (cache_path_for a x))"
    by (simp_all add: last_names)
  then have "wal_name q \<noteq> cache_path_for a x" "wal_name q \<noteq> shm_name (cache_path_for a x)"
    by auto
  moreover have "wal_name q \<noteq> wal_name (cache_path_for a x)"
    using 1 by (auto simp: wal_name_def with_sidecars_def)
  ultimately show "wal_name q \<notin> set (with_sidecars (cache_path_for a x))"
    by (simp add: with_sidecars_def)
qed

lemma touched_good:
  assumes "source_wf s" "fresh_name ev s" "only_touches (cache_path_for a (ev_name ev)) (im_files s) gs"
  shows "good s (s\<lparr>im_files := gs\<rparr>)"
proof -
  have apart: "q \<notin> set (with_sidecars (cache_path_for a (ev_name ev)))"
    "wal_name q \<notin> set (with_sidecars (cache_path_for a (ev_name ev)))" if "q \<in> file_names s" for q
    using fresh_apart [OF _ that] assms(2) by (auto simp: fresh_name_def)
  have same: "map_of gs q = map_of (im_files s) q" "map_of gs (wal_name q) = map_of (im_files s) (wal_name q)"
    if "q \<in> file_names s" for q
    using assms(3) apart [OF that] by (auto simp: only_touches_def)
  have "file_names s \<subseteq> fst ` set gs"
  proof
    fix q assume "q \<in> file_names s"
    then show "q \<in> fst ` set gs"
      using map_of_names [OF same(1)] by (simp add: file_names_def)
  qed
  moreover have "used_paths (s\<lparr>im_files := gs\<rparr>) = used_paths s" "key_ok (s\<lparr>im_files := gs\<rparr>) = key_ok s"
    "file_names (s\<lparr>im_files := gs\<rparr>) = fst ` set gs"
    by (simp_all add: used_paths_def key_ok_def configured_seller_def file_names_def)
  ultimately have "source_wf (s\<lparr>im_files := gs\<rparr>)"
    using assms(1) by (simp add: source_wf_def) (metis order_trans)
  moreover have "same_copy p s (s\<lparr>im_files := gs\<rparr>)" if "p \<in> used_paths s" for p
    using same [of p] that source_okD(2) [OF assms(1)] by (auto simp: same_copy_def)
  ultimately show ?thesis
    by (auto simp: good_def used_paths_def)
qed

section \<open>Refreshing\<close>

lemma adopt_fields:
  fixes ev b s
  defines "t \<equiv> adopt_build ev b s"
  shows "im_files t = im_files s" "im_cached t = Some (bd_path b)" "im_conn t = Some (bd_path b)"
    "im_pins t = im_pins s" "im_fingerprint t = Some (fst (bd_source b))" "im_crc t = Some (fst (snd (bd_source b)))"
    "im_wal_crc t = Some (snd (snd (bd_source b)))" "im_revision t = im_revision s + 1" "im_frames t = bd_frames b"
    "im_gui t = im_gui s" "im_data_dir t = im_data_dir s" "im_key t = im_key s" "im_key_owner t = im_key_owner s"
    "im_startup t = im_startup s" "im_sequence t = im_sequence s" "im_auto t = im_auto s" "im_error t = []"
    "im_observed t \<noteq> None" "\<not> im_dirty t"
    "sync_inv (im_coord t) = sync_inv (im_coord s)" "pinned_paths (im_coord t) = pinned_paths (im_coord s)"
  by (simp_all add: t_def adopt_build_def note_success_def now_of_def read_clock_def Let_def coord_inv_parts)

lemma adopt_good:
  assumes "source_wf s" "fresh_name ev s" "rebuild_cache ev n (configured_seller s) key (im_files s) = (Inr b, gs)"
  shows "good s (adopt_build ev b (s\<lparr>im_files := gs\<rparr>))"
proof -
  let ?u = "s\<lparr>im_files := gs\<rparr>" and ?t = "adopt_build ev b (s\<lparr>im_files := gs\<rparr>)"
  note built = rebuild_touches [OF assms(3)]
  have path: "bd_path b \<in> fst ` set gs" and name: "bd_path b = cache_path_for (configured_seller s) (ev_name ev)"
    using built(2) [OF refl] by blast+
  have apart: "bd_path b \<notin> file_names s"
    using assms(2) unfolding name fresh_name_def with_sidecars_def by auto
  note u = touched_good [OF assms(1,2) built(1)]
  note t = adopt_fields [of ev b ?u]
  have used: "used_paths ?t = insert (bd_path b) (pinned_paths (im_coord s) \<union> fst ` set (im_pins s))"
    using t by (simp add: used_paths_def)
  have names: "file_names ?t = fst ` set gs"
    using t by (simp add: file_names_def)
  have ok: "source_wf ?u" and pins: "im_pins ?u = im_pins s"
    using u by (simp_all add: good_def)
  have "used_paths ?t \<subseteq> file_names ?t"
    using source_okD(2) [OF ok] path used names by (auto simp: used_paths_def file_names_def)
  moreover have "key_ok ?t = key_ok ?u"
    using t by (simp add: key_ok_def configured_seller_def)
  ultimately have "source_wf ?t"
    using ok t by (simp add: source_wf_def)
  moreover have "used_paths ?t \<inter> file_names s \<subseteq> used_paths s"
    using used apart by (auto simp: used_paths_def)
  moreover have "same_copy p s ?t" if "p \<in> used_paths s" "p \<in> used_paths ?t" for p
  proof -
    have "p \<in> used_paths ?u"
      using that(1) by (simp add: used_paths_def)
    then have "same_copy p s ?u"
      using u that(1) by (auto simp: good_def)
    then show ?thesis
      using t by (simp add: same_copy_def)
  qed
  ultimately show ?thesis
    using t by (auto simp: good_def)
qed

lemma protected_used: "used_paths s \<subseteq> protected_names keep s"
  "p \<in> used_paths s \<Longrightarrow> wal_name p \<in> protected_names keep s"
  by (auto simp: used_paths_def protected_names_def with_sidecars_def split: option.splits)

lemma cleanup_good:
  assumes "source_wf s"
  shows "good s (cleanup_caches ev keep s)"
proof -
  let ?t = "cleanup_caches ev keep s"
  have same: "map_of (im_files ?t) q = map_of (im_files s) q" if "q \<in> protected_names keep s" for q
    using that by (simp add: cleanup_caches_def unlink_other)
  have used: "used_paths ?t = used_paths s" "key_ok ?t = key_ok s"
    by (simp_all add: cleanup_caches_def used_paths_def key_ok_def configured_seller_def)
  have "p \<in> file_names ?t" if "p \<in> used_paths s" for p
    using map_of_names [OF same] that protected_used(1) source_okD(2) [OF assms]
    by (fastforce simp: file_names_def)
  then have "source_wf ?t"
    using assms used by (auto simp: source_wf_def cleanup_caches_def)
  moreover have "same_copy p s ?t" if "p \<in> used_paths s" for p
    using same protected_used that by (auto simp: same_copy_def)
  ultimately show ?thesis
    using used by (auto simp: good_def cleanup_caches_def)
qed

lemma good_cleanup: "good s t \<Longrightarrow> good s (cleanup_caches ev keep t)"
proof -
  assume st: "good s t"
  then have "source_wf t" by (simp add: good_def)
  from cleanup_good [OF this] have "good t (cleanup_caches ev keep t)" .
  moreover have "used_paths (cleanup_caches ev keep t) = used_paths t"
    by (simp add: cleanup_caches_def used_paths_def)
  ultimately show ?thesis
    using st later_trans [of s t] by (auto simp: good_def same_copy_def)
qed

lemma fresh_name_quiet: "quiet s t \<Longrightarrow> fresh_name ev s \<Longrightarrow> fresh_name ev t"
  by (simp add: quiet_def fresh_name_def file_names_def)

lemma start_quiet [simp]: "quiet s (publish_status (s\<lparr>im_refresh_start := now\<rparr>))"
  by (auto simp: quiet_def publish_status_def key_ok_def configured_seller_def)

text \<open>What a refresh leaves: the same copy, or a new one; \<open>same_snapshot\<close> is the first.\<close>

definition same_snapshot :: "source \<Rightarrow> source \<Rightarrow> bool" where
  "same_snapshot s t \<longleftrightarrow> im_cached t = im_cached s \<and> im_conn t = im_conn s \<and> im_fingerprint t = im_fingerprint s
     \<and> im_crc t = im_crc s \<and> im_wal_crc t = im_wal_crc s \<and> im_revision t = im_revision s \<and> im_frames t = im_frames s"

lemma quiet_same_snapshot: "quiet s t \<Longrightarrow> same_snapshot s t"
  by (simp add: quiet_def same_snapshot_def)

lemma same_snapshot_trans: "same_snapshot s t \<Longrightarrow> same_snapshot t u \<Longrightarrow> same_snapshot s u"
  by (simp add: same_snapshot_def)

text \<open>A new one: what was built from the captured source, by a key that fits its header.\<close>

definition accepted ::
  "environment \<Rightarrow> nat \<Rightarrow> byte list \<Rightarrow> signature \<Rightarrow> byte list \<Rightarrow> byte list option \<Rightarrow> nat \<Rightarrow> bool" where
  "accepted ev n key captured plain out frames \<longleftrightarrow>
     verify_source_key ev n key = Inr True
   \<and> capture_source (ev_world ev) (n + 1) = Some captured \<and> capture_source (ev_world ev) (n + 11) = Some captured
   \<and> (\<exists>main wal. copy_source_pair (ev_world ev) (n + 8) = Some (main, wal)
        \<and> snd captured = (crc_of main, case wal of None \<Rightarrow> 0 | Some w \<Rightarrow> crc_of w)
        \<and> decrypt_db (ev_dec ev) key main = Some plain \<and> build_wal ev key plain wal = Inr (out, frames))
   \<and> ev_opens ev plain out"

definition serves :: "string \<Rightarrow> signature \<Rightarrow> byte list \<Rightarrow> byte list option \<Rightarrow> source \<Rightarrow> bool" where
  "serves p captured plain out t \<longleftrightarrow> im_cached t = Some p \<and> im_conn t = Some p
     \<and> map_of (im_files t) p = Some plain \<and> (\<forall>w. out = Some w \<longrightarrow> map_of (im_files t) (wal_name p) = Some w)
     \<and> im_fingerprint t = Some (fst captured) \<and> im_crc t = Some (fst (snd captured))
     \<and> im_wal_crc t = Some (snd (snd captured))"

definition new_snapshot :: "environment \<Rightarrow> nat \<Rightarrow> source \<Rightarrow> source \<Rightarrow> bool" where
  "new_snapshot ev n s t \<longleftrightarrow>
     (\<exists>key captured plain out frames. im_key s = Some key \<and> accepted ev n key captured plain out frames
        \<and> serves (cache_path_for (configured_seller s) (ev_name ev)) captured plain out t
        \<and> im_revision t = im_revision s + 1 \<and> im_frames t = frames)"

lemma serves_quiet: "serves p captured plain out t \<Longrightarrow> quiet t u \<Longrightarrow> serves p captured plain out u"
  by (simp add: serves_def quiet_def)

lemma serves_cleanup: "serves p captured plain out t \<Longrightarrow> serves p captured plain out (cleanup_caches ev p t)"
proof -
  assume t: "serves p captured plain out t"
  have "map_of (im_files (cleanup_caches ev p t)) q = map_of (im_files t) q" if "q \<in> {p, wal_name p}" for q
    using that by (auto simp: cleanup_caches_def unlink_other protected_names_def with_sidecars_def)
  then show ?thesis
    using t by (simp add: serves_def cleanup_caches_def)
qed

lemma new_then_quiet: "new_snapshot ev n s t \<Longrightarrow> quiet t u \<Longrightarrow> new_snapshot ev n s u"
proof -
  assume tu: "quiet t u"
  then have "im_revision u = im_revision t" "im_frames u = im_frames t"
    by (simp_all add: quiet_def)
  with serves_quiet [OF _ tu] show "new_snapshot ev n s t \<Longrightarrow> new_snapshot ev n s u"
    unfolding new_snapshot_def by metis
qed

lemma quiet_then_new:
  "quiet s t \<Longrightarrow> im_key t = im_key s \<Longrightarrow> new_snapshot ev n t u \<Longrightarrow> new_snapshot ev n s u"
  unfolding new_snapshot_def quiet_def by simp

lemma cleanup_new:
  assumes "new_snapshot ev n s t"
  shows "new_snapshot ev n s (cleanup_caches ev (cache_path_for (configured_seller s) (ev_name ev)) t)"
proof -
  have "im_revision (cleanup_caches ev p t) = im_revision t" "im_frames (cleanup_caches ev p t) = im_frames t" for p
    by (simp_all add: cleanup_caches_def)
  with assms serves_cleanup show ?thesis
    unfolding new_snapshot_def by metis
qed

lemma adopt_new:
  assumes "rebuild_cache ev (n + 1) (configured_seller s) key fs = (Inr b, gs)"
    "im_key s = Some key" "verify_source_key ev n key = Inr True" "configured_seller u = configured_seller s"
    "im_revision u = im_revision s"
  shows "new_snapshot ev n s (adopt_build ev b (u\<lparr>im_files := gs\<rparr>))"
proof -
  obtain captured main wal plain out where b:
    "stable_copy ev (n + 1) = Inr (captured, main, wal)" "plain_pair ev key main wal = Inr (plain, out, bd_frames b)"
    "bd_path b = cache_path_for (configured_seller s) (ev_name ev)" "bd_source b = captured"
    "gs = write_pair (bd_path b) plain out fs"
    using assms(1) by (auto simp: rebuild_cache_def Let_def split: sum.splits prod.splits)
  have "capture_source (ev_world ev) (n + 1) = Some captured"
    "copy_source_pair (ev_world ev) (n + 1 + 7) = Some (main, wal)"
    "capture_source (ev_world ev) (n + 1 + 10) = Some captured"
    "snd captured = (crc_of main, case wal of None \<Rightarrow> 0 | Some w \<Rightarrow> crc_of w)"
    using b(1) by (auto simp: stable_copy_def simp del: add_Suc_right One_nat_def
        split: option.splits prod.splits if_splits)
  moreover have "decrypt_db (ev_dec ev) key main = Some plain" "build_wal ev key plain wal = Inr (out, bd_frames b)"
    "ev_opens ev plain out"
    using b(2) by (auto simp: plain_pair_def split: option.splits sum.splits if_splits)
  moreover have "n + 1 + 7 = n + 8" "n + 1 + 10 = n + 11"
    by simp_all
  ultimately have "accepted ev n key captured plain out (bd_frames b)"
    using assms(3) unfolding accepted_def by metis
  moreover have "serves (bd_path b) captured plain out (adopt_build ev b (u\<lparr>im_files := gs\<rparr>))"
    using b(4,5) by (auto simp: serves_def adopt_fields write_pair_main write_pair_wal)
  moreover have "im_revision (adopt_build ev b (u\<lparr>im_files := gs\<rparr>)) = im_revision s + 1"
    "im_frames (adopt_build ev b (u\<lparr>im_files := gs\<rparr>)) = bd_frames b"
    using assms(5) by (simp_all add: adopt_fields)
  ultimately show ?thesis
    using assms(2) b(3) unfolding new_snapshot_def by metis
qed

text \<open>The outcome of each part of a refresh, with the invariant and what is kept.\<close>

definition refreshed :: "environment \<Rightarrow> nat \<Rightarrow> source \<Rightarrow> source \<Rightarrow> bool" where
  "refreshed ev n s t \<longleftrightarrow> good s t \<and> configured_seller t = configured_seller s \<and> im_data_dir t = im_data_dir s
     \<and> (same_snapshot s t \<or> new_snapshot ev n s t)"

lemma quiet_refreshed: "source_wf s \<Longrightarrow> quiet s t \<Longrightarrow> refreshed ev n s t"
  using quiet_good by (auto simp: refreshed_def quiet_same_snapshot quiet_def)

lemma quiet_then_refreshed:
  "quiet s t \<Longrightarrow> im_key t = im_key s \<Longrightarrow> source_wf s \<Longrightarrow> refreshed ev n t u \<Longrightarrow> refreshed ev n s u"
  using quiet_then_good quiet_then_new quiet_same_snapshot same_snapshot_trans
  unfolding refreshed_def by (metis quiet_def)

lemma refreshed_then_quiet: "refreshed ev n s t \<Longrightarrow> quiet t u \<Longrightarrow> refreshed ev n s u"
  using good_then_quiet new_then_quiet quiet_same_snapshot same_snapshot_trans
  unfolding refreshed_def by (metis quiet_def)

lemma touched_refreshed:
  assumes "source_wf s" "fresh_name ev s" "only_touches (cache_path_for a (ev_name ev)) (im_files s) gs"
  shows "refreshed ev n s (s\<lparr>im_files := gs\<rparr>)"
  using touched_good [OF assms] by (simp add: refreshed_def same_snapshot_def configured_seller_def)

lemma rebuild_source_refreshed:
  assumes ok: "source_wf s" and fresh: "fresh_name ev s" and key: "im_key s = Some key" "verify_source_key ev n key = Inr True"
  shows "refreshed ev n s (snd (rebuild_source ev (n + 1) now key s))"
proof -
  define s1 where "s1 = publish_status (s\<lparr>im_refresh_start := now\<rparr>)"
  have q: "quiet s s1" by (simp add: s1_def)
  have s1: "source_wf s1" "fresh_name ev s1" "im_key s1 = im_key s" "configured_seller s1 = configured_seller s"
    "im_files s1 = im_files s" "im_revision s1 = im_revision s"
    using quietD [OF q ok] fresh_name_quiet [OF q fresh] by (simp_all add: s1_def publish_status_def)
  obtain r gs where r: "rebuild_cache ev (n + 1) (configured_seller s) key (im_files s1) = (r, gs)"
    by (cases "rebuild_cache ev (n + 1) (configured_seller s) key (im_files s1)")
  note touched = touched_refreshed [OF s1(1,2) rebuild_touches(1) [OF r]]
  have "refreshed ev n s1 (snd (rebuild_source ev (n + 1) now key s))"
  proof (cases r)
    case (Inl dc)
    then show ?thesis
      using refreshed_then_quiet [OF touched refused_quiet] r
      by (auto simp: rebuild_source_def s1_def [symmetric] s1(4) split: prod.split)
  next
    case (Inr b)
    note built = rebuild_touches [OF r]
    show ?thesis
    proof (cases "ev_connects ev")
      case False
      have "only_touches (bd_path b) (im_files s1) (discard_build (ev_locked ev) (bd_path b) gs)"
        using built(1) built(2) [OF Inr] by (simp add: only_touches_def discard_other)
      then have "refreshed ev n s1 (s1\<lparr>im_files := discard_build (ev_locked ev) (bd_path b) gs\<rparr>)"
        using touched_refreshed [OF s1(1,2)] built(2) [OF Inr] by simp
      from refreshed_then_quiet [OF this refused_quiet] show ?thesis
        using r Inr False by (simp add: rebuild_source_def s1_def [symmetric] s1(4))
    next
      case True
      define s2 where "s2 = adopt_build ev b (s1\<lparr>im_files := gs\<rparr>)"
      have "good s1 s2"
        using adopt_good [OF s1(1,2)] r Inr s1(4) by (simp add: s2_def)
      moreover have new: "new_snapshot ev n s1 s2"
        using adopt_new [OF r [unfolded Inr], of s1] key s1 by (simp add: s2_def new_snapshot_def)
      moreover have "configured_seller s2 = configured_seller s1" "im_data_dir s2 = im_data_dir s1"
        by (simp_all add: s2_def adopt_fields configured_seller_def)
      ultimately have s2: "refreshed ev n s1 s2"
        by (simp add: refreshed_def)
      obtain w s3 where w: "sync_to_crm ev s2 = (w, s3)" by (cases "sync_to_crm ev s2")
      then have q3: "quiet s2 s3" by (metis snd_conv sync_to_crm_quiet)
      note s3 = refreshed_then_quiet [OF s2 q3] and new3 = new_then_quiet [OF new q3]
      have path: "bd_path b = cache_path_for (configured_seller s1) (ev_name ev)"
        using built(2) [OF Inr] s1(4) by simp
      have "refreshed ev n s1 (cleanup_caches ev (bd_path b) s3)"
        using s3 cleanup_new [OF new3] good_cleanup [of s1 s3 ev "bd_path b"]
        by (simp add: refreshed_def path) (simp add: cleanup_caches_def configured_seller_def)
      then show ?thesis
        using r Inr True w s3 by (auto simp: rebuild_source_def s1_def [symmetric] s1(4) s2_def [symmetric] split: sum.split)
    qed
  qed
  then show ?thesis
    using quiet_then_refreshed [OF q s1(3) ok] by simp
qed

lemma validation_off_quiet: "quiet s (s\<lparr>im_validation := v, im_auto := a\<rparr>)"
  by (auto simp: quiet_def key_ok_def configured_seller_def)

lemma refresh_stale_refreshed:
  assumes "source_wf s" "fresh_name ev s"
  shows "refreshed ev n s (snd (refresh_stale ev n now s))"
proof (cases "held s \<and> now - im_refresh_start s < min_refresh_interval")
  case True
  then show ?thesis using quiet_refreshed [OF assms(1)] by (simp add: refresh_stale_def)
next
  case False
  show ?thesis
  proof (cases "\<exists>key. im_key s = Some key \<and> verify_source_key ev n key = Inr True")
    case True
    then show ?thesis
      using rebuild_source_refreshed [OF assms] False by (auto simp: refresh_stale_def)
  next
    case no: False
    have "quiet s (snd (refused ev d c (s\<lparr>im_validation := v, im_auto := a\<rparr>)))" for d c v a
      using quiet_trans [OF validation_off_quiet refused_quiet] .
    then show ?thesis
      using False no quiet_refreshed [OF assms(1)]
      by (auto simp: refresh_stale_def split: option.splits sum.splits bool.splits)
  qed
qed

lemma refresh_locked_refreshed:
  assumes ok: "source_wf s" and fresh: "fresh_name ev s"
  shows "refreshed ev (n + 5) s (snd (refresh_locked ev n s))"
proof -
  obtain now s1 where now: "now_of ev s = (now, s1)" by (cases "now_of ev s")
  define s2 where "s2 = s1\<lparr>im_checked := Some now\<rparr>"
  have "quiet s s1" using now by (metis now_of_quiet snd_conv)
  moreover have "quiet s1 s2" by (auto simp: s2_def quiet_def key_ok_def configured_seller_def)
  ultimately have q2: "quiet s s2" by (rule quiet_trans)
  obtain f s3 where f: "source_fresh ev n now s2 = (f, s3)" by (cases "source_fresh ev n now s2")
  have q3: "quiet s s3" using quiet_trans [OF q2] f by (metis snd_conv source_fresh_quiet)
  have key: "im_key s3 = im_key s"
    using now f by (auto simp: now_of_def source_fresh_def s2_def split: if_splits prod.splits)
  define s4 where "s4 = s3\<lparr>im_dirty := True\<rparr>"
  have "quiet s3 s4" by (simp add: s4_def quiet_def key_ok_def configured_seller_def)
  with q3 have q4: "quiet s s4" by (rule quiet_trans)
  have k4: "im_key s4 = im_key s" using key by (simp add: s4_def)
  have "refreshed ev (n + 5) s4 (snd (refresh_stale ev (n + 5) now s4))"
    by (rule refresh_stale_refreshed [OF quietD(1) [OF q4 ok] fresh_name_quiet [OF q4 fresh]])
  then have stale: "refreshed ev (n + 5) s (snd (refresh_stale ev (n + 5) now s4))"
    by (rule quiet_then_refreshed [OF q4 k4 ok])
  have refused: "refreshed ev (n + 5) s (snd (refused ev d c s2))" for d c
    using quiet_refreshed [OF ok quiet_trans [OF q2 refused_quiet]] .
  have fresh_end: "refreshed ev (n + 5) s (u\<lparr>im_observed := o', im_error := [], im_code := [], im_backoff := 0,
      im_failures := 0, im_dirty := False\<rparr>)" if "now_of ev s3 = (t, u)" for t u o'
  proof -
    have "quiet s u" using quiet_trans [OF q3] that by (metis now_of_quiet snd_conv)
    moreover have "quiet u (u\<lparr>im_observed := o', im_error := [], im_code := [], im_backoff := 0,
        im_failures := 0, im_dirty := False\<rparr>)"
      by (auto simp: quiet_def key_ok_def configured_seller_def)
    ultimately show ?thesis using quiet_refreshed [OF ok] quiet_trans by blast
  qed
  have "quiet s s1" by fact
  then have "refreshed ev (n + 5) s s1" by (rule quiet_refreshed [OF ok])
  moreover have "refresh_locked ev n s =
     (if \<not> im_auto s then (Inr (held s), s)
      else if now < im_backoff s1 then (Inr (held s1), s1)
      else if \<not> source_located ev (configured_seller s2) s2
      then refused ev ''IM source database is missing or not configured'' ''source_missing'' s2
      else if im_frames s2 \<noteq> 0 \<and> \<not> ev_pipeline ev then refused ev ''WAL pipeline is disabled'' ''wal_disabled'' s2
      else if f then (case now_of ev s3 of (t, u) \<Rightarrow> (Inr True, u\<lparr>im_observed := Some t, im_error := [], im_code := [],
          im_backoff := 0, im_failures := 0, im_dirty := False\<rparr>))
      else refresh_stale ev (n + 5) now s4)"
    using now f by (simp add: refresh_locked_def s2_def [symmetric] s4_def [symmetric] Let_def)
  moreover note quiet_refreshed [OF ok quiet_refl] refused stale
  moreover have "refreshed ev (n + 5) s (snd (case now_of ev s3 of (t, u) \<Rightarrow> (Inr True, u\<lparr>im_observed := Some t,
      im_error := [], im_code := [], im_backoff := 0, im_failures := 0, im_dirty := False\<rparr>)))"
    using fresh_end by (cases "now_of ev s3") simp
  ultimately show ?thesis
    by (simp only: snd_conv split: if_split) blast
qed

lemma refresh_refreshed:
  assumes "source_wf s" "fresh_name ev s"
  shows "refreshed ev (n + 5) s (snd (refresh ev n s))"
  using refreshed_then_quiet [OF refresh_locked_refreshed [OF assms] publish_quiet]
  by (simp add: refresh_def case_prod_beta)

section \<open>Keys, validation and retry\<close>

lemma use_key_quiet:
  "ali_id = configured_seller s \<Longrightarrow> ali_id \<noteq> [] \<Longrightarrow> quiet s (use_key ali_id key src s)"
  by (simp add: quiet_def use_key_def key_ok_def configured_seller_def)

lemma new_key_quiet:
  "ali_id = configured_seller s \<Longrightarrow> ali_id \<noteq> [] \<Longrightarrow> quiet s (use_key ali_id key src (s\<lparr>im_keys := t\<rparr>))"
  by (simp add: quiet_def use_key_def key_ok_def configured_seller_def)

lemma key_fields_quiet [simp]:
  "quiet s (s\<lparr>im_validation := v\<rparr>)" "quiet s (s\<lparr>im_keys := t\<rparr>)" "quiet s (forget_key s)"
  "quiet s (s\<lparr>im_auto := a\<rparr>)" "quiet s (s\<lparr>im_auto := a, im_cache_time := c\<rparr>)"
  by (simp_all add: quiet_def forget_key_def key_ok_def configured_seller_def)

lemma quiet_seller: "quiet s t \<Longrightarrow> configured_seller t = configured_seller s"
  by (simp add: quiet_def)

lemma capture_live_quiet:
  assumes "ali_id = configured_seller s" "ali_id \<noteq> []"
  shows "quiet s (snd (capture_live_key ev n ali_id s))"
  using new_key_quiet [OF assms] by (simp add: capture_live_key_def split: option.split sum.split bool.split)

lemma other_keys_quiet:
  assumes "ali_id = configured_seller s" "ali_id \<noteq> []"
  shows "quiet s (snd (other_keys ev n ali_id s))"
  using new_key_quiet [OF assms] capture_live_quiet [OF assms]
  by (simp add: other_keys_def Let_def split: option.split sum.split)

lemma stored_key_quiet:
  assumes "ali_id = configured_seller s" "ali_id \<noteq> []"
  shows "quiet s (snd (stored_key ev n ali_id s))"
proof -
  have "configured_seller (s\<lparr>im_validation := v\<rparr>) = configured_seller s" for v
    by (simp add: configured_seller_def)
  then have "quiet s (snd (other_keys ev m ali_id (s\<lparr>im_validation := v\<rparr>)))"
    "quiet s (use_key ali_id key src (s\<lparr>im_validation := v\<rparr>))" for m v key src
    using quiet_trans [OF key_fields_quiet(1) other_keys_quiet] quiet_trans [OF key_fields_quiet(1) use_key_quiet] assms
    by metis+
  then show ?thesis
    by (simp add: stored_key_def Let_def split: option.split sum.split bool.split)
qed

lemma ensure_key_quiet:
  assumes "ali_id = configured_seller s" "ali_id \<noteq> []"
  shows "quiet s (snd (ensure_key ev n ali_id s))"
proof -
  have "configured_seller (forget_key s) = configured_seller s"
    by (simp add: forget_key_def configured_seller_def)
  then have "quiet s (snd (stored_key ev m ali_id (forget_key s)))" for m
    using quiet_trans [OF key_fields_quiet(3) stored_key_quiet] assms by metis
  then show ?thesis
    by (simp add: ensure_key_def split: option.split sum.split bool.split)
qed

lemma good_refl: "source_wf s \<Longrightarrow> good s s"
  by (simp add: good_def same_copy_def)

lemma refresh_good: "source_wf s \<Longrightarrow> fresh_name ev s \<Longrightarrow> good s (snd (refresh ev n s))"
  using refresh_refreshed [of s ev n] by (simp add: refreshed_def)

lemma then_refresh: "source_wf s \<Longrightarrow> fresh_name ev s \<Longrightarrow> quiet s t \<Longrightarrow> good s (snd (refresh ev n t))"
  using quiet_then_good refresh_good quietD(1) fresh_name_quiet by metis

lemma retry_refresh_good:
  assumes "source_wf s" "fresh_name ev s"
  shows "good s (snd (retry_refresh ev n s))"
proof -
  obtain r s1 where r: "refresh ev n (s\<lparr>im_auto := True, im_cache_time := 0\<rparr>) = (r, s1)" by force
  then have s1: "good s s1"
    using then_refresh [OF assms key_fields_quiet(5)] by (metis snd_conv)
  have "good s (snd (sync_to_crm ev s1))"
    using good_then_quiet [OF s1] by simp
  then show ?thesis
    using r s1 by (auto simp: retry_refresh_def split: sum.split prod.split)
qed

lemma retry_source_good:
  assumes "source_wf s" "fresh_name ev s"
  shows "good s (snd (retry_source ev s))"
proof (cases "source_located ev (configured_seller s) s")
  case False
  then show ?thesis using quiet_good [OF assms(1)] by (simp add: retry_source_def)
next
  case True
  then have "configured_seller s \<noteq> []" by (auto simp: source_located_def split: option.splits)
  obtain r s1 where r: "ensure_key ev 0 (configured_seller s) s = (r, s1)" by force
  then have s1: "quiet s s1"
    using ensure_key_quiet [OF refl, of s ev 0] \<open>configured_seller s \<noteq> []\<close> by (metis snd_conv)
  have "good s (note_source_failure ev d c (s1\<lparr>im_auto := False\<rparr>))" for d c
    using quiet_good [OF assms(1)] quiet_trans [OF s1 quiet_trans [OF key_fields_quiet(4) note_failure_quiet]] by blast
  moreover have "good s (snd (retry_refresh ev m s1))" for m
    using quiet_then_good [OF s1 assms(1)] retry_refresh_good quietD(1) [OF s1 assms(1)] fresh_name_quiet [OF s1 assms(2)]
    by metis
  ultimately show ?thesis
    using True r quiet_good [OF assms(1) s1] by (simp add: retry_source_def split: sum.split bool.split)
qed

lemma reset_retry_quiet [simp]: "quiet s (reset_retry s)"
  by (auto simp: quiet_def reset_retry_def cancel_validation_def key_ok_def configured_seller_def)

lemma checked_quiet [simp]: "quiet s (s\<lparr>im_checked := c\<rparr>)"
  by (simp add: quiet_def key_ok_def configured_seller_def)

lemma retry_connection_good:
  assumes "source_wf s" "fresh_name ev s"
  shows "good s (snd (retry_connection ev s))"
proof -
  obtain now s1 where now: "now_of ev (reset_retry s) = (now, s1)" by force
  define s2 where "s2 = s1\<lparr>im_checked := Some now\<rparr>"
  have "quiet s s1" using quiet_trans [OF reset_retry_quiet] now by (metis now_of_quiet snd_conv)
  then have q: "quiet s s2" unfolding s2_def by (rule quiet_trans) simp
  obtain r s3 where r: "retry_source ev s2 = (r, s3)" by force
  have s3: "good s s3"
    using quiet_then_good [OF q assms(1)] retry_source_good [OF quietD(1) [OF q assms(1)] fresh_name_quiet [OF q assms(2)]] r
    by (metis snd_conv)
  have "good s (publish_status (note_source_failure ev d c s3))" "good s (publish_status s3)" for d c
    using good_then_quiet [OF s3] quiet_trans [OF note_failure_quiet publish_quiet] by simp_all
  then show ?thesis
    using now r s3 by (auto simp: retry_connection_def s2_def [symmetric] Let_def split: sum.split py_error.split)
qed

lemma apply_verdict_quiet:
  assumes "ac_seller ctx = configured_seller s" "ac_seller ctx \<noteq> []"
  shows "quiet s (apply_verdict ev ctx v s)"
proof -
  let ?u = "s\<lparr>im_running := False, im_validation := vd_state v\<rparr>"
  have u: "quiet s ?u" "configured_seller ?u = configured_seller s"
    by (simp_all add: quiet_def key_ok_def configured_seller_def)
  define w where "w = ?u\<lparr>im_startup := None, im_backoff := 0, im_failures := 0, im_error := vd_detail v, im_code := vd_code v\<rparr>"
  have "quiet ?u w"
    by (simp add: w_def quiet_def key_ok_def configured_seller_def)
  with u(1) have w: "quiet s w" "configured_seller w = configured_seller s"
    using quiet_trans quiet_seller by blast+
  have "quiet w (w\<lparr>im_key := k, im_key_source := src, im_key_owner := ac_seller ctx, im_auto := True\<rparr>)" for k src
    using assms w(2) by (simp add: quiet_def key_ok_def configured_seller_def)
  with w(1) have "quiet s (w\<lparr>im_key := k, im_key_source := src, im_key_owner := ac_seller ctx, im_auto := True\<rparr>)" for k src
    using quiet_trans by blast
  moreover have "quiet s (note_source_failure ev d c ?u)" for d c
    using u(1) by (rule quiet_trans) simp
  ultimately show ?thesis
    using w(1) unfolding apply_verdict_def Let_def w_def [symmetric] by (simp only: if_split [of "quiet s"]) blast
qed

lemma finish_validation_good:
  assumes ok: "source_wf s" and fresh: "fresh_name ev s" and bound: "ev_bound ev = None"
  shows "good s (snd (finish_validation ev stopped task v s))"
proof (cases "stopped \<or> Some task \<noteq> im_startup s \<or> snd task \<noteq> im_sequence s")
  case True
  then show ?thesis using good_refl [OF ok] by (simp add: finish_validation_def)
next
  case False
  obtain ctx s1 where c: "current_context ev s = (ctx, s1)" by force
  have q1: "quiet s s1" using c by (metis context_quiet snd_conv)
  show ?thesis
  proof (cases "fst task = ctx")
    case False
    then show ?thesis using c quiet_good [OF ok q1] good_refl [OF ok] by (simp add: finish_validation_def)
  next
    case True
    have "im_startup s = Some (ctx, snd task)"
      using False True by (cases task) auto
    then have "ac_seller ctx \<noteq> []"
      using source_okD(6) [OF ok] by (simp add: key_ok_def)
    moreover have "ac_seller ctx = configured_seller s1"
      using context_seller [OF bound, of s] c quiet_seller [OF q1] by simp
    ultimately have "quiet s1 (publish_status (apply_verdict ev ctx v s1))"
      using quiet_trans [OF apply_verdict_quiet publish_quiet] by blast
    with q1 have q2: "quiet s (publish_status (apply_verdict ev ctx v s1))" by (rule quiet_trans)
    show ?thesis
      using False True c then_refresh [OF ok fresh q2, of 0] quiet_good [OF ok q2]
      by (simp add: finish_validation_def Let_def)
  qed
qed

end
