(* ===== verification/Source_Cache_Runs.thy ===== *)
theory Source_Cache_Runs
  imports Source_Cache_Props
begin

text \<open>
  Runs of the cache: one step is one operation under the locks, a reader's entry or exit, or what the executor and the
  holders of waiters do to the scheduler. A cache file gets a name that no file has (\<open>fresh_name\<close>, the identifiers
  are random), and the operations run in threads that are not bound to an account, except a reader's entry.
\<close>

section \<open>Selection, ticks and pins\<close>

lemma select_account_keeps:
  "sync_inv c \<Longrightarrow> sync_inv (select_account ctx r c)"
  "sync_inv c \<Longrightarrow> pinned_paths (select_account ctx r c) \<subseteq> pinned_paths c"
  using select_account_inv pinned_select by blast+

text \<open>After a reset no copy is served and no key is held, but the files in use stay.\<close>

definition cleared :: "source \<Rightarrow> source \<Rightarrow> bool" where
  "cleared s t \<longleftrightarrow> im_files t = im_files s \<and> im_pins t = im_pins s \<and> im_cached t = None \<and> im_conn t = None
     \<and> im_key t = None \<and> im_startup t = None \<and> im_revision s \<le> im_revision t \<and> im_sequence s \<le> im_sequence t
     \<and> (sync_inv (im_coord s) \<longrightarrow> sync_inv (im_coord t) \<and> pinned_paths (im_coord t) \<subseteq> pinned_paths (im_coord s))"

lemma reset_cleared: "cleared s (reset_runtime s)"
  by (simp add: cleared_def reset_runtime_def publish_status_def cancel_validation_def)

lemma select_fields:
  fixes ev s
  defines "t \<equiv> select_context ev s"
  shows "im_files t = im_files s" "im_pins t = im_pins s" "im_cached t = im_cached s" "im_conn t = im_conn s"
    "im_key t = im_key s" "im_startup t = im_startup s" "im_revision s \<le> im_revision t" "im_sequence t = im_sequence s"
    "sync_inv (im_coord s) \<Longrightarrow> sync_inv (im_coord t) \<and> pinned_paths (im_coord t) \<subseteq> pinned_paths (im_coord s)"
proof -
  show "im_files t = im_files s" "im_pins t = im_pins s" "im_cached t = im_cached s" "im_conn t = im_conn s"
    "im_key t = im_key s" "im_startup t = im_startup s" "im_revision s \<le> im_revision t" "im_sequence t = im_sequence s"
    by (simp_all add: t_def select_context_def publish_status_def Let_def case_prod_beta current_context_fields
        split: sum.split option.split)
  define ctx where "ctx = fst (current_context ev s)"
  have "im_coord t = select_account ctx None (im_coord s)
      \<or> (\<exists>r. im_coord t = select_account ctx (Some r) (select_account ctx None (im_coord s)))"
    by (auto simp: t_def select_context_def publish_status_def Let_def case_prod_beta current_context_fields ctx_def
        split: sum.split option.split)
  moreover assume "sync_inv (im_coord s)"
  note first = select_account_keeps [OF this, of ctx None]
  note second = select_account_keeps [OF first(1), of ctx]
  note order_trans [OF second(2) first(2)]
  ultimately show "sync_inv (im_coord t) \<and> pinned_paths (im_coord t) \<subseteq> pinned_paths (im_coord s)"
    using first second by (elim disjE exE) simp_all
qed

lemma select_cleared: "cleared s t \<Longrightarrow> cleared s (select_context ev t)"
  using select_fields [where ev = ev and s = t] unfolding cleared_def by auto

lemma new_selection_cleared: "cleared s (new_selection ev s)"
proof -
  have "cleared s ((reset_runtime s)\<lparr>im_gui := g\<rparr>)" for g
    using reset_cleared [of s] by (simp add: cleared_def)
  then show ?thesis
    unfolding new_selection_def Let_def by (rule select_cleared)
qed

lemma cleared_good:
  assumes "source_wf s" "cleared s t"
  shows "good s t"
proof -
  have "used_paths t \<subseteq> used_paths s" "file_names t = file_names s"
    using assms by (auto simp: cleared_def used_paths_def source_wf_def file_names_def)
  then show ?thesis
    using assms by (auto simp: good_def source_wf_def cleared_def key_ok_def same_copy_def)
qed

lemma set_data_dir_good: "source_wf s \<Longrightarrow> good s (snd (set_data_dir ev free raw s))"
proof -
  assume ok: "source_wf s"
  have "cleared s (new_selection ev (s\<lparr>im_gui := g, im_data_dir := d\<rparr>))" for g d
    using new_selection_cleared [of "s\<lparr>im_gui := g, im_data_dir := d\<rparr>" ev] by (simp add: cleared_def)
  then show ?thesis
    using good_refl [OF ok] cleared_good [OF ok] by (simp add: set_data_dir_def Let_def)
qed

lemma set_self_ali_id_good: "source_wf s \<Longrightarrow> good s (snd (set_self_ali_id ev free raw s))"
proof -
  assume ok: "source_wf s"
  have "cleared s (new_selection ev (s\<lparr>im_gui := g\<rparr>))" for g
    using new_selection_cleared [of "s\<lparr>im_gui := g\<rparr>" ev] by (simp add: cleared_def)
  then show ?thesis
    using good_refl [OF ok] cleared_good [OF ok] by (simp add: set_self_ali_id_def Let_def)
qed

lemma prepare_quiet:
  assumes "ev_bound ev = None"
  shows "quiet s (prepare_validation ev s)"
proof -
  obtain ctx s1 where c: "current_context ev s = (ctx, s1)" by force
  then have s1: "quiet s s1" by (metis context_quiet snd_conv)
  have "quiet s1 (publish_status (s1\<lparr>im_sequence := im_sequence s1 + 1, im_startup := Some (ctx, im_sequence s1 + 1),
      im_validation := K_Verifying\<rparr>))" if "ac_seller ctx \<noteq> []"
    using that by (simp add: quiet_def publish_status_def key_ok_def configured_seller_def later_def)
  then show ?thesis
    using c s1 by (auto simp: prepare_validation_def intro: quiet_trans)
qed

lemma start_validation_quiet [simp]: "quiet s (start_validation ev s)"
  by (auto simp: quiet_def start_validation_def publish_status_def now_of_def read_clock_def key_ok_def
      configured_seller_def coord_inv_parts)

lemma source_tick_good:
  assumes "source_wf s" "fresh_name ev s"
  shows "good s (snd (source_tick ev stopped free s))"
proof -
  define s1 where "s1 = tick_coordinator ev s"
  have q1: "quiet s s1" by (simp add: s1_def)
  obtain now s2 where now: "now_of ev s1 = (now, s2)" by force
  have q2: "quiet s s2" using quiet_trans [OF q1] now by (metis now_of_quiet snd_conv)
  obtain r u where r: "refresh ev 0 s1 = (r, u)" by force
  obtain r' u' where r': "refresh ev 0 s2 = (r', u')" by force
  have "good s u" "good s u'"
    using then_refresh [OF assms q1, of 0] then_refresh [OF assms q2, of 0] r r' by simp_all
  moreover have "good s (start_validation ev s2)"
    using quiet_good [OF assms(1) quiet_trans [OF q2 start_validation_quiet]] .
  moreover note quiet_good [OF assms(1) q1] quiet_good [OF assms(1) q2] good_refl [OF assms(1)]
  ultimately show ?thesis
    using now r r' by (simp add: source_tick_def s1_def [symmetric] Let_def)
qed

section \<open>Steps\<close>

inductive source_step :: "source \<Rightarrow> source \<Rightarrow> bool" where
  st_data_dir: "ev_bound ev = None \<Longrightarrow> source_step s (snd (set_data_dir ev free raw s))"
| st_seller: "ev_bound ev = None \<Longrightarrow> source_step s (snd (set_self_ali_id ev free raw s))"
| st_drop: "ev_bound ev = None \<Longrightarrow> source_step s (drop_cached_key ev s)"
| st_prepare: "ev_bound ev = None \<Longrightarrow> source_step s (prepare_validation ev s)"
| st_verdict: "ev_bound ev = None \<Longrightarrow> fresh_name ev s \<Longrightarrow> source_step s (snd (finish_validation ev stopped task v s))"
| st_tick: "ev_bound ev = None \<Longrightarrow> fresh_name ev s \<Longrightarrow> source_step s (snd (source_tick ev stopped free s))"
| st_connection: "ev_bound ev = None \<Longrightarrow> fresh_name ev s \<Longrightarrow> source_step s (snd (get_connection ev s))"
| st_retry: "ev_bound ev = None \<Longrightarrow> fresh_name ev s \<Longrightarrow> source_step s (snd (retry_connection ev s))"
| st_sync: "ev_bound ev = None \<Longrightarrow> source_step s (snd (sync_to_crm ev s))"
| st_pin: "source_step s (snd (pin_source ev ctx s))"
| st_unpin: "path \<in> fst ` set (im_pins s) \<Longrightarrow> source_step s (unpin_source path s)"
| st_complete: "(e, t) \<in> set (co_active (im_coord s)) \<Longrightarrow>
     source_step s (s\<lparr>im_coord := complete_target t out (im_coord s)\<rparr>)"
| st_cancel: "source_step s (s\<lparr>im_coord := (im_coord s)\<lparr>co_waiters := settle_waiters W_Cancelled [w] (co_waiters (im_coord s))\<rparr>\<rparr>)"

text \<open>Entries and exits change the pins; the copies they protect are in place.\<close>

lemma pin_cases:
  assumes "pin_source ev ctx s = (r, t)"
  obtains "quiet s t" "\<exists>e. r = Inl e"
  | s1 pn cached where "quiet s s1" "im_cached s1 = Some cached" "r = Inr pn" "pn_path pn = cached"
      "t = s1\<lparr>im_pins := alist_put cached ((case map_of (im_pins s1) cached of None \<Rightarrow> 0 | Some k \<Rightarrow> k) + 1) (im_pins s1)\<rparr>"
proof -
  obtain now s1 where c: "current_context ev s = (now, s1)" by force
  then have "quiet s s1" by (metis context_quiet snd_conv)
  then show ?thesis
    using assms c that
    by (auto simp: pin_source_def split: if_splits option.splits)
qed

lemma alist_put_positive:
  "\<forall>pk \<in> set d. 0 < snd pk \<Longrightarrow> 0 < (k :: nat) \<Longrightarrow> \<forall>pk \<in> set (alist_put p k d). 0 < snd pk"
proof -
  have "set (alist_put p k d) \<subseteq> insert (p, k) (set d)"
    by (induction d) (auto split: if_splits)
  then show "\<forall>pk \<in> set d. 0 < snd pk \<Longrightarrow> 0 < k \<Longrightarrow> \<forall>pk \<in> set (alist_put p k d). 0 < snd pk"
    by auto
qed

lemma pin_step:
  assumes "source_wf s"
  shows "source_wf (snd (pin_source ev ctx s))" "im_files (snd (pin_source ev ctx s)) = im_files s"
proof -
  obtain r t where p: "pin_source ev ctx s = (r, t)" by force
  from p have "source_wf t \<and> im_files t = im_files s"
  proof (cases rule: pin_cases)
    case 1
    then show ?thesis using quietD [OF 1(1) assms] by simp
  next
    case (2 s1 pn cached)
    have s1: "source_wf s1" "im_files s1 = im_files s"
      using quietD [OF 2(1) assms] by simp_all
    have "used_paths t = used_paths s1"
      using 2(2,5) by (auto simp: used_paths_def keys_alist_put)
    moreover have "\<forall>pk \<in> set (im_pins t). 0 < snd pk"
      using alist_put_positive [OF source_okD(4) [OF s1(1)] zero_less_Suc] 2(5) by simp
    moreover have "distinct (map fst (im_pins t))"
      using source_okD(3) [OF s1(1)] 2(5) by simp
    moreover have "file_names t = file_names s1" "key_ok t = key_ok s1"
      using 2(5) by (simp_all add: file_names_def key_ok_def configured_seller_def)
    ultimately show ?thesis
      using s1 2(5) by (simp add: source_wf_def)
  qed
  then show "source_wf (snd (pin_source ev ctx s))" "im_files (snd (pin_source ev ctx s)) = im_files s"
    using p by simp_all
qed

lemma unpin_step:
  assumes "source_wf s"
  shows "source_wf (unpin_source path s)" "im_files (unpin_source path s) = im_files s"
proof -
  show "im_files (unpin_source path s) = im_files s"
    by (simp add: unpin_source_def split: option.split)
  have same: "im_coord (unpin_source path s) = im_coord s" "im_cached (unpin_source path s) = im_cached s"
    "im_conn (unpin_source path s) = im_conn s" "im_fingerprint (unpin_source path s) = im_fingerprint s"
    "im_crc (unpin_source path s) = im_crc s" "im_wal_crc (unpin_source path s) = im_wal_crc s"
    by (simp_all add: unpin_source_def split: option.split)
  have "fst ` set (im_pins (unpin_source path s)) \<subseteq> fst ` set (im_pins s)"
  proof (cases "map_of (im_pins s) path")
    case (Some k)
    then have "path \<in> fst ` set (im_pins s)"
      by (metis map_of_eq_None_iff option.distinct(1))
    then show ?thesis using Some by (simp add: unpin_source_def keys_alist_put keys_alist_del)
  qed (simp add: unpin_source_def)
  then have "used_paths (unpin_source path s) \<subseteq> used_paths s"
    using same by (auto simp: used_paths_def)
  moreover have "\<forall>pk \<in> set (im_pins (unpin_source path s)). 0 < snd pk"
  proof (cases "map_of (im_pins s) path")
    case (Some k)
    have "\<forall>pk \<in> set (alist_put path (k - 1) (im_pins s)). 0 < snd pk" if "k - 1 \<noteq> 0"
      using alist_put_positive [OF source_okD(4) [OF assms]] that by blast
    then show ?thesis
      using Some source_okD(4) [OF assms] by (simp add: unpin_source_def alist_del_def)
  qed (use source_okD(4) [OF assms] in \<open>simp add: unpin_source_def\<close>)
  moreover have "distinct (map fst (im_pins (unpin_source path s)))"
    using source_okD(3) [OF assms] by (simp add: unpin_source_def split: option.split)
  moreover have "file_names (unpin_source path s) = file_names s" "key_ok (unpin_source path s) = key_ok s"
    by (simp_all add: file_names_def key_ok_def configured_seller_def unpin_source_def split: option.split)
  ultimately show "source_wf (unpin_source path s)"
    using assms same by (auto simp: source_wf_def)
qed

definition steps_on :: "source \<Rightarrow> source \<Rightarrow> bool" where
  "steps_on s t \<longleftrightarrow> source_wf t \<and> im_revision s \<le> im_revision t \<and> later s t
     \<and> (\<forall>p \<in> used_paths s \<inter> used_paths t. same_copy p s t)"

lemma good_steps_on: "good s t \<Longrightarrow> steps_on s t"
  by (simp add: good_def steps_on_def)

lemma coord_steps_on:
  assumes "source_wf s" "sync_inv c" "pinned_paths c = pinned_paths (im_coord s)"
  shows "steps_on s (s\<lparr>im_coord := c\<rparr>)"
  using assms
  by (simp add: steps_on_def source_wf_def used_paths_def file_names_def key_ok_def configured_seller_def same_copy_def)

lemma pin_later: "later s (snd (pin_source ev ctx s))" "im_revision (snd (pin_source ev ctx s)) = im_revision s"
  by (auto simp: pin_source_def case_prod_beta current_context_fields split: option.split)

lemma step_on:
  assumes "source_step s t" "source_wf s"
  shows "steps_on s t"
  using assms
proof (cases rule: source_step.cases)
  case (st_data_dir ev free raw)
  then show ?thesis using good_steps_on [OF set_data_dir_good] assms(2) by simp
next
  case (st_seller ev free raw)
  then show ?thesis using good_steps_on [OF set_self_ali_id_good] assms(2) by simp
next
  case (st_drop ev)
  then show ?thesis
    using good_steps_on [OF cleared_good [OF assms(2) new_selection_cleared]] by (simp add: drop_cached_key_def)
next
  case (st_prepare ev)
  then show ?thesis using good_steps_on [OF quiet_good [OF assms(2) prepare_quiet]] by simp
next
  case (st_verdict ev stopped task v)
  then show ?thesis using good_steps_on [OF finish_validation_good] assms(2) by simp
next
  case (st_tick ev stopped free)
  then show ?thesis using good_steps_on [OF source_tick_good] assms(2) by simp
next
  case (st_connection ev)
  then show ?thesis
    using good_steps_on [OF refresh_good [OF assms(2)]] by (simp add: get_connection_def case_prod_beta)
next
  case (st_retry ev)
  then show ?thesis using good_steps_on [OF retry_connection_good] assms(2) by simp
next
  case (st_sync ev)
  then show ?thesis using good_steps_on [OF quiet_good [OF assms(2) sync_to_crm_quiet]] by simp
next
  case (st_pin ev ctx)
  then show ?thesis
    using pin_step [OF assms(2), of ev ctx] pin_later [where s = s and ev = ev and ctx = ctx] by (simp add: steps_on_def same_copy_def)
next
  case (st_unpin path)
  have "later s (unpin_source path s)" "im_revision (unpin_source path s) = im_revision s"
    by (simp_all add: unpin_source_def split: option.split)
  with st_unpin show ?thesis
    using unpin_step [OF assms(2), of path] by (simp add: steps_on_def same_copy_def)
next
  case (st_complete e u out)
  then show ?thesis
    using coord_steps_on [OF assms(2)] complete_inv(1) [OF source_okD(1) [OF assms(2)]] by simp
next
  case (st_cancel w)
  have "sync_inv ((im_coord s)\<lparr>co_waiters := settle_waiters W_Cancelled [w] (co_waiters (im_coord s))\<rparr>)"
    using source_okD(1) [OF assms(2)] coord_settle [of "co_completed (im_coord s)" "{}" _ _ _ _ _ _ W_Cancelled "[w]"]
    by (simp add: coord_inv_def)
  with st_cancel show ?thesis
    using coord_steps_on [OF assms(2)] by simp
qed

text \<open>Two relations are kept over runs: revisions and numbers of validations only grow.\<close>

interpretation source_cache: tracked_system source_step source_wf
  "\<lambda>s t. im_revision s \<le> im_revision t \<and> later s t"
proof
  fix s t assume "source_wf s" "source_step s t"
  then show "source_wf t" "im_revision s \<le> im_revision t \<and> later s t"
    using step_on by (auto simp: steps_on_def)
qed (auto intro: later_trans)

lemma start_source_ok: "source_wf (start_source ev g saved keys files)"
proof -
  let ?s = "new_source g saved keys files" and ?t = "start_source ev g saved keys files"
  have s: "sync_inv (im_coord ?s)" "pinned_paths (im_coord ?s) = {}"
    using new_coordinator_inv by (simp_all add: new_source_def new_coordinator_def pinned_paths_def)
  note t = select_fields [where ev = ev and s = ?s, folded start_source_def]
  have "pinned_paths (im_coord ?t) = {}" "sync_inv (im_coord ?t)"
    using t(9) [OF s(1)] s(2) by auto
  moreover have "im_pins ?t = []" "im_cached ?t = None" "im_conn ?t = None" "im_key ?t = None" "im_startup ?t = None"
    using t by (simp_all add: new_source_def)
  ultimately show ?thesis
    by (simp add: source_wf_def used_paths_def key_ok_def)
qed

text \<open>What stays while a copy is in use, from any state that is well formed.\<close>

lemma held_copy:
  assumes "source_wf s" "p \<in> used_paths s" "(\<lambda>u v. source_step u v \<and> p \<in> used_paths v)\<^sup>*\<^sup>* s t"
  shows "source_wf t \<and> p \<in> used_paths t \<and> same_copy p s t"
  using assms(3)
proof (induction rule: rtranclp_induct)
  case base
  then show ?case using assms(1,2) by (simp add: same_copy_def)
next
  case (step u v)
  then show ?case using step_on [of u v] by (auto simp: steps_on_def same_copy_def)
qed

section \<open>Properties\<close>

text \<open>Over any sequence of operations from the start of the process: every copy in use (the served one, those
  that readers have pinned, those a synchronisation holds or waits for) is in the cache directory; a path is pinned
  as often as readers hold it, never zero times; the open connection is on the served copy; a key in hand belongs to
  the selected account; and the revision of the source only grows.
\<close>

theorem copies_in_use_stay:
  assumes "source_step\<^sup>*\<^sup>* (start_source ev g saved keys files) s" "source_step\<^sup>*\<^sup>* s t"
  shows "used_paths s \<subseteq> file_names s
    \<and> distinct (map fst (im_pins s)) \<and> (\<forall>(path, readers) \<in> set (im_pins s). 0 < readers)
    \<and> im_conn s = im_cached s
    \<and> (im_key s \<noteq> None \<longrightarrow> im_key_owner s = configured_seller s \<and> configured_seller s \<noteq> [])
    \<and> im_revision s \<le> im_revision t"
proof -
  have ok: "source_wf s"
    using source_cache.steps_inv [OF assms(1) start_source_ok] .
  have "im_revision s \<le> im_revision t"
    using source_cache.steps_rel [OF assms(2) ok] by simp
  with ok show ?thesis
    by (auto simp: source_wf_def key_ok_def)
qed

text \<open>
  C30: While a copy stays in use, by whomever, its main file and its log keep their contents byte for byte, through
  any refreshes, failures, resets and account changes meanwhile.
\<close>

theorem held_copy_never_changes:
  assumes "source_step\<^sup>*\<^sup>* (start_source ev g saved keys files) s" "p \<in> used_paths s"
    "(\<lambda>u v. source_step u v \<and> p \<in> used_paths v)\<^sup>*\<^sup>* s t"
  shows "p \<in> file_names t \<and> map_of (im_files t) p = map_of (im_files s) p
    \<and> map_of (im_files t) (wal_name p) = map_of (im_files s) (wal_name p)"
  using held_copy [OF source_cache.steps_inv [OF assms(1) start_source_ok] assms(2,3)] source_okD(2)
  by (auto simp: same_copy_def)

text \<open>
  C29: A refresh is all or nothing. Either the served copy, its signature and the revision stay, and its files
  with them; or the revision grows by one and a new file is served, which holds the decryption of bytes that were
  copied between two captures of the source that agree with each other and with the checksums of the copy, by a key that
  fits the source's header, with the re-encoded log beside it, accepted by SQLite.
\<close>

theorem refresh_is_all_or_nothing:
  fixes n :: nat
  assumes "source_step\<^sup>*\<^sup>* (start_source ev' g saved keys files) s" "fresh_name ev s"
  defines "t \<equiv> snd (refresh ev n s)"
  shows "(same_snapshot s t \<and> (\<forall>p. im_cached s = Some p \<longrightarrow> same_copy p s t))
    \<or> (\<exists>key captured plain out frames. im_key s = Some key
        \<and> accepted ev (n + 5) key captured plain out frames
        \<and> serves (cache_path_for (configured_seller s) (ev_name ev)) captured plain out t
        \<and> cache_path_for (configured_seller s) (ev_name ev) \<notin> file_names s
        \<and> im_revision t = im_revision s + 1 \<and> im_frames t = frames)"
proof -
  have ok: "source_wf s"
    using source_cache.steps_inv [OF assms(1) start_source_ok] .
  have t: "refreshed ev (n + 5) s t"
    using refresh_refreshed [OF ok assms(2)] by (simp add: t_def)
  have "same_copy p s t" if "same_snapshot s t" "im_cached s = Some p" for p
    using t that by (auto simp: refreshed_def good_def same_snapshot_def used_paths_def)
  moreover have "cache_path_for (configured_seller s) (ev_name ev) \<notin> file_names s"
    using assms(2) by (auto simp: fresh_name_def with_sidecars_def)
  ultimately show ?thesis
    using t unfolding refreshed_def new_snapshot_def by blast
qed

text \<open>
  C31: A validation of the saved key that was cancelled or is finished has no effect ever after: once a task is no
  longer the current one, whatever verdict its slow reads give, at whatever later time, applying it changes nothing.
\<close>

theorem cancelled_validation_has_no_effect:
  assumes "source_step\<^sup>*\<^sup>* (start_source ev' g saved keys files) s"
    "n \<le> im_sequence s" "im_startup s \<noteq> Some (a, n)" "source_step\<^sup>*\<^sup>* s t"
  shows "finish_validation ev stopped (a, n) v t = (Inr False, t)"
proof -
  have "source_wf s"
    using source_cache.steps_inv [OF assms(1) start_source_ok] .
  from source_cache.steps_rel [OF assms(4) this] have "later s t" by simp
  then have "im_startup t \<noteq> Some (a, n)"
    using assms(2,3) by (auto simp: later_def)
  then show ?thesis
    by (auto simp: finish_validation_def)
qed

text \<open>When the status says ready, nothing is wrong and nothing is outstanding: neither the source nor the
  synchronisation reports an error, updating is on, no change was seen that is not yet taken in, no synchronisation runs or
  waits, the source was observed in the last thirty seconds, and the revision applied to the CRM is the source's.
\<close>

theorem ready_is_truthful:
  assumes "st_ready (sync_status_of now ss view)"
  shows "ss_error ss = [] \<and> sv_last_error view = [] \<and> ss_auto ss \<and> \<not> ss_dirty ss
    \<and> \<not> sv_syncing view \<and> \<not> sv_pending view
    \<and> (\<exists>t. ss_observed ss = Some t \<and> now - t \<le> observation_max_age)
    \<and> py_eq (PInt (ss_revision ss)) (sv_applied view) \<and> sv_phase view = ''ready''
    \<and> st_freshness (sync_status_of now ss view) = ''fresh''"
  using assms by (auto simp: sync_status_of_def Let_def split: if_splits option.splits)

section \<open>Witnesses\<close>

text \<open>
  A source of two blocks that starts with the magic text, a cipher that changes nothing, and the key of the running client.
\<close>

definition demo_main :: "byte list" where
  "demo_main = sqlite_magic @ [2, 0] @ replicate 14 0"

definition demo_disk :: disk where
  "demo_disk = \<lparr>dk_main = \<lparr>df_stat = Some (1, 32), df_bytes = Some demo_main\<rparr>,
     dk_wal = \<lparr>df_stat = None, df_bytes = None\<rparr>\<rparr>"

definition demo_world :: environment where
  "demo_world = \<lparr>ev_bound = None, ev_epoch = ''e'', ev_name = ''f'', ev_clock = (\<lambda>_. 100),
     ev_submit = (\<lambda>_. Sub_Future None), ev_canon = id, ev_path = id, ev_world = (\<lambda>_. demo_disk),
     ev_located = (\<lambda>_ _. True), ev_source_path = (\<lambda>d a. d @ a), ev_dec = (\<lambda>_ bs. Inr bs),
     ev_opens = (\<lambda>_ _. True), ev_connects = True, ev_pipeline = True, ev_locked = [], ev_busy = None,
     ev_config_fails = False, ev_restored = Inr None, ev_legacy = [], ev_live = Some (replicate 16 7),
     ev_elapsed = 0\<rparr>"

definition demo_desktop :: gui where
  "demo_desktop = \<lparr>g_config = (''7'', ''/d''), g_account = None, g_windows = [], g_tasker = None, g_hwnd = None,
     g_generation = [], g_token = None, g_jobs = [], g_uncertain = False, g_posts = []\<rparr>"

definition demo_cache :: source where
  "demo_cache = start_source demo_world demo_desktop 4 [] [(''aes_key.bin'', [1])]"

definition demo_served :: source where
  "demo_served = snd (retry_connection demo_world demo_cache)"

lemma demo_strip [simp]: "py_strip ''7'' = ''7''" "py_strip ''/d'' = ''/d''"
  by code_simp+

lemmas source_evaluation =
  demo_served_def demo_cache_def demo_desktop_def demo_world_def demo_disk_def start_source_def new_source_def
  select_context_def current_context_def get_account_context_def publish_status_def select_account_def
  cancel_pending_def new_coordinator_def empty_view_def retry_connection_def reset_retry_def cancel_validation_def
  clear_retry_def now_of_def read_clock_def retry_source_def source_located_def configured_seller_def ensure_key_def
  stored_key_def forget_key_def get_key_hex_def other_keys_def capture_live_key_def verify_source_key_def use_key_def

lemmas refresh_evaluation =
  refresh_def refresh_locked_def source_fresh_def refresh_stale_def held_def rebuild_source_def
  rebuild_cache_def stable_copy_def capture_source_def source_fingerprint_def main_crc_def wal_crc_def
  copy_source_pair_def plain_pair_def decrypt_db_def build_wal_def adopt_build_def note_success_def
  sync_to_crm_def request_sync_def unchanged_target_def new_target_def dispatch_def sync_tick_def
  drain_completed_def outcome_of_def write_pair_def cleanup_caches_def retry_refresh_def

lemma demo_other [simp]: "cache_path_for ''7'' ''f'' \<noteq> ''aes_key.bin''" "''aes_key.bin'' \<noteq> cache_path_for ''7'' ''f''"
  by (simp_all add: cache_path_for_def)

lemma demo_served_fields:
  "im_cached demo_served = Some (cache_path_for ''7'' ''f'')" "im_revision demo_served = 5"
  "im_files demo_served = [(''aes_key.bin'', [1]), (cache_path_for ''7'' ''f'', demo_main)]"
  by (simp_all add: source_evaluation refresh_evaluation demo_main_def sqlite_magic_def Let_def
      unlink_files_def protected_names_def with_sidecars_def is_cache_name_def has_prefix_def)

lemma demo_name: "rev (cache_path_for a ''g'') ! 7 = CHR ''g''" "rev (cache_path_for a ''f'') ! 7 = CHR ''f''"
  by (simp_all add: cache_path_for_def)

lemma demo_cache_fresh: "fresh_name demo_world demo_cache" "fresh_name (demo_world\<lparr>ev_name := ''g''\<rparr>) demo_served"
proof -
  have "file_names demo_cache = {''aes_key.bin''}"
    by (simp add: file_names_def source_evaluation Let_def)
  moreover have other: "q \<noteq> ''aes_key.bin''" if "q \<in> set (with_sidecars (cache_path_for a x))" for q a x
    using that by (auto simp: with_sidecars_def wal_name_def shm_name_def cache_path_for_def)
  ultimately show "fresh_name demo_world demo_cache"
    by (auto simp: fresh_name_def)
  have "last (cache_path_for ''7'' ''f'') \<noteq> last (wal_name p)" "last (cache_path_for ''7'' ''f'') \<noteq> last (shm_name p)"
    "rev (cache_path_for ''7'' ''f'') ! 7 \<noteq> rev (cache_path_for a ''g'') ! 7" for p a
    by (simp_all add: last_names demo_name)
  then have "cache_path_for ''7'' ''f'' \<notin> set (with_sidecars (cache_path_for a ''g''))" for a
    unfolding with_sidecars_def by (metis empty_iff empty_set insert_iff list.simps(15))
  moreover have "file_names demo_served = {''aes_key.bin'', cache_path_for ''7'' ''f''}"
    by (simp add: file_names_def demo_served_fields)
  ultimately show "fresh_name (demo_world\<lparr>ev_name := ''g''\<rparr>) demo_served"
    by (auto simp: fresh_name_def dest: other)
qed

lemma demo_steps: "source_step\<^sup>*\<^sup>* demo_cache demo_served"
proof -
  have "source_step demo_cache demo_served"
    unfolding demo_served_def by (rule st_retry [OF _ demo_cache_fresh(1)]) (simp add: demo_world_def)
  then show ?thesis ..
qed

theorem copies_in_use_stay_witness:
  "cache_path_for ''7'' ''f'' \<in> file_names demo_served \<and> im_conn demo_served = Some (cache_path_for ''7'' ''f'')"
  using copies_in_use_stay [OF demo_steps [unfolded demo_cache_def] rtranclp.rtrancl_refl]
  by (auto simp: used_paths_def demo_served_fields)

text \<open>A reader enters.\<close>

definition demo_reader :: account where
  "demo_reader = \<lparr>ac_seller = ''7'', ac_data_dir = ''/d'', ac_epoch = ''x''\<rparr>"

theorem held_copy_never_changes_witness:
  "map_of (im_files (snd (pin_source demo_world demo_reader demo_served))) (cache_path_for ''7'' ''f'') = Some demo_main"
proof -
  let ?p = "cache_path_for ''7'' ''f''" and ?t = "snd (pin_source demo_world demo_reader demo_served)"
  have p: "?p \<in> used_paths demo_served"
    by (simp add: used_paths_def demo_served_fields)
  have "im_cached ?t = im_cached demo_served"
    by (auto simp: pin_source_def case_prod_beta current_context_fields split: option.split)
  then have "?p \<in> used_paths ?t"
    by (simp add: used_paths_def demo_served_fields)
  then have "(\<lambda>u v. source_step u v \<and> ?p \<in> used_paths v)\<^sup>*\<^sup>* demo_served ?t"
    using st_pin by (simp add: r_into_rtranclp)
  from held_copy_never_changes [OF demo_steps [unfolded demo_cache_def] p this] show ?thesis
    by (simp add: demo_served_fields)
qed

theorem refresh_is_all_or_nothing_witness:
  "im_revision (snd (refresh (demo_world\<lparr>ev_name := ''g''\<rparr>) 0 demo_served)) \<in> {5, 6}"
  using refresh_is_all_or_nothing [OF demo_steps [unfolded demo_cache_def] demo_cache_fresh(2), of 0]
  by (auto simp: same_snapshot_def demo_served_fields)

text \<open>A validation that a new selection supersedes before its reads are done.\<close>

definition demo_superseded :: source where
  "demo_superseded = drop_cached_key demo_world (prepare_validation demo_world demo_cache)"

theorem cancelled_validation_has_no_effect_witness:
  "im_startup (prepare_validation demo_world demo_cache) = Some (demo_reader\<lparr>ac_epoch := ''e''\<rparr>, 1)
   \<and> finish_validation demo_world False (demo_reader\<lparr>ac_epoch := ''e''\<rparr>, 1)
       \<lparr>vd_state = K_Valid, vd_key = Some [1], vd_source = key_auto, vd_detail = [], vd_code = []\<rparr> demo_superseded
     = (Inr False, demo_superseded)"
proof -
  have "source_step demo_cache (prepare_validation demo_world demo_cache)"
    by (rule st_prepare) (simp add: demo_world_def)
  moreover have "source_step (prepare_validation demo_world demo_cache) demo_superseded"
    unfolding demo_superseded_def by (rule st_drop) (simp add: demo_world_def)
  ultimately have steps: "source_step\<^sup>*\<^sup>* demo_cache demo_superseded"
    by (meson rtranclp.rtrancl_into_rtrancl rtranclp.rtrancl_refl)
  have n: "1 \<le> im_sequence demo_superseded" "im_startup demo_superseded = None"
    "im_startup (prepare_validation demo_world demo_cache) = Some (demo_reader\<lparr>ac_epoch := ''e''\<rparr>, 1)"
    by (simp_all add: demo_superseded_def drop_cached_key_def new_selection_def reset_runtime_def
        invalidate_account_context_def prepare_validation_def source_evaluation Let_def demo_reader_def)
  then show ?thesis
    using cancelled_validation_has_no_effect [OF steps [unfolded demo_cache_def] n(1) _ rtranclp.rtrancl_refl] by simp
qed

theorem ready_is_truthful_witness:
  "ss_observed \<lparr>ss_revision = 3, ss_cache_time = 95, ss_mtime = Some 1, ss_frames = 0, ss_refresh_ms = 0,
      ss_checked = Some 99, ss_observed = Some 99, ss_error = [], ss_code = [], ss_retry = None,
      ss_validation = K_Valid, ss_auto = True, ss_dirty = False\<rparr> = Some 99"
  using ready_is_truthful [of 100 "\<lparr>ss_revision = 3, ss_cache_time = 95, ss_mtime = Some 1, ss_frames = 0,
      ss_refresh_ms = 0, ss_checked = Some 99, ss_observed = Some 99, ss_error = [], ss_code = [], ss_retry = None,
      ss_validation = K_Valid, ss_auto = True, ss_dirty = False\<rparr>" "empty_view\<lparr>sv_phase := ''ready'', sv_applied := PInt 3\<rparr>"]
  by (simp add: sync_status_of_def Let_def empty_view_def observation_max_age_def)

end
