(* ===== verification/Chat_Source.thy ===== *)
theory Chat_Source
  imports Inbox_Store "HOL-Library.Multiset"
begin

text \<open>
  Reading the conversations of a decrypted messenger database, \<^verbatim>\<open>shared/backend/im_chat_db.py\<close>. The database is the list
  of its tables, each with its rows in the order of their row numbers; a column is a value as \<^verbatim>\<open>sqlite3\<close> returns
  it (None, integer, float or text), and the content is a blob. Of Python's library the functions take \<open>decoders\<close>: \<^verbatim>\<open>json.loads\<close> (a
  value or the exception), the text of a number, \<^verbatim>\<open>bytes.decode\<close> with replacement, the local time
  zone and SQLite's text of a JSON value.
\<close>

record decoders =
  dc_loads :: "string \<Rightarrow> pyval result"
  dc_repr :: "pyval \<Rightarrow> string"
  dc_utf8 :: "nat list \<Rightarrow> string"
  dc_zone :: time_zone
  dc_json_text :: "pyval \<Rightarrow> string"

record raw_row =
  rw_cid :: pyval
  rw_mid :: pyval
  rw_sender :: pyval
  rw_created :: pyval
  rw_type :: pyval
  rw_label :: pyval
  rw_extension :: pyval
  rw_content :: "nat list option"

type_synonym chat_db = "(string \<times> raw_row list) list"

record message_row =
  mr_table :: string
  mr_cid :: string
  mr_mid :: string
  mr_sender :: pyval
  mr_created :: pyval
  mr_type :: pyval
  mr_label :: pyval
  mr_content :: "nat list option"
  mr_system :: bool
  mr_auto :: bool
  mr_biz :: string

record contact_conv =
  cv_contact :: string
  cv_messages :: "message_row list"
  cv_last_created :: pyval
  cv_last_label :: pyval

section \<open>Values\<close>

text \<open>\<^verbatim>\<open>str(v)\<close> of a column, and \<^verbatim>\<open>json.loads(v)\<close>, which wants text.\<close>

fun str_of :: "decoders \<Rightarrow> pyval \<Rightarrow> string" where
  "str_of dc (PStr s) = s"
| "str_of dc PNone = ''None''"
| "str_of dc v = dc_repr dc v"

fun loads_value :: "decoders \<Rightarrow> pyval \<Rightarrow> pyval result" where
  "loads_value dc (PStr s) = dc_loads dc s"
| "loads_value dc v = Inl (Type_Error ''the JSON object must be str, bytes or bytearray'')"

text \<open>\<^verbatim>\<open>_basic_message_info\<close>: an extension that is JSON but no object has no method \<^verbatim>\<open>get\<close>, which nobody catches.\<close>

definition caught :: "py_error \<Rightarrow> bool" where
  "caught e = (case e of Value_Error _ \<Rightarrow> True | Type_Error _ \<Rightarrow> True | _ \<Rightarrow> False)"

definition no_attribute :: py_error where
  "no_attribute = Runtime_Error ''AttributeError: object has no attribute get''"

definition inner_info :: "decoders \<Rightarrow> pyval \<Rightarrow> (string \<times> pyval) list result" where
  "inner_info dc basic =
     (case basic of
        PDict b \<Rightarrow> Inr b
      | PStr s \<Rightarrow>
          (case dc_loads dc s of
             Inl e \<Rightarrow> (case e of Value_Error _ \<Rightarrow> Inr [] | _ \<Rightarrow> Inl e)
           | Inr (PDict p) \<Rightarrow> Inr p
           | Inr _ \<Rightarrow> Inr [])
      | _ \<Rightarrow> Inr [])"

definition basic_message_info :: "decoders \<Rightarrow> pyval \<Rightarrow> (string \<times> pyval) list result" where
  "basic_message_info dc ext =
     (if \<not> truthy ext then Inr []
      else case loads_value dc ext of
             Inl e \<Rightarrow> if caught e then Inr [] else Inl e
           | Inr (PDict outer) \<Rightarrow> inner_info dc (dict_get_none outer ''basicMessageInfo'')
           | Inr _ \<Rightarrow> Inl no_attribute)"

text \<open>The search for \<^verbatim>\<open>\\?"name\\?"\s*:\s*true\<close>: a quote with an optional backslash, and the whole pattern at a position.\<close>

definition quote_at :: "string \<Rightarrow> string option" where
  "quote_at s =
     (case (case s of c # cs \<Rightarrow> if c = CHR 0x5C then cs else s | [] \<Rightarrow> []) of
        q # r \<Rightarrow> if q = CHR 0x22 then Some r else None
      | [] \<Rightarrow> None)"

definition flag_at :: "string \<Rightarrow> string \<Rightarrow> bool" where
  "flag_at name s =
     (case quote_at s of
        None \<Rightarrow> False
      | Some r \<Rightarrow> has_prefix name r
          \<and> (case quote_at (drop (length name) r) of
               None \<Rightarrow> False
             | Some r2 \<Rightarrow>
                 (case dropWhile py_space r2 of
                    c # r3 \<Rightarrow> c = CHR '':'' \<and> has_prefix ''true'' (dropWhile py_space r3)
                  | [] \<Rightarrow> False)))"

fun flag_search :: "string \<Rightarrow> string \<Rightarrow> bool" where
  "flag_search name [] = False"
| "flag_search name (c # cs) = (flag_at name (c # cs) \<or> flag_search name cs)"

definition message_flag :: "decoders \<Rightarrow> string \<Rightarrow> pyval \<Rightarrow> bool result" where
  "message_flag dc name ext =
     and_then (basic_message_info dc ext) (\<lambda>basic.
       case map_of basic name of
         Some v \<Rightarrow> Inr (v = PBool True)
       | None \<Rightarrow>
           if \<not> truthy ext then Inr False
           else (case ext of PStr s \<Rightarrow> Inr (flag_search name s)
                 | _ \<Rightarrow> Inl (Type_Error ''expected string or bytes-like object'')))"

definition is_system_message :: "decoders \<Rightarrow> pyval \<Rightarrow> bool result" where
  "is_system_message dc ext = message_flag dc ''systemMessage'' ext"

definition is_auto_reply :: "decoders \<Rightarrow> pyval \<Rightarrow> bool result" where
  "is_auto_reply dc ext = message_flag dc ''autoReply'' ext"

definition card_type :: int where
  "card_type = 10010"

definition biz_id :: "decoders \<Rightarrow> pyval \<Rightarrow> pyval \<Rightarrow> string result" where
  "biz_id dc ext user_type =
     (if \<not> py_eq user_type (PInt card_type) then Inr []
      else and_then (basic_message_info dc ext) (\<lambda>basic.
        case dict_get_none basic ''bizId'' of
          PStr s \<Rightarrow> Inr (py_strip s)
        | PInt i \<Rightarrow> Inr (py_strip (str_of dc (PInt i)))
        | _ \<Rightarrow> Inr []))"

section \<open>Tables and order\<close>

text \<open>\<^verbatim>\<open>LIKE 'msg\_%'\<close> folds the case of the letters, \<^verbatim>\<open>ORDER BY name\<close> does not.\<close>

definition is_msg_table :: "string \<Rightarrow> bool" where
  "is_msg_table name \<longleftrightarrow> has_prefix ''msg_'' (py_lower name)"

definition list_msg_tables :: "chat_db \<Rightarrow> string list" where
  "list_msg_tables db = sort (filter is_msg_table (map fst db))"

definition table_rows :: "chat_db \<Rightarrow> string \<Rightarrow> raw_row list" where
  "table_rows db table = (case map_of db table of None \<Rightarrow> [] | Some rows \<Rightarrow> rows)"

text \<open>
  SQLite's order of values: NULL, numbers, text. Rows that compare equal are taken in the order of the
  table. \<open>epoch_rank\<close> is Python's order of the floats that \<^verbatim>\<open>coerce_epoch\<close> returns; SQLite has no NaN.
\<close>

fun sql_rank :: "pyval \<Rightarrow> nat \<times> rat \<times> string" where
  "sql_rank PNone = (0, 0, [])"
| "sql_rank (PInt i) = (2, of_int i, [])"
| "sql_rank (PFloat f) = (case f of FNegInf \<Rightarrow> (1, 0, []) | FFin q \<Rightarrow> (2, q, []) | FPosInf \<Rightarrow> (3, 0, []) | FNaN \<Rightarrow> (0, 0, []))"
| "sql_rank (PStr s) = (4, 0, s)"
| "sql_rank v = (5, 0, [])"

fun epoch_rank :: "pyfloat \<Rightarrow> nat \<times> rat" where
  "epoch_rank FNegInf = (0, 0)"
| "epoch_rank (FFin q) = (1, q)"
| "epoch_rank FPosInf = (2, 0)"
| "epoch_rank FNaN = (3, 0)"

definition rank_of :: "decoders \<Rightarrow> pyval \<Rightarrow> nat \<times> rat" where
  "rank_of dc v = epoch_rank (coerce_epoch (dc_zone dc) v)"

section \<open>Conversations\<close>

definition contact_ali_id_from_cid :: "string \<Rightarrow> string \<Rightarrow> string" where
  "contact_ali_id_from_cid cid self_ali_id =
     (case split_on (CHR ''-'') (hd (split_on (CHR ''#'') cid)) of
        [first, second] \<Rightarrow>
          (let self_key = canonical_ali_id (Some self_ali_id);
               first_key = canonical_ali_id (Some first);
               second_key = canonical_ali_id (Some second)
           in if self_key = [] then []
              else if first_key = self_key \<and> second_key \<noteq> self_key then second
              else if second_key = self_key \<and> first_key \<noteq> self_key then first else [])
      | _ \<Rightarrow> [])"

definition read_row :: "decoders \<Rightarrow> string \<Rightarrow> raw_row \<Rightarrow> message_row result" where
  "read_row dc table r =
     and_then (is_system_message dc (rw_extension r)) (\<lambda>sys.
     and_then (is_auto_reply dc (rw_extension r)) (\<lambda>auto_reply.
     and_then (biz_id dc (rw_extension r) (rw_type r)) (\<lambda>biz.
       Inr \<lparr>mr_table = table, mr_cid = str_of dc (rw_cid r), mr_mid = str_of dc (rw_mid r), mr_sender = rw_sender r,
            mr_created = rw_created r, mr_type = rw_type r, mr_label = rw_label r, mr_content = rw_content r,
            mr_system = sys, mr_auto = auto_reply, mr_biz = biz\<rparr>)))"

type_synonym groups = "(string \<times> message_row list) list"

definition add_to_group :: "string \<Rightarrow> message_row \<Rightarrow> groups \<Rightarrow> groups" where
  "add_to_group contact m g = alist_put contact ((case map_of g contact of None \<Rightarrow> [] | Some ms \<Rightarrow> ms) @ [m]) g"

fun group_rows :: "decoders \<Rightarrow> string \<Rightarrow> string \<Rightarrow> raw_row list \<Rightarrow> groups \<Rightarrow> groups result" where
  "group_rows dc self table [] g = Inr g"
| "group_rows dc self table (r # rs) g =
     (let contact = contact_ali_id_from_cid (str_of dc (rw_cid r)) self in
      if contact = [] then group_rows dc self table rs g
      else and_then (read_row dc table r) (\<lambda>m. group_rows dc self table rs (add_to_group contact m g)))"

fun group_tables :: "decoders \<Rightarrow> string \<Rightarrow> chat_db \<Rightarrow> string list \<Rightarrow> groups \<Rightarrow> groups result" where
  "group_tables dc self db [] g = Inr g"
| "group_tables dc self db (t # ts) g =
     and_then (group_rows dc self t (sort_key (\<lambda>r. sql_rank (rw_created r)) (table_rows db t)) g)
       (group_tables dc self db ts)"

definition sort_messages :: "decoders \<Rightarrow> message_row list \<Rightarrow> message_row list" where
  "sort_messages dc ms = sort_key (\<lambda>m. rank_of dc (mr_created m)) ms"

definition conv_of :: "decoders \<Rightarrow> string \<times> message_row list \<Rightarrow> contact_conv" where
  "conv_of dc g =
     (let ms = sort_messages dc (snd g)
      in \<lparr>cv_contact = fst g, cv_messages = ms, cv_last_created = mr_created (last ms), cv_last_label = mr_label (last ms)\<rparr>)"

text \<open>\<^verbatim>\<open>sort(reverse=True)\<close> keeps the order of equal elements.\<close>

definition sort_reverse :: "('a \<Rightarrow> 'k::linorder) \<Rightarrow> 'a list \<Rightarrow> 'a list" where
  "sort_reverse key xs = rev (sort_key key (rev xs))"

definition build_conversations :: "decoders \<Rightarrow> chat_db \<Rightarrow> string \<Rightarrow> contact_conv list result" where
  "build_conversations dc db self =
     and_then (group_tables dc self db (list_msg_tables db) []) (\<lambda>groups.
       Inr (sort_reverse (\<lambda>c. rank_of dc (cv_last_created c)) (map (conv_of dc) (filter (\<lambda>g. snd g \<noteq> []) groups))))"

section \<open>What the conversations contain\<close>

text \<open>The rows of the message tables that belong to a conversation of the account.\<close>

definition row_contact :: "decoders \<Rightarrow> string \<Rightarrow> raw_row \<Rightarrow> string" where
  "row_contact dc self r = contact_ali_id_from_cid (str_of dc (rw_cid r)) self"

definition own_rows :: "decoders \<Rightarrow> string \<Rightarrow> chat_db \<Rightarrow> (string \<times> raw_row) list" where
  "own_rows dc self db =
     filter (\<lambda>tr. row_contact dc self (snd tr) \<noteq> []) (concat (map (\<lambda>t. map (Pair t) (table_rows db t)) (list_msg_tables db)))"

definition message_contact :: "string \<Rightarrow> message_row \<Rightarrow> string" where
  "message_contact self m = contact_ali_id_from_cid (mr_cid m) self"

definition put_message :: "string \<Rightarrow> message_row \<Rightarrow> groups \<Rightarrow> groups" where
  "put_message self m g = add_to_group (message_contact self m) m g"

lemma read_row_contact: "read_row dc t r = Inr m \<Longrightarrow> message_contact self m = row_contact dc self r"
  by (auto simp: read_row_def and_then_Inr_iff message_contact_def row_contact_def)

lemma group_rows_fold:
  "group_rows dc self t rs g = Inr g' \<Longrightarrow>
     \<exists>ms. map (read_row dc t) (filter (\<lambda>r. row_contact dc self r \<noteq> []) rs) = map Inr ms \<and> g' = fold (put_message self) ms g"
proof (induction rs arbitrary: g)
  case (Cons r rs)
  show ?case
  proof (cases "row_contact dc self r = []")
    case True
    then show ?thesis using Cons by (simp add: row_contact_def)
  next
    case False
    then obtain m where m: "read_row dc t r = Inr m"
      "group_rows dc self t rs (add_to_group (row_contact dc self r) m g) = Inr g'"
      using Cons.prems by (auto simp: row_contact_def and_then_Inr_iff)
    from Cons.IH [OF m(2)] obtain ms where
      "map (read_row dc t) (filter (\<lambda>r. row_contact dc self r \<noteq> []) rs) = map Inr ms"
      "g' = fold (put_message self) ms (add_to_group (row_contact dc self r) m g)" by blast
    then show ?thesis
      using False m(1) read_row_contact [OF m(1), of self]
      by (intro exI [of _ "m # ms"] conjI) (simp_all add: put_message_def [of self m])
  qed
qed simp

definition sorted_rows :: "chat_db \<Rightarrow> string \<Rightarrow> raw_row list" where
  "sorted_rows db t = sort_key (\<lambda>r. sql_rank (rw_created r)) (table_rows db t)"

lemma group_tables_fold:
  "group_tables dc self db ts g = Inr g' \<Longrightarrow>
     \<exists>ms. concat (map (\<lambda>t. map (read_row dc t) (filter (\<lambda>r. row_contact dc self r \<noteq> []) (sorted_rows db t))) ts) = map Inr ms
       \<and> g' = fold (put_message self) ms g"
proof (induction ts arbitrary: g)
  case (Cons t ts)
  obtain g1 where g1: "group_rows dc self t (sorted_rows db t) g = Inr g1" "group_tables dc self db ts g1 = Inr g'"
    using Cons.prems by (auto simp: sorted_rows_def and_then_Inr_iff)
  from group_rows_fold [OF g1(1)] obtain ms1 where
    ms1: "map (read_row dc t) (filter (\<lambda>r. row_contact dc self r \<noteq> []) (sorted_rows db t)) = map Inr ms1"
      "g1 = fold (put_message self) ms1 g" by blast
  from Cons.IH [OF g1(2)] obtain ms2 where
    "concat (map (\<lambda>t. map (read_row dc t) (filter (\<lambda>r. row_contact dc self r \<noteq> []) (sorted_rows db t))) ts) = map Inr ms2"
    "g' = fold (put_message self) ms2 g1" by blast
  then show ?case
    using ms1 by (intro exI [of _ "ms1 @ ms2"]) simp
qed simp

text \<open>Every message is in the group of its contact, in the order it was read.\<close>

definition group_ok :: "string \<Rightarrow> groups \<Rightarrow> bool" where
  "group_ok self g \<longleftrightarrow> distinct (map fst g)
     \<and> (\<forall>(c, ms) \<in> set g. ms \<noteq> [] \<and> (\<forall>m \<in> set ms. message_contact self m = c))"

lemma mset_alist_put:
  "mset (concat (map snd (alist_put c (ms @ [m]) g))) = add_mset m (mset (concat (map snd g)))"
  if "(case map_of g c of None \<Rightarrow> [] | Some ms \<Rightarrow> ms) = ms" for ms :: "message_row list"
  using that
proof (induction g)
  case (Cons a g)
  then show ?case by (cases a) (simp split: if_splits)
qed simp

lemma mset_put: "mset (concat (map snd (add_to_group c m g))) = add_mset m (mset (concat (map snd g)))"
  unfolding add_to_group_def by (rule mset_alist_put) (rule refl)

lemma put_ok:
  assumes "group_ok self g"
  shows "group_ok self (put_message self m g)"
proof -
  let ?c = "message_contact self m"
  let ?old = "case map_of g ?c of None \<Rightarrow> [] | Some ms \<Rightarrow> ms"
  have old: "\<forall>x \<in> set ?old. message_contact self x = ?c"
  proof (cases "map_of g ?c")
    case (Some ms)
    then have "(?c, ms) \<in> set g" by (rule map_of_SomeD)
    then have "\<forall>x \<in> set ms. message_contact self x = ?c" using assms unfolding group_ok_def by blast
    then show ?thesis using Some by simp
  qed simp
  have "ms \<noteq> [] \<and> (\<forall>x \<in> set ms. message_contact self x = c)"
    if "(c, ms) \<in> set (alist_put ?c (?old @ [m]) g)" for c ms
  proof (cases "(c, ms) = (?c, ?old @ [m])")
    case True
    then show ?thesis unfolding prod.inject using old by (elim conjE) (simp only: set_append ball_Un, simp)
  next
    case False
    then have "(c, ms) \<in> set g" using in_alist_put [OF that] by blast
    then show ?thesis using assms unfolding group_ok_def by blast
  qed
  then show ?thesis
    using assms unfolding group_ok_def put_message_def add_to_group_def by (intro conjI distinct_alist_put) blast+
qed

lemma fold_put:
  "group_ok self g \<Longrightarrow> group_ok self (fold (put_message self) ms g)
     \<and> mset (concat (map snd (fold (put_message self) ms g))) = mset (concat (map snd g)) + mset ms"
proof (induction ms arbitrary: g)
  case (Cons m ms)
  from Cons.IH [OF put_ok [OF Cons.prems]] show ?case
    by (simp add: mset_put put_message_def)
qed simp

lemma contact_is_other:
  assumes "contact_ali_id_from_cid cid self = c" "c \<noteq> []"
  shows "canonical_ali_id (Some c) \<noteq> canonical_ali_id (Some self)"
  using assms by (auto simp: contact_ali_id_from_cid_def Let_def split: list.splits if_splits)

lemma mset_sort_reverse [simp]: "mset (sort_reverse key xs) = mset xs"
  by (simp add: sort_reverse_def)

lemma sorted_sort_reverse: "sorted_wrt (\<lambda>x y. key y \<le> key x) (sort_reverse key xs)"
  unfolding sort_reverse_def sorted_wrt_rev using sorted_sort_key [of key "rev xs"] by (simp add: sorted_map)

lemma group_tables_rows:
  assumes "group_tables dc self db (list_msg_tables db) [] = Inr g"
  shows "group_ok self g"
    and "image_mset Inr (mset (concat (map snd g))) = image_mset (\<lambda>(t, r). read_row dc t r) (mset (own_rows dc self db))"
proof -
  from group_tables_fold [OF assms] obtain ms where
    ms: "concat (map (\<lambda>t. map (read_row dc t) (filter (\<lambda>r. row_contact dc self r \<noteq> []) (sorted_rows db t)))
           (list_msg_tables db)) = map Inr ms" "g = fold (put_message self) ms []" by blast
  have ok: "group_ok self []" by (simp add: group_ok_def)
  from fold_put [OF ok, of ms] ms(2) have g: "group_ok self g" "mset (concat (map snd g)) = mset ms" by simp_all
  have "mset (map (read_row dc t) (filter P (sorted_rows db t))) = mset (map (read_row dc t) (filter P (table_rows db t)))" for P t
    by (simp add: sorted_rows_def)
  then have "mset (map Inr ms) =
      mset (concat (map (\<lambda>t. map (read_row dc t) (filter (\<lambda>r. row_contact dc self r \<noteq> []) (table_rows db t))) (list_msg_tables db)))"
    unfolding ms(1) [symmetric] mset_concat map_map comp_def by simp
  also have "\<dots> = image_mset (\<lambda>(t, r). read_row dc t r) (mset (own_rows dc self db))"
    unfolding own_rows_def mset_map [symmetric]
    by (simp add: filter_concat map_concat filter_map comp_def del: mset_map mset_filter)
  finally show "group_ok self g"
    "image_mset Inr (mset (concat (map snd g))) = image_mset (\<lambda>(t, r). read_row dc t r) (mset (own_rows dc self db))"
    using g by simp_all
qed

lemma cv_mset: "mset (cv_messages (conv_of dc g)) = mset (snd g)"
  by (simp add: conv_of_def sort_messages_def Let_def)

text \<open>No message without a contact is grouped.\<close>

lemma own_group:
  assumes "group_tables dc self db (list_msg_tables db) [] = Inr g" "(a, ms) \<in> set g"
  shows "a \<noteq> []"
proof -
  note ok = group_tables_rows [OF assms(1)]
  obtain m where m: "m \<in> set ms" "message_contact self m = a"
  proof -
    have "ms \<noteq> []" "\<forall>m \<in> set ms. message_contact self m = a" using ok(1) assms(2) unfolding group_ok_def by blast+
    then show thesis using that [of "hd ms"] by simp
  qed
  then have "m \<in># mset (concat (map snd g))" using assms(2) by (auto intro!: bexI [of _ "(a, ms)"])
  then have "Inr m \<in># image_mset (\<lambda>(t, r). read_row dc t r) (mset (own_rows dc self db))"
    unfolding ok(2) [symmetric] by (rule imageI [THEN in_image_mset [THEN iffD2]])
  then obtain t r where "(t, r) \<in> set (own_rows dc self db)" "read_row dc t r = Inr m" by auto
  then have "row_contact dc self r \<noteq> []" "message_contact self m = row_contact dc self r"
    by (auto simp: own_rows_def dest: read_row_contact)
  then show ?thesis using m(2) by simp
qed

text \<open>
  C21: When the conversations of a database are read, every message of a message table whose conversation identifier names the
  selected account and somebody else is in exactly one conversation, that of its contact, and nothing else is: as collections, the
  messages of all conversations are the converted rows. Contacts are distinct and never the account itself under another
  profile name, no conversation is empty, messages are in the order of their times, and the
  conversations with the latest last message come first.
\<close>

theorem conversations_complete:
  assumes "build_conversations dc db self = Inr convs"
  shows "(image_mset Inr (mset (concat (map cv_messages convs))) = image_mset (\<lambda>(t, r). read_row dc t r) (mset (own_rows dc self db)))
    \<and> (distinct (map cv_contact convs))
    \<and> (\<forall>c \<in> set convs. cv_messages c \<noteq> [] \<and> (\<forall>m \<in> set (cv_messages c). message_contact self m = cv_contact c)
        \<and> canonical_ali_id (Some (cv_contact c)) \<noteq> canonical_ali_id (Some self)
        \<and> sorted (map (\<lambda>m. rank_of dc (mr_created m)) (cv_messages c)) \<and> cv_last_created c = mr_created (last (cv_messages c)))
    \<and> (sorted_wrt (\<lambda>x y. rank_of dc (cv_last_created y) \<le> rank_of dc (cv_last_created x)) convs)"
proof (intro conjI)
  obtain g where g: "group_tables dc self db (list_msg_tables db) [] = Inr g"
    and convs: "convs = sort_reverse (\<lambda>c. rank_of dc (cv_last_created c)) (map (conv_of dc) (filter (\<lambda>g. snd g \<noteq> []) g))"
    using assms by (auto simp: build_conversations_def and_then_Inr_iff)
  note ok = group_tables_rows [OF g]
  have all: "filter (\<lambda>g. snd g \<noteq> []) g = g"
    using ok(1) by (auto simp: group_ok_def filter_id_conv)
  have set: "set convs = conv_of dc ` set g" by (simp add: convs all sort_reverse_def)
  have m: "mset convs = mset (map (conv_of dc) g)" by (simp add: convs all)
  have "mset (concat (map cv_messages convs)) = \<Sum>\<^sub># (image_mset (mset \<circ> cv_messages) (mset convs))"
    by (simp add: mset_concat sum_mset_sum_list [symmetric] comp_def)
  also have "\<dots> = mset (concat (map snd g))"
    by (simp add: m mset_concat sum_mset_sum_list [symmetric] comp_def image_mset.compositionality cv_mset)
  finally show "image_mset Inr (mset (concat (map cv_messages convs)))
      = image_mset (\<lambda>(t, r). read_row dc t r) (mset (own_rows dc self db))"
    using ok(2) by simp
  have "mset (map cv_contact convs) = mset (map fst g)"
    using m by (simp add: comp_def image_mset.compositionality conv_of_def Let_def)
  then show "distinct (map cv_contact convs)"
    using ok(1) unfolding group_ok_def by (metis mset_eq_imp_distinct_iff)
  show "sorted_wrt (\<lambda>x y. rank_of dc (cv_last_created y) \<le> rank_of dc (cv_last_created x)) convs"
    unfolding convs by (rule sorted_sort_reverse)
  show "\<forall>c \<in> set convs. cv_messages c \<noteq> [] \<and> (\<forall>m \<in> set (cv_messages c). message_contact self m = cv_contact c)
        \<and> canonical_ali_id (Some (cv_contact c)) \<noteq> canonical_ali_id (Some self)
        \<and> sorted (map (\<lambda>m. rank_of dc (mr_created m)) (cv_messages c)) \<and> cv_last_created c = mr_created (last (cv_messages c))"
  proof
    fix c assume "c \<in> set convs"
    then obtain a ms where a: "(a, ms) \<in> set g" "c = conv_of dc (a, ms)" using set by auto
    then have grp: "ms \<noteq> []" "\<forall>m \<in> set ms. message_contact self m = a" using ok(1) unfolding group_ok_def by blast+
    have "a \<noteq> []"
      using ok(1) own_group [OF g a(1)] by simp
    moreover obtain m where "m \<in> set ms" using grp(1) by (cases ms) auto
    ultimately have "canonical_ali_id (Some a) \<noteq> canonical_ali_id (Some self)"
      using grp(2) contact_is_other [of "mr_cid m" self a] by (auto simp: message_contact_def)
    then show "cv_messages c \<noteq> [] \<and> (\<forall>m \<in> set (cv_messages c). message_contact self m = cv_contact c)
        \<and> canonical_ali_id (Some (cv_contact c)) \<noteq> canonical_ali_id (Some self)
        \<and> sorted (map (\<lambda>m. rank_of dc (mr_created m)) (cv_messages c)) \<and> cv_last_created c = mr_created (last (cv_messages c))"
      using grp by (simp add: a(2) conv_of_def sort_messages_def Let_def flip: set_empty)
  qed
qed

text \<open>
  One extension that is JSON but not an object, in any conversation of the account, makes the reading of all of them
  fail. (\<^verbatim>\<open>source_messages.py\<close> marks such a row as not valid and goes on.)
\<close>

lemma group_rows_bad:
  "r \<in> set rs \<Longrightarrow> row_contact dc self r \<noteq> [] \<Longrightarrow> read_row dc t r = Inl e \<Longrightarrow> \<exists>e. group_rows dc self t rs g = Inl e"
proof (induction rs arbitrary: g)
  case (Cons a rs)
  show ?case
  proof (cases "group_rows dc self t (a # rs) g")
    case (Inr g')
    from group_rows_fold [OF this] obtain ms where
      ms: "map (read_row dc t) (filter (\<lambda>r. row_contact dc self r \<noteq> []) (a # rs)) = map Inr ms" by blast
    have "read_row dc t r \<in> set (map (read_row dc t) (filter (\<lambda>r. row_contact dc self r \<noteq> []) (a # rs)))"
      using Cons.prems(1,2) unfolding set_map set_filter by (intro imageI) blast
    then show ?thesis unfolding ms using Cons.prems(3) by auto
  qed blast
qed simp

lemma group_tables_bad:
  "t \<in> set ts \<Longrightarrow> r \<in> set (table_rows db t) \<Longrightarrow> row_contact dc self r \<noteq> [] \<Longrightarrow> read_row dc t r = Inl e
     \<Longrightarrow> \<exists>e. group_tables dc self db ts g = Inl e"
proof (induction ts arbitrary: g)
  case (Cons a ts)
  define rs where "rs = sort_key (\<lambda>r. sql_rank (rw_created r)) (table_rows db a)"
  show ?case
  proof (cases "group_rows dc self a rs g")
    case (Inl x)
    then show ?thesis by (simp add: rs_def)
  next
    case (Inr g')
    then have "t \<noteq> a"
      using group_rows_bad [of r rs dc self t e g] Cons.prems by (auto simp: rs_def)
    then show ?thesis using Cons.IH [of g'] Cons.prems Inr by (simp add: rs_def)
  qed
qed simp

text \<open>
  C24: As soon as one message of the account carries an extension that is JSON but no object, whatever its other columns and
  whichever conversation it is in, no conversation at all can be read: the exception leaves the whole reading.
\<close>

theorem one_extension_stops_all:
  assumes "t \<in> set (list_msg_tables db)" "r \<in> set (table_rows db t)" "row_contact dc self r \<noteq> []"
    and "rw_extension r = PStr s" "s \<noteq> []" "dc_loads dc s = Inr v" "\<not> is_dict v"
  shows "\<exists>e. build_conversations dc db self = Inl e"
proof -
  have "read_row dc t r = Inl no_attribute"
    using assms(4-7) by (cases v) (auto simp: read_row_def is_system_message_def message_flag_def basic_message_info_def)
  from group_tables_bad [OF assms(1-3) this, of "[]"] obtain e where
    "group_tables dc self db (list_msg_tables db) [] = Inl e" ..
  then show ?thesis by (simp add: build_conversations_def)
qed

definition demo_decoders :: decoders where
  "demo_decoders = \<lparr>dc_loads = (\<lambda>s. if s = ''[]'' then Inr (PList []) else Inl (Value_Error ''Expecting value'')), dc_repr = (\<lambda>v. []),
     dc_utf8 = (\<lambda>bs. map char_of bs), dc_zone = \<lparr>tz_iso = (\<lambda>s. None), tz_valid = (\<lambda>t. True)\<rparr>, dc_json_text = (\<lambda>v. [])\<rparr>"

definition demo_chat_row :: "string \<Rightarrow> int \<Rightarrow> string \<Rightarrow> raw_row" where
  "demo_chat_row mid stamp extension = \<lparr>rw_cid = PStr ''me-you#1'', rw_mid = PStr mid, rw_sender = PStr ''you@icbu'', rw_created = PInt stamp,
     rw_type = PInt 0, rw_label = PStr ''hi'', rw_extension = PStr extension, rw_content = None\<rparr>"

lemma one_extension_stops_all_witness:
  "\<exists>e. build_conversations demo_decoders [(''msg_1'', [demo_chat_row ''a'' 1 [], demo_chat_row ''b'' 2 ''[]''])] ''me'' = Inl e"
  by (rule one_extension_stops_all [where t = "''msg_1''" and r = "demo_chat_row ''b'' 2 ''[]''" and s = "''[]''" and v = "PList []"])
     code_simp+

lemma demo_reads:
  "isl (build_conversations demo_decoders [(''other'', []), (''msg_1'', [demo_chat_row ''b'' 2 [], demo_chat_row ''a'' 1 []])] ''me'') = False"
  by code_simp

lemma conversations_complete_witness:
  "\<exists>convs. build_conversations demo_decoders [(''other'', []), (''msg_1'', [demo_chat_row ''b'' 2 [], demo_chat_row ''a'' 1 []])] ''me'' = Inr convs
     \<and> distinct (map cv_contact convs)"
proof -
  obtain convs where
    c: "build_conversations demo_decoders [(''other'', []), (''msg_1'', [demo_chat_row ''b'' 2 [], demo_chat_row ''a'' 1 []])] ''me'' = Inr convs"
    using demo_reads by (cases "build_conversations demo_decoders [(''other'', []), (''msg_1'', [demo_chat_row ''b'' 2 [], demo_chat_row ''a'' 1 []])] ''me''") auto
  from conversations_complete [OF c] c show ?thesis by blast
qed

end
