(* ===== verification/Source_Messages.thy ===== *)
theory Source_Messages
  imports Source_Cache_Runs Chat_Source
begin

text \<open>
  The strict observation of one conversation for the verification of a send, \<^verbatim>\<open>shared/backend/source_messages.py\<close>: the
  decrypted copy is read while it is pinned in \<open>Source_Cache\<close>, between two captures of the encrypted source, and the
  result is only valid when nothing moved. It is the snapshot that \<open>Send_Verification\<close> matches a possible send against.

  Parameters: the decoders of \<open>Chat_Source\<close>; what SQLite reads from a copy and its log (None stands for an error of
  SQLite); and the name of the profile directory in the path of a source. The operations of other threads between the
  pin and the last check are not part of the function: it takes the results of both pins, the moments of both captures
  and the files as they are when they are read.
\<close>

record reader =
  rd_decoders :: decoders
  rd_open :: "byte list \<Rightarrow> byte list option \<Rightarrow> chat_db option"
  rd_profile :: "string \<Rightarrow> string"

section \<open>One message\<close>

text \<open>\<^verbatim>\<open>_extension_flags\<close>: system, automatic, and whether the extension could be understood.\<close>

definition flag_names :: "string list" where
  "flag_names = [''systemMessage'', ''autoReply'']"

definition badly_typed :: "(string \<times> pyval) list \<Rightarrow> bool" where
  "badly_typed obj \<longleftrightarrow> (\<exists>n \<in> set flag_names. case map_of obj n of None \<Rightarrow> False | Some v \<Rightarrow> \<not> is_bool v)"

definition flag_set :: "string \<Rightarrow> (string \<times> pyval) list list \<Rightarrow> bool" where
  "flag_set n objs \<longleftrightarrow> (\<exists>obj \<in> set objs. dict_get_none obj n = PBool True)"

definition extension_flags :: "decoders \<Rightarrow> pyval \<Rightarrow> bool \<times> bool \<times> bool" where
  "extension_flags dc raw =
     (case loads_value dc raw of
        Inr (PDict outer) \<Rightarrow>
          (case (case map_of outer ''basicMessageInfo'' of None \<Rightarrow> Inr (PDict []) | Some (PStr s) \<Rightarrow> dc_loads dc s | Some v \<Rightarrow> Inr v) of
             Inr (PDict basic) \<Rightarrow>
               if badly_typed outer \<or> badly_typed basic then (False, False, False)
               else (flag_set ''systemMessage'' [outer, basic], flag_set ''autoReply'' [outer, basic], True)
           | _ \<Rightarrow> (False, False, False))
      | _ \<Rightarrow> (False, False, False))"

definition source_message :: "decoders \<Rightarrow> string \<Rightarrow> raw_row \<Rightarrow> pyval result" where
  "source_message dc table r =
     (let (sys, auto_reply, ok) = extension_flags dc (rw_extension r) in
      case coerce_epoch (dc_zone dc) (rw_created r) of
        FFin stamp \<Rightarrow>
          if rw_mid r = PNone \<or> str_of dc (rw_mid r) = [] \<or> CHR '':'' \<in> set table
          then Inl (Value_Error ''source_invalid_message_id'')
          else Inr (PDict [
            (''id'', PStr (table @ '':'' @ str_of dc (rw_mid r))),
            (''sender_id'', case rw_sender r of PStr s \<Rightarrow> PStr s | _ \<Rightarrow> PStr []),
            (''cid'', rw_cid r), (''created_at'', PFloat (FFin stamp)),
            (''type'', case rw_type r of PInt i \<Rightarrow> PInt i | _ \<Rightarrow> PInt (- 1)),
            (''text'', case rw_label r of PStr s \<Rightarrow> PStr s | _ \<Rightarrow> PStr []),
            (''is_system'', PBool sys), (''is_auto_reply'', PBool auto_reply), (''extension_valid'', PBool ok)])
      | _ \<Rightarrow> Inl (Value_Error ''source_invalid_timestamp''))"

section \<open>The rows of a conversation\<close>

definition source_cids :: "string \<Rightarrow> string \<Rightarrow> string \<Rightarrow> string list" where
  "source_cids profile seller contact =
     (let ids = dedup (if profile = [] then [seller] else [seller, profile])
      in sort (dedup (map (\<lambda>i. i @ ''-'' @ contact) ids @ map (\<lambda>i. contact @ ''-'' @ i) ids)))"

text \<open>\<^verbatim>\<open>cid IN (...) OR substr(cid, 1, instr(cid, '#') - 1) IN (...)\<close>; without a \<^verbatim>\<open>#\<close> the second text is empty.\<close>

definition cid_selected :: "string list \<Rightarrow> pyval \<Rightarrow> bool" where
  "cid_selected cids v =
     (case v of
        PStr c \<Rightarrow> c \<in> set cids \<or> (if CHR ''#'' \<in> set c then takeWhile (\<lambda>x. x \<noteq> CHR ''#'') c else []) \<in> set cids
      | _ \<Rightarrow> False)"

fun read_source_rows :: "decoders \<Rightarrow> string \<Rightarrow> raw_row list \<Rightarrow> pyval list result" where
  "read_source_rows dc table [] = Inr []"
| "read_source_rows dc table (r # rs) =
     and_then (source_message dc table r) (\<lambda>m. and_then (read_source_rows dc table rs) (\<lambda>ms. Inr (m # ms)))"

fun read_source_tables :: "decoders \<Rightarrow> string list \<Rightarrow> chat_db \<Rightarrow> string list \<Rightarrow> pyval list result" where
  "read_source_tables dc cids db [] = Inr []"
| "read_source_tables dc cids db (t # ts) =
     and_then (read_source_rows dc t (filter (\<lambda>r. cid_selected cids (rw_cid r)) (table_rows db t))) (\<lambda>ms.
       and_then (read_source_tables dc cids db ts) (\<lambda>rest. Inr (ms @ rest)))"

definition conversation_messages :: "reader \<Rightarrow> string \<Rightarrow> pinned \<Rightarrow> chat_db \<Rightarrow> pyval list result" where
  "conversation_messages rd contact p db =
     read_source_tables (rd_decoders rd) (source_cids (rd_profile rd (pn_source_path p)) (pn_seller p) contact) db (list_msg_tables db)"

section \<open>The observation\<close>

definition origin_of :: "string \<Rightarrow> string \<Rightarrow> string \<Rightarrow> pyval" where
  "origin_of seller data_dir path = PDict [(''seller'', PStr seller), (''data_dir'', PStr data_dir), (''source_path'', PStr path)]"

definition pinned_origin :: "pinned \<Rightarrow> pyval" where
  "pinned_origin p = origin_of (pn_seller p) (pn_data_dir p) (pn_source_path p)"

definition observation :: "bool \<Rightarrow> string \<Rightarrow> pyval \<Rightarrow> int \<Rightarrow> pytime \<Rightarrow> pyval list \<Rightarrow> (string \<times> pyval) list" where
  "observation valid reason origin revision checked messages =
     [(''valid'', PBool valid), (''reason'', PStr reason), (''origin'', origin), (''source_revision'', PInt revision),
      (''checked_at'', PFloat (FFin checked)), (''messages'', PList messages)]"

definition valid_contact :: "account \<Rightarrow> string \<Rightarrow> bool" where
  "valid_contact ctx contact \<longleftrightarrow> contact \<noteq> [] \<and> CHR ''-'' \<notin> set contact \<and> CHR ''#'' \<notin> set contact \<and> contact \<noteq> ac_seller ctx"

definition read_reason :: "py_error \<Rightarrow> string" where
  "read_reason e = (case e of Value_Error m \<Rightarrow> if m = [] then ''source_invalid'' else m | _ \<Rightarrow> ''source_read_failed'')"

definition full_signature :: "signature \<Rightarrow> fingerprint \<times> word32 option \<times> word32 option" where
  "full_signature c = (fst c, Some (fst (snd c)), Some (snd (snd c)))"

text \<open>From the open copy on; \<open>fail\<close> and \<open>ok\<close> make the result.\<close>

definition read_copy ::
  "reader \<Rightarrow> string \<Rightarrow> (nat \<Rightarrow> disk) \<Rightarrow> nat \<Rightarrow> signature \<Rightarrow> pinned \<Rightarrow> cache_files \<Rightarrow> pinned result \<Rightarrow> string + pyval list" where
  "read_copy rd contact world n' captured p files second =
     (case map_of files (pn_path p) of
        None \<Rightarrow> Inl ''source_read_failed''
      | Some main \<Rightarrow>
          (case rd_open rd main (map_of files (wal_name (pn_path p))) of
             None \<Rightarrow> Inl ''source_read_failed''
           | Some db \<Rightarrow>
               (case conversation_messages rd contact p db of
                  Inl e \<Rightarrow> Inl (read_reason e)
                | Inr messages \<Rightarrow>
                    (case capture_source world n' of
                       None \<Rightarrow> Inl ''source_unreadable''
                     | Some after \<Rightarrow>
                         if after \<noteq> captured then Inl ''source_stale''
                         else (case second of
                                 Inl e \<Rightarrow> Inl (read_reason e)
                               | Inr c \<Rightarrow>
                                   if pinned_origin c \<noteq> pinned_origin p \<or> pn_signature c \<noteq> full_signature captured
                                   then Inl ''source_stale'' else Inr messages)))))"

definition read_source_messages ::
  "reader \<Rightarrow> account \<Rightarrow> string \<Rightarrow> pytime \<Rightarrow> pytime \<Rightarrow> (nat \<Rightarrow> disk) \<Rightarrow> nat \<Rightarrow> nat \<Rightarrow> pinned result \<Rightarrow> cache_files \<Rightarrow> pinned result
     \<Rightarrow> (string \<times> pyval) list" where
  "read_source_messages rd ctx contact now started world n n' first files second =
     (let nowhere = origin_of (ac_seller ctx) (ac_data_dir ctx) [] in
      if \<not> valid_contact ctx contact then observation False ''invalid_contact'' nowhere 0 now []
      else case first of
             Inl e \<Rightarrow> observation False (read_reason e) nowhere 0 now []
           | Inr p \<Rightarrow>
               (case capture_source world n of
                  None \<Rightarrow> observation False ''source_unreadable'' (pinned_origin p) (pn_revision p) now []
                | Some captured \<Rightarrow>
                    if full_signature captured \<noteq> pn_signature p
                    then observation False ''source_stale'' (pinned_origin p) (pn_revision p) now []
                    else (case read_copy rd contact world n' captured p files second of
                            Inl reason \<Rightarrow> observation False reason (pinned_origin p) (pn_revision p) started []
                          | Inr messages \<Rightarrow> observation True ''fresh'' (pinned_origin p) (pn_revision p) started messages)))"

section \<open>Types\<close>

text \<open>What the verification of a send relies on without a check of its own.\<close>

definition typed_message :: "pyval \<Rightarrow> bool" where
  "typed_message m \<longleftrightarrow> is_dict m \<and> nonempty_str (pyval_get m ''id'') \<and> is_str (pyval_get m ''sender_id'') \<and> is_str (pyval_get m ''cid'')
     \<and> finite_number (pyval_get m ''created_at'') \<noteq> None \<and> (\<exists>i. pyval_get m ''type'' = PInt i) \<and> is_str (pyval_get m ''text'')
     \<and> is_bool (pyval_get m ''is_system'') \<and> is_bool (pyval_get m ''is_auto_reply'') \<and> is_bool (pyval_get m ''extension_valid'')"

definition typed_origin :: "pyval \<Rightarrow> bool" where
  "typed_origin v \<longleftrightarrow> (\<forall>k \<in> set origin_keys. is_str (pyval_get v k))"

lemma source_message_typed:
  assumes "source_message dc table r = Inr m" "cid_selected cids (rw_cid r)"
  shows "typed_message m"
proof -
  have "is_str (rw_cid r)" using assms(2) by (cases "rw_cid r") (simp_all add: cid_selected_def)
  moreover obtain stamp sys auto_reply ok where m: "m = PDict [
            (''id'', PStr (table @ '':'' @ str_of dc (rw_mid r))),
            (''sender_id'', case rw_sender r of PStr s \<Rightarrow> PStr s | _ \<Rightarrow> PStr []),
            (''cid'', rw_cid r), (''created_at'', PFloat (FFin stamp)),
            (''type'', case rw_type r of PInt i \<Rightarrow> PInt i | _ \<Rightarrow> PInt (- 1)),
            (''text'', case rw_label r of PStr s \<Rightarrow> PStr s | _ \<Rightarrow> PStr []),
            (''is_system'', PBool sys), (''is_auto_reply'', PBool auto_reply), (''extension_valid'', PBool ok)]"
    using assms(1) by (auto simp: source_message_def split: prod.splits pyfloat.splits if_splits)
  ultimately show ?thesis
    by (simp add: typed_message_def dict_get_none_def split: pyval.split)
qed

lemma source_rows_typed:
  "read_source_rows dc table rs = Inr ms \<Longrightarrow> \<forall>r \<in> set rs. cid_selected cids (rw_cid r) \<Longrightarrow> \<forall>m \<in> set ms. typed_message m"
  by (induction rs arbitrary: ms) (auto simp: and_then_Inr_iff intro: source_message_typed)

lemma source_tables_typed: "read_source_tables dc cids db ts = Inr ms \<Longrightarrow> \<forall>m \<in> set ms. typed_message m"
proof (induction ts arbitrary: ms)
  case (Cons t ts)
  obtain xs ys where x: "read_source_rows dc t (filter (\<lambda>r. cid_selected cids (rw_cid r)) (table_rows db t)) = Inr xs"
    "read_source_tables dc cids db ts = Inr ys" "ms = xs @ ys"
    using Cons.prems by (auto simp: and_then_Inr_iff)
  then show ?case using Cons.IH source_rows_typed [OF x(1), of cids] by auto
qed simp

lemma read_copy_messages:
  assumes "read_copy rd contact world n' captured p files second = Inr ms"
  obtains main db c where "map_of files (pn_path p) = Some main" "rd_open rd main (map_of files (wal_name (pn_path p))) = Some db"
    "conversation_messages rd contact p db = Inr ms" "capture_source world n' = Some captured"
    "second = Inr c" "pinned_origin c = pinned_origin p" "pn_signature c = full_signature captured"
  using assms by (auto simp: read_copy_def split: option.splits sum.splits if_splits)

text \<open>The six fields of every result, and the messages of a valid one.\<close>

lemma observation_fields [simp]:
  "dict_get_none (observation v r orig rv t ms) ''valid'' = PBool v"
  "dict_get_none (observation v r orig rv t ms) ''reason'' = PStr r"
  "dict_get_none (observation v r orig rv t ms) ''origin'' = orig"
  "dict_get_none (observation v r orig rv t ms) ''source_revision'' = PInt rv"
  "dict_get_none (observation v r orig rv t ms) ''checked_at'' = PFloat (FFin t)"
  "dict_get_none (observation v r orig rv t ms) ''messages'' = PList ms"
  by (simp_all add: observation_def dict_get_none_def)

lemma read_source_messages_cases:
  obtains (no) reason orig rv t where "read_source_messages rd ctx contact now started world n n' first files second
      = observation False reason orig rv t []" "typed_origin orig"
  | (yes) p captured ms where "read_source_messages rd ctx contact now started world n n' first files second
      = observation True ''fresh'' (pinned_origin p) (pn_revision p) started ms"
    "first = Inr p" "capture_source world n = Some captured" "full_signature captured = pn_signature p"
    "read_copy rd contact world n' captured p files second = Inr ms" "valid_contact ctx contact"
proof -
  have orig: "typed_origin (origin_of a b c)" for a b c
    by (simp add: typed_origin_def origin_of_def origin_keys_def dict_get_none_def)
  then have "typed_origin (pinned_origin p)" for p by (simp add: pinned_origin_def)
  note typed = this orig
  let ?nowhere = "origin_of (ac_seller ctx) (ac_data_dir ctx) []"
  show thesis
  proof (cases "valid_contact ctx contact")
    case False
    then show thesis by (intro no [OF _ orig]) (simp add: read_source_messages_def)
  next
    case contact: True
    show thesis
    proof (cases first)
      case (Inl e)
      then show thesis using contact by (intro no [OF _ orig]) (simp add: read_source_messages_def)
    next
      case p: (Inr p)
      show thesis
      proof (cases "capture_source world n")
        case None
        then show thesis using contact p by (intro no [OF _ typed(1)]) (simp add: read_source_messages_def)
      next
        case c: (Some captured)
        show thesis
        proof (cases "full_signature captured = pn_signature p")
          case False
          then show thesis using contact p c by (intro no [OF _ typed(1)]) (simp add: read_source_messages_def)
        next
          case True
          then show thesis
          proof (cases "read_copy rd contact world n' captured p files second")
            case (Inl reason)
            then show thesis using contact p c True by (intro no [OF _ typed(1)]) (simp add: read_source_messages_def)
          next
            case (Inr ms)
            then show thesis using contact p c True by (intro yes) (simp_all add: read_source_messages_def)
          qed
        qed
      qed
    qed
  qed
qed
lemma typed_message_sender: "typed_message m \<Longrightarrow> \<exists>b. sender_matches_value (pyval_get m ''sender_id'') seller = Inr b"
  by (cases "pyval_get m ''sender_id''") (auto simp: typed_message_def sender_matches_value_def)

lemma typed_candidate: "typed_message m \<Longrightarrow> \<exists>b. candidate_ok record bl m = Inr b"
  using typed_message_sender [of m "t_seller record"] by (auto simp: candidate_ok_def Let_def and_then_Inr_iff)

lemma typed_candidates: "\<forall>m \<in> set ms. typed_message m \<Longrightarrow> \<exists>cs. candidates record bl ms = Inr cs"
proof (induction ms)
  case (Cons m ms)
  obtain b where b: "candidate_ok record bl m = Inr b" using typed_candidate [of m "record" bl] Cons.prems by auto
  obtain cs where "candidates record bl ms = Inr cs" using Cons by auto
  with b show ?case by simp
qed simp

lemma typed_exclusion:
  assumes "typed_message m"
  shows "\<exists>e. exclusion record bl m xs = Inr e"
proof (induction xs)
  case (Cons x xs)
  have "\<forall>xb. \<exists>cs. candidates x xb [m] = Inr cs"
    using typed_candidates [of "[m]" x] assms by (auto simp del: candidates.simps)
  then obtain f where "candidates x xb [m] = Inr (f xb)" for xb by metis
  with Cons.IH show ?case
    by (simp del: candidates.simps split: option.split)
qed simp

lemma typed_snapshot_matches:
  assumes "dict_get_none snapshot ''messages'' = PList ms" "\<forall>m \<in> set ms. typed_message m"
  shows "\<exists>p. match_outbox record snapshot others = Inr p"
proof -
  { fix b
    obtain cs where cs: "candidates record b ms = Inr cs" using typed_candidates [OF assms(2)] by blast
    then have typed: "\<forall>m \<in> set cs. typed_message m" using assms(2) candidates_Inr [OF cs] by auto
    have "\<exists>e. exclusion record b m others = Inr e" if "m \<in> set cs" for m
      using typed_exclusion typed that by blast
    with cs have "\<exists>cs. candidates record b ms = Inr cs \<and> (\<forall>m \<in> set cs. \<exists>e. exclusion record b m others = Inr e)" by blast }
  note all = this
  show ?thesis
  proof (cases "valid_baseline record")
    case (Some b)
    obtain cs where cs: "candidates record b ms = Inr cs" and ex: "\<forall>m \<in> set cs. \<exists>e. exclusion record b m others = Inr e"
      using all by blast
    show ?thesis
    proof (cases "\<exists>m. cs = [m]")
      case True
      then obtain m e where "cs = [m]" "exclusion record b m others = Inr e" using ex by auto
      then show ?thesis using Some assms(1) cs by (simp add: match_outbox_def Let_def split: option.split)
    next
      case False
      then show ?thesis using Some assms(1) cs by (auto simp: match_outbox_def Let_def split: option.split list.split)
    qed
  qed (simp add: match_outbox_def)
qed

section \<open>The observation and the cache\<close>

lemma pin_facts:
  assumes "pin_source ev ctx s = (Inr p, t)"
  shows "im_cached s = Some (pn_path p)" "pn_path p \<in> fst ` set (im_pins t)" "im_files t = im_files s"
    and "im_revision s = pn_revision p" "(im_fingerprint s, im_crc s, im_wal_crc s) = (Some (fst (pn_signature p)), snd (pn_signature p))"
    and "im_auto s" "im_validation s = K_Valid" "im_key s \<noteq> None" "im_key_owner s = ac_seller ctx" "pn_seller p = ac_seller ctx"
  using assms by (auto simp: pin_source_def case_prod_beta current_context_fields Let_def keys_alist_put split: if_splits option.splits)

lemma pins_used: "p \<in> fst ` set (im_pins s) \<Longrightarrow> p \<in> used_paths s"
  by (simp add: used_paths_def)

text \<open>While the pin of a reader is held, the copy keeps its contents.\<close>

lemma pinned_copy_stays:
  assumes "source_wf s" "p \<in> fst ` set (im_pins s)"
    "(\<lambda>u v. source_step u v \<and> p \<in> fst ` set (im_pins v))\<^sup>*\<^sup>* s t"
  shows "source_wf t" "p \<in> fst ` set (im_pins t)" "same_copy p s t"
proof -
  have "(\<lambda>u v. source_step u v \<and> p \<in> used_paths v)\<^sup>*\<^sup>* s t"
    using assms(3) by (rule rtranclp_mono [THEN predicate2D, rotated]) (auto intro: pins_used)
  from held_copy [OF assms(1) pins_used [OF assms(2)] this]
  show "source_wf t" "same_copy p s t" by simp_all
  show "p \<in> fst ` set (im_pins t)"
    using assms(3,2) by (induction rule: rtranclp_induct) auto
qed

text \<open>
  C34: Every result of the observation is well typed, a failed one is empty, and the verification of a send never raises on it: not
  on a message of any row of any database, whatever types its columns have.
\<close>

theorem observation_well_typed:
  fixes rd ctx contact now started world n n' first files second
  defines "obs \<equiv> read_source_messages rd ctx contact now started world n n' first files second"
  shows "\<exists>valid messages reason revision checked. dict_get_none obs ''valid'' = PBool valid
    \<and> dict_get_none obs ''messages'' = PList messages \<and> (valid \<or> messages = []) \<and> (\<forall>m \<in> set messages. typed_message m)
    \<and> dict_get_none obs ''reason'' = PStr reason \<and> dict_get_none obs ''source_revision'' = PInt revision
    \<and> dict_get_none obs ''checked_at'' = PFloat (FFin checked) \<and> typed_origin (dict_get_none obs ''origin'')
    \<and> (\<forall>record others. \<exists>p. match_outbox record obs others = Inr p)"
proof (cases rule: read_source_messages_cases [of rd ctx contact now started world n n' first files second])
  case (no reason orig rv t)
  then have "\<exists>p. match_outbox r obs others = Inr p" for r others
    using typed_snapshot_matches [of obs "[]"] by (simp add: obs_def)
  with no show ?thesis by (auto simp: obs_def)
next
  case (yes p captured ms)
  have ms: "\<forall>m \<in> set ms. typed_message m"
    using yes(5) source_tables_typed by (elim read_copy_messages) (auto simp: conversation_messages_def)
  then have "\<exists>p. match_outbox r obs others = Inr p" for r others
    using yes(1) typed_snapshot_matches [of obs ms] by (simp add: obs_def)
  moreover have "typed_origin (pinned_origin p)"
    by (simp add: typed_origin_def pinned_origin_def origin_of_def origin_keys_def dict_get_none_def)
  ultimately show ?thesis using yes(1) ms by (auto simp: obs_def)
qed

text \<open>
  C33: A valid observation is exactly what the served copy held when the reader entered, whatever refreshes, resets and account
  changes other threads ran while it was read: its messages are those of the copy's bytes at the moment of the pin; the
  source's signature was the copy's before and after the reading; and at the second check the copy served still has
  that signature, with the key of the account valid.
\<close>

theorem valid_observation_is_pinned_copy:
  assumes "source_step\<^sup>*\<^sup>* (start_source env g saved keys files) s0" "pin_source ev ctx s0 = (Inr p, s)"
    and "(\<lambda>u v. source_step u v \<and> pn_path p \<in> fst ` set (im_pins v))\<^sup>*\<^sup>* s u" "pin_source ev' ctx t = (second, t')"
    and "dict_get_none (read_source_messages rd ctx contact now started world n n' (Inr p) (im_files u) second) ''valid'' = PBool True"
  shows "\<exists>main db ms captured. im_cached s0 = Some (pn_path p) \<and> map_of (im_files s0) (pn_path p) = Some main
    \<and> rd_open rd main (map_of (im_files s0) (wal_name (pn_path p))) = Some db \<and> conversation_messages rd contact p db = Inr ms
    \<and> read_source_messages rd ctx contact now started world n n' (Inr p) (im_files u) second
        = observation True ''fresh'' (pinned_origin p) (im_revision s0) started ms
    \<and> capture_source world n = Some captured \<and> capture_source world n' = Some captured
    \<and> (im_fingerprint s0, im_crc s0, im_wal_crc s0) = (Some (fst captured), Some (fst (snd captured)), Some (snd (snd captured)))
    \<and> (im_fingerprint t, im_crc t, im_wal_crc t) = (im_fingerprint s0, im_crc s0, im_wal_crc s0)
    \<and> im_validation t = K_Valid \<and> im_key t \<noteq> None \<and> im_key_owner t = ac_seller ctx"
proof -
  have "source_wf s"
    using source_cache.steps_inv [OF assms(1) start_source_ok] pin_step(1) [of s0 ev ctx] assms(2) by simp
  from pinned_copy_stays(3) [OF this pin_facts(2) [OF assms(2)] assms(3)] pin_facts(3) [OF assms(2)]
  have files: "map_of (im_files u) (pn_path p) = map_of (im_files s0) (pn_path p)"
    "map_of (im_files u) (wal_name (pn_path p)) = map_of (im_files s0) (wal_name (pn_path p))"
    by (simp_all add: same_copy_def)
  obtain captured ms where obs: "read_source_messages rd ctx contact now started world n n' (Inr p) (im_files u) second
      = observation True ''fresh'' (pinned_origin p) (pn_revision p) started ms"
    and c: "capture_source world n = Some captured" "full_signature captured = pn_signature p"
    and read: "read_copy rd contact world n' captured p (im_files u) second = Inr ms"
    by (rule read_source_messages_cases [of rd ctx contact now started world n n' "Inr p" "im_files u" second])
      (use assms(5) in auto)
  from read obtain main db q where copy: "map_of (im_files u) (pn_path p) = Some main"
    "rd_open rd main (map_of (im_files u) (wal_name (pn_path p))) = Some db" "conversation_messages rd contact p db = Inr ms"
    and later: "capture_source world n' = Some captured" "second = Inr q" "pn_signature q = full_signature captured"
    by (elim read_copy_messages) blast
  note first = pin_facts [OF assms(2)]
  have "pin_source ev' ctx t = (Inr q, t')" using assms(4) later(2) by simp
  note again = pin_facts [OF this]
  have "(im_fingerprint s0, im_crc s0, im_wal_crc s0) = (Some (fst captured), Some (fst (snd captured)), Some (snd (snd captured)))"
    using first(5) unfolding c(2) [symmetric] by (simp add: full_signature_def)
  moreover have "(im_fingerprint t, im_crc t, im_wal_crc t) = (im_fingerprint s0, im_crc s0, im_wal_crc s0)"
    using again(5) first(5) c(2) later(3) by simp
  ultimately show ?thesis
    using obs c copy later first(1,4) again(7,8,9) by (simp add: files)
qed

section \<open>Witnesses\<close>

definition demo_source_reader :: reader where
  "demo_source_reader = \<lparr>rd_decoders = demo_decoders, rd_open = (\<lambda>main wal. Some [(''msg_1'', [demo_chat_row ''a'' 1 []])]), rd_profile = (\<lambda>_. ''me'')\<rparr>"

definition demo_signature :: signature where
  "demo_signature = ((1, 32, 0, 0, 0), crc_of demo_main, 0)"

lemma demo_source_capture: "capture_source (ev_world demo_world) n = Some demo_signature"
  by (simp add: capture_source_def source_fingerprint_def main_crc_def wal_crc_def demo_world_def demo_disk_def demo_signature_def)

lemma demo_served_signature:
  "im_fingerprint demo_served = Some (fst demo_signature)" "im_crc demo_served = Some (fst (snd demo_signature))"
  "im_wal_crc demo_served = Some (snd (snd demo_signature))"
  "im_validation demo_served = K_Valid" "im_auto demo_served" "im_key demo_served \<noteq> None" "im_key_owner demo_served = ''7''"
  "im_data_dir demo_served = Some ''/d''" "g_config (im_gui demo_served) = (''7'', ''/d'')"
  by (simp_all add: source_evaluation refresh_evaluation demo_main_def sqlite_magic_def Let_def demo_signature_def
      unlink_files_def protected_names_def with_sidecars_def is_cache_name_def has_prefix_def)

definition demo_pinned :: pinned where
  "demo_pinned = \<lparr>pn_path = cache_path_for ''7'' ''f'', pn_seller = ''7'', pn_data_dir = ''/d'', pn_source_path = ''/d7'', pn_revision = 5,
     pn_signature = full_signature demo_signature\<rparr>"

lemma demo_now: "ac_seller (fst (current_context demo_world demo_served)) = ''7''"
  "ac_data_dir (fst (current_context demo_world demo_served)) = ''/d''"
  using demo_served_signature(9) by (simp_all add: current_context_def get_account_context_def demo_world_def case_prod_beta Let_def split: option.split)

lemma demo_pin: "\<exists>t. pin_source demo_world demo_reader demo_served = (Inr demo_pinned, t)"
  by (simp add: pin_source_def case_prod_beta Let_def same_scope_def demo_now current_context_fields demo_served_signature demo_served_fields
      demo_reader_def demo_pinned_def full_signature_def) (simp add: demo_world_def)

abbreviation demo_observation :: "(string \<times> byte list) list \<Rightarrow> (string \<times> pyval) list" where
  "demo_observation files \<equiv> read_source_messages demo_source_reader demo_reader ''you'' 3 4 (ev_world demo_world) 0 9 (Inr demo_pinned) files (Inr demo_pinned)"

lemma demo_source_messages: "\<exists>m. conversation_messages demo_source_reader ''you'' demo_pinned [(''msg_1'', [demo_chat_row ''a'' 1 []])] = Inr [m]"
proof -
  let ?db = "[(''msg_1'', [demo_chat_row ''a'' 1 []])]"
  have "(case read_source_tables demo_decoders (source_cids ''me'' ''7'' ''you'') ?db (list_msg_tables ?db) of Inr [m] \<Rightarrow> True | _ \<Rightarrow> False)"
    by code_simp
  then show ?thesis
    by (auto simp: conversation_messages_def demo_source_reader_def demo_pinned_def split: sum.splits list.splits)
qed

lemma demo_valid:
  "map_of files (pn_path demo_pinned) \<noteq> None \<Longrightarrow> dict_get_none (demo_observation files) ''valid'' = PBool True"
  using demo_source_messages
  by (auto simp: read_source_messages_def valid_contact_def demo_reader_def demo_source_capture read_copy_def demo_source_reader_def
      demo_pinned_def Let_def)

lemma observation_well_typed_witness:
  "\<exists>m. dict_get_none (demo_observation (im_files demo_served)) ''messages'' = PList m \<and> (\<forall>x \<in> set m. typed_message x)"
  using observation_well_typed [of demo_source_reader demo_reader "''you''" 3 4 "ev_world demo_world" 0 9 "Inr demo_pinned" "im_files demo_served"
      "Inr demo_pinned"] by blast

lemma valid_observation_is_pinned_copy_witness:
  "\<exists>ms. demo_observation (im_files demo_served) = observation True ''fresh'' (pinned_origin demo_pinned) 5 4 ms"
proof -
  obtain t where t: "pin_source demo_world demo_reader demo_served = (Inr demo_pinned, t)" using demo_pin by blast
  have "map_of (im_files demo_served) (pn_path demo_pinned) \<noteq> None"
    by (simp add: demo_served_fields demo_pinned_def)
  note v = demo_valid [OF this]
  have "im_files t = im_files demo_served" using pin_step(2) [OF source_cache.steps_inv [OF demo_steps [unfolded demo_cache_def] start_source_ok],
      of demo_world demo_reader] t by simp
  note v = v [folded this]
  from valid_observation_is_pinned_copy [OF demo_steps [unfolded demo_cache_def] t rtranclp.rtrancl_refl t v] show ?thesis
    using \<open>im_files t = im_files demo_served\<close> by (auto simp: demo_served_fields)
qed

end
