(* ===== verification/User_Pool.thy ===== *)
theory User_Pool
  imports Identities
begin

text \<open>
  The pools of captured profiles and cards, \<^verbatim>\<open>shared/mitm/pool.py\<close>: a dictionary in memory and a table behind it, under one lock.
  An entry of a profile is a record of its identifiers and the dictionary of its other fields in the order of their
  declaration; a row of a table whose JSON does not fit the model is None. \<^verbatim>\<open>INSERT OR REPLACE\<close> puts a row at the
  end of the table, and a table is read in that order.
\<close>

section \<open>Profiles\<close>

record user_info =
  ui_ali_id :: string
  ui_member_id :: string
  ui_login_id :: string
  ui_encrypt_id :: string
  ui_rest :: "(string \<times> pyval) list"

definition user_defaults :: "(string \<times> pyval) list" where
  "user_defaults =
     [(''first_name'', PStr []), (''last_name'', PStr []), (''country_code'', PStr []), (''company_name'', PStr []),
      (''register_date'', PInt 0), (''email'', PStr []), (''mobile_number'', PStr []), (''phone_number'', PStr []),
      (''product_view_count'', PInt 0), (''valid_inquiry_count'', PInt 0), (''replied_inquiry_count'', PInt 0),
      (''valid_rfq_count'', PInt 0), (''login_days'', PInt 0), (''spam_inquiry_count'', PInt 0),
      (''blacklisted_count'', PInt 0), (''high_quality_level_tag'', PStr []), (''growth_level'', PStr []),
      (''preferred_industries'', PList []), (''available'', PBool True), (''joining_years'', PInt 0),
      (''potential_score'', PInt 0), (''recent_contact'', PBool False), (''email_validated'', PBool False)]"

fun is_empty_value :: "pyval \<Rightarrow> bool" where
  "is_empty_value PNone = True"
| "is_empty_value (PStr s) = (s = [])"
| "is_empty_value (PList xs) = (xs = [])"
| "is_empty_value v = False"

text \<open>\<^verbatim>\<open>str.isdigit\<close> below 256: the digits and the three superscripts.\<close>

definition py_isdigit :: "string \<Rightarrow> bool" where
  "py_isdigit s \<longleftrightarrow> s \<noteq> [] \<and> (\<forall>c \<in> set s. ascii_digit c \<or> (of_char c :: nat) \<in> {178, 179, 185})"

definition merge_text :: "string \<Rightarrow> string \<Rightarrow> string" where
  "merge_text old new = (if new = [] then old else if old \<noteq> [] then old else new)"

definition merge_ali_id :: "string \<Rightarrow> string \<Rightarrow> string" where
  "merge_ali_id old new = (if new = [] then old else if old = [] \<or> \<not> py_isdigit old then new else old)"

definition merge_value :: "pyval \<Rightarrow> pyval \<Rightarrow> pyval" where
  "merge_value old new = (if is_empty_value new then old else if \<not> is_empty_value old then old else new)"

definition merge_user_info :: "user_info \<Rightarrow> user_info \<Rightarrow> user_info" where
  "merge_user_info old new =
     \<lparr>ui_ali_id = merge_ali_id (ui_ali_id old) (ui_ali_id new),
      ui_member_id = merge_text (ui_member_id old) (ui_member_id new),
      ui_login_id = merge_text (ui_login_id old) (ui_login_id new),
      ui_encrypt_id = merge_text (ui_encrypt_id old) (ui_encrypt_id new),
      ui_rest = map (\<lambda>(k, v). (k, case map_of (ui_rest new) k of None \<Rightarrow> v | Some w \<Rightarrow> merge_value v w)) (ui_rest old)\<rparr>"

section \<open>The pool of profiles\<close>

record user_pool =
  up_data :: "(string \<times> user_info) list"
  up_index :: "(string \<times> string) list"
  up_table :: "(string \<times> user_info option) list"

definition save_model :: "'k \<Rightarrow> 'v \<Rightarrow> ('k \<times> 'v option) list \<Rightarrow> ('k \<times> 'v option) list" where
  "save_model key v t = alist_del key t @ [(key, Some v)]"

text \<open>\<^verbatim>\<open>put\<close>: the entry it belongs to and the key that has now.\<close>

definition by_login :: "string \<Rightarrow> user_pool \<Rightarrow> user_info option \<times> string" where
  "by_login login p =
     (case map_of (up_index p) login of
        None \<Rightarrow> (None, [])
      | Some k \<Rightarrow> if k = [] then (None, []) else (map_of (up_data p) k, k))"

definition existing_entry :: "user_info \<Rightarrow> user_pool \<Rightarrow> user_info option \<times> string" where
  "existing_entry info p =
     (if ui_ali_id info \<noteq> [] then
        (if map_of (up_data p) (ui_ali_id info) = None \<and> ui_login_id info \<noteq> []
            \<and> snd (by_login (ui_login_id info) p) \<noteq> []
         then by_login (ui_login_id info) p
         else (map_of (up_data p) (ui_ali_id info), ui_ali_id info))
      else if ui_login_id info \<noteq> [] then by_login (ui_login_id info) p else (None, []))"

definition index_login :: "user_info \<Rightarrow> (string \<times> string) list \<Rightarrow> (string \<times> string) list" where
  "index_login info ix = (if ui_login_id info = [] then ix else alist_put (ui_login_id info) (ui_ali_id info) ix)"

definition forget_row :: "string \<Rightarrow> string \<Rightarrow> (string \<times> user_info option) list \<Rightarrow> (string \<times> user_info option) list" where
  "forget_row old_key new_key t = (if old_key \<noteq> [] \<and> old_key \<noteq> new_key then alist_del old_key t else t)"

definition pool_put :: "user_info \<Rightarrow> user_pool \<Rightarrow> user_pool" where
  "pool_put info p =
     (case existing_entry info p of
        (None, old_key) \<Rightarrow>
          if ui_ali_id info = [] \<and> ui_login_id info = [] then p
          else
            (let i = (if ui_ali_id info = [] then info\<lparr>ui_ali_id := ui_login_id info\<rparr> else info)
             in \<lparr>up_data = alist_put (ui_ali_id i) i (up_data p), up_index = index_login i (up_index p),
                 up_table = save_model (ui_ali_id i) i (forget_row old_key (ui_ali_id i) (up_table p))\<rparr>)
      | (Some old, old_key) \<Rightarrow>
          (let i = merge_user_info old info;
               moved = (ui_ali_id i \<noteq> [] \<and> ui_ali_id i \<noteq> old_key);
               kept = (if moved \<and> old_key \<noteq> [] then alist_del old_key (up_data p) else up_data p)
           in \<lparr>up_data = (if ui_ali_id i \<noteq> [] then alist_put (ui_ali_id i) i kept else kept),
               up_index = index_login i (up_index p),
               up_table = save_model (ui_ali_id i) i (forget_row old_key (ui_ali_id i) (up_table p))\<rparr>))"

definition pool_get :: "string \<Rightarrow> user_pool \<Rightarrow> user_info option" where
  "pool_get ali_id p = map_of (up_data p) ali_id"

definition get_by_login_id :: "string \<Rightarrow> user_pool \<Rightarrow> user_info option" where
  "get_by_login_id login p =
     (case map_of (up_index p) login of None \<Rightarrow> None | Some k \<Rightarrow> map_of (up_data p) k)"

definition pool_count :: "user_pool \<Rightarrow> nat" where
  "pool_count p = length (up_data p)"

definition pool_clear :: "user_pool \<Rightarrow> user_pool" where
  "pool_clear p = \<lparr>up_data = [], up_index = [], up_table = []\<rparr>"

text \<open>\<^verbatim>\<open>__new__\<close> and \<^verbatim>\<open>_load_all\<close>: what a new process makes of the table.\<close>

fun load_rows :: "(string \<times> user_info option) list \<Rightarrow> (string \<times> user_info) list \<Rightarrow> (string \<times> string) list
    \<Rightarrow> (string \<times> user_info) list \<times> (string \<times> string) list" where
  "load_rows [] d ix = (d, ix)"
| "load_rows ((k, None) # t) d ix = load_rows t d ix"
| "load_rows ((k, Some i) # t) d ix =
     load_rows t (alist_put k i d) (if ui_login_id i = [] then ix else alist_put (ui_login_id i) k ix)"

definition pool_open :: "(string \<times> user_info option) list \<Rightarrow> user_pool" where
  "pool_open t = (let (d, ix) = load_rows t [] [] in \<lparr>up_data = d, up_index = ix, up_table = t\<rparr>)"

section \<open>The pools of cards\<close>

text \<open>
  \<^verbatim>\<open>_DictPool\<close>, for any kind of item, with the key its subclass reads from an item; the identifiers of a product
  card and of an inquiry card, and their other fields.
\<close>

record 'm dict_pool =
  dp_data :: "(string \<times> 'm) list"
  dp_table :: "(string \<times> 'm option) list"

definition dict_put :: "('m \<Rightarrow> string) \<Rightarrow> 'm \<Rightarrow> 'm dict_pool \<Rightarrow> 'm dict_pool" where
  "dict_put key item p =
     (if key item = [] then p
      else \<lparr>dp_data = alist_put (key item) item (dp_data p), dp_table = save_model (key item) item (dp_table p)\<rparr>)"

definition dict_clear :: "'m dict_pool \<Rightarrow> 'm dict_pool" where
  "dict_clear p = \<lparr>dp_data = [], dp_table = []\<rparr>"

definition dict_count :: "'m dict_pool \<Rightarrow> nat" where
  "dict_count p = length (dp_data p)"

definition parsed_rows :: "(string \<times> 'm option) list \<Rightarrow> (string \<times> 'm) list" where
  "parsed_rows t = List.map_filter (\<lambda>(k, v). map_option (Pair k) v) t"

definition dict_open :: "(string \<times> 'm option) list \<Rightarrow> 'm dict_pool" where
  "dict_open t = \<lparr>dp_data = fold (\<lambda>(k, v). alist_put k v) (parsed_rows t) [], dp_table = t\<rparr>"

record product_card =
  pc_card_id :: string
  pc_product_id :: string
  pc_rest :: "(string \<times> pyval) list"

record inquiry_card =
  ic_inquiry_id :: string
  ic_rest :: "(string \<times> pyval) list"

definition put_product :: "product_card \<Rightarrow> product_card dict_pool \<Rightarrow> product_card dict_pool" where
  "put_product = dict_put pc_card_id"

definition get_product :: "string \<Rightarrow> product_card dict_pool \<Rightarrow> product_card option" where
  "get_product card_id p = map_of (dp_data p) card_id"

definition find_by_product_id :: "string \<Rightarrow> product_card dict_pool \<Rightarrow> product_card option" where
  "find_by_product_id product_id p =
     (if product_id = [] then None else find (\<lambda>c. contains_text product_id (pc_product_id c)) (map snd (dp_data p)))"

definition list_cards :: "product_card dict_pool \<Rightarrow> product_card list" where
  "list_cards p = map snd (dp_data p)"

definition put_inquiry :: "inquiry_card \<Rightarrow> inquiry_card dict_pool \<Rightarrow> inquiry_card dict_pool" where
  "put_inquiry = dict_put ic_inquiry_id"

definition get_inquiry :: "string \<Rightarrow> inquiry_card dict_pool \<Rightarrow> inquiry_card option" where
  "get_inquiry inquiry_id p = (if inquiry_id = [] then None else map_of (dp_data p) inquiry_id)"

text \<open>\<^verbatim>\<open>observe_pools\<close>: the counts of the pools that exist.\<close>

definition observe_pools ::
  "user_pool option \<Rightarrow> product_card dict_pool option \<Rightarrow> inquiry_card dict_pool option \<Rightarrow> (string \<times> nat) list" where
  "observe_pools u p i =
     (case u of None \<Rightarrow> [] | Some x \<Rightarrow> [(''user_info'', pool_count x)])
   @ (case p of None \<Rightarrow> [] | Some x \<Rightarrow> [(''product_cards'', dict_count x)])
   @ (case i of None \<Rightarrow> [] | Some x \<Rightarrow> [(''inquiry_cards'', dict_count x)])"

section \<open>What the pool of profiles keeps\<close>

text \<open>
  Memory and table agree, an entry is filed under its own account id, and a login leads to an entry with that login.
\<close>

definition parsed :: "(string \<times> 'm option) list \<Rightarrow> string \<Rightarrow> 'm option" where
  "parsed t k = (case map_of t k of Some v \<Rightarrow> v | None \<Rightarrow> None)"

definition index_ok :: "(string \<Rightarrow> user_info option) \<Rightarrow> (string \<Rightarrow> string option) \<Rightarrow> bool" where
  "index_ok d ix \<longleftrightarrow> (\<forall>l k. ix l = Some k \<longrightarrow> l \<noteq> [] \<and> (\<exists>i. d k = Some i \<and> ui_login_id i = l))
     \<and> (\<forall>k i. d k = Some i \<longrightarrow> ui_login_id i \<noteq> [] \<longrightarrow> ix (ui_login_id i) \<noteq> None)"

definition pool_ok :: "user_pool \<Rightarrow> bool" where
  "pool_ok p \<longleftrightarrow> distinct (map fst (up_table p)) \<and> map_of (up_data p) = parsed (up_table p)
     \<and> (\<forall>k i. map_of (up_data p) k = Some i \<longrightarrow> k \<noteq> [] \<and> ui_ali_id i = k)
     \<and> index_ok (map_of (up_data p)) (map_of (up_index p))"

lemma map_of_save [simp]: "map_of (save_model k v t) = (map_of t)(k \<mapsto> Some v)"
  by (auto simp: save_model_def map_add_def fun_eq_iff split: option.split)

lemma parsed_save [simp]: "parsed (save_model k v t) = (parsed t)(k \<mapsto> v)"
  by (auto simp: parsed_def fun_eq_iff)

lemma parsed_del: "parsed (alist_del k t) = (parsed t)(k := None)"
  by (auto simp: parsed_def fun_eq_iff)

lemma distinct_save [simp]: "distinct (map fst t) \<Longrightarrow> distinct (map fst (save_model k v t))"
  by (simp add: save_model_def keys_alist_del)

lemma distinct_forget [simp]: "distinct (map fst t) \<Longrightarrow> distinct (map fst (forget_row old k t))"
  by (simp add: forget_row_def)

lemma merge_ali: "ui_ali_id (merge_user_info old new) = merge_ali_id (ui_ali_id old) (ui_ali_id new)"
  and merge_login: "ui_login_id (merge_user_info old new) = merge_text (ui_login_id old) (ui_login_id new)"
  by (simp_all add: merge_user_info_def)

text \<open>Where an entry is found: under the account id, or under the login when there is none.\<close>

lemma existing_cases:
  assumes "pool_ok p" "existing_entry info p = (r, key)"
  shows "(\<exists>old. r = Some old \<and> map_of (up_data p) key = Some old \<and> key \<noteq> []
           \<and> (key = ui_ali_id info \<or> (ui_login_id info \<noteq> [] \<and> ui_login_id old = ui_login_id info
                \<and> map_of (up_data p) (ui_ali_id info) = None)))
      \<or> (r = None \<and> key \<in> {[], ui_ali_id info} \<and> map_of (up_data p) (ui_ali_id info) = None)"
proof -
  have login: "\<exists>i. map_of (up_data p) k = Some i \<and> ui_login_id i = ui_login_id info"
    if "map_of (up_index p) (ui_login_id info) = Some k" for k
    using assms(1) that unfolding pool_ok_def index_ok_def by blast
  have none: "map_of (up_data p) [] = None"
    using assms(1) unfolding pool_ok_def by (metis not_Some_eq)
  have found: "by_login (ui_login_id info) p = (r, key) \<Longrightarrow> key \<noteq> [] \<Longrightarrow> ui_login_id info \<noteq> [] \<Longrightarrow>
      map_of (up_data p) (ui_ali_id info) = None \<Longrightarrow>
      \<exists>old. r = Some old \<and> map_of (up_data p) key = Some old \<and> key \<noteq> []
           \<and> (key = ui_ali_id info \<or> (ui_login_id info \<noteq> [] \<and> ui_login_id old = ui_login_id info
                \<and> map_of (up_data p) (ui_ali_id info) = None))"
    using login [of key] by (simp add: by_login_def split: option.splits if_splits) metis
  have miss: "by_login (ui_login_id info) p = (r, []) \<Longrightarrow> r = None"
    by (auto simp: by_login_def split: option.splits if_splits)
  show ?thesis
  proof (cases "ui_ali_id info = []")
    case True
    then have "(ui_login_id info \<noteq> [] \<and> by_login (ui_login_id info) p = (r, key)) \<or> (ui_login_id info = [] \<and> r = None \<and> key = [])"
      using assms(2) by (auto simp: existing_entry_def split: if_splits)
    then show ?thesis using found miss none True by (cases "key = []") auto
  next
    case False
    show ?thesis
    proof (cases "map_of (up_data p) (ui_ali_id info) = None \<and> ui_login_id info \<noteq> [] \<and> snd (by_login (ui_login_id info) p) \<noteq> []")
      case True
      then have "by_login (ui_login_id info) p = (r, key)" using assms(2) False by (simp add: existing_entry_def)
      then show ?thesis using found True by (metis snd_conv)
    next
      case no: False
      then have "r = map_of (up_data p) (ui_ali_id info)" "key = ui_ali_id info"
        using assms(2) False by (auto simp: existing_entry_def split: if_splits)
      then show ?thesis using False by (cases r) auto
    qed
  qed
qed

text \<open>Every put files one entry: the shape of the next pool.\<close>

definition filed :: "user_pool \<Rightarrow> string \<Rightarrow> user_info \<Rightarrow> user_pool \<Rightarrow> bool" where
  "filed p key i q \<longleftrightarrow> ui_ali_id i \<noteq> []
     \<and> map_of (up_data q) = (map_of (up_data p))(key := None, ui_ali_id i := Some i)
     \<and> parsed (up_table q) = (parsed (up_table p))(key := None, ui_ali_id i := Some i)
     \<and> (distinct (map fst (up_table p)) \<longrightarrow> distinct (map fst (up_table q)))
     \<and> up_index q = index_login i (up_index p)"

lemma put_filed:
  assumes "pool_ok p"
  shows "(ui_ali_id info = [] \<and> ui_login_id info = [] \<and> pool_put info p = p)
    \<or> (\<exists>i. filed p (ui_ali_id i) i (pool_put info p)
         \<and> i = (if ui_ali_id info = [] then info\<lparr>ui_ali_id := ui_login_id info\<rparr> else info)
         \<and> map_of (up_data p) (ui_ali_id info) = None
         \<and> (ui_ali_id info = [] \<longrightarrow> map_of (up_index p) (ui_login_id info) = None))
    \<or> (\<exists>key old. map_of (up_data p) key = Some old \<and> key \<noteq> [] \<and> filed p key (merge_user_info old info) (pool_put info p)
         \<and> (key = ui_ali_id info \<or> (ui_login_id info \<noteq> [] \<and> ui_login_id old = ui_login_id info
              \<and> map_of (up_data p) (ui_ali_id info) = None)))"
proof -
  obtain r key where e: "existing_entry info p = (r, key)" by force
  from existing_cases [OF assms e] consider
    (old) old where "r = Some old" "map_of (up_data p) key = Some old" "key \<noteq> []"
        "key = ui_ali_id info \<or> (ui_login_id info \<noteq> [] \<and> ui_login_id old = ui_login_id info
           \<and> map_of (up_data p) (ui_ali_id info) = None)"
    | (new) "r = None" "key \<in> {[], ui_ali_id info}" "map_of (up_data p) (ui_ali_id info) = None" by metis
  then show ?thesis
  proof cases
    case old
    have "ui_ali_id old = key" using assms old(2) unfolding pool_ok_def by blast
    then have ne: "ui_ali_id (merge_user_info old info) \<noteq> []"
      using old(3) by (auto simp: merge_ali merge_ali_id_def)
    have "filed p key (merge_user_info old info) (pool_put info p)"
      using old ne e by (auto simp: filed_def pool_put_def Let_def forget_row_def parsed_del)
    then show ?thesis using old by blast
  next
    case new
    show ?thesis
    proof (cases "ui_ali_id info = [] \<and> ui_login_id info = []")
      case True
      then show ?thesis using e new by (simp add: pool_put_def)
    next
      case False
      define i where "i = (if ui_ali_id info = [] then info\<lparr>ui_ali_id := ui_login_id info\<rparr> else info)"
      have ne: "ui_ali_id i \<noteq> []" using False by (simp add: i_def)
      have "forget_row key (ui_ali_id i) t = t" for t
        using new(2) by (auto simp: forget_row_def i_def)
      then have "filed p (ui_ali_id i) i (pool_put info p)"
        using e new False ne by (auto simp: filed_def pool_put_def Let_def i_def [symmetric])
      moreover have "map_of (up_index p) (ui_login_id info) = None" if "ui_ali_id info = []"
      proof (rule ccontr)
        assume "map_of (up_index p) (ui_login_id info) \<noteq> None"
        then obtain k where k: "map_of (up_index p) (ui_login_id info) = Some k" by blast
        then obtain o' where "map_of (up_data p) k = Some o'" "k \<noteq> []"
          using assms unfolding pool_ok_def index_ok_def by blast
        then show False using e new(1) that k False by (simp add: existing_entry_def by_login_def)
      qed
      ultimately show ?thesis using new i_def by blast
    qed
  qed
qed

text \<open>
  The platform's identifiers, as the comments of \<^verbatim>\<open>put\<close> and of the merge state them: an account id is a numeral, a login is none.
  An entry whose id is still the login is waiting for its id.
\<close>

definition real_info :: "user_info \<Rightarrow> bool" where
  "real_info i \<longleftrightarrow> (ui_ali_id i = [] \<or> py_isdigit (ui_ali_id i)) \<and> \<not> py_isdigit (ui_login_id i)"

definition pool_ids_ok :: "user_pool \<Rightarrow> bool" where
  "pool_ids_ok p \<longleftrightarrow> (\<forall>k i. map_of (up_data p) k = Some i \<longrightarrow> (py_isdigit k \<or> k = ui_login_id i) \<and> \<not> py_isdigit (ui_login_id i))"

definition pool_inv :: "user_pool \<Rightarrow> bool" where
  "pool_inv p \<longleftrightarrow> pool_ok p \<and> pool_ids_ok p"

lemma pool_okD:
  assumes "pool_ok p"
  shows "map_of (up_data p) k = Some i \<Longrightarrow> k \<noteq> [] \<and> ui_ali_id i = k"
    and "map_of (up_index p) l = Some k \<Longrightarrow> l \<noteq> [] \<and> (\<exists>i. map_of (up_data p) k = Some i \<and> ui_login_id i = l)"
    and "map_of (up_data p) k = Some i \<Longrightarrow> ui_login_id i \<noteq> [] \<Longrightarrow> map_of (up_index p) (ui_login_id i) \<noteq> None"
    and "map_of (up_data p) = parsed (up_table p)" "distinct (map fst (up_table p))"
  using assms unfolding pool_ok_def index_ok_def by blast+

lemma map_of_index_login:
  "map_of (index_login i ix) = (if ui_login_id i = [] then map_of ix else (map_of ix)(ui_login_id i \<mapsto> ui_ali_id i))"
  by (simp add: index_login_def)

text \<open>Filing an entry keeps the agreement when no other entry had the key, and its login stays known.\<close>

lemma filed_ok:
  assumes "pool_ok p" "filed p key i q"
    and "ui_ali_id i \<noteq> key \<Longrightarrow> map_of (up_data p) (ui_ali_id i) = None"
    and "\<And>old. map_of (up_data p) key = Some old \<Longrightarrow> ui_login_id old \<noteq> [] \<Longrightarrow> ui_login_id i = ui_login_id old"
  shows "pool_ok q"
proof -
  note f = assms(2) [unfolded filed_def]
  have data: "map_of (up_data q) k = Some j \<longleftrightarrow>
      (if k = ui_ali_id i then j = i else k \<noteq> key \<and> map_of (up_data p) k = Some j)" for k j
    using f by auto
  have k1: "k \<noteq> [] \<and> ui_ali_id j = k" if "map_of (up_data q) k = Some j" for k j
    using that f pool_okD(1) [OF assms(1)] by (auto simp: data split: if_splits)
  have k2: "l \<noteq> [] \<and> (\<exists>j. map_of (up_data q) k = Some j \<and> ui_login_id j = l)"
    if l: "map_of (up_index q) l = Some k" for l k
  proof (cases "l = ui_login_id i \<and> l \<noteq> []")
    case True
    then have "k = ui_ali_id i" using l f by (auto simp: map_of_index_login split: if_splits)
    then show ?thesis using True data by auto
  next
    case False
    then have "map_of (up_index p) l = Some k" using l f by (auto simp: map_of_index_login split: if_splits)
    from pool_okD(2) [OF assms(1) this] obtain j where j: "l \<noteq> []" "map_of (up_data p) k = Some j" "ui_login_id j = l" by blast
    have "k \<noteq> key" using assms(4) [of j] j False by auto
    moreover have "k \<noteq> ui_ali_id i" using assms(3) \<open>k \<noteq> key\<close> j(2) by auto
    ultimately show ?thesis using j by (simp add: data)
  qed
  have k3: "map_of (up_index q) (ui_login_id j) \<noteq> None"
    if "map_of (up_data q) k = Some j" "ui_login_id j \<noteq> []" for k j
    using that f pool_okD(3) [OF assms(1)] by (auto simp: data map_of_index_login split: if_splits)
  have "index_ok (map_of (up_data q)) (map_of (up_index q))"
    unfolding index_ok_def using k2 k3 by blast
  moreover have "map_of (up_data q) = parsed (up_table q)" "distinct (map fst (up_table q))"
    using f pool_okD(4,5) [OF assms(1)] by simp_all
  ultimately show ?thesis unfolding pool_ok_def using k1 by blast
qed

lemma merge_moves:
  assumes "ui_ali_id (merge_user_info old new) \<noteq> ui_ali_id old"
  shows "ui_ali_id (merge_user_info old new) = ui_ali_id new" "ui_ali_id old = [] \<or> \<not> py_isdigit (ui_ali_id old)"
    "ui_ali_id new \<noteq> []"
  using assms by (auto simp: merge_ali merge_ali_id_def split: if_splits)

lemma merge_login_cases:
  "ui_login_id (merge_user_info old new) = ui_login_id old
     \<or> (ui_login_id old = [] \<and> ui_login_id (merge_user_info old new) = ui_login_id new)"
  by (simp add: merge_login merge_text_def)

text \<open>A put either adds an entry under a key nobody has, or merges into one entry, which may get its id then.\<close>

lemma put_cases:
  assumes "pool_inv p" "real_info info"
  obtains (same) "pool_put info p = p"
  | (new) i where "filed p (ui_ali_id i) i (pool_put info p)" "map_of (up_data p) (ui_ali_id i) = None"
      "py_isdigit (ui_ali_id i) \<or> ui_ali_id i = ui_login_id i" "\<not> py_isdigit (ui_login_id i)"
  | (merged) key old where "map_of (up_data p) key = Some old" "filed p key (merge_user_info old info) (pool_put info p)"
      "ui_ali_id old = key" "ui_ali_id (merge_user_info old info) \<noteq> key \<Longrightarrow>
         map_of (up_data p) (ui_ali_id (merge_user_info old info)) = None \<and> \<not> py_isdigit key"
proof -
  have ok: "pool_ok p" and ids: "pool_ids_ok p" using assms(1) by (simp_all add: pool_inv_def)
  from put_filed [OF ok, of info] consider
    (a) "pool_put info p = p"
    | (b) i where "filed p (ui_ali_id i) i (pool_put info p)"
         "i = (if ui_ali_id info = [] then info\<lparr>ui_ali_id := ui_login_id info\<rparr> else info)"
         "map_of (up_data p) (ui_ali_id info) = None" "ui_ali_id info = [] \<longrightarrow> map_of (up_index p) (ui_login_id info) = None"
    | (c) key old where "map_of (up_data p) key = Some old" "key \<noteq> []"
         "filed p key (merge_user_info old info) (pool_put info p)"
         "key = ui_ali_id info \<or> map_of (up_data p) (ui_ali_id info) = None" by blast
  then show thesis
  proof cases
    case a
    then show thesis by (rule same)
  next
    case b
    have "map_of (up_data p) (ui_ali_id i) = None"
    proof (cases "ui_ali_id info = []")
      case True
      show ?thesis
      proof (rule ccontr)
        assume "map_of (up_data p) (ui_ali_id i) \<noteq> None"
        then obtain j where j: "map_of (up_data p) (ui_login_id info) = Some j" using True b(2) by auto
        then have "py_isdigit (ui_login_id info) \<or> ui_login_id info = ui_login_id j" "ui_login_id info \<noteq> []"
          using ids pool_okD(1) [OF ok j] unfolding pool_ids_ok_def by blast+
        then have "ui_login_id j = ui_login_id info" "ui_login_id info \<noteq> []"
          using assms(2) by (simp_all add: real_info_def)
        then show False using pool_okD(3) [OF ok j] b(4) True by simp
      qed
    qed (use b in simp)
    moreover have "py_isdigit (ui_ali_id i) \<or> ui_ali_id i = ui_login_id i" "\<not> py_isdigit (ui_login_id i)"
      using assms(2) b(2) by (auto simp: real_info_def)
    ultimately show thesis using b(1) new by blast
  next
    case c
    have key: "ui_ali_id old = key" using pool_okD(1) [OF ok c(1)] by blast
    moreover have "map_of (up_data p) (ui_ali_id (merge_user_info old info)) = None \<and> \<not> py_isdigit key"
      if "ui_ali_id (merge_user_info old info) \<noteq> key"
      using merge_moves [of old info] that c(2,4) key by auto
    ultimately show thesis using c(1,3) merged by blast
  qed
qed

lemma ids_filed:
  assumes "pool_ids_ok p" "filed p key i q" "py_isdigit (ui_ali_id i) \<or> ui_ali_id i = ui_login_id i"
    "\<not> py_isdigit (ui_login_id i)"
  shows "pool_ids_ok q"
  unfolding pool_ids_ok_def
proof (intro allI impI)
  fix k j assume "map_of (up_data q) k = Some j"
  then have "(k = ui_ali_id i \<and> j = i) \<or> map_of (up_data p) k = Some j"
    using assms(2) by (simp add: filed_def split: if_splits)
  then show "(py_isdigit k \<or> k = ui_login_id j) \<and> \<not> py_isdigit (ui_login_id j)"
    using assms(1,3,4) unfolding pool_ids_ok_def by blast
qed

lemma put_inv:
  assumes "pool_inv p" "real_info info"
  shows "pool_inv (pool_put info p)"
  using assms
proof (cases rule: put_cases)
  case (new i)
  have "pool_ok (pool_put info p)"
    by (rule filed_ok [OF _ new(1)]) (use assms(1) new(2) in \<open>simp_all add: pool_inv_def\<close>)
  then show ?thesis using assms(1) ids_filed [OF _ new(1)] new(3,4) by (simp add: pool_inv_def)
next
  case (merged key old)
  let ?i = "merge_user_info old info"
  have login: "ui_login_id old \<noteq> [] \<Longrightarrow> ui_login_id ?i = ui_login_id old" using merge_login_cases [of old info] by auto
  have "pool_ok (pool_put info p)"
    by (rule filed_ok [OF _ merged(2)]) (use assms(1) merged(1,4) login in \<open>auto simp: pool_inv_def\<close>)
  moreover have old: "(py_isdigit key \<or> key = ui_login_id old) \<and> \<not> py_isdigit (ui_login_id old)"
    using assms(1) merged(1) unfolding pool_inv_def pool_ids_ok_def by blast
  have "\<not> py_isdigit (ui_login_id ?i)"
    using merge_login_cases [of old info] old assms(2) by (auto simp: real_info_def)
  moreover have "py_isdigit (ui_ali_id ?i) \<or> ui_ali_id ?i = ui_login_id ?i"
  proof (cases "ui_ali_id ?i = key")
    case True
    have "key \<noteq> []" using assms(1) pool_okD(1) [OF _ merged(1)] by (auto simp: pool_inv_def)
    then show ?thesis using True old login by auto
  next
    case False
    then show ?thesis using merge_moves [of old info] merged(3) assms(2) by (auto simp: real_info_def)
  qed
  ultimately show ?thesis using assms(1) ids_filed [OF _ merged(2)] by (simp add: pool_inv_def)
qed (use assms in simp)

section \<open>A new process\<close>

lemma index_ok_add:
  assumes "index_ok d ix" "d k = None"
  shows "index_ok (d(k \<mapsto> i)) (if ui_login_id i = [] then ix else ix(ui_login_id i \<mapsto> k))"
proof -
  let ?ix = "if ui_login_id i = [] then ix else ix(ui_login_id i \<mapsto> k)"
  have "l \<noteq> [] \<and> (\<exists>j. (d(k \<mapsto> i)) x = Some j \<and> ui_login_id j = l)" if l: "?ix l = Some x" for l x
  proof (cases "l = ui_login_id i \<and> l \<noteq> []")
    case True
    then show ?thesis using l by (auto split: if_splits)
  next
    case False
    then have "ix l = Some x" using l by (auto split: if_splits)
    then obtain j where "l \<noteq> []" "d x = Some j" "ui_login_id j = l" using assms(1) unfolding index_ok_def by blast
    then show ?thesis using assms(2) by (intro conjI exI [of _ j]) auto
  qed
  moreover have "?ix (ui_login_id j) \<noteq> None" if "(d(k \<mapsto> i)) x = Some j" "ui_login_id j \<noteq> []" for x j
  proof (cases "x = k")
    case True
    then show ?thesis using that by simp
  next
    case False
    then have "ix (ui_login_id j) \<noteq> None" using assms(1) that unfolding index_ok_def by simp
    then show ?thesis by simp
  qed
  ultimately show ?thesis unfolding index_ok_def by blast
qed

lemma load_rows_spec:
  assumes "load_rows t d ix = (d', ix')" "distinct (map fst t)" "fst ` set d \<inter> fst ` set t = {}"
    and "index_ok (map_of d) (map_of ix)"
  shows "map_of d' = (\<lambda>k. case parsed t k of Some i \<Rightarrow> Some i | None \<Rightarrow> map_of d k) \<and> index_ok (map_of d') (map_of ix')"
  using assms
proof (induction t d ix rule: load_rows.induct)
  case (1 d ix)
  then show ?case by (simp add: parsed_def)
next
  case (2 k t d ix)
  have "parsed ((k, None) # t) = parsed t"
    using 2(3) by (auto simp: parsed_def fun_eq_iff map_of_eq_None_iff [symmetric] split: option.split)
  moreover have "map_of d' = (\<lambda>k. case parsed t k of Some i \<Rightarrow> Some i | None \<Rightarrow> map_of d k) \<and> index_ok (map_of d') (map_of ix')"
    by (rule 2(1)) (use 2(2-5) in simp_all)
  ultimately show ?case by metis
next
  case (3 k i t d ix)
  let ?d = "alist_put k i d" and ?ix = "if ui_login_id i = [] then ix else alist_put (ui_login_id i) k ix"
  have new: "map_of d k = None" using 3(4) by (auto simp: map_of_eq_None_iff)
  have "map_of d' = (\<lambda>x. case parsed t x of Some j \<Rightarrow> Some j | None \<Rightarrow> map_of ?d x) \<and> index_ok (map_of d') (map_of ix')"
  proof (rule 3(1))
    show "load_rows t ?d ?ix = (d', ix')" using 3(2) by simp
    show "distinct (map fst t)" using 3(3) by simp
    show "fst ` set ?d \<inter> fst ` set t = {}" using 3(3,4) by (auto simp: keys_alist_put)
    show "index_ok (map_of ?d) (map_of ?ix)" using index_ok_add [OF 3(5) new, of i] by (simp split: if_splits)
  qed
  moreover have "(case parsed t x of Some j \<Rightarrow> Some j | None \<Rightarrow> map_of ?d x)
      = (case parsed ((k, Some i) # t) x of Some j \<Rightarrow> Some j | None \<Rightarrow> map_of d x)" for x
    using 3(3) by (auto simp: parsed_def map_of_eq_None_iff [symmetric] split: option.split)
  ultimately show ?case by metis
qed

lemma open_data:
  assumes "distinct (map fst t)"
  shows "map_of (up_data (pool_open t)) = parsed t"
    and "\<forall>k i. parsed t k = Some i \<longrightarrow> k \<noteq> [] \<and> ui_ali_id i = k \<Longrightarrow> pool_ok (pool_open t)"
proof -
  obtain d ix where l: "load_rows t [] [] = (d, ix)" by force
  have spec: "map_of d = parsed t \<and> index_ok (map_of d) (map_of ix)"
  proof -
    have "index_ok (map_of []) (map_of [])" by (simp add: index_ok_def)
    moreover have "(\<lambda>k. case parsed t k of Some i \<Rightarrow> Some i | None \<Rightarrow> map_of [] k) = parsed t"
      by (auto split: option.split)
    ultimately show ?thesis using load_rows_spec [OF l assms] by auto
  qed
  then show data: "map_of (up_data (pool_open t)) = parsed t"
    using l by (simp add: pool_open_def)
  show "pool_ok (pool_open t)" if "\<forall>k i. parsed t k = Some i \<longrightarrow> k \<noteq> [] \<and> ui_ali_id i = k"
    using conjunct1 [OF spec] conjunct2 [OF spec] l that assms unfolding pool_ok_def pool_open_def Let_def
    by (simp only: prod.case user_pool.select_convs)
qed

lemma reopen_inv:
  assumes "pool_inv p"
  shows "pool_inv (pool_open (up_table p))" "map_of (up_data (pool_open (up_table p))) = map_of (up_data p)"
proof -
  have ok: "pool_ok p" using assms by (simp add: pool_inv_def)
  note d = open_data [OF pool_okD(5) [OF ok]]
  show same: "map_of (up_data (pool_open (up_table p))) = map_of (up_data p)"
    by (simp only: d(1) pool_okD(4) [OF ok])
  have "pool_ok (pool_open (up_table p))"
    using d(2) pool_okD(1) [OF ok] unfolding pool_okD(4) [OF ok] by blast
  then show "pool_inv (pool_open (up_table p))"
    using assms same by (simp add: pool_inv_def pool_ids_ok_def)
qed

section \<open>Runs\<close>

text \<open>A captured profile and a restart; the reset of the caches by the user is a step of its own, since it forgets everything.\<close>

inductive capture_step :: "user_pool \<Rightarrow> user_pool \<Rightarrow> bool" where
  po_put: "real_info info \<Longrightarrow> capture_step p (pool_put info p)"
| po_restart: "capture_step p (pool_open (up_table p))"

inductive pool_step :: "user_pool \<Rightarrow> user_pool \<Rightarrow> bool" where
  po_capture: "capture_step p q \<Longrightarrow> pool_step p q"
| po_clear: "pool_step p (pool_clear p)"

text \<open>What a profile already says, a later one of the same account says too; a value counts unless it is empty or zero.\<close>

definition keeps_text :: "string \<Rightarrow> string \<Rightarrow> bool" where
  "keeps_text a b \<longleftrightarrow> a = [] \<or> b = a"

definition keeps :: "user_info \<Rightarrow> user_info \<Rightarrow> bool" where
  "keeps a b \<longleftrightarrow> keeps_text (ui_member_id a) (ui_member_id b) \<and> keeps_text (ui_login_id a) (ui_login_id b)
     \<and> keeps_text (ui_encrypt_id a) (ui_encrypt_id b)
     \<and> (\<forall>f v. map_of (ui_rest a) f = Some v \<longrightarrow> truthy v \<longrightarrow> map_of (ui_rest b) f = Some v)"

definition knows :: "user_pool \<Rightarrow> user_pool \<Rightarrow> bool" where
  "knows p q \<longleftrightarrow> (\<forall>k i. py_isdigit k \<longrightarrow> map_of (up_data p) k = Some i \<longrightarrow> (\<exists>j. map_of (up_data q) k = Some j \<and> keeps i j))"

lemma keeps_refl [simp]: "keeps i i"
  by (simp add: keeps_def keeps_text_def)

lemma keeps_trans: "keeps a b \<Longrightarrow> keeps b c \<Longrightarrow> keeps a c"
  by (auto simp: keeps_def keeps_text_def)

lemma merged_rest:
  "map_of (ui_rest (merge_user_info old new)) f =
     map_option (\<lambda>v. case map_of (ui_rest new) f of None \<Rightarrow> v | Some w \<Rightarrow> merge_value v w) (map_of (ui_rest old) f)"
proof -
  have "map_of (map (\<lambda>(k, v). (k, g k v)) d) f = map_option (g f) (map_of d f)" for g :: "string \<Rightarrow> pyval \<Rightarrow> pyval" and d
    by (induction d) auto
  then show ?thesis by (simp add: merge_user_info_def)
qed

lemma truthy_not_empty: "truthy v \<Longrightarrow> \<not> is_empty_value v"
  by (cases v) simp_all

lemma merge_keeps: "keeps old (merge_user_info old new)"
  unfolding keeps_def merged_rest
  by (auto simp: merge_user_info_def keeps_text_def merge_text_def merge_value_def truthy_not_empty split: option.split)

lemma put_knows:
  assumes "pool_inv p" "real_info info"
  shows "knows p (pool_put info p)"
  using assms
proof (cases rule: put_cases)
  case same
  then show ?thesis by (simp add: knows_def)
next
  case (new i)
  then show ?thesis by (auto simp: knows_def filed_def)
next
  case (merged key old)
  then show ?thesis using merge_keeps [of old info] by (auto simp: knows_def filed_def)
qed

lemma clear_inv: "pool_inv (pool_clear p)"
  by (simp add: pool_inv_def pool_ok_def pool_ids_ok_def pool_clear_def parsed_def index_ok_def fun_eq_iff)

lemma capture_step_inv: "pool_inv p \<Longrightarrow> capture_step p q \<Longrightarrow> pool_inv q"
  by (auto elim!: capture_step.cases intro: put_inv reopen_inv(1))

lemma pool_step_inv: "pool_inv p \<Longrightarrow> pool_step p q \<Longrightarrow> pool_inv q"
  by (auto elim!: pool_step.cases intro: capture_step_inv clear_inv)

lemma reopen_knows: "pool_inv p \<Longrightarrow> knows p (pool_open (up_table p))"
  by (auto simp: knows_def reopen_inv(2))

lemma capture_step_knows: "pool_inv p \<Longrightarrow> capture_step p q \<Longrightarrow> knows p q"
  by (auto elim!: capture_step.cases intro: put_knows reopen_knows)

lemma knows_refl: "knows p p"
  by (simp add: knows_def)

lemma knows_trans: "knows p q \<Longrightarrow> knows q r \<Longrightarrow> knows p r"
  unfolding knows_def using keeps_trans by meson

interpretation profile_pool: invariant_system pool_step pool_inv
  by unfold_locales (rule pool_step_inv)

interpretation captures: tracked_system capture_step pool_inv knows
  by unfold_locales (blast intro: capture_step_inv capture_step_knows knows_refl knows_trans)+

text \<open>
  C22: Whatever is captured, however often the process restarts and the user resets the caches, the pool in memory is what
  its table says, every entry is filed under its own account id, so a lookup never returns the profile of another account, and
  a login leads to an entry with that login. While the caches are not reset, an account once known by its numeric id stays
  known, with its other identifiers and with every value that was neither empty nor zero as they were: later captures only fill in the rest. The
  captured account ids are assumed to be numerals and the logins not to be.
\<close>

theorem pool_keeps_profiles:
  assumes "pool_inv p0" "pool_step\<^sup>*\<^sup>* p0 p" "capture_step\<^sup>*\<^sup>* p q"
  shows "(map_of (up_data q) = parsed (up_table q))
    \<and> (\<forall>k i. pool_get k q = Some i \<longrightarrow> ui_ali_id i = k)
    \<and> (\<forall>l i. get_by_login_id l q = Some i \<longrightarrow> ui_login_id i = l)
    \<and> (\<forall>k i. py_isdigit k \<longrightarrow> pool_get k p = Some i \<longrightarrow> (\<exists>j. pool_get k q = Some j \<and> keeps i j))"
proof (intro conjI)
  have p: "pool_inv p" by (rule profile_pool.steps_inv [OF assms(2,1)])
  have inv: "pool_ok q" using captures.steps_inv [OF assms(3) p] by (simp add: pool_inv_def)
  show "map_of (up_data q) = parsed (up_table q)" by (rule pool_okD(4) [OF inv])
  show "\<forall>k i. pool_get k q = Some i \<longrightarrow> ui_ali_id i = k"
    using pool_okD(1) [OF inv] by (simp add: pool_get_def)
  show "\<forall>l i. get_by_login_id l q = Some i \<longrightarrow> ui_login_id i = l"
    using pool_okD(2) [OF inv] by (fastforce simp: get_by_login_id_def split: option.splits)
  show "\<forall>k i. py_isdigit k \<longrightarrow> pool_get k p = Some i \<longrightarrow> (\<exists>j. pool_get k q = Some j \<and> keeps i j)"
    using captures.steps_rel [OF assms(3) p] by (simp add: knows_def pool_get_def)
qed

text \<open>
  A number that is 0 counts as known: when an account was first captured without a field such as its number of valid inquiries,
  which is then 0, no later capture ever fills the number in.
\<close>

theorem zero_is_never_filled:
  assumes "map_of (ui_rest old) f = Some (PInt 0)"
  shows "map_of (ui_rest (merge_user_info old new)) f = Some (PInt 0)"
  using assms by (simp add: merged_rest merge_value_def split: option.split)

definition demo_info :: "string \<Rightarrow> string \<Rightarrow> int \<Rightarrow> user_info" where
  "demo_info ali login n = \<lparr>ui_ali_id = ali, ui_member_id = [], ui_login_id = login, ui_encrypt_id = [],
     ui_rest = [(''valid_inquiry_count'', PInt n)]\<rparr>"

lemma zero_is_never_filled_witness:
  "map_of (ui_rest (merge_user_info (demo_info ''7'' [] 0) (demo_info ''7'' [] 5))) ''valid_inquiry_count'' = Some (PInt 0)"
  by (rule zero_is_never_filled) code_simp

lemma demo_real: "real_info (demo_info [] ''cn'' 0)" "real_info (demo_info ''7'' ''cn'' 5)"
  by code_simp+

lemma pool_keeps_profiles_witness:
  "\<exists>p q. get_by_login_id ''cn'' q \<noteq> None \<and> (\<forall>l i. get_by_login_id l q = Some i \<longrightarrow> ui_login_id i = l)
    \<and> pool_get ''7'' p \<noteq> None \<and> (\<forall>k i. py_isdigit k \<longrightarrow> pool_get k p = Some i \<longrightarrow> (\<exists>j. pool_get k q = Some j \<and> keeps i j))"
proof (intro exI conjI)
  let ?z = "pool_clear (pool_open [])"
  let ?p = "pool_put (demo_info ''7'' ''cn'' 5) (pool_put (demo_info [] ''cn'' 0) (pool_clear ?z))"
  let ?q = "pool_put (demo_info ''7'' ''cn'' 9) ?p"
  show "get_by_login_id ''cn'' ?q \<noteq> None" "pool_get ''7'' ?p \<noteq> None" by code_simp+
  have p: "pool_step\<^sup>*\<^sup>* ?z ?p"
    using demo_real by (meson po_put po_capture po_clear rtranclp.rtrancl_into_rtrancl rtranclp.rtrancl_refl)
  have "capture_step\<^sup>*\<^sup>* ?p ?q"
    by (rule r_into_rtranclp, rule po_put) code_simp
  note kept = pool_keeps_profiles [OF clear_inv p this]
  show "\<forall>l i. get_by_login_id l ?q = Some i \<longrightarrow> ui_login_id i = l" using kept by blast
  show "\<forall>k i. py_isdigit k \<longrightarrow> pool_get k ?p = Some i \<longrightarrow> (\<exists>j. pool_get k ?q = Some j \<and> keeps i j)" using kept by blast
qed

end
