(* ===== verification/Crm_Sync.thy ===== *)
theory Crm_Sync
  imports Chat_Source User_Pool Portrait_Store
begin

text \<open>
  The writing of a snapshot into the CRM tables, \<^verbatim>\<open>CRMAdapter\<close> and the functions around it in \<^verbatim>\<open>shared/crm/sync.py\<close>:
  accounts with their aliases, customers, conversations and messages, in one transaction with the inbox
  (\<open>Inbox_Store\<close>), the message table and the sync state (\<open>Sync_Store\<close>). A snapshot comes from \<open>Chat_Source\<close>, profiles
  from \<open>User_Pool\<close>.

  The CRM library is not part of the repository. What the code takes from it is in \<open>sdk\<close>: which fields of a table its
  managers let a caller edit, the key of a new row given the keys of the table, and a customer with only default values. Sessions
  of SQLAlchemy are tables passed along; a transaction that raises leaves the tables as they were.
\<close>

section \<open>Tables\<close>

record customer_row =
  cu_cid :: int
  cu_name :: pyval
  cu_sex :: pyval
  cu_birthdate :: pyval
  cu_region :: pyval
  cu_extra :: pyval
  cu_image :: pyval

record crm_account =
  ca_aid :: int
  ca_cid :: "int option"
  ca_pid :: string
  ca_account :: string
  ca_nickname :: string
  ca_avatar :: "string option"
  ca_sids :: pyval
  ca_extra :: pyval

record mapping_row =
  mp_id :: int
  mp_aid :: int
  mp_type :: string
  mp_key :: string

record session_meta =
  se_sid :: int
  se_key :: string
  se_name :: string
  se_participants :: pyval

record sync_db =
  sd_platforms :: "(string \<times> string) list"
  sd_customers :: "customer_row list"
  sd_accounts :: "crm_account list"
  sd_mappings :: "mapping_row list"
  sd_sessions :: "session_meta list"
  sd_crm :: crm

record sdk =
  sk_edit :: "string \<Rightarrow> string \<Rightarrow> bool"
  sk_fresh :: "string \<Rightarrow> int list \<Rightarrow> int"
  sk_customer :: customer_row

definition account_view :: "crm_account \<Rightarrow> account_row" where
  "account_view a = \<lparr>an_aid = ca_aid a, an_cid = ca_cid a, an_extra = ca_extra a\<rparr>"

text \<open>The tables as the inbox module reads them.\<close>

definition crm_view :: "sync_db \<Rightarrow> crm" where
  "crm_view d = (sd_crm d)\<lparr>crm_sessions := map (\<lambda>s. (se_sid s, se_key s)) (sd_sessions d)\<rparr>"

section \<open>Saving a row\<close>

text \<open>
  \<^verbatim>\<open>_save\<close>: a row that is there takes the editable fields, a new one gets a key if it has none. The result is the
  key.
\<close>

definition save_sdk_row ::
  "('r \<Rightarrow> int) \<Rightarrow> (int \<Rightarrow> 'r \<Rightarrow> 'r) \<Rightarrow> ('r \<Rightarrow> 'r \<Rightarrow> 'r) \<Rightarrow> (int list \<Rightarrow> int) \<Rightarrow> int option \<Rightarrow> 'r \<Rightarrow> 'r list \<Rightarrow> int \<times> 'r list" where
  "save_sdk_row key with_key edit fresh pk row t =
     (case pk of
        Some k \<Rightarrow>
          if find (\<lambda>r. key r = k) t = None then (k, t @ [with_key k row])
          else (k, update_rows (\<lambda>r. key r = k) (edit row) t)
      | None \<Rightarrow> (let k = fresh (map key t) in (k, t @ [with_key k row])))"

definition edit_customer :: "(string \<Rightarrow> bool) \<Rightarrow> customer_row \<Rightarrow> customer_row \<Rightarrow> customer_row" where
  "edit_customer ed p c = c\<lparr>
     cu_name := (if ed ''name'' then cu_name p else cu_name c),
     cu_sex := (if ed ''sex'' then cu_sex p else cu_sex c),
     cu_birthdate := (if ed ''birthdate'' then cu_birthdate p else cu_birthdate c),
     cu_region := (if ed ''region'' then cu_region p else cu_region c),
     cu_extra := (if ed ''extra'' then cu_extra p else cu_extra c),
     cu_image := (if ed ''image'' then cu_image p else cu_image c)\<rparr>"

definition edit_account :: "(string \<Rightarrow> bool) \<Rightarrow> crm_account \<Rightarrow> crm_account \<Rightarrow> crm_account" where
  "edit_account ed p a = a\<lparr>
     ca_cid := (if ed ''cid'' then ca_cid p else ca_cid a),
     ca_pid := (if ed ''pid'' then ca_pid p else ca_pid a),
     ca_account := (if ed ''account'' then ca_account p else ca_account a),
     ca_nickname := (if ed ''nickname'' then ca_nickname p else ca_nickname a),
     ca_avatar := (if ed ''avatar'' then ca_avatar p else ca_avatar a),
     ca_sids := (if ed ''sids'' then ca_sids p else ca_sids a),
     ca_extra := (if ed ''extra'' then ca_extra p else ca_extra a)\<rparr>"

definition edit_mapping :: "(string \<Rightarrow> bool) \<Rightarrow> mapping_row \<Rightarrow> mapping_row \<Rightarrow> mapping_row" where
  "edit_mapping ed p m = m\<lparr>
     mp_aid := (if ed ''aid'' then mp_aid p else mp_aid m),
     mp_type := (if ed ''type'' then mp_type p else mp_type m),
     mp_key := (if ed ''key'' then mp_key p else mp_key m)\<rparr>"

definition edit_session :: "(string \<Rightarrow> bool) \<Rightarrow> session_meta \<Rightarrow> session_meta \<Rightarrow> session_meta" where
  "edit_session ed p s = s\<lparr>
     se_key := (if ed ''key'' then se_key p else se_key s),
     se_name := (if ed ''name'' then se_name p else se_name s),
     se_participants := (if ed ''participants'' then se_participants p else se_participants s)\<rparr>"

definition save_customer :: "sdk \<Rightarrow> int option \<Rightarrow> customer_row \<Rightarrow> sync_db \<Rightarrow> int \<times> sync_db" where
  "save_customer sk pk row d =
     (let (k, t) = save_sdk_row cu_cid (\<lambda>k r. r\<lparr>cu_cid := k\<rparr>) (edit_customer (sk_edit sk ''customer''))
                     (sk_fresh sk ''customer'') pk row (sd_customers d)
      in (k, d\<lparr>sd_customers := t\<rparr>))"

definition save_account :: "sdk \<Rightarrow> int option \<Rightarrow> crm_account \<Rightarrow> sync_db \<Rightarrow> int \<times> sync_db" where
  "save_account sk pk row d =
     (let (k, t) = save_sdk_row ca_aid (\<lambda>k r. r\<lparr>ca_aid := k\<rparr>) (edit_account (sk_edit sk ''account''))
                     (sk_fresh sk ''account'') pk row (sd_accounts d)
      in (k, d\<lparr>sd_accounts := t\<rparr>))"

definition save_mapping :: "sdk \<Rightarrow> int option \<Rightarrow> mapping_row \<Rightarrow> sync_db \<Rightarrow> sync_db" where
  "save_mapping sk pk row d =
     d\<lparr>sd_mappings := snd (save_sdk_row mp_id (\<lambda>k r. r\<lparr>mp_id := k\<rparr>) (edit_mapping (sk_edit sk ''accountmapping''))
                     (sk_fresh sk ''accountmapping'') pk row (sd_mappings d))\<rparr>"

definition save_session :: "sdk \<Rightarrow> int option \<Rightarrow> session_meta \<Rightarrow> sync_db \<Rightarrow> int \<times> sync_db" where
  "save_session sk pk row d =
     (let (k, t) = save_sdk_row se_sid (\<lambda>k r. r\<lparr>se_sid := k\<rparr>) (edit_session (sk_edit sk ''session_meta''))
                     (sk_fresh sk ''session_meta'') pk row (sd_sessions d)
      in (k, d\<lparr>sd_sessions := t\<rparr>))"

text \<open>A platform is keyed by its name in the code, so its row is there or is added.\<close>

definition ensure_platform :: "sync_db \<Rightarrow> sync_db" where
  "ensure_platform d = d\<lparr>sd_platforms := alist_put platform_pid ''Alibaba'' (sd_platforms d)\<rparr>"

section \<open>Aliases\<close>

definition alias_types :: "string list" where
  "alias_types = [''ali_id'', ''login_id'', ''encrypt_account_id'']"

definition alias_rows :: "string \<Rightarrow> string \<Rightarrow> sync_db \<Rightarrow> mapping_row list" where
  "alias_rows ty key d = filter (\<lambda>m. mp_type m = ty \<and> mp_key m = key) (sd_mappings d)"

definition account_get :: "int \<Rightarrow> sync_db \<Rightarrow> crm_account option" where
  "account_get aid d = find (\<lambda>a. ca_aid a = aid) (sd_accounts d)"

definition customer_get :: "int option \<Rightarrow> sync_db \<Rightarrow> customer_row option" where
  "customer_get cid d = (case cid of None \<Rightarrow> None | Some c \<Rightarrow> find (\<lambda>r. cu_cid r = c) (sd_customers d))"

definition session_by_key :: "string \<Rightarrow> sync_db \<Rightarrow> session_meta option" where
  "session_by_key key d = find (\<lambda>s. se_key s = key) (sd_sessions d)"

text \<open>The identifiers of one account, in the order of \<open>alias_types\<close>.\<close>

record identity =
  id_ali :: string
  id_login :: string
  id_encrypt :: string

definition aliases :: "identity \<Rightarrow> (string \<times> string) list" where
  "aliases i = filter (\<lambda>a. snd a \<noteq> []) (zip alias_types [id_ali i, id_login i, id_encrypt i])"

definition mapping_hits :: "identity \<Rightarrow> sync_db \<Rightarrow> (string \<times> string \<times> int) list" where
  "mapping_hits i d = concat (map (\<lambda>(ty, key). map (\<lambda>m. (ty, key, mp_aid m)) (alias_rows ty key d)) (aliases i))"

definition hit_aids :: "identity \<Rightarrow> sync_db \<Rightarrow> int list" where
  "hit_aids i d = dedup (map (\<lambda>(_, _, aid). aid) (mapping_hits i d))"

text \<open>\<^verbatim>\<open>_upsert_mapping\<close>, with its branch for another account.\<close>

definition upsert_mapping :: "sdk \<Rightarrow> int \<Rightarrow> string \<Rightarrow> string \<Rightarrow> sync_db \<Rightarrow> sync_db" where
  "upsert_mapping sk aid ty key d =
     (if key = [] then d
      else case alias_rows ty key d of
             existing # _ \<Rightarrow>
               if mp_aid existing = aid then d
               else save_mapping sk (Some (mp_id existing)) \<lparr>mp_id = mp_id existing, mp_aid = aid, mp_type = ty, mp_key = key\<rparr> d
           | [] \<Rightarrow> save_mapping sk None \<lparr>mp_id = 0, mp_aid = aid, mp_type = ty, mp_key = key\<rparr> d)"

section \<open>Accounts\<close>

text \<open>The seller's own profile, as \<open>user_info\<close>: the identifiers and the other fields.\<close>

record self_info =
  si_ali_id :: string
  si_login_id :: string
  si_encrypt_id :: string
  si_rest :: "(string \<times> pyval) list"

definition user_dump :: "user_info \<Rightarrow> (string \<times> pyval) list" where
  "user_dump i = [(''ali_id'', PStr (ui_ali_id i)), (''ali_member_id'', PStr (ui_member_id i)),
     (''login_id'', PStr (ui_login_id i)), (''encrypt_account_id'', PStr (ui_encrypt_id i))] @ ui_rest i"

definition self_dump :: "self_info \<Rightarrow> (string \<times> pyval) list" where
  "self_dump i = [(''ali_id'', PStr (si_ali_id i)), (''login_id'', PStr (si_login_id i)),
     (''encrypt_account_id'', PStr (si_encrypt_id i))] @ si_rest i"

text \<open>A text field of a validated profile, and Python's \<^verbatim>\<open>or\<close> on texts.\<close>

definition text_field :: "(string \<times> pyval) list \<Rightarrow> string \<Rightarrow> string" where
  "text_field d f = (case map_of d f of Some (PStr s) \<Rightarrow> s | _ \<Rightarrow> [])"

fun first_text :: "string list \<Rightarrow> string" where
  "first_text [] = []"
| "first_text (s # ss) = (if s \<noteq> [] then s else first_text ss)"

definition display_name :: "(string \<times> pyval) list \<Rightarrow> string" where
  "display_name d =
     first_text [py_strip (join_with '' '' (filter (\<lambda>p. p \<noteq> []) [text_field d ''first_name'', text_field d ''last_name''])),
                 text_field d ''company_name'', text_field d ''login_id'', text_field d ''ali_id'']"

record profile =
  pf_identity :: identity
  pf_display :: string
  pf_avatar :: string
  pf_self :: bool
  pf_extra :: "(string \<times> pyval) list"

definition user_profile :: "user_info \<Rightarrow> profile" where
  "user_profile i =
     \<lparr>pf_identity = \<lparr>id_ali = ui_ali_id i, id_login = ui_login_id i, id_encrypt = ui_encrypt_id i\<rparr>,
      pf_display = display_name (user_dump i), pf_avatar = [], pf_self = False, pf_extra = user_dump i\<rparr>"

definition self_profile :: "self_info \<Rightarrow> profile" where
  "self_profile i =
     \<lparr>pf_identity = \<lparr>id_ali = si_ali_id i, id_login = si_login_id i, id_encrypt = si_encrypt_id i\<rparr>,
      pf_display = display_name (self_dump i), pf_avatar = text_field (si_rest i) ''avatar_url'', pf_self = True,
      pf_extra = self_dump i\<rparr>"

text \<open>A contact nobody captured a profile of.\<close>

definition bare_profile :: "string \<Rightarrow> profile" where
  "bare_profile contact =
     \<lparr>pf_identity = \<lparr>id_ali = contact, id_login = [], id_encrypt = []\<rparr>, pf_display = contact, pf_avatar = [],
      pf_self = False, pf_extra = [(''ali_id'', PStr contact)]\<rparr>"

definition dict_or_empty :: "pyval \<Rightarrow> (string \<times> pyval) list" where
  "dict_or_empty v = (case v of PDict d \<Rightarrow> d | _ \<Rightarrow> [])"

definition merge_extra :: "pyval \<Rightarrow> (string \<times> pyval) list \<Rightarrow> (string \<times> pyval) list" where
  "merge_extra existing new =
     fold (\<lambda>(k, v) m. if is_empty_value v then m else alist_put k v m) new (dict_or_empty existing)"

definition or_value :: "pyval \<Rightarrow> string \<Rightarrow> pyval" where
  "or_value v s = (if truthy v then v else PStr s)"

text \<open>\<^verbatim>\<open>_build_customer_payload\<close>: the key and the row; a known customer keeps what a user may have edited.\<close>

definition customer_payload :: "sdk \<Rightarrow> crm_account option \<Rightarrow> profile \<Rightarrow> sync_db \<Rightarrow> int option \<times> customer_row" where
  "customer_payload sk account p d =
     (let i = pf_identity p;
          name = first_text [pf_display p, id_login i, id_ali i, id_encrypt i];
          region = first_text [text_field (pf_extra p) ''country_code'', text_field (pf_extra p) ''country''];
          cid = (case account of None \<Rightarrow> None | Some a \<Rightarrow> ca_cid a)
      in case customer_get cid d of
           None \<Rightarrow> (cid, (sk_customer sk)\<lparr>cu_name := PStr name, cu_region := PStr region,
                    cu_extra := PDict [(''source'', PStr ''mitm''), (''is_self'', PBool (pf_self p))]\<rparr>)
         | Some c \<Rightarrow>
             (cid, c\<lparr>cu_name := or_value (cu_name c) name, cu_region := or_value (cu_region c) region,
                     cu_extra := PDict (alist_put ''is_self'' (PBool (pf_self p))
                       (alist_put ''source'' (PStr ''mitm'') (dict_or_empty (cu_extra c))))\<rparr>))"

definition account_payload :: "crm_account option \<Rightarrow> int \<Rightarrow> profile \<Rightarrow> crm_account" where
  "account_payload account cid p =
     (let i = pf_identity p in
      \<lparr>ca_aid = (case account of None \<Rightarrow> 0 | Some a \<Rightarrow> ca_aid a), ca_cid = Some cid, ca_pid = platform_pid,
       ca_account = first_text [id_login i, id_ali i, id_encrypt i],
       ca_nickname = first_text [pf_display p, id_login i, id_ali i, id_encrypt i],
       ca_avatar = (if pf_avatar p = [] then None else Some (pf_avatar p)),
       ca_sids = (case account of None \<Rightarrow> PNone | Some a \<Rightarrow> ca_sids a),
       ca_extra = PDict (alist_put ''is_self'' (PBool (pf_self p))
         (merge_extra (case account of None \<Rightarrow> PNone | Some a \<Rightarrow> ca_extra a) (pf_extra p)))\<rparr>)"

text \<open>\<^verbatim>\<open>IdentityConflictError\<close>: its text and the aliases. It is raised before anything is written.\<close>

type_synonym conflict = "string \<times> (string \<times> string) list"

definition conflict_aliases :: "identity \<Rightarrow> sync_db \<Rightarrow> (string \<times> string) list" where
  "conflict_aliases i d = map (\<lambda>(ty, key, _). (ty, key)) (mapping_hits i d)"

definition known_account :: "identity \<Rightarrow> sync_db \<Rightarrow> conflict + crm_account option" where
  "known_account i d =
     (case hit_aids i d of
        [] \<Rightarrow> Inr None
      | [aid] \<Rightarrow>
          (case account_get aid d of
             None \<Rightarrow> Inl (''identity aliases point at a missing account'', conflict_aliases i d)
           | Some a \<Rightarrow> Inr (Some a))
      | _ \<Rightarrow> Inl (''conflicting identity aliases resolve to different accounts'', conflict_aliases i d))"

definition write_account :: "sdk \<Rightarrow> crm_account option \<Rightarrow> profile \<Rightarrow> sync_db \<Rightarrow> int \<times> sync_db" where
  "write_account sk account p d =
     (let (pk, customer) = customer_payload sk account p d;
          (cid, d1) = save_customer sk pk customer d;
          (aid, d2) = save_account sk (map_option ca_aid account) (account_payload account cid p) d1
      in (aid, fold (\<lambda>(ty, key). upsert_mapping sk aid ty key) (aliases (pf_identity p)) d2))"

definition upsert_account :: "sdk \<Rightarrow> profile \<Rightarrow> sync_db \<Rightarrow> conflict + int option \<times> sync_db" where
  "upsert_account sk p d =
     (if aliases (pf_identity p) = [] then Inr (None, d)
      else case known_account (pf_identity p) d of
             Inl c \<Rightarrow> Inl c
           | Inr account \<Rightarrow> (let (aid, d') = write_account sk account p d in Inr (Some aid, d')))"

section \<open>Conflicts\<close>

text \<open>\<^verbatim>\<open>_resolve_conflicted_contact\<close>: the committed contact first, the exact alias only without one.\<close>

definition participants_list :: "decoders \<Rightarrow> pyval \<Rightarrow> pyval list result" where
  "participants_list dc v =
     (if \<not> truthy v then Inr []
      else case v of
             PList xs \<Rightarrow> Inr xs
           | PStr s \<Rightarrow> (case dc_loads dc s of Inl e \<Rightarrow> Inl e | Inr (PList xs) \<Rightarrow> Inr xs
                        | Inr _ \<Rightarrow> Inl (Type_Error ''participants''))
           | _ \<Rightarrow> Inl (Type_Error ''participants''))"

definition committed_contact :: "pyval list \<Rightarrow> sync_db \<Rightarrow> int option" where
  "committed_contact participants d =
     (case participants of
        _ # PInt aid # _ \<Rightarrow>
          (case account_get aid d of
             Some a \<Rightarrow> if ca_pid a = platform_pid \<and> \<not> is_self_account (account_view a) then Some aid else None
           | None \<Rightarrow> None)
      | _ \<Rightarrow> None)"

definition resolve_conflicted_contact :: "decoders \<Rightarrow> string \<Rightarrow> string \<Rightarrow> sync_db \<Rightarrow> int option result" where
  "resolve_conflicted_contact dc self contact d =
     (let exact = dedup (map mp_aid (alias_rows ''ali_id'' contact d)) in
      and_then (case session_by_key (session_key self contact) d of
          None \<Rightarrow> Inr None
        | Some s \<Rightarrow> and_then (participants_list dc (se_participants s)) (\<lambda>ps. Inr (committed_contact ps d))) (\<lambda>prior.
      Inr (case prior of
             Some p \<Rightarrow> (case exact of [e] \<Rightarrow> if e \<noteq> p then None else Some p | _ \<Rightarrow> Some p)
           | None \<Rightarrow> (case exact of [e] \<Rightarrow> if account_get e d \<noteq> None then Some e else None | _ \<Rightarrow> None))))"

text \<open>\<^verbatim>\<open>_resolve_conflicted_self\<close>: the one account that is marked as the seller's.\<close>

definition resolve_conflicted_self :: "self_info \<Rightarrow> sync_db \<Rightarrow> int option" where
  "resolve_conflicted_self i d =
     (case filter (\<lambda>aid. case account_get aid d of Some a \<Rightarrow> is_self_account (account_view a) | None \<Rightarrow> False)
             (hit_aids (pf_identity (self_profile i)) d) of
        [aid] \<Rightarrow> Some aid
      | _ \<Rightarrow> None)"

definition upsert_session :: "sdk \<Rightarrow> string \<Rightarrow> string \<Rightarrow> int list \<Rightarrow> sync_db \<Rightarrow> int \<times> sync_db" where
  "upsert_session sk self contact participants d =
     (let key = session_key self contact;
          existing = session_by_key key d
      in save_session sk (map_option se_sid existing)
           \<lparr>se_sid = 0, se_key = key, se_name = key, se_participants = PList (map PInt participants)\<rparr> d)"

section \<open>Messages\<close>

text \<open>\<^verbatim>\<open>message_display_text\<close>; the Chinese labels are short tags.\<close>

definition known_type :: "pyval \<Rightarrow> bool" where
  "known_type ty \<longleftrightarrow> py_eq ty (PInt 0) \<or> py_eq ty (PInt card_type)"

definition type_text :: "decoders \<Rightarrow> pyval \<Rightarrow> string" where
  "type_text dc ty = (if ty = PNone then ''unknown'' else str_of dc ty)"

definition display_text :: "decoders \<Rightarrow> message_row \<Rightarrow> pyval" where
  "display_text dc r =
     (let ty = mr_type r in
      if py_eq ty (PInt card_type) then or_value (mr_label r) ''[card]''
      else if py_eq ty (PInt 7) then PStr ''[image]''
      else if py_eq ty (PInt 9) then PStr ''[video]''
      else if \<not> known_type ty then PStr (''[unsupported message type: '' @ type_text dc ty @ '']'')
      else or_value (mr_label r) [])"

definition latin1_text :: "nat list \<Rightarrow> string" where
  "latin1_text bs = map char_of bs"

definition decode_content :: "decoders \<Rightarrow> nat list option \<Rightarrow> pyval result" where
  "decode_content dc content =
     (case content of
        None \<Rightarrow> Inr PNone
      | Some bs \<Rightarrow>
          (case dc_loads dc (dc_utf8 dc bs) of
             Inl e \<Rightarrow> (case e of Value_Error _ \<Rightarrow> Inr (PStr (dc_utf8 dc bs)) | _ \<Rightarrow> Inl e)
           | Inr v \<Rightarrow> Inr v))"

definition message_content :: "decoders \<Rightarrow> message_row \<Rightarrow> (string \<times> pyval) list result" where
  "message_content dc r =
     and_then (decode_content dc (mr_content r)) (\<lambda>decoded.
       Inr ([(''cid'', PStr (mr_cid r)), (''mid'', PStr (mr_mid r)), (''table_name'', PStr (mr_table r)),
             (''sender_id'', mr_sender r), (''created_at'', mr_created r), (''user_content_type'', mr_type r),
             (''content_label'', if known_type (mr_type r) then mr_label r else display_text dc r),
             (''content'', decoded),
             (''content_latin1'', case mr_content r of None \<Rightarrow> PNone | Some bs \<Rightarrow> PStr (latin1_text bs)),
             (''is_system'', PBool (mr_system r)), (''is_auto_reply'', PBool (mr_auto r))]
            @ (if known_type (mr_type r) then [] else [(''source_content_label'', mr_label r)])
            @ (if mr_biz r = [] then [] else [(''biz_id'', PStr (mr_biz r))])))"

text \<open>
  What a snapshot's writing takes from outside: the decoders, the canonical form of a path, the local datetime of a
  time and back, and the CRM library.
\<close>

record sync_world =
  sw_decoders :: decoders
  sw_canon :: "string \<Rightarrow> string"
  sw_local :: "pytime \<Rightarrow> pyval"
  sw_stamp :: "pyval \<Rightarrow> pytime"
  sw_sdk :: sdk

definition message_payload :: "sync_world \<Rightarrow> string \<Rightarrow> int \<Rightarrow> int \<Rightarrow> message_row \<Rightarrow> crm_message result" where
  "message_payload w self sid sender r =
     (let dc = sw_decoders w in
      and_then (message_external_id self (mr_table r) (mr_mid r)) (\<lambda>mid.
      and_then (message_content dc r) (\<lambda>content.
        Inr \<lparr>cm_mid = mid, cm_sid = sid, cm_sender = PInt sender, cm_content = PDict content,
             cm_type = PStr (type_text dc (mr_type r)),
             cm_created = (case epoch_of (dc_zone dc) (mr_created r) of None \<Rightarrow> PNone | Some t \<Rightarrow> sw_local w t),
             cm_local = PNone\<rparr>)))"

fun conv_payloads :: "sync_world \<Rightarrow> string \<Rightarrow> int \<Rightarrow> int \<Rightarrow> int \<Rightarrow> message_row list \<Rightarrow> crm_message list result" where
  "conv_payloads w self sid self_aid contact_aid [] = Inr []"
| "conv_payloads w self sid self_aid contact_aid (r # rs) =
     and_then (sender_matches_value (mr_sender r) self) (\<lambda>mine.
     and_then (message_payload w self sid (if mine then self_aid else contact_aid) r) (\<lambda>m.
     and_then (conv_payloads w self sid self_aid contact_aid rs) (\<lambda>ms. Inr (m # ms))))"

section \<open>A snapshot\<close>

definition contact_profile :: "user_pool \<Rightarrow> string \<Rightarrow> profile" where
  "contact_profile pool contact =
     (case pool_get contact pool of Some i \<Rightarrow> user_profile i | None \<Rightarrow> bare_profile contact)"

text \<open>The account of a contact: of its profile, or what is committed when its aliases disagree.\<close>

definition contact_account :: "sync_world \<Rightarrow> user_pool \<Rightarrow> string \<Rightarrow> string \<Rightarrow> sync_db \<Rightarrow> (int \<times> sync_db) result" where
  "contact_account w pool self contact d =
     (let (aid, d1) = (case upsert_account (sw_sdk w) (contact_profile pool contact) d of Inl _ \<Rightarrow> (None, d) | Inr r \<Rightarrow> r) in
      case aid of
        Some a \<Rightarrow> Inr (a, d1)
      | None \<Rightarrow>
          and_then (resolve_conflicted_contact (sw_decoders w) self contact d1) (\<lambda>r.
            case r of None \<Rightarrow> Inl (Value_Error ''IM sync could not resolve account identity'') | Some a \<Rightarrow> Inr (a, d1)))"

fun sync_convs ::
  "sync_world \<Rightarrow> user_pool \<Rightarrow> string \<Rightarrow> int \<Rightarrow> contact_conv list \<Rightarrow> crm_message list \<Rightarrow> sync_db \<Rightarrow> (crm_message list \<times> sync_db) result" where
  "sync_convs w pool self self_aid [] messages d = Inr (messages, d)"
| "sync_convs w pool self self_aid (c # cs) messages d =
     and_then (contact_account w pool self (cv_contact c) d) (\<lambda>(aid, d1).
       let (sid, d2) = upsert_session (sw_sdk w) self (cv_contact c) [self_aid, aid] d1 in
       and_then (conv_payloads w self sid self_aid aid (cv_messages c)) (\<lambda>ms.
         sync_convs w pool self self_aid cs (messages @ ms) d2))"

definition self_account :: "sync_world \<Rightarrow> self_info \<Rightarrow> sync_db \<Rightarrow> int option \<times> sync_db" where
  "self_account w i d =
     (case upsert_account (sw_sdk w) (self_profile i) d of
        Inr r \<Rightarrow> r
      | Inl _ \<Rightarrow> (resolve_conflicted_self i d, d))"

text \<open>The inbox, the messages and the state; \<open>now\<close> and \<open>later\<close> are the two readings of the clock.\<close>

definition write_snapshot ::
  "sync_world \<Rightarrow> string \<Rightarrow> string \<Rightarrow> int \<Rightarrow> pytime \<Rightarrow> pytime \<Rightarrow> crm_message list \<Rightarrow> sync_db \<Rightarrow> (sync_row \<times> sync_db) result" where
  "write_snapshot w self data_dir revision now later messages d =
     and_then (write_inbox (sw_canon w) (dc_zone (sw_decoders w)) (dc_json_text (sw_decoders w)) self data_dir
                 (Some messages) now (crm_view d)) (\<lambda>c.
       let (counts, archive) = upsert_messages messages (crm_archive c);
           (row, states) = write_sync_state (sw_canon w) self data_dir revision counts later (crm_sync c)
       in Inr (row, d\<lparr>sd_crm := c\<lparr>crm_archive := archive, crm_sync := states\<rparr>\<rparr>))"

definition sync_transaction ::
  "sync_world \<Rightarrow> user_pool \<Rightarrow> contact_conv list \<Rightarrow> self_info option \<Rightarrow> int \<Rightarrow> string \<Rightarrow> pytime \<Rightarrow> pytime \<Rightarrow> sync_db
     \<Rightarrow> (sync_row \<times> sync_db) result" where
  "sync_transaction w pool convs info revision data_dir now later d =
     (case info of
        None \<Rightarrow> Inl (Value_Error ''IM sync requires a selected seller identity'')
      | Some i \<Rightarrow>
          if si_ali_id i = [] then Inl (Value_Error ''IM sync requires a selected seller identity'')
          else
            (case self_account w i (ensure_platform d) of
               (None, _) \<Rightarrow> Inl (Value_Error ''IM sync could not resolve seller identity'')
             | (Some self_aid, d1) \<Rightarrow>
                 and_then (sync_convs w pool (si_ali_id i) self_aid convs [] d1) (\<lambda>(messages, d2).
                   write_snapshot w (si_ali_id i) data_dir revision now later messages d2)))"

definition sync_conversations ::
  "sync_world \<Rightarrow> user_pool \<Rightarrow> contact_conv list \<Rightarrow> self_info option \<Rightarrow> int \<Rightarrow> string \<Rightarrow> pytime \<Rightarrow> pytime \<Rightarrow> sync_db
     \<Rightarrow> sync_row result \<times> sync_db" where
  "sync_conversations w pool convs info revision data_dir now later d =
     (case sync_transaction w pool convs info revision data_dir now later d of
        Inl e \<Rightarrow> (Inl e, d)
      | Inr (row, d') \<Rightarrow> (Inr row, d'))"

text \<open>\<^verbatim>\<open>sync_im_database\<close> and its job; a profile without fields stands for one that was not captured.\<close>

definition bare_self :: "string \<Rightarrow> self_info" where
  "bare_self ali_id =
     \<lparr>si_ali_id = ali_id, si_login_id = [], si_encrypt_id = [],
      si_rest = map (\<lambda>f. (f, PStr [])) [''first_name'', ''last_name'', ''country'', ''company_name'', ''avatar_url'', ''account_status'']\<rparr>"

definition sync_im_database ::
  "sync_world \<Rightarrow> user_pool \<Rightarrow> chat_db \<Rightarrow> string \<Rightarrow> self_info option \<Rightarrow> int \<Rightarrow> string \<Rightarrow> pytime \<Rightarrow> pytime \<Rightarrow> sync_db
     \<Rightarrow> sync_row result \<times> sync_db" where
  "sync_im_database w pool chat self info revision data_dir now later d =
     (if self = [] \<or> (case info of None \<Rightarrow> False | Some i \<Rightarrow> si_ali_id i \<noteq> self)
      then (Inl (Value_Error ''IM sync requires a matching selected seller identity''), d)
      else case build_conversations (sw_decoders w) chat self of
             Inl e \<Rightarrow> (Inl e, d)
           | Inr convs \<Rightarrow>
               sync_conversations w pool convs (Some (case info of None \<Rightarrow> bare_self self | Some i \<Rightarrow> i)) revision
                 (canonical_source_dir (sw_canon w) data_dir) now later d)"

text \<open>\<^verbatim>\<open>_sync_user_infos_now\<close>: one transaction for a batch; a profile whose aliases disagree is skipped.\<close>

definition sync_user_infos :: "sync_world \<Rightarrow> user_info list \<Rightarrow> sync_db \<Rightarrow> sync_db" where
  "sync_user_infos w infos d =
     fold (\<lambda>i d. case upsert_account (sw_sdk w) (user_profile i) d of Inl _ \<Rightarrow> d | Inr (_, d') \<Rightarrow> d') infos (ensure_platform d)"

section \<open>Reading back\<close>

text \<open>\<^verbatim>\<open>str.encode\<close> for the code points below 256.\<close>

definition utf8_char :: "char \<Rightarrow> nat list" where
  "utf8_char c = (let n = (of_char c :: nat) in if n < 128 then [n] else [192 + n div 64, 128 + n mod 64])"

definition content_bytes :: "(string \<times> pyval) list \<Rightarrow> nat list option" where
  "content_bytes content =
     (case dict_get_none content ''content_latin1'' of
        PStr s \<Rightarrow> Some (map of_char s)
      | _ \<Rightarrow> (case dict_get_none content ''content'' of PStr s \<Rightarrow> Some (concat (map utf8_char s)) | _ \<Rightarrow> None))"

definition text_or :: "decoders \<Rightarrow> pyval \<Rightarrow> string \<Rightarrow> string" where
  "text_or dc v s = (if truthy v then str_of dc v else s)"

text \<open>\<^verbatim>\<open>_crm_message_from_sdk\<close>: the view has the fields of a message row, with the stored time.\<close>

definition message_of_crm :: "decoders \<Rightarrow> crm_message \<Rightarrow> message_row" where
  "message_of_crm dc m =
     (let content = dict_or_empty (cm_content m); get = dict_get_none content in
      \<lparr>mr_table = text_or dc (get ''table_name'') [], mr_cid = text_or dc (get ''cid'') [],
       mr_mid = text_or dc (get ''mid'') (cm_mid m), mr_sender = get ''sender_id'', mr_created = cm_created m,
       mr_type = get ''user_content_type'', mr_label = get ''content_label'', mr_content = content_bytes content,
       mr_system = truthy (get ''is_system''), mr_auto = truthy (get ''is_auto_reply''), mr_biz = text_or dc (get ''biz_id'') []\<rparr>)"

definition own_session :: "string \<Rightarrow> int \<Rightarrow> sync_db \<Rightarrow> session_meta option" where
  "own_session self sid d =
     (case find (\<lambda>s. se_sid s = sid) (sd_sessions d) of
        None \<Rightarrow> None
      | Some s \<Rightarrow> if has_prefix (session_key_prefix self) (se_key s) then Some s else None)"

record conversation_detail =
  cd_contact :: string
  cd_messages :: "message_row list"
  cd_last_created :: pyval
  cd_last_label :: pyval
  cd_sid :: int
  cd_key :: string
  cd_participants :: pyval

definition get_conversation_detail :: "sync_world \<Rightarrow> string \<Rightarrow> int \<Rightarrow> sync_db \<Rightarrow> conversation_detail option" where
  "get_conversation_detail w self sid d =
     (case own_session self sid d of
        None \<Rightarrow> None
      | Some s \<Rightarrow>
          (let ms = sort_key (\<lambda>m. if truthy (mr_created m) then sw_stamp w (mr_created m) else 0)
                     (map (message_of_crm (sw_decoders w)) (filter (\<lambda>m. cm_sid m = sid) (crm_archive (sd_crm d))))
           in if ms = [] then None
              else Some \<lparr>cd_contact = drop (length (session_key_prefix self)) (se_key s), cd_messages = ms,
                         cd_last_created = mr_created (last ms), cd_last_label = mr_label (last ms), cd_sid = sid,
                         cd_key = se_key s,
                         cd_participants = (if truthy (se_participants s) then se_participants s else PList [])\<rparr>))"

definition get_message :: "sync_world \<Rightarrow> string \<Rightarrow> int \<Rightarrow> string \<Rightarrow> sync_db \<Rightarrow> message_row option" where
  "get_message w self sid mid d =
     (case own_session self sid d of
        None \<Rightarrow> None
      | Some s \<Rightarrow>
          (case find_message (crm_archive (sd_crm d)) mid of
             None \<Rightarrow> None
           | Some m \<Rightarrow> if cm_sid m \<noteq> sid then None else Some (message_of_crm (sw_decoders w) m)))"

text \<open>Profiles from the accounts; \<open>validate\<close> is the model's check of a stored dictionary.\<close>

definition account_by_mapping :: "string \<Rightarrow> string \<Rightarrow> sync_db \<Rightarrow> crm_account option" where
  "account_by_mapping ty key d = (case alias_rows ty key d of [] \<Rightarrow> None | m # _ \<Rightarrow> account_get (mp_aid m) d)"

definition alias_priority :: "string \<Rightarrow> nat" where
  "alias_priority ty = (if ty = ''ali_id'' then 0 else if ty = ''login_id'' then 1 else if ty = ''encrypt_account_id'' then 2 else 99)"

definition account_by_any_mapping :: "string \<Rightarrow> sync_db \<Rightarrow> crm_account option" where
  "account_by_any_mapping key d =
     (case sort_key (\<lambda>m. alias_priority (mp_type m))
             (filter (\<lambda>m. mp_key m = key \<and> mp_type m \<in> set alias_types) (sd_mappings d)) of
        [] \<Rightarrow> None
      | m # _ \<Rightarrow> account_get (mp_aid m) d)"

definition get_self_info :: "((string \<times> pyval) list \<Rightarrow> self_info option) \<Rightarrow> string \<Rightarrow> sync_db \<Rightarrow> self_info option" where
  "get_self_info validate self d =
     (if self = [] then None
      else case account_by_mapping ''ali_id'' self d of
             None \<Rightarrow> None
           | Some a \<Rightarrow>
               (case ca_extra a of
                  PDict extra \<Rightarrow>
                    if ca_pid a \<noteq> platform_pid \<or> dict_get_none extra ''is_self'' \<noteq> PBool True
                      \<or> dict_get_none extra ''ali_id'' \<noteq> PStr self
                    then None else validate extra
                | _ \<Rightarrow> None))"

definition get_user_info :: "((string \<times> pyval) list \<Rightarrow> user_info option) \<Rightarrow> string \<Rightarrow> sync_db \<Rightarrow> user_info option" where
  "get_user_info validate identifier d =
     (case account_by_any_mapping identifier d of
        None \<Rightarrow> None
      | Some a \<Rightarrow> (case ca_extra a of PDict extra \<Rightarrow> validate extra | _ \<Rightarrow> None))"

end
