(* ===== verification/Crm_Sync_Props.thy ===== *)
theory Crm_Sync_Props
  imports Crm_Sync
begin

text \<open>
  What a synchronisation never changes: which account an alias names, which customer an account belongs to, what a
  user edited of a customer, and which account a conversation is with. \<open>crm_ok\<close> is the invariant behind the last: the
  contact of a conversation has its account id as an alias.
\<close>

section \<open>Saved rows\<close>

definition fresh_keys :: "sdk \<Rightarrow> bool" where
  "fresh_keys sk \<longleftrightarrow> (\<forall>t ids. sk_fresh sk t ids \<notin> set ids)"

text \<open>
  A saved row: the rows that were there are the first ones still, changed only at the key that was saved, and there is at
  most one more.
\<close>

lemma save_sdk_row_spec:
  fixes key :: "'r \<Rightarrow> int" and edit :: "'r \<Rightarrow> 'r \<Rightarrow> 'r" and t :: "'r list"
  assumes "save_sdk_row key with_key edit fresh pk row t = (k, t')" "\<And>i r. key (with_key i r) = i" "\<And>p r. key (edit p r) = key r"
    and "\<And>ids. fresh ids \<notin> set ids"
  shows "distinct (map key t) \<Longrightarrow> distinct (map key t')" "\<And>i. pk = Some i \<Longrightarrow> k = i"
    and "\<And>r. r \<in> set t \<Longrightarrow> (if pk = Some (key r) then edit row r else r) \<in> set t'"
    and "\<And>r'. r' \<in> set t' \<Longrightarrow> r' = with_key k row \<or> (\<exists>r \<in> set t. r' = (if pk = Some (key r) then edit row r else r))"
proof -
  have old: "(\<exists>i. pk = Some i \<and> k = i \<and> i \<in> key ` set t \<and> t' = update_rows (\<lambda>r. key r = i) (edit row) t)
      \<or> (k \<notin> key ` set t \<and> t' = t @ [with_key k row] \<and> pk \<in> {None, Some k})"
  proof (cases pk)
    case None
    then have "k = fresh (map key t)" "t' = t @ [with_key k row]" using assms(1) by (auto simp: save_sdk_row_def Let_def)
    then show ?thesis using assms(4) [of "map key t"] None by auto
  next
    case (Some i)
    show ?thesis
    proof (cases "find (\<lambda>r. key r = i) t = None")
      case True
      then have "k = i" "t' = t @ [with_key k row]" using assms(1) Some by (auto simp: save_sdk_row_def)
      moreover have "i \<notin> key ` set t" using True by (auto simp: find_None_iff)
      ultimately show ?thesis using Some by blast
    next
      case False
      then have "k = i" "t' = update_rows (\<lambda>r. key r = i) (edit row) t" using assms(1) Some by (auto simp: save_sdk_row_def)
      moreover have "i \<in> key ` set t" using False by (auto simp: find_None_iff)
      ultimately show ?thesis using Some by blast
    qed
  qed
  show "distinct (map key t')" if "distinct (map key t)"
    using old that assms(2) map_key_update_rows [of _ key "edit row" t] assms(3) by (elim disjE exE conjE) simp_all
  show "k = i" if "pk = Some i" for i using old that by auto
  show "(if pk = Some (key r) then edit row r else r) \<in> set t'" if "r \<in> set t" for r
    using old that by (elim disjE exE conjE) (auto simp: set_update_rows image_iff split: if_splits)
  show "r' = with_key k row \<or> (\<exists>r \<in> set t. r' = (if pk = Some (key r) then edit row r else r))" if "r' \<in> set t'" for r'
    using old that
  proof (elim disjE exE conjE)
    fix i assume "pk = Some i" "t' = update_rows (\<lambda>r. key r = i) (edit row) t"
    then show ?thesis using that by (auto simp: set_update_rows split: if_splits)
  next
    assume a: "k \<notin> key ` set t" "t' = t @ [with_key k row]" "pk \<in> {None, Some k}"
    then have "r' = with_key k row \<or> r' \<in> set t" using that by auto
    moreover have "pk \<noteq> Some (key r')" if "r' \<in> set t" using a that by auto
    ultimately show ?thesis by force
  qed
qed

section \<open>Aliases\<close>

text \<open>New aliases come after the old ones, and only for names that had none.\<close>

definition only_new_aliases :: "mapping_row list \<Rightarrow> mapping_row list \<Rightarrow> bool" where
  "only_new_aliases ms ms' \<longleftrightarrow>
     (\<exists>new. ms' = ms @ new \<and> (\<forall>m \<in> set new. \<forall>x \<in> set ms. \<not> (mp_type x = mp_type m \<and> mp_key x = mp_key m)))"

lemma only_new_refl [simp]: "only_new_aliases ms ms"
  by (auto simp: only_new_aliases_def)

lemma only_new_trans: "only_new_aliases a b \<Longrightarrow> only_new_aliases b c \<Longrightarrow> only_new_aliases a c"
proof -
  assume "only_new_aliases a b" "only_new_aliases b c"
  then obtain x y where "b = a @ x" "\<forall>m \<in> set x. \<forall>z \<in> set a. \<not> (mp_type z = mp_type m \<and> mp_key z = mp_key m)"
    "c = b @ y" "\<forall>m \<in> set y. \<forall>z \<in> set b. \<not> (mp_type z = mp_type m \<and> mp_key z = mp_key m)"
    unfolding only_new_aliases_def by blast
  then show "only_new_aliases a c"
    unfolding only_new_aliases_def by (intro exI [of _ "x @ y"]) auto
qed

lemma alias_rows_mem: "m \<in> set (alias_rows ty key d) \<longleftrightarrow> m \<in> set (sd_mappings d) \<and> mp_type m = ty \<and> mp_key m = key"
  by (auto simp: alias_rows_def)

lemma upsert_mapping_spec:
  assumes "\<forall>m \<in> set (alias_rows ty key d). mp_aid m = aid" "key \<noteq> []"
  obtains ms where "upsert_mapping sk aid ty key d = d\<lparr>sd_mappings := ms\<rparr>" "only_new_aliases (sd_mappings d) ms"
    "\<forall>m \<in> set ms. m \<in> set (sd_mappings d) \<or> mp_aid m = aid"
    "\<exists>m \<in> set ms. mp_type m = ty \<and> mp_key m = key \<and> mp_aid m = aid"
proof (cases "alias_rows ty key d")
  case Nil
  then have none: "\<forall>x \<in> set (sd_mappings d). \<not> (mp_type x = ty \<and> mp_key x = key)"
    by (auto simp: alias_rows_def filter_empty_conv)
  define m where "m = \<lparr>mp_id = sk_fresh sk ''accountmapping'' (map mp_id (sd_mappings d)), mp_aid = aid, mp_type = ty, mp_key = key\<rparr>"
  have "upsert_mapping sk aid ty key d = d\<lparr>sd_mappings := sd_mappings d @ [m]\<rparr>"
    using Nil assms(2) by (simp add: upsert_mapping_def save_mapping_def save_sdk_row_def Let_def m_def)
  moreover have "only_new_aliases (sd_mappings d) (sd_mappings d @ [m])"
    unfolding only_new_aliases_def using none by (intro exI [of _ "[m]"]) (simp add: m_def)
  ultimately show thesis by (rule that) (simp_all add: m_def)
next
  case (Cons m ms)
  then have "m \<in> set (alias_rows ty key d)" by simp
  then have m: "m \<in> set (sd_mappings d)" "mp_type m = ty" "mp_key m = key" "mp_aid m = aid"
    using assms(1) by (auto simp: alias_rows_mem)
  have "upsert_mapping sk aid ty key d = d\<lparr>sd_mappings := sd_mappings d\<rparr>"
    using Cons assms(2) m(4) by (simp add: upsert_mapping_def)
  then show thesis by (rule that) (use m in auto)
qed

lemma upsert_mappings_spec:
  assumes "\<forall>(ty, key) \<in> set as. key \<noteq> [] \<and> (\<forall>m \<in> set (alias_rows ty key d). mp_aid m = aid)"
  shows "\<exists>ms. fold (\<lambda>(ty, key). upsert_mapping sk aid ty key) as d = d\<lparr>sd_mappings := ms\<rparr>
    \<and> only_new_aliases (sd_mappings d) ms \<and> (\<forall>m \<in> set ms. m \<in> set (sd_mappings d) \<or> mp_aid m = aid)
    \<and> (\<forall>(ty, key) \<in> set as. \<exists>m \<in> set ms. mp_type m = ty \<and> mp_key m = key \<and> mp_aid m = aid)"
  using assms
proof (induction as arbitrary: d)
  case Nil
  then show ?case by (intro exI [of _ "sd_mappings d"]) simp
next
  case (Cons a as)
  obtain ty key where a: "a = (ty, key)" by force
  obtain ms where ms: "upsert_mapping sk aid ty key d = d\<lparr>sd_mappings := ms\<rparr>" "only_new_aliases (sd_mappings d) ms"
      "\<forall>m \<in> set ms. m \<in> set (sd_mappings d) \<or> mp_aid m = aid"
      "\<exists>m \<in> set ms. mp_type m = ty \<and> mp_key m = key \<and> mp_aid m = aid"
    using upsert_mapping_spec [of ty key d aid sk] Cons.prems a by auto
  have "\<forall>(ty, key) \<in> set as. key \<noteq> [] \<and> (\<forall>m \<in> set (alias_rows ty key (d\<lparr>sd_mappings := ms\<rparr>)). mp_aid m = aid)"
  proof (intro ballI, clarify)
    fix t k assume "(t, k) \<in> set as"
    then have old: "k \<noteq> []" "\<forall>m \<in> set (alias_rows t k d). mp_aid m = aid" using Cons.prems by auto
    show "k \<noteq> [] \<and> (\<forall>m \<in> set (alias_rows t k (d\<lparr>sd_mappings := ms\<rparr>)). mp_aid m = aid)"
    proof (intro conjI ballI)
      fix m assume "m \<in> set (alias_rows t k (d\<lparr>sd_mappings := ms\<rparr>))"
      then have m: "m \<in> set ms" "mp_type m = t" "mp_key m = k" by (simp_all add: alias_rows_mem)
      show "mp_aid m = aid"
      proof (cases "m \<in> set (sd_mappings d)")
        case True
        then have "m \<in> set (alias_rows t k d)" using m by (simp add: alias_rows_mem)
        then show ?thesis using old(2) by blast
      qed (use m(1) ms(3) in blast)
    qed (rule old(1))
  qed
  from Cons.IH [OF this] obtain ms' where
    r: "fold (\<lambda>(ty, key). upsert_mapping sk aid ty key) as (d\<lparr>sd_mappings := ms\<rparr>) = d\<lparr>sd_mappings := ms'\<rparr>"
      "only_new_aliases ms ms'" "\<forall>m \<in> set ms'. m \<in> set ms \<or> mp_aid m = aid"
      "\<forall>(ty, key) \<in> set as. \<exists>m \<in> set ms'. mp_type m = ty \<and> mp_key m = key \<and> mp_aid m = aid" by auto
  have "set ms \<subseteq> set ms'" using r(2) by (auto simp: only_new_aliases_def)
  then show ?case
    using ms r only_new_trans [OF ms(2) r(2)] by (intro exI [of _ ms']) (auto simp: a)
qed

section \<open>Accounts and customers\<close>

text \<open>What a user may have edited of a customer, and the customer of an account.\<close>

definition customer_kept :: "customer_row \<Rightarrow> customer_row \<Rightarrow> bool" where
  "customer_kept c c' \<longleftrightarrow> cu_cid c' = cu_cid c \<and> (truthy (cu_name c) \<longrightarrow> cu_name c' = cu_name c) \<and> cu_sex c' = cu_sex c
     \<and> cu_birthdate c' = cu_birthdate c \<and> (truthy (cu_region c) \<longrightarrow> cu_region c' = cu_region c) \<and> cu_image c' = cu_image c"

definition account_kept :: "crm_account \<Rightarrow> crm_account \<Rightarrow> bool" where
  "account_kept a a' \<longleftrightarrow> ca_aid a' = ca_aid a \<and> (ca_cid a \<noteq> None \<longrightarrow> ca_cid a' = ca_cid a)"

definition kept_rows :: "('r \<Rightarrow> 'r \<Rightarrow> bool) \<Rightarrow> 'r list \<Rightarrow> 'r list \<Rightarrow> bool" where
  "kept_rows R t t' \<longleftrightarrow> (\<forall>r \<in> set t. \<exists>r' \<in> set t'. R r r')"

lemma kept_rows_refl: "(\<And>r. R r r) \<Longrightarrow> kept_rows R t t"
  by (auto simp: kept_rows_def)

lemma kept_rows_trans: "kept_rows R t u \<Longrightarrow> kept_rows R u v \<Longrightarrow> (\<And>a b c. R a b \<Longrightarrow> R b c \<Longrightarrow> R a c) \<Longrightarrow> kept_rows R t v"
  unfolding kept_rows_def by meson

lemma customer_kept_refl: "customer_kept c c"
  by (simp add: customer_kept_def)

lemma customer_kept_trans: "customer_kept a b \<Longrightarrow> customer_kept b c \<Longrightarrow> customer_kept a c"
  by (auto simp: customer_kept_def)

lemma account_kept_refl: "account_kept a a"
  by (simp add: account_kept_def)

lemma account_kept_trans: "account_kept a b \<Longrightarrow> account_kept b c \<Longrightarrow> account_kept a c"
  by (auto simp: account_kept_def)

text \<open>Primary keys.\<close>

definition db_keys :: "sync_db \<Rightarrow> bool" where
  "db_keys d \<longleftrightarrow> distinct (map cu_cid (sd_customers d)) \<and> distinct (map ca_aid (sd_accounts d)) \<and> distinct (map se_sid (sd_sessions d))"

lemma hit_mem:
  assumes "(ty, key) \<in> set (aliases i)" "m \<in> set (alias_rows ty key d)"
  shows "mp_aid m \<in> set (hit_aids i d)"
proof -
  have "(ty, key, mp_aid m) \<in> set (mapping_hits i d)"
    using assms by (auto simp: mapping_hits_def intro!: bexI [of _ "(ty, key)"])
  then show ?thesis unfolding hit_aids_def set_dedup set_map by (rule rev_image_eqI) simp
qed

lemma account_getD: "account_get aid d = Some a \<Longrightarrow> a \<in> set (sd_accounts d) \<and> ca_aid a = aid"
  by (auto simp: account_get_def dest: find_SomeD)

lemma known_account_cases:
  assumes "known_account i d = Inr acc"
  shows "acc = None \<and> hit_aids i d = [] \<or> (\<exists>a. acc = Some a \<and> hit_aids i d = [ca_aid a] \<and> account_get (ca_aid a) d = Some a)"
proof (cases "hit_aids i d")
  case Nil
  then show ?thesis using assms by (simp add: known_account_def)
next
  case (Cons aid rest)
  then have "rest = [] \<and> account_get aid d = acc \<and> acc \<noteq> None"
    using assms by (cases rest; cases "account_get aid d") (auto simp: known_account_def)
  then show ?thesis using Cons account_getD [of aid d] by auto
qed

lemma known_account_rows:
  assumes "known_account i d = Inr acc" "(ty, key) \<in> set (aliases i)" "m \<in> set (alias_rows ty key d)"
  shows "\<exists>a. acc = Some a \<and> mp_aid m = ca_aid a"
  using known_account_cases [OF assms(1)] hit_mem [OF assms(2,3)] by auto

lemma save_customer_spec:
  assumes "save_customer sk pk row d = (k, d')" "fresh_keys sk" "db_keys d"
    and "\<And>c. c \<in> set (sd_customers d) \<Longrightarrow> pk = Some (cu_cid c) \<Longrightarrow> customer_kept c (edit_customer ed row c)"
    and "ed = sk_edit sk ''customer''"
  shows "kept_rows customer_kept (sd_customers d) (sd_customers d')" "db_keys d'" "\<And>i. pk = Some i \<Longrightarrow> k = i"
    "\<exists>t. d' = d\<lparr>sd_customers := t\<rparr>"
proof -
  obtain t where t: "save_sdk_row cu_cid (\<lambda>k r. r\<lparr>cu_cid := k\<rparr>) (edit_customer ed) (sk_fresh sk ''customer'') pk row (sd_customers d) = (k, t)"
    "d' = d\<lparr>sd_customers := t\<rparr>"
    using assms(1,5) by (auto simp: save_customer_def split: prod.splits)
  have fresh: "sk_fresh sk ''customer'' ids \<notin> set ids" for ids using assms(2) by (simp add: fresh_keys_def)
  note spec = save_sdk_row_spec [OF t(1) _ _ fresh]
  have key: "cu_cid (edit_customer e p r) = cu_cid r" for e p r by (simp add: edit_customer_def)
  show "\<exists>t. d' = d\<lparr>sd_customers := t\<rparr>" using t(2) by blast
  show "k = i" if "pk = Some i" for i using spec(2) that key by simp
  show "db_keys d'" using assms(3) spec(1) key t(2) by (simp add: db_keys_def)
  show "kept_rows customer_kept (sd_customers d) (sd_customers d')"
    unfolding kept_rows_def
  proof
    fix c assume c: "c \<in> set (sd_customers d)"
    from spec(3) [OF _ _ c] key have "(if pk = Some (cu_cid c) then edit_customer ed row c else c) \<in> set t" by simp
    then show "\<exists>c' \<in> set (sd_customers d'). customer_kept c c'"
      using assms(4) [OF c] customer_kept_refl [of c] t(2) by (auto split: if_splits)
  qed
qed

lemma save_account_spec:
  assumes "save_account sk pk row d = (k, d')" "fresh_keys sk" "db_keys d"
    and "\<And>a. a \<in> set (sd_accounts d) \<Longrightarrow> pk = Some (ca_aid a) \<Longrightarrow> ca_cid a \<noteq> None \<Longrightarrow> ca_cid row = ca_cid a"
  shows "kept_rows account_kept (sd_accounts d) (sd_accounts d')" "db_keys d'" "\<And>i. pk = Some i \<Longrightarrow> k = i"
    "\<exists>t. d' = d\<lparr>sd_accounts := t\<rparr>"
proof -
  let ?ed = "sk_edit sk ''account''"
  obtain t where t: "save_sdk_row ca_aid (\<lambda>k r. r\<lparr>ca_aid := k\<rparr>) (edit_account ?ed) (sk_fresh sk ''account'') pk row (sd_accounts d) = (k, t)"
    "d' = d\<lparr>sd_accounts := t\<rparr>"
    using assms(1) by (auto simp: save_account_def split: prod.splits)
  have fresh: "sk_fresh sk ''account'' ids \<notin> set ids" for ids using assms(2) by (simp add: fresh_keys_def)
  note spec = save_sdk_row_spec [OF t(1) _ _ fresh]
  have key: "ca_aid (edit_account e p r) = ca_aid r" for e p r by (simp add: edit_account_def)
  show "\<exists>t. d' = d\<lparr>sd_accounts := t\<rparr>" using t(2) by blast
  show "k = i" if "pk = Some i" for i using spec(2) that key by simp
  show "db_keys d'" using assms(3) spec(1) key t(2) by (simp add: db_keys_def)
  show "kept_rows account_kept (sd_accounts d) (sd_accounts d')"
    unfolding kept_rows_def
  proof
    fix a assume a: "a \<in> set (sd_accounts d)"
    from spec(3) [OF _ _ a] key have "(if pk = Some (ca_aid a) then edit_account ?ed row a else a) \<in> set t" by simp
    moreover have "account_kept a (edit_account ?ed row a)" if "pk = Some (ca_aid a)"
      using assms(4) [OF a that] by (simp add: account_kept_def edit_account_def)
    ultimately show "\<exists>a' \<in> set (sd_accounts d'). account_kept a a'"
      using account_kept_refl [of a] t(2) by (auto split: if_splits)
  qed
qed

text \<open>A customer found by its key is edited only where nothing was entered yet.\<close>

lemma customer_payload_keeps:
  assumes "customer_payload sk acc p d = (pk, row)" "db_keys d" "c \<in> set (sd_customers d)" "pk = Some (cu_cid c)"
  shows "customer_kept c (edit_customer ed row c)"
proof -
  have "customer_get pk d = Some c"
    using assms(2-4) find_Some_iff_distinct [of cu_cid "sd_customers d" c] by (simp add: customer_get_def db_keys_def)
  moreover have "pk = (case acc of None \<Rightarrow> None | Some a \<Rightarrow> ca_cid a)"
    using assms(1) by (auto simp: customer_payload_def Let_def split: option.splits)
  ultimately have "row = c\<lparr>cu_name := cu_name row, cu_region := cu_region row, cu_extra := cu_extra row\<rparr>
      \<and> (truthy (cu_name c) \<longrightarrow> cu_name row = cu_name c) \<and> (truthy (cu_region c) \<longrightarrow> cu_region row = cu_region c)"
    using assms(1) by (auto simp: customer_payload_def Let_def or_value_def)
  then have "cu_sex row = cu_sex c" "cu_birthdate row = cu_birthdate c" "cu_image row = cu_image c"
    "truthy (cu_name c) \<longrightarrow> cu_name row = cu_name c" "truthy (cu_region c) \<longrightarrow> cu_region row = cu_region c"
    by (metis customer_row.select_convs customer_row.simps customer_row.surjective customer_row.update_convs)+
  then show ?thesis by (simp add: customer_kept_def edit_customer_def)
qed

section \<open>What a write keeps\<close>

text \<open>
  The contact of a conversation, its second participant, and the invariant: a contact has the account id of its
  conversation's key as an alias.
\<close>

definition session_contact :: "decoders \<Rightarrow> session_meta \<Rightarrow> int option" where
  "session_contact dc s = (case participants_list dc (se_participants s) of Inr (_ # PInt a # _) \<Rightarrow> Some a | _ \<Rightarrow> None)"

definition session_kept :: "decoders \<Rightarrow> session_meta \<Rightarrow> session_meta \<Rightarrow> bool" where
  "session_kept dc s s' \<longleftrightarrow> se_sid s' = se_sid s \<and> se_key s' = se_key s
     \<and> (session_contact dc s \<noteq> None \<longrightarrow> session_contact dc s' = session_contact dc s)"

definition anchored_row :: "decoders \<Rightarrow> mapping_row list \<Rightarrow> session_meta \<Rightarrow> bool" where
  "anchored_row dc ms s \<longleftrightarrow> (\<forall>self contact a. CHR '':'' \<notin> set self \<longrightarrow> se_key s = session_key self contact \<longrightarrow>
     session_contact dc s = Some a \<longrightarrow> (\<exists>m \<in> set ms. mp_type m = ''ali_id'' \<and> mp_key m = contact \<and> mp_aid m = a))"

definition anchored :: "decoders \<Rightarrow> sync_db \<Rightarrow> bool" where
  "anchored dc d \<longleftrightarrow> (\<forall>s \<in> set (sd_sessions d). anchored_row dc (sd_mappings d) s)"

definition crm_ok :: "sync_world \<Rightarrow> sync_db \<Rightarrow> bool" where
  "crm_ok w d \<longleftrightarrow> db_keys d \<and> anchored (sw_decoders w) d"

definition identities_kept :: "sync_world \<Rightarrow> sync_db \<Rightarrow> sync_db \<Rightarrow> bool" where
  "identities_kept w d d' \<longleftrightarrow> only_new_aliases (sd_mappings d) (sd_mappings d')
     \<and> kept_rows customer_kept (sd_customers d) (sd_customers d')
     \<and> kept_rows account_kept (sd_accounts d) (sd_accounts d')
     \<and> kept_rows (session_kept (sw_decoders w)) (sd_sessions d) (sd_sessions d')"

lemma session_kept_refl: "session_kept dc s s"
  by (simp add: session_kept_def)

lemma session_kept_trans: "session_kept dc a b \<Longrightarrow> session_kept dc b c \<Longrightarrow> session_kept dc a c"
  by (auto simp: session_kept_def)

lemma kept_refl: "identities_kept w d d"
  unfolding identities_kept_def
  by (intro conjI only_new_refl kept_rows_refl customer_kept_refl account_kept_refl session_kept_refl)

lemma kept_trans: "identities_kept w a b \<Longrightarrow> identities_kept w b c \<Longrightarrow> identities_kept w a c"
  unfolding identities_kept_def
  by (elim conjE, intro conjI)
     (erule (1) only_new_trans kept_rows_trans,
      (rule customer_kept_trans account_kept_trans session_kept_trans, assumption, assumption)?)+

lemma anchored_more:
  assumes "anchored dc d" "sd_sessions d' = sd_sessions d" "set (sd_mappings d) \<subseteq> set (sd_mappings d')"
  shows "anchored dc d'"
proof -
  have "anchored_row dc (sd_mappings d') s" if "anchored_row dc (sd_mappings d) s" for s
    using that assms(3) unfolding anchored_row_def by blast
  then show ?thesis using assms(1,2) unfolding anchored_def by simp
qed

definition safe_write :: "sync_world \<Rightarrow> sync_db \<Rightarrow> sync_db \<Rightarrow> bool" where
  "safe_write w d d' \<longleftrightarrow> (crm_ok w d \<longrightarrow> crm_ok w d' \<and> identities_kept w d d')"

lemma safe_refl [simp]: "safe_write w d d"
  by (simp add: safe_write_def kept_refl)

lemma safe_trans: "safe_write w a b \<Longrightarrow> safe_write w b c \<Longrightarrow> safe_write w a c"
  unfolding safe_write_def using kept_trans by blast

text \<open>Writes of tables nobody looks at here.\<close>

lemma safe_same:
  assumes "sd_customers d' = sd_customers d" "sd_accounts d' = sd_accounts d" "sd_mappings d' = sd_mappings d" "sd_sessions d' = sd_sessions d"
  shows "safe_write w d d'"
proof -
  have "identities_kept w d d'" using kept_refl [of w d] assms by (simp add: identities_kept_def)
  moreover have "crm_ok w d \<Longrightarrow> crm_ok w d'" using assms by (simp add: crm_ok_def db_keys_def anchored_def)
  ultimately show ?thesis by (simp add: safe_write_def)
qed

lemma write_account_spec:
  assumes "write_account sk acc p d = (aid, d')" "known_account (pf_identity p) d = Inr acc" "fresh_keys sk" "db_keys d"
  shows "only_new_aliases (sd_mappings d) (sd_mappings d')" "kept_rows customer_kept (sd_customers d) (sd_customers d')"
    "kept_rows account_kept (sd_accounts d) (sd_accounts d')" "sd_sessions d' = sd_sessions d" "db_keys d'"
    and "(ty, key) \<in> set (aliases (pf_identity p)) \<Longrightarrow> \<exists>m \<in> set (sd_mappings d'). mp_type m = ty \<and> mp_key m = key \<and> mp_aid m = aid"
    and "(ty, key) \<in> set (aliases (pf_identity p)) \<Longrightarrow> m \<in> set (alias_rows ty key d) \<Longrightarrow> mp_aid m = aid"
proof -
  obtain pk row where c: "customer_payload sk acc p d = (pk, row)" by force
  obtain cid d1 where d1: "save_customer sk pk row d = (cid, d1)" by force
  obtain d2 where d2: "save_account sk (map_option ca_aid acc) (account_payload acc cid p) d1 = (aid, d2)"
    and d': "d' = fold (\<lambda>(ty, key). upsert_mapping sk aid ty key) (aliases (pf_identity p)) d2"
    using assms(1) by (auto simp: write_account_def c d1 split: prod.splits)
  note s1 = save_customer_spec [OF d1 assms(3,4) customer_payload_keeps [OF c assms(4)] refl]
  have pk: "pk = (case acc of None \<Rightarrow> None | Some a \<Rightarrow> ca_cid a)"
    using c by (auto simp: customer_payload_def Let_def split: option.splits)
  have accounts: "sd_accounts d1 = sd_accounts d" using s1(4) by auto
  have same: "ca_cid (account_payload acc cid p) = ca_cid a"
    if a: "a \<in> set (sd_accounts d1)" "map_option ca_aid acc = Some (ca_aid a)" "ca_cid a \<noteq> None" for a
  proof -
    obtain b where b: "acc = Some b" "account_get (ca_aid b) d = Some b"
      using known_account_cases [OF assms(2)] a(2) by auto
    have "account_get (ca_aid a) d = Some a"
      using a(1) accounts assms(4) find_Some_iff_distinct [of ca_aid "sd_accounts d" a] by (simp add: account_get_def db_keys_def)
    then have "b = a" using b a(2) by auto
    then show ?thesis using a(3) b(1) s1(3) pk by (auto simp: account_payload_def Let_def)
  qed
  note s2 = save_account_spec [OF d2 assms(3) s1(2) same]
  have mappings: "sd_mappings d2 = sd_mappings d" "sd_sessions d2 = sd_sessions d" "sd_customers d2 = sd_customers d1"
    using s1(4) s2(4) by auto
  have rows: "alias_rows ty key d2 = alias_rows ty key d" for ty key by (simp add: alias_rows_def mappings)
  have mine: "mp_aid m = aid" if "(ty, key) \<in> set (aliases (pf_identity p))" "m \<in> set (alias_rows ty key d)" for ty key m
    using known_account_rows [OF assms(2) that] s2(3) by auto
  have "\<forall>(ty, key) \<in> set (aliases (pf_identity p)). key \<noteq> [] \<and> (\<forall>m \<in> set (alias_rows ty key d2). mp_aid m = aid)"
    using mine by (auto simp: rows aliases_def)
  from upsert_mappings_spec [OF this, of sk] obtain ms where
    ms: "d' = d2\<lparr>sd_mappings := ms\<rparr>" "only_new_aliases (sd_mappings d) ms"
      "\<forall>(ty, key) \<in> set (aliases (pf_identity p)). \<exists>m \<in> set ms. mp_type m = ty \<and> mp_key m = key \<and> mp_aid m = aid"
    by (auto simp: d' mappings)
  show "only_new_aliases (sd_mappings d) (sd_mappings d')" using ms by simp
  show "kept_rows customer_kept (sd_customers d) (sd_customers d')" using ms(1) mappings s1(1) by simp
  show "kept_rows account_kept (sd_accounts d) (sd_accounts d')" using ms(1) s2(1) accounts by simp
  show "sd_sessions d' = sd_sessions d" using ms(1) mappings by simp
  show "db_keys d'" using ms(1) s2(2) by (simp add: db_keys_def)
  show "\<exists>m \<in> set (sd_mappings d'). mp_type m = ty \<and> mp_key m = key \<and> mp_aid m = aid"
    if "(ty, key) \<in> set (aliases (pf_identity p))" using that ms by auto
  show "mp_aid m = aid" if "(ty, key) \<in> set (aliases (pf_identity p))" "m \<in> set (alias_rows ty key d)"
    using mine that .
qed

section \<open>A whole synchronisation\<close>

lemma upsert_account_safe:
  assumes "upsert_account (sw_sdk w) p d = Inr (aid, d')" "fresh_keys (sw_sdk w)"
  shows "safe_write w d d'"
proof (cases "aliases (pf_identity p) = []")
  case True
  then show ?thesis using assms(1) by (simp add: upsert_account_def)
next
  case False
  obtain acc a where acc: "known_account (pf_identity p) d = Inr acc" "write_account (sw_sdk w) acc p d = (a, d')"
    using assms(1) False by (auto simp: upsert_account_def split: sum.splits prod.splits)
  show ?thesis
    unfolding safe_write_def
  proof
    assume ok: "crm_ok w d"
    then have keys: "db_keys d" by (simp add: crm_ok_def)
    note spec = write_account_spec [OF acc(2,1) assms(2) keys]
    have "set (sd_mappings d) \<subseteq> set (sd_mappings d')" using spec(1) by (auto simp: only_new_aliases_def)
    then have "anchored (sw_decoders w) d'" using ok spec(4) anchored_more unfolding crm_ok_def by blast
    moreover have "kept_rows (session_kept (sw_decoders w)) (sd_sessions d) (sd_sessions d')"
      by (simp add: spec(4) kept_rows_refl session_kept_refl)
    ultimately show "crm_ok w d' \<and> identities_kept w d d'"
      using spec by (simp add: crm_ok_def identities_kept_def)
  qed
qed

text \<open>The account found for a contact is the one its account id names.\<close>

definition names_account :: "string \<Rightarrow> int \<Rightarrow> sync_db \<Rightarrow> bool" where
  "names_account contact aid d \<longleftrightarrow> (\<exists>m \<in> set (sd_mappings d). mp_type m = ''ali_id'' \<and> mp_key m = contact \<and> mp_aid m = aid)"

lemma contact_alias:
  assumes "pool_inv pool" "contact \<noteq> []"
  shows "(''ali_id'', contact) \<in> set (aliases (pf_identity (contact_profile pool contact)))"
proof -
  have "ui_ali_id i = contact" if "pool_get contact pool = Some i" for i
    using assms(1) pool_okD(1) [of pool contact i] that by (simp add: pool_inv_def pool_get_def)
  then show ?thesis
    using assms(2) by (auto simp: contact_profile_def user_profile_def bare_profile_def aliases_def alias_types_def split: option.split)
qed

lemma dedup_single: "dedup xs = [e] \<Longrightarrow> set xs = {e}"
  by (metis set_dedup list.set(1,2))

text \<open>
  The contact chosen for a conversation is named by its account id, and it is the committed one where there was
  one that is anchored.
\<close>

lemma contact_account_spec:
  assumes "contact_account w pool self contact d = Inr (aid, d')" "fresh_keys (sw_sdk w)" "pool_inv pool" "contact \<noteq> []"
    and "crm_ok w d" "CHR '':'' \<notin> set self"
  shows "safe_write w d d'"
    and "\<And>s a. session_by_key (session_key self contact) d = Some s \<Longrightarrow> session_contact (sw_decoders w) s = Some a \<Longrightarrow> aid = a"
    and "names_account contact aid d'" and "sd_sessions d' = sd_sessions d"
proof -
  let ?p = "contact_profile pool contact" and ?dc = "sw_decoders w"
  have anchor: "names_account contact a d"
    if "session_by_key (session_key self contact) d = Some s" "session_contact ?dc s = Some a" for s a
  proof -
    have "s \<in> set (sd_sessions d)" "se_key s = session_key self contact"
      using find_SomeD [OF that(1) [unfolded session_by_key_def]] by auto
    then show ?thesis
      using assms(5,6) that(2) unfolding crm_ok_def anchored_def anchored_row_def names_account_def by blast
  qed
  have own_alias: "(''ali_id'', contact) \<in> set (aliases (pf_identity ?p))" by (rule contact_alias [OF assms(3,4)])
  then have some: "aliases (pf_identity ?p) \<noteq> []" by auto
  consider (clear) acc where "known_account (pf_identity ?p) d = Inr acc" "write_account (sw_sdk w) acc ?p d = (aid, d')"
    | (conflict) "d' = d" "resolve_conflicted_contact ?dc self contact d = Inr (Some aid)"
  proof (cases "upsert_account (sw_sdk w) ?p d")
    case (Inl c)
    then show thesis using assms(1) conflict
      by (auto simp: contact_account_def and_then_Inr_iff split: option.splits)
  next
    case (Inr r)
    then obtain acc where acc: "known_account (pf_identity ?p) d = Inr acc"
      using some by (auto simp: upsert_account_def split: sum.splits)
    obtain a e where "write_account (sw_sdk w) acc ?p d = (a, e)" by force
    then have "write_account (sw_sdk w) acc ?p d = (aid, d')"
      using assms(1) acc some by (simp add: contact_account_def upsert_account_def)
    with acc show thesis by (rule clear)
  qed
  then have "safe_write w d d' \<and> names_account contact aid d' \<and> sd_sessions d' = sd_sessions d
    \<and> (\<forall>s a. session_by_key (session_key self contact) d = Some s \<longrightarrow> session_contact ?dc s = Some a \<longrightarrow> aid = a)"
  proof cases
    case clear
    have "upsert_account (sw_sdk w) ?p d = Inr (Some aid, d')" using clear some by (simp add: upsert_account_def)
    then have "safe_write w d d'" by (rule upsert_account_safe [OF _ assms(2)])
    moreover note spec = write_account_spec [OF clear(2,1) assms(2)]
    have "names_account contact aid d'"
      using spec(6) [OF _ own_alias] assms(5) unfolding names_account_def crm_ok_def by blast
    moreover have "sd_sessions d' = sd_sessions d" using spec(4) assms(5) by (simp add: crm_ok_def)
    moreover have "aid = a" if "session_by_key (session_key self contact) d = Some s" "session_contact ?dc s = Some a" for s a
      using anchor [OF that] spec(7) [OF _ own_alias] assms(5) unfolding names_account_def crm_ok_def alias_rows_mem by blast
    ultimately show ?thesis by blast
  next
    case conflict
    define exact where "exact = dedup (map mp_aid (alias_rows ''ali_id'' contact d))"
    have named: "names_account contact a d \<longleftrightarrow> a \<in> set exact" for a
      by (auto simp: exact_def names_account_def alias_rows_def)
    show ?thesis
    proof (cases "session_by_key (session_key self contact) d")
      case None
      then have "exact = [aid]"
        using conflict(2) by (auto simp: resolve_conflicted_contact_def exact_def [symmetric] split: list.splits if_splits)
      then show ?thesis using named conflict(1) None by auto
    next
      case (Some s)
      then obtain ps where ps: "participants_list ?dc (se_participants s) = Inr ps"
        using conflict(2) Some by (cases "participants_list ?dc (se_participants s)") (simp_all add: resolve_conflicted_contact_def Let_def)
      show ?thesis
      proof (cases "committed_contact ps d")
        case None
        then have one: "exact = [aid]"
          using conflict(2) Some ps
          by (auto simp: resolve_conflicted_contact_def exact_def [symmetric] split: list.splits if_splits)
        have "aid = a" if "session_contact ?dc s = Some a" for a
          using anchor [OF Some that] named one by simp
        then show ?thesis using named one conflict(1) Some by simp
      next
        case prior: (Some p)
        have contact: "session_contact ?dc s = Some p"
          using prior ps by (auto simp: committed_contact_def session_contact_def split: list.splits pyval.splits option.splits if_splits)
        have "aid = p"
          using conflict(2) Some ps prior
          by (auto simp: resolve_conflicted_contact_def exact_def [symmetric] split: list.splits if_splits)
        then show ?thesis using anchor [OF Some contact] contact conflict(1) Some by simp
      qed
    qed
  qed
  then show "safe_write w d d'" "names_account contact aid d'" "sd_sessions d' = sd_sessions d"
    "\<And>s a. session_by_key (session_key self contact) d = Some s \<Longrightarrow> session_contact (sw_decoders w) s = Some a \<Longrightarrow> aid = a"
    by blast+
qed

text \<open>A conversation's key has one reading, because an account id has no colon.\<close>

lemma session_key_inj:
  "CHR '':'' \<notin> set self \<Longrightarrow> CHR '':'' \<notin> set self' \<Longrightarrow> session_key self contact = session_key self' contact'
     \<Longrightarrow> self = self' \<and> contact = contact'"
  by (simp add: session_key_def sep_append_eq)

lemma session_contact_saved: "session_contact dc s = Some b" if "se_participants s = PList (map PInt [a, b])"
  using that by (simp add: session_contact_def participants_list_def)

lemma upsert_session_safe:
  assumes "upsert_session (sw_sdk w) self contact [self_aid, aid] d = (sid, d')" "fresh_keys (sw_sdk w)"
    and "CHR '':'' \<notin> set self" "names_account contact aid d"
    and "\<And>s a. session_by_key (session_key self contact) d = Some s \<Longrightarrow> session_contact (sw_decoders w) s = Some a \<Longrightarrow> aid = a"
  shows "safe_write w d d'"
  unfolding safe_write_def
proof
  assume ok: "crm_ok w d"
  let ?key = "session_key self contact" and ?dc = "sw_decoders w" and ?ed = "edit_session (sk_edit (sw_sdk w) ''session_meta'')"
  define row where "row = \<lparr>se_sid = 0, se_key = ?key, se_name = ?key, se_participants = PList (map PInt [self_aid, aid])\<rparr>"
  define pk where "pk = map_option se_sid (session_by_key ?key d)"
  obtain t where t: "save_sdk_row se_sid (\<lambda>k r. r\<lparr>se_sid := k\<rparr>) ?ed (sk_fresh (sw_sdk w) ''session_meta'') pk row (sd_sessions d) = (sid, t)"
    and d': "d' = d\<lparr>sd_sessions := t\<rparr>"
    using assms(1) by (auto simp: upsert_session_def save_session_def row_def pk_def Let_def split: prod.splits)
  have fresh: "sk_fresh (sw_sdk w) ''session_meta'' ids \<notin> set ids" for ids using assms(2) by (simp add: fresh_keys_def)
  have key: "se_sid (?ed p r) = se_sid r" for p r by (simp add: edit_session_def)
  note spec = save_sdk_row_spec [OF t _ _ fresh]
  have mine: "session_by_key ?key d = Some s \<and> se_key s = ?key" if s: "s \<in> set (sd_sessions d)" "pk = Some (se_sid s)" for s
  proof -
    obtain x where x: "session_by_key ?key d = Some x" "se_sid x = se_sid s" using s(2) by (auto simp: pk_def)
    then have "x \<in> set (sd_sessions d)" "se_key x = ?key" using find_SomeD [OF x(1) [unfolded session_by_key_def]] by auto
    moreover have "distinct (map se_sid (sd_sessions d))" using ok by (simp add: crm_ok_def db_keys_def)
    ultimately have "x = s" using x(2) s(1) by (metis find_Some_iff_distinct option.inject)
    then show ?thesis using x(1) \<open>se_key x = ?key\<close> by simp
  qed
  have anchored_new: "anchored_row ?dc (sd_mappings d) s" if "se_key s = ?key" "session_contact ?dc s = Some aid" for s
    unfolding anchored_row_def
  proof (intro allI impI)
    fix self' contact' a
    assume "CHR '':'' \<notin> set self'" "se_key s = session_key self' contact'" "session_contact ?dc s = Some a"
    then show "\<exists>m \<in> set (sd_mappings d). mp_type m = ''ali_id'' \<and> mp_key m = contact' \<and> mp_aid m = a"
      using session_key_inj [OF assms(3)] that assms(4) unfolding names_account_def by fastforce
  qed
  have edited: "se_key (?ed row s) = ?key \<and> (session_contact ?dc (?ed row s) = Some aid \<or> session_contact ?dc (?ed row s) = session_contact ?dc s)"
    if "se_key s = ?key" for s
  proof (cases "sk_edit (sw_sdk w) ''session_meta'' ''participants''")
    case True
    then have "se_participants (?ed row s) = PList (map PInt [self_aid, aid])" by (simp add: edit_session_def row_def)
    then show ?thesis using session_contact_saved that by (auto simp: edit_session_def row_def)
  next
    case False
    then show ?thesis using that by (simp add: edit_session_def row_def session_contact_def)
  qed
  have kept: "session_kept ?dc s (?ed row s)" if "s \<in> set (sd_sessions d)" "pk = Some (se_sid s)" for s
    using mine [OF that] edited [of s] assms(5) [of s] by (auto simp: session_kept_def key)
  have "kept_rows (session_kept ?dc) (sd_sessions d) t"
    unfolding kept_rows_def
  proof
    fix s assume s: "s \<in> set (sd_sessions d)"
    from spec(3) [OF _ _ s] key have "(if pk = Some (se_sid s) then ?ed row s else s) \<in> set t" by simp
    then show "\<exists>s' \<in> set t. session_kept ?dc s s'" using kept [OF s] session_kept_refl [of ?dc s] by (auto split: if_splits)
  qed
  moreover have "anchored_row ?dc (sd_mappings d) s'" if "s' \<in> set t" for s'
  proof -
    have old: "anchored_row ?dc (sd_mappings d) s" if "s \<in> set (sd_sessions d)" for s
      using ok that by (simp add: crm_ok_def anchored_def)
    from spec(4) [OF _ _ that] key consider "s' = row\<lparr>se_sid := sid\<rparr>"
      | s where "s \<in> set (sd_sessions d)" "s' = (if pk = Some (se_sid s) then ?ed row s else s)" by auto
    then show ?thesis
    proof cases
      case 1
      then show ?thesis using session_contact_saved by (intro anchored_new) (simp_all add: row_def)
    next
      case 2
      show ?thesis
      proof (cases "pk = Some (se_sid s)")
        case at: True
        note m = mine [OF 2(1) at] and e = edited [OF conjunct2 [OF mine [OF 2(1) at]]]
        show ?thesis
        proof (cases "session_contact ?dc (?ed row s) = Some aid")
          case True
          then show ?thesis using 2(2) at e by (simp add: anchored_new)
        next
          case False
          then have "session_contact ?dc (?ed row s) = session_contact ?dc s" using e by simp
          then show ?thesis using old [OF 2(1)] 2(2) at e m by (simp add: anchored_row_def)
        qed
      qed (use 2 old in simp)
    qed
  qed
  ultimately show "crm_ok w d' \<and> identities_kept w d d'"
    using ok spec(1) key kept_refl [of w d] by (simp add: d' crm_ok_def db_keys_def anchored_def identities_kept_def)
qed

lemma sync_convs_safe:
  assumes "sync_convs w pool self self_aid cs messages d = Inr (ms, d')" "fresh_keys (sw_sdk w)" "pool_inv pool"
    and "\<forall>c \<in> set cs. cv_contact c \<noteq> []" "CHR '':'' \<notin> set self"
  shows "safe_write w d d'"
  using assms(1,4)
proof (induction cs arbitrary: messages d)
  case (Cons c cs)
  obtain aid d1 where d1: "contact_account w pool self (cv_contact c) d = Inr (aid, d1)"
    using Cons.prems(1) by (auto simp: and_then_Inr_iff)
  obtain sid d2 where d2: "upsert_session (sw_sdk w) self (cv_contact c) [self_aid, aid] d1 = (sid, d2)" by force
  obtain more where rest: "sync_convs w pool self self_aid cs more d2 = Inr (ms, d')"
    using Cons.prems(1) by (auto simp: d1 d2 and_then_Inr_iff)
  have "safe_write w d2 d'" using Cons.IH [OF rest] Cons.prems(2) by simp
  moreover have "safe_write w d d2"
  proof (cases "crm_ok w d")
    case True
    have "cv_contact c \<noteq> []" using Cons.prems(2) by simp
    note spec = contact_account_spec [OF d1 assms(2,3) this True assms(5)]
    have "session_by_key key d1 = session_by_key key d" for key using spec(4) by (simp add: session_by_key_def)
    then have "safe_write w d1 d2"
      using spec(2) by (intro upsert_session_safe [OF d2 assms(2,5) spec(3)]) simp
    then show ?thesis using spec(1) safe_trans by blast
  qed (simp add: safe_write_def)
  ultimately show ?case using safe_trans by blast
qed simp

lemma self_account_safe:
  assumes "fresh_keys (sw_sdk w)"
  shows "safe_write w d (snd (self_account w i d))"
proof (cases "upsert_account (sw_sdk w) (self_profile i) d")
  case (Inr r)
  then show ?thesis using upsert_account_safe [OF _ assms, of "self_profile i" d "fst r" "snd r"] by (simp add: self_account_def)
qed (simp add: self_account_def)

lemma sync_transaction_safe:
  assumes "sync_transaction w pool convs info revision dir now later d = Inr (row, d')" "fresh_keys (sw_sdk w)" "pool_inv pool"
    and "\<forall>c \<in> set convs. cv_contact c \<noteq> []"
  shows "safe_write w d d'"
proof -
  obtain i where i: "info = Some i" using assms(1) by (cases info) (simp_all add: sync_transaction_def)
  obtain self_aid d1 where d1: "self_account w i (ensure_platform d) = (Some self_aid, d1)"
    using assms(1) by (auto simp: sync_transaction_def i split: if_splits prod.splits option.splits)
  obtain messages d2 where d2: "sync_convs w pool (si_ali_id i) self_aid convs [] d1 = Inr (messages, d2)"
    and last: "write_snapshot w (si_ali_id i) dir revision now later messages d2 = Inr (row, d')"
    using assms(1) by (auto simp: sync_transaction_def i d1 and_then_Inr_iff split: if_splits)
  obtain c where c: "write_inbox (sw_canon w) (dc_zone (sw_decoders w)) (dc_json_text (sw_decoders w)) (si_ali_id i) dir
      (Some messages) now (crm_view d2) = Inr c"
    using last by (auto simp: write_snapshot_def and_then_Inr_iff)
  then have colon: "CHR '':'' \<notin> set (si_ali_id i)"
    by (auto simp: write_inbox_def inbox_key_def and_then_Inr_iff split: if_splits)
  have "safe_write w d (ensure_platform d)" by (rule safe_same) (simp_all add: ensure_platform_def)
  moreover have "safe_write w (ensure_platform d) d1" using self_account_safe [OF assms(2), of "ensure_platform d" i] d1 by simp
  moreover have "safe_write w d1 d2" by (rule sync_convs_safe [OF d2 assms(2-4) colon])
  moreover have "safe_write w d2 d'"
    using last c by (intro safe_same) (auto simp: write_snapshot_def and_then_Inr_iff split: prod.splits)
  ultimately show ?thesis using safe_trans by blast
qed

lemma read_contacts:
  assumes "build_conversations dc db self = Inr convs" "c \<in> set convs"
  shows "cv_contact c \<noteq> []"
proof -
  obtain g where g: "group_tables dc self db (list_msg_tables db) [] = Inr g"
    and convs: "convs = sort_reverse (\<lambda>c. rank_of dc (cv_last_created c)) (map (conv_of dc) (filter (\<lambda>g. snd g \<noteq> []) g))"
    using assms(1) by (auto simp: build_conversations_def and_then_Inr_iff)
  have "set convs = conv_of dc ` set (filter (\<lambda>g. snd g \<noteq> []) g)" unfolding convs by (simp add: sort_reverse_def)
  then obtain x where "x \<in> set g" "c = conv_of dc x" using assms(2) by auto
  moreover obtain a ms where "x = (a, ms)" by force
  ultimately show ?thesis using own_group [OF g] by (simp add: conv_of_def Let_def)
qed

lemma sync_im_database_safe:
  assumes "fresh_keys (sw_sdk w)" "pool_inv pool"
  shows "safe_write w d (snd (sync_im_database w pool chat self info revision dir now later d))"
proof (cases "build_conversations (sw_decoders w) chat self")
  case (Inr convs)
  have "safe_write w d (snd (sync_conversations w pool convs i r dir' now later d))" for i r dir'
  proof (cases "sync_transaction w pool convs i r dir' now later d")
    case (Inr rd)
    then obtain row d' where "sync_transaction w pool convs i r dir' now later d = Inr (row, d')" by (cases rd) simp
    then show ?thesis
      using sync_transaction_safe [OF _ assms] read_contacts [OF \<open>build_conversations _ _ _ = _\<close>]
      by (simp add: sync_conversations_def)
  qed (simp add: sync_conversations_def)
  then show ?thesis using Inr by (simp add: sync_im_database_def)
qed (simp add: sync_im_database_def)

lemma sync_user_infos_safe:
  assumes "fresh_keys (sw_sdk w)"
  shows "safe_write w d (sync_user_infos w infos d)"
proof -
  have "safe_write w d (fold (\<lambda>i d. case upsert_account (sw_sdk w) (user_profile i) d of Inl _ \<Rightarrow> d | Inr (_, d') \<Rightarrow> d') is d)" for d "is"
  proof (induction "is" arbitrary: d)
    case (Cons i "is")
    have "safe_write w d (case upsert_account (sw_sdk w) (user_profile i) d of Inl _ \<Rightarrow> d | Inr (_, d') \<Rightarrow> d')"
      using upsert_account_safe [OF _ assms] by (auto split: sum.split)
    then show ?case using Cons.IH safe_trans by fastforce
  qed simp
  moreover have "safe_write w d (ensure_platform d)" by (rule safe_same) (simp_all add: ensure_platform_def)
  ultimately show ?thesis unfolding sync_user_infos_def using safe_trans by blast
qed

section \<open>Runs\<close>

inductive crm_step :: "sync_world \<Rightarrow> sync_db \<Rightarrow> sync_db \<Rightarrow> bool" for w where
  sy_snapshot: "fresh_keys (sw_sdk w) \<Longrightarrow> pool_inv pool \<Longrightarrow>
    crm_step w d (snd (sync_im_database w pool chat self info revision dir now later d))"
| sy_profiles: "fresh_keys (sw_sdk w) \<Longrightarrow> crm_step w d (sync_user_infos w infos d)"

lemma crm_step_safe: "crm_step w d d' \<Longrightarrow> safe_write w d d'"
  by (auto elim!: crm_step.cases intro: sync_im_database_safe sync_user_infos_safe)

interpretation crm_sync: tracked_system "crm_step w" "crm_ok w" "identities_kept w" for w
  using crm_step_safe kept_refl kept_trans unfolding safe_write_def by unfold_locales blast+

text \<open>
  C20: Whatever snapshots of whatever accounts are synchronised, failed ones and disputed aliases included, and whatever
  profiles come in between: the aliases that were there stay, in place and unchanged, and a new alias is only made for a name that
  had none, so no alias ever moves to another account; an account stays with its customer; what a user may have
  edited of a customer stays; and a conversation that has a contact keeps it.
\<close>

theorem identities_never_move:
  assumes "crm_ok w d" "(crm_step w)\<^sup>*\<^sup>* d d'"
  shows "(\<exists>new. sd_mappings d' = sd_mappings d @ new
      \<and> (\<forall>m \<in> set new. \<forall>x \<in> set (sd_mappings d). \<not> (mp_type x = mp_type m \<and> mp_key x = mp_key m)))
    \<and> (\<forall>a \<in> set (sd_accounts d). \<exists>a' \<in> set (sd_accounts d'). ca_aid a' = ca_aid a \<and> (ca_cid a \<noteq> None \<longrightarrow> ca_cid a' = ca_cid a))
    \<and> (\<forall>c \<in> set (sd_customers d). \<exists>c' \<in> set (sd_customers d'). customer_kept c c')
    \<and> (\<forall>s \<in> set (sd_sessions d). \<exists>s' \<in> set (sd_sessions d'). se_sid s' = se_sid s \<and> se_key s' = se_key s
        \<and> (session_contact (sw_decoders w) s \<noteq> None \<longrightarrow> session_contact (sw_decoders w) s' = session_contact (sw_decoders w) s))"
  using crm_sync.steps_rel [OF assms(2,1)]
  unfolding identities_kept_def only_new_aliases_def kept_rows_def account_kept_def session_kept_def by (intro conjI) blast+

lemma payload_reads_back:
  assumes "message_payload w self sid sender r = Inr m" "\<forall>bs. mr_content r = Some bs \<longrightarrow> (\<forall>b \<in> set bs. b < 256)"
  shows "message_of_crm (sw_decoders w) m =
    r\<lparr>mr_created := cm_created m, mr_label := (if known_type (mr_type r) then mr_label r else display_text (sw_decoders w) r)\<rparr>"
proof -
  let ?dc = "sw_decoders w"
  obtain mid where mid: "message_external_id self (mr_table r) (mr_mid r) = Inr mid"
    using assms(1) by (auto simp: message_payload_def Let_def and_then_Inr_iff)
  then have ids: "mr_table r \<noteq> []" "mr_mid r \<noteq> []" by (auto simp: message_external_id_def split: if_splits)
  obtain v c where v: "decode_content ?dc (mr_content r) = Inr v" and c: "message_content ?dc r = Inr c" "cm_content m = PDict c"
    using assms(1) by (auto simp: message_payload_def message_content_def Let_def and_then_Inr_iff)
  have get: "dict_get_none c ''table_name'' = PStr (mr_table r)" "dict_get_none c ''cid'' = PStr (mr_cid r)"
    "dict_get_none c ''mid'' = PStr (mr_mid r)" "dict_get_none c ''sender_id'' = mr_sender r"
    "dict_get_none c ''user_content_type'' = mr_type r"
    "dict_get_none c ''content_label'' = (if known_type (mr_type r) then mr_label r else display_text ?dc r)"
    "dict_get_none c ''is_system'' = PBool (mr_system r)" "dict_get_none c ''is_auto_reply'' = PBool (mr_auto r)"
    "dict_get_none c ''biz_id'' = (if mr_biz r = [] then PNone else PStr (mr_biz r))"
    "dict_get_none c ''content'' = v"
    "dict_get_none c ''content_latin1'' = (case mr_content r of None \<Rightarrow> PNone | Some bs \<Rightarrow> PStr (latin1_text bs))"
    using c(1) v by (auto simp: message_content_def dict_get_none_def)
  have "content_bytes c = mr_content r"
  proof (cases "mr_content r")
    case None
    then have "v = PNone" using v by (simp add: decode_content_def)
    then show ?thesis using None get(10,11) by (simp add: content_bytes_def)
  next
    case (Some bs)
    have "map of_char (latin1_text bs) = bs"
      using assms(2) Some by (auto simp: latin1_text_def intro!: map_idI)
    then show ?thesis using Some get(11) by (simp add: content_bytes_def)
  qed
  then show ?thesis
    using ids by (simp add: message_of_crm_def Let_def c(2) dict_or_empty_def get text_or_def)
qed

text \<open>The view of a row depends on its identifier, its content and its time.\<close>

lemma message_of_crm_cong:
  "cm_mid x = cm_mid m \<Longrightarrow> cm_content x = cm_content m \<Longrightarrow> cm_created x = cm_created m \<Longrightarrow> message_of_crm dc x = message_of_crm dc m"
  by (simp add: message_of_crm_def)

lemma write_inbox_archive:
  "write_inbox canon zone json_text seller data_dir messages now db = Inr db' \<Longrightarrow> crm_archive db' = crm_archive db"
  by (auto simp: write_inbox_def and_then_Inr_iff Let_def split: if_splits)

lemma find_message_mid: "find_message t mid = Some x \<Longrightarrow> cm_mid x = mid"
  unfolding find_message_def by (drule find_SomeD) simp

text \<open>What the upsert leaves under the identifier of a message of the snapshot.\<close>

lemma find_after_steps:
  "mid \<notin> cm_mid ` set ps \<Longrightarrow> find_message (fold write_step ps t) mid = find_message t mid"
  by (induction ps arbitrary: t) (auto simp: write_step_def find_message_upsert_other)

lemma find_after_upsert:
  assumes "m \<in> set (payloads_of ms)"
  shows "find_message (snd (upsert_messages ms t)) (cm_mid m) =
    (let old = find_message t (cm_mid m) in
     if must_write old m then Some (case old of None \<Rightarrow> m | Some cur \<Rightarrow> with_source m cur) else old)"
proof -
  obtain xs ys where split: "payloads_of ms = xs @ m # ys" using assms by (meson split_list)
  have others: "cm_mid m \<notin> cm_mid ` set xs" "cm_mid m \<notin> cm_mid ` set ys"
    using distinct_payloads [of ms] unfolding split by auto
  show ?thesis
    unfolding upsert_messages_spec split snd_conv fold_append fold_Cons comp_apply find_after_steps [OF others(2)]
    by (simp add: write_step_def find_message_upsert_same find_after_steps [OF others(1)] Let_def)
qed

text \<open>
  C23: A message of a snapshot reads back from the table. After the write, the lookup of its identifier gives the row of the
  messenger's database byte for byte, with its table, conversation, identifier, sender, type, flags and business id, when it was new or
  its stored source differed; otherwise it gives the row that was there. Two columns are not the source's: the time is the stored one, and
  the label of a type that the application does not show is a description. The message must be the last of its identifier in the
  snapshot, and its conversation a session of the seller.
\<close>

theorem stored_message_reads_back:
  assumes "write_snapshot w self data_dir revision now later ms d = Inr (row, d')"
    and "message_payload w self sid sender r = Inr m" "m \<in> set (payloads_of ms)" "own_session self sid d \<noteq> None"
    and "\<forall>bs. mr_content r = Some bs \<longrightarrow> (\<forall>b \<in> set bs. b < 256)"
  shows "get_message w self sid (cm_mid m) d' =
    (let old = find_message (crm_archive (sd_crm d)) (cm_mid m) in
     if must_write old m
     then Some (r\<lparr>mr_created := cm_created m, mr_label := (if known_type (mr_type r) then mr_label r else display_text (sw_decoders w) r)\<rparr>)
     else map_option (message_of_crm (sw_decoders w)) old)"
proof -
  let ?old = "find_message (crm_archive (sd_crm d)) (cm_mid m)"
  obtain c where c: "write_inbox (sw_canon w) (dc_zone (sw_decoders w)) (dc_json_text (sw_decoders w)) self data_dir (Some ms) now (crm_view d) = Inr c"
    and d': "crm_archive (sd_crm d') = snd (upsert_messages ms (crm_archive c))" "sd_sessions d' = sd_sessions d"
    using assms(1) by (auto simp: write_snapshot_def and_then_Inr_iff case_prod_beta Let_def)
  have "crm_archive c = crm_archive (sd_crm d)" using write_inbox_archive [OF c] by (simp add: crm_view_def)
  then have row: "find_message (crm_archive (sd_crm d')) (cm_mid m) =
      (if must_write ?old m then Some (case ?old of None \<Rightarrow> m | Some cur \<Rightarrow> with_source m cur) else ?old)"
    using find_after_upsert [OF assms(3)] by (simp add: d'(1) Let_def)
  have sid: "cm_sid m = sid" using assms(2) by (auto simp: message_payload_def Let_def and_then_Inr_iff)
  have own: "own_session self sid d' = own_session self sid d" by (simp add: own_session_def d'(2))
  note view = payload_reads_back [OF assms(2,5)]
  show ?thesis
  proof (cases "must_write ?old m")
    case True
    define x where "x = (case ?old of None \<Rightarrow> m | Some cur \<Rightarrow> with_source m cur)"
    have x: "cm_sid x = sid" "cm_mid x = cm_mid m" "cm_content x = cm_content m" "cm_created x = cm_created m"
      using sid by (auto simp: x_def with_source_def dest: find_message_mid split: option.split)
    then show ?thesis
      using True row own assms(4) message_of_crm_cong [OF x(2-4)] view
      by (auto simp: get_message_def x_def [symmetric] Let_def split: option.split)
  next
    case False
    then obtain x where x: "?old = Some x" "same_source x m" by (auto simp: must_write_def split: option.splits)
    then show ?thesis
      using False row own assms(4) sid by (auto simp: get_message_def same_source_def Let_def split: option.split)
  qed
qed

section \<open>Examples\<close>

definition demo_sdk :: sdk where
  "demo_sdk = \<lparr>sk_edit = (\<lambda>t f. True), sk_fresh = (\<lambda>t ids. fold max ids 0 + 1),
     sk_customer = \<lparr>cu_cid = 0, cu_name = PNone, cu_sex = PNone, cu_birthdate = PNone, cu_region = PNone,
       cu_extra = PNone, cu_image = PNone\<rparr>\<rparr>"

definition demo_sync_world :: sync_world where
  "demo_sync_world = \<lparr>sw_decoders = demo_decoders, sw_canon = (\<lambda>p. p), sw_local = (\<lambda>t. PFloat (FFin t)),
     sw_stamp = (\<lambda>v. 0), sw_sdk = demo_sdk\<rparr>"

definition empty_sync_db :: sync_db where
  "empty_sync_db = \<lparr>sd_platforms = [], sd_customers = [], sd_accounts = [], sd_mappings = [], sd_sessions = [],
     sd_crm = \<lparr>crm_sessions = [], crm_archive = [], crm_sync = None, crm_tables = False, crm_scopes = [],
       crm_ledger = [], crm_marks = []\<rparr>\<rparr>"

definition demo_chat :: chat_db where
  "demo_chat = [(''msg_1'', [demo_chat_row ''a'' 1 []])]"

definition demo_synced :: "sync_row result \<times> sync_db" where
  "demo_synced = sync_im_database demo_sync_world (pool_open []) demo_chat ''me'' None 1 ''/d'' 5 6 empty_sync_db"

lemma demo_fresh_keys: "fresh_keys demo_sdk"
proof -
  have le: "a \<le> fold max ids a \<and> (\<forall>x \<in> set ids. x \<le> fold max ids a)" for ids and a :: int
  proof (induction ids arbitrary: a)
    case (Cons x ids)
    from Cons.IH [of "max x a"] show ?case by auto
  qed simp
  have "fold max ids 0 + 1 \<notin> set ids" for ids :: "int list" using le [where a = 0 and ids = ids] by force
  then show ?thesis by (simp add: fresh_keys_def demo_sdk_def)
qed

lemma demo_pool_inv: "pool_inv (pool_open [])"
  by (simp add: pool_inv_def pool_ok_def pool_ids_ok_def index_ok_def pool_open_def parsed_def fun_eq_iff)

lemma empty_db_ok: "crm_ok w empty_sync_db"
  by (simp add: crm_ok_def db_keys_def anchored_def empty_sync_db_def)

lemma demo_crm_steps: "(crm_step demo_sync_world)\<^sup>*\<^sup>* empty_sync_db (snd demo_synced)"
  unfolding demo_synced_def
  by (rule r_into_rtranclp, rule sy_snapshot) (simp_all add: demo_sync_world_def demo_fresh_keys demo_pool_inv)

lemma identities_never_move_witness:
  "map (\<lambda>m. (mp_aid m, mp_type m, mp_key m)) (sd_mappings (snd demo_synced)) = [(1, ''ali_id'', ''me''), (2, ''ali_id'', ''you'')]
   \<and> (\<exists>new. sd_mappings (snd demo_synced) = sd_mappings empty_sync_db @ new
      \<and> (\<forall>m \<in> set new. \<forall>x \<in> set (sd_mappings empty_sync_db). \<not> (mp_type x = mp_type m \<and> mp_key x = mp_key m)))"
proof
  show "map (\<lambda>m. (mp_aid m, mp_type m, mp_key m)) (sd_mappings (snd demo_synced)) = [(1, ''ali_id'', ''me''), (2, ''ali_id'', ''you'')]"
    by code_simp
qed (rule identities_never_move [OF empty_db_ok demo_crm_steps, THEN conjunct1])

definition demo_stored :: message_row where
  "demo_stored = \<lparr>mr_table = ''msg_1'', mr_cid = ''me-you'', mr_mid = ''a'', mr_sender = PStr ''you@icbu'', mr_created = PInt 1,
     mr_type = PInt 7, mr_label = PNone, mr_content = Some [255, 0], mr_system = False, mr_auto = False, mr_biz = []\<rparr>"

definition demo_session_db :: sync_db where
  "demo_session_db = empty_sync_db\<lparr>sd_sessions := [\<lparr>se_sid = 1, se_key = session_key ''12'' ''34'', se_name = [], se_participants = PNone\<rparr>]\<rparr>"

definition demo_message_payload :: crm_message where
  "demo_message_payload = (case message_payload demo_sync_world ''12'' 1 2 demo_stored of Inr m \<Rightarrow> m)"

lemma stored_message_reads_back_witness:
  "\<exists>row d'. write_snapshot demo_sync_world ''12'' ''/d'' 1 5 6 [demo_message_payload] demo_session_db = Inr (row, d')
     \<and> get_message demo_sync_world ''12'' 1 (cm_mid demo_message_payload) d'
       = Some (demo_stored\<lparr>mr_created := cm_created demo_message_payload, mr_label := PStr ''[image]''\<rparr>)"
proof -
  have "\<not> isl (write_snapshot demo_sync_world ''12'' ''/d'' 1 5 6 [demo_message_payload] demo_session_db)" by code_simp
  then obtain row d' where written: "write_snapshot demo_sync_world ''12'' ''/d'' 1 5 6 [demo_message_payload] demo_session_db = Inr (row, d')"
    by (cases "write_snapshot demo_sync_world ''12'' ''/d'' 1 5 6 [demo_message_payload] demo_session_db") auto
  have "\<not> isl (message_payload demo_sync_world ''12'' 1 2 demo_stored)" by code_simp
  then have payload: "message_payload demo_sync_world ''12'' 1 2 demo_stored = Inr demo_message_payload"
    by (cases "message_payload demo_sync_world ''12'' 1 2 demo_stored") (auto simp: demo_message_payload_def)
  have "own_session ''12'' 1 demo_session_db \<noteq> None" "\<not> known_type (mr_type demo_stored)"
    "display_text (sw_decoders demo_sync_world) demo_stored = PStr ''[image]''" by code_simp+
  moreover have "demo_message_payload \<in> set (payloads_of [demo_message_payload])" by (simp add: payloads_of_def)
  moreover have "find_message (crm_archive (sd_crm demo_session_db)) (cm_mid demo_message_payload) = None" by code_simp
  moreover have "\<forall>bs. mr_content demo_stored = Some bs \<longrightarrow> (\<forall>b \<in> set bs. b < 256)" by (simp add: demo_stored_def)
  ultimately show ?thesis
    using stored_message_reads_back [OF written payload] written by (simp add: Let_def must_write_def)
qed

end
