(* ===== verification/Translation.thy ===== *)
theory Translation
  imports Task_Queue Account_Keys Chat_Source
begin

text \<open>
  The translation of chat texts by an agent: the cache (\<^verbatim>\<open>crm/translation_cache.py\<close>), the short hashes that stand for the texts
  in the dialogue with the agent, its input and answer (\<^verbatim>\<open>agent/translation.py\<close>, \<^verbatim>\<open>agent/inputs.py\<close>,
  \<^verbatim>\<open>agent/output_normalizers.py\<close>) and the job on the worker's queue (\<^verbatim>\<open>translation_jobs.py\<close>).

  Parameters: MD5 of a text, Python's JSON reader and writer, the agent (its reply to the n-th call of a job, or the exception), and the
  table of translations of the CRM library, which is only read and written by key. The search for a free hash is a
  \<^theory_text>\<open>partial_function\<close>: None stands for a search that never ends.
\<close>

record 'db translator =
  tr_md5 :: "string \<Rightarrow> byte list"
  tr_decoders :: decoders
  tr_dumps :: "pyval \<Rightarrow> string"
  tr_agent :: "nat \<Rightarrow> string \<Rightarrow> string result"
  tr_get :: "'db \<Rightarrow> string \<Rightarrow> string option result"
  tr_put :: "string \<Rightarrow> string \<Rightarrow> 'db \<Rightarrow> unit result \<times> 'db"

section \<open>The cache\<close>

definition md5_text_key :: "'db translator \<Rightarrow> string \<Rightarrow> string" where
  "md5_text_key tr text = to_hex (tr_md5 tr text)"

definition get_translation :: "'db translator \<Rightarrow> 'db \<Rightarrow> string \<Rightarrow> string option result" where
  "get_translation tr db text = (if text = [] then Inr None else tr_get tr db (md5_text_key tr text))"

fun get_translations ::
  "'db translator \<Rightarrow> 'db \<Rightarrow> (string \<times> string option) list \<Rightarrow> string list \<Rightarrow> (string \<times> string option) list result" where
  "get_translations tr db results [] = Inr results"
| "get_translations tr db results (t # ts) =
     (if map_of results t \<noteq> None then get_translations tr db results ts
      else and_then (get_translation tr db t) (\<lambda>r. get_translations tr db (alist_put t r results) ts))"

definition translation_cached :: "'db translator \<Rightarrow> 'db \<Rightarrow> string \<Rightarrow> bool result" where
  "translation_cached tr db text = and_then (get_translation tr db text) (\<lambda>r. Inr (r \<noteq> None))"

text \<open>\<^verbatim>\<open>[text for text in texts if force or not translation_cached(text)]\<close>.\<close>

fun uncached :: "'db translator \<Rightarrow> bool \<Rightarrow> 'db \<Rightarrow> string list \<Rightarrow> string list result" where
  "uncached tr force db [] = Inr []"
| "uncached tr force db (t # ts) =
     and_then (if force then Inr False else translation_cached tr db t) (\<lambda>skip.
       and_then (uncached tr force db ts) (\<lambda>rest. Inr (if skip then rest else t # rest)))"

section \<open>Short hashes\<close>

definition short_hash_length :: nat where
  "short_hash_length = 5"

definition base62 :: string where
  "base62 = ''0123456789ABCDEFGHIJKLMNOPQRSTUVWXYZabcdefghijklmnopqrstuvwxyz''"

fun base62_digits :: "nat \<Rightarrow> nat \<Rightarrow> string" where
  "base62_digits 0 v = []"
| "base62_digits (Suc n) v = base62 ! (v mod 62) # base62_digits n (v div 62)"

definition bytes_value :: "byte list \<Rightarrow> nat" where
  "bytes_value bs = fold (\<lambda>b v. v * 256 + unat b) bs 0"

definition short_text_hash :: "(string \<Rightarrow> byte list) \<Rightarrow> string \<Rightarrow> nat \<Rightarrow> string" where
  "short_text_hash md5 text salt = rev (base62_digits short_hash_length (bytes_value (take 8 (md5 (text @ ''#'' @ nat_text salt)))))"

partial_function (option) free_hash :: "(string \<Rightarrow> byte list) \<Rightarrow> string \<Rightarrow> string set \<Rightarrow> nat \<Rightarrow> string option" where
  "free_hash md5 text used salt =
     (if short_text_hash md5 text salt \<in> used then free_hash md5 text used (salt + 1)
      else Some (short_text_hash md5 text salt))"

definition fresh_short_hash :: "(string \<Rightarrow> byte list) \<Rightarrow> string \<Rightarrow> string set \<Rightarrow> (string \<times> string set) option" where
  "fresh_short_hash md5 text used = map_option (\<lambda>h. (h, insert h used)) (free_hash md5 text used 0)"

fun assign_hashes :: "(string \<Rightarrow> byte list) \<Rightarrow> string list \<Rightarrow> (string \<times> string) list \<Rightarrow> string set \<Rightarrow> (string \<times> string) list option" where
  "assign_hashes md5 [] mapping used = Some mapping"
| "assign_hashes md5 (t # ts) mapping used =
     (case fresh_short_hash md5 t used of
        None \<Rightarrow> None
      | Some (h, used') \<Rightarrow> assign_hashes md5 ts (alist_put t h mapping) used')"

definition assign_short_hashes :: "(string \<Rightarrow> byte list) \<Rightarrow> string list \<Rightarrow> (string \<times> string) list option" where
  "assign_short_hashes md5 texts = assign_hashes md5 (dedup texts) [] {}"

text \<open>The texts of a call that its caller has not named.\<close>

fun top_up :: "(string \<Rightarrow> byte list) \<Rightarrow> string list \<Rightarrow> (string \<times> string) list \<Rightarrow> string set \<Rightarrow> (string \<times> string) list option" where
  "top_up md5 [] mapping used = Some mapping"
| "top_up md5 (t # ts) mapping used =
     (if map_of mapping t \<noteq> None then top_up md5 ts mapping used
      else case fresh_short_hash md5 t used of
             None \<Rightarrow> None
           | Some (h, used') \<Rightarrow> top_up md5 ts (alist_put t h mapping) used')"

definition clean_texts :: "string list \<Rightarrow> string list" where
  "clean_texts texts = dedup (map py_strip (filter (\<lambda>t. t \<noteq> [] \<and> py_strip t \<noteq> []) texts))"

section \<open>The dialogue with the agent\<close>

record transcript_line =
  tl_timestamp :: string
  tl_speaker :: string
  tl_body :: string

definition transcript_text :: "(string \<times> string) list \<Rightarrow> transcript_line \<Rightarrow> string option" where
  "transcript_text annotate row =
     (let line = py_strip (tl_body row); head = ''['' @ tl_timestamp row @ ''] '' @ tl_speaker row @ '': '' in
      if line = [] then None
      else case map_of annotate line of
             Some h \<Rightarrow> Some (head @ ''text_hash='' @ h @ '': '' @ line)
           | None \<Rightarrow> Some (head @ line))"

definition join_lines :: "string list \<Rightarrow> string" where
  "join_lines = join_with [CHR 0x0A]"

definition translation_item :: "string \<times> string \<Rightarrow> pyval" where
  "translation_item it = PDict [(''text_hash'', PStr (fst it)), (''text'', PStr (snd it))]"

definition build_translation_input ::
  "'db translator \<Rightarrow> (string \<times> string) list \<Rightarrow> transcript_line list option \<Rightarrow> (string \<times> string) list \<Rightarrow> string" where
  "build_translation_input tr items conversation annotate =
     (if items = [] then []
      else join_lines
        ((case conversation of
            Some (row # rows) \<Rightarrow>
              (let ls = List.map_filter (transcript_text annotate) (row # rows)
               in [''## conversation'', ''```'', if ls = [] then ''(empty)'' else join_lines ls, ''```'', []])
          | _ \<Rightarrow> [])
         @ [''## rules'', [], ''## items'', ''```json'', tr_dumps tr (PDict [(''items'', PList (map translation_item items))]), ''```'', ''only these'']))"

text \<open>
  A fence is \<^verbatim>\<open>```(?:json)?\s*(.*?)\s*```\<close> over the whole text, in any case; what is between is stripped.
\<close>

definition strip_json_fence :: "string \<Rightarrow> string" where
  "strip_json_fence text =
     (let value = py_strip text; inner = drop 3 (take (length value - 3) value) in
      if has_prefix ''```'' value \<and> has_prefix ''```'' (rev value) \<and> 6 \<le> length value
      then py_strip (if has_prefix ''json'' (py_lower inner) then drop 4 inner else inner)
      else value)"

definition load_json_object :: "decoders \<Rightarrow> string \<Rightarrow> (string \<times> pyval) list result" where
  "load_json_object dc raw =
     (case dc_loads dc (strip_json_fence raw) of
        Inl (Value_Error _) \<Rightarrow> Inl (Value_Error ''system agent output must be a JSON object'')
      | Inl e \<Rightarrow> Inl e
      | Inr (PDict d) \<Rightarrow> Inr d
      | Inr _ \<Rightarrow> Inl (Value_Error ''system agent output must be a JSON object''))"

definition parse_translation_payload :: "decoders \<Rightarrow> string \<Rightarrow> (string \<times> string option) list result" where
  "parse_translation_payload dc raw =
     and_then (load_json_object dc raw) (\<lambda>payload.
       case dict_get_none payload ''translations'' of
         PDict d \<Rightarrow> Inr (map (\<lambda>(k, v). (k, if v = PNone then None else Some (py_strip (str_of dc v)))) d)
       | _ \<Rightarrow> Inl (Value_Error ''translations must be an object under the translations key''))"

definition no_need_to_translate :: string where
  "no_need_to_translate = ''NO_NEED_TO_TRANSLATE''"

definition abnormal_message :: string where
  "abnormal_message = ''ABNORMAL_MESSAGE''"

text \<open>What an answer puts into the cache; None for a message that the agent calls abnormal.\<close>

definition cached_value :: "string option \<Rightarrow> string option" where
  "cached_value raw =
     (let value = (case raw of None \<Rightarrow> no_need_to_translate | Some s \<Rightarrow> py_strip s); normalized = py_upper value in
      if normalized = abnormal_message then None
      else Some (if normalized = no_need_to_translate then [] else value))"

section \<open>One call\<close>

fun save_items ::
  "'db translator \<Rightarrow> (string \<times> string option) list \<Rightarrow> (string \<times> string) list \<Rightarrow> nat \<Rightarrow> nat \<Rightarrow> 'db \<Rightarrow> (nat \<times> nat) result \<times> 'db" where
  "save_items tr answers [] saved omitted db = (Inr (saved, omitted), db)"
| "save_items tr answers ((h, text) # items) saved omitted db =
     (case map_of answers h of
        None \<Rightarrow> save_items tr answers items saved (omitted + 1) db
      | Some raw \<Rightarrow>
          (case cached_value raw of
             None \<Rightarrow> save_items tr answers items saved omitted db
           | Some v \<Rightarrow>
               (case tr_put tr (md5_text_key tr text) v db of
                  (Inl e, db') \<Rightarrow> (Inl e, db')
                | (Inr _, db') \<Rightarrow> save_items tr answers items (saved + 1) omitted db')))"

definition items_of :: "(string \<times> string) list \<Rightarrow> string list \<Rightarrow> (string \<times> string) list" where
  "items_of mapping targets = map (\<lambda>t. (the (map_of mapping t), t)) targets"

definition translate_texts_to_crm ::
  "'db translator \<Rightarrow> nat \<Rightarrow> string list \<Rightarrow> bool \<Rightarrow> transcript_line list option \<Rightarrow> (string \<times> string) list \<Rightarrow> 'db
     \<Rightarrow> ((nat \<times> nat) result \<times> 'db) option" where
  "translate_texts_to_crm tr n texts force conversation annotate db =
     (case uncached tr force db (clean_texts texts) of
        Inl e \<Rightarrow> Some (Inl e, db)
      | Inr [] \<Rightarrow> Some (Inr (0, 0), db)
      | Inr targets \<Rightarrow>
          (case top_up (tr_md5 tr) targets annotate (snd ` set annotate) of
             None \<Rightarrow> None
           | Some mapping \<Rightarrow>
               (let items = items_of mapping targets in
                case and_then (tr_agent tr n (build_translation_input tr items conversation mapping))
                       (parse_translation_payload (tr_decoders tr)) of
                  Inl e \<Rightarrow> Some (Inl e, db)
                | Inr answers \<Rightarrow> Some (save_items tr answers items 0 0 db))))"

section \<open>The job\<close>

definition translation_chunk_size :: nat where
  "translation_chunk_size = 50"

function text_chunks :: "string list \<Rightarrow> string list list" where
  "text_chunks xs = (if xs = [] then [] else take translation_chunk_size xs # text_chunks (drop translation_chunk_size xs))"
  by pat_completeness auto
termination
  by (relation "measure length") (auto simp: translation_chunk_size_def)

declare text_chunks.simps [simp del]

fun run_chunks ::
  "'db translator \<Rightarrow> bool \<Rightarrow> transcript_line list option \<Rightarrow> (string \<times> string) list \<Rightarrow> nat \<Rightarrow> string list list \<Rightarrow> nat \<Rightarrow> 'db
     \<Rightarrow> (nat \<times> 'db) option" where
  "run_chunks tr force conversation annotate n [] failed db = Some (failed, db)"
| "run_chunks tr force conversation annotate n (c # cs) failed db =
     (case translate_texts_to_crm tr n c force conversation annotate db of
        None \<Rightarrow> None
      | Some (Inr (saved, omitted), db') \<Rightarrow> run_chunks tr force conversation annotate (n + 1) cs (failed + omitted) db'
      | Some (Inl e, db') \<Rightarrow> run_chunks tr force conversation annotate (n + 1) cs (failed + length c) db')"

definition epoch_matches :: "string option \<Rightarrow> string \<Rightarrow> bool" where
  "epoch_matches expected current \<longleftrightarrow> expected = None \<or> expected = Some [] \<or> expected = Some current"

text \<open>\<^verbatim>\<open>_run\<close>, with the conversation that was loaded; Chinese messages are tags.\<close>

definition translation_run ::
  "'db translator \<Rightarrow> bool \<Rightarrow> string option \<Rightarrow> string \<Rightarrow> transcript_line list option \<Rightarrow> string list \<Rightarrow> 'db
     \<Rightarrow> ((bool \<times> string) result \<times> 'db) option" where
  "translation_run tr force expected current conversation ordered db =
     (if \<not> epoch_matches expected current then Some (Inr (False, ''cancelled''), db)
      else case uncached tr force db ordered of
             Inl e \<Rightarrow> Some (Inl e, db)
           | Inr pending \<Rightarrow>
               if pending = [] then Some (Inr (True, ''nothing to translate''), db)
               else case assign_short_hashes (tr_md5 tr) pending of
                      None \<Rightarrow> None
                    | Some annotate \<Rightarrow>
                        (case run_chunks tr force conversation annotate 0 (text_chunks pending) 0 db of
                           None \<Rightarrow> None
                         | Some (failed, db') \<Rightarrow>
                             Some (Inr (if failed \<noteq> 0
                                        then (False, nat_text failed @ ''/'' @ nat_text (length pending) @ '' failed'')
                                        else (True, ''translated '' @ nat_text (length pending))), db')))"

record translation_job =
  tj_texts :: "string list"
  tj_force :: bool
  tj_epoch :: "string option"
  tj_conversation :: "int option"

definition completed_snapshot :: "translation_job \<Rightarrow> string \<Rightarrow> pytime \<Rightarrow> translation_job request" where
  "completed_snapshot job message now =
     \<lparr>q_id = [], q_fn = job, q_description = ''Translation texts'', q_status = QSucceeded, q_message = message,
      q_result = Some (True, message), q_created = now, q_started = Some now, q_completed = Some now\<rparr>"

definition submit_translation_job ::
  "string list \<Rightarrow> bool \<Rightarrow> string option \<Rightarrow> int option \<Rightarrow> pytime \<Rightarrow> string \<Rightarrow> translation_job queues
     \<Rightarrow> translation_job request result \<times> translation_job queues" where
  "submit_translation_job texts force expected conversation now fresh queues =
     (let ordered = clean_texts texts;
          job = \<lparr>tj_texts = ordered, tj_force = force, tj_epoch = expected, tj_conversation = conversation\<rparr> in
      if ordered = [] then (Inr (completed_snapshot job ''nothing to translate'' now), queues)
      else (let (q, named) = queue_named translation_queue_name queues; (r, q') = enqueue job ''Translation texts'' now fresh q
            in (r, alist_put translation_queue_name q' named)))"

definition translation_job_snapshot :: "string \<Rightarrow> translation_job queues \<Rightarrow> translation_job request option \<times> translation_job queues" where
  "translation_job_snapshot i queues =
     (if i = [] then (None, queues)
      else (let (q, named) = queue_named translation_queue_name queues in (get_request i q, named)))"

section \<open>Free hashes\<close>

lemma free_hash_sound:
  "free_hash md5 text used salt = Some h \<Longrightarrow> h \<notin> used \<and> h \<in> range (short_text_hash md5 text)"
  by (rule free_hash.raw_induct [where P = "\<lambda>md5 text used salt h. h \<notin> used \<and> h \<in> range (short_text_hash md5 text)"])
    (auto split: if_splits)

lemma free_hash_ends:
  "short_text_hash md5 text (salt + d) \<notin> used \<Longrightarrow> \<exists>h. free_hash md5 text used salt = Some h"
proof (induction d arbitrary: salt)
  case 0
  then show ?case by (subst free_hash.simps) simp
next
  case (Suc d)
  then have "\<exists>h. free_hash md5 text used (salt + 1) = Some h" by simp
  then show ?case by (subst free_hash.simps) auto
qed

lemma set_base62_digits: "set (base62_digits n v) \<subseteq> set base62" "length (base62_digits n v) = n"
proof (induction n arbitrary: v)
  case (Suc n)
  {
    case 1
    have "base62 ! (v mod 62) \<in> set base62" by (rule nth_mem) (simp add: base62_def)
    then show ?case using Suc by simp
  next
    case 2
    then show ?case using Suc by simp
  }
qed simp_all

lemma finite_hashes: "finite (range (short_text_hash md5 text))"
proof (rule finite_subset)
  show "range (short_text_hash md5 text) \<subseteq> {s. set s \<subseteq> set base62 \<and> length s = short_hash_length}"
    by (auto simp: short_text_hash_def set_base62_digits(2) dest!: subsetD [OF set_base62_digits(1)])
qed (rule finite_lists_length_eq, simp)

text \<open>A hash is free as long as fewer are used than the text has.\<close>

lemma fresh_short_hash_ends:
  assumes "finite used" "card used < card (range (short_text_hash md5 text))"
  obtains h where "fresh_short_hash md5 text used = Some (h, insert h used)" "h \<notin> used"
proof -
  have "\<not> range (short_text_hash md5 text) \<subseteq> used"
    using card_mono [OF assms(1)] assms(2) not_le by blast
  then obtain salt where "short_text_hash md5 text salt \<notin> used" by blast
  then obtain h where h: "free_hash md5 text used 0 = Some h"
    using free_hash_ends [of md5 "text" 0 salt used] by auto
  with free_hash_sound [OF h] that show thesis by (simp add: fresh_short_hash_def)
qed

text \<open>The texts that have a hash have each their own.\<close>

definition apart :: "(string \<times> string) list \<Rightarrow> string set \<Rightarrow> bool" where
  "apart mapping used \<longleftrightarrow> ran (map_of mapping) \<subseteq> used
     \<and> (\<forall>t u h. map_of mapping t = Some h \<longrightarrow> map_of mapping u = Some h \<longrightarrow> t = u)"

lemma apart_put: "apart mapping used \<Longrightarrow> h \<notin> used \<Longrightarrow> apart (alist_put t h mapping) (insert h used)"
  by (auto simp: apart_def ran_def)

lemma assign_hashes_apart:
  assumes "assign_hashes md5 ts mapping used = Some m" "apart mapping used"
  shows "(\<exists>used'. apart m used') \<and> dom (map_of m) = dom (map_of mapping) \<union> set ts"
  using assms
proof (induction ts arbitrary: mapping used)
  case (Cons t ts)
  obtain h where h: "free_hash md5 t used 0 = Some h" "assign_hashes md5 ts (alist_put t h mapping) (insert h used) = Some m"
    using Cons.prems(1) by (auto simp: fresh_short_hash_def split: option.splits)
  have "apart (alist_put t h mapping) (insert h used)"
    using apart_put [OF Cons.prems(2)] free_hash_sound [OF h(1)] by blast
  from Cons.IH [OF h(2) this] show ?case by auto
qed auto

lemma assign_hashes_ends:
  assumes "finite used" "\<forall>t \<in> set ts. card used + length ts \<le> card (range (short_text_hash md5 t))"
  shows "assign_hashes md5 ts mapping used \<noteq> None"
  using assms
proof (induction ts arbitrary: mapping used)
  case (Cons t ts)
  have "card used < card (range (short_text_hash md5 t))" using Cons.prems(2) by force
  then obtain h where h: "fresh_short_hash md5 t used = Some (h, insert h used)" "h \<notin> used"
    by (rule fresh_short_hash_ends [OF Cons.prems(1)])
  have "\<forall>t \<in> set ts. card (insert h used) + length ts \<le> card (range (short_text_hash md5 t))"
    using Cons.prems h(2) by (auto simp: card_insert_disjoint)
  from Cons.IH [OF _ this] Cons.prems(1) show ?case by (simp add: h(1))
qed simp

definition enough_hashes :: "(string \<Rightarrow> byte list) \<Rightarrow> string list \<Rightarrow> bool" where
  "enough_hashes md5 texts \<longleftrightarrow> (\<forall>t \<in> set texts. length texts \<le> card (range (short_text_hash md5 t)))"

lemma assign_short_hashes_apart:
  assumes "assign_short_hashes md5 texts = Some m"
  shows "\<exists>used. apart m used" "dom (map_of m) = set texts"
proof -
  have "apart [] {}" by (simp add: apart_def ran_def)
  from assign_hashes_apart [OF assms [unfolded assign_short_hashes_def] this]
  show "\<exists>used. apart m used" "dom (map_of m) = set texts" by auto
qed

lemma length_dedup_from: "length (dedup_from seen xs) \<le> length xs"
  by (induction seen xs rule: dedup_from.induct) auto

lemma assign_short_hashes_ends: "enough_hashes md5 texts \<Longrightarrow> assign_short_hashes md5 texts \<noteq> None"
  using assign_hashes_ends [of "{}" "dedup texts" md5 "[]"] length_dedup_from [of "[]" texts]
  by (auto simp: assign_short_hashes_def enough_hashes_def dedup_def set_dedup_from intro: order_trans)

lemma top_up_named: "set ts \<subseteq> dom (map_of mapping) \<Longrightarrow> top_up md5 ts mapping used = Some mapping"
  by (induction ts) auto

section \<open>What a call does\<close>

text \<open>What the code relies on: an upsert writes its own key and a failed one writes nothing.\<close>

definition manager_ok :: "'db translator \<Rightarrow> bool" where
  "manager_ok tr \<longleftrightarrow> (\<forall>k v db r db'. tr_put tr k v db = (r, db') \<longrightarrow>
     (case r of Inl _ \<Rightarrow> tr_get tr db' = tr_get tr db
      | Inr _ \<Rightarrow> tr_get tr db' k = Inr (Some v) \<and> (\<forall>k'. k' \<noteq> k \<longrightarrow> tr_get tr db' k' = tr_get tr db k')))"

lemma manager_failed: "manager_ok tr \<Longrightarrow> tr_put tr k v db = (Inl e, db') \<Longrightarrow> tr_get tr db' = tr_get tr db"
  unfolding manager_ok_def by fastforce

lemma manager_saved:
  assumes "manager_ok tr" "tr_put tr k v db = (Inr u, db')"
  shows "tr_get tr db' k = Inr (Some v)" "k' \<noteq> k \<Longrightarrow> tr_get tr db' k' = tr_get tr db k'"
  using assms unfolding manager_ok_def by fastforce+

definition has_translation :: "'db translator \<Rightarrow> 'db \<Rightarrow> string \<Rightarrow> bool" where
  "has_translation tr db k \<longleftrightarrow> (\<exists>v. tr_get tr db k = Inr (Some v))"

text \<open>What the writes of a call may do: change only keys of the given texts, to the value found for the text, and lose none.\<close>

definition writes :: "'db translator \<Rightarrow> (string \<Rightarrow> string \<Rightarrow> bool) \<Rightarrow> 'db \<Rightarrow> 'db \<Rightarrow> bool" where
  "writes tr P db db' \<longleftrightarrow> (\<forall>k. has_translation tr db k \<longrightarrow> has_translation tr db' k)
     \<and> (\<forall>k. tr_get tr db' k \<noteq> tr_get tr db k \<longrightarrow> (\<exists>t v. md5_text_key tr t = k \<and> P t v \<and> tr_get tr db' k = Inr (Some v)))"

lemma writes_refl [simp]: "writes tr P db db"
  by (simp add: writes_def)

lemma writes_same: "tr_get tr db' = tr_get tr db \<Longrightarrow> writes tr P db db'"
  by (simp add: writes_def has_translation_def)

lemma writes_trans: "writes tr P db db' \<Longrightarrow> writes tr P db' db'' \<Longrightarrow> writes tr P db db''"
  unfolding writes_def by metis

lemma writes_mono: "writes tr P db db' \<Longrightarrow> (\<And>t v. P t v \<Longrightarrow> Q t v) \<Longrightarrow> writes tr Q db db'"
  unfolding writes_def by blast

lemma writes_keep: "writes tr P db db' \<Longrightarrow> has_translation tr db k \<Longrightarrow> has_translation tr db' k"
  by (simp add: writes_def)

lemma writes_put:
  assumes "manager_ok tr" "tr_put tr (md5_text_key tr t) v db = (Inr u, db')" "P t v"
  shows "writes tr P db db'"
  using manager_saved [OF assms(1,2)] assms(3) unfolding writes_def has_translation_def by metis

text \<open>The answer to a text, under the hash it has in the call.\<close>

definition item_answer :: "(string \<times> string option) list \<Rightarrow> (string \<times> string) list \<Rightarrow> string \<Rightarrow> string option \<Rightarrow> bool" where
  "item_answer answers items t ov \<longleftrightarrow> (\<exists>h raw. (h, t) \<in> set items \<and> map_of answers h = Some raw \<and> cached_value raw = ov)"

lemma save_items_writes:
  assumes "manager_ok tr" "save_items tr answers items s om db = (res, db')"
  shows "writes tr (\<lambda>t v. item_answer answers items t (Some v)) db db'"
    and "res = Inr (s', om') \<Longrightarrow> om \<le> om' \<and> (om' = om \<longrightarrow>
      (\<forall>h t. (h, t) \<in> set items \<longrightarrow> has_translation tr db' (md5_text_key tr t) \<or> item_answer answers items t None))"
proof -
  have "writes tr (\<lambda>t v. item_answer answers items t (Some v)) db db'
    \<and> (\<forall>s' om'. res = Inr (s', om') \<longrightarrow> om \<le> om' \<and> (om' = om \<longrightarrow>
      (\<forall>h t. (h, t) \<in> set items \<longrightarrow> has_translation tr db' (md5_text_key tr t) \<or> item_answer answers items t None)))"
    using assms(2)
  proof (induction items arbitrary: s om db)
    case (Cons it items)
    obtain h t where it: "it = (h, t)" by force
    have lift: "item_answer answers items u ov \<Longrightarrow> item_answer answers (it # items) u ov" for u ov
      by (auto simp: item_answer_def)
    note wider = writes_mono [where P = "\<lambda>t v. item_answer answers items t (Some v)" and Q = "\<lambda>t v. item_answer answers (it # items) t (Some v)", OF _ lift]
    show ?case
    proof (cases "map_of answers h")
      case None
      then have "save_items tr answers items s (om + 1) db = (res, db')" using Cons.prems by (simp add: it)
      from Cons.IH [OF this] wider lift show ?thesis by (auto dest: Suc_leD)
    next
      case raw: (Some raw)
      show ?thesis
      proof (cases "cached_value raw")
        case None
        then have "save_items tr answers items s om db = (res, db')" using Cons.prems raw by (simp add: it)
        from Cons.IH [OF this] wider have w: "writes tr (\<lambda>t v. item_answer answers (it # items) t (Some v)) db db'"
          and r: "\<forall>s' om'. res = Inr (s', om') \<longrightarrow> om \<le> om' \<and> (om' = om \<longrightarrow>
            (\<forall>h t. (h, t) \<in> set items \<longrightarrow> has_translation tr db' (md5_text_key tr t) \<or> item_answer answers items t None))" by auto
        have "item_answer answers (it # items) t None" using raw None by (auto simp: item_answer_def it)
        with w r lift show ?thesis by (auto simp: it) blast
      next
        case (Some v)
        have here: "item_answer answers (it # items) t (Some v)" using raw Some by (auto simp: item_answer_def it)
        obtain pr db1 where p: "tr_put tr (md5_text_key tr t) v db = (pr, db1)" by force
        show ?thesis
        proof (cases pr)
          case (Inl e)
          then have "res = Inl e" "db' = db1" using Cons.prems raw Some p by (simp_all add: it)
          with writes_same [OF manager_failed [OF assms(1) p [unfolded Inl]]] show ?thesis by simp
        next
          case (Inr u)
          then have "save_items tr answers items (s + 1) om db1 = (res, db')" using Cons.prems raw Some p by (simp add: it)
          note rest = Cons.IH [OF this]
          have one: "writes tr (\<lambda>t v. item_answer answers (it # items) t (Some v)) db db1"
            using writes_put [OF assms(1) p [unfolded Inr], of "\<lambda>t v. item_answer answers (it # items) t (Some v)"] here by blast
          have two: "writes tr (\<lambda>t v. item_answer answers (it # items) t (Some v)) db1 db'" by (rule wider [OF conjunct1 [OF rest]])
          have "has_translation tr db1 (md5_text_key tr t)"
            using manager_saved(1) [OF assms(1) p [unfolded Inr]] by (simp add: has_translation_def)
          then have "has_translation tr db' (md5_text_key tr t)" by (rule writes_keep [OF two])
          then have all: "has_translation tr db' (md5_text_key tr t') \<or> item_answer answers (it # items) t' None"
            if "res = Inr (s', om)" "(h', t') \<in> set (it # items)" for s' h' t'
            using that rest lift by (cases "(h', t') = it") (simp add: it, metis in_set_conv_decomp set_ConsD)
          have "om \<le> om'" if "res = Inr (s', om')" for s' om' using that rest by blast
          with all writes_trans [OF one two] show ?thesis by blast
        qed
      qed
    qed
  qed auto
  then show "writes tr (\<lambda>t v. item_answer answers items t (Some v)) db db'"
    and "res = Inr (s', om') \<Longrightarrow> om \<le> om' \<and> (om' = om \<longrightarrow>
      (\<forall>h t. (h, t) \<in> set items \<longrightarrow> has_translation tr db' (md5_text_key tr t) \<or> item_answer answers items t None))"
    by blast+
qed

lemma uncached_set: "uncached tr force db ts = Inr us \<Longrightarrow> set us \<subseteq> set ts
    \<and> (\<forall>t \<in> set ts. t \<notin> set us \<longrightarrow> has_translation tr db (md5_text_key tr t))"
proof (induction ts arbitrary: us)
  case (Cons t ts)
  obtain skip rest where s: "(if force then Inr False else translation_cached tr db t) = Inr skip"
    "uncached tr force db ts = Inr rest" "us = (if skip then rest else t # rest)"
    using Cons.prems by (auto simp: and_then_Inr_iff)
  have "has_translation tr db (md5_text_key tr t)" if skip
    using s(1) that by (auto simp: translation_cached_def get_translation_def has_translation_def and_then_Inr_iff split: if_splits)
  with Cons.IH [OF s(2)] s(3) show ?case by auto
qed simp

lemma set_clean_texts: "t \<in> set (clean_texts texts) \<Longrightarrow> py_strip t = t \<and> t \<noteq> []"
  by (auto simp: clean_texts_def py_strip_idem)

lemma clean_texts_clean: "\<forall>t \<in> set texts. py_strip t = t \<and> t \<noteq> [] \<Longrightarrow> set (clean_texts texts) = set texts"
  by (force simp: clean_texts_def)

text \<open>The n-th call of a job gave this answer for a text, asked with its hash.\<close>

definition call_answer ::
  "'db translator \<Rightarrow> transcript_line list option \<Rightarrow> (string \<times> string) list \<Rightarrow> nat \<Rightarrow> string \<Rightarrow> string option \<Rightarrow> bool" where
  "call_answer tr conversation annotate n t ov \<longleftrightarrow> (\<exists>targets reply answers. t \<in> set targets
     \<and> tr_agent tr n (build_translation_input tr (items_of annotate targets) conversation annotate) = Inr reply
     \<and> parse_translation_payload (tr_decoders tr) reply = Inr answers
     \<and> (\<exists>h raw. map_of annotate t = Some h \<and> map_of answers h = Some raw \<and> cached_value raw = ov))"

lemma translate_texts_step:
  assumes "\<forall>t \<in> set texts. py_strip t = t \<and> t \<noteq> []" "set texts \<subseteq> dom (map_of annotate)"
  shows "translate_texts_to_crm tr n texts force conversation annotate db \<noteq> None"
    and "manager_ok tr \<Longrightarrow> translate_texts_to_crm tr n texts force conversation annotate db = Some (r, db') \<Longrightarrow>
      writes tr (\<lambda>t v. t \<in> set texts \<and> call_answer tr conversation annotate n t (Some v)) db db'
      \<and> (\<forall>s. r = Inr (s, 0) \<longrightarrow> (\<forall>t \<in> set texts. has_translation tr db' (md5_text_key tr t) \<or> call_answer tr conversation annotate n t None))"
proof -
  note clean = clean_texts_clean [OF assms(1)]
  have named: "top_up (tr_md5 tr) targets annotate used = Some annotate" if "set targets \<subseteq> set texts" for targets used
    using top_up_named that assms(2) by blast
  show "translate_texts_to_crm tr n texts force conversation annotate db \<noteq> None"
  proof (cases "uncached tr force db (clean_texts texts)")
    case (Inr targets)
    with named [of targets] uncached_set [OF Inr] clean show ?thesis
      by (cases targets) (simp_all add: translate_texts_to_crm_def Let_def split: sum.split)
  qed (simp add: translate_texts_to_crm_def)
  assume ok: "manager_ok tr" and run: "translate_texts_to_crm tr n texts force conversation annotate db = Some (r, db')"
  let ?W = "\<lambda>t v. t \<in> set texts \<and> call_answer tr conversation annotate n t (Some v)"
  show "writes tr ?W db db'
      \<and> (\<forall>s. r = Inr (s, 0) \<longrightarrow> (\<forall>t \<in> set texts. has_translation tr db' (md5_text_key tr t) \<or> call_answer tr conversation annotate n t None))"
  proof (cases "uncached tr force db (clean_texts texts)")
    case (Inl e)
    then show ?thesis using run by (auto simp: translate_texts_to_crm_def)
  next
    case (Inr targets)
    note sub = uncached_set [OF Inr, unfolded clean]
    show ?thesis
    proof (cases "targets = []")
      case True
      then show ?thesis using run Inr sub by (auto simp: translate_texts_to_crm_def)
    next
      case False
      then obtain a ts where a: "targets = a # ts" by (cases targets) auto
      define items where "items = items_of annotate targets"
      define reply where "reply = tr_agent tr n (build_translation_input tr items conversation annotate)"
      have run': "(case and_then reply (parse_translation_payload (tr_decoders tr)) of
                  Inl e \<Rightarrow> Some (Inl e, db) | Inr answers \<Rightarrow> Some (save_items tr answers items 0 0 db)) = Some (r, db')"
        using run Inr named [OF conjunct1 [OF sub]] unfolding items_def reply_def a
        by (simp add: translate_texts_to_crm_def Let_def del: top_up.simps)
      show ?thesis
      proof (cases "and_then reply (parse_translation_payload (tr_decoders tr))")
        case (Inl e)
        then show ?thesis using run' by auto
      next
        case answers: (Inr answers)
        then obtain raw' where raw: "reply = Inr raw'" "parse_translation_payload (tr_decoders tr) raw' = Inr answers"
          by (auto simp: and_then_Inr_iff)
        have saved: "save_items tr answers items 0 0 db = (r, db')" using run' answers by simp
        have item: "t \<in> set texts \<and> call_answer tr conversation annotate n t ov" if i: "item_answer answers items t ov" for t ov
        proof -
          obtain h raw where h: "(h, t) \<in> set items" "map_of answers h = Some raw" "cached_value raw = ov"
            using i by (auto simp: item_answer_def)
          then have t: "t \<in> set targets" "h = the (map_of annotate t)" by (auto simp: items_def items_of_def)
          then have known: "t \<in> set texts" using sub by blast
          then have m: "map_of annotate t = Some h" using assms(2) t(2) by auto
          have "tr_agent tr n (build_translation_input tr (items_of annotate targets) conversation annotate) = Inr raw'"
            using raw(1) by (simp add: reply_def items_def)
          with t(1) m h(2,3) raw(2) have "call_answer tr conversation annotate n t ov"
            unfolding call_answer_def by (intro exI [of _ targets] exI [of _ raw'] exI [of _ answers]) simp
          with known show ?thesis ..
        qed
        have "writes tr ?W db db'"
          by (rule writes_mono [OF save_items_writes(1) [OF ok saved]]) (rule item)
        moreover have "has_translation tr db' (md5_text_key tr t) \<or> call_answer tr conversation annotate n t None"
          if r: "r = Inr (s, 0)" and t: "t \<in> set texts" for s t
        proof (cases "t \<in> set targets")
          case True
          then have "(the (map_of annotate t), t) \<in> set items" by (simp add: items_def items_of_def)
          then show ?thesis using save_items_writes(2) [OF ok saved r] item by blast
        next
          case False
          then have "has_translation tr db (md5_text_key tr t)" using sub t by blast
          then show ?thesis using writes_keep [OF \<open>writes tr ?W db db'\<close>] by blast
        qed
        ultimately show ?thesis by blast
      qed
    qed
  qed
qed

section \<open>Jobs\<close>

lemma text_chunks_set: "c \<in> set (text_chunks xs) \<Longrightarrow> set c \<subseteq> set xs"
proof (induction xs rule: text_chunks.induct)
  case (1 xs)
  then show ?case by (subst (asm) text_chunks.simps) (auto split: if_splits dest: in_set_takeD in_set_dropD)
qed

lemma text_chunks_all: "concat (text_chunks xs) = xs"
proof (induction xs rule: text_chunks.induct)
  case (1 xs)
  then show ?case by (subst text_chunks.simps) simp
qed

definition job_answer ::
  "'db translator \<Rightarrow> transcript_line list option \<Rightarrow> (string \<times> string) list \<Rightarrow> string \<Rightarrow> string option \<Rightarrow> bool" where
  "job_answer tr conversation annotate t ov \<longleftrightarrow> (\<exists>n. call_answer tr conversation annotate n t ov)"

lemma run_chunks_step:
  assumes "\<forall>c \<in> set cs. (\<forall>t \<in> set c. py_strip t = t \<and> t \<noteq> []) \<and> set c \<subseteq> dom (map_of annotate)"
  shows "run_chunks tr force conversation annotate n cs failed db \<noteq> None"
    and "manager_ok tr \<Longrightarrow> run_chunks tr force conversation annotate n cs failed db = Some (failed', db') \<Longrightarrow>
      writes tr (\<lambda>t v. t \<in> set (concat cs) \<and> job_answer tr conversation annotate t (Some v)) db db' \<and> failed \<le> failed'
      \<and> (failed' = failed \<longrightarrow> (\<forall>t \<in> set (concat cs). has_translation tr db' (md5_text_key tr t) \<or> job_answer tr conversation annotate t None))"
proof -
  show "run_chunks tr force conversation annotate n cs failed db \<noteq> None"
    using assms
  proof (induction cs arbitrary: n failed db)
    case (Cons c cs)
    have "translate_texts_to_crm tr n c force conversation annotate db \<noteq> None"
      by (rule translate_texts_step(1)) (use Cons.prems in simp_all)
    then obtain r db' where "translate_texts_to_crm tr n c force conversation annotate db = Some (r, db')"
      by (metis not_None_eq surj_pair)
    then show ?case using Cons by (cases r) (auto split: prod.split)
  qed simp
  assume ok: "manager_ok tr" and run: "run_chunks tr force conversation annotate n cs failed db = Some (failed', db')"
  show "writes tr (\<lambda>t v. t \<in> set (concat cs) \<and> job_answer tr conversation annotate t (Some v)) db db' \<and> failed \<le> failed'
      \<and> (failed' = failed \<longrightarrow> (\<forall>t \<in> set (concat cs). has_translation tr db' (md5_text_key tr t) \<or> job_answer tr conversation annotate t None))"
    using assms run
  proof (induction cs arbitrary: n failed db)
    case (Cons c cs)
    let ?W = "\<lambda>cs t v. t \<in> set (concat cs) \<and> job_answer tr conversation annotate t (Some v)"
    have c: "\<forall>t \<in> set c. py_strip t = t \<and> t \<noteq> []" "set c \<subseteq> dom (map_of annotate)" using Cons.prems(1) by simp_all
    have "translate_texts_to_crm tr n c force conversation annotate db \<noteq> None" by (rule translate_texts_step(1) [OF c])
    then obtain r db1 where r: "translate_texts_to_crm tr n c force conversation annotate db = Some (r, db1)"
      by (metis not_None_eq surj_pair)
    note step = translate_texts_step(2) [OF c ok r]
    define lost where "lost = (case r of Inl e \<Rightarrow> length c | Inr so \<Rightarrow> snd so)"
    have rest: "run_chunks tr force conversation annotate (n + 1) cs (failed + lost) db1 = Some (failed', db')"
      using Cons.prems(2) r by (cases r) (auto simp: lost_def split: prod.splits)
    note later = Cons.IH [OF _ rest]
    have one: "writes tr (?W (c # cs)) db db1"
      by (rule writes_mono [OF conjunct1 [OF step]]) (auto simp: job_answer_def)
    have two: "writes tr (?W (c # cs)) db1 db'"
      by (rule writes_mono [OF conjunct1 [OF later]]) (use Cons.prems(1) in auto)
    have "\<forall>t \<in> set c. has_translation tr db1 (md5_text_key tr t) \<or> job_answer tr conversation annotate t None" if "lost = 0"
    proof (cases r)
      case (Inl e)
      then show ?thesis using that by (simp add: lost_def)
    next
      case (Inr so)
      then have "r = Inr (fst so, 0)" using that by (simp add: lost_def prod_eq_iff)
      then show ?thesis using step unfolding job_answer_def by blast
    qed
    then have first: "\<forall>t \<in> set c. has_translation tr db' (md5_text_key tr t) \<or> job_answer tr conversation annotate t None" if "lost = 0"
      using that writes_keep [OF two] by blast
    have grow: "failed + lost \<le> failed'" using later Cons.prems(1) by simp
    have "\<forall>t \<in> set (concat cs). has_translation tr db' (md5_text_key tr t) \<or> job_answer tr conversation annotate t None"
      if "failed' = failed"
      using later Cons.prems(1) that grow by simp
    moreover have "lost = 0" if "failed' = failed" using that grow by simp
    ultimately have "failed' = failed \<longrightarrow> (\<forall>t \<in> set (concat (c # cs)). has_translation tr db' (md5_text_key tr t)
        \<or> job_answer tr conversation annotate t None)"
      using first by auto
    with writes_trans [OF one two] grow show ?case by simp
  qed simp
qed

lemma uncached_length: "uncached tr force db ts = Inr us \<Longrightarrow> length us \<le> length ts"
proof (induction ts arbitrary: us)
  case (Cons t ts)
  then show ?case by (fastforce simp: and_then_Inr_iff)
qed simp

lemma enough_pending:
  "enough_hashes md5 ts \<Longrightarrow> uncached tr force db ts = Inr us \<Longrightarrow> enough_hashes md5 us"
  using uncached_set uncached_length unfolding enough_hashes_def by (meson le_trans subsetD)

text \<open>What every run does: nothing, or the chunks of the pending texts.\<close>

lemma translation_run_cases:
  assumes "translation_run tr force expected current conversation ordered db = Some (r, db')"
  obtains (idle) "db' = db" "\<And>msg. r = Inr (True, msg) \<Longrightarrow> uncached tr force db ordered = Inr []"
  | (work) pending annotate failed where "epoch_matches expected current" "uncached tr force db ordered = Inr pending"
      "assign_short_hashes (tr_md5 tr) pending = Some annotate"
      "run_chunks tr force conversation annotate 0 (text_chunks pending) 0 db = Some (failed, db')"
      "\<And>msg. r = Inr (True, msg) \<Longrightarrow> failed = 0"
proof (cases "epoch_matches expected current \<and> (\<exists>pending. pending \<noteq> [] \<and> uncached tr force db ordered = Inr pending)")
  case True
  then obtain pending where p: "epoch_matches expected current" "pending \<noteq> []" "uncached tr force db ordered = Inr pending" by blast
  from assms p obtain annotate failed where "assign_short_hashes (tr_md5 tr) pending = Some annotate"
    "run_chunks tr force conversation annotate 0 (text_chunks pending) 0 db = Some (failed, db')" "r = Inr (True, msg) \<Longrightarrow> failed = 0" for msg
    by (fastforce simp: translation_run_def split: option.splits prod.splits if_splits)
  with p work show thesis by blast
next
  case False
  with assms have "db' = db \<and> (\<forall>msg. r = Inr (True, msg) \<longrightarrow> uncached tr force db ordered = Inr [])"
    by (auto simp: translation_run_def split: if_splits sum.splits)
  with idle show thesis by blast
qed

lemma pending_chunks:
  assumes "uncached tr force db (clean_texts texts) = Inr pending" "assign_short_hashes (tr_md5 tr) pending = Some annotate"
  shows "\<forall>c \<in> set (text_chunks pending). (\<forall>t \<in> set c. py_strip t = t \<and> t \<noteq> []) \<and> set c \<subseteq> dom (map_of annotate)"
proof
  fix c assume "c \<in> set (text_chunks pending)"
  then have "set c \<subseteq> set pending" by (rule text_chunks_set)
  moreover have "set pending \<subseteq> set (clean_texts texts)" using uncached_set [OF assms(1)] by simp
  ultimately show "(\<forall>t \<in> set c. py_strip t = t \<and> t \<noteq> []) \<and> set c \<subseteq> dom (map_of annotate)"
    using assign_short_hashes_apart(2) [OF assms(2)] set_clean_texts by blast
qed

text \<open>
  C37: No translation ends up under another text. Whatever a job changes in the cache, it is the entry of one of the texts that were
  pending, the account is the one it was queued for, and the new value is what the agent answered in this job for the hash
  that this text, and no other text of the job, was given.
\<close>

theorem translations_stay_apart:
  assumes "manager_ok tr" "translation_run tr force expected current conversation (clean_texts texts) db = Some (r, db')"
    and "tr_get tr db' k \<noteq> tr_get tr db k"
  shows "epoch_matches expected current \<and> (\<exists>pending annotate t h v. uncached tr force db (clean_texts texts) = Inr pending
    \<and> assign_short_hashes (tr_md5 tr) pending = Some annotate \<and> t \<in> set pending \<and> md5_text_key tr t = k
    \<and> map_of annotate t = Some h \<and> (\<forall>u. map_of annotate u = Some h \<longrightarrow> u = t)
    \<and> job_answer tr conversation annotate t (Some v) \<and> tr_get tr db' k = Inr (Some v))"
  using assms(2)
proof (cases rule: translation_run_cases)
  case idle
  then show ?thesis using assms(3) by simp
next
  case (work pending annotate failed)
  note run = run_chunks_step(2) [OF pending_chunks [OF work(2,3)] assms(1) work(4)]
  obtain t v where t: "md5_text_key tr t = k" "t \<in> set (concat (text_chunks pending))" "job_answer tr conversation annotate t (Some v)"
    "tr_get tr db' k = Inr (Some v)"
    using run assms(3) unfolding writes_def by blast
  then have p: "t \<in> set pending" by (simp add: text_chunks_all)
  then obtain h where h: "map_of annotate t = Some h" using assign_short_hashes_apart(2) [OF work(3)] by blast
  then have "\<forall>u. map_of annotate u = Some h \<longrightarrow> u = t"
    using assign_short_hashes_apart(1) [OF work(3)] unfolding apart_def by blast
  with work(1,2,3) t(1,3,4) p h show ?thesis by blast
qed

text \<open>
  C38: A job always ends when the texts have enough hashes, loses no translation that was there, and when it reports success every
  text it was given has a translation in the cache or was called abnormal by the agent in this job.
\<close>

theorem successful_translation_is_complete:
  assumes "manager_ok tr" "enough_hashes (tr_md5 tr) (clean_texts texts)"
  shows "\<exists>r db'. translation_run tr force expected current conversation (clean_texts texts) db = Some (r, db')
    \<and> (\<forall>k. has_translation tr db k \<longrightarrow> has_translation tr db' k)
    \<and> (\<forall>msg. r = Inr (True, msg) \<longrightarrow> (\<forall>t \<in> set (clean_texts texts). has_translation tr db' (md5_text_key tr t)
        \<or> (\<exists>pending annotate. uncached tr force db (clean_texts texts) = Inr pending
            \<and> assign_short_hashes (tr_md5 tr) pending = Some annotate \<and> job_answer tr conversation annotate t None)))"
proof -
  have "translation_run tr force expected current conversation (clean_texts texts) db \<noteq> None"
  proof (cases "uncached tr force db (clean_texts texts)")
    case (Inr pending)
    obtain annotate where a: "assign_short_hashes (tr_md5 tr) pending = Some annotate"
      using assign_short_hashes_ends [OF enough_pending [OF assms(2) Inr]] by blast
    note run_chunks_step(1) [OF pending_chunks [OF Inr a], of tr force conversation 0 0 db]
    then show ?thesis by (auto simp: translation_run_def Inr a split: option.split)
  qed (simp add: translation_run_def)
  then obtain r db' where run: "translation_run tr force expected current conversation (clean_texts texts) db = Some (r, db')"
    by (metis not_None_eq surj_pair)
  then show ?thesis
  proof (cases rule: translation_run_cases)
    case idle
    have "has_translation tr db' (md5_text_key tr t)" if "r = Inr (True, msg)" "t \<in> set (clean_texts texts)" for msg t
      using uncached_set [OF idle(2) [OF that(1)]] that(2) idle(1) by simp
    with run idle(1) show ?thesis by blast
  next
    case (work pending annotate failed)
    note chunks = run_chunks_step(2) [OF pending_chunks [OF work(2,3)] assms(1) work(4)]
    have kept: "\<forall>k. has_translation tr db k \<longrightarrow> has_translation tr db' k"
      using chunks unfolding writes_def by blast
    have "has_translation tr db' (md5_text_key tr t) \<or> job_answer tr conversation annotate t None"
      if "r = Inr (True, msg)" "t \<in> set (clean_texts texts)" for msg t
    proof (cases "t \<in> set pending")
      case True
      then show ?thesis using chunks work(5) [OF that(1)] by (simp add: text_chunks_all)
    next
      case False
      then show ?thesis using uncached_set [OF work(2)] that(2) kept by blast
    qed
    with run kept work(2,3) show ?thesis by blast
  qed
qed

section \<open>Witnesses\<close>

definition demo_md5 :: "string \<Rightarrow> byte list" where
  "demo_md5 s = [of_nat (length s)]"

definition demo_translator :: "(string \<times> string) list translator" where
  "demo_translator = \<lparr>tr_md5 = demo_md5, tr_decoders = demo_decoders\<lparr>dc_loads := (\<lambda>_.
       Inr (PDict [(''translations'', PDict [(short_text_hash demo_md5 ''hi'' 0, PStr ''hello'')])]))\<rparr>,
     tr_dumps = (\<lambda>_. []), tr_agent = (\<lambda>_ _. Inr ''{}''), tr_get = (\<lambda>db k. Inr (map_of db k)), tr_put = (\<lambda>k v db. (Inr (), alist_put k v db))\<rparr>"

declare free_hash.simps [code]

lemma demo_manager: "manager_ok demo_translator"
  by (simp add: manager_ok_def demo_translator_def)

lemma demo_job: "(case translation_run demo_translator False None ''e'' None (clean_texts ['' hi '', ''hi'']) [] of
    Some (Inr (True, _), db) \<Rightarrow> map_of db (md5_text_key demo_translator ''hi'') = Some ''hello'' | _ \<Rightarrow> False)"
  by code_simp

lemma translations_stay_apart_witness:
  "\<exists>r db'. translation_run demo_translator False None ''e'' None (clean_texts ['' hi '', ''hi'']) [] = Some (r, db')
     \<and> (\<exists>annotate t v. md5_text_key demo_translator t = md5_text_key demo_translator ''hi''
          \<and> job_answer demo_translator None annotate t (Some v))"
proof -
  obtain r db' where run: "translation_run demo_translator False None ''e'' None (clean_texts ['' hi '', ''hi'']) [] = Some (r, db')"
    and "map_of db' (md5_text_key demo_translator ''hi'') = Some ''hello''"
    using demo_job by (auto split: option.splits prod.splits sum.splits bool.splits)
  then have "tr_get demo_translator db' (md5_text_key demo_translator ''hi'') \<noteq> tr_get demo_translator [] (md5_text_key demo_translator ''hi'')"
    by (simp add: demo_translator_def)
  from translations_stay_apart [OF demo_manager run this] run show ?thesis by blast
qed

lemma successful_translation_is_complete_witness:
  "has_translation demo_translator (snd (the (translation_run demo_translator False None ''e'' None (clean_texts [''hi'']) []))) (md5_text_key demo_translator ''hi'')
   \<or> (\<exists>annotate. job_answer demo_translator None annotate ''hi'' None)"
proof -
  have ts: "clean_texts [''hi''] = [''hi'']" "clean_texts ['' hi '', ''hi''] = [''hi'']" by code_simp+
  have "0 < card (range (short_text_hash (tr_md5 demo_translator) ''hi''))"
    using finite_hashes by (simp add: card_gt_0_iff)
  then have "enough_hashes (tr_md5 demo_translator) (clean_texts [''hi''])"
    by (simp add: enough_hashes_def ts)
  then obtain r db' where run: "translation_run demo_translator False None ''e'' None (clean_texts [''hi'']) [] = Some (r, db')"
    and all: "\<forall>msg. r = Inr (True, msg) \<longrightarrow> (\<forall>t \<in> set (clean_texts [''hi'']). has_translation demo_translator db' (md5_text_key demo_translator t)
        \<or> (\<exists>pending annotate. uncached demo_translator False [] (clean_texts [''hi'']) = Inr pending
            \<and> assign_short_hashes (tr_md5 demo_translator) pending = Some annotate \<and> job_answer demo_translator None annotate t None))"
    using successful_translation_is_complete [OF demo_manager, of "[''hi'']" False None "''e''" None "[]"] by metis
  have "\<exists>msg. r = Inr (True, msg)"
    using demo_job unfolding ts run [unfolded ts] by (auto split: sum.splits prod.splits bool.splits)
  moreover have "''hi'' \<in> set (clean_texts [''hi''])" by (simp add: ts)
  ultimately have "has_translation demo_translator db' (md5_text_key demo_translator ''hi'') \<or> (\<exists>annotate. job_answer demo_translator None annotate ''hi'' None)"
    using all by blast
  then show ?thesis by (simp add: run)
qed

end
