(* ===== verification/Cards.thy ===== *)
theory Cards
  imports Crm_Sync
begin

text \<open>
  Card messages, \<^verbatim>\<open>shared/cards.py\<close>: finding the JSON object in the bytes of a message, and the view of a card that is sent to the
  browser. Product and inquiry cards are completed from the pools (\<open>User_Pool\<close>).

  Parameters, of Python's library: the JSON decoder at a position (the value and where it ends), decoding of UTF-8 without
  replacement, base64, \<^verbatim>\<open>html.unescape\<close>, and the text of a number with one decimal, which also rounds to the nearest float. Chinese
  texts that no branch reads are tags; two keys have the same tag when their labels are the same.
\<close>

record card_codec =
  cc_decoders :: decoders
  cc_raw_decode :: "string \<Rightarrow> nat \<Rightarrow> (pyval \<times> nat) result"
  cc_utf8 :: "nat list \<Rightarrow> string option"
  cc_base64 :: "string \<Rightarrow> nat list option"
  cc_unescape :: "string \<Rightarrow> string"
  cc_fixed :: "rat \<Rightarrow> string"

record card =
  cd_type :: int
  cd_params :: "(string \<times> pyval) list"

section \<open>Parsing\<close>

text \<open>\<^verbatim>\<open>int(s)\<close> of a text; Python refuses more than 4300 digits.\<close>

definition int_of_text :: "string \<Rightarrow> int option" where
  "int_of_text s = (if 4300 < length (filter ascii_digit s) then None else py_int (py_strip s))"

text \<open>\<^verbatim>\<open>int(value or 0)\<close>, with the exceptions that are caught as None.\<close>

definition card_number :: "pyval \<Rightarrow> int option result" where
  "card_number v =
     (if \<not> truthy v then Inr (Some 0)
      else case v of
             PBool b \<Rightarrow> Inr (Some 1)
           | PInt i \<Rightarrow> Inr (Some i)
           | PFloat (FFin q) \<Rightarrow> Inr (Some (if 0 \<le> q then \<lfloor>q\<rfloor> else \<lceil>q\<rceil>))
           | PFloat FNaN \<Rightarrow> Inr None
           | PFloat _ \<Rightarrow> Inl (Overflow_Error ''cannot convert float infinity to integer'')
           | PStr s \<Rightarrow> Inr (int_of_text s)
           | _ \<Rightarrow> Inr None)"

definition card_of :: "(string \<times> pyval) list \<Rightarrow> card option result" where
  "card_of d =
     and_then (card_number (dict_get_none d ''cardType'')) (\<lambda>n.
       case n of
         None \<Rightarrow> Inr None
       | Some t \<Rightarrow> (case dict_get_none d ''params'' of
                      PDict ps \<Rightarrow> Inr (if t \<noteq> 0 then Some \<lparr>cd_type = t, cd_params = ps\<rparr> else None)
                    | _ \<Rightarrow> Inr None))"

definition utf8_json :: "card_codec \<Rightarrow> nat list \<Rightarrow> nat \<Rightarrow> nat \<Rightarrow> (string \<times> pyval) list \<Rightarrow> (string \<times> pyval) list result" where
  "utf8_json cc raw start stop fallback =
     (case cc_utf8 cc (drop start (take stop raw)) of
        None \<Rightarrow> Inr fallback
      | Some s \<Rightarrow>
          (case dc_loads (cc_decoders cc) s of
             Inl (Value_Error _) \<Rightarrow> Inr fallback
           | Inl e \<Rightarrow> Inl e
           | Inr (PDict d) \<Rightarrow> Inr d
           | Inr _ \<Rightarrow> Inr fallback))"

definition next_brace :: "string \<Rightarrow> nat \<Rightarrow> nat option" where
  "next_brace text position = find (\<lambda>i. text ! i = CHR ''{'') [position..<length text]"

lemma next_brace_Some: "next_brace text position = Some i \<Longrightarrow> position \<le> i \<and> i < length text \<and> text ! i = CHR ''{''"
  by (auto simp: next_brace_def dest: find_SomeD)

function find_card :: "card_codec \<Rightarrow> nat list \<Rightarrow> string \<Rightarrow> nat \<Rightarrow> card option result" where
  "find_card cc raw text position =
     (case next_brace text position of
        None \<Rightarrow> Inr None
      | Some i \<Rightarrow>
          (case cc_raw_decode cc text i of
             Inl (Value_Error _) \<Rightarrow> find_card cc raw text (i + 1)
           | Inl e \<Rightarrow> Inl e
           | Inr (PDict d, stop) \<Rightarrow>
               if map_of d ''cardType'' \<noteq> None then and_then (utf8_json cc raw i stop d) card_of
               else find_card cc raw text (i + 1)
           | Inr _ \<Rightarrow> find_card cc raw text (i + 1)))"
  by pat_completeness auto
termination
  by (relation "measure (\<lambda>(cc, raw, text, position). length text - position)") (auto dest!: next_brace_Some)

declare find_card.simps [simp del]

definition parse_card :: "card_codec \<Rightarrow> nat list option \<Rightarrow> card option result" where
  "parse_card cc content =
     (case content of
        None \<Rightarrow> Inr None
      | Some raw \<Rightarrow> if raw = [] then Inr None else find_card cc raw (latin1_text raw) 0)"

section \<open>Identifiers\<close>

definition product_card_types :: "int list" where
  "product_card_types = [3, 2000, 2028, 2098]"

definition inquiry_card_type :: int where "inquiry_card_type = 6"
definition order_card_type :: int where "order_card_type = 9"
definition file_card_type :: int where "file_card_type = 12"

definition param :: "card \<Rightarrow> string \<Rightarrow> pyval" where
  "param c k = dict_get_none (cd_params c) k"

text \<open>\<^verbatim>\<open>a or b or \<dots> or ''\<close>.\<close>

fun first_truthy :: "pyval list \<Rightarrow> pyval" where
  "first_truthy [] = PStr []"
| "first_truthy (v # vs) = (if truthy v then v else first_truthy vs)"

definition product_ids :: "card_codec \<Rightarrow> card \<Rightarrow> string list" where
  "product_ids cc c =
     filter (\<lambda>p. p \<noteq> []) (map py_strip (split_on (CHR '','')
       (str_of (cc_decoders cc) (first_truthy [param c ''ids'', param c ''id'', param c ''quoteProductId'']))))"

definition reference_keys :: "string list" where
  "reference_keys = [''id'', ''ids'', ''orderId'', ''cardId'', ''productId'', ''quoteProductId'', ''catalogId'', ''snapshotId'',
     ''addressId'', ''encryFeedbackId'']"

definition card_reference :: "card_codec \<Rightarrow> card \<Rightarrow> string" where
  "card_reference cc c =
     (case first_truthy (map (param c) reference_keys) of
        PStr [] \<Rightarrow> []
      | v \<Rightarrow> py_strip (hd (split_on (CHR '','') (str_of (cc_decoders cc) v))))"

section \<open>Fields\<close>

definition denied_keys :: "string list" where
  "denied_keys = [''sign'', ''chatToken'', ''activeAccountIdEncrypt'', ''loginIdEncrypt'', ''encryFeedbackId'', ''encryTradeId'', ''encryId'']"

definition noise_keys :: "string list" where
  "noise_keys = [''appKey'', ''appVersion'', ''cardType'', ''ctime'', ''version'', ''type'', ''country'', ''from'', ''to'', ''fromUid'', ''toUid'',
     ''source'', ''fbType'', ''marketType'', ''ids'', ''url'', ''downloadUrl'', ''thumbnailUrl'', ''md5'', ''parentId'', ''_shareCardId'',
     ''contryFlag'', ''processId'', ''targetAliId'', ''activeAccountId'', ''scene'', ''remindBuyers'', ''skuSelectList'',
     ''orderCreateTime'', ''params'', ''extension'']"

definition field_labels :: "(string \<times> string) list" where
  "field_labels = [(''id'', ''ID''), (''productId'', ''<product>''), (''quoteProductId'', ''<product>''), (''orderId'', ''<order>''),
     (''contractId'', ''<contract>''), (''bizCode'', ''<biz>''), (''quoId'', ''<quote>''), (''catalogId'', ''<catalog>''), (''cardId'', ''<card>''),
     (''addressId'', ''<address id>''), (''snapshotId'', ''<address id>''), (''name'', ''<file name>''), (''extensionType'', ''<file type>''),
     (''size'', ''<size>''), (''countryName'', ''<country>''), (''provinceName'', ''<province>''), (''cityName'', ''<city>''),
     (''zipCode'', ''<zip>''), (''address'', ''<address>''), (''address2'', ''<address 2>''), (''companyAddress'', ''<company address>''),
     (''contactName'', ''<contact>''), (''companyTel'', ''<phone>''), (''mobileNo'', ''<mobile>''), (''buyerName'', ''<buyer>''),
     (''questionType'', ''<reminder>''), (''subType'', ''<identity>''), (''totalPrice'', ''<total>''), (''orderAmount'', ''<order amount>''),
     (''paymentAmount'', ''<payable>''), (''orderAmountCurrency'', ''<currency>''), (''paymentAmountCurrency'', ''<currency>''),
     (''statusMessageKey'', ''<status>'')]"

definition label_of :: "string \<Rightarrow> string" where
  "label_of k = (case map_of field_labels k of Some l \<Rightarrow> l | None \<Rightarrow> k)"

definition max_details :: nat where
  "max_details = 8"

text \<open>\<^verbatim>\<open>_human_size\<close>; the first division turns the integer into a float and may overflow.\<close>

definition float_bound :: rat where
  "float_bound = 2 ^ 1024 - 2 ^ 970"

definition human_size :: "card_codec \<Rightarrow> pyval \<Rightarrow> string result" where
  "human_size cc raw =
     (case int_of_text (str_of (cc_decoders cc) raw) of
        None \<Rightarrow> Inr []
      | Some i \<Rightarrow>
          (let size = (of_int i :: rat) in
           if i \<le> 0 then Inr []
           else if i < 1024 then Inr (str_of (cc_decoders cc) (PInt i) @ '' B'')
           else if float_bound \<le> size / 1024 then Inl (Overflow_Error ''integer division result too large for a float'')
           else if size / 1024 < 1024 then Inr (cc_fixed cc (size / 1024) @ '' KB'')
           else if size / 1024 / 1024 < 1024 then Inr (cc_fixed cc (size / 1024 / 1024) @ '' MB'')
           else Inr (cc_fixed cc (size / 1024 / 1024 / 1024) @ '' GB'')))"

definition order_status :: "pyval \<Rightarrow> string" where
  "order_status v =
     (case v of
        PStr key \<Rightarrow>
          (let parts = split_on (CHR ''.'') key; tail = (if 3 \<le> length parts then parts ! (length parts - 2) else key) in
           if key = [] then [] else if tail = ''unpay'' then ''<to be paid>'' else tail)
      | _ \<Rightarrow> [])"

definition field_value :: "card_codec \<Rightarrow> string \<Rightarrow> pyval \<Rightarrow> string result" where
  "field_value cc key v =
     (if is_dict v \<or> is_list v then Inr []
      else if key = ''statusMessageKey'' then Inr (order_status v)
      else (let text = py_strip (str_of (cc_decoders cc) v) in
            if text = [] then Inr [] else if key = ''size'' then human_size cc (PStr text) else Inr text))"

definition detail :: "string \<Rightarrow> string \<Rightarrow> pyval" where
  "detail label value = PDict [(''label'', PStr label), (''value'', PStr value)]"

fun display_fields :: "card_codec \<Rightarrow> (string \<times> pyval) list \<Rightarrow> (string \<times> string) list \<Rightarrow> (string \<times> string) list result" where
  "display_fields cc [] shown = Inr shown"
| "display_fields cc ((key, v) # items) shown =
     (if key \<in> set denied_keys \<or> key \<in> set noise_keys then display_fields cc items shown
      else and_then (field_value cc key v) (\<lambda>text.
             if text = [] \<or> label_of key \<in> fst ` set shown then display_fields cc items shown
             else if max_details \<le> length shown + 1 then Inr (shown @ [(label_of key, text)])
             else display_fields cc items (shown @ [(label_of key, text)])))"

definition order_params :: "card_codec \<Rightarrow> card \<Rightarrow> (string \<times> pyval) list result" where
  "order_params cc c =
     (case param c ''params'' of
        PStr encoded \<Rightarrow>
          if encoded = [] then Inr []
          else (case cc_base64 cc (encoded @ replicate ((4 - length encoded mod 4) mod 4) (CHR ''='')) of
                  None \<Rightarrow> Inr []
                | Some bs \<Rightarrow>
                    (case cc_utf8 cc bs of
                       None \<Rightarrow> Inr []
                     | Some payload \<Rightarrow>
                         (case dc_loads (cc_decoders cc) payload of
                            Inl (Value_Error _) \<Rightarrow> Inr []
                          | Inl e \<Rightarrow> Inl e
                          | Inr (PDict d) \<Rightarrow> Inr (filter (\<lambda>kv. case snd kv of PStr _ \<Rightarrow> True | PInt _ \<Rightarrow> True | PFloat _ \<Rightarrow> True | PBool _ \<Rightarrow> True | _ \<Rightarrow> False) d)
                          | Inr _ \<Rightarrow> Inr [])))
      | _ \<Rightarrow> Inr [])"

definition json_list_length :: "card_codec \<Rightarrow> pyval \<Rightarrow> nat result" where
  "json_list_length cc raw =
     (case raw of
        PStr s \<Rightarrow>
          if s = [] then Inr 0
          else (case dc_loads (cc_decoders cc) s of
                  Inl (Value_Error _) \<Rightarrow> Inr 0
                | Inl e \<Rightarrow> Inl e
                | Inr (PList xs) \<Rightarrow> Inr (length xs)
                | Inr _ \<Rightarrow> Inr 0)
      | _ \<Rightarrow> Inr 0)"

section \<open>Views\<close>

definition text_or_default :: "card_codec \<Rightarrow> pyval \<Rightarrow> string \<Rightarrow> string" where
  "text_or_default cc v alt = (if truthy v then str_of (cc_decoders cc) v else alt)"

definition middle_dot :: string where
  "middle_dot = '' '' @ [CHR 0xB7] @ '' ''"

definition join_parts :: "string list \<Rightarrow> string" where
  "join_parts parts = join_with middle_dot (filter (\<lambda>p. p \<noteq> []) parts)"

definition category :: "int \<Rightarrow> string" where
  "category t = (if t = inquiry_card_type then ''inquiry'' else ''generic'')"

definition type_names :: "(int \<times> string) list" where
  "type_names = [(1, ''<certificate>''), (3, ''<product card>''), (6, ''<inquiry>''), (9, ''<trade>''), (12, ''<file>''), (23, ''<certificate>''),
     (2000, ''<products>''), (2008, ''<catalog>''), (2013, ''<address>''), (2028, ''<quote>''), (2086, ''<attention>''), (2098, ''<quote reminder>''),
     (2106, ''<attention>''), (2111, ''<price request>'')]"

definition type_name :: "card_codec \<Rightarrow> int \<Rightarrow> string" where
  "type_name cc t = (case map_of type_names t of Some n \<Rightarrow> n | None \<Rightarrow> ''type '' @ str_of (cc_decoders cc) (PInt t))"

definition cover_tone :: "string \<Rightarrow> string" where
  "cover_tone kind = (if kind = ''product'' then ''#e6f4ff'' else if kind = ''inquiry'' then ''#fff7e6'' else ''#f6ffed'')"

definition summary :: "card_codec \<Rightarrow> card \<Rightarrow> (string \<times> pyval) list \<Rightarrow> (string \<times> string) list \<Rightarrow> string result" where
  "summary cc c decoded details =
     (let t = cd_type c; p = param c; d = dict_get_none decoded; txt = text_or_default cc in
      if t = inquiry_card_type then Inr ''<see the client>''
      else if t = order_card_type then
        (let amount = first_truthy [d ''paymentAmount'', d ''orderAmount''];
             parts = join_parts [if truthy amount then py_strip (txt (d ''orderAmountCurrency'') [] @ '' '' @ str_of (cc_decoders cc) amount) else [],
                                 order_status (d ''statusMessageKey'')]
         in Inr (if parts \<noteq> [] then parts else ''<see the client>''))
      else if t = file_card_type then
        and_then (human_size cc (p ''size'')) (\<lambda>size.
          let parts = join_parts [py_upper (txt (p ''extensionType'') []), size] in Inr (if parts \<noteq> [] then parts else ''<file>''))
      else if t = 2013 then Inr (str_of (cc_decoders cc) (first_truthy [p ''companyAddress'', p ''address'']))
      else if t = 2086 then Inr (txt (p ''buyerName'') ''<attention>'')
      else if t = 2106 then
        and_then (json_list_length cc (p ''remindBuyers'')) (\<lambda>n. Inr (if n \<noteq> 0 then nat_text n @ '' buyers'' else ''<attention>''))
      else if t = 1 \<or> t = 23 then Inr ''<asks for the certificate>''
      else if t = 2008 then Inr (''catalog '' @ txt (p ''catalogId'') ''<unknown>'')
      else if t = 2111 then
        and_then (json_list_length cc (p ''skuSelectList'')) (\<lambda>n. Inr (py_strip (nat_text n @ '' items'' @ middle_dot @ ''total '' @ txt (p ''totalPrice'') [])))
      else Inr (case details of [] \<Rightarrow> [] | (_, value) # _ \<Rightarrow> value))"

text \<open>The entries every view has.\<close>

definition view_of :: "string \<Rightarrow> string \<Rightarrow> string \<Rightarrow> string \<Rightarrow> string list \<Rightarrow> (string \<times> string) list \<Rightarrow> (string \<times> pyval) list" where
  "view_of ident title kind text tags details =
     [(''id'', PStr ident), (''title'', PStr title), (''type'', PStr kind), (''summary'', PStr text), (''tags'', PList (map PStr tags)),
      (''coverTone'', PStr (cover_tone kind)), (''details'', PList (map (\<lambda>(l, v). detail l v) details))]"

definition other_view :: "card_codec \<Rightarrow> card \<Rightarrow> string \<Rightarrow> (string \<times> pyval) list result" where
  "other_view cc c mid =
     and_then (if cd_type c = order_card_type then order_params cc c else Inr []) (\<lambda>decoded.
     and_then (display_fields cc (cd_params c @ decoded) []) (\<lambda>details.
     and_then (summary cc c decoded details) (\<lambda>text.
       let name = type_name cc (cd_type c);
           title = (if cd_type c = file_card_type then text_or_default cc (param c ''name'') [] else []);
           view = view_of (str_of (cc_decoders cc) (PInt (cd_type c)) @ '':'' @ mid) (if title \<noteq> [] then title else name) (category (cd_type c)) text [name] details;
           href = str_of (cc_decoders cc) (first_truthy [param c ''downloadUrl'', param c ''url''])
       in Inr (if cd_type c = file_card_type \<and> href \<noteq> []
               then view @ [(''link'', PDict [(''label'', PStr ''<download>''), (''href'', PStr href)])] else view))))"

definition rest_text :: "(string \<times> pyval) list \<Rightarrow> string \<Rightarrow> string" where
  "rest_text rest k = (case map_of rest k of Some (PStr s) \<Rightarrow> s | _ \<Rightarrow> [])"

fun enriched_product :: "product_card dict_pool \<Rightarrow> string list \<Rightarrow> product_card option" where
  "enriched_product pool [] = None"
| "enriched_product pool (i # ids) =
     (case find_by_product_id i pool of Some p \<Rightarrow> Some p | None \<Rightarrow> enriched_product pool ids)"

definition product_view :: "card_codec \<Rightarrow> product_card dict_pool \<Rightarrow> card \<Rightarrow> (string \<times> pyval) list" where
  "product_view cc pool c =
     (let name = type_name cc (cd_type c); ids = product_ids cc c in
      case enriched_product pool ids of
        Some p \<Rightarrow>
          (let shown = rest_text (pc_rest p);
               price = (if shown ''display_price'' \<noteq> [] then shown ''display_price'' else shown ''price'');
               moq = shown ''moq'' @ shown ''moq_unit''
           in view_of (if pc_card_id p \<noteq> [] then pc_card_id p else case ids of i # _ \<Rightarrow> i | [] \<Rightarrow> name)
                (if shown ''title'' \<noteq> [] then shown ''title'' else name) ''product'' (price @ middle_dot @ ''MOQ '' @ moq)
                (name # (if pc_product_id p \<noteq> [] then [pc_product_id p] else []))
                [(''<price>'', price), (''MOQ'', moq), (''<product id>'', pc_product_id p), (''<link>'', shown ''product_url'')])
      | None \<Rightarrow>
          view_of (case ids of i # _ \<Rightarrow> i | [] \<Rightarrow> str_of (cc_decoders cc) (PInt (cd_type c)) @ '':'' @ name) name ''product''
            (if ids \<noteq> [] then ''product '' @ join_with '', '' ids else ''<see the client>'') (name # take 3 ids) (map (Pair ''<product id>'') ids))"

definition inquiry_item :: "nat \<Rightarrow> nat \<Rightarrow> (string \<times> pyval) list \<Rightarrow> (string \<times> string) list" where
  "inquiry_item amount index product =
     (let f = rest_text product;
          price = (if f ''discount_price'' \<noteq> [] then f ''discount_price'' else f ''product_unit_price'');
          quantity = py_strip (f ''product_moq'');
          bare = (case split_on (CHR ''.'') quantity of a # b # cs \<Rightarrow> a @ join_with ''.'' (b # cs) | _ \<Rightarrow> quantity);
          unit = (if py_isdigit bare then py_strip (f ''product_unit'') else []);
          moq = (if quantity \<noteq> [] then py_strip (''MOQ '' @ quantity @ '' '' @ unit) else []);
          value = join_parts [f ''product_name'', price, moq]
      in if value \<noteq> [] then [(if amount = 1 then ''<product>'' else ''<product> '' @ nat_text index, value)] else [])"

definition inquiry_products :: "inquiry_card \<Rightarrow> (string \<times> pyval) list list" where
  "inquiry_products q =
     (case map_of (ic_rest q) ''products'' of
        Some (PList ps) \<Rightarrow> map (\<lambda>p. case p of PDict d \<Rightarrow> d | _ \<Rightarrow> []) ps
      | _ \<Rightarrow> [])"

fun crlf_to_lf :: "string \<Rightarrow> string" where
  "crlf_to_lf (a # b # cs) = (if a = CHR 0x0D \<and> b = CHR 0x0A then CHR 0x0A # crlf_to_lf cs else a # crlf_to_lf (b # cs))"
| "crlf_to_lf s = s"

definition inquiry_view :: "card_codec \<Rightarrow> card \<Rightarrow> inquiry_card \<Rightarrow> string \<Rightarrow> (string \<times> pyval) list" where
  "inquiry_view cc c q mid =
     (let name = type_name cc (cd_type c);
          content = py_strip (crlf_to_lf (cc_unescape cc (rest_text (ic_rest q) ''inquiry_content'')));
          products = inquiry_products q;
          attachments = rest_text (ic_rest q) ''attachment_count'';
          first = (case products of p # _ \<Rightarrow> rest_text p ''product_name'' | [] \<Rightarrow> []);
          details = concat (map (\<lambda>(i, p). inquiry_item (length products) i p) (enumerate 1 products))
                    @ (if attachments \<noteq> [] \<and> attachments \<noteq> ''0'' then [(''<attachments>'', attachments @ '' files'')] else [])
      in view_of (str_of (cc_decoders cc) (PInt (cd_type c)) @ '':'' @ mid) name ''inquiry''
           (if content \<noteq> [] then content else if first \<noteq> [] then first else ''<see the client>'') [name] details)"

definition view_of_card ::
  "card_codec \<Rightarrow> product_card dict_pool \<Rightarrow> inquiry_card dict_pool \<Rightarrow> message_row \<Rightarrow> card \<Rightarrow> (string \<times> pyval) list result" where
  "view_of_card cc products inquiries message c =
     (if cd_type c \<in> set product_card_types then Inr (product_view cc products c)
      else if cd_type c = inquiry_card_type
      then (case get_inquiry (mr_biz message) inquiries of
              Some q \<Rightarrow> Inr (inquiry_view cc c q (mr_mid message))
            | None \<Rightarrow> other_view cc c (mr_mid message))
      else other_view cc c (mr_mid message))"

definition card_view ::
  "card_codec \<Rightarrow> product_card dict_pool \<Rightarrow> inquiry_card dict_pool \<Rightarrow> message_row \<Rightarrow> (string \<times> pyval) list option result" where
  "card_view cc products inquiries message =
     and_then (parse_card cc (mr_content message)) (\<lambda>found.
       case found of
         None \<Rightarrow> Inr None
       | Some c \<Rightarrow> and_then (view_of_card cc products inquiries message c) (\<lambda>v. Inr (Some v)))"

definition product_card_image :: "card_codec \<Rightarrow> product_card dict_pool \<Rightarrow> message_row \<Rightarrow> string result" where
  "product_card_image cc products message =
     and_then (parse_card cc (mr_content message)) (\<lambda>found.
       Inr (case found of
              None \<Rightarrow> []
            | Some c \<Rightarrow>
                if cd_type c \<notin> set product_card_types then []
                else case enriched_product products (product_ids cc c) of
                       None \<Rightarrow> []
                     | Some p \<Rightarrow> rest_text (pc_rest p) ''product_image''))"

section \<open>What a view shows\<close>

text \<open>
  What a view may depend on: the entries outside the denied keys. The entry \<^verbatim>\<open>params\<close>, the encoded part of an order, is left out
  too: its text differs with everything inside it, so its decoded fields are compared instead.
\<close>

definition hidden_keys :: "string list" where
  "hidden_keys = ''params'' # denied_keys"

definition visible :: "(string \<times> pyval) list \<Rightarrow> (string \<times> pyval) list" where
  "visible d = filter (\<lambda>kv. fst kv \<notin> set hidden_keys) d"

definition encoded_fields :: "card_codec \<Rightarrow> card \<Rightarrow> (string \<times> pyval) list result" where
  "encoded_fields cc c = (if cd_type c = order_card_type then order_params cc c else Inr [])"

definition visible_fields :: "card_codec \<Rightarrow> card \<Rightarrow> (string \<times> pyval) list result" where
  "visible_fields cc c = and_then (encoded_fields cc c) (\<lambda>d. Inr (visible d))"

lemma map_of_visible: "k \<notin> set hidden_keys \<Longrightarrow> map_of (visible d) k = map_of d k"
  by (induction d) (auto simp: visible_def)

lemma get_visible: "k \<notin> set hidden_keys \<Longrightarrow> visible d = visible e \<Longrightarrow> dict_get_none d k = dict_get_none e k"
  using map_of_visible [of k d] map_of_visible [of k e] by (simp add: dict_get_none_def)

lemma hidden_not_shown: "k \<in> set hidden_keys \<Longrightarrow> k \<in> set denied_keys \<or> k \<in> set noise_keys"
  by (auto simp: hidden_keys_def noise_keys_def)

lemma display_visible: "display_fields cc (visible d) shown = display_fields cc d shown"
proof (induction d arbitrary: shown)
  case (Cons kv d)
  obtain key v where kv: "kv = (key, v)" by force
  show ?case
  proof (cases "key \<in> set hidden_keys")
    case True
    then show ?thesis using Cons hidden_not_shown [OF True] by (auto simp: visible_def kv)
  next
    case False
    then have "visible (kv # d) = (key, v) # visible d" by (simp add: visible_def kv)
    then show ?thesis unfolding kv by (simp add: Cons cong: if_cong)
  qed
qed (simp add: visible_def)

lemma visible_append: "visible (d @ e) = visible d @ visible e"
  by (simp add: visible_def)

definition same_visible :: "card \<Rightarrow> card \<Rightarrow> bool" where
  "same_visible c e \<longleftrightarrow> cd_type c = cd_type e \<and> visible (cd_params c) = visible (cd_params e)"

lemma param_visible: "same_visible c e \<Longrightarrow> k \<notin> set hidden_keys \<Longrightarrow> param c k = param e k"
  unfolding same_visible_def param_def by (blast intro: get_visible)

lemmas visible_keys = hidden_keys_def denied_keys_def

lemma product_ids_visible: "same_visible c e \<Longrightarrow> product_ids cc c = product_ids cc e"
  by (simp add: product_ids_def param_visible visible_keys)

lemma summary_visible:
  assumes "same_visible c e" "visible d = visible d'"
  shows "summary cc c d details = summary cc e d' details"
proof -
  have "cd_type c = cd_type e" using assms(1) by (simp add: same_visible_def)
  then show ?thesis
    using param_visible [OF assms(1)] get_visible [OF _ assms(2)] by (simp add: summary_def visible_keys Let_def)
qed

lemma other_view_visible:
  assumes "same_visible c e" "visible_fields cc c = visible_fields cc e"
  shows "other_view cc c mid = other_view cc e mid"
proof -
  have t: "cd_type c = cd_type e" and ps: "visible (cd_params c) = visible (cd_params e)"
    using assms(1) by (simp_all add: same_visible_def)
  show ?thesis
  proof (cases "encoded_fields cc c")
    case (Inl err)
    then have "encoded_fields cc e = Inl err"
      using assms(2) by (cases "encoded_fields cc e") (simp_all add: visible_fields_def)
    then show ?thesis unfolding other_view_def encoded_fields_def [symmetric] by (simp add: Inl)
  next
    case (Inr d)
    then obtain d' where d': "encoded_fields cc e = Inr d'" and same: "visible d = visible d'"
      using assms(2) by (cases "encoded_fields cc e") (simp_all add: visible_fields_def)
    have "display_fields cc (cd_params c @ d) [] = display_fields cc (cd_params e @ d') []"
      by (metis display_visible visible_append ps same)
    then show ?thesis
      unfolding other_view_def encoded_fields_def [symmetric]
      using t summary_visible [OF assms(1) same] param_visible [OF assms(1)]
      by (simp add: Inr d' visible_keys)
  qed
qed

text \<open>
  C40: What must not leave the server in a view does not: two cards of one type that differ only in the seven denied fields
  (signature, chat token, and five encrypted identifiers), at the top level or inside the encoded part of an order, have
  the same view, or raise the same exception, whatever the pools hold. The text of the encoded part may differ, since the
  hidden fields are inside it. Other encrypted fields are not covered: the list denies these seven names.
\<close>

theorem denied_fields_never_shown:
  assumes "cd_type c = cd_type e" "visible (cd_params c) = visible (cd_params e)"
    and "visible_fields cc c = visible_fields cc e"
  shows "view_of_card cc products inquiries message c = view_of_card cc products inquiries message e"
proof -
  have same: "same_visible c e" using assms(1,2) by (simp add: same_visible_def)
  have "product_view cc products c = product_view cc products e"
    unfolding product_view_def product_ids_visible [OF same] assms(1) ..
  moreover have "inquiry_view cc c q mid = inquiry_view cc e q mid" for q mid
    by (simp add: inquiry_view_def assms(1))
  ultimately show ?thesis
    using other_view_visible [OF same assms(3)] assms(1) by (simp add: view_of_card_def split: option.split)
qed

text \<open>An encrypted field under any other name is shown: the documentation promises that no field of this kind leaves the server.\<close>

lemma other_encrypted_field_shown:
  assumes "str_of (cc_decoders cc) (PStr ''e1'') = ''e1''"
  shows "display_fields cc [(''encryOrderId'', PStr ''e1'')] [] = Inr [(''encryOrderId'', ''e1'')]"
proof -
  have "py_strip ''e1'' = ''e1''" "label_of ''encryOrderId'' = ''encryOrderId''" by code_simp+
  then show ?thesis
    using assms by (simp add: denied_keys_def noise_keys_def field_value_def max_details_def)
qed

section \<open>What a message can break\<close>

text \<open>
  The sender of a message can make the view of it raise: a card with an infinite number for its type, which the JSON reader
  accepts, is not skipped like one with a text that is no number, but raises out of the parser.
\<close>

theorem infinite_card_type_raises:
  assumes "mr_content message = Some raw" "next_brace (latin1_text raw) 0 = Some i"
    "cc_raw_decode cc (latin1_text raw) i = Inr (PDict d, stop)" "utf8_json cc raw i stop d = Inr d"
    "map_of d ''cardType'' = Some (PFloat FPosInf)"
  shows "card_view cc products inquiries message = Inl (Overflow_Error ''cannot convert float infinity to integer'')"
proof -
  have "raw \<noteq> []" using next_brace_Some [OF assms(2)] by (auto simp: latin1_text_def)
  have "card_of d = Inl (Overflow_Error ''cannot convert float infinity to integer'')"
    using assms(5) by (simp add: card_of_def card_number_def dict_get_none_def)
  then have "parse_card cc (mr_content message) = Inl (Overflow_Error ''cannot convert float infinity to integer'')"
    using assms \<open>raw \<noteq> []\<close> by (simp add: parse_card_def find_card.simps [of cc raw _ 0])
  then show ?thesis by (simp add: card_view_def)
qed

text \<open>The pool is searched for a part of an identifier: a card whose identifier only contains the wanted one is taken for it.\<close>

lemma contains_text_prefix: "has_prefix p s \<Longrightarrow> contains_text p s"
  by (cases s) (auto simp: has_prefix_def)

lemma contains_text_part: "contains_text p (a @ p @ b)"
  by (induction a) (auto simp: contains_text_prefix has_prefix_def)

lemma lookup_takes_a_part:
  assumes "i \<noteq> []" "dp_data pool = [(k, p)]" "pc_product_id p = a @ i @ b"
  shows "enriched_product pool (i # ids) = Some p"
  using assms contains_text_part [of i a b] by (simp add: find_by_product_id_def)

section \<open>Witnesses\<close>

definition demo_codec :: card_codec where
  "demo_codec = \<lparr>cc_decoders = demo_decoders, cc_raw_decode = (\<lambda>_ i. Inr (PDict [(''cardType'', PFloat FPosInf)], i + 1)),
     cc_utf8 = (\<lambda>_. None), cc_base64 = (\<lambda>_. None), cc_unescape = id, cc_fixed = (\<lambda>_. [])\<rparr>"

text \<open>An order whose encoded part holds a signature and an amount; in the example every text decodes to itself as the signature.\<close>

definition order_codec :: card_codec where
  "order_codec = demo_codec\<lparr>cc_decoders := demo_decoders\<lparr>dc_loads := (\<lambda>s. Inr (PDict [(''sign'', PStr s), (''orderAmount'', PInt 5)]))\<rparr>,
     cc_utf8 := (\<lambda>bs. Some (map char_of bs)), cc_base64 := (\<lambda>s. Some (map of_char s))\<rparr>"

definition demo_order :: "string \<Rightarrow> string \<Rightarrow> card" where
  "demo_order token encoded = \<lparr>cd_type = 9, cd_params = [(''chatToken'', PStr token), (''params'', PStr encoded), (''buyerName'', PStr ''Ann'')]\<rparr>"

definition demo_card_message :: message_row where
  "demo_card_message = \<lparr>mr_table = ''msg_1'', mr_cid = ''me-you'', mr_mid = ''a'', mr_sender = PStr ''you@icbu'', mr_created = PInt 1,
     mr_type = PInt 10010, mr_label = PNone, mr_content = Some [0, 123], mr_system = False, mr_auto = False, mr_biz = []\<rparr>"

lemma denied_fields_never_shown_witness:
  "order_params order_codec (demo_order ''t1'' ''abcd'') \<noteq> order_params order_codec (demo_order ''t2'' ''efgh'')
   \<and> view_of_card order_codec (dict_open []) (dict_open []) demo_card_message (demo_order ''t1'' ''abcd'')
     = view_of_card order_codec (dict_open []) (dict_open []) demo_card_message (demo_order ''t2'' ''efgh'')"
proof
  show "order_params order_codec (demo_order ''t1'' ''abcd'') \<noteq> order_params order_codec (demo_order ''t2'' ''efgh'')"
    by code_simp
  show "view_of_card order_codec (dict_open []) (dict_open []) demo_card_message (demo_order ''t1'' ''abcd'')
     = view_of_card order_codec (dict_open []) (dict_open []) demo_card_message (demo_order ''t2'' ''efgh'')"
  proof (rule denied_fields_never_shown)
    show "cd_type (demo_order ''t1'' ''abcd'') = cd_type (demo_order ''t2'' ''efgh'')" by (simp add: demo_order_def)
    show "visible (cd_params (demo_order ''t1'' ''abcd'')) = visible (cd_params (demo_order ''t2'' ''efgh''))" by code_simp
    show "visible_fields order_codec (demo_order ''t1'' ''abcd'') = visible_fields order_codec (demo_order ''t2'' ''efgh'')" by code_simp
  qed
qed

lemma infinite_card_type_raises_witness:
  "card_view demo_codec (dict_open []) (dict_open []) demo_card_message = Inl (Overflow_Error ''cannot convert float infinity to integer'')"
proof (rule infinite_card_type_raises [where d = "[(''cardType'', PFloat FPosInf)]" and stop = 2])
  show "mr_content demo_card_message = Some [0, 123]" by (simp add: demo_card_message_def)
  show "next_brace (latin1_text [0, 123]) 0 = Some 1" by code_simp
qed (simp_all add: demo_codec_def utf8_json_def)

end
