(* ===== verification/Card_Sweep.thy ===== *)
theory Card_Sweep
  imports Cards Gui_Session Outbox_Store
begin

text \<open>
  The sweep over conversations with unknown products, \<^verbatim>\<open>shared/backend/card_sweep_service.py\<close>: it selects the conversations whose
  product cards the pool does not know (\<open>Cards\<close>, \<open>User_Pool\<close>, \<open>Crm_Sync\<close>) and opens them in the client under a GUI token (\<open>Gui_Session\<close>),
  unless messages are waiting in the outbox (\<open>Outbox_Store\<close>).

  What happens outside while the n-th conversation is open is an argument: the answers of the native framework, what other
  threads do to the client's state during the pause, and the pool after it.
\<close>

section \<open>Targets\<close>

record sweep_target =
  tg_sid :: int
  tg_contact :: string
  tg_products :: "string list"

record sweep_outcome =
  oc_target :: sweep_target
  oc_navigated :: bool
  oc_resolved :: "string list"

definition sweep_max_targets :: nat where
  "sweep_max_targets = 20"

definition note_missing :: "product_card dict_pool \<Rightarrow> string list \<Rightarrow> string list \<Rightarrow> string list" where
  "note_missing pool ids missing =
     fold (\<lambda>i ms. if i \<notin> set ms \<and> find_by_product_id i pool = None then ms @ [i] else ms) ids missing"

fun missing_products :: "card_codec \<Rightarrow> product_card dict_pool \<Rightarrow> message_row list \<Rightarrow> string list \<Rightarrow> string list result" where
  "missing_products cc pool [] missing = Inr missing"
| "missing_products cc pool (m # ms) missing =
     and_then (parse_card cc (mr_content m)) (\<lambda>found.
       missing_products cc pool ms
         (case found of
            None \<Rightarrow> missing
          | Some c \<Rightarrow> if cd_type c \<in> set product_card_types then note_missing pool (product_ids cc c) missing else missing))"

fun select_from ::
  "sync_world \<Rightarrow> card_codec \<Rightarrow> product_card dict_pool \<Rightarrow> string \<Rightarrow> sync_db \<Rightarrow> session_meta list \<Rightarrow> sweep_target list result" where
  "select_from w cc pool self d [] = Inr []"
| "select_from w cc pool self d (s # ss) =
     (if se_sid s = 0 \<or> \<not> has_prefix (session_key_prefix self) (se_key s) then select_from w cc pool self d ss
      else case get_conversation_detail w self (se_sid s) d of
             None \<Rightarrow> select_from w cc pool self d ss
           | Some conv \<Rightarrow>
               and_then (missing_products cc pool (cd_messages conv) []) (\<lambda>missing.
               and_then (select_from w cc pool self d ss) (\<lambda>rest.
                 Inr (if missing \<noteq> [] then \<lparr>tg_sid = cd_sid conv, tg_contact = cd_contact conv, tg_products = missing\<rparr> # rest else rest))))"

definition select_targets :: "sync_world \<Rightarrow> card_codec \<Rightarrow> product_card dict_pool \<Rightarrow> string \<Rightarrow> sync_db \<Rightarrow> sweep_target list result" where
  "select_targets w cc pool self d = select_from w cc pool self d (sd_sessions d)"

section \<open>Visits\<close>

fun run_targets ::
  "(nat \<Rightarrow> string \<Rightarrow> 'g \<Rightarrow> (bool \<times> string) \<times> 'g) \<Rightarrow> (nat \<Rightarrow> 'g \<Rightarrow> 'g) \<Rightarrow> (nat \<Rightarrow> string \<Rightarrow> bool) \<Rightarrow> nat \<Rightarrow> sweep_target list \<Rightarrow> 'g
     \<Rightarrow> sweep_outcome list \<times> 'g" where
  "run_targets navigate pause resolved n [] g = ([], g)"
| "run_targets navigate pause resolved n (t # ts) g =
     (let ((ok, text), g1) = navigate n (tg_contact t) g; g2 = (if ok then pause n g1 else g1);
          outcome = \<lparr>oc_target = t, oc_navigated = ok, oc_resolved = (if ok then filter (resolved n) (tg_products t) else [])\<rparr>;
          (rest, g3) = run_targets navigate pause resolved (n + 1) ts g2
      in (outcome # rest, g3))"

text \<open>The visits of such a run, with the state of the client before and after.\<close>

fun navigations ::
  "(nat \<Rightarrow> string \<Rightarrow> 'g \<Rightarrow> (bool \<times> string) \<times> 'g) \<Rightarrow> (nat \<Rightarrow> 'g \<Rightarrow> 'g) \<Rightarrow> nat \<Rightarrow> sweep_target list \<Rightarrow> 'g \<Rightarrow> (string \<times> 'g \<times> 'g) list" where
  "navigations navigate pause n [] g = []"
| "navigations navigate pause n (t # ts) g =
     (let ((ok, text), g1) = navigate n (tg_contact t) g
      in (tg_contact t, g, g1) # navigations navigate pause (n + 1) ts (if ok then pause n g1 else g1))"

section \<open>The service\<close>

record sweep_view =
  so_started :: "pytime option"
  so_heartbeat :: "pytime option"
  so_progress :: "pytime option"
  so_last_sweep :: "pytime option"
  so_phase :: string
  so_phase_started :: "pytime option"
  so_iterations :: nat
  so_error :: "string option"
  so_targets :: nat
  so_visited :: nat
  so_enriched :: nat
  so_failed :: nat

definition new_view :: sweep_view where
  "new_view = \<lparr>so_started = None, so_heartbeat = None, so_progress = None, so_last_sweep = None, so_phase = ''not_started'',
     so_phase_started = None, so_iterations = 0, so_error = None, so_targets = 0, so_visited = 0, so_enriched = 0, so_failed = 0\<rparr>"

definition observe :: "string \<Rightarrow> pytime \<Rightarrow> sweep_view \<Rightarrow> sweep_view" where
  "observe phase now v =
     (if phase \<noteq> so_phase v then v\<lparr>so_phase := phase, so_phase_started := Some now\<rparr> else v)\<lparr>so_heartbeat := Some now\<rparr>"

definition counted :: "nat \<Rightarrow> nat \<Rightarrow> nat \<Rightarrow> nat \<Rightarrow> sweep_view \<Rightarrow> sweep_view" where
  "counted targets visited enriched failed v =
     v\<lparr>so_targets := targets, so_visited := visited, so_enriched := enriched, so_failed := failed\<rparr>"

record sweep_env =
  ve_world :: sync_world
  ve_codec :: card_codec
  ve_crm :: sync_db
  ve_outbox :: outbox_db
  ve_canon :: "string \<Rightarrow> string"
  ve_pool :: "nat \<Rightarrow> product_card dict_pool"
  ve_fresh :: string
  ve_native :: "nat \<Rightarrow> native"
  ve_connection :: "nat \<Rightarrow> connection"
  ve_pause :: "nat \<Rightarrow> gui \<Rightarrow> gui"
  ve_clock :: "nat \<Rightarrow> pytime"

definition outbox_busy :: "sweep_env \<Rightarrow> account \<Rightarrow> bool result" where
  "outbox_busy env ctx =
     and_then (store_list_pending (ve_canon env) (ve_outbox env) (map status_name pending_statuses) (ac_seller ctx) (ac_data_dir ctx))
       (\<lambda>ts. Inr (ts \<noteq> []))"

definition navigate_to :: "sweep_env \<Rightarrow> gui_token \<Rightarrow> nat \<Rightarrow> string \<Rightarrow> gui \<Rightarrow> (bool \<times> string) \<times> gui" where
  "navigate_to env tk n contact g =
     (case run_guarded None (ve_fresh env) tk
             (\<lambda>h. let (r, h') = goto_contact None (ve_fresh env) contact (ve_native env n) (ve_connection env n) h in (Inr r, h')) g of
        (Inl text, g') \<Rightarrow> ((False, text), g')
      | (Inr r, g') \<Rightarrow> (r, g'))"

definition product_resolved :: "sweep_env \<Rightarrow> nat \<Rightarrow> string \<Rightarrow> bool" where
  "product_resolved env n i \<longleftrightarrow> find_by_product_id i (ve_pool env (n + 1)) \<noteq> None"

definition finish_sweep :: "sweep_env \<Rightarrow> sweep_target list \<Rightarrow> sweep_outcome list \<Rightarrow> sweep_view \<Rightarrow> sweep_view" where
  "finish_sweep env targets outcomes v =
     counted (length targets) (length outcomes)
       (length (filter (\<lambda>x. oc_resolved x \<noteq> []) outcomes)) (length (filter (\<lambda>x. oc_navigated x \<and> oc_resolved x = []) outcomes))
       ((observe ''idle'' (ve_clock env 5) v)\<lparr>so_progress := Some (ve_clock env 3), so_last_sweep := Some (ve_clock env 4), so_error := None\<rparr>)"

text \<open>\<^verbatim>\<open>_sweep_once\<close>: the exception if one escapes, the view, the client, and the visits.\<close>

definition sweep_targets ::
  "sweep_env \<Rightarrow> account \<Rightarrow> sweep_target list \<Rightarrow> sweep_view \<Rightarrow> gui \<Rightarrow> sweep_view \<times> gui \<times> (string \<times> gui \<times> gui) list" where
  "sweep_targets env ctx targets v g =
     (case capture_gui_session None (ve_fresh env) (ac_epoch ctx) g of
        (Inl e, g1) \<Rightarrow> (counted (length targets) 0 0 0 ((observe ''idle'' (ve_clock env 2) v)\<lparr>so_error := Some (err_text e)\<rparr>), g1, [])
      | (Inr tk, g1) \<Rightarrow>
          (let v1 = counted (length targets) 0 0 0 ((observe ''sweeping'' (ve_clock env 2) v)\<lparr>so_error := None\<rparr>);
               (outcomes, g2) = run_targets (navigate_to env tk) (ve_pause env) (product_resolved env) 0 targets g1
           in (finish_sweep env targets outcomes v1, g2, navigations (navigate_to env tk) (ve_pause env) 0 targets g1)))"

definition sweep_once ::
  "sweep_env \<Rightarrow> sweep_view \<Rightarrow> gui \<Rightarrow> py_error option \<times> sweep_view \<times> gui \<times> (string \<times> gui \<times> gui) list" where
  "sweep_once env v g =
     (let (ctx, g0) = get_account_context None (ve_fresh env) g in
      if ac_seller ctx = [] \<or> ac_data_dir ctx = [] then (None, observe ''idle'' (ve_clock env 0) v, g0, [])
      else case outbox_busy env ctx of
             Inl e \<Rightarrow> (Some e, v, g0, [])
           | Inr True \<Rightarrow> (None, observe ''idle'' (ve_clock env 0) v, g0, [])
           | Inr False \<Rightarrow>
               (let v1 = observe ''selecting'' (ve_clock env 0) v in
                case select_targets (ve_world env) (ve_codec env) (ve_pool env 0) (ac_seller ctx) (ve_crm env) of
                  Inl e \<Rightarrow> (Some e, v1, g0, [])
                | Inr unresolved \<Rightarrow>
                    (let targets = take sweep_max_targets unresolved in
                     if targets = [] then (None, observe ''idle'' (ve_clock env 1) v1, g0, [])
                     else (None, sweep_targets env ctx targets v1 g0))))"

text \<open>One round of \<^verbatim>\<open>_run\<close> after it was woken; the thread and its two events.\<close>

definition sweep_round :: "sweep_env \<Rightarrow> sweep_view \<Rightarrow> gui \<Rightarrow> sweep_view \<times> gui \<times> (string \<times> gui \<times> gui) list" where
  "sweep_round env v g =
     (let (failed, v1, rest) = sweep_once env v g;
          v2 = (if failed \<noteq> None then (observe ''idle'' (ve_clock env 6) v1)\<lparr>so_error := Some ''sweep_failed''\<rparr> else v1)
      in (v2\<lparr>so_iterations := so_iterations v2 + 1\<rparr>, rest))"

record sweep_service =
  cw_stop :: bool
  cw_wake :: bool
  cw_thread :: bool
  cw_alive :: bool
  cw_view :: sweep_view

definition new_sweep_service :: sweep_service where
  "new_sweep_service = \<lparr>cw_stop = False, cw_wake = False, cw_thread = False, cw_alive = False, cw_view = new_view\<rparr>"

definition start_sweeps :: "pytime \<Rightarrow> pytime \<Rightarrow> sweep_service \<Rightarrow> sweep_service" where
  "start_sweeps t now s =
     (if cw_thread s \<and> \<not> cw_stop s then s
      else s\<lparr>cw_stop := False, cw_thread := True, cw_alive := True,
             cw_view := (observe ''idle'' now (cw_view s))\<lparr>so_started := Some t, so_error := None\<rparr>\<rparr>)"

definition trigger_sweep :: "sweep_service \<Rightarrow> sweep_service" where
  "trigger_sweep s = s\<lparr>cw_wake := True\<rparr>"

definition begin_stop :: "sweep_service \<Rightarrow> sweep_service" where
  "begin_stop s = (if cw_thread s then s\<lparr>cw_stop := True, cw_wake := True\<rparr> else s)"

definition end_stop :: "pytime \<Rightarrow> sweep_service \<Rightarrow> sweep_service" where
  "end_stop now s = s\<lparr>cw_thread := False, cw_view := observe ''stopped'' now (cw_view s)\<rparr>"

definition service_round :: "sweep_env \<Rightarrow> sweep_service \<Rightarrow> gui \<Rightarrow> sweep_service \<times> gui \<times> (string \<times> gui \<times> gui) list" where
  "service_round env s g =
     (if \<not> cw_alive s then (s, g, [])
      else if cw_stop s then (s\<lparr>cw_wake := False, cw_alive := False, cw_view := observe ''stopped'' (ve_clock env 0) (cw_view s)\<rparr>, g, [])
      else if \<not> cw_wake s then (s, g, [])
      else (let (v, rest) = sweep_round env (cw_view s) g in (s\<lparr>cw_wake := False, cw_view := v\<rparr>, rest)))"

definition phase_age :: "pytime \<Rightarrow> sweep_view \<Rightarrow> pytime option" where
  "phase_age now v = (case so_phase_started v of None \<Rightarrow> None | Some t \<Rightarrow> Some (max 0 (now - t)))"

section \<open>Properties\<close>

lemma goto_contact_posts:
  "g_posts (snd (goto_contact None f contact nv cn h)) = g_posts h
    \<or> g_posts (snd (goto_contact None f contact nv cn h)) = g_posts h @ [(''ContactSearch'', goto_contact_override contact)]
      \<and> (\<exists>tk. g_token h = Some tk \<and> authorised None tk (snd (goto_contact None f contact nv cn h)))"
proof -
  obtain refused g1 where n: "node_guard None f ''ContactSearch'' (goto_contact_override contact) cn h = (refused, g1)"
    by (metis surj_pair)
  have same: "g_posts g1 = g_posts h" using node_guard_posts [of None f "''ContactSearch''" _ cn h] n by (metis snd_conv)
  show ?thesis
  proof (cases refused)
    case None
    then have "\<exists>tk. g_token h = Some tk \<and> authorised None tk g1"
      using node_guard_passed [OF n [unfolded None]] by (simp add: read_only_entries_def)
    then show ?thesis using n None same by (simp add: goto_contact_def run_node_def)
  next
    case (Some t)
    then show ?thesis using n same by (simp add: goto_contact_def run_node_def)
  qed
qed

lemma authorised_token [simp]: "authorised b tk (g\<lparr>g_token := t\<rparr>) = authorised b tk g"
  by (simp add: authorised_def probe_binding_def Let_def split: sum.splits option.splits)

lemma navigate_guarded:
  "g_posts (snd (navigate_to env tk n contact g)) = g_posts g
    \<or> g_posts (snd (navigate_to env tk n contact g)) = g_posts g @ [(''ContactSearch'', goto_contact_override contact)]
      \<and> authorised None tk (snd (navigate_to env tk n contact g))"
proof -
  obtain r g1 where v: "validate_token None (ve_fresh env) tk g = (r, g1)" by (metis surj_pair)
  have same: "g_posts g1 = g_posts g" using validate_token_frame(1) [of None "ve_fresh env" tk g] v by simp
  show ?thesis
  proof (cases r)
    case (Inl e)
    then show ?thesis using v same by (simp add: navigate_to_def run_guarded_def)
  next
    case (Inr u)
    obtain out h where go: "goto_contact None (ve_fresh env) contact (ve_native env n) (ve_connection env n) (g1\<lparr>g_token := Some tk\<rparr>) = (out, h)"
      by (metis surj_pair)
    have "snd (navigate_to env tk n contact g) = h\<lparr>g_token := g_token g\<rparr>"
      using v Inr go by (simp add: navigate_to_def run_guarded_def)
    then show ?thesis
      using goto_contact_posts [of "ve_fresh env" contact "ve_native env n" "ve_connection env n" "g1\<lparr>g_token := Some tk\<rparr>"] go same by auto
  qed
qed

lemma navigations_Cons:
  "navigations navigate pause n (t # ts) g =
     (tg_contact t, g, snd (navigate n (tg_contact t) g))
     # navigations navigate pause (n + 1) ts
         (if fst (fst (navigate n (tg_contact t) g)) then pause n (snd (navigate n (tg_contact t) g)) else snd (navigate n (tg_contact t) g))"
  by (simp add: case_prod_beta Let_def)

lemma navigations_contacts: "map fst (navigations navigate pause n ts g) = map tg_contact ts"
proof (induction ts arbitrary: n g)
  case (Cons t ts)
  show ?case by (simp only: navigations_Cons list.map fst_conv Cons)
qed simp

lemma navigations_all:
  assumes "\<And>n contact g. P contact g (snd (navigate n contact g))"
  shows "\<forall>(contact, h, h') \<in> set (navigations navigate pause n ts g). P contact h h'"
proof (induction ts arbitrary: n g)
  case (Cons t ts)
  show ?case
    unfolding navigations_Cons using assms [of "tg_contact t" g n] Cons by (auto simp del: navigations.simps)
qed simp

lemma navigations_guarded:
  "\<forall>(contact, h, h') \<in> set (navigations (navigate_to env tk) pause n ts g). g_posts h' = g_posts h
     \<or> g_posts h' = g_posts h @ [(''ContactSearch'', goto_contact_override contact)] \<and> authorised None tk h'"
  using navigations_all [of "\<lambda>contact h h'. g_posts h' = g_posts h
     \<or> g_posts h' = g_posts h @ [(''ContactSearch'', goto_contact_override contact)] \<and> authorised None tk h'", OF navigate_guarded] .

text \<open>
  What the selection promises. The products a message mentions are the identifiers of its product card; those of a conversation
  that the pool does not know make it worth a visit, and the conversations of an account are those of its sessions, in their order.
\<close>

definition mentioned_products :: "card_codec \<Rightarrow> message_row \<Rightarrow> string list" where
  "mentioned_products cc m =
     (case parse_card cc (mr_content m) of
        Inr (Some c) \<Rightarrow> if cd_type c \<in> set product_card_types then product_ids cc c else []
      | _ \<Rightarrow> [])"

definition unknown_products :: "card_codec \<Rightarrow> product_card dict_pool \<Rightarrow> conversation_detail \<Rightarrow> string list" where
  "unknown_products cc pool conv =
     filter (\<lambda>i. find_by_product_id i pool = None) (concat (map (mentioned_products cc) (cd_messages conv)))"

definition own_conversations :: "sync_world \<Rightarrow> string \<Rightarrow> sync_db \<Rightarrow> session_meta list \<Rightarrow> conversation_detail list" where
  "own_conversations w self d ss =
     List.map_filter (\<lambda>s. if se_sid s = 0 \<or> \<not> has_prefix (session_key_prefix self) (se_key s) then None
                         else get_conversation_detail w self (se_sid s) d) ss"

definition wanted_conversations :: "sync_world \<Rightarrow> card_codec \<Rightarrow> product_card dict_pool \<Rightarrow> string \<Rightarrow> sync_db \<Rightarrow> conversation_detail list" where
  "wanted_conversations w cc pool self d =
     filter (\<lambda>conv. unknown_products cc pool conv \<noteq> []) (own_conversations w self d (sd_sessions d))"

definition target_of :: "card_codec \<Rightarrow> product_card dict_pool \<Rightarrow> conversation_detail \<Rightarrow> sweep_target \<Rightarrow> bool" where
  "target_of cc pool conv t \<longleftrightarrow> tg_sid t = cd_sid conv \<and> tg_contact t = cd_contact conv
     \<and> set (tg_products t) = set (unknown_products cc pool conv) \<and> distinct (tg_products t)"

lemma note_missing_Cons:
  "note_missing pool (i # ids) missing =
     note_missing pool ids (if i \<notin> set missing \<and> find_by_product_id i pool = None then missing @ [i] else missing)"
  by (simp add: note_missing_def)

lemma note_missing_set:
  "set (note_missing pool ids missing) = set missing \<union> set (filter (\<lambda>i. find_by_product_id i pool = None) ids)
    \<and> (distinct missing \<longrightarrow> distinct (note_missing pool ids missing))"
proof (induction ids arbitrary: missing)
  case (Cons i ids)
  show ?case unfolding note_missing_Cons using Cons [of missing] Cons [of "missing @ [i]"] by auto
qed (simp add: note_missing_def)

lemma missing_products_set:
  "missing_products cc pool ms missing = Inr found \<Longrightarrow>
    set found = set missing \<union> set (filter (\<lambda>i. find_by_product_id i pool = None) (concat (map (mentioned_products cc) ms)))
    \<and> (distinct missing \<longrightarrow> distinct found)"
proof (induction ms arbitrary: missing)
  case (Cons m ms)
  obtain c where c: "parse_card cc (mr_content m) = Inr c"
    "missing_products cc pool ms (case c of None \<Rightarrow> missing
       | Some c \<Rightarrow> if cd_type c \<in> set product_card_types then note_missing pool (product_ids cc c) missing else missing) = Inr found"
    using Cons.prems by (auto simp: and_then_Inr_iff)
  have "(case c of None \<Rightarrow> missing
      | Some c \<Rightarrow> if cd_type c \<in> set product_card_types then note_missing pool (product_ids cc c) missing else missing)
    = note_missing pool (mentioned_products cc m) missing"
    using c(1) by (auto simp: mentioned_products_def note_missing_def split: option.split)
  from Cons.IH [OF c(2) [unfolded this]] show ?case using note_missing_set [of pool "mentioned_products cc m" missing] by auto
qed simp

lemma select_from_Cons:
  "own_conversations w self d (s # ss) =
     (if se_sid s = 0 \<or> \<not> has_prefix (session_key_prefix self) (se_key s) then own_conversations w self d ss
      else case get_conversation_detail w self (se_sid s) d of
             None \<Rightarrow> own_conversations w self d ss
           | Some conv \<Rightarrow> conv # own_conversations w self d ss)"
  by (auto simp: own_conversations_def List.map_filter_def split: option.split)

lemma select_from_spec:
  "select_from w cc pool self d ss = Inr ts \<Longrightarrow>
    list_all2 (target_of cc pool) (filter (\<lambda>conv. unknown_products cc pool conv \<noteq> []) (own_conversations w self d ss)) ts"
proof (induction ss arbitrary: ts)
  case Nil
  then show ?case by (simp add: own_conversations_def List.map_filter_def)
next
  case (Cons s ss)
  show ?case
  proof (cases "se_sid s = 0 \<or> \<not> has_prefix (session_key_prefix self) (se_key s) \<or> get_conversation_detail w self (se_sid s) d = None")
    case True
    then have "select_from w cc pool self d ss = Inr ts" using Cons.prems by (auto split: if_splits)
    from Cons.IH [OF this] True show ?thesis unfolding select_from_Cons by (auto split: option.split)
  next
    case False
    then obtain conv where conv: "get_conversation_detail w self (se_sid s) d = Some conv" by blast
    with False Cons.prems obtain missing rest where found: "missing_products cc pool (cd_messages conv) [] = Inr missing"
      and rest: "select_from w cc pool self d ss = Inr rest"
      and ts: "ts = (if missing \<noteq> [] then \<lparr>tg_sid = cd_sid conv, tg_contact = cd_contact conv, tg_products = missing\<rparr> # rest else rest)"
      by (auto simp: and_then_Inr_iff)
    have missing: "set missing = set (unknown_products cc pool conv)" "distinct missing"
      using missing_products_set [OF found] by (simp_all add: unknown_products_def)
    then have "missing \<noteq> [] \<longleftrightarrow> unknown_products cc pool conv \<noteq> []" by (metis set_empty)
    with Cons.IH [OF rest] False missing show ?thesis
      unfolding select_from_Cons ts by (auto simp: conv target_of_def)
  qed
qed

lemma select_targets_spec:
  "select_targets w cc pool self d = Inr ts \<Longrightarrow> list_all2 (target_of cc pool) (wanted_conversations w cc pool self d) ts"
  unfolding select_targets_def wanted_conversations_def by (rule select_from_spec)

lemma target_contacts: "list_all2 (target_of cc pool) cs ts \<Longrightarrow> map tg_contact ts = map cd_contact cs"
  by (induction rule: list_all2_induct) (auto simp: target_of_def)

lemma detail_contact:
  assumes "get_conversation_detail w self sid d = Some conv"
  shows "\<exists>s \<in> set (sd_sessions d). se_key s = session_key self (cd_contact conv)"
proof -
  obtain s where s: "own_session self sid d = Some s" "cd_contact conv = drop (length (session_key_prefix self)) (se_key s)"
    using assms by (auto simp: get_conversation_detail_def Let_def split: option.splits if_splits)
  then have "s \<in> set (sd_sessions d)" "has_prefix (session_key_prefix self) (se_key s)"
    by (auto simp: own_session_def dest: find_SomeD split: option.splits if_splits)
  then have "se_key s = session_key self (cd_contact conv)"
    unfolding session_key_split s(2) has_prefix_def by (metis append_take_drop_id)
  then show ?thesis using \<open>s \<in> set (sd_sessions d)\<close> by blast
qed

lemma wanted_contact:
  assumes "conv \<in> set (wanted_conversations w cc pool self d)"
  shows "\<exists>s \<in> set (sd_sessions d). se_key s = session_key self (cd_contact conv)"
proof -
  have "\<exists>s :: session_meta. get_conversation_detail w self (se_sid s) d = Some conv"
    using assms by (auto simp: wanted_conversations_def own_conversations_def List.map_filter_def split: if_splits)
  then show ?thesis by (elim exE) (rule detail_contact)
qed

lemma capture_epoch: "capture_gui_session b f e g = (Inr tk, g') \<Longrightarrow> tk_epoch tk = e"
  by (auto simp: capture_gui_session_def case_prod_beta require_context_def and_then_Inr_iff split: if_splits)

text \<open>
  C39: A sweep visits conversations only when it may and only those it is for: when it visits any, an account is selected, nothing of it
  waited in the outbox, and the visits are, in the order of the sessions, exactly the first twenty conversations of the account in which a
  message carries a product card with a product that the pool does not know. A visit types nothing into the client or a search that
  names its contact, and at that moment the token that the sweep took for the epoch of the account still matched the account and the window.
\<close>

theorem sweeps_are_guarded:
  assumes "sweep_once env v g = (failed, v', g', visits)" "visits \<noteq> []"
  shows "\<exists>ctx g0 tk. get_account_context None (ve_fresh env) g = (ctx, g0) \<and> ac_seller ctx \<noteq> [] \<and> ac_data_dir ctx \<noteq> []
    \<and> store_list_pending (ve_canon env) (ve_outbox env) (map status_name pending_statuses) (ac_seller ctx) (ac_data_dir ctx) = Inr []
    \<and> map fst visits = take 20 (map cd_contact
        (wanted_conversations (ve_world env) (ve_codec env) (ve_pool env 0) (ac_seller ctx) (ve_crm env)))
    \<and> (\<forall>contact \<in> fst ` set visits. \<exists>s \<in> set (sd_sessions (ve_crm env)). se_key s = session_key (ac_seller ctx) contact)
    \<and> tk_epoch tk = ac_epoch ctx
    \<and> (\<forall>(contact, h, h') \<in> set visits. g_posts h' = g_posts h
         \<or> g_posts h' = g_posts h @ [(''ContactSearch'', goto_contact_override contact)] \<and> authorised None tk h')"
proof -
  obtain ctx g0 where c: "get_account_context None (ve_fresh env) g = (ctx, g0)" by (metis surj_pair)
  let ?wanted = "wanted_conversations (ve_world env) (ve_codec env) (ve_pool env 0) (ac_seller ctx) (ve_crm env)"
  have some: "ac_seller ctx \<noteq> []" "ac_data_dir ctx \<noteq> []"
    using assms c by (auto simp: sweep_once_def split: if_splits)
  then obtain unresolved where busy: "outbox_busy env ctx = Inr False"
    and sel: "select_targets (ve_world env) (ve_codec env) (ve_pool env 0) (ac_seller ctx) (ve_crm env) = Inr unresolved"
    and run: "sweep_targets env ctx (take sweep_max_targets unresolved) (observe ''selecting'' (ve_clock env 0) v) g0 = (v', g', visits)"
    using assms c by (auto simp: sweep_once_def Let_def split: sum.splits bool.splits if_splits)
  obtain r g1 where cap: "capture_gui_session None (ve_fresh env) (ac_epoch ctx) g0 = (r, g1)" by (metis surj_pair)
  obtain tk where r: "r = Inr tk" using run assms(2) cap by (cases r) (auto simp: sweep_targets_def)
  note tk = cap [unfolded r]
  have visits: "visits = navigations (navigate_to env tk) (ve_pause env) 0 (take sweep_max_targets unresolved) g1"
    using run tk by (simp add: sweep_targets_def Let_def case_prod_beta)
  have "store_list_pending (ve_canon env) (ve_outbox env) (map status_name pending_statuses) (ac_seller ctx) (ac_data_dir ctx) = Inr []"
    using busy by (auto simp: outbox_busy_def and_then_Inr_iff)
  moreover have opened: "map fst visits = take 20 (map cd_contact ?wanted)"
    unfolding visits navigations_contacts take_map [symmetric] target_contacts [OF select_targets_spec [OF sel], symmetric]
    by (simp add: sweep_max_targets_def)
  moreover have "\<exists>s \<in> set (sd_sessions (ve_crm env)). se_key s = session_key (ac_seller ctx) contact" if "contact \<in> fst ` set visits" for contact
  proof -
    have "contact \<in> set (take 20 (map cd_contact ?wanted))" using that unfolding opened [symmetric] by simp
    then have "contact \<in> cd_contact ` set ?wanted" by (auto dest: in_set_takeD)
    then obtain conv where "conv \<in> set ?wanted" "contact = cd_contact conv" by blast
    then show ?thesis using wanted_contact by simp
  qed
  moreover note navigations_guarded [of env tk "ve_pause env" 0 "take sweep_max_targets unresolved" g1, folded visits]
  moreover have "tk_epoch tk = ac_epoch ctx" by (rule capture_epoch [OF tk])
  ultimately show ?thesis using c some by blast
qed

section \<open>Witness\<close>

definition demo_product_codec :: card_codec where
  "demo_product_codec = \<lparr>cc_decoders = demo_decoders,
     cc_raw_decode = (\<lambda>_ i. Inr (PDict [(''cardType'', PInt 3), (''params'', PDict [(''id'', PStr ''55'')])], i + 1)),
     cc_utf8 = (\<lambda>_. None), cc_base64 = (\<lambda>_. None), cc_unescape = id, cc_fixed = (\<lambda>_. [])\<rparr>"

definition demo_sweep :: sweep_env where
  "demo_sweep = \<lparr>ve_world = \<lparr>sw_decoders = demo_decoders, sw_canon = (\<lambda>p. p), sw_local = (\<lambda>t. PNone), sw_stamp = (\<lambda>v. 0),
       sw_sdk = \<lparr>sk_edit = (\<lambda>_ _. True), sk_fresh = (\<lambda>_ _. 1), sk_customer = \<lparr>cu_cid = 0, cu_name = PNone, cu_sex = PNone, cu_birthdate = PNone, cu_region = PNone, cu_extra = PNone, cu_image = PNone\<rparr>\<rparr>\<rparr>,
     ve_codec = demo_product_codec,
     ve_crm = \<lparr>sd_platforms = [], sd_customers = [], sd_accounts = [], sd_mappings = [],
       sd_sessions = [\<lparr>se_sid = 1, se_key = session_key ''12'' ''bob'', se_name = [], se_participants = PNone\<rparr>],
       sd_crm = \<lparr>crm_sessions = [], crm_archive = [\<lparr>cm_mid = ''m'', cm_sid = 1, cm_sender = PNone,
           cm_content = PDict [(''content'', PStr ''{'')], cm_type = PNone, cm_created = PNone, cm_local = PNone\<rparr>],
         crm_sync = None, crm_tables = False, crm_scopes = [], crm_ledger = [], crm_marks = []\<rparr>\<rparr>,
     ve_outbox = empty_db, ve_canon = (\<lambda>p. p), ve_pool = (\<lambda>_. dict_open []), ve_fresh = ''e1'', ve_native = (\<lambda>_. demo_native),
     ve_connection = (\<lambda>_. demo_connection ''c2''), ve_pause = (\<lambda>_ g. g), ve_clock = (\<lambda>_. 0)\<rparr>"

lemma demo_visits: "(case sweep_once demo_sweep new_view demo_connected of (_, _, _, visits) \<Rightarrow> map fst visits) = [''bob'']"
  by code_simp

lemma sweeps_are_guarded_witness:
  "\<exists>tk visits. sweep_once demo_sweep new_view demo_connected = (fst (sweep_once demo_sweep new_view demo_connected),
        fst (snd (sweep_once demo_sweep new_view demo_connected)), fst (snd (snd (sweep_once demo_sweep new_view demo_connected))), visits)
     \<and> map fst visits = [''bob'']
     \<and> (\<forall>(contact, h, h') \<in> set visits. g_posts h' = g_posts h
         \<or> g_posts h' = g_posts h @ [(''ContactSearch'', goto_contact_override contact)] \<and> authorised None tk h')"
proof -
  obtain failed v g' visits where s: "sweep_once demo_sweep new_view demo_connected = (failed, v, g', visits)" by (metis surj_pair)
  then have bob: "map fst visits = [''bob'']" using demo_visits by simp
  then have "visits \<noteq> []" by auto
  from sweeps_are_guarded [OF s this] bob s show ?thesis by auto
qed

end
