(* ===== verification/Spec2Isabelle.thy ===== *)
theory Spec2Isabelle
  imports Outbox_Store_Props Send_Verification Gui_Session Task_Queue Outbox_Service_Props Intent_Store
    Sync_Coordinator_Props Inbox_Store_Props Portrait_Store_Props
    Wal_Cache_Props Access_Gate_Props Update_Handoff_Props Reply_Effects_Props Experiments_Props Source_Messages Crm_Sync_Props Translation Card_Sweep
begin

text \<open>
  Verification of the backend of MaaAlibabaSupplier.

  The program is the backend of a seller's assistant for a messenger on Windows (\<^verbatim>\<open>src/backend/app\<close>): it reads
  the messenger's local database, keeps CRM tables beside it, lets language-model agents propose replies, and
  sends the replies a person has confirmed by operating the messenger's window. What must not go wrong is
  sending twice, sending something that was not confirmed, claiming that a message arrived without evidence,
  losing or inventing inbox entries, and changing data behind the back of another writer. The development
  models the parts of the code that decide these things.

  THE PARTS AND HOW THEY INTERACT

  A reply is proposed by an agent run (\<^verbatim>\<open>Reply_Effects\<close>), stored as an intent (\<^verbatim>\<open>Intent_Store\<close>) and, once accepted, put
  into the outbox (\<^verbatim>\<open>Outbox_Store\<close>). The service (\<^verbatim>\<open>Outbox_Service\<close>) moves an outbox task through its
  states, one worker at a time (\<^verbatim>\<open>Task_Queue\<close>), under a token of the selected account and window
  (\<^verbatim>\<open>Gui_Session\<close>), and afterwards looks for the message in a snapshot of the messenger's database
  (\<^verbatim>\<open>Send_Verification\<close>, \<^verbatim>\<open>Identities\<close>). A copy of the messenger's encrypted database is decrypted
  (\<^verbatim>\<open>Source_Cache\<close>, with the keys of \<^verbatim>\<open>Account_Keys\<close>) and, when the scheduler (\<^verbatim>\<open>Sync_Coordinator\<close>) says so, read into conversations
  (\<^verbatim>\<open>Chat_Source\<close>) and written in one transaction (\<^verbatim>\<open>Crm_Sync\<close>, with profiles from \<^verbatim>\<open>User_Pool\<close>): accounts and
  their aliases, messages (\<^verbatim>\<open>Sync_Store\<close>) and the inbox (\<^verbatim>\<open>Inbox_Store\<close>). Portraits and tags of customers are edited in batches
  (\<^verbatim>\<open>Portrait_Store\<close>). Requests pass the access control (\<^verbatim>\<open>Access_Gate\<close>), which also settles the handoff of an
  application update (\<^verbatim>\<open>Updater\<close>, \<^verbatim>\<open>Update_Handoff\<close>). Experiments compare versions of an agent (\<^verbatim>\<open>Experiments\<close>).

  THE THEORIES

  \<^item> \<^verbatim>\<open>Py_Prelude\<close>: Python values, exceptions, results, dictionaries, tables and strings; the locales
    \<open>invariant_system\<close> and \<open>tracked_system\<close>, which every stateful component interprets on its own step relation.
  \<^item> \<^verbatim>\<open>Outbox_State\<close>, \<^verbatim>\<open>Outbox_Store\<close> (\<^verbatim>\<open>crm/outbox_state.py\<close>, \<^verbatim>\<open>crm/outbox_store.py\<close>): statuses and transitions; the
    table of tasks and its history, with every public operation of the store as a function on the
    database. \<^verbatim>\<open>Outbox_Store_Inv\<close> gives the abstract contract, one validated write as a step, and its invariant;
    \<^verbatim>\<open>Outbox_Store_Props\<close> shows that the operations refine it and draws the consequences: a possible send is never
    replayed, final tasks never change, message claims are unique, creation is idempotent, recovery settles every task,
    outdated writes are refused (the locale \<open>versioned_store\<close>, interpreted for two operations).
  \<^item> \<^verbatim>\<open>Identities\<close>, \<^verbatim>\<open>Send_Verification\<close> (\<^verbatim>\<open>crm/identities.py\<close>, \<^verbatim>\<open>backend/send_verification.py\<close>): the names of an
    account's senders, and the matching of a snapshot against a possible send; soundness of a match, and no message
    proves two sends with the same contact text.
  \<^item> \<^verbatim>\<open>Gui_Session\<close> (\<^verbatim>\<open>backend/account_context.py\<close>, \<^verbatim>\<open>backend/gui_session.py\<close>, \<^verbatim>\<open>backend/maafw_runner.py\<close>): account
    selection with epochs, binding of the window with generations, and the guards around every action on the window.
  \<^item> \<^verbatim>\<open>Task_Queue\<close> (\<^verbatim>\<open>task_queue.py\<close>): queue and worker, first in first out, each accepted job once, shutdown drains.
  \<^item> \<^verbatim>\<open>Outbox_Service\<close>, \<^verbatim>\<open>Outbox_Service_Props\<close> (\<^verbatim>\<open>backend/outbox_service.py\<close>): requests, the sections of
    a job, terminal writes, reconciliation and shutdown as operations on one state with a log of effects; over every
    interleaving with crashes at most one click per task, only for a confirmed fresh picture, and observed only with evidence.
  \<^item> \<^verbatim>\<open>Sync_Store\<close> (\<^verbatim>\<open>crm/sync_store.py\<close>): snapshot state and batched writes; the batches compute the same
    as one write after the other (locale \<open>keyed_table\<close>, interpreted here and for the ledger of the inbox).
  \<^item> \<^verbatim>\<open>Intent_Store\<close> (\<^verbatim>\<open>crm/intent_store.py\<close>): the life of a reply intent and of its batch.
  \<^item> \<^verbatim>\<open>Sync_Coordinator\<close>, \<^verbatim>\<open>Sync_Coordinator_Props\<close> (\<^verbatim>\<open>backend/sync_coordinator.py\<close>): coalescing of requests, one
    running synchronisation per epoch, waiters, retries with a bounded delay, shutdown.
  \<^item> \<^verbatim>\<open>Inbox_Store\<close>, \<^verbatim>\<open>Inbox_Store_Props\<close> (\<^verbatim>\<open>crm/inbox_store.py\<close>, \<^verbatim>\<open>utils/crm_time.py\<close>): the append-only ledger, the
    states of conversations, snapshots and read marks.
  \<^item> \<^verbatim>\<open>Wal_Cache\<close>, \<^verbatim>\<open>Wal_Cache_Props\<close> (\<^verbatim>\<open>utils/im_wal.py\<close>): the check of a captured write-ahead log and its re-encoding
    in plain pages on words of 32 bits, which loses no frame.
  \<^item> \<^verbatim>\<open>Account_Keys\<close> (\<^verbatim>\<open>account_keys.py\<close>): the text of a key, the table of keys, trial decryption; a saved key is read back.
  \<^item> \<^verbatim>\<open>Source_Cache\<close> (\<^verbatim>\<open>backend/im_db_middleware.py\<close>): capture of the encrypted database with its log, building and
    adopting a decrypted copy, choice of the account's key, its validation at the start, pins of readers, cleanup and status.
    \<^verbatim>\<open>Source_Cache_Props\<close> follows every operation; \<^verbatim>\<open>Source_Cache_Runs\<close> shows over their interleavings that a
    refresh serves a whole verified copy or changes nothing, that copies in use stay and keep their contents, and that
    the verdict of a cancelled validation is dropped.
  \<^item> \<^verbatim>\<open>Source_Messages\<close> (\<^verbatim>\<open>backend/source_messages.py\<close>): the observation of one conversation in a pinned copy, which
    \<^verbatim>\<open>Send_Verification\<close> matches; it is the copy's content at the entry of the reader, and it is well typed.
  \<^item> \<^verbatim>\<open>Chat_Source\<close> (\<^verbatim>\<open>backend/im_chat_db.py\<close>): the rows of the messenger's message tables as conversations; every
    message of the account is in exactly one of them.
  \<^item> \<^verbatim>\<open>User_Pool\<close> (\<^verbatim>\<open>mitm/pool.py\<close>): the pools of captured profiles and cards with their tables; what is known of an
    account stays until the caches are reset.
  \<^item> \<^verbatim>\<open>Crm_Sync\<close>, \<^verbatim>\<open>Crm_Sync_Props\<close> (\<^verbatim>\<open>crm/sync.py\<close>): accounts, aliases, customers and conversations of a snapshot, with the
    conflicts between aliases; no alias, customer or contact moves, and a message of a snapshot reads back from the table.
  \<^item> \<^verbatim>\<open>Portrait_Store\<close>, \<^verbatim>\<open>Portrait_Store_Props\<close> (\<^verbatim>\<open>crm/customer_portrait_store.py\<close>, \<^verbatim>\<open>crm/views.py\<close>): portraits, tags and batches
    with version checks and a record of requests.
  \<^item> \<^verbatim>\<open>Updater\<close> (\<^verbatim>\<open>updater.py\<close>, \<^verbatim>\<open>update_runtime.py\<close>): the choice of a build, every locked section of the
    updater, and the helper process. \<^verbatim>\<open>Update_Handoff\<close> interleaves them with the requests and the write gate;
    \<^verbatim>\<open>Update_Handoff_Props\<close> shows that the lease, the gate and the displayed phase agree, that an install request ends
    committed or rolled back, with one commit per nonce, and that the wait for the helper ends.
  \<^item> \<^verbatim>\<open>Access_Gate\<close>, \<^verbatim>\<open>Access_Gate_Props\<close> (\<^verbatim>\<open>api/auth.py\<close>): limiter, sessions, the middleware's decision and the
    observation of the response; what passes the gate carries a session traced back to its issue.
  \<^item> \<^verbatim>\<open>Reply_Effects\<close>, \<^verbatim>\<open>Reply_Effects_Props\<close> (\<^verbatim>\<open>agent/reply_tool.py\<close>, \<^verbatim>\<open>agent/effect_dispatch.py\<close>, parts of
    \<^verbatim>\<open>agent/runner.py\<close> and \<^verbatim>\<open>agent/suggestions.py\<close>): the reply tool and the dispatcher, down to the rows of the intent table.
  \<^item> \<^verbatim>\<open>Experiments\<close>, \<^verbatim>\<open>Experiments_Props\<close> (\<^verbatim>\<open>agent/experiment_runs.py\<close>, \<^verbatim>\<open>agent/experiments.py\<close>,
    \<^verbatim>\<open>api/routers/experiments.py\<close>): the registry of runs, progress of steps, and retries.
  \<^item> \<^verbatim>\<open>Translation\<close> (\<^verbatim>\<open>translation_jobs.py\<close>, \<^verbatim>\<open>agent/translation.py\<close>, \<^verbatim>\<open>crm/translation_cache.py\<close>): short hashes, the agent's
    input and answer, chunks and jobs; no text gets another's translation, and a job ends.
  \<^item> \<^verbatim>\<open>Cards\<close> (\<^verbatim>\<open>cards.py\<close>): the card in the bytes of a message and its view, which does not depend on the seven denied fields.
  \<^item> \<^verbatim>\<open>Card_Sweep\<close> (\<^verbatim>\<open>backend/card_sweep_service.py\<close>): the selection of conversations with unknown products and the guarded
    visits to them in the client.

  HOW THE CODE IS MODELLED

  A component's state is a record of its attributes or its tables, in the order of the code; a table is
  a list of rows in insertion order, and its constraints are checked by the writes. An operation is a function that takes
  what the code reads from outside (clock readings, fresh identifiers, replies of the operating system, of
  the native framework and of other libraries) as arguments and returns a result beside the new state. Exceptions are
  values; a transaction that raises returns the state it was given. A section that holds a lock is one step; threads
  interleave between sections. Chinese texts that no branch reads are replaced by short tags. A character is
  one of the first 256 code points, so the Chinese words of one pattern are a parameter.

  BOUNDS

  The queue holds as many jobs, a request lives as long, and pictures, leases and read snapshots expire as in
  the code; these constants are definitions. Recursions follow the data; the batches of the two stores and the
  pages of an artifact list end by their length. Only the wait for the update helper repeats on outside events: it is
  a function of the rounds seen, and 601 rounds, the deadline of 30 seconds divided by the sleep of a twentieth of a
  second plus one, always decide it.

  WHAT MODELLING SHOWED

  \<^item> A failure with an empty text can never be settled: the store refuses the empty reason and the service
    takes that for a passing failure of the database (\<^verbatim>\<open>empty_failure_text_never_settled\<close>).
  \<^item> Retrying an agent step of an experiment removes one turn too many, because the checkpoint of the first run assumes
    the two turns of a buyer step (\<^verbatim>\<open>retried_agent_step_loses_turn\<close>).
  \<^item> One message extension that is JSON but no object makes the reading of all conversations fail
    (\<^verbatim>\<open>one_extension_stops_all\<close>).
  \<^item> A number of a profile that was 0 at the first capture is never filled in (\<^verbatim>\<open>zero_is_never_filled\<close>).
  \<^item> A card whose type is an infinite number makes its view and every sweep raise (\<^verbatim>\<open>infinite_card_type_raises\<close>); a
    product is taken for another one whose identifier contains its own (\<^verbatim>\<open>lookup_takes_a_part\<close>).
  \<^item> A card shows encrypted fields whose names are not in the list (\<^verbatim>\<open>other_encrypted_field_shown\<close>).
  \<^item> Two possible sends to two spellings of one contact do not exclude each other's message (\<^verbatim>\<open>two_spellings_share_a_message\<close>).

  NOT MODELLED

  The routers and the start-up only call the components above. SQLite's files, the CRM library, the cipher, proxies, image and window
  recognition, diagnostics, logging and the e-mail client are input and output around libraries. Of the
  updater, the HTTP client, the download, the unpacking, the pruning of staging directories and the Windows job are
  left to arguments; of the agents, the pipeline library, presets and prompts. The front end is TypeScript. Candidates
  for further work are the inbox queries.
\<close>

end
